(* ===== verification/Prelude.thy ===== *)
theory Prelude
  imports Main
begin

text \<open>
  The shared vocabulary of the development.  Go strings and byte slices are both lists of 8-bit
  characters; Go's 64-bit signed integers are mathematical integers with the wrap-around of
  their additions written out (\<open>wrap64\<close>); an \<open>error\<close> result is a value of
  the datatype \<open>err\<close>, whose constructor \<open>Wrapf\<close> is
  \<open>fmt.Errorf("msg: %w", e)\<close> and whose sentinels are the package-level error
  variables; a fallible call returns \<open>err + 'a\<close>.  Only the constant text of a message is
  kept, not the values formatted into it.

  The theory also holds the functions of the Go packages \<open>strings\<close> and
  \<open>errors\<close> the program calls, and the generic lemmas on lists, strings and
  wrapped integers used by the component theories.
\<close>

section \<open>Types\<close>

type_synonym bytes = string
type_synonym gotime = int
  \<comment> \<open>nanoseconds since the zero value of \<open>time.Time\<close>, which is therefore 0\<close>

abbreviation slash :: char where "slash \<equiv> CHR ''/''"

datatype err =
    ErrLockConflict
  | ErrLockNotHeld
  | ErrNotExist
  | NoSuchKey
  | ErrNoRows
  | ErrContext
  | ErrWriteAtUnsupported
  | Errorf string
  | Wrapf string err
  | Ext string

type_synonym 'a res = "err + 'a"

named_theorems go_simps "evaluation rules of the Go helper functions"

section \<open>errors.Is\<close>

fun errors_Is :: "err \<Rightarrow> err \<Rightarrow> bool" where
  "errors_Is (Wrapf m e) t = (Wrapf m e = t \<or> errors_Is e t)"
| "errors_Is e t = (e = t)"

section \<open>64-bit signed integers\<close>

definition max_int64 :: int where "max_int64 = 9223372036854775807"

definition min_int64 :: int where "min_int64 = - 9223372036854775808"

definition in_int64 :: "int \<Rightarrow> bool" where
  "in_int64 x \<longleftrightarrow> min_int64 \<le> x \<and> x \<le> max_int64"

definition wrap64 :: "int \<Rightarrow> int" where
  "wrap64 x = (x + 9223372036854775808) mod 18446744073709551616 - 9223372036854775808"

text \<open>Go's integer division and remainder truncate towards zero.\<close>

definition go_quot :: "int \<Rightarrow> int \<Rightarrow> int" where
  "go_quot a b = sgn a * sgn b * (\<bar>a\<bar> div \<bar>b\<bar>)"

definition go_rem :: "int \<Rightarrow> int \<Rightarrow> int" where
  "go_rem a b = a - b * go_quot a b"

section \<open>The package strings\<close>

definition HasPrefix :: "string \<Rightarrow> string \<Rightarrow> bool" where
  "HasPrefix s pre \<longleftrightarrow> take (length pre) s = pre"

definition HasSuffix :: "string \<Rightarrow> string \<Rightarrow> bool" where
  "HasSuffix s suf \<longleftrightarrow> HasPrefix (rev s) (rev suf)"

definition TrimPrefix :: "string \<Rightarrow> string \<Rightarrow> string" where
  "TrimPrefix s pre = (if HasPrefix s pre then drop (length pre) s else s)"

fun Contains :: "string \<Rightarrow> string \<Rightarrow> bool" where
  "Contains [] sub = (sub = [])"
| "Contains (c # s) sub = (HasPrefix (c # s) sub \<or> Contains s sub)"

fun ContainsAny :: "string \<Rightarrow> string \<Rightarrow> bool" where
  "ContainsAny [] cs = False"
| "ContainsAny (c # s) cs = (c \<in> set cs \<or> ContainsAny s cs)"

text \<open>\<open>strings.Split(s, sep)\<close> for a separator of one byte; it never returns the
  empty list.\<close>

fun Split :: "char \<Rightarrow> string \<Rightarrow> string list" where
  "Split c [] = [[]]"
| "Split c (x # xs) =
     (if x = c then [] # Split c xs
      else (case Split c xs of [] \<Rightarrow> [[x]] | y # ys \<Rightarrow> (x # y) # ys))"

fun JoinStr :: "char \<Rightarrow> string list \<Rightarrow> string" where
  "JoinStr c [] = []"
| "JoinStr c [x] = x"
| "JoinStr c (x # y # ys) = x @ c # JoinStr c (y # ys)"

text \<open>The UTF-8 encodings of the white space of \<open>strings.TrimSpace\<close>
  (\<open>unicode.IsSpace\<close>).\<close>

definition space_seqs :: "string list" where
  "space_seqs =
     [[CHR 0x09], [CHR 0x0A], [CHR 0x0B], [CHR 0x0C], [CHR 0x0D], [CHR 0x20],
      [CHR 0xC2, CHR 0x85], [CHR 0xC2, CHR 0xA0], [CHR 0xE1, CHR 0x9A, CHR 0x80],
      [CHR 0xE2, CHR 0x80, CHR 0x80], [CHR 0xE2, CHR 0x80, CHR 0x81],
      [CHR 0xE2, CHR 0x80, CHR 0x82], [CHR 0xE2, CHR 0x80, CHR 0x83],
      [CHR 0xE2, CHR 0x80, CHR 0x84], [CHR 0xE2, CHR 0x80, CHR 0x85],
      [CHR 0xE2, CHR 0x80, CHR 0x86], [CHR 0xE2, CHR 0x80, CHR 0x87],
      [CHR 0xE2, CHR 0x80, CHR 0x88], [CHR 0xE2, CHR 0x80, CHR 0x89],
      [CHR 0xE2, CHR 0x80, CHR 0x8A], [CHR 0xE2, CHR 0x80, CHR 0xA8],
      [CHR 0xE2, CHR 0x80, CHR 0xA9], [CHR 0xE2, CHR 0x80, CHR 0xAF],
      [CHR 0xE2, CHR 0x81, CHR 0x9F], [CHR 0xE3, CHR 0x80, CHR 0x80]]"

fun strip_one :: "string list \<Rightarrow> string \<Rightarrow> string option" where
  "strip_one [] s = None"
| "strip_one (q # qs) s =
     (if q \<noteq> [] \<and> HasPrefix s q then Some (drop (length q) s) else strip_one qs s)"

lemma strip_one_shorter: "strip_one qs s = Some t \<Longrightarrow> length t < length s"
proof (induction qs)
  case (Cons q qs)
  show ?case
  proof (cases "q \<noteq> [] \<and> HasPrefix s q")
    case True
    then have "s \<noteq> []" by (auto simp: HasPrefix_def)
    with True Cons.prems show ?thesis by (cases q; cases s) auto
  next
    case False
    then have "strip_one (q # qs) s = strip_one qs s" by auto
    with Cons show ?thesis by metis
  qed
qed simp

function strip_all :: "string list \<Rightarrow> string \<Rightarrow> string" where
  "strip_all qs s = (case strip_one qs s of None \<Rightarrow> s | Some t \<Rightarrow> strip_all qs t)"
  by pat_completeness auto
termination
  by (relation "measure (\<lambda>(qs, s). length s)") (auto dest: strip_one_shorter)

declare strip_all.simps [simp del]

definition TrimSpace :: "string \<Rightarrow> string" where
  "TrimSpace s = rev (strip_all (map rev space_seqs) (rev (strip_all space_seqs s)))"

definition ascii_lower :: "char \<Rightarrow> char" where
  "ascii_lower c =
     (let n = (of_char c :: nat)
      in if 65 \<le> n \<and> n \<le> 90 then char_of (n + 32) else c)"

text \<open>
  \<open>strings.EqualFold(s, "desc")\<close>: ASCII letters fold by case and U+017F (bytes C5 BF)
  folds with \<open>s\<close>; no other character folds with a letter of the word.
\<close>

fun fold_long_s :: "string \<Rightarrow> string" where
  "fold_long_s [] = []"
| "fold_long_s [c] = [c]"
| "fold_long_s (c # d # s) =
     (if c = CHR 0xC5 \<and> d = CHR 0xBF then CHR ''s'' # fold_long_s s
      else c # fold_long_s (d # s))"

definition EqualFold_desc :: "string \<Rightarrow> bool" where
  "EqualFold_desc s \<longleftrightarrow> map ascii_lower (fold_long_s s) = ''desc''"

section \<open>Lemmas on wrapped integers\<close>

lemma wrap64_id [go_simps]: "in_int64 x \<Longrightarrow> wrap64 x = x"
  by (simp add: in_int64_def wrap64_def min_int64_def max_int64_def)

lemma wrap64_nonneg_id: "0 \<le> x \<Longrightarrow> x \<le> 9223372036854775807 \<Longrightarrow> wrap64 x = x"
  by (rule wrap64_id) (simp add: in_int64_def min_int64_def max_int64_def)

lemma wrap64_range: "in_int64 (wrap64 x)"
proof -
  have "0 \<le> (x + 9223372036854775808) mod 18446744073709551616" by simp
  moreover have "(x + 9223372036854775808) mod 18446744073709551616 < 18446744073709551616"
    by simp
  ultimately show ?thesis
    unfolding in_int64_def wrap64_def min_int64_def max_int64_def by linarith
qed

lemma wrap64_add_left: "wrap64 (wrap64 a + b) = wrap64 (a + b)"
  by (simp add: wrap64_def mod_simps ac_simps)

lemma wrap64_overflow:
  "max_int64 < x \<Longrightarrow> x \<le> max_int64 + 9223372036854775808 \<Longrightarrow> wrap64 x < 0"
proof -
  assume a: "max_int64 < x" "x \<le> max_int64 + 9223372036854775808"
  have "(x + 9223372036854775808) mod 18446744073709551616 =
        (x - 9223372036854775808 + 1 * 18446744073709551616) mod 18446744073709551616"
    by (simp add: add.commute)
  also have "\<dots> = (x - 9223372036854775808) mod 18446744073709551616"
    by (simp only: mod_mult_self1)
  also have "\<dots> = x - 9223372036854775808"
    using a by (simp add: max_int64_def)
  finally show ?thesis using a by (simp add: wrap64_def max_int64_def)
qed

lemma go_quot_nonneg: "0 \<le> a \<Longrightarrow> 0 < b \<Longrightarrow> go_quot a b = a div b"
  by (cases "a = 0") (auto simp: go_quot_def)

lemma go_rem_nonneg: "0 \<le> a \<Longrightarrow> 0 < b \<Longrightarrow> go_rem a b = a mod b"
  by (simp add: go_rem_def go_quot_nonneg minus_mult_div_eq_mod)

section \<open>Lemmas on strings\<close>

lemma HasPrefix_iff: "HasPrefix s pre \<longleftrightarrow> (\<exists>t. s = pre @ t)"
proof
  assume "HasPrefix s pre"
  then have "s = pre @ drop (length pre) s"
    by (metis HasPrefix_def append_take_drop_id)
  then show "\<exists>t. s = pre @ t" by blast
qed (auto simp: HasPrefix_def)

lemma HasPrefix_append [simp]: "HasPrefix (p @ s) p"
  by (simp add: HasPrefix_def)

lemma HasSuffix_iff: "HasSuffix s suf \<longleftrightarrow> (\<exists>t. s = t @ suf)"
  unfolding HasSuffix_def HasPrefix_iff by (metis rev_append rev_rev_ident)

lemma Contains_iff: "Contains s sub \<longleftrightarrow> (\<exists>a b. s = a @ sub @ b)"
proof (induction s)
  case (Cons c s)
  show ?case
  proof
    assume "Contains (c # s) sub"
    then consider "HasPrefix (c # s) sub" | "Contains s sub" by auto
    then show "\<exists>a b. c # s = a @ sub @ b"
    proof cases
      case 1
      then show ?thesis by (metis HasPrefix_iff append_Nil)
    next
      case 2
      then show ?thesis using Cons.IH by (metis append_Cons)
    qed
  next
    assume "\<exists>a b. c # s = a @ sub @ b"
    then obtain a b where ab: "c # s = a @ sub @ b" by blast
    show "Contains (c # s) sub"
    proof (cases a)
      case Nil
      then have "HasPrefix (c # s) sub" using ab by (auto simp: HasPrefix_iff)
      then show ?thesis by simp
    next
      case (Cons d a')
      with ab have "s = a' @ sub @ b" by simp
      with Cons.IH show ?thesis by auto
    qed
  qed
qed auto

lemma ContainsAny_iff: "ContainsAny s cs \<longleftrightarrow> (\<exists>c \<in> set s. c \<in> set cs)"
  by (induction s) auto

lemma Split_not_Nil [simp]: "Split c s \<noteq> []"
  by (cases s) (auto split: list.splits)

lemma Split_Cons_neq:
  "x \<noteq> c \<Longrightarrow> Split c (x # xs) = (x # hd (Split c xs)) # tl (Split c xs)"
  by (cases "Split c xs") auto

lemma Split_no_sep: "c \<notin> set s \<Longrightarrow> Split c s = [s]"
  by (induction s) auto

lemma Split_parts_no_sep: "p \<in> set (Split c s) \<Longrightarrow> c \<notin> set p"
proof (induction s arbitrary: p)
  case (Cons x xs)
  then show ?case by (cases "Split c xs") (auto split: if_splits)
qed simp

lemma Split_append_sep: "Split c (s @ c # t) = Split c s @ Split c t"
proof (induction s)
  case (Cons x s)
  show ?case
  proof (cases "x = c")
    case False
    then show ?thesis using Cons by (cases "Split c s") auto
  qed (use Cons in simp)
qed simp

lemma JoinStr_Cons: "ys \<noteq> [] \<Longrightarrow> JoinStr c (x # ys) = x @ c # JoinStr c ys"
  by (cases ys) auto

lemma JoinStr_Split [simp]: "JoinStr c (Split c s) = s"
proof (induction s)
  case (Cons x s)
  show ?case
  proof (cases "x = c")
    case True
    with Cons show ?thesis by (simp add: JoinStr_Cons)
  next
    case False
    obtain y ys where y: "Split c s = y # ys" by (cases "Split c s") auto
    with Cons False show ?thesis by (cases ys) auto
  qed
qed simp

lemma Split_JoinStr:
  "ps \<noteq> [] \<Longrightarrow> (\<And>p. p \<in> set ps \<Longrightarrow> c \<notin> set p) \<Longrightarrow> Split c (JoinStr c ps) = ps"
proof (induction ps)
  case (Cons p ps)
  show ?case
  proof (cases ps)
    case Nil
    with Cons.prems show ?thesis by (simp add: Split_no_sep)
  next
    case (Cons q qs)
    then have "Split c (JoinStr c (p # ps)) = Split c p @ Split c (JoinStr c ps)"
      by (simp add: JoinStr_Cons Split_append_sep)
    also have "\<dots> = [p] @ ps"
      using Cons.IH Cons.prems Cons by (simp add: Split_no_sep)
    finally show ?thesis by simp
  qed
qed simp

lemma JoinStr_append:
  "ps \<noteq> [] \<Longrightarrow> qs \<noteq> [] \<Longrightarrow> JoinStr c (ps @ qs) = JoinStr c ps @ c # JoinStr c qs"
proof (induction ps)
  case (Cons p ps)
  then show ?case by (cases ps) (auto simp: JoinStr_Cons)
qed simp

section \<open>Lemmas on lists\<close>

lemma filter_remove1_distinct:
  "distinct xs \<Longrightarrow> remove1 x xs = filter (\<lambda>y. y \<noteq> x) xs"
  by (simp add: distinct_remove1_removeAll removeAll_filter_not_eq) (metis (mono_tags, lifting))

end
