(* ===== verification/Path_Locks.thy ===== *)
theory Path_Locks
  imports Prelude
begin

text \<open>
  The mutexes per path: \<open>lockFile\<close>, \<open>unlockFile\<close> and \<open>CleanFileLocks\<close> of
  \<open>src/internal/service/filemanager/manager.go\<close>, and the path locks of the two storages.
  A mutex is a number, the \<open>sync.Map\<close> a map from paths to mutexes.  Every call on the map and on
  a mutex is one step, the steps of any number of goroutines and of the goroutine that cleans up
  interleave as a list of actions; \<open>act\<close> gives \<open>None\<close> when the action is not possible,
  because the goroutine is elsewhere or blocks.
\<close>

section \<open>Mutexes\<close>

text \<open>Where a goroutine is: it has loaded the mutex and waits for it, it is between \<open>lockFile\<close>
  and \<open>unlockFile\<close> (the mutex it locked is recorded), or it has loaded the mutex that it is about
  to unlock.\<close>

datatype place = Idle | Waiting string nat | Inside string nat | Leaving string nat

text \<open>Where the clean-up is with one entry: it has locked the mutex, unlocked it again, or found
  that the file does not exist.\<close>

datatype cleaner = CIdle | CTried string nat | CFree string | CDelete string

record lock_state =
  lk_map :: "string \<rightharpoonup> nat"
  lk_locked :: "nat \<Rightarrow> bool"
  lk_next :: nat
  lk_place :: "nat \<Rightarrow> place"
  lk_clean :: cleaner
  lk_fatal :: bool

definition lk_init :: lock_state where
  "lk_init = \<lparr>lk_map = Map.empty, lk_locked = (\<lambda>_. False), lk_next = 0, lk_place = (\<lambda>_. Idle), lk_clean = CIdle,
     lk_fatal = False\<rparr>"

definition set_place :: "nat \<Rightarrow> place \<Rightarrow> lock_state \<Rightarrow> lock_state" where
  "set_place g pl s = s\<lparr>lk_place := (lk_place s)(g := pl)\<rparr>"

definition LoadOrStore :: "string \<Rightarrow> lock_state \<Rightarrow> nat \<times> lock_state" where
  "LoadOrStore path s =
     (case lk_map s path of
        Some m \<Rightarrow> (m, s)
      | None \<Rightarrow> (lk_next s, s\<lparr>lk_map := (lk_map s)(path \<mapsto> lk_next s), lk_next := Suc (lk_next s)\<rparr>))"

definition mutex_Lock :: "nat \<Rightarrow> lock_state \<Rightarrow> lock_state option" where
  "mutex_Lock m s = (if lk_locked s m then None else Some (s\<lparr>lk_locked := (lk_locked s)(m := True)\<rparr>))"

text \<open>To unlock a mutex that is not locked ends the process.\<close>

definition mutex_Unlock :: "nat \<Rightarrow> lock_state \<Rightarrow> lock_state" where
  "mutex_Unlock m s =
     (if lk_locked s m then s\<lparr>lk_locked := (lk_locked s)(m := False)\<rparr> else s\<lparr>lk_fatal := True\<rparr>)"

section \<open>Locking a path\<close>

definition lockFile_load :: "nat \<Rightarrow> string \<Rightarrow> lock_state \<Rightarrow> lock_state option" where
  "lockFile_load g path s =
     (if lk_place s g = Idle then case LoadOrStore path s of (m, s1) \<Rightarrow> Some (set_place g (Waiting path m) s1)
      else None)"

definition lockFile_lock :: "nat \<Rightarrow> lock_state \<Rightarrow> lock_state option" where
  "lockFile_lock g s =
     (case lk_place s g of
        Waiting path m \<Rightarrow> (case mutex_Lock m s of None \<Rightarrow> None | Some s1 \<Rightarrow> Some (set_place g (Inside path m) s1))
      | _ \<Rightarrow> None)"

definition unlockFile_load :: "nat \<Rightarrow> lock_state \<Rightarrow> lock_state option" where
  "unlockFile_load g s =
     (case lk_place s g of
        Inside path m \<Rightarrow>
          (case lk_map s path of
             None \<Rightarrow> Some (set_place g Idle s)
           | Some m1 \<Rightarrow> Some (set_place g (Leaving path m1) s))
      | _ \<Rightarrow> None)"

definition unlockFile_unlock :: "nat \<Rightarrow> lock_state \<Rightarrow> lock_state option" where
  "unlockFile_unlock g s =
     (case lk_place s g of
        Leaving path m \<Rightarrow> Some (set_place g Idle (mutex_Unlock m s))
      | _ \<Rightarrow> None)"

text \<open>The storages keep the pointer to the mutex and unlock it directly.\<close>

definition release :: "nat \<Rightarrow> lock_state \<Rightarrow> lock_state option" where
  "release g s =
     (case lk_place s g of
        Inside path m \<Rightarrow> Some (set_place g Idle (mutex_Unlock m s))
      | _ \<Rightarrow> None)"

section \<open>Cleaning up\<close>

definition clean_visit :: "string \<Rightarrow> lock_state \<Rightarrow> lock_state option" where
  "clean_visit path s =
     (if lk_clean s = CIdle then
        case lk_map s path of
          None \<Rightarrow> None
        | Some m \<Rightarrow> (case mutex_Lock m s of None \<Rightarrow> Some s | Some s1 \<Rightarrow> Some (s1\<lparr>lk_clean := CTried path m\<rparr>))
      else None)"

definition clean_unlock :: "lock_state \<Rightarrow> lock_state option" where
  "clean_unlock s =
     (case lk_clean s of CTried path m \<Rightarrow> Some ((mutex_Unlock m s)\<lparr>lk_clean := CFree path\<rparr>) | _ \<Rightarrow> None)"

definition clean_exists :: "bool \<Rightarrow> lock_state \<Rightarrow> lock_state option" where
  "clean_exists ex s =
     (case lk_clean s of CFree path \<Rightarrow> Some (s\<lparr>lk_clean := if ex then CIdle else CDelete path\<rparr>) | _ \<Rightarrow> None)"

definition clean_delete :: "lock_state \<Rightarrow> lock_state option" where
  "clean_delete s =
     (case lk_clean s of
        CDelete path \<Rightarrow> Some (s\<lparr>lk_map := (lk_map s)(path := None), lk_clean := CIdle\<rparr>)
      | _ \<Rightarrow> None)"

section \<open>Interleavings\<close>

datatype action =
    LockLoad nat string | LockMutex nat | UnlockLoad nat | UnlockMutex nat | Release nat
  | CleanVisit string | CleanUnlock | CleanExists bool | CleanDelete

fun act :: "action \<Rightarrow> lock_state \<Rightarrow> lock_state option" where
  "act (LockLoad g path) s = lockFile_load g path s"
| "act (LockMutex g) s = lockFile_lock g s"
| "act (UnlockLoad g) s = unlockFile_load g s"
| "act (UnlockMutex g) s = unlockFile_unlock g s"
| "act (Release g) s = release g s"
| "act (CleanVisit path) s = clean_visit path s"
| "act CleanUnlock s = clean_unlock s"
| "act (CleanExists ex) s = clean_exists ex s"
| "act CleanDelete s = clean_delete s"

fun lk_run :: "action list \<Rightarrow> lock_state \<Rightarrow> lock_state option" where
  "lk_run [] s = Some s"
| "lk_run (a # as) s =
     (if lk_fatal s then None else case act a s of None \<Rightarrow> None | Some s1 \<Rightarrow> lk_run as s1)"

section \<open>The invariant\<close>

text \<open>A goroutine has an entry while it waits for its mutex or holds it.\<close>

definition has_entry :: "lock_state \<Rightarrow> nat \<Rightarrow> string \<Rightarrow> nat \<Rightarrow> bool" where
  "has_entry s g p m \<longleftrightarrow> lk_place s g \<in> {Waiting p m, Inside p m, Leaving p m}"

definition holds :: "lock_state \<Rightarrow> nat \<Rightarrow> nat \<Rightarrow> bool" where
  "holds s g m \<longleftrightarrow> (\<exists>p. lk_place s g = Inside p m \<or> lk_place s g = Leaving p m)"

definition trying :: "lock_state \<Rightarrow> nat \<Rightarrow> bool" where
  "trying s m \<longleftrightarrow> (\<exists>p. lk_clean s = CTried p m)"

text \<open>The clean-up deletes an entry only when no goroutine has it.\<close>

definition quiet :: "action \<Rightarrow> lock_state \<Rightarrow> bool" where
  "quiet a s \<longleftrightarrow> (a = CleanDelete \<longrightarrow> (\<forall>p g m. lk_clean s = CDelete p \<longrightarrow> \<not> has_entry s g p m))"

fun quiet_run :: "action list \<Rightarrow> lock_state \<Rightarrow> bool" where
  "quiet_run [] s \<longleftrightarrow> True"
| "quiet_run (a # as) s \<longleftrightarrow> quiet a s \<and> (case act a s of None \<Rightarrow> True | Some s1 \<Rightarrow> quiet_run as s1)"

definition map_inv :: "lock_state \<Rightarrow> bool" where
  "map_inv s \<longleftrightarrow>
     (\<forall>p m. lk_map s p = Some m \<longrightarrow> m < lk_next s) \<and>
     (\<forall>p q m. lk_map s p = Some m \<and> lk_map s q = Some m \<longrightarrow> p = q) \<and>
     (\<forall>g p m. has_entry s g p m \<longrightarrow> lk_map s p = Some m) \<and>
     (\<forall>p m. lk_clean s = CTried p m \<longrightarrow> lk_map s p = Some m)"

definition mutex_inv :: "lock_state \<Rightarrow> bool" where
  "mutex_inv s \<longleftrightarrow>
     (\<forall>m. lk_locked s m \<longleftrightarrow> (\<exists>g. holds s g m) \<or> trying s m) \<and>
     (\<forall>g m. holds s g m \<longrightarrow> \<not> trying s m) \<and>
     (\<forall>g h m. holds s g m \<and> holds s h m \<longrightarrow> g = h)"

definition lk_inv :: "lock_state \<Rightarrow> bool" where
  "lk_inv s \<longleftrightarrow> \<not> lk_fatal s \<and> map_inv s \<and> mutex_inv s"

lemma holds_entry: "holds s g m \<Longrightarrow> \<exists>p. has_entry s g p m"
  by (auto simp: holds_def has_entry_def)

lemmas lock_defs = lockFile_load_def lockFile_lock_def unlockFile_load_def unlockFile_unlock_def release_def
  clean_visit_def clean_unlock_def clean_exists_def clean_delete_def

lemmas inv_defs = lk_inv_def map_inv_def mutex_inv_def has_entry_def holds_def trying_def

lemma inv_init: "lk_inv lk_init"
  by (simp add: inv_defs lk_init_def)

lemma inv_entry: "lk_inv s \<Longrightarrow> has_entry s g p m \<Longrightarrow> lk_map s p = Some m"
  by (simp add: lk_inv_def map_inv_def)

lemma inv_locked: "lk_inv s \<Longrightarrow> holds s g m \<Longrightarrow> lk_locked s m"
  by (auto simp: lk_inv_def mutex_inv_def)

lemma inv_one_holder: "lk_inv s \<Longrightarrow> holds s g m \<Longrightarrow> holds s h m \<Longrightarrow> g = h"
  unfolding lk_inv_def mutex_inv_def by blast

text \<open>The invariant of the map in a state that has the entries and goroutines of another.\<close>

lemma map_inv_sub:
  assumes "map_inv s" and "lk_map s' = lk_map s" and "lk_next s' = lk_next s"
    and "\<And>g p m. has_entry s' g p m \<Longrightarrow> has_entry s g p m"
    and "\<And>p m. lk_clean s' = CTried p m \<Longrightarrow> lk_map s p = Some m"
  shows "map_inv s'"
  using assms(1) unfolding map_inv_def assms(2,3) by (meson assms(4,5))

lemma map_inv_fresh:
  assumes i: "map_inv s" and n: "lk_map s path = None"
  shows "map_inv (s\<lparr>lk_map := (lk_map s)(path \<mapsto> lk_next s), lk_next := Suc (lk_next s)\<rparr>)" (is "map_inv ?s")
proof -
  have lt: "m < lk_next s" if "lk_map s p = Some m" for p m using i that by (simp add: map_inv_def)
  have ne: "lk_map s p \<noteq> Some (lk_next s)" for p using lt by blast
  have e: "p \<noteq> path \<and> lk_map s p = Some m" if "has_entry s g p m" for g p m
    using i that n unfolding map_inv_def by (metis option.distinct(1))
  have t: "p \<noteq> path \<and> lk_map s p = Some m" if "lk_clean s = CTried p m" for p m
    using i that n unfolding map_inv_def by (metis option.distinct(1))
  have "\<forall>p m. lk_map ?s p = Some m \<longrightarrow> m < lk_next ?s" by (simp add: lt less_SucI)
  moreover have "\<forall>p q m. lk_map ?s p = Some m \<and> lk_map ?s q = Some m \<longrightarrow> p = q"
    using i ne by (simp add: map_inv_def)
  moreover have "\<forall>g p m. has_entry ?s g p m \<longrightarrow> lk_map ?s p = Some m" using e by (simp add: has_entry_def)
  moreover have "\<forall>p m. lk_clean ?s = CTried p m \<longrightarrow> lk_map ?s p = Some m" using t by simp
  ultimately show ?thesis unfolding map_inv_def by blast
qed

lemma inv_LoadOrStore:
  assumes "lk_inv s" and "LoadOrStore path s = (m, s1)"
  shows "lk_inv s1 \<and> lk_map s1 path = Some m \<and> lk_place s1 = lk_place s"
proof (cases "lk_map s path")
  case None
  have "lk_inv (s\<lparr>lk_map := (lk_map s)(path \<mapsto> lk_next s), lk_next := Suc (lk_next s)\<rparr>)"
    using assms(1) map_inv_fresh [OF _ None] by (simp add: lk_inv_def mutex_inv_def holds_def trying_def)
  with None assms(2) show ?thesis by (auto simp: LoadOrStore_def)
qed (use assms in \<open>auto simp: LoadOrStore_def\<close>)

lemma inv_lock_load:
  assumes "lk_inv s" and "lockFile_load g path s = Some s'"
  shows "lk_inv s'"
proof -
  obtain m s1 where l: "LoadOrStore path s = (m, s1)" by fastforce
  from assms(2) l have s': "s' = set_place g (Waiting path m) s1" and "lk_place s g = Idle"
    by (auto simp: lockFile_load_def split: if_splits)
  with inv_LoadOrStore [OF assms(1) l] have 1: "lk_inv s1" "lk_map s1 path = Some m" "lk_place s1 g = Idle" by auto
  have "map_inv s'" using 1 by (auto simp: s' lk_inv_def map_inv_def set_place_def has_entry_def)
  moreover have "holds s' h k = holds s1 h k" for h k using 1(3) by (simp add: s' holds_def set_place_def)
  ultimately show ?thesis using 1(1) by (simp add: lk_inv_def mutex_inv_def s' trying_def set_place_def)
qed

lemma inv_lock:
  assumes "lk_inv s" and "lockFile_lock g s = Some s'"
  shows "lk_inv s'"
proof -
  from assms(2) obtain path m where w: "lk_place s g = Waiting path m" and free: "\<not> lk_locked s m"
    and s': "s' = set_place g (Inside path m) (s\<lparr>lk_locked := (lk_locked s)(m := True)\<rparr>)"
    by (auto simp: lockFile_lock_def mutex_Lock_def split: place.splits if_splits)
  have e: "has_entry s' h p k = has_entry s h p k" for h p k using w by (auto simp: s' has_entry_def set_place_def)
  have h: "holds s' h k \<longleftrightarrow> h = g \<and> k = m \<or> h \<noteq> g \<and> holds s h k" for h k
    by (auto simp: s' holds_def set_place_def)
  have "\<not> holds s g k" for k using w by (simp add: holds_def)
  moreover have "\<not> holds s h m" "\<not> trying s m" for h using assms(1) free by (auto simp: lk_inv_def mutex_inv_def)
  moreover have "trying s' k = trying s k" "lk_locked s' k \<longleftrightarrow> k = m \<or> lk_locked s k" for k
    by (auto simp: s' trying_def set_place_def)
  ultimately have "mutex_inv s'" using assms(1) h unfolding lk_inv_def mutex_inv_def by metis
  then show ?thesis using assms(1) e by (simp add: lk_inv_def map_inv_def s' set_place_def)
qed

text \<open>Giving up a mutex that the goroutine holds.\<close>

lemma inv_give_up:
  assumes "lk_inv s" and "holds s g m"
  shows "lk_inv (set_place g Idle (mutex_Unlock m s))"
proof -
  have l: "lk_locked s m" using inv_locked [OF assms] .
  let ?s = "set_place g Idle (mutex_Unlock m s)"
  have e: "has_entry ?s h p k \<Longrightarrow> has_entry s h p k" for h p k
    using l by (auto simp: has_entry_def set_place_def mutex_Unlock_def split: if_splits)
  have h: "holds ?s h k \<longleftrightarrow> h \<noteq> g \<and> holds s h k" for h k
    using l by (auto simp: holds_def set_place_def mutex_Unlock_def)
  have k: "holds s g k \<longleftrightarrow> k = m" for k using assms(2) by (auto simp: holds_def)
  have t: "trying ?s k = trying s k" "lk_locked ?s k \<longleftrightarrow> k \<noteq> m \<and> lk_locked s k" for k
    using l by (auto simp: trying_def set_place_def mutex_Unlock_def)
  have "mutex_inv ?s" using assms h k t unfolding lk_inv_def mutex_inv_def by metis
  moreover have "map_inv ?s"
  proof (rule map_inv_sub [of s])
    show "lk_map s p = Some k" if "lk_clean ?s = CTried p k" for p k
      using assms(1) that l by (simp add: lk_inv_def map_inv_def set_place_def mutex_Unlock_def)
  qed (use assms(1) e l in \<open>simp_all add: lk_inv_def set_place_def mutex_Unlock_def\<close>)
  ultimately show ?thesis using assms(1) l by (simp add: lk_inv_def set_place_def mutex_Unlock_def)
qed

lemma inv_unlock_load:
  assumes "lk_inv s" and "unlockFile_load g s = Some s'"
  shows "lk_inv s'"
proof -
  from assms(2) obtain path m where w: "lk_place s g = Inside path m"
    by (auto simp: unlockFile_load_def split: place.splits)
  have "lk_map s path = Some m" using inv_entry [OF assms(1), of g path m] w by (simp add: has_entry_def)
  with assms(2) w have s': "s' = set_place g (Leaving path m) s" by (simp add: unlockFile_load_def)
  have "has_entry s' h p k = has_entry s h p k" "holds s' h k = holds s h k" for h p k
    using w by (auto simp: s' has_entry_def holds_def set_place_def)
  with assms(1) show ?thesis by (simp add: lk_inv_def map_inv_def mutex_inv_def s' trying_def set_place_def)
qed

lemma inv_clean_visit:
  assumes "lk_inv s" and "clean_visit path s = Some s'"
  shows "lk_inv s'"
proof (cases "s' = s")
  case False
  with assms(2) obtain m where c: "lk_clean s = CIdle" "lk_map s path = Some m" "\<not> lk_locked s m"
    and s': "s' = s\<lparr>lk_locked := (lk_locked s)(m := True), lk_clean := CTried path m\<rparr>"
    by (auto simp: clean_visit_def mutex_Lock_def split: if_splits option.splits)
  have "has_entry s' h p k = has_entry s h p k" "holds s' h k = holds s h k" "trying s' k \<longleftrightarrow> k = m" "\<not> trying s k" for h p k
    using c by (auto simp: s' has_entry_def holds_def trying_def)
  moreover have "\<not> holds s h m" for h using assms(1) c(3) by (auto simp: lk_inv_def mutex_inv_def)
  ultimately show ?thesis using assms(1) c by (auto simp: lk_inv_def map_inv_def mutex_inv_def s')
qed (use assms in simp)

lemma inv_clean_unlock:
  assumes "lk_inv s" and "clean_unlock s = Some s'"
  shows "lk_inv s'"
proof -
  from assms(2) obtain path m where c: "lk_clean s = CTried path m"
    and s'0: "s' = (mutex_Unlock m s)\<lparr>lk_clean := CFree path\<rparr>"
    by (auto simp: clean_unlock_def split: cleaner.splits)
  have t: "trying s k \<longleftrightarrow> k = m" for k using c by (auto simp: trying_def)
  then have "lk_locked s m" using assms(1) by (auto simp: lk_inv_def mutex_inv_def)
  then have s': "s' = s\<lparr>lk_locked := (lk_locked s)(m := False), lk_clean := CFree path\<rparr>" using s'0 by (simp add: mutex_Unlock_def)
  have "has_entry s' h p k = has_entry s h p k" "holds s' h k = holds s h k" "\<not> trying s' k" for h p k
    by (auto simp: s' has_entry_def holds_def trying_def)
  then show ?thesis using assms(1) t by (auto simp: lk_inv_def map_inv_def mutex_inv_def s')
qed

lemma inv_clean_rest:
  assumes "lk_inv s"
  shows "clean_exists ex s = Some s' \<Longrightarrow> lk_inv s'"
    and "clean_delete s = Some s' \<Longrightarrow> quiet CleanDelete s \<Longrightarrow> lk_inv s'"
proof -
  assume "clean_exists ex s = Some s'"
  then obtain path where c: "lk_clean s = CFree path"
    and s': "s' = s\<lparr>lk_clean := if ex then CIdle else CDelete path\<rparr>"
    by (auto simp: clean_exists_def split: cleaner.splits)
  have "has_entry s' h p k = has_entry s h p k" "holds s' h k = holds s h k" "\<not> trying s' k" "\<not> trying s k" for h p k
    using c by (auto simp: s' has_entry_def holds_def trying_def)
  with assms show "lk_inv s'" by (simp add: lk_inv_def map_inv_def mutex_inv_def s')
next
  assume "clean_delete s = Some s'" and q: "quiet CleanDelete s"
  then obtain path where c: "lk_clean s = CDelete path"
    and s': "s' = s\<lparr>lk_map := (lk_map s)(path := None), lk_clean := CIdle\<rparr>"
    by (auto simp: clean_delete_def split: cleaner.splits)
  have n: "\<not> has_entry s g path m" for g m using q c by (simp add: quiet_def)
  have "has_entry s' h p k = has_entry s h p k" "holds s' h k = holds s h k" "\<not> trying s' k" "\<not> trying s k" for h p k
    using c by (auto simp: s' has_entry_def holds_def trying_def)
  note same = this
  have e: "lk_map s' p = Some m" if "has_entry s' g p m" for g p m
    using that same(1) n inv_entry [OF assms, of g p m] by (auto simp: s')
  have j: "p = q" if "lk_map s' p = Some m" "lk_map s' q = Some m" for p q m
  proof -
    have "lk_map s p = Some m" "lk_map s q = Some m" using that by (auto simp: s' split: if_splits)
    with assms show ?thesis unfolding lk_inv_def map_inv_def by blast
  qed
  have l: "m < lk_next s'" if "lk_map s' p = Some m" for p m
    using that assms by (simp add: s' lk_inv_def map_inv_def split: if_splits)
  have "lk_clean s' \<noteq> CTried p m" for p m by (simp add: s')
  with e j l have "map_inv s'" unfolding map_inv_def by blast
  moreover have "mutex_inv s'"
  proof -
    have "lk_locked s' = lk_locked s" by (simp add: s')
    with assms same show ?thesis by (simp add: lk_inv_def mutex_inv_def)
  qed
  ultimately show "lk_inv s'" using assms by (simp add: lk_inv_def s')
qed

lemma inv_unlock:
  assumes "lk_inv s"
  shows "unlockFile_unlock g s = Some s' \<Longrightarrow> lk_inv s'" and "release g s = Some s' \<Longrightarrow> lk_inv s'"
proof -
  assume "unlockFile_unlock g s = Some s'"
  then obtain p m where "lk_place s g = Leaving p m" and s': "s' = set_place g Idle (mutex_Unlock m s)"
    unfolding unlockFile_unlock_def by (cases "lk_place s g") simp_all
  then have "holds s g m" by (simp add: holds_def)
  from inv_give_up [OF assms this] s' show "lk_inv s'" by simp
next
  assume "release g s = Some s'"
  then obtain p m where "lk_place s g = Inside p m" and s': "s' = set_place g Idle (mutex_Unlock m s)"
    unfolding release_def by (cases "lk_place s g") simp_all
  then have "holds s g m" by (simp add: holds_def)
  from inv_give_up [OF assms this] s' show "lk_inv s'" by simp
qed

lemma inv_act:
  assumes i: "lk_inv s" and a: "act a s = Some s'" and q: "quiet a s"
  shows "lk_inv s'"
proof (cases a)
  case (LockLoad g path)
  with a show ?thesis by (intro inv_lock_load [OF i, of g path]) simp
next
  case (LockMutex g)
  with a show ?thesis by (intro inv_lock [OF i, of g]) simp
next
  case (UnlockLoad g)
  with a show ?thesis by (intro inv_unlock_load [OF i, of g]) simp
next
  case (UnlockMutex g)
  with a show ?thesis by (intro inv_unlock(1) [OF i, of g]) simp
next
  case (Release g)
  with a show ?thesis by (intro inv_unlock(2) [OF i, of g]) simp
next
  case (CleanVisit path)
  with a show ?thesis by (intro inv_clean_visit [OF i, of path]) simp
next
  case CleanUnlock
  with a show ?thesis by (intro inv_clean_unlock [OF i]) simp
next
  case (CleanExists ex)
  with a show ?thesis by (intro inv_clean_rest(1) [OF i, of ex]) simp
next
  case CleanDelete
  with a q show ?thesis by (intro inv_clean_rest(2) [OF i]) simp_all
qed

lemma inv_run: "lk_inv s \<Longrightarrow> lk_run as s = Some s' \<Longrightarrow> quiet_run as s \<Longrightarrow> lk_inv s'"
proof (induction as arbitrary: s)
  case (Cons a as)
  then obtain s1 where a: "act a s = Some s1" "lk_run as s1 = Some s'" by (auto split: if_splits option.splits)
  with Cons.prems(3) have "quiet a s" "quiet_run as s1" by simp_all
  with a Cons.IH [of s1] inv_act [OF Cons.prems(1) a(1)] show ?case by simp
qed simp

text \<open>Whoever holds the mutex can give it up, and then the waiting goroutine gets it.\<close>

lemma lock_free: "\<not> lk_fatal s \<Longrightarrow> lk_place s g = Waiting p m \<Longrightarrow> \<not> lk_locked s m \<Longrightarrow>
    \<exists>s'. lk_run [LockMutex g] s = Some s' \<and> lk_place s' g = Inside p m"
  by (simp add: lockFile_lock_def mutex_Lock_def set_place_def)

lemma lock_leaving:
  assumes "lk_inv s" and "lk_place s g = Waiting p m" and "lk_place s h = Leaving p m"
  shows "\<exists>s'. lk_run [UnlockMutex h, LockMutex g] s = Some s' \<and> lk_place s' g = Inside p m"
proof -
  have "lk_locked s m" using inv_locked [OF assms(1), of h m] assms(3) by (simp add: holds_def)
  moreover have "h \<noteq> g" "\<not> lk_fatal s" using assms by (auto simp: lk_inv_def)
  ultimately show ?thesis using assms(2,3)
    by (simp add: unlockFile_unlock_def mutex_Unlock_def lockFile_lock_def mutex_Lock_def set_place_def)
qed

lemma lock_inside:
  assumes "lk_inv s" and "lk_place s g = Waiting p m" and "lk_place s h = Inside p m"
  shows "\<exists>s'. lk_run [UnlockLoad h, UnlockMutex h, LockMutex g] s = Some s' \<and> lk_place s' g = Inside p m"
proof -
  obtain s1 where a: "act (UnlockLoad h) s = Some s1" and s1: "s1 = set_place h (Leaving p m) s"
    using inv_entry [OF assms(1), of h p m] assms(3) by (simp add: has_entry_def unlockFile_load_def)
  have "lk_inv s1" using inv_act [OF assms(1) a] by (simp add: quiet_def)
  moreover have "lk_place s1 g = Waiting p m" "lk_place s1 h = Leaving p m" using assms(2,3) s1 by (auto simp: set_place_def)
  ultimately show ?thesis using lock_leaving [of s1 g p m h] a assms(1) by (simp add: lk_inv_def)
qed

lemma waiting_gets_in:
  assumes "lk_inv s" and w: "lk_place s g = Waiting p m"
  shows "\<exists>as s'. lk_run as s = Some s' \<and> CleanDelete \<notin> set as \<and> lk_place s' g = Inside p m"
proof (cases "lk_locked s m")
  case True
  have m: "lk_map s p = Some m" using inv_entry [OF assms(1), of g p m] w by (simp add: has_entry_def)
  have f: "\<not> lk_fatal s" using assms(1) by (simp add: lk_inv_def)
  from True assms(1) consider h where "holds s h m" | "trying s m" by (auto simp: lk_inv_def mutex_inv_def)
  then show ?thesis
  proof cases
    case 1
    then obtain q where q: "lk_place s h = Inside q m \<or> lk_place s h = Leaving q m" by (auto simp: holds_def)
    then have "lk_map s q = Some m" using inv_entry [OF assms(1), of h q m] by (auto simp: has_entry_def)
    then have "q = p" using m assms(1) by (auto simp: lk_inv_def map_inv_def)
    with q show ?thesis
    proof (elim disjE)
      assume "lk_place s h = Inside q m"
      with \<open>q = p\<close> lock_inside [OF assms] show ?thesis
        by (intro exI [of _ "[UnlockLoad h, UnlockMutex h, LockMutex g]"]) simp
    next
      assume "lk_place s h = Leaving q m"
      with \<open>q = p\<close> lock_leaving [OF assms] show ?thesis
        by (intro exI [of _ "[UnlockMutex h, LockMutex g]"]) simp
    qed
  next
    case 2
    then obtain q where "lk_clean s = CTried q m" by (auto simp: trying_def)
    then have "lk_run [CleanUnlock, LockMutex g] s
        = Some (set_place g (Inside p m) (s\<lparr>lk_locked := (lk_locked s)(m := True), lk_clean := CFree q\<rparr>))"
      using True f w by (simp add: clean_unlock_def mutex_Unlock_def lockFile_lock_def mutex_Lock_def set_place_def)
    then show ?thesis by (intro exI [of _ "[CleanUnlock, LockMutex g]"]) (simp add: set_place_def)
  qed
next
  case False
  have "\<not> lk_fatal s" using assms(1) by (simp add: lk_inv_def)
  from lock_free [OF this w False] show ?thesis by (intro exI [of _ "[LockMutex g]"]) simp
qed

section \<open>Properties\<close>

text \<open>
  C11: mutual exclusion of the path locks.  In every interleaving of any number of goroutines and of
  the clean-up in which the clean-up deletes no entry that a goroutine has, at most one goroutine is
  between locking and unlocking a path, no mutex is unlocked that is not locked, and a goroutine
  that waits can always get its turn.
\<close>

theorem path_lock_exclusive:
  assumes "lk_run as lk_init = Some s" and "quiet_run as lk_init"
  shows "\<not> lk_fatal s \<and>
    (\<forall>g h p m n. lk_place s g = Inside p m \<and> lk_place s h = Inside p n \<longrightarrow> g = h) \<and>
    (\<forall>g p m. lk_place s g = Waiting p m \<longrightarrow>
       (\<exists>bs s'. lk_run bs s = Some s' \<and> CleanDelete \<notin> set bs \<and> lk_place s' g = Inside p m))"
proof -
  have i: "lk_inv s" by (rule inv_run [OF inv_init assms])
  have "g = h" if p: "lk_place s g = Inside p m" "lk_place s h = Inside p n" for g h p m n
  proof -
    have "lk_map s p = Some m" "lk_map s p = Some n"
      using inv_entry [OF i, of g p m] inv_entry [OF i, of h p n] p by (simp_all add: has_entry_def)
    with p have "holds s g m" "holds s h m" by (auto simp: holds_def)
    then show ?thesis by (rule inv_one_holder [OF i])
  qed
  moreover have "\<not> lk_fatal s" using i by (simp add: lk_inv_def)
  ultimately show ?thesis using waiting_gets_in [OF i] by blast
qed

text \<open>Two goroutines at one path, one at another, and a clean-up that removes an unused entry.\<close>

definition calm_run :: "action list" where
  "calm_run = [LockLoad 1 ''a'', LockLoad 2 ''a'', LockMutex 2, CleanVisit ''a'', LockLoad 3 ''b'', LockMutex 3,
     UnlockLoad 3, UnlockMutex 3, CleanVisit ''b'', CleanUnlock, CleanExists False, CleanDelete]"

theorem path_lock_exclusive_witness:
  "\<exists>s bs s'. lk_run calm_run lk_init = Some s \<and> lk_place s 2 = Inside ''a'' 0 \<and> lk_map s ''b'' = None \<and>
     lk_run bs s = Some s' \<and> lk_place s' 1 = Inside ''a'' 0"
proof -
  have q: "quiet_run calm_run lk_init"
    by (simp add: calm_run_def quiet_def lock_defs LoadOrStore_def mutex_Lock_def mutex_Unlock_def set_place_def
        lk_init_def has_entry_def)
  obtain s where s: "lk_run calm_run lk_init = Some s" and "lk_place s 1 = Waiting ''a'' 0" and
    "lk_place s 2 = Inside ''a'' 0 \<and> lk_map s ''b'' = None"
    by (simp add: calm_run_def lock_defs LoadOrStore_def mutex_Lock_def mutex_Unlock_def set_place_def lk_init_def)
  with path_lock_exclusive [OF s q] show ?thesis by blast
qed

text \<open>The clean-up itself does not look: between \<open>TryLock\<close> and \<open>Delete\<close> a goroutine
  may lock the mutex, and one that has loaded the mutex but not locked it is not seen at all.  Then
  the next goroutine gets a new mutex, and two are inside.\<close>

definition escape_run :: "action list" where
  "escape_run = [LockLoad 1 ''a'', CleanVisit ''a'', CleanUnlock, LockMutex 1, CleanExists False, CleanDelete,
     LockLoad 2 ''a'', LockMutex 2]"

lemma clean_up_breaks_exclusion:
  "\<exists>s. lk_run escape_run lk_init = Some s \<and> lk_place s 1 = Inside ''a'' 0 \<and> lk_place s 2 = Inside ''a'' 1"
  by (simp add: escape_run_def lock_defs LoadOrStore_def mutex_Lock_def mutex_Unlock_def set_place_def lk_init_def)

text \<open>From there \<open>unlockFile\<close> of the first goroutine unlocks the mutex of the second, whose own
  unlocking then ends the process.\<close>

lemma clean_up_ends_process:
  "\<exists>s. lk_run (escape_run @ [UnlockLoad 1, UnlockMutex 1, UnlockLoad 2, UnlockMutex 2]) lk_init = Some s \<and> lk_fatal s"
  by (simp add: escape_run_def lock_defs LoadOrStore_def mutex_Lock_def mutex_Unlock_def set_place_def lk_init_def)

end
