(* ===== verification/Lock_Order.thy ===== *)
theory Lock_Order
  imports Prelude "HOL-Library.List_Lexorder" "HOL-Library.Char_ord"
begin

text \<open>
  The order in which the storages lock: an operation on one path locks its mutex, and \<open>Rename\<close>
  (\<open>src/internal/storage/local.go\<close>, \<open>minio.go\<close>) locks the mutexes of both paths, the smaller
  path first, and unlocks that of the new path before that of the old one.  The server never removes
  a mutex of a storage, so that a path stands for its mutex.
\<close>

section \<open>Operations\<close>

definition rename_order :: "string \<Rightarrow> string \<Rightarrow> string list" where
  "rename_order oldPath newPath =
     (if oldPath = newPath then []
      else if oldPath < newPath then [oldPath, newPath] else [newPath, oldPath])"

definition rename_release :: "string \<Rightarrow> string \<Rightarrow> string list" where
  "rename_release oldPath newPath = (if oldPath = newPath then [] else [newPath, oldPath])"

datatype storage_op = OnPath string | OnRename string string

fun op_locks :: "storage_op \<Rightarrow> string list" where
  "op_locks (OnPath p) = [p]"
| "op_locks (OnRename oldPath newPath) = rename_order oldPath newPath"

fun op_release :: "storage_op \<Rightarrow> string list" where
  "op_release (OnPath p) = [p]"
| "op_release (OnRename oldPath newPath) = rename_release oldPath newPath"

text \<open>Of every goroutine, the locks it has still to take and those it has still to release.\<close>

record order_state =
  or_owner :: "string \<rightharpoonup> nat"
  or_want :: "nat \<Rightarrow> string list"
  or_release :: "nat \<Rightarrow> string list"

definition or_init :: order_state where
  "or_init = \<lparr>or_owner = Map.empty, or_want = (\<lambda>_. []), or_release = (\<lambda>_. [])\<rparr>"

definition resting :: "order_state \<Rightarrow> nat \<Rightarrow> bool" where
  "resting s g \<longleftrightarrow> or_want s g = [] \<and> or_release s g = []"

datatype order_act = Begin nat storage_op | Take nat | Drop nat

fun order_step :: "order_act \<Rightarrow> order_state \<Rightarrow> order_state option" where
  "order_step (Begin g op) s =
     (if resting s g then
        Some (s\<lparr>or_want := (or_want s)(g := op_locks op), or_release := (or_release s)(g := op_release op)\<rparr>)
      else None)"
| "order_step (Take g) s =
     (case or_want s g of
        [] \<Rightarrow> None
      | p # ps \<Rightarrow>
          if or_owner s p = None then Some (s\<lparr>or_owner := (or_owner s)(p \<mapsto> g), or_want := (or_want s)(g := ps)\<rparr>)
          else None)"
| "order_step (Drop g) s =
     (case or_release s g of
        [] \<Rightarrow> None
      | p # ps \<Rightarrow>
          if or_want s g = [] then Some (s\<lparr>or_owner := (or_owner s)(p := None), or_release := (or_release s)(g := ps)\<rparr>)
          else None)"

fun order_run :: "order_act list \<Rightarrow> order_state \<Rightarrow> order_state option" where
  "order_run [] s = Some s"
| "order_run (a # as) s = (case order_step a s of None \<Rightarrow> None | Some s1 \<Rightarrow> order_run as s1)"

fun begins :: "order_act \<Rightarrow> bool" where
  "begins (Begin g op) \<longleftrightarrow> True"
| "begins _ \<longleftrightarrow> False"

section \<open>The invariant\<close>

text \<open>What a goroutine still wants is ascending and above what it holds; it holds what it has to
  release and no longer wants.\<close>

definition in_line :: "order_state \<Rightarrow> nat \<Rightarrow> bool" where
  "in_line s g \<longleftrightarrow>
     sorted_wrt (<) (or_want s g) \<and> distinct (or_release s g) \<and> set (or_want s g) \<subseteq> set (or_release s g) \<and>
     (\<forall>p. or_owner s p = Some g \<longleftrightarrow> p \<in> set (or_release s g) - set (or_want s g)) \<and>
     (\<forall>p q. or_owner s p = Some g \<and> q \<in> set (or_want s g) \<longrightarrow> p < q)"

definition order_inv :: "nat set \<Rightarrow> order_state \<Rightarrow> bool" where
  "order_inv A s \<longleftrightarrow> finite A \<and> (\<forall>g. in_line s g) \<and> (\<forall>g. g \<notin> A \<longrightarrow> resting s g)"

lemma order_inv_init: "order_inv {} or_init"
  by (simp add: order_inv_def in_line_def or_init_def resting_def)

lemma op_ok:
  "sorted_wrt (<) (op_locks op)" "distinct (op_release op)" "set (op_locks op) = set (op_release op)"
  by (cases op; auto simp: rename_order_def rename_release_def)+

text \<open>A goroutine that a step does not touch stays in line.\<close>

lemma in_line_same:
  assumes "in_line s h" and "or_want s' h = or_want s h" and "or_release s' h = or_release s h"
    and "\<And>p. or_owner s' p = Some h \<longleftrightarrow> or_owner s p = Some h"
  shows "in_line s' h"
  using assms by (simp add: in_line_def)

lemma step_begin:
  assumes i: "order_inv A s" and st: "order_step (Begin g op) s = Some s'"
  shows "order_inv (insert g A) s'"
proof -
  from st have r: "resting s g"
    and s': "s' = s\<lparr>or_want := (or_want s)(g := op_locks op), or_release := (or_release s)(g := op_release op)\<rparr>"
    by (auto split: if_splits)
  have l: "in_line s h" for h using i by (simp add: order_inv_def)
  have none: "or_owner s p \<noteq> Some g" for p using l [of g] r by (simp add: in_line_def resting_def)
  have "in_line s' h" for h
    using l [of h] none op_ok [of op] by (cases "h = g") (auto simp: in_line_def s')
  moreover have "resting s' h" if "h \<notin> insert g A" for h
    using i that by (simp add: order_inv_def s' resting_def)
  ultimately show ?thesis using i by (simp add: order_inv_def)
qed

lemma step_take:
  assumes i: "order_inv A s" and st: "order_step (Take g) s = Some s'"
  shows "order_inv A s'"
proof -
  from st obtain p ps where w: "or_want s g = p # ps" and f: "or_owner s p = None"
    and s': "s' = s\<lparr>or_owner := (or_owner s)(p \<mapsto> g), or_want := (or_want s)(g := ps)\<rparr>"
    by (auto split: list.splits if_splits)
  have l: "in_line s h" for h using i by (simp add: order_inv_def)
  have "in_line s' g" using l [of g] w f by (auto simp: in_line_def s')
  moreover have "in_line s' h" if "h \<noteq> g" for h
    by (rule in_line_same [OF l]) (use that f in \<open>auto simp: s'\<close>)
  ultimately have "in_line s' h" for h by (cases "h = g") simp_all
  moreover have "g \<in> A" using i w by (auto simp: order_inv_def resting_def)
  then have "resting s' h" if "h \<notin> A" for h using i that by (auto simp: order_inv_def s' resting_def)
  ultimately show ?thesis using i by (simp add: order_inv_def)
qed

lemma step_drop:
  assumes i: "order_inv A s" and st: "order_step (Drop g) s = Some s'"
  shows "order_inv A s'"
proof -
  from st obtain p ps where w: "or_release s g = p # ps" "or_want s g = []"
    and s': "s' = s\<lparr>or_owner := (or_owner s)(p := None), or_release := (or_release s)(g := ps)\<rparr>"
    by (auto split: list.splits if_splits)
  have l: "in_line s h" for h using i by (simp add: order_inv_def)
  have p: "or_owner s p = Some g" using l [of g] w by (simp add: in_line_def)
  have "in_line s' g" using l [of g] w p by (auto simp: in_line_def s')
  moreover have "in_line s' h" if "h \<noteq> g" for h
    by (rule in_line_same [OF l]) (use that p in \<open>auto simp: s'\<close>)
  ultimately have "in_line s' h" for h by (cases "h = g") simp_all
  moreover have "resting s' h" if "h \<notin> A" for h using i w that by (auto simp: order_inv_def s' resting_def)
  ultimately show ?thesis using i by (simp add: order_inv_def)
qed

lemma order_run_inv:
  "order_inv A s \<Longrightarrow> order_run as s = Some s' \<Longrightarrow> \<exists>B. order_inv B s'"
proof (induction as arbitrary: A s)
  case (Cons a as)
  then obtain s1 where a: "order_step a s = Some s1" "order_run as s1 = Some s'" by (auto split: option.splits)
  have "\<exists>B. order_inv B s1"
    using a(1) step_begin [OF Cons.prems(1)] step_take [OF Cons.prems(1)] step_drop [OF Cons.prems(1)] by (cases a) blast+
  with Cons.IH a(2) show ?case by blast
qed auto

section \<open>Progress\<close>

text \<open>Of the goroutines that want a lock, the one with the greatest can take it: its owner wants
  nothing greater and so wants nothing.\<close>

lemma someone_moves:
  assumes i: "order_inv A s" and g: "\<not> resting s g"
  shows "\<exists>a s'. \<not> begins a \<and> order_step a s = Some s'"
proof (cases "\<exists>h. \<not> resting s h \<and> or_want s h = []")
  case True
  then obtain h p ps where "or_want s h = []" "or_release s h = p # ps" by (auto simp: resting_def neq_Nil_conv)
  then show ?thesis by (intro exI [of _ "Drop h"]) simp
next
  case False
  let ?W = "{h. or_want s h \<noteq> []}"
  have fin: "finite ?W" by (rule finite_subset [of _ A]) (use i in \<open>auto simp: order_inv_def resting_def\<close>)
  have "g \<in> ?W" using False g by auto
  let ?m = "Max ((\<lambda>h. hd (or_want s h)) ` ?W)"
  have "?m \<in> (\<lambda>h. hd (or_want s h)) ` ?W" using fin \<open>g \<in> ?W\<close> by (intro Max_in) auto
  then obtain h where h: "or_want s h \<noteq> []" "hd (or_want s h) = ?m" by auto
  then obtain p ps where w: "or_want s h = p # ps" "p = ?m" by (cases "or_want s h") auto
  have "or_owner s p = None"
  proof (rule ccontr)
    assume "or_owner s p \<noteq> None"
    then obtain k where k: "or_owner s p = Some k" by blast
    have l: "in_line s k" using i by (simp add: order_inv_def)
    with k have "\<not> resting s k" by (auto simp: in_line_def resting_def)
    with False obtain q qs where q: "or_want s k = q # qs" by (auto simp: neq_Nil_conv)
    with l k have "p < q" by (simp add: in_line_def)
    moreover have "q \<le> ?m" using fin q by (intro Max_ge) (auto intro!: image_eqI [of _ _ k])
    ultimately show False using w(2) by simp
  qed
  with w(1) show ?thesis by (intro exI [of _ "Take h"]) simp
qed

definition remaining :: "nat set \<Rightarrow> order_state \<Rightarrow> nat" where
  "remaining A s = (\<Sum>g \<in> A. length (or_want s g) + length (or_release s g))"

lemma remaining_update:
  assumes "finite A" and "g \<in> A" and "f' g < f g" and "\<And>h. h \<noteq> g \<Longrightarrow> f' h = f h"
  shows "sum f' A < sum (f :: nat \<Rightarrow> nat) A"
proof (rule sum_strict_mono_ex1)
  show "\<forall>h \<in> A. f' h \<le> f h" using assms(3,4) by (metis less_imp_le order_refl)
qed (use assms in auto)

lemma step_remaining:
  assumes i: "order_inv A s" and a: "order_step a s = Some s'" "\<not> begins a"
  shows "order_inv A s' \<and> remaining A s' < remaining A s"
proof (cases a)
  case (Take g)
  with a obtain p ps where w: "or_want s g = p # ps"
    and s': "or_want s' = (or_want s)(g := ps)" "or_release s' = or_release s"
    by (auto split: list.splits if_splits)
  have "g \<in> A" using i w by (auto simp: order_inv_def resting_def)
  then have "remaining A s' < remaining A s"
    unfolding remaining_def using i w by (intro remaining_update [of A g]) (auto simp: order_inv_def s')
  with step_take [OF i] a Take show ?thesis by blast
next
  case (Drop g)
  with a obtain p ps where w: "or_release s g = p # ps"
    and s': "or_want s' = or_want s" "or_release s' = (or_release s)(g := ps)"
    by (auto split: list.splits if_splits)
  have "g \<in> A" using i w by (auto simp: order_inv_def resting_def)
  then have "remaining A s' < remaining A s"
    unfolding remaining_def using i w by (intro remaining_update [of A g]) (auto simp: order_inv_def s')
  with step_drop [OF i] a Drop show ?thesis by blast
qed (use a in simp)

lemma all_finish:
  "order_inv A s \<Longrightarrow> \<exists>as s'. list_all (\<lambda>a. \<not> begins a) as \<and> order_run as s = Some s' \<and> (\<forall>g. resting s' g)"
proof (induction "remaining A s" arbitrary: s rule: less_induct)
  case less
  show ?case
  proof (cases "\<forall>g. resting s g")
    case True
    then show ?thesis by (intro exI [of _ "[]"]) simp
  next
    case False
    with someone_moves [OF less.prems] obtain a s1 where a: "\<not> begins a" "order_step a s = Some s1" by blast
    note r = step_remaining [OF less.prems a(2,1)]
    with less.hyps [of s1] obtain as s' where "list_all (\<lambda>a. \<not> begins a) as" "order_run as s1 = Some s'" "\<forall>g. resting s' g"
      by blast
    with a show ?thesis by (intro exI [of _ "a # as"]) simp
  qed
qed

lemma run_bounded:
  "order_inv A s \<Longrightarrow> list_all (\<lambda>a. \<not> begins a) as \<Longrightarrow> order_run as s = Some s' \<Longrightarrow> length as \<le> remaining A s"
proof (induction as arbitrary: s)
  case (Cons a as)
  then obtain s1 where a: "order_step a s = Some s1" "order_run as s1 = Some s'" by (auto split: option.splits)
  have r: "order_inv A s1 \<and> remaining A s1 < remaining A s" using step_remaining [OF Cons.prems(1) a(1)] Cons.prems(2) by simp
  with Cons.IH [of s1] a(2) Cons.prems(2) show ?case by simp
qed simp

section \<open>Properties\<close>

text \<open>
  C12: the storages do not deadlock.  Whatever operations and renames any number of goroutines have
  begun, however their locking and unlocking interleaved so far, as long as one is under way some
  goroutine can take or release a lock, there are only finitely many such steps before new
  operations begin, and all can finish.
\<close>

theorem rename_never_deadlocks:
  assumes "order_run as or_init = Some s"
  shows "(\<forall>g. \<not> resting s g \<longrightarrow> (\<exists>a s'. \<not> begins a \<and> order_step a s = Some s')) \<and>
    (\<exists>n. \<forall>bs s'. list_all (\<lambda>a. \<not> begins a) bs \<and> order_run bs s = Some s' \<longrightarrow> length bs \<le> n) \<and>
    (\<exists>bs s'. list_all (\<lambda>a. \<not> begins a) bs \<and> order_run bs s = Some s' \<and> (\<forall>g. resting s' g))"
proof -
  obtain A where i: "order_inv A s" using order_run_inv [OF order_inv_init assms] by blast
  from someone_moves [OF i] all_finish [OF i] run_bounded [OF i] show ?thesis by blast
qed

text \<open>Two renames in opposite directions and a write, when each has taken what it could.\<close>

theorem rename_never_deadlocks_witness:
  "\<exists>s bs s'. order_run [Begin 1 (OnRename ''a'' ''b''), Begin 2 (OnRename ''b'' ''a''), Begin 3 (OnPath ''b''), Take 2, Take 3]
       or_init = Some s \<and> order_step (Take 1) s = None \<and> order_step (Take 2) s = None \<and>
     order_run bs s = Some s' \<and> resting s' 1 \<and> resting s' 2"
proof -
  let ?as = "[Begin 1 (OnRename ''a'' ''b''), Begin 2 (OnRename ''b'' ''a''), Begin 3 (OnPath ''b''), Take 2, Take 3]"
  have ab: "''a'' < ''b''" "\<not> ''b'' < ''a''" by code_simp+
  obtain s where s: "order_run ?as or_init = Some s" and n: "order_step (Take 1) s = None" "order_step (Take 2) s = None"
    using ab by (simp add: or_init_def resting_def rename_order_def rename_release_def)
  from rename_never_deadlocks [OF s] s n show ?thesis by blast
qed

end
