(* ===== verification/Paths.thy ===== *)
theory Paths
  imports Prelude
begin

text \<open>
  Logical paths: \<open>src/internal/utils/utils.go\<close> and the functions of Go's package
  \<open>path\<close> it is built on (\<open>Clean\<close>, \<open>Base\<close>, \<open>Dir\<close>,
  \<open>Join\<close>, modelled after their documentation as operations on the list of
  slash-separated elements).  The lemmas show what validation buys: a path that
  \<open>IsValidFilePath\<close> accepts normalises to a relative path all of whose elements are
  proper names, normalisation is idempotent on such paths, and a rename to a valid file name
  stays in the same directory.
\<close>

section \<open>The package path\<close>

fun clean_elems :: "bool \<Rightarrow> string list \<Rightarrow> string list \<Rightarrow> string list" where
  "clean_elems rooted out [] = rev out"
| "clean_elems rooted out (e # es) =
     (if e = [] \<or> e = ''.'' then clean_elems rooted out es
      else if e = ''..'' then
        (case out of
           [] \<Rightarrow> clean_elems rooted (if rooted then [] else [''..'']) es
         | d # ds \<Rightarrow> if d = ''..'' then clean_elems rooted (''..'' # out) es
                    else clean_elems rooted ds es)
      else clean_elems rooted (e # out) es)"

definition path_Clean :: "string \<Rightarrow> string" where
  "path_Clean p =
     (if p = [] then ''.''
      else let rooted = (hd p = slash);
               s = JoinStr slash (clean_elems rooted [] (Split slash p))
           in if rooted then slash # s else if s = [] then ''.'' else s)"

fun strip_slashes :: "string \<Rightarrow> string" where
  "strip_slashes [] = []"
| "strip_slashes (c # s) = (if c = slash then strip_slashes s else c # s)"

definition path_Base :: "string \<Rightarrow> string" where
  "path_Base p =
     (if p = [] then ''.''
      else let q = rev (strip_slashes (rev p))
           in if q = [] then ''/'' else last (Split slash q))"

definition path_Split_dir :: "string \<Rightarrow> string" where
  "path_Split_dir p = concat (map (\<lambda>e. e @ [slash]) (butlast (Split slash p)))"

definition path_Dir :: "string \<Rightarrow> string" where
  "path_Dir p = path_Clean (path_Split_dir p)"

definition path_Join :: "string list \<Rightarrow> string" where
  "path_Join parts =
     (let ne = filter (\<lambda>e. e \<noteq> []) parts
      in if ne = [] then [] else path_Clean (JoinStr slash ne))"

section \<open>utils.go\<close>

definition JoinPath :: "string list \<Rightarrow> string" where
  "JoinPath parts = path_Join parts"

definition NormalizePath :: "string \<Rightarrow> string" where
  "NormalizePath pathStr = strip_slashes (path_Clean pathStr)"

definition GetFileName :: "string \<Rightarrow> string" where
  "GetFileName pathStr = path_Base pathStr"

definition GetDirectory :: "string \<Rightarrow> string" where
  "GetDirectory pathStr = path_Dir pathStr"

text \<open>A rune below 0x20 is always a single byte below 0x20, so the loop over the runes of the
  name is a test on its bytes.\<close>

definition IsValidFileName :: "string \<Rightarrow> bool" where
  "IsValidFileName name =
     (if name = [] then False
      else if 255 < length name then False
      else if name = ''..'' \<or> name = ''.'' then False
      else if Contains name ''..'' then False
      else if ContainsAny name [slash, CHR 0x5C] then False
      else list_all (\<lambda>r. \<not> (of_char r :: nat) < 0x20) name)"

definition IsValidFilePath :: "string \<Rightarrow> bool" where
  "IsValidFilePath p0 =
     (if p0 = [] \<or> p0 = ''/'' then False
      else let p = strip_slashes p0
           in if p = [] then False
              else let cleaned = path_Clean p
                   in if cleaned = ''.'' \<or> cleaned = ''..'' \<or> cleaned = ''/'' then False
                      else list_all (\<lambda>part. part \<noteq> ''..'' \<and> part \<noteq> []) (Split slash p))"

section \<open>Proper names and safe paths\<close>

definition proper_name :: "string \<Rightarrow> bool" where
  "proper_name e \<longleftrightarrow> e \<noteq> [] \<and> e \<noteq> ''.'' \<and> e \<noteq> ''..'' \<and> slash \<notin> set e"

definition safe_path :: "string \<Rightarrow> bool" where
  "safe_path p \<longleftrightarrow> list_all proper_name (Split slash p)"

lemma strip_slashes_no_slash: "strip_slashes s = c # t \<Longrightarrow> c \<noteq> slash"
  by (induction s) (auto split: if_splits)

lemma strip_slashes_id: "s = [] \<or> hd s \<noteq> slash \<Longrightarrow> strip_slashes s = s"
  by (cases s) auto

lemma hd_strip_slashes: "strip_slashes s = [] \<or> hd (strip_slashes s) \<noteq> slash"
  by (induction s) auto

lemma strip_slashes_idem [simp]: "strip_slashes (strip_slashes s) = strip_slashes s"
  using hd_strip_slashes by (rule strip_slashes_id)

lemma strip_slashes_suffix: "\<exists>k. s = replicate k slash @ strip_slashes s"
proof (induction s)
  case (Cons c s)
  then obtain k where k: "s = replicate k slash @ strip_slashes s" by blast
  show ?case
  proof (cases "c = slash")
    case True
    with k have "c # s = replicate (Suc k) slash @ strip_slashes (c # s)" by simp
    then show ?thesis by blast
  next
    case False
    then show ?thesis by (intro exI [of _ 0]) simp
  qed
qed simp

lemma clean_elems_proper:
  "list_all (\<lambda>e. e \<noteq> ''..'') es \<Longrightarrow>
   clean_elems r out es = rev out @ filter (\<lambda>e. e \<noteq> [] \<and> e \<noteq> ''.'') es"
  by (induction es arbitrary: out) auto

lemma clean_elems_append:
  "list_all (\<lambda>e. e \<noteq> ''..'') es \<Longrightarrow>
   clean_elems r out (es @ fs) =
     clean_elems r (rev (filter (\<lambda>e. e \<noteq> [] \<and> e \<noteq> ''.'') es) @ out) fs"
  by (induction es arbitrary: out) auto

lemma filter_proper_id: "list_all proper_name es \<Longrightarrow> filter (\<lambda>e. e \<noteq> [] \<and> e \<noteq> ''.'') es = es"
  by (induction es) (auto simp: proper_name_def)

lemma proper_no_dotdot: "list_all proper_name es \<Longrightarrow> list_all (\<lambda>e. e \<noteq> ''..'') es"
  by (simp add: list_all_iff proper_name_def)

lemma clean_elems_id: "list_all proper_name es \<Longrightarrow> clean_elems r [] es = es"
  using clean_elems_proper [OF proper_no_dotdot] filter_proper_id by fastforce

lemma safe_path_nonempty: "safe_path p \<Longrightarrow> p \<noteq> []"
  by (auto simp: safe_path_def proper_name_def)

lemma safe_path_hd: "safe_path p \<Longrightarrow> hd p \<noteq> slash"
  by (cases p) (auto simp: safe_path_def proper_name_def)

lemma safe_path_Clean: "safe_path p \<Longrightarrow> path_Clean p = p"
  using safe_path_nonempty safe_path_hd
  by (auto simp: path_Clean_def safe_path_def clean_elems_id)

lemma safe_path_NormalizePath [simp]: "safe_path p \<Longrightarrow> NormalizePath p = p"
  by (simp add: NormalizePath_def safe_path_Clean strip_slashes_id safe_path_hd)

lemma safe_path_JoinStr:
  "list_all proper_name es \<Longrightarrow> es \<noteq> [] \<Longrightarrow> safe_path (JoinStr slash es)"
  by (simp add: safe_path_def Split_JoinStr list_all_iff proper_name_def)

lemma Split_replicate_slash:
  "Split slash (replicate k slash @ s) = replicate k [] @ Split slash s"
  by (induction k) auto

lemma clean_elems_replicate: "clean_elems r out (replicate k [] @ es) = clean_elems r out es"
  by (induction k) auto

lemma JoinStr_hd_not_slash:
  "list_all proper_name es \<Longrightarrow> JoinStr slash es = [] \<or> hd (JoinStr slash es) \<noteq> slash"
proof (cases es)
  case (Cons e fs)
  assume "list_all proper_name es"
  then have "safe_path (JoinStr slash es)" using Cons by (intro safe_path_JoinStr) auto
  then show ?thesis by (simp add: safe_path_hd)
qed simp

text \<open>Normalising a path whose elements contain no \<open>..\<close> drops the empty and
  \<open>.\<close> elements and keeps the others in their order.\<close>

lemma NormalizePath_elems:
  assumes nd: "list_all (\<lambda>e. e \<noteq> ''..'') (Split slash (strip_slashes p))"
    and ne: "filter (\<lambda>e. e \<noteq> [] \<and> e \<noteq> ''.'') (Split slash (strip_slashes p)) \<noteq> []"
  shows "NormalizePath p =
    JoinStr slash (filter (\<lambda>e. e \<noteq> [] \<and> e \<noteq> ''.'') (Split slash (strip_slashes p)))"
proof -
  define es where "es = filter (\<lambda>e. e \<noteq> [] \<and> e \<noteq> ''.'') (Split slash (strip_slashes p))"
  obtain k where k: "p = replicate k slash @ strip_slashes p"
    using strip_slashes_suffix by blast
  have elems: "clean_elems r [] (Split slash p) = es" for r
    by (subst k) (simp add: Split_replicate_slash clean_elems_replicate clean_elems_proper nd es_def)
  have proper: "list_all proper_name es"
    using nd unfolding es_def by (auto simp: list_all_iff proper_name_def dest: Split_parts_no_sep)
  have safe: "safe_path (JoinStr slash es)"
    using proper ne by (intro safe_path_JoinStr) (auto simp: es_def)
  have "strip_slashes (JoinStr slash es) = JoinStr slash es"
    using safe by (simp add: strip_slashes_id safe_path_hd)
  moreover have "p \<noteq> []" using ne by (cases p) auto
  ultimately show ?thesis
    using safe_path_nonempty [OF safe]
    by (simp add: NormalizePath_def path_Clean_def elems Let_def flip: es_def)
qed

lemma valid_path_elems:
  assumes "IsValidFilePath p"
  shows "list_all (\<lambda>e. e \<noteq> ''..'' \<and> e \<noteq> []) (Split slash (strip_slashes p))"
    and "filter (\<lambda>e. e \<noteq> [] \<and> e \<noteq> ''.'') (Split slash (strip_slashes p)) \<noteq> []"
proof -
  let ?q = "strip_slashes p"
  show all: "list_all (\<lambda>e. e \<noteq> ''..'' \<and> e \<noteq> []) (Split slash ?q)"
    using assms by (simp add: IsValidFilePath_def Let_def split: if_splits)
  have q: "?q \<noteq> []" and c: "path_Clean ?q \<noteq> ''.''"
    using assms by (auto simp: IsValidFilePath_def Let_def split: if_splits)
  have "hd ?q \<noteq> slash" using q hd_strip_slashes by blast
  then show "filter (\<lambda>e. e \<noteq> [] \<and> e \<noteq> ''.'') (Split slash ?q) \<noteq> []"
    using q c all by (auto simp: path_Clean_def Let_def clean_elems_proper list_all_iff)
qed

section \<open>The normal form of a cleaned path\<close>

definition clean_form :: "string list \<Rightarrow> bool" where
  "clean_form es \<longleftrightarrow> (\<exists>k ds. es = replicate k ''..'' @ ds \<and> list_all proper_name ds)"

lemma clean_form_snoc:
  "clean_form es \<Longrightarrow> proper_name e \<Longrightarrow> clean_form (es @ [e])"
  unfolding clean_form_def
proof (elim exE conjE)
  fix k ds
  assume "es = replicate k ''..'' @ ds" "list_all proper_name ds" "proper_name e"
  then show "\<exists>k ds. es @ [e] = replicate k ''..'' @ ds \<and> list_all proper_name ds"
    by (intro exI [of _ k] exI [of _ "ds @ [e]"]) simp
qed

lemma clean_form_butlast: "clean_form es \<Longrightarrow> clean_form (butlast es)"
  unfolding clean_form_def
proof (elim exE conjE)
  fix k ds
  assume es: "es = replicate k ''..'' @ ds" and p: "list_all proper_name ds"
  show "\<exists>k ds. butlast es = replicate k ''..'' @ ds \<and> list_all proper_name ds"
  proof (cases "ds = []")
    case True
    then have "butlast es = replicate (k - 1) ''..'' @ []"
      using es by (cases k) (simp_all add: replicate_append_same [symmetric] butlast_append)
    then show ?thesis by (intro exI [of _ "k - 1"] exI [of _ "[]"]) simp
  next
    case False
    then have "butlast es = replicate k ''..'' @ butlast ds" using es by (simp add: butlast_append)
    moreover have "list_all proper_name (butlast ds)"
      using p by (auto simp: list_all_iff dest: in_set_butlastD)
    ultimately show ?thesis by blast
  qed
qed

lemma clean_form_dotdots:
  "clean_form (es @ [''..'']) \<Longrightarrow> \<exists>k. es = replicate k ''..''"
  unfolding clean_form_def
proof (elim exE conjE)
  fix k ds
  assume es: "es @ [''..''] = replicate k ''..'' @ ds" and p: "list_all proper_name ds"
  have "ds = []"
  proof (rule ccontr)
    assume "ds \<noteq> []"
    then have "last ds = ''..''" using es by (metis last_appendR last_snoc)
    with p \<open>ds \<noteq> []\<close> show False by (auto simp: list_all_iff proper_name_def)
  qed
  with es have "butlast (es @ [''..'']) = butlast (replicate k ''..'')" by simp
  then show "\<exists>k. es = replicate k ''..''"
    by (cases k) (auto simp: replicate_append_same [symmetric] butlast_append intro: exI [of _ 0])
qed

lemma clean_form_replicate: "clean_form (replicate k ''..'')"
  unfolding clean_form_def by (intro exI [of _ k] exI [of _ "[]"]) simp

lemma clean_elems_form:
  "clean_form (rev out) \<Longrightarrow> list_all (\<lambda>e. slash \<notin> set e) es \<Longrightarrow> clean_form (clean_elems r out es)"
proof (induction r out es rule: clean_elems.induct)
  case (2 r out e es)
  have form1: "clean_form [''..'']" using clean_form_replicate [of 1] by simp
  have form0: "clean_form []" using clean_form_replicate [of 0] by simp
  show ?case
  proof (cases "e = [] \<or> e = ''.''")
    case True
    then show ?thesis using 2 by auto
  next
    case skip: False
    show ?thesis
    proof (cases "e = ''..''")
      case False
      then have "proper_name e" using skip 2 by (simp add: proper_name_def)
      then show ?thesis using skip False 2 clean_form_snoc by simp
    next
      case dd: True
      show ?thesis
      proof (cases out)
        case Nil
        then show ?thesis using 2 dd form0 form1 by simp
      next
        case (Cons d ds)
        show ?thesis
        proof (cases "d = ''..''")
          case True
          then have "clean_form (rev ds @ [''..''])" using "2.prems"(1) Cons by simp
          then obtain k where "rev ds = replicate k ''..''"
            using clean_form_dotdots by blast
          then have "clean_form (rev (''..'' # out))"
            using Cons True clean_form_replicate [of "Suc (Suc k)"]
            by (simp add: replicate_append_same)
          then show ?thesis using 2 dd Cons True by simp
        next
          case False
          have "clean_form (rev ds)" using 2 Cons clean_form_butlast by fastforce
          then show ?thesis using 2 dd Cons False by simp
        qed
      qed
    qed
  qed
qed simp

lemma clean_elems_dotdots:
  "clean_elems False (replicate j ''..'') (replicate k ''..'' @ es) =
   clean_elems False (replicate (k + j) ''..'') es"
proof (induction k arbitrary: j)
  case (Suc k)
  have "clean_elems False (replicate j ''..'') (replicate (Suc k) ''..'' @ es) =
        clean_elems False (replicate (Suc j) ''..'') (replicate k ''..'' @ es)"
    by (cases j) simp_all
  also have "\<dots> = clean_elems False (replicate (k + Suc j) ''..'') es" by (rule Suc.IH)
  finally show ?case by simp
qed simp

lemma clean_form_id: "clean_form es \<Longrightarrow> clean_elems False [] es = es"
proof -
  assume "clean_form es"
  then obtain k ds where es: "es = replicate k ''..'' @ ds" and p: "list_all proper_name ds"
    unfolding clean_form_def by blast
  have "clean_elems False [] es = clean_elems False (replicate k ''..'') ds"
    using clean_elems_dotdots [of 0 k ds] es by simp
  also have "\<dots> = replicate k ''..'' @ ds"
    using clean_elems_proper [OF proper_no_dotdot [OF p]] filter_proper_id [OF p] by simp
  finally show ?thesis using es by simp
qed

lemma clean_form_no_slash: "clean_form es \<Longrightarrow> e \<in> set es \<Longrightarrow> slash \<notin> set e \<and> e \<noteq> [] \<and> e \<noteq> ''.''"
proof -
  assume cf: "clean_form es" and e: "e \<in> set es"
  from cf obtain k ds where es: "es = replicate k ''..'' @ ds" and p: "list_all proper_name ds"
    unfolding clean_form_def by blast
  consider "e = ''..''" | "e \<in> set ds"
    using e es by (metis Un_iff in_set_replicate set_append)
  then show ?thesis
  proof cases
    case 1
    then show ?thesis by simp
  next
    case 2
    then have "proper_name e" using p by (simp add: list_all_iff)
    then show ?thesis by (simp add: proper_name_def)
  qed
qed

lemma JoinStr_hd: "e \<noteq> [] \<Longrightarrow> JoinStr c (e # fs) \<noteq> [] \<and> hd (JoinStr c (e # fs)) = hd e"
  by (cases fs) auto

lemma clean_form_Join:
  assumes "clean_form es" and "es \<noteq> []"
  shows "NormalizePath (JoinStr slash es) = JoinStr slash es"
    and "strip_slashes (JoinStr slash es) = JoinStr slash es"
    and "JoinStr slash es \<noteq> []"
proof -
  let ?s = "JoinStr slash es"
  have sp: "Split slash ?s = es"
    by (rule Split_JoinStr [OF assms(2)]) (use clean_form_no_slash [OF assms(1)] in blast)
  obtain e fs where e: "es = e # fs" using assms(2) by (cases es) auto
  have en: "e \<noteq> []" "slash \<notin> set e" using clean_form_no_slash [OF assms(1), of e] e by auto
  have hd: "hd ?s \<noteq> slash" using JoinStr_hd [OF en(1)] e en hd_in_set by metis
  show ne: "?s \<noteq> []" using JoinStr_hd [OF en(1)] e by simp
  show st: "strip_slashes ?s = ?s" using hd by (simp add: strip_slashes_id)
  have "path_Clean ?s = ?s"
    using ne hd by (simp add: path_Clean_def sp clean_form_id [OF assms(1)])
  then show "NormalizePath ?s = ?s" using st by (simp add: NormalizePath_def)
qed

lemma NormalizePath_form:
  "NormalizePath p = [] \<or> NormalizePath p = ''.'' \<or>
   (\<exists>es. NormalizePath p = JoinStr slash es \<and> clean_form es \<and> es \<noteq> [])"
proof (cases "p = []")
  case False
  define es where "es = clean_elems (hd p = slash) [] (Split slash p)"
  have "clean_form es" unfolding es_def
    by (rule clean_elems_form)
       (auto simp: list_all_iff clean_form_def dest: Split_parts_no_sep)
  then have "es \<noteq> [] \<Longrightarrow> strip_slashes (JoinStr slash es) = JoinStr slash es"
    by (rule clean_form_Join(2))
  moreover have "NormalizePath p =
      (if hd p = slash \<or> JoinStr slash es \<noteq> [] then strip_slashes (JoinStr slash es) else ''.'')"
    using False by (auto simp: NormalizePath_def path_Clean_def es_def Let_def)
  ultimately show ?thesis
    using \<open>clean_form es\<close> by (cases "es = []") (auto split: if_splits)
qed (simp add: NormalizePath_def path_Clean_def)

section \<open>Renaming within a directory\<close>

lemma IsValidFileName_proper: "IsValidFileName n \<Longrightarrow> proper_name n"
  by (auto simp: IsValidFileName_def proper_name_def ContainsAny_iff split: if_splits)

lemma path_Split_dir_Join:
  "Split slash p = bs @ [b] \<Longrightarrow>
   path_Split_dir p = (if bs = [] then [] else JoinStr slash bs @ [slash])"
proof -
  have "concat (map (\<lambda>e. e @ [slash]) bs) = (if bs = [] then [] else JoinStr slash bs @ [slash])"
    for bs by (induction bs) (auto simp: JoinStr_Cons)
  then show "Split slash p = bs @ [b] \<Longrightarrow> ?thesis" by (simp add: path_Split_dir_def)
qed

lemma GetDirectory_safe:
  assumes "safe_path p"
  shows "GetDirectory p =
    (if butlast (Split slash p) = [] then ''.'' else JoinStr slash (butlast (Split slash p)))"
proof -
  let ?bs = "butlast (Split slash p)"
  have sp: "Split slash p = ?bs @ [last (Split slash p)]" by simp
  have proper: "list_all proper_name ?bs"
    using assms by (auto simp: safe_path_def list_all_iff dest: in_set_butlastD)
  show ?thesis
  proof (cases "?bs = []")
    case True
    then show ?thesis
      by (simp add: GetDirectory_def path_Dir_def path_Split_dir_Join [OF sp] path_Clean_def)
  next
    case False
    have safe: "safe_path (JoinStr slash ?bs)" using proper False by (rule safe_path_JoinStr)
    have "path_Clean (JoinStr slash ?bs @ [slash]) = JoinStr slash ?bs"
      using False proper safe_path_nonempty [OF safe] safe_path_hd [OF safe]
      by (simp add: path_Clean_def Split_append_sep Split_JoinStr clean_elems_proper
          proper_no_dotdot filter_proper_id list_all_iff proper_name_def Let_def)
    then show ?thesis
      using False by (simp add: GetDirectory_def path_Dir_def path_Split_dir_Join [OF sp])
  qed
qed

lemma valid_path_safe:
  assumes "IsValidFilePath p"
  shows "safe_path (NormalizePath p)"
proof -
  let ?es = "filter (\<lambda>e. e \<noteq> [] \<and> e \<noteq> ''.'') (Split slash (strip_slashes p))"
  note v = valid_path_elems [OF assms]
  have "list_all (\<lambda>e. e \<noteq> ''..'') (Split slash (strip_slashes p))"
    using v(1) by (simp add: list_all_iff)
  then have eq: "NormalizePath p = JoinStr slash ?es" using v(2) by (rule NormalizePath_elems)
  have "list_all proper_name ?es"
    using v(1) by (auto simp: list_all_iff proper_name_def dest: Split_parts_no_sep)
  then show ?thesis unfolding eq using v(2) by (rule safe_path_JoinStr)
qed

section \<open>Properties\<close>

text \<open>
  C1: a path that passes \<open>IsValidFilePath\<close> normalises to a relative path whose
  every element is a proper name: not empty, not \<open>.\<close>, not \<open>..\<close>.
  No accepted path can therefore climb out of the directory it is joined to.
\<close>

theorem valid_path_normalizes_safe:
  assumes "IsValidFilePath p"
  shows "safe_path (NormalizePath p)"
  using assms by (rule valid_path_safe)

theorem valid_path_normalizes_safe_witness:
  "IsValidFilePath ''//docs/./a..b.txt'' \<and> safe_path (NormalizePath ''//docs/./a..b.txt'')"
proof -
  have "IsValidFilePath ''//docs/./a..b.txt''"
    by (simp add: IsValidFilePath_def path_Clean_def Let_def)
  then show ?thesis using valid_path_normalizes_safe by blast
qed

text \<open>
  \<open>NormalizePath\<close> is idempotent on every path, except that the root
  (which normalises to the empty string) normalises to \<open>.\<close> the second time.  The
  services normalise the same path at several layers, so a lookup key computed at one layer is
  the key of the next.
\<close>

theorem NormalizePath_idem:
  "NormalizePath (NormalizePath p) = (if NormalizePath p = [] then ''.'' else NormalizePath p)"
proof -
  have e: "NormalizePath [] = ''.''" by (simp add: NormalizePath_def path_Clean_def)
  have d: "NormalizePath ''.'' = ''.''" by (simp add: NormalizePath_def path_Clean_def)
  consider "NormalizePath p = []" | "NormalizePath p = ''.''"
    | es where "NormalizePath p = JoinStr slash es" "clean_form es" "es \<noteq> []"
    using NormalizePath_form by blast
  then show ?thesis using e d clean_form_Join(1,3) by cases auto
qed

lemma rename_target:
  assumes "safe_path oldPath" and "IsValidFileName newName"
  shows "NormalizePath (GetDirectory oldPath @ ''/'' @ newName) =
         JoinStr slash (butlast (Split slash oldPath) @ [newName])
       \<and> safe_path (JoinStr slash (butlast (Split slash oldPath) @ [newName]))"
proof -
  let ?bs = "butlast (Split slash oldPath)"
  have n: "proper_name newName" using assms(2) by (rule IsValidFileName_proper)
  have proper: "list_all proper_name ?bs"
    using assms(1) by (auto simp: safe_path_def list_all_iff dest: in_set_butlastD)
  have safe: "safe_path (JoinStr slash (?bs @ [newName]))"
    using n proper by (intro safe_path_JoinStr) auto
  show ?thesis
  proof (cases "?bs = []")
    case True
    have "NormalizePath (''./'' @ newName) = newName"
      using n by (auto simp: NormalizePath_def path_Clean_def Split_no_sep proper_name_def Let_def
          intro!: strip_slashes_id) (metis hd_in_set)
    then show ?thesis using True safe by (simp add: GetDirectory_safe [OF assms(1)])
  next
    case False
    then have "GetDirectory oldPath @ ''/'' @ newName = JoinStr slash (?bs @ [newName])"
      by (simp add: GetDirectory_safe [OF assms(1)] JoinStr_append)
    then show ?thesis using safe by simp
  qed
qed

lemma HasPrefix_slash_deeper:
  "HasPrefix p (q @ ''/'') \<Longrightarrow> length (Split slash q) < length (Split slash p)"
  by (auto simp: HasPrefix_iff Split_append_sep length_greater_0_conv)

lemma rename_sibling:
  assumes "safe_path p" "IsValidFileName n" and q: "q = NormalizePath (GetDirectory p @ ''/'' @ n)"
  shows "safe_path q" "\<not> HasPrefix p (q @ ''/'')" "\<not> HasPrefix q (p @ ''/'')"
proof -
  note t = rename_target [OF assms(1,2)]
  show "safe_path q" using t q by simp
  have "Split slash q = butlast (Split slash p) @ [n]"
    unfolding q using t assms(1) IsValidFileName_proper [OF assms(2)]
    by (subst conjunct1 [OF t], intro Split_JoinStr)
       (auto simp: safe_path_def proper_name_def list_all_iff dest: in_set_butlastD)
  then have "length (Split slash q) = length (Split slash p)" by simp
  with HasPrefix_slash_deeper [of p q] HasPrefix_slash_deeper [of q p]
  show "\<not> HasPrefix p (q @ ''/'')" "\<not> HasPrefix q (p @ ''/'')" by auto
qed

text \<open>
  The target of a rename, \<open>NormalizePath(GetDirectory(oldPath) + "/" + newName)\<close>,
  is the old path with its last element replaced, whenever the old path is safe and the new
  name passes \<open>IsValidFileName\<close>: a rename never moves a file to another directory.
\<close>

theorem rename_stays_in_directory:
  assumes "safe_path oldPath" and "IsValidFileName newName"
  shows "NormalizePath (GetDirectory oldPath @ ''/'' @ newName) =
         JoinStr slash (butlast (Split slash oldPath) @ [newName])
       \<and> safe_path (JoinStr slash (butlast (Split slash oldPath) @ [newName]))"
  by (rule rename_target [OF assms])

theorem rename_stays_in_directory_witness:
  "NormalizePath (GetDirectory ''a/b/c.txt'' @ ''/'' @ ''d.txt'') = ''a/b/d.txt''"
proof -
  have s: "safe_path ''a/b/c.txt''" by (simp add: safe_path_def proper_name_def)
  have v: "IsValidFileName ''d.txt''"
    by (simp add: IsValidFileName_def HasPrefix_def)
  show ?thesis using rename_stays_in_directory [OF s v] by simp
qed

end
