(* ===== verification/Sql.thy ===== *)
theory Sql
  imports Paths "HOL-Library.Char_ord" "HOL-Library.List_Lexorder"
begin

text \<open>
  The database layer below the services: \<open>src/internal/database/dialect.go\<close> (dialects
  and the translation of \<open>?\<close> placeholders), the SQL the sources contain, and
  \<open>src/internal/database/db.go\<close>'s \<open>Exec\<close>, \<open>QueryRow\<close>,
  \<open>Query\<close> and transactions.

  A SQL statement of the source is translated to the relational operation it denotes, under the
  \<open>PRIMARY KEY\<close> and \<open>UNIQUE\<close> constraints of the \<open>CREATE TABLE\<close>
  statements in \<open>metadata.go\<close>.  \<open>LIKE\<close> with \<open>ESCAPE '\'\<close> is the
  function \<open>like\<close>; as documented for the two engines it ignores the case of ASCII
  letters under SQLite and not under PostgreSQL.  A failure of the engine is an entry of the list
  \<open>db_faults\<close>, of which every call consumes one; the empty list means no failure.
\<close>

section \<open>Dialects\<close>

datatype Dialect = DialectSQLite | DialectPostgreSQL

definition DialectFromString :: "string \<Rightarrow> Dialect" where
  "DialectFromString s =
     (let l = map ascii_lower s
      in if l = ''postgresql'' \<or> l = ''postgres'' \<or> l = ''pg'' then DialectPostgreSQL
         else DialectSQLite)"

fun Dialect_String :: "Dialect \<Rightarrow> string" where
  "Dialect_String DialectPostgreSQL = ''postgresql''"
| "Dialect_String DialectSQLite = ''sqlite''"

text \<open>\<open>fmt.Sprintf("%d", n)\<close> for a natural number.\<close>

fun decimal :: "nat \<Rightarrow> string" where
  "decimal n = (if n < 10 then [char_of (48 + n)] else decimal (n div 10) @ [char_of (48 + n mod 10)])"

declare decimal.simps [simp del]

definition itoa :: "int \<Rightarrow> string" where
  "itoa n = (if n < 0 then ''-'' @ decimal (nat (- n)) else decimal (nat n))"

fun Placeholder :: "Dialect \<Rightarrow> nat \<Rightarrow> string" where
  "Placeholder DialectPostgreSQL n = ''$'' @ decimal n"
| "Placeholder DialectSQLite n = ''?''"

fun Translate_loop :: "nat \<Rightarrow> string \<Rightarrow> string" where
  "Translate_loop n [] = []"
| "Translate_loop n (c # q) =
     (if c = CHR ''?'' then (''$'' @ decimal n) @ Translate_loop (Suc n) q
      else c # Translate_loop n q)"

definition Translate :: "Dialect \<Rightarrow> string \<Rightarrow> string" where
  "Translate d query = (if d = DialectSQLite then query else Translate_loop 1 query)"

fun BooleanCheck :: "Dialect \<Rightarrow> bool \<Rightarrow> string" where
  "BooleanCheck DialectPostgreSQL v = (if v then ''TRUE'' else ''FALSE'')"
| "BooleanCheck DialectSQLite v = (if v then ''1'' else ''0'')"

fun AutoIncrementType :: "Dialect \<Rightarrow> string" where
  "AutoIncrementType DialectPostgreSQL = ''SERIAL''"
| "AutoIncrementType DialectSQLite = ''INTEGER''"

fun TimestampType :: "Dialect \<Rightarrow> string" where
  "TimestampType DialectPostgreSQL = ''TIMESTAMP WITH TIME ZONE''"
| "TimestampType DialectSQLite = ''TIMESTAMP''"

fun CurrentTimestamp :: "Dialect \<Rightarrow> string" where
  "CurrentTimestamp DialectPostgreSQL = ''NOW()''"
| "CurrentTimestamp DialectSQLite = ''CURRENT_TIMESTAMP''"

section \<open>LIKE and its escaping\<close>

definition ReplaceAll1 :: "char \<Rightarrow> string \<Rightarrow> string \<Rightarrow> string" where
  "ReplaceAll1 c r s = concat (map (\<lambda>x. if x = c then r else [x]) s)"

abbreviation backslash :: char where "backslash \<equiv> CHR 0x5C"

definition escapeLikePattern :: "string \<Rightarrow> string" where
  "escapeLikePattern s =
     (let s1 = ReplaceAll1 backslash [backslash, backslash] s;
          s2 = ReplaceAll1 (CHR ''%'') [backslash, CHR ''%''] s1
      in ReplaceAll1 (CHR ''_'') [backslash, CHR ''_''] s2)"

fun like_char :: "Dialect \<Rightarrow> char \<Rightarrow> char \<Rightarrow> bool" where
  "like_char DialectSQLite a b = (ascii_lower a = ascii_lower b)"
| "like_char DialectPostgreSQL a b = (a = b)"

fun like :: "Dialect \<Rightarrow> string \<Rightarrow> string \<Rightarrow> bool" where
  "like d [] s = (s = [])"
| "like d (p # ps) s =
     (if p = CHR ''%'' then
        like d ps s \<or> (case s of [] \<Rightarrow> False | c # t \<Rightarrow> like d (p # ps) t)
      else if p = backslash then
        (case ps of [] \<Rightarrow> False
         | q # qs \<Rightarrow> (case s of [] \<Rightarrow> False | c # t \<Rightarrow> like_char d q c \<and> like d qs t))
      else if p = CHR ''_'' then (case s of [] \<Rightarrow> False | c # t \<Rightarrow> like d ps t)
      else (case s of [] \<Rightarrow> False | c # t \<Rightarrow> like_char d p c \<and> like d ps t))"

section \<open>Rows\<close>

record FileMetadata =
  fm_ID :: string
  fm_Path :: string
  fm_Name :: string
  fm_Size :: int
  fm_Hash :: string
  fm_StorageType :: string
  fm_StorageLocation :: string
  fm_CreatedAt :: string
  fm_UpdatedAt :: string
  fm_IsDeleted :: bool

record DirectoryMetadata =
  dm_ID :: string
  dm_Path :: string
  dm_Name :: string
  dm_CreatedAt :: string
  dm_UpdatedAt :: string
  dm_IsDeleted :: bool

record TransferTask =
  tt_ID :: string
  tt_Type :: string
  tt_FileID :: string
  tt_ClientID :: string
  tt_Offset :: int
  tt_TotalSize :: int
  tt_Status :: string
  tt_CreatedAt :: string
  tt_UpdatedAt :: string

record AuditLog =
  al_ID :: string
  al_Timestamp :: string
  al_Operation :: string
  al_ResourcePath :: string
  al_UserIdentifier :: string
  al_ClientIP :: string
  al_UserAgent :: string
  al_Success :: bool
  al_Details :: string

text \<open>A row of \<open>api_keys\<close>: the two nullable timestamps are options.  The Go struct
  \<open>ApiKey\<close> has the empty string for NULL.\<close>

record api_key_row =
  kr_ID :: string
  kr_KeyHash :: string
  kr_Name :: string
  kr_Description :: string
  kr_Permissions :: string
  kr_CreatedAt :: string
  kr_ExpiresAt :: "string option"
  kr_LastUsedAt :: "string option"
  kr_IsActive :: bool

record db =
  db_dialect :: Dialect
  t_files :: "FileMetadata list"
  t_dirs :: "DirectoryMetadata list"
  t_tasks :: "TransferTask list"
  t_audit :: "AuditLog list"
  t_keys :: "api_key_row list"
  db_faults :: "err option list"

section \<open>Statements\<close>

definition pop_fault :: "db \<Rightarrow> err option \<times> db" where
  "pop_fault d = (case db_faults d of [] \<Rightarrow> (None, d) | f # fs \<Rightarrow> (f, d\<lparr>db_faults := fs\<rparr>))"

definition unique_violation :: err where
  "unique_violation = Ext ''UNIQUE constraint failed''"

text \<open>\<open>DB.Exec\<close> and \<open>Tx.Exec\<close>: a statement is a function that returns
  \<open>None\<close> when a constraint is violated, in which case no row changes.\<close>

definition db_Exec :: "(db \<Rightarrow> db option) \<Rightarrow> db \<Rightarrow> unit res \<times> db" where
  "db_Exec stmt d =
     (case pop_fault d of
        (Some e, d1) \<Rightarrow> (Inl e, d1)
      | (None, d1) \<Rightarrow>
          (case stmt d1 of None \<Rightarrow> (Inl unique_violation, d1) | Some d2 \<Rightarrow> (Inr (), d2)))"

text \<open>\<open>DB.QueryRow(...).Scan(...)\<close>: the first row of the answer.\<close>

definition db_QueryRow :: "(db \<Rightarrow> 'r list) \<Rightarrow> db \<Rightarrow> 'r res \<times> db" where
  "db_QueryRow q d =
     (case pop_fault d of
        (Some e, d1) \<Rightarrow> (Inl e, d1)
      | (None, d1) \<Rightarrow> (case q d1 of [] \<Rightarrow> (Inl ErrNoRows, d1) | r # _ \<Rightarrow> (Inr r, d1)))"

text \<open>\<open>DB.Query\<close>: when the prepared statement fails the query is run once more
  directly.  \<open>None\<close> is an answer the engine rejects (a negative limit).\<close>

definition db_Query :: "(db \<Rightarrow> 'r list option) \<Rightarrow> db \<Rightarrow> 'r list res \<times> db" where
  "db_Query q d =
     (let attempt = (\<lambda>d. case pop_fault d of
            (Some e, d1) \<Rightarrow> (Inl e, d1)
          | (None, d1) \<Rightarrow> (case q d1 of None \<Rightarrow> (Inl (Ext ''bad query''), d1) | Some rs \<Rightarrow> (Inr rs, d1)))
      in case attempt d of (Inl e, d1) \<Rightarrow> attempt d1 | (Inr rs, d1) \<Rightarrow> (Inr rs, d1))"

definition file_unique :: "FileMetadata list \<Rightarrow> bool" where
  "file_unique rs \<longleftrightarrow> distinct (map fm_ID rs) \<and> distinct (map fm_Path rs)"

definition dir_unique :: "DirectoryMetadata list \<Rightarrow> bool" where
  "dir_unique rs \<longleftrightarrow> distinct (map dm_ID rs) \<and> distinct (map dm_Path rs)"

definition task_unique :: "TransferTask list \<Rightarrow> bool" where
  "task_unique rs \<longleftrightarrow> distinct (map tt_ID rs)"

definition audit_unique :: "AuditLog list \<Rightarrow> bool" where
  "audit_unique rs \<longleftrightarrow> distinct (map al_ID rs)"

definition key_unique :: "api_key_row list \<Rightarrow> bool" where
  "key_unique rs \<longleftrightarrow> distinct (map kr_ID rs) \<and> distinct (map kr_KeyHash rs)"

definition updrows :: "('r \<Rightarrow> bool) \<Rightarrow> ('r \<Rightarrow> 'r) \<Rightarrow> 'r list \<Rightarrow> 'r list" where
  "updrows P f rs = map (\<lambda>r. if P r then f r else r) rs"

definition set_files :: "FileMetadata list \<Rightarrow> db \<Rightarrow> db option" where
  "set_files rs d = (if file_unique rs then Some (d\<lparr>t_files := rs\<rparr>) else None)"

definition set_dirs :: "DirectoryMetadata list \<Rightarrow> db \<Rightarrow> db option" where
  "set_dirs rs d = (if dir_unique rs then Some (d\<lparr>t_dirs := rs\<rparr>) else None)"

definition set_tasks :: "TransferTask list \<Rightarrow> db \<Rightarrow> db option" where
  "set_tasks rs d = (if task_unique rs then Some (d\<lparr>t_tasks := rs\<rparr>) else None)"

definition set_audit :: "AuditLog list \<Rightarrow> db \<Rightarrow> db option" where
  "set_audit rs d = (if audit_unique rs then Some (d\<lparr>t_audit := rs\<rparr>) else None)"

definition set_keys :: "api_key_row list \<Rightarrow> db \<Rightarrow> db option" where
  "set_keys rs d = (if key_unique rs then Some (d\<lparr>t_keys := rs\<rparr>) else None)"

text \<open>\<open>LIMIT l OFFSET o\<close>: SQLite reads a negative limit as none and a negative offset
  as zero, PostgreSQL rejects both.\<close>

definition limit_offset :: "Dialect \<Rightarrow> int \<Rightarrow> int \<Rightarrow> 'r list \<Rightarrow> 'r list option" where
  "limit_offset dl l ofs rs =
     (case dl of
        DialectSQLite \<Rightarrow> Some (if l < 0 then drop (nat ofs) rs else take (nat l) (drop (nat ofs) rs))
      | DialectPostgreSQL \<Rightarrow> if l < 0 \<or> ofs < 0 then None else Some (take (nat l) (drop (nat ofs) rs)))"

text \<open>\<open>DB.BeginTx\<close>, \<open>Tx.Commit\<close> and \<open>Tx.Rollback\<close>: the transaction
  works on the tables; ending it without a commit restores them.\<close>

definition tx_restore :: "db \<Rightarrow> db \<Rightarrow> db" where
  "tx_restore d0 d = d0\<lparr>db_faults := db_faults d\<rparr>"

definition tx_Commit :: "db \<Rightarrow> db \<Rightarrow> unit res \<times> db" where
  "tx_Commit d0 d =
     (case pop_fault d of (Some e, d1) \<Rightarrow> (Inl e, tx_restore d0 d1) | (None, d1) \<Rightarrow> (Inr (), d1))"

section \<open>Lemmas\<close>

definition db_wf :: "db \<Rightarrow> bool" where
  "db_wf d \<longleftrightarrow> file_unique (t_files d) \<and> dir_unique (t_dirs d) \<and> task_unique (t_tasks d) \<and>
     audit_unique (t_audit d) \<and> key_unique (t_keys d)"

text \<open>Two states with the same tables.\<close>

definition same_tables :: "db \<Rightarrow> db \<Rightarrow> bool" where
  "same_tables d e \<longleftrightarrow> db_dialect d = db_dialect e \<and> t_files d = t_files e \<and> t_dirs d = t_dirs e \<and>
     t_tasks d = t_tasks e \<and> t_audit d = t_audit e \<and> t_keys d = t_keys e"

lemma same_tables_refl [simp]: "same_tables d d"
  by (simp add: same_tables_def)

lemma same_tables_wf: "same_tables d e \<Longrightarrow> db_wf d = db_wf e"
  by (simp add: same_tables_def db_wf_def)

lemma pop_fault_nil [simp]: "db_faults d = [] \<Longrightarrow> pop_fault d = (None, d)"
  by (simp add: pop_fault_def)

lemma pop_fault_same: "pop_fault d = (f, d1) \<Longrightarrow> same_tables d1 d"
  by (auto simp: pop_fault_def same_tables_def split: list.splits)

lemma pop_fault_tables [simp]:
  "t_files (snd (pop_fault d)) = t_files d" "t_dirs (snd (pop_fault d)) = t_dirs d"
  "t_tasks (snd (pop_fault d)) = t_tasks d" "t_audit (snd (pop_fault d)) = t_audit d"
  "t_keys (snd (pop_fault d)) = t_keys d" "db_dialect (snd (pop_fault d)) = db_dialect d"
  by (simp_all add: pop_fault_def split: list.splits)

lemma db_QueryRow_same: "db_QueryRow q d = (r, d1) \<Longrightarrow> same_tables d1 d"
  by (auto simp: db_QueryRow_def dest: pop_fault_same split: prod.splits option.splits list.splits)

lemma same_tables_trans: "same_tables a b \<Longrightarrow> same_tables b c \<Longrightarrow> same_tables a c"
  by (simp add: same_tables_def)

lemma db_Query_same: "db_Query q d = (r, d1) \<Longrightarrow> same_tables d1 d"
  by (auto simp: db_Query_def Let_def dest!: pop_fault_same intro: same_tables_trans
      split: prod.splits option.splits sum.splits)

lemma db_Query_answer:
  assumes "db_Query (\<lambda>d. Some (q d)) d = (Inr es, d1)" "\<And>d e. same_tables d e \<Longrightarrow> q d = q e"
  shows "es = q d"
  using assms pop_fault_same same_tables_trans unfolding db_Query_def Let_def
  by (auto split: prod.splits sum.splits option.splits) blast+

lemma db_Exec_err: "db_Exec s d = (Inl e, d1) \<Longrightarrow> same_tables d1 d"
  by (auto simp: db_Exec_def dest: pop_fault_same split: prod.splits option.splits)

lemma db_Exec_ok:
  "db_Exec s d = (Inr u, d1) \<Longrightarrow> \<exists>d0. same_tables d0 d \<and> s d0 = Some d1"
  by (auto simp: db_Exec_def dest: pop_fault_same split: prod.splits option.splits)

lemma ReplaceAll1_append: "ReplaceAll1 c r (a @ b) = ReplaceAll1 c r a @ ReplaceAll1 c r b"
  by (simp add: ReplaceAll1_def)

lemma escape_Nil [simp]: "escapeLikePattern [] = []"
  by (simp add: escapeLikePattern_def ReplaceAll1_def)

lemma escape_Cons:
  "escapeLikePattern (c # s) =
     (if c \<in> {backslash, CHR ''%'', CHR ''_''} then backslash # c # escapeLikePattern s
      else c # escapeLikePattern s)"
  by (auto simp: escapeLikePattern_def ReplaceAll1_def Let_def)

text \<open>A pattern that starts with an escaped string matches that string literally and goes on
  with the rest.\<close>

lemma like_escape:
  "like d (escapeLikePattern p @ q) s \<longleftrightarrow>
     (\<exists>u v. s = u @ v \<and> list_all2 (like_char d) p u \<and> like d q v)"
proof (induction p arbitrary: s)
  case (Cons c p)
  have "like d (escapeLikePattern (c # p) @ q) s \<longleftrightarrow>
      (\<exists>b t. s = b # t \<and> like_char d c b \<and> like d (escapeLikePattern p @ q) t)"
    by (cases s) (auto simp: escape_Cons)
  also have "\<dots> \<longleftrightarrow> (\<exists>u v. s = u @ v \<and> list_all2 (like_char d) (c # p) u \<and> like d q v)"
    unfolding Cons.IH list_all2_Cons1 by (metis append_Cons)
  finally show ?case .
qed simp

lemma like_percent [simp]: "like d ''%'' s"
  by (induction s) auto

lemma like_prefix:
  "like d (escapeLikePattern p @ ''%'') s \<longleftrightarrow> (\<exists>u v. s = u @ v \<and> list_all2 (like_char d) p u)"
  unfolding like_escape by (metis like_percent)

lemma like_char_refl [simp]: "like_char d c c"
  by (cases d) auto

lemma HasPrefix_like: "HasPrefix s p \<Longrightarrow> like d (escapeLikePattern p @ ''%'') s"
  unfolding like_prefix HasPrefix_iff by (metis like_char_refl list.rel_refl)

lemma like_pg: "like DialectPostgreSQL (escapeLikePattern p @ ''%'') s \<longleftrightarrow> HasPrefix s p"
proof -
  have "like_char DialectPostgreSQL = (=)" by (simp add: fun_eq_iff)
  then show ?thesis unfolding like_prefix HasPrefix_iff by (auto simp: list.rel_eq)
qed

lemma ascii_lower_rel:
  "list_all2 (like_char DialectSQLite) p u \<longleftrightarrow> map ascii_lower p = map ascii_lower u"
  by (auto simp: list_all2_conv_all_nth list_eq_iff_nth_eq)

lemma HasPrefix_map: "HasPrefix (map f s) (map f p) \<longleftrightarrow> (\<exists>u v. s = u @ v \<and> map f p = map f u)"
proof
  assume "HasPrefix (map f s) (map f p)"
  then have "map f (take (length p) s) = map f p" by (simp add: HasPrefix_def take_map)
  then show "\<exists>u v. s = u @ v \<and> map f p = map f u" by (metis append_take_drop_id)
next
  assume "\<exists>u v. s = u @ v \<and> map f p = map f u"
  then show "HasPrefix (map f s) (map f p)" by (auto simp: HasPrefix_iff)
qed

section \<open>Properties\<close>

text \<open>
  \<open>escapeLikePattern\<close> makes \<open>LIKE\<close> a literal prefix test.  Whatever percent
  signs, underscores and backslashes a path contains, \<open>path LIKE escaped || '%'\<close> holds
  exactly for the strings that start with it: byte for byte under PostgreSQL, and up to the case
  of ASCII letters under SQLite.
\<close>

theorem escapeLikePattern_literal:
  "like DialectPostgreSQL (escapeLikePattern p @ ''%'') s = HasPrefix s p \<and>
   like DialectSQLite (escapeLikePattern p @ ''%'') s = HasPrefix (map ascii_lower s) (map ascii_lower p)"
  unfolding like_pg by (simp add: like_prefix ascii_lower_rel HasPrefix_map)

lemma Translate_loop_split:
  "Translate_loop n q = hd (Split (CHR ''?'') q) @
     concat (map2 (\<lambda>i part. CHR ''$'' # decimal i @ part) [n..<n + length (tl (Split (CHR ''?'') q))]
       (tl (Split (CHR ''?'') q)))"
proof (induction q arbitrary: n)
  case (Cons c q)
  obtain y ys where y: "Split (CHR ''?'') q = y # ys" by (cases "Split (CHR ''?'') q") auto
  show ?case
  proof (cases "c = CHR ''?''")
    case True
    have "[n..<n + length (y # ys)] = n # [Suc n..<Suc n + length ys]"
      by (simp add: upt_conv_Cons del: upt_Suc)
    with True Cons [of "Suc n"] y show ?thesis by (simp del: upt_Suc)
  qed (use Cons [of n] y in simp)
qed simp

text \<open>
  The translation of placeholders.  Under PostgreSQL the text between the question marks
  is kept as it is and the i-th question mark becomes \<open>$i\<close>; under SQLite the query is
  not changed.
\<close>

theorem Translate_numbers_placeholders:
  "Translate DialectSQLite q = q \<and>
   Translate DialectPostgreSQL q = hd (Split (CHR ''?'') q) @
     concat (map2 (\<lambda>i part. ''$'' @ decimal i @ part) [1..<length (Split (CHR ''?'') q)]
       (tl (Split (CHR ''?'') q)))"
proof -
  have "Suc (length (tl (Split (CHR ''?'') q))) = length (Split (CHR ''?'') q)"
    by (simp add: Suc_diff_le Suc_le_eq)
  with Translate_loop_split [of 1 q] show ?thesis by (simp add: Translate_def)
qed

end
