(* ===== verification/Metadata.thy ===== *)
theory Metadata
  imports Sql
begin

text \<open>
  \<open>src/internal/database/metadata.go\<close>: the services over the five tables.  Every method is
  the sequence of statements the source runs, with its error branches.  The time stamps a
  method takes from the clock are arguments.

  The two soft-delete tables, files and directories, share a contract: the locale
  \<open>soft_table\<close>, interpreted by \<open>FileMetadataService\<close> and by
  \<open>DirectoryMetadataService\<close>.
\<close>

section \<open>FileMetadataService\<close>

definition File_Create :: "FileMetadata \<Rightarrow> db \<Rightarrow> unit res \<times> db" where
  "File_Create m0 d =
     (let m = m0\<lparr>fm_Path := NormalizePath (fm_Path m0)\<rparr>
      in case db_QueryRow (\<lambda>d. map fm_ID (filter (\<lambda>r. fm_Path r = fm_Path m \<and> fm_IsDeleted r) (t_files d))) d of
           (Inr existingID, d1) \<Rightarrow>
             (case db_Exec (\<lambda>d. set_files (updrows (\<lambda>r. fm_Path r = fm_Path m)
                     (\<lambda>r. r\<lparr>fm_ID := fm_ID m, fm_Name := fm_Name m, fm_Size := fm_Size m,
                            fm_Hash := fm_Hash m, fm_StorageType := fm_StorageType m,
                            fm_StorageLocation := fm_StorageLocation m, fm_CreatedAt := fm_CreatedAt m,
                            fm_UpdatedAt := fm_UpdatedAt m, fm_IsDeleted := False\<rparr>) (t_files d)) d) d1 of
                (Inl e, d2) \<Rightarrow> (Inl (Wrapf ''failed to restore deleted file record'' e), d2)
              | (Inr _, d2) \<Rightarrow> (Inr (), d2))
         | (Inl _, d1) \<Rightarrow>
             (case db_Exec (\<lambda>d. set_files (t_files d @ [m]) d) d1 of
                (Inl e, d2) \<Rightarrow> (Inl (Wrapf ''failed to create file metadata'' e), d2)
              | (Inr _, d2) \<Rightarrow> (Inr (), d2)))"

definition File_Update :: "FileMetadata \<Rightarrow> db \<Rightarrow> unit res \<times> db" where
  "File_Update m d =
     (case db_Exec (\<lambda>d. set_files (updrows (\<lambda>r. fm_ID r = fm_ID m)
              (\<lambda>r. r\<lparr>fm_Path := fm_Path m, fm_Name := fm_Name m, fm_Size := fm_Size m,
                     fm_Hash := fm_Hash m, fm_StorageType := fm_StorageType m,
                     fm_StorageLocation := fm_StorageLocation m, fm_UpdatedAt := fm_UpdatedAt m,
                     fm_IsDeleted := fm_IsDeleted m\<rparr>) (t_files d)) d) d of
        (Inl e, d1) \<Rightarrow> (Inl (Wrapf ''failed to update file metadata'' e), d1)
      | (Inr _, d1) \<Rightarrow> (Inr (), d1))"

definition File_Remove :: "string \<Rightarrow> string \<Rightarrow> db \<Rightarrow> unit res \<times> db" where
  "File_Remove now i d =
     (case db_Exec (\<lambda>d. set_files (updrows (\<lambda>r. fm_ID r = i)
              (\<lambda>r. r\<lparr>fm_IsDeleted := True, fm_UpdatedAt := now\<rparr>) (t_files d)) d) d of
        (Inl e, d1) \<Rightarrow> (Inl (Wrapf ''failed to remove file metadata'' e), d1)
      | (Inr _, d1) \<Rightarrow> (Inr (), d1))"

definition scanFileMetadata :: "FileMetadata res \<times> db \<Rightarrow> FileMetadata option res \<times> db" where
  "scanFileMetadata row =
     (case row of
        (Inr m, d) \<Rightarrow> (Inr (Some m), d)
      | (Inl e, d) \<Rightarrow>
          if e = ErrNoRows then (Inr None, d) else (Inl (Wrapf ''failed to scan file metadata'' e), d))"

definition File_GetById :: "string \<Rightarrow> db \<Rightarrow> FileMetadata option res \<times> db" where
  "File_GetById i d =
     scanFileMetadata (db_QueryRow (\<lambda>d. filter (\<lambda>r. fm_ID r = i \<and> \<not> fm_IsDeleted r) (t_files d)) d)"

definition File_GetByPath :: "string \<Rightarrow> db \<Rightarrow> FileMetadata option res \<times> db" where
  "File_GetByPath path0 d =
     (let path = NormalizePath path0
      in scanFileMetadata (db_QueryRow (\<lambda>d. filter (\<lambda>r. fm_Path r = path \<and> \<not> fm_IsDeleted r) (t_files d)) d))"

definition allowedSortColumns :: "string list" where
  "allowedSortColumns = [''name'', ''path'', ''size'', ''created_at'', ''updated_at'']"

text \<open>\<open>ORDER BY\<close> a column of \<open>files\<close>; rows with equal values keep their order.\<close>

definition order_files :: "string \<Rightarrow> bool \<Rightarrow> FileMetadata list \<Rightarrow> FileMetadata list" where
  "order_files col desc rs =
     (let s = (if col = ''size'' then sort_key fm_Size rs
               else if col = ''path'' then sort_key fm_Path rs
               else if col = ''created_at'' then sort_key fm_CreatedAt rs
               else if col = ''updated_at'' then sort_key fm_UpdatedAt rs
               else sort_key fm_Name rs)
      in if desc then rev s else s)"

definition File_List ::
  "string \<Rightarrow> string \<Rightarrow> string \<Rightarrow> int \<Rightarrow> int \<Rightarrow> db \<Rightarrow> FileMetadata list res \<times> db"
where
  "File_List directoryPath0 sortBy0 sortOrder page pageSize d =
     (let directoryPath = NormalizePath directoryPath0;
          sortBy = (if sortBy0 \<in> set allowedSortColumns then sortBy0 else ''name'');
          desc = EqualFold_desc sortOrder;
          offset = wrap64 (wrap64 (page - 1) * pageSize)
      in case db_Query (\<lambda>d. limit_offset (db_dialect d) pageSize offset (order_files sortBy desc
                 (filter (\<lambda>r. \<not> fm_IsDeleted r \<and> (directoryPath \<noteq> [] \<longrightarrow>
                     like (db_dialect d) (escapeLikePattern directoryPath @ ''%'') (fm_Path r)))
                   (t_files d)))) d of
           (Inl e, d1) \<Rightarrow> (Inl (Wrapf ''failed to list files'' e), d1)
         | (Inr rows, d1) \<Rightarrow>
             (case pop_fault d1 of
                (Some e, d2) \<Rightarrow> (Inl (Wrapf ''error iterating file rows'' e), d2)
              | (None, d2) \<Rightarrow> (Inr rows, d2)))"

definition File_Exists :: "string \<Rightarrow> db \<Rightarrow> bool res \<times> db" where
  "File_Exists path0 d =
     (let path = NormalizePath path0
      in case db_QueryRow (\<lambda>d. [length (filter (\<lambda>r. fm_Path r = path \<and> \<not> fm_IsDeleted r) (t_files d))]) d of
           (Inl e, d1) \<Rightarrow> (Inl (Wrapf ''failed to check file existence'' e), d1)
         | (Inr count, d1) \<Rightarrow> (Inr (0 < count), d1))"

section \<open>DirectoryMetadataService\<close>

definition Dir_Create :: "DirectoryMetadata \<Rightarrow> db \<Rightarrow> unit res \<times> db" where
  "Dir_Create m0 d =
     (let m = m0\<lparr>dm_Path := NormalizePath (dm_Path m0)\<rparr>
      in case db_QueryRow (\<lambda>d. map dm_ID (filter (\<lambda>r. dm_Path r = dm_Path m \<and> dm_IsDeleted r) (t_dirs d))) d of
           (Inr existingID, d1) \<Rightarrow>
             (case db_Exec (\<lambda>d. set_dirs (updrows (\<lambda>r. dm_Path r = dm_Path m)
                     (\<lambda>r. r\<lparr>dm_ID := dm_ID m, dm_Name := dm_Name m, dm_CreatedAt := dm_CreatedAt m,
                            dm_UpdatedAt := dm_UpdatedAt m, dm_IsDeleted := False\<rparr>) (t_dirs d)) d) d1 of
                (Inl e, d2) \<Rightarrow> (Inl (Wrapf ''failed to restore deleted directory record'' e), d2)
              | (Inr _, d2) \<Rightarrow> (Inr (), d2))
         | (Inl _, d1) \<Rightarrow>
             (case db_Exec (\<lambda>d. set_dirs (t_dirs d @ [m]) d) d1 of
                (Inl e, d2) \<Rightarrow> (Inl (Wrapf ''failed to create directory metadata'' e), d2)
              | (Inr _, d2) \<Rightarrow> (Inr (), d2)))"

definition Dir_Update :: "DirectoryMetadata \<Rightarrow> db \<Rightarrow> unit res \<times> db" where
  "Dir_Update m d =
     (case db_Exec (\<lambda>d. set_dirs (updrows (\<lambda>r. dm_ID r = dm_ID m)
              (\<lambda>r. r\<lparr>dm_Path := dm_Path m, dm_Name := dm_Name m, dm_UpdatedAt := dm_UpdatedAt m,
                     dm_IsDeleted := dm_IsDeleted m\<rparr>) (t_dirs d)) d) d of
        (Inl e, d1) \<Rightarrow> (Inl (Wrapf ''failed to update directory metadata'' e), d1)
      | (Inr _, d1) \<Rightarrow> (Inr (), d1))"

definition Dir_Remove :: "string \<Rightarrow> string \<Rightarrow> db \<Rightarrow> unit res \<times> db" where
  "Dir_Remove now i d =
     (case db_Exec (\<lambda>d. set_dirs (updrows (\<lambda>r. dm_ID r = i)
              (\<lambda>r. r\<lparr>dm_IsDeleted := True, dm_UpdatedAt := now\<rparr>) (t_dirs d)) d) d of
        (Inl e, d1) \<Rightarrow> (Inl (Wrapf ''failed to remove directory metadata'' e), d1)
      | (Inr _, d1) \<Rightarrow> (Inr (), d1))"

definition scanDirectoryMetadata ::
  "DirectoryMetadata res \<times> db \<Rightarrow> DirectoryMetadata option res \<times> db"
where
  "scanDirectoryMetadata row =
     (case row of
        (Inr m, d) \<Rightarrow> (Inr (Some m), d)
      | (Inl e, d) \<Rightarrow>
          if e = ErrNoRows then (Inr None, d)
          else (Inl (Wrapf ''failed to scan directory metadata'' e), d))"

definition Dir_GetById :: "string \<Rightarrow> db \<Rightarrow> DirectoryMetadata option res \<times> db" where
  "Dir_GetById i d =
     scanDirectoryMetadata (db_QueryRow (\<lambda>d. filter (\<lambda>r. dm_ID r = i \<and> \<not> dm_IsDeleted r) (t_dirs d)) d)"

definition Dir_GetByPath :: "string \<Rightarrow> db \<Rightarrow> DirectoryMetadata option res \<times> db" where
  "Dir_GetByPath path0 d =
     (let path = NormalizePath path0
      in scanDirectoryMetadata (db_QueryRow (\<lambda>d. filter (\<lambda>r. dm_Path r = path \<and> \<not> dm_IsDeleted r) (t_dirs d)) d))"

definition Dir_List :: "string \<Rightarrow> int \<Rightarrow> int \<Rightarrow> db \<Rightarrow> DirectoryMetadata list res \<times> db" where
  "Dir_List parentPath0 page pageSize d =
     (let parentPath = NormalizePath parentPath0;
          offset = wrap64 (wrap64 (page - 1) * pageSize)
      in case db_Query (\<lambda>d. limit_offset (db_dialect d) pageSize offset (sort_key dm_Name
                 (filter (\<lambda>r. \<not> dm_IsDeleted r \<and> (parentPath \<noteq> [] \<longrightarrow>
                     like (db_dialect d) (escapeLikePattern parentPath @ ''/%'') (dm_Path r)))
                   (t_dirs d)))) d of
           (Inl e, d1) \<Rightarrow> (Inl (Wrapf ''failed to list directories'' e), d1)
         | (Inr rows, d1) \<Rightarrow>
             (case pop_fault d1 of
                (Some e, d2) \<Rightarrow> (Inl (Wrapf ''error iterating directory rows'' e), d2)
              | (None, d2) \<Rightarrow> (Inr rows, d2)))"

definition Dir_Exists :: "string \<Rightarrow> db \<Rightarrow> bool res \<times> db" where
  "Dir_Exists path0 d =
     (let path = NormalizePath path0
      in case db_QueryRow (\<lambda>d. [length (filter (\<lambda>r. dm_Path r = path \<and> \<not> dm_IsDeleted r) (t_dirs d))]) d of
           (Inl e, d1) \<Rightarrow> (Inl (Wrapf ''failed to check directory existence'' e), d1)
         | (Inr count, d1) \<Rightarrow> (Inr (0 < count), d1))"

section \<open>TransferTaskService\<close>

definition Task_Create :: "TransferTask \<Rightarrow> db \<Rightarrow> unit res \<times> db" where
  "Task_Create t d =
     (case db_Exec (\<lambda>d. set_tasks (t_tasks d @ [t]) d) d of
        (Inl e, d1) \<Rightarrow> (Inl (Wrapf ''failed to create transfer task'' e), d1)
      | (Inr _, d1) \<Rightarrow> (Inr (), d1))"

definition Task_Update :: "TransferTask \<Rightarrow> db \<Rightarrow> unit res \<times> db" where
  "Task_Update t d =
     (case db_Exec (\<lambda>d. set_tasks (updrows (\<lambda>r. tt_ID r = tt_ID t)
              (\<lambda>r. r\<lparr>tt_Type := tt_Type t, tt_FileID := tt_FileID t, tt_ClientID := tt_ClientID t,
                     tt_Offset := tt_Offset t, tt_TotalSize := tt_TotalSize t,
                     tt_Status := tt_Status t, tt_UpdatedAt := tt_UpdatedAt t\<rparr>) (t_tasks d)) d) d of
        (Inl e, d1) \<Rightarrow> (Inl (Wrapf ''failed to update transfer task'' e), d1)
      | (Inr _, d1) \<Rightarrow> (Inr (), d1))"

definition Task_Remove :: "string \<Rightarrow> db \<Rightarrow> unit res \<times> db" where
  "Task_Remove i d =
     (case db_Exec (\<lambda>d. set_tasks (filter (\<lambda>r. tt_ID r \<noteq> i) (t_tasks d)) d) d of
        (Inl e, d1) \<Rightarrow> (Inl (Wrapf ''failed to remove transfer task'' e), d1)
      | (Inr _, d1) \<Rightarrow> (Inr (), d1))"

definition scanTransferTask :: "TransferTask res \<times> db \<Rightarrow> TransferTask option res \<times> db" where
  "scanTransferTask row =
     (case row of
        (Inr m, d) \<Rightarrow> (Inr (Some m), d)
      | (Inl e, d) \<Rightarrow>
          if e = ErrNoRows then (Inr None, d) else (Inl (Wrapf ''failed to scan transfer task'' e), d))"

definition Task_GetById :: "string \<Rightarrow> db \<Rightarrow> TransferTask option res \<times> db" where
  "Task_GetById i d = scanTransferTask (db_QueryRow (\<lambda>d. filter (\<lambda>r. tt_ID r = i) (t_tasks d)) d)"

definition Task_ListByFileId :: "string \<Rightarrow> db \<Rightarrow> TransferTask list res \<times> db" where
  "Task_ListByFileId fileId d =
     (case db_Query (\<lambda>d. Some (rev (sort_key tt_CreatedAt (filter (\<lambda>r. tt_FileID r = fileId) (t_tasks d))))) d of
        (Inl e, d1) \<Rightarrow> (Inl (Wrapf ''failed to list transfer tasks by file id'' e), d1)
      | (Inr rows, d1) \<Rightarrow>
          (case pop_fault d1 of
             (Some e, d2) \<Rightarrow> (Inl (Wrapf ''error iterating transfer task rows'' e), d2)
           | (None, d2) \<Rightarrow> (Inr rows, d2)))"

definition Task_UpdateProgress :: "string \<Rightarrow> string \<Rightarrow> int \<Rightarrow> db \<Rightarrow> unit res \<times> db" where
  "Task_UpdateProgress now taskId offset d =
     (case db_Exec (\<lambda>d. set_tasks (updrows (\<lambda>r. tt_ID r = taskId)
              (\<lambda>r. r\<lparr>tt_Offset := offset, tt_UpdatedAt := now\<rparr>) (t_tasks d)) d) d of
        (Inl e, d1) \<Rightarrow> (Inl (Wrapf ''failed to update transfer task progress'' e), d1)
      | (Inr _, d1) \<Rightarrow> (Inr (), d1))"

definition Task_CompleteTask :: "string \<Rightarrow> string \<Rightarrow> db \<Rightarrow> unit res \<times> db" where
  "Task_CompleteTask now taskId d =
     (case db_Exec (\<lambda>d. set_tasks (updrows (\<lambda>r. tt_ID r = taskId)
              (\<lambda>r. r\<lparr>tt_Status := ''completed'', tt_UpdatedAt := now\<rparr>) (t_tasks d)) d) d of
        (Inl e, d1) \<Rightarrow> (Inl (Wrapf ''failed to complete transfer task'' e), d1)
      | (Inr _, d1) \<Rightarrow> (Inr (), d1))"

definition Task_FailTask :: "string \<Rightarrow> string \<Rightarrow> db \<Rightarrow> unit res \<times> db" where
  "Task_FailTask now taskId d =
     (case db_Exec (\<lambda>d. set_tasks (updrows (\<lambda>r. tt_ID r = taskId)
              (\<lambda>r. r\<lparr>tt_Status := ''failed'', tt_UpdatedAt := now\<rparr>) (t_tasks d)) d) d of
        (Inl e, d1) \<Rightarrow> (Inl (Wrapf ''failed to fail transfer task'' e), d1)
      | (Inr _, d1) \<Rightarrow> (Inr (), d1))"

section \<open>AuditLogService\<close>

definition Audit_Create :: "AuditLog \<Rightarrow> db \<Rightarrow> unit res \<times> db" where
  "Audit_Create l d =
     (case db_Exec (\<lambda>d. set_audit (t_audit d @ [l]) d) d of
        (Inl e, d1) \<Rightarrow> (Inl (Wrapf ''failed to create audit log'' e), d1)
      | (Inr _, d1) \<Rightarrow> (Inr (), d1))"

definition scanAuditLog :: "AuditLog res \<times> db \<Rightarrow> AuditLog option res \<times> db" where
  "scanAuditLog row =
     (case row of
        (Inr m, d) \<Rightarrow> (Inr (Some m), d)
      | (Inl e, d) \<Rightarrow>
          if e = ErrNoRows then (Inr None, d) else (Inl (Wrapf ''failed to scan audit log'' e), d))"

definition Audit_GetById :: "string \<Rightarrow> db \<Rightarrow> AuditLog option res \<times> db" where
  "Audit_GetById i d = scanAuditLog (db_QueryRow (\<lambda>d. filter (\<lambda>r. al_ID r = i) (t_audit d)) d)"

definition Audit_List ::
  "string \<Rightarrow> string \<Rightarrow> int \<Rightarrow> int \<Rightarrow> db \<Rightarrow> AuditLog list res \<times> db"
where
  "Audit_List operation resourcePath page pageSize d =
     (let offset = wrap64 (wrap64 (page - 1) * pageSize)
      in case db_Query (\<lambda>d. limit_offset (db_dialect d) pageSize offset (rev (sort_key al_Timestamp
                 (filter (\<lambda>r. (operation \<noteq> [] \<longrightarrow> al_Operation r = operation) \<and>
                    (resourcePath \<noteq> [] \<longrightarrow>
                       like (db_dialect d) (escapeLikePattern resourcePath @ ''%'') (al_ResourcePath r)))
                   (t_audit d))))) d of
           (Inl e, d1) \<Rightarrow> (Inl (Wrapf ''failed to list audit logs'' e), d1)
         | (Inr rows, d1) \<Rightarrow>
             (case pop_fault d1 of
                (Some e, d2) \<Rightarrow> (Inl (Wrapf ''error iterating audit log rows'' e), d2)
              | (None, d2) \<Rightarrow> (Inr rows, d2)))"

definition Audit_ListByTimeRange ::
  "string \<Rightarrow> string \<Rightarrow> int \<Rightarrow> int \<Rightarrow> db \<Rightarrow> AuditLog list res \<times> db"
where
  "Audit_ListByTimeRange startTime endTime page pageSize d =
     (let offset = wrap64 (wrap64 (page - 1) * pageSize)
      in case db_Query (\<lambda>d. limit_offset (db_dialect d) pageSize offset (rev (sort_key al_Timestamp
                 (filter (\<lambda>r. startTime \<le> al_Timestamp r \<and> al_Timestamp r \<le> endTime) (t_audit d))))) d of
           (Inl e, d1) \<Rightarrow> (Inl (Wrapf ''failed to list audit logs by time range'' e), d1)
         | (Inr rows, d1) \<Rightarrow>
             (case pop_fault d1 of
                (Some e, d2) \<Rightarrow> (Inl (Wrapf ''error iterating audit log rows'' e), d2)
              | (None, d2) \<Rightarrow> (Inr rows, d2)))"

section \<open>ApiKeyService\<close>

record ApiKey =
  ak_ID :: string
  ak_KeyHash :: string
  ak_Name :: string
  ak_Description :: string
  ak_Permissions :: string
  ak_CreatedAt :: string
  ak_ExpiresAt :: string
  ak_LastUsedAt :: string
  ak_IsActive :: bool

definition toNullString :: "string \<Rightarrow> string option" where
  "toNullString s = (if s \<noteq> [] then Some s else None)"

definition Key_Create :: "ApiKey \<Rightarrow> db \<Rightarrow> unit res \<times> db" where
  "Key_Create k d =
     (case db_Exec (\<lambda>d. set_keys (t_keys d @
              [\<lparr>kr_ID = ak_ID k, kr_KeyHash = ak_KeyHash k, kr_Name = ak_Name k,
                kr_Description = ak_Description k, kr_Permissions = ak_Permissions k,
                kr_CreatedAt = ak_CreatedAt k, kr_ExpiresAt = toNullString (ak_ExpiresAt k),
                kr_LastUsedAt = None, kr_IsActive = ak_IsActive k\<rparr>]) d) d of
        (Inl e, d1) \<Rightarrow> (Inl (Wrapf ''failed to create api key'' e), d1)
      | (Inr _, d1) \<Rightarrow> (Inr (), d1))"

definition Key_Update :: "ApiKey \<Rightarrow> db \<Rightarrow> unit res \<times> db" where
  "Key_Update k d =
     (case db_Exec (\<lambda>d. set_keys (updrows (\<lambda>r. kr_ID r = ak_ID k)
              (\<lambda>r. r\<lparr>kr_Name := ak_Name k, kr_Description := ak_Description k,
                     kr_Permissions := ak_Permissions k, kr_ExpiresAt := toNullString (ak_ExpiresAt k),
                     kr_IsActive := ak_IsActive k\<rparr>) (t_keys d)) d) d of
        (Inl e, d1) \<Rightarrow> (Inl (Wrapf ''failed to update api key'' e), d1)
      | (Inr _, d1) \<Rightarrow> (Inr (), d1))"

definition Key_Remove :: "string \<Rightarrow> db \<Rightarrow> unit res \<times> db" where
  "Key_Remove i d =
     (case db_Exec (\<lambda>d. set_keys (filter (\<lambda>r. kr_ID r \<noteq> i) (t_keys d)) d) d of
        (Inl e, d1) \<Rightarrow> (Inl (Wrapf ''failed to remove api key'' e), d1)
      | (Inr _, d1) \<Rightarrow> (Inr (), d1))"

definition ApiKey_of_row :: "api_key_row \<Rightarrow> ApiKey" where
  "ApiKey_of_row r =
     \<lparr>ak_ID = kr_ID r, ak_KeyHash = kr_KeyHash r, ak_Name = kr_Name r,
      ak_Description = kr_Description r, ak_Permissions = kr_Permissions r,
      ak_CreatedAt = kr_CreatedAt r,
      ak_ExpiresAt = (case kr_ExpiresAt r of Some s \<Rightarrow> s | None \<Rightarrow> []),
      ak_LastUsedAt = (case kr_LastUsedAt r of Some s \<Rightarrow> s | None \<Rightarrow> []),
      ak_IsActive = kr_IsActive r\<rparr>"

definition scanApiKey :: "api_key_row res \<times> db \<Rightarrow> ApiKey option res \<times> db" where
  "scanApiKey row =
     (case row of
        (Inr r, d) \<Rightarrow> (Inr (Some (ApiKey_of_row r)), d)
      | (Inl e, d) \<Rightarrow>
          if e = ErrNoRows then (Inr None, d) else (Inl (Wrapf ''failed to scan api key'' e), d))"

definition Key_GetById :: "string \<Rightarrow> db \<Rightarrow> ApiKey option res \<times> db" where
  "Key_GetById i d = scanApiKey (db_QueryRow (\<lambda>d. filter (\<lambda>r. kr_ID r = i) (t_keys d)) d)"

definition Key_IsExpired :: "string \<Rightarrow> ApiKey \<Rightarrow> bool" where
  "Key_IsExpired now k \<longleftrightarrow> ak_ExpiresAt k \<noteq> [] \<and> ak_ExpiresAt k < now"

definition Key_GetByKeyHash :: "string \<Rightarrow> string \<Rightarrow> db \<Rightarrow> ApiKey option res \<times> db" where
  "Key_GetByKeyHash now keyHash d =
     (case scanApiKey (db_QueryRow (\<lambda>d. filter (\<lambda>r. kr_KeyHash r = keyHash \<and> kr_IsActive r) (t_keys d)) d) of
        (Inl e, d1) \<Rightarrow> (Inl e, d1)
      | (Inr None, d1) \<Rightarrow> (Inr None, d1)
      | (Inr (Some k), d1) \<Rightarrow> if Key_IsExpired now k then (Inr None, d1) else (Inr (Some k), d1))"

text \<open>The loop of \<open>List\<close> scans into plain strings: \<open>database/sql\<close> refuses to
  store NULL there.\<close>

fun scan_key_rows :: "api_key_row list \<Rightarrow> ApiKey list res" where
  "scan_key_rows [] = Inr []"
| "scan_key_rows (r # rs) =
     (case (kr_ExpiresAt r, kr_LastUsedAt r) of
        (Some _, Some _) \<Rightarrow>
          (case scan_key_rows rs of Inl e \<Rightarrow> Inl e | Inr ks \<Rightarrow> Inr (ApiKey_of_row r # ks))
      | _ \<Rightarrow> Inl (Wrapf ''failed to scan api key'' (Ext ''converting NULL to string is unsupported'')))"

definition Key_List :: "bool \<Rightarrow> int \<Rightarrow> int \<Rightarrow> db \<Rightarrow> ApiKey list res \<times> db" where
  "Key_List activeOnly page pageSize d =
     (let offset = wrap64 (wrap64 (page - 1) * pageSize)
      in case db_Query (\<lambda>d. limit_offset (db_dialect d) pageSize offset (rev (sort_key kr_CreatedAt
                 (filter (\<lambda>r. activeOnly \<longrightarrow> kr_IsActive r) (t_keys d))))) d of
           (Inl e, d1) \<Rightarrow> (Inl (Wrapf ''failed to list api keys'' e), d1)
         | (Inr rows, d1) \<Rightarrow>
             (case scan_key_rows rows of
                Inl e \<Rightarrow> (Inl e, d1)
              | Inr ks \<Rightarrow>
                  (case pop_fault d1 of
                     (Some e, d2) \<Rightarrow> (Inl (Wrapf ''error iterating api key rows'' e), d2)
                   | (None, d2) \<Rightarrow> (Inr ks, d2))))"

definition Key_UpdateLastUsed :: "string \<Rightarrow> string \<Rightarrow> db \<Rightarrow> unit res \<times> db" where
  "Key_UpdateLastUsed now i d =
     (case db_Exec (\<lambda>d. set_keys (updrows (\<lambda>r. kr_ID r = i)
              (\<lambda>r. r\<lparr>kr_LastUsedAt := Some now\<rparr>) (t_keys d)) d) d of
        (Inl e, d1) \<Rightarrow> (Inl (Wrapf ''failed to update api key last used'' e), d1)
      | (Inr _, d1) \<Rightarrow> (Inr (), d1))"

definition Key_Deactivate :: "string \<Rightarrow> db \<Rightarrow> unit res \<times> db" where
  "Key_Deactivate i d =
     (case db_Exec (\<lambda>d. set_keys (updrows (\<lambda>r. kr_ID r = i)
              (\<lambda>r. r\<lparr>kr_IsActive := False\<rparr>) (t_keys d)) d) d of
        (Inl e, d1) \<Rightarrow> (Inl (Wrapf ''failed to deactivate api key'' e), d1)
      | (Inr _, d1) \<Rightarrow> (Inr (), d1))"

section \<open>Lemmas on the tables\<close>

lemmas set_defs = set_files_def set_dirs_def set_tasks_def set_audit_def set_keys_def

lemma updrows_same_length [simp]: "length (updrows P f rs) = length rs"
  by (simp add: updrows_def)

lemma updrows_key: "(\<And>r. k (f r) = k r) \<Longrightarrow> map k (updrows P f rs) = map k rs"
  by (simp add: updrows_def)


lemma updrows_none: "(\<And>r. r \<in> set rs \<Longrightarrow> \<not> P r) \<Longrightarrow> updrows P f rs = rs"
  by (induction rs) (auto simp: updrows_def)

lemma updrows_fresh:
  assumes "distinct (map k rs)" "distinct (map i rs)" "\<And>x. i (f x) = v" "v \<notin> set (map i rs)"
  shows "distinct (map i (updrows (\<lambda>r. k r = p) f rs))"
  using assms
proof (induction rs)
  case (Cons r rs)
  show ?case
  proof (cases "k r = p")
    case True
    have "k x \<noteq> p" if "x \<in> set rs" for x
      using True Cons.prems(1) that by (simp add: image_iff) metis
    then have "updrows (\<lambda>r. k r = p) f (r # rs) = f r # rs"
      using True updrows_none [of rs "\<lambda>r. k r = p" f] by (simp add: updrows_def)
    with Cons.prems show ?thesis by simp
  next
    case False
    have "set (map i (updrows (\<lambda>r. k r = p) f rs)) \<subseteq> insert v (set (map i rs))"
      using Cons.prems(3) by (auto simp: updrows_def)
    with False Cons show ?thesis by (auto simp: updrows_def)
  qed
qed (simp add: updrows_def)

text \<open>The rows a service shows: the live row under a path.\<close>

definition live_file :: "db \<Rightarrow> string \<Rightarrow> FileMetadata option" where
  "live_file d p = find (\<lambda>r. fm_Path r = p \<and> \<not> fm_IsDeleted r) (t_files d)"

definition live_dir :: "db \<Rightarrow> string \<Rightarrow> DirectoryMetadata option" where
  "live_dir d p = find (\<lambda>r. dm_Path r = p \<and> \<not> dm_IsDeleted r) (t_dirs d)"

lemma find_filter_hd: "find P xs = (case filter P xs of [] \<Rightarrow> None | x # _ \<Rightarrow> Some x)"
  by (induction xs) auto

lemma find_SomeD: "find P xs = Some x \<Longrightarrow> P x \<and> x \<in> set xs"
  by (induction xs) (auto split: if_splits)

lemma distinct_key_eq: "distinct (map k rs) \<Longrightarrow> r \<in> set rs \<Longrightarrow> q \<in> set rs \<Longrightarrow> k r = k q \<Longrightarrow> r = q"
  by (simp add: distinct_map inj_on_def)

lemma find_unique:
  assumes "distinct (map k rs)" "r \<in> set rs" "Q r"
  shows "find (\<lambda>x. k x = k r \<and> Q x) rs = Some r"
proof (cases "find (\<lambda>x. k x = k r \<and> Q x) rs")
  case None
  with assms(2,3) show ?thesis by (auto simp: find_None_iff)
next
  case (Some x)
  from find_SomeD [OF this] have "x = r" using distinct_key_eq [OF assms(1), of x r] assms(2) by simp
  with Some show ?thesis by simp
qed

text \<open>What the three statements of a soft-delete table do to the live rows, for any table with
  distinct paths (\<open>k\<close>) and a deletion mark (\<open>del\<close>).\<close>

lemma live_insert:
  assumes "distinct (map k (rs @ [m]))" and "\<not> del m"
  shows "(\<lambda>q. find (\<lambda>r. k r = q \<and> \<not> del r) (rs @ [m])) =
    (\<lambda>q. find (\<lambda>r. k r = q \<and> \<not> del r) rs)(k m \<mapsto> m)"
proof
  fix q
  have "find (\<lambda>r. k r = k m \<and> \<not> del r) rs = None"
    using assms(1) by (auto simp: find_None_iff image_iff)
  with assms(2) show "find (\<lambda>r. k r = q \<and> \<not> del r) (rs @ [m]) =
      ((\<lambda>q. find (\<lambda>r. k r = q \<and> \<not> del r) rs)(k m \<mapsto> m)) q"
    by (induction rs) (auto split: if_splits)
qed

lemma live_restore:
  assumes d: "distinct (map k rs)" and r: "r \<in> set rs" "k r = p" and f: "\<And>x. k (f x) = k x" "\<And>x. \<not> del (f x)"
  shows "(\<lambda>q. find (\<lambda>r. k r = q \<and> \<not> del r) (updrows (\<lambda>r. k r = p) f rs)) =
    (\<lambda>q. find (\<lambda>r. k r = q \<and> \<not> del r) rs)(p \<mapsto> f r)"
proof
  fix q
  have "find (\<lambda>r. k r = q \<and> \<not> del r) (updrows (\<lambda>r. k r = p) f rs) = find (\<lambda>r. k r = q \<and> \<not> del r) rs"
    if "q \<noteq> p" using that f by (induction rs) (auto simp: updrows_def)
  moreover have "find (\<lambda>x. k x = p \<and> \<not> del x) (updrows (\<lambda>r. k r = p) f rs) = Some (f r)"
  proof -
    have "distinct (map k (updrows (\<lambda>r. k r = p) f rs))" using d f(1) by (simp add: updrows_key)
    moreover have "f r \<in> set (updrows (\<lambda>r. k r = p) f rs)" using r by (force simp: updrows_def)
    ultimately show ?thesis using find_unique [of k _ "f r" "\<lambda>x. \<not> del x"] f r(2) by simp
  qed
  ultimately show "find (\<lambda>r. k r = q \<and> \<not> del r) (updrows (\<lambda>r. k r = p) f rs) =
      ((\<lambda>q. find (\<lambda>r. k r = q \<and> \<not> del r) rs)(p \<mapsto> f r)) q" by simp
qed

lemma live_remove:
  assumes d: "distinct (map k rs)" "distinct (map i rs)" and r: "find (\<lambda>r. k r = p \<and> \<not> del r) rs = Some r"
    and f: "\<And>x. k (f x) = k x" "\<And>x. del (f x)"
  shows "(\<lambda>q. find (\<lambda>r. k r = q \<and> \<not> del r) (updrows (\<lambda>x. i x = i r) f rs)) =
    (\<lambda>q. find (\<lambda>r. k r = q \<and> \<not> del r) rs)(p := None)"
proof
  fix q
  have r': "k r = p" "\<not> del r" "r \<in> set rs" using find_SomeD [OF r] by auto
  have "x = r" if "x \<in> set rs" "i x = i r" for x using distinct_key_eq [OF d(2) that(1) r'(3)] that(2) by simp
  then have P: "\<forall>x \<in> set rs. i x = i r \<longleftrightarrow> x = r" by auto
  have "find (\<lambda>r. k r = q \<and> \<not> del r) (updrows (\<lambda>x. i x = i r) f rs) = find (\<lambda>r. k r = q \<and> \<not> del r) rs"
    if "q \<noteq> p" using that f P r'(1) by (induction rs) (auto simp: updrows_def)
  moreover have "find (\<lambda>r. k r = p \<and> \<not> del r) (updrows (\<lambda>x. i x = i r) f rs) = None"
  proof -
    have "y = r" if "y \<in> set rs" "k y = p" for y
      using distinct_key_eq [OF d(1) that(1) r'(3)] that(2) r'(1) by simp
    then show ?thesis using f P by (auto simp: find_None_iff updrows_def)
  qed
  ultimately show "find (\<lambda>r. k r = q \<and> \<not> del r) (updrows (\<lambda>x. i x = i r) f rs) =
      ((\<lambda>q. find (\<lambda>r. k r = q \<and> \<not> del r) rs)(p := None)) q" by simp
qed

section \<open>The contract of a soft-delete table\<close>

locale soft_table =
  fixes create :: "'r \<Rightarrow> db \<Rightarrow> unit res \<times> db"
    and remove :: "string \<Rightarrow> string \<Rightarrow> db \<Rightarrow> unit res \<times> db"
    and getByPath :: "string \<Rightarrow> db \<Rightarrow> 'r option res \<times> db"
    and exists :: "string \<Rightarrow> db \<Rightarrow> bool res \<times> db"
    and live :: "db \<Rightarrow> string \<Rightarrow> 'r option"
    and ids :: "db \<Rightarrow> string list"
    and ident :: "'r \<Rightarrow> string" and path :: "'r \<Rightarrow> string" and deleted :: "'r \<Rightarrow> bool"
    and norm :: "'r \<Rightarrow> 'r"
  assumes create_ok: "db_wf d \<Longrightarrow> \<not> deleted m \<Longrightarrow> create m d = (Inr (), d') \<Longrightarrow>
      db_wf d' \<and> live d' = (live d)(NormalizePath (path m) \<mapsto> norm m)"
    and create_err: "create m d = (Inl e, d') \<Longrightarrow> same_tables d' d"
    and create_busy: "db_wf d \<Longrightarrow> live d (NormalizePath (path m)) \<noteq> None \<Longrightarrow> \<exists>e. fst (create m d) = Inl e"
    and create_free: "db_wf d \<Longrightarrow> db_faults d = [] \<Longrightarrow> live d (NormalizePath (path m)) = None \<Longrightarrow>
      ident m \<notin> set (ids d) \<Longrightarrow> \<exists>d'. create m d = (Inr (), d') \<and> db_faults d' = []"
    and remove_ok: "db_wf d \<Longrightarrow> live d p = Some r \<Longrightarrow> remove now (ident r) d = (Inr (), d') \<Longrightarrow>
      db_wf d' \<and> live d' = (live d)(p := None)"
    and remove_total: "db_wf d \<Longrightarrow> db_faults d = [] \<Longrightarrow>
      \<exists>d'. remove now i d = (Inr (), d') \<and> db_faults d' = [] \<and> ids d' = ids d"
    and get_ok: "db_faults d = [] \<Longrightarrow> getByPath p d = (Inr (live d (NormalizePath p)), d)"
    and exists_ok: "db_faults d = [] \<Longrightarrow> exists p d = (Inr (live d (NormalizePath p) \<noteq> None), d)"
    and norm_ident: "ident (norm m) = ident m"
begin

lemma create_get:
  assumes "db_wf d" "db_faults d = []" "\<not> deleted m" "live d (NormalizePath (path m)) = None"
    and "ident m \<notin> set (ids d)" and "NormalizePath p = NormalizePath (path m)"
  shows "\<exists>d'. create m d = (Inr (), d') \<and> db_wf d' \<and> fst (getByPath p d') = Inr (Some (norm m)) \<and>
    fst (exists p d') = Inr True \<and>
    (\<forall>q. NormalizePath q \<noteq> NormalizePath p \<longrightarrow> fst (getByPath q d') = fst (getByPath q d))"
  using create_free [OF assms(1,2,4,5)] create_ok [OF assms(1,3)] assms(2,6)
  by (fastforce simp: get_ok exists_ok)

text \<open>A removed path is free again: it is not found, and a new row can take it over.\<close>

lemma remove_recreate:
  assumes "db_wf d" "db_faults d = []" "live d p = Some r" "NormalizePath p = p"
    and "\<not> deleted m" "path m = p" "ident m \<notin> set (ids d)"
  shows "\<exists>d1 d2. remove now (ident r) d = (Inr (), d1) \<and> fst (getByPath p d1) = Inr None \<and>
    create m d1 = (Inr (), d2) \<and> db_wf d2 \<and> fst (getByPath p d2) = Inr (Some (norm m)) \<and>
    (\<forall>q. NormalizePath q \<noteq> p \<longrightarrow> fst (getByPath q d2) = fst (getByPath q d))"
proof -
  obtain d1 where d1: "remove now (ident r) d = (Inr (), d1)" "db_faults d1 = []" "ids d1 = ids d"
    using remove_total [OF assms(1,2)] by blast
  note l1 = remove_ok [OF assms(1,3) d1(1)]
  have "live d1 (NormalizePath (path m)) = None" using l1 assms(4,6) by simp
  from create_free [OF conjunct1 [OF l1] d1(2) this] d1(3) assms(7)
  obtain d2 where d2: "create m d1 = (Inr (), d2)" "db_faults d2 = []" by auto
  note l2 = create_ok [OF conjunct1 [OF l1] assms(5) d2(1)]
  show ?thesis using d1 d2 l1 l2 assms(2,4,6) by (auto simp: get_ok)
qed

end

section \<open>The files table\<close>

definition file_norm :: "FileMetadata \<Rightarrow> FileMetadata" where
  "file_norm m = m\<lparr>fm_Path := NormalizePath (fm_Path m), fm_IsDeleted := False\<rparr>"

definition file_restore :: "FileMetadata \<Rightarrow> FileMetadata \<Rightarrow> FileMetadata" where
  "file_restore m r = m\<lparr>fm_Path := fm_Path r, fm_IsDeleted := False\<rparr>"

lemma db_QueryRow_Inr:
  "db_QueryRow q d = (Inr r, d1) \<Longrightarrow> same_tables d1 d \<and> r \<in> set (q d1)"
  by (auto simp: db_QueryRow_def dest: pop_fault_same split: prod.splits option.splits list.splits)

lemma File_Create_alt:
  "File_Create m0 d =
     (let m = m0\<lparr>fm_Path := NormalizePath (fm_Path m0)\<rparr>
      in case db_QueryRow (\<lambda>d. map fm_ID (filter (\<lambda>r. fm_Path r = fm_Path m \<and> fm_IsDeleted r) (t_files d))) d of
           (Inr existingID, d1) \<Rightarrow>
             (case db_Exec (\<lambda>d. set_files (updrows (\<lambda>r. fm_Path r = fm_Path m) (file_restore m) (t_files d)) d) d1 of
                (Inl e, d2) \<Rightarrow> (Inl (Wrapf ''failed to restore deleted file record'' e), d2)
              | (Inr _, d2) \<Rightarrow> (Inr (), d2))
         | (Inl _, d1) \<Rightarrow>
             (case db_Exec (\<lambda>d. set_files (t_files d @ [m]) d) d1 of
                (Inl e, d2) \<Rightarrow> (Inl (Wrapf ''failed to create file metadata'' e), d2)
              | (Inr _, d2) \<Rightarrow> (Inr (), d2)))"
proof -
  have "(\<lambda>r. r\<lparr>fm_ID := fm_ID m, fm_Name := fm_Name m, fm_Size := fm_Size m,
                            fm_Hash := fm_Hash m, fm_StorageType := fm_StorageType m,
                            fm_StorageLocation := fm_StorageLocation m, fm_CreatedAt := fm_CreatedAt m,
                            fm_UpdatedAt := fm_UpdatedAt m, fm_IsDeleted := False\<rparr>) = file_restore m"
    for m :: FileMetadata by (rule ext) (simp add: file_restore_def)
  then show ?thesis by (simp add: File_Create_def Let_def cong: sum.case_cong prod.case_cong)
qed

lemma Exec_files_ok:
  assumes "db_Exec (\<lambda>d. set_files (F (t_files d)) d) d = (Inr u, d')"
  shows "\<exists>d0. same_tables d0 d \<and> d' = d0\<lparr>t_files := F (t_files d)\<rparr> \<and> file_unique (F (t_files d))"
proof -
  obtain d0 where d0: "same_tables d0 d" "set_files (F (t_files d0)) d0 = Some d'"
    using db_Exec_ok [OF assms] by blast
  moreover have "t_files d0 = t_files d" using d0(1) by (simp add: same_tables_def)
  ultimately show ?thesis by (auto simp: set_files_def split: if_splits)
qed

lemma File_Create_ok:
  assumes "File_Create m d = (Inr (), d')"
  shows "\<exists>d0 rs. same_tables d0 d \<and> d' = d0\<lparr>t_files := rs\<rparr> \<and> file_unique rs \<and>
    (rs = t_files d @ [m\<lparr>fm_Path := NormalizePath (fm_Path m)\<rparr>] \<or>
     rs = updrows (\<lambda>r. fm_Path r = NormalizePath (fm_Path m)) (file_restore m) (t_files d) \<and>
     (\<exists>r \<in> set (t_files d). fm_Path r = NormalizePath (fm_Path m) \<and> fm_IsDeleted r))"
proof -
  let ?m = "m\<lparr>fm_Path := NormalizePath (fm_Path m)\<rparr>"
  obtain q d1 where q: "db_QueryRow (\<lambda>d. map fm_ID (filter (\<lambda>r. fm_Path r = fm_Path ?m \<and> fm_IsDeleted r)
      (t_files d))) d = (q, d1)" by fastforce
  have s1: "same_tables d1 d" by (rule db_QueryRow_same [OF q])
  have fr: "file_restore ?m = file_restore m" by (rule ext) (simp add: file_restore_def)
  show ?thesis
  proof (cases q)
    case (Inl e)
    then obtain u where "db_Exec (\<lambda>d. set_files (t_files d @ [?m]) d) d1 = (Inr u, d')"
      using assms q by (auto simp: File_Create_def Let_def split: prod.splits sum.splits)
    from Exec_files_ok [where F = "\<lambda>rs. rs @ [?m]", OF this] s1 show ?thesis
      unfolding same_tables_def by metis
  next
    case (Inr i)
    then obtain u where "db_Exec (\<lambda>d. set_files (updrows (\<lambda>r. fm_Path r = fm_Path ?m)
        (file_restore ?m) (t_files d)) d) d1 = (Inr u, d')"
      using assms q by (auto simp: File_Create_alt Let_def split: prod.splits sum.splits)
    from Exec_files_ok [where F = "updrows (\<lambda>r. fm_Path r = fm_Path ?m) (file_restore ?m)", OF this]
    obtain d0 where d0: "same_tables d0 d1"
      "d' = d0\<lparr>t_files := updrows (\<lambda>r. fm_Path r = fm_Path ?m) (file_restore m) (t_files d1)\<rparr>"
      "file_unique (updrows (\<lambda>r. fm_Path r = fm_Path ?m) (file_restore m) (t_files d1))"
      unfolding fr by blast
    have "\<exists>r \<in> set (t_files d). fm_Path r = NormalizePath (fm_Path m) \<and> fm_IsDeleted r"
      using db_QueryRow_Inr [OF q [unfolded Inr]] by (auto simp: same_tables_def)
    with d0 s1 same_tables_trans [OF d0(1) s1] show ?thesis
      by (intro exI [of _ d0] exI [of _ "t_files d'"]) (simp add: same_tables_def)
  qed
qed

lemma File_Create_err: "File_Create m d = (Inl e, d') \<Longrightarrow> same_tables d' d"
  by (auto simp: File_Create_def Let_def split: prod.splits sum.splits
      dest!: db_Exec_err db_QueryRow_same intro: same_tables_trans)

lemma live_file_eq: "same_tables d e \<Longrightarrow> live_file d = live_file e"
  by (simp add: live_file_def same_tables_def fun_eq_iff)

lemma wf_files: "db_wf d \<Longrightarrow> distinct (map fm_ID (t_files d)) \<and> distinct (map fm_Path (t_files d))"
  by (simp add: db_wf_def file_unique_def)

lemma set_files_wf: "same_tables d0 d \<Longrightarrow> db_wf d \<Longrightarrow> file_unique rs \<Longrightarrow> db_wf (d0\<lparr>t_files := rs\<rparr>)"
  by (simp add: db_wf_def same_tables_def)

lemma File_Create_live:
  assumes wf: "db_wf d" and nd: "\<not> fm_IsDeleted m" and c: "File_Create m d = (Inr (), d')"
  shows "db_wf d' \<and> live_file d' = (live_file d)(NormalizePath (fm_Path m) \<mapsto> file_norm m)"
proof -
  let ?p = "NormalizePath (fm_Path m)" let ?m = "m\<lparr>fm_Path := ?p\<rparr>"
  have m: "?m = file_norm m" using nd by (simp add: file_norm_def)
  obtain d0 rs where d0: "same_tables d0 d" "d' = d0\<lparr>t_files := rs\<rparr>" "file_unique rs"
    and rs: "rs = t_files d @ [?m] \<or>
     rs = updrows (\<lambda>r. fm_Path r = ?p) (file_restore m) (t_files d) \<and>
     (\<exists>r \<in> set (t_files d). fm_Path r = ?p \<and> fm_IsDeleted r)"
    using File_Create_ok [OF c] by blast
  have "live_file d' = (live_file d)(?p \<mapsto> file_norm m)"
    using rs
  proof
    assume r: "rs = t_files d @ [?m]"
    then have "distinct (map fm_Path (t_files d @ [?m]))" using d0(3) by (simp add: file_unique_def)
    from live_insert [OF this, of fm_IsDeleted] nd show ?thesis
      unfolding live_file_def m [symmetric] using d0(2) r by simp
  next
    assume r: "rs = updrows (\<lambda>r. fm_Path r = ?p) (file_restore m) (t_files d) \<and>
     (\<exists>r \<in> set (t_files d). fm_Path r = ?p \<and> fm_IsDeleted r)"
    then obtain r where r': "r \<in> set (t_files d)" "fm_Path r = ?p" by blast
    have "file_restore m r = file_norm m" using r'(2) by (simp add: file_restore_def file_norm_def)
    with live_restore [where k = fm_Path and f = "file_restore m" and del = fm_IsDeleted, OF _ r']
      wf_files [OF wf] r d0(2) show ?thesis
      unfolding live_file_def by (simp add: file_restore_def)
  qed
  with set_files_wf [OF d0(1) wf d0(3)] d0(2) show ?thesis by simp
qed

lemma File_Remove_ok:
  assumes "File_Remove now i d = (Inr (), d')"
  shows "\<exists>d0. same_tables d0 d \<and>
    d' = d0\<lparr>t_files := updrows (\<lambda>r. fm_ID r = i) (\<lambda>r. r\<lparr>fm_IsDeleted := True, fm_UpdatedAt := now\<rparr>) (t_files d)\<rparr> \<and>
    file_unique (t_files d')"
proof -
  from assms obtain u where "db_Exec (\<lambda>d. set_files (updrows (\<lambda>r. fm_ID r = i)
      (\<lambda>r. r\<lparr>fm_IsDeleted := True, fm_UpdatedAt := now\<rparr>) (t_files d)) d) d = (Inr u, d')"
    by (auto simp: File_Remove_def split: prod.splits sum.splits)
  from Exec_files_ok [OF this] show ?thesis by auto
qed

lemma File_Remove_live:
  assumes wf: "db_wf d" and l: "live_file d p = Some r" and rm: "File_Remove now (fm_ID r) d = (Inr (), d')"
  shows "db_wf d' \<and> live_file d' = (live_file d)(p := None)"
proof -
  obtain d0 where d0: "same_tables d0 d"
    "d' = d0\<lparr>t_files := updrows (\<lambda>x. fm_ID x = fm_ID r) (\<lambda>r. r\<lparr>fm_IsDeleted := True, fm_UpdatedAt := now\<rparr>) (t_files d)\<rparr>"
    "file_unique (t_files d')"
    using File_Remove_ok [OF rm] by blast
  have "live_file d' = (live_file d)(p := None)"
    unfolding live_file_def d0(2)
    using live_remove [where k = fm_Path and i = fm_ID and del = fm_IsDeleted and p = p and r = r
        and rs = "t_files d" and f = "\<lambda>r. r\<lparr>fm_IsDeleted := True, fm_UpdatedAt := now\<rparr>"]
      wf_files [OF wf] l by (simp add: live_file_def)
  with set_files_wf [OF d0(1) wf d0(3)] d0(2) show ?thesis by simp
qed

lemma File_Remove_total:
  assumes "db_wf d" "db_faults d = []"
  shows "\<exists>d'. File_Remove now i d = (Inr (), d') \<and> db_faults d' = [] \<and>
    map fm_ID (t_files d') = map fm_ID (t_files d)"
  using assms wf_files [OF assms(1)]
  by (simp add: File_Remove_def db_Exec_def set_files_def file_unique_def updrows_key)

lemma File_Create_busy:
  assumes wf: "db_wf d" and l: "live_file d (NormalizePath (fm_Path m)) \<noteq> None"
  shows "\<exists>e. fst (File_Create m d) = Inl e"
proof (rule ccontr)
  assume "\<not> ?thesis"
  then obtain d' where "File_Create m d = (Inr (), d')" by (metis (full_types) surjective_pairing sum.exhaust unit.exhaust)
  note ok = File_Create_ok [OF this]
  obtain r where r: "r \<in> set (t_files d)" "fm_Path r = NormalizePath (fm_Path m)" "\<not> fm_IsDeleted r"
    using l by (auto simp: live_file_def dest: find_SomeD)
  have "\<not> fm_IsDeleted q" if "q \<in> set (t_files d)" "fm_Path q = NormalizePath (fm_Path m)" for q
    using distinct_key_eq [of fm_Path "t_files d" r q] wf_files [OF wf] r that by simp
  moreover have "\<not> file_unique (t_files d @ [m\<lparr>fm_Path := NormalizePath (fm_Path m)\<rparr>])"
    using r by (auto simp: file_unique_def image_iff intro: sym)
  ultimately show False using ok by metis
qed

lemma File_Create_free:
  assumes wf: "db_wf d" and f: "db_faults d = []" and l: "live_file d (NormalizePath (fm_Path m)) = None"
    and i: "fm_ID m \<notin> set (map fm_ID (t_files d))"
  shows "\<exists>d'. File_Create m d = (Inr (), d') \<and> db_faults d' = []"
proof -
  let ?p = "NormalizePath (fm_Path m)" let ?m = "m\<lparr>fm_Path := ?p\<rparr>"
  let ?q = "\<lambda>d. map fm_ID (filter (\<lambda>r. fm_Path r = fm_Path ?m \<and> fm_IsDeleted r) (t_files d))"
  show ?thesis
  proof (cases "?q d")
    case Nil
    then have "?p \<notin> fm_Path ` set (t_files d)"
      using l by (auto simp: live_file_def find_None_iff filter_empty_conv)
    then have "file_unique (t_files d @ [?m])" using i wf_files [OF wf] by (auto simp: file_unique_def)
    with Nil f show ?thesis
      by (simp add: File_Create_def Let_def db_QueryRow_def db_Exec_def set_files_def)
  next
    case (Cons x xs)
    let ?rs = "updrows (\<lambda>r. fm_Path r = ?p) (file_restore ?m) (t_files d)"
    have "map fm_Path ?rs = map fm_Path (t_files d)"
      by (rule updrows_key) (simp add: file_restore_def)
    moreover have "distinct (map fm_ID ?rs)"
      using wf_files [OF wf] i by (intro updrows_fresh [of _ _ _ _ "fm_ID m"]) (simp_all add: file_restore_def)
    ultimately have "file_unique ?rs" using wf_files [OF wf] by (simp add: file_unique_def)
    with Cons f show ?thesis
      by (simp add: File_Create_alt Let_def db_QueryRow_def db_Exec_def set_files_def)
  qed
qed

lemma File_Get_ok:
  "db_faults d = [] \<Longrightarrow> File_GetByPath p d = (Inr (live_file d (NormalizePath p)), d)"
  by (auto simp: File_GetByPath_def scanFileMetadata_def db_QueryRow_def live_file_def find_filter_hd
      Let_def split: list.splits)

lemma File_Exists_ok:
  "db_faults d = [] \<Longrightarrow> File_Exists p d = (Inr (live_file d (NormalizePath p) \<noteq> None), d)"
  by (auto simp: File_Exists_def db_QueryRow_def live_file_def find_filter_hd Let_def split: list.splits)

interpretation file_table: soft_table File_Create File_Remove File_GetByPath File_Exists live_file
  "\<lambda>d. map fm_ID (t_files d)" fm_ID fm_Path fm_IsDeleted file_norm
proof (unfold_locales, goal_cases)
  case 1
  then show ?case by (rule File_Create_live)
next
  case 2
  then show ?case by (rule File_Create_err)
next
  case 3
  then show ?case by (rule File_Create_busy)
next
  case 4
  then show ?case by (rule File_Create_free)
next
  case 5
  then show ?case by (rule File_Remove_live)
next
  case 6
  then show ?case by (rule File_Remove_total)
next
  case 7
  then show ?case by (rule File_Get_ok)
next
  case 8
  then show ?case by (rule File_Exists_ok)
next
  case 9
  then show ?case by (simp add: file_norm_def)
qed

section \<open>The directories table\<close>

definition dir_norm :: "DirectoryMetadata \<Rightarrow> DirectoryMetadata" where
  "dir_norm m = m\<lparr>dm_Path := NormalizePath (dm_Path m), dm_IsDeleted := False\<rparr>"

definition dir_restore :: "DirectoryMetadata \<Rightarrow> DirectoryMetadata \<Rightarrow> DirectoryMetadata" where
  "dir_restore m r = m\<lparr>dm_Path := dm_Path r, dm_IsDeleted := False\<rparr>"

lemma Dir_Create_alt:
  "Dir_Create m0 d =
     (let m = m0\<lparr>dm_Path := NormalizePath (dm_Path m0)\<rparr>
      in case db_QueryRow (\<lambda>d. map dm_ID (filter (\<lambda>r. dm_Path r = dm_Path m \<and> dm_IsDeleted r) (t_dirs d))) d of
           (Inr existingID, d1) \<Rightarrow>
             (case db_Exec (\<lambda>d. set_dirs (updrows (\<lambda>r. dm_Path r = dm_Path m) (dir_restore m) (t_dirs d)) d) d1 of
                (Inl e, d2) \<Rightarrow> (Inl (Wrapf ''failed to restore deleted directory record'' e), d2)
              | (Inr _, d2) \<Rightarrow> (Inr (), d2))
         | (Inl _, d1) \<Rightarrow>
             (case db_Exec (\<lambda>d. set_dirs (t_dirs d @ [m]) d) d1 of
                (Inl e, d2) \<Rightarrow> (Inl (Wrapf ''failed to create directory metadata'' e), d2)
              | (Inr _, d2) \<Rightarrow> (Inr (), d2)))"
proof -
  have "(\<lambda>r. r\<lparr>dm_ID := dm_ID m, dm_Name := dm_Name m, dm_CreatedAt := dm_CreatedAt m,
                            dm_UpdatedAt := dm_UpdatedAt m, dm_IsDeleted := False\<rparr>) = dir_restore m"
    for m :: DirectoryMetadata by (rule ext) (simp add: dir_restore_def)
  then show ?thesis by (simp add: Dir_Create_def Let_def cong: sum.case_cong prod.case_cong)
qed

lemma Exec_dirs_ok:
  assumes "db_Exec (\<lambda>d. set_dirs (F (t_dirs d)) d) d = (Inr u, d')"
  shows "\<exists>d0. same_tables d0 d \<and> d' = d0\<lparr>t_dirs := F (t_dirs d)\<rparr> \<and> dir_unique (F (t_dirs d))"
proof -
  obtain d0 where d0: "same_tables d0 d" "set_dirs (F (t_dirs d0)) d0 = Some d'"
    using db_Exec_ok [OF assms] by blast
  moreover have "t_dirs d0 = t_dirs d" using d0(1) by (simp add: same_tables_def)
  ultimately show ?thesis by (auto simp: set_dirs_def split: if_splits)
qed

lemma Dir_Create_ok:
  assumes "Dir_Create m d = (Inr (), d')"
  shows "\<exists>d0 rs. same_tables d0 d \<and> d' = d0\<lparr>t_dirs := rs\<rparr> \<and> dir_unique rs \<and>
    (rs = t_dirs d @ [m\<lparr>dm_Path := NormalizePath (dm_Path m)\<rparr>] \<or>
     rs = updrows (\<lambda>r. dm_Path r = NormalizePath (dm_Path m)) (dir_restore m) (t_dirs d) \<and>
     (\<exists>r \<in> set (t_dirs d). dm_Path r = NormalizePath (dm_Path m) \<and> dm_IsDeleted r))"
proof -
  let ?m = "m\<lparr>dm_Path := NormalizePath (dm_Path m)\<rparr>"
  obtain q d1 where q: "db_QueryRow (\<lambda>d. map dm_ID (filter (\<lambda>r. dm_Path r = dm_Path ?m \<and> dm_IsDeleted r)
      (t_dirs d))) d = (q, d1)" by fastforce
  have s1: "same_tables d1 d" by (rule db_QueryRow_same [OF q])
  have fr: "dir_restore ?m = dir_restore m" by (rule ext) (simp add: dir_restore_def)
  show ?thesis
  proof (cases q)
    case (Inl e)
    then obtain u where "db_Exec (\<lambda>d. set_dirs (t_dirs d @ [?m]) d) d1 = (Inr u, d')"
      using assms q by (auto simp: Dir_Create_def Let_def split: prod.splits sum.splits)
    from Exec_dirs_ok [where F = "\<lambda>rs. rs @ [?m]", OF this] s1 show ?thesis
      unfolding same_tables_def by metis
  next
    case (Inr i)
    then obtain u where "db_Exec (\<lambda>d. set_dirs (updrows (\<lambda>r. dm_Path r = dm_Path ?m)
        (dir_restore ?m) (t_dirs d)) d) d1 = (Inr u, d')"
      using assms q by (auto simp: Dir_Create_alt Let_def split: prod.splits sum.splits)
    from Exec_dirs_ok [where F = "updrows (\<lambda>r. dm_Path r = dm_Path ?m) (dir_restore ?m)", OF this]
    obtain d0 where d0: "same_tables d0 d1"
      "d' = d0\<lparr>t_dirs := updrows (\<lambda>r. dm_Path r = dm_Path ?m) (dir_restore m) (t_dirs d1)\<rparr>"
      "dir_unique (updrows (\<lambda>r. dm_Path r = dm_Path ?m) (dir_restore m) (t_dirs d1))"
      unfolding fr by blast
    have "\<exists>r \<in> set (t_dirs d). dm_Path r = NormalizePath (dm_Path m) \<and> dm_IsDeleted r"
      using db_QueryRow_Inr [OF q [unfolded Inr]] by (auto simp: same_tables_def)
    with d0 s1 same_tables_trans [OF d0(1) s1] show ?thesis
      by (intro exI [of _ d0] exI [of _ "t_dirs d'"]) (simp add: same_tables_def)
  qed
qed

lemma Dir_Create_err: "Dir_Create m d = (Inl e, d') \<Longrightarrow> same_tables d' d"
  by (auto simp: Dir_Create_def Let_def split: prod.splits sum.splits
      dest!: db_Exec_err db_QueryRow_same intro: same_tables_trans)

lemma live_dir_eq: "same_tables d e \<Longrightarrow> live_dir d = live_dir e"
  by (simp add: live_dir_def same_tables_def fun_eq_iff)

lemma wf_dirs: "db_wf d \<Longrightarrow> distinct (map dm_ID (t_dirs d)) \<and> distinct (map dm_Path (t_dirs d))"
  by (simp add: db_wf_def dir_unique_def)

lemma set_dirs_wf: "same_tables d0 d \<Longrightarrow> db_wf d \<Longrightarrow> dir_unique rs \<Longrightarrow> db_wf (d0\<lparr>t_dirs := rs\<rparr>)"
  by (simp add: db_wf_def same_tables_def)

lemma Dir_Create_live:
  assumes wf: "db_wf d" and nd: "\<not> dm_IsDeleted m" and c: "Dir_Create m d = (Inr (), d')"
  shows "db_wf d' \<and> live_dir d' = (live_dir d)(NormalizePath (dm_Path m) \<mapsto> dir_norm m)"
proof -
  let ?p = "NormalizePath (dm_Path m)" let ?m = "m\<lparr>dm_Path := ?p\<rparr>"
  have m: "?m = dir_norm m" using nd by (simp add: dir_norm_def)
  obtain d0 rs where d0: "same_tables d0 d" "d' = d0\<lparr>t_dirs := rs\<rparr>" "dir_unique rs"
    and rs: "rs = t_dirs d @ [?m] \<or>
     rs = updrows (\<lambda>r. dm_Path r = ?p) (dir_restore m) (t_dirs d) \<and>
     (\<exists>r \<in> set (t_dirs d). dm_Path r = ?p \<and> dm_IsDeleted r)"
    using Dir_Create_ok [OF c] by blast
  have "live_dir d' = (live_dir d)(?p \<mapsto> dir_norm m)"
    using rs
  proof
    assume r: "rs = t_dirs d @ [?m]"
    then have "distinct (map dm_Path (t_dirs d @ [?m]))" using d0(3) by (simp add: dir_unique_def)
    from live_insert [OF this, of dm_IsDeleted] nd show ?thesis
      unfolding live_dir_def m [symmetric] using d0(2) r by simp
  next
    assume r: "rs = updrows (\<lambda>r. dm_Path r = ?p) (dir_restore m) (t_dirs d) \<and>
     (\<exists>r \<in> set (t_dirs d). dm_Path r = ?p \<and> dm_IsDeleted r)"
    then obtain r where r': "r \<in> set (t_dirs d)" "dm_Path r = ?p" by blast
    have "dir_restore m r = dir_norm m" using r'(2) by (simp add: dir_restore_def dir_norm_def)
    with live_restore [where k = dm_Path and f = "dir_restore m" and del = dm_IsDeleted, OF _ r']
      wf_dirs [OF wf] r d0(2) show ?thesis
      unfolding live_dir_def by (simp add: dir_restore_def)
  qed
  with set_dirs_wf [OF d0(1) wf d0(3)] d0(2) show ?thesis by simp
qed

lemma Dir_Remove_ok:
  assumes "Dir_Remove now i d = (Inr (), d')"
  shows "\<exists>d0. same_tables d0 d \<and>
    d' = d0\<lparr>t_dirs := updrows (\<lambda>r. dm_ID r = i) (\<lambda>r. r\<lparr>dm_IsDeleted := True, dm_UpdatedAt := now\<rparr>) (t_dirs d)\<rparr> \<and>
    dir_unique (t_dirs d')"
proof -
  from assms obtain u where "db_Exec (\<lambda>d. set_dirs (updrows (\<lambda>r. dm_ID r = i)
      (\<lambda>r. r\<lparr>dm_IsDeleted := True, dm_UpdatedAt := now\<rparr>) (t_dirs d)) d) d = (Inr u, d')"
    by (auto simp: Dir_Remove_def split: prod.splits sum.splits)
  from Exec_dirs_ok [OF this] show ?thesis by auto
qed

lemma Dir_Remove_live:
  assumes wf: "db_wf d" and l: "live_dir d p = Some r" and rm: "Dir_Remove now (dm_ID r) d = (Inr (), d')"
  shows "db_wf d' \<and> live_dir d' = (live_dir d)(p := None)"
proof -
  obtain d0 where d0: "same_tables d0 d"
    "d' = d0\<lparr>t_dirs := updrows (\<lambda>x. dm_ID x = dm_ID r) (\<lambda>r. r\<lparr>dm_IsDeleted := True, dm_UpdatedAt := now\<rparr>) (t_dirs d)\<rparr>"
    "dir_unique (t_dirs d')"
    using Dir_Remove_ok [OF rm] by blast
  have "live_dir d' = (live_dir d)(p := None)"
    unfolding live_dir_def d0(2)
    using live_remove [where k = dm_Path and i = dm_ID and del = dm_IsDeleted and p = p and r = r
        and rs = "t_dirs d" and f = "\<lambda>r. r\<lparr>dm_IsDeleted := True, dm_UpdatedAt := now\<rparr>"]
      wf_dirs [OF wf] l by (simp add: live_dir_def)
  with set_dirs_wf [OF d0(1) wf d0(3)] d0(2) show ?thesis by simp
qed

lemma Dir_Remove_total:
  assumes "db_wf d" "db_faults d = []"
  shows "\<exists>d'. Dir_Remove now i d = (Inr (), d') \<and> db_faults d' = [] \<and>
    map dm_ID (t_dirs d') = map dm_ID (t_dirs d)"
  using assms wf_dirs [OF assms(1)]
  by (simp add: Dir_Remove_def db_Exec_def set_dirs_def dir_unique_def updrows_key)

lemma Dir_Create_busy:
  assumes wf: "db_wf d" and l: "live_dir d (NormalizePath (dm_Path m)) \<noteq> None"
  shows "\<exists>e. fst (Dir_Create m d) = Inl e"
proof (rule ccontr)
  assume "\<not> ?thesis"
  then obtain d' where "Dir_Create m d = (Inr (), d')" by (metis (full_types) surjective_pairing sum.exhaust unit.exhaust)
  note ok = Dir_Create_ok [OF this]
  obtain r where r: "r \<in> set (t_dirs d)" "dm_Path r = NormalizePath (dm_Path m)" "\<not> dm_IsDeleted r"
    using l by (auto simp: live_dir_def dest: find_SomeD)
  have "\<not> dm_IsDeleted q" if "q \<in> set (t_dirs d)" "dm_Path q = NormalizePath (dm_Path m)" for q
    using distinct_key_eq [of dm_Path "t_dirs d" r q] wf_dirs [OF wf] r that by simp
  moreover have "\<not> dir_unique (t_dirs d @ [m\<lparr>dm_Path := NormalizePath (dm_Path m)\<rparr>])"
    using r by (auto simp: dir_unique_def image_iff intro: sym)
  ultimately show False using ok by metis
qed

lemma Dir_Create_free:
  assumes wf: "db_wf d" and f: "db_faults d = []" and l: "live_dir d (NormalizePath (dm_Path m)) = None"
    and i: "dm_ID m \<notin> set (map dm_ID (t_dirs d))"
  shows "\<exists>d'. Dir_Create m d = (Inr (), d') \<and> db_faults d' = []"
proof -
  let ?p = "NormalizePath (dm_Path m)" let ?m = "m\<lparr>dm_Path := ?p\<rparr>"
  let ?q = "\<lambda>d. map dm_ID (filter (\<lambda>r. dm_Path r = dm_Path ?m \<and> dm_IsDeleted r) (t_dirs d))"
  show ?thesis
  proof (cases "?q d")
    case Nil
    then have "?p \<notin> dm_Path ` set (t_dirs d)"
      using l by (auto simp: live_dir_def find_None_iff filter_empty_conv)
    then have "dir_unique (t_dirs d @ [?m])" using i wf_dirs [OF wf] by (auto simp: dir_unique_def)
    with Nil f show ?thesis
      by (simp add: Dir_Create_def Let_def db_QueryRow_def db_Exec_def set_dirs_def)
  next
    case (Cons x xs)
    let ?rs = "updrows (\<lambda>r. dm_Path r = ?p) (dir_restore ?m) (t_dirs d)"
    have "map dm_Path ?rs = map dm_Path (t_dirs d)"
      by (rule updrows_key) (simp add: dir_restore_def)
    moreover have "distinct (map dm_ID ?rs)"
      using wf_dirs [OF wf] i by (intro updrows_fresh [of _ _ _ _ "dm_ID m"]) (simp_all add: dir_restore_def)
    ultimately have "dir_unique ?rs" using wf_dirs [OF wf] by (simp add: dir_unique_def)
    with Cons f show ?thesis
      by (simp add: Dir_Create_alt Let_def db_QueryRow_def db_Exec_def set_dirs_def)
  qed
qed

lemma Dir_Get_ok:
  "db_faults d = [] \<Longrightarrow> Dir_GetByPath p d = (Inr (live_dir d (NormalizePath p)), d)"
  by (auto simp: Dir_GetByPath_def scanDirectoryMetadata_def db_QueryRow_def live_dir_def find_filter_hd
      Let_def split: list.splits)

lemma Dir_Exists_ok:
  "db_faults d = [] \<Longrightarrow> Dir_Exists p d = (Inr (live_dir d (NormalizePath p) \<noteq> None), d)"
  by (auto simp: Dir_Exists_def db_QueryRow_def live_dir_def find_filter_hd Let_def split: list.splits)

interpretation dir_table: soft_table Dir_Create Dir_Remove Dir_GetByPath Dir_Exists live_dir
  "\<lambda>d. map dm_ID (t_dirs d)" dm_ID dm_Path dm_IsDeleted dir_norm
proof (unfold_locales, goal_cases)
  case 1
  then show ?case by (rule Dir_Create_live)
next
  case 2
  then show ?case by (rule Dir_Create_err)
next
  case 3
  then show ?case by (rule Dir_Create_busy)
next
  case 4
  then show ?case by (rule Dir_Create_free)
next
  case 5
  then show ?case by (rule Dir_Remove_live)
next
  case 6
  then show ?case by (rule Dir_Remove_total)
next
  case 7
  then show ?case by (rule Dir_Get_ok)
next
  case 8
  then show ?case by (rule Dir_Exists_ok)
next
  case 9
  then show ?case by (simp add: dir_norm_def)
qed

section \<open>Well-formedness\<close>

lemma db_Exec_wf:
  assumes "db_wf d" and "\<And>e e'. db_wf e \<Longrightarrow> s e = Some e' \<Longrightarrow> db_wf e'"
  shows "db_wf (snd (db_Exec s d))"
proof (cases "db_Exec s d")
  case (Pair r d1)
  show ?thesis
  proof (cases r)
    case (Inl e)
    with Pair assms(1) db_Exec_err [of s d e d1] same_tables_wf show ?thesis by auto
  next
    case (Inr u)
    with Pair obtain d0 where "same_tables d0 d" "s d0 = Some d1" using db_Exec_ok [of s d u d1] by auto
    with assms same_tables_wf [of d0 d] Pair show ?thesis by auto
  qed
qed

lemma set_wf:
  "db_wf e \<Longrightarrow> set_files fs e = Some e' \<Longrightarrow> db_wf e'"
  "db_wf e \<Longrightarrow> set_dirs ds e = Some e' \<Longrightarrow> db_wf e'"
  "db_wf e \<Longrightarrow> set_tasks ts e = Some e' \<Longrightarrow> db_wf e'"
  "db_wf e \<Longrightarrow> set_audit as e = Some e' \<Longrightarrow> db_wf e'"
  "db_wf e \<Longrightarrow> set_keys ks e = Some e' \<Longrightarrow> db_wf e'"
  by (auto simp: set_defs db_wf_def split: if_splits)

lemma wrap_wf:
  "snd (case x of (Inl e, d1) \<Rightarrow> (Inl (Wrapf msg e), d1) | (Inr _, d1) \<Rightarrow> (Inr (), d1)) = snd x"
  by (auto split: prod.splits sum.splits)

lemma File_Create_wf:
  assumes "db_wf d"
  shows "db_wf (snd (File_Create m d))"
proof (cases "fst (File_Create m d)")
  case (Inl e)
  then have "same_tables (snd (File_Create m d)) d" by (intro File_Create_err [of m d e]) (simp add: prod_eq_iff)
  with assms show ?thesis using same_tables_wf by blast
next
  case (Inr u)
  then have "File_Create m d = (Inr (), snd (File_Create m d))" by (simp add: prod_eq_iff)
  from File_Create_ok [OF this] set_files_wf [OF _ assms] show ?thesis by metis
qed

lemma Dir_Create_wf:
  assumes "db_wf d"
  shows "db_wf (snd (Dir_Create m d))"
proof (cases "fst (Dir_Create m d)")
  case (Inl e)
  then have "same_tables (snd (Dir_Create m d)) d" by (intro Dir_Create_err [of m d e]) (simp add: prod_eq_iff)
  with assms show ?thesis using same_tables_wf by blast
next
  case (Inr u)
  then have "Dir_Create m d = (Inr (), snd (Dir_Create m d))" by (simp add: prod_eq_iff)
  from Dir_Create_ok [OF this] set_dirs_wf [OF _ assms] show ?thesis by metis
qed

section \<open>Properties\<close>


definition empty_db :: db where
  "empty_db = \<lparr>db_dialect = DialectSQLite, t_files = [], t_dirs = [], t_tasks = [], t_audit = [],
     t_keys = [], db_faults = []\<rparr>"

definition sample_file :: "string \<Rightarrow> string \<Rightarrow> FileMetadata" where
  "sample_file i p = \<lparr>fm_ID = i, fm_Path = p, fm_Name = p, fm_Size = 3, fm_Hash = ''h'',
     fm_StorageType = ''local'', fm_StorageLocation = [], fm_CreatedAt = ''t'', fm_UpdatedAt = ''t'',
     fm_IsDeleted = False\<rparr>"


text \<open>
  A file's record is created, found, removed and created again.  With a working database,
  creating a record for a free path makes exactly that path visible; removing it hides exactly
  that path; and the path can then be taken by a new record with a fresh id, although the old
  row still occupies the unique column.
\<close>

theorem file_remove_recreate:
  assumes "db_wf d" "db_faults d = []" "live_file d p = Some r" "NormalizePath p = p"
    and "\<not> fm_IsDeleted m" "fm_Path m = p" "fm_ID m \<notin> set (map fm_ID (t_files d))"
  shows "\<exists>d1 d2. File_Remove now (fm_ID r) d = (Inr (), d1) \<and> fst (File_GetByPath p d1) = Inr None \<and>
    File_Create m d1 = (Inr (), d2) \<and> db_wf d2 \<and> fst (File_GetByPath p d2) = Inr (Some (file_norm m)) \<and>
    (\<forall>q. NormalizePath q \<noteq> p \<longrightarrow> fst (File_GetByPath q d2) = fst (File_GetByPath q d))"
  using file_table.remove_recreate [OF assms] .

theorem file_remove_recreate_witness:
  "\<exists>d1 d2. File_Remove ''now'' ''1'' (empty_db\<lparr>t_files := [sample_file ''1'' ''a'']\<rparr>) = (Inr (), d1) \<and>
     File_Create (sample_file ''2'' ''a'') d1 = (Inr (), d2) \<and>
     fst (File_GetByPath ''a'' d2) = Inr (Some (file_norm (sample_file ''2'' ''a'')))"
proof -
  let ?d = "empty_db\<lparr>t_files := [sample_file ''1'' ''a'']\<rparr>"
  have n: "NormalizePath ''a'' = ''a''" by code_simp
  have "\<exists>d1 d2. File_Remove ''now'' (fm_ID (sample_file ''1'' ''a'')) ?d = (Inr (), d1) \<and>
     fst (File_GetByPath ''a'' d1) = Inr None \<and> File_Create (sample_file ''2'' ''a'') d1 = (Inr (), d2) \<and>
     db_wf d2 \<and> fst (File_GetByPath ''a'' d2) = Inr (Some (file_norm (sample_file ''2'' ''a''))) \<and>
     (\<forall>q. NormalizePath q \<noteq> ''a'' \<longrightarrow> fst (File_GetByPath q d2) = fst (File_GetByPath q ?d))"
    by (rule file_remove_recreate)
      (simp_all add: n db_wf_def empty_db_def file_unique_def dir_unique_def task_unique_def
        audit_unique_def key_unique_def live_file_def sample_file_def)
  then show ?thesis by (auto simp: sample_file_def)
qed


lemma GetByKeyHash_row:
  assumes "Key_GetByKeyHash now h d = (Inr (Some k), d')"
  shows "\<exists>r \<in> set (t_keys d). kr_KeyHash r = h \<and> kr_IsActive r \<and> k = ApiKey_of_row r \<and>
    (case kr_ExpiresAt r of None \<Rightarrow> True | Some t \<Rightarrow> t = [] \<or> now \<le> t)"
proof -
  obtain q d1 where q: "db_QueryRow (\<lambda>d. filter (\<lambda>r. kr_KeyHash r = h \<and> kr_IsActive r) (t_keys d)) d = (q, d1)"
    by fastforce
  with assms obtain r where "q = Inr r" "k = ApiKey_of_row r" "\<not> Key_IsExpired now k"
    by (auto simp: Key_GetByKeyHash_def scanApiKey_def split: sum.splits if_splits option.splits)
  moreover from this have "r \<in> set (t_keys d)" "kr_KeyHash r = h" "kr_IsActive r"
    using db_QueryRow_Inr [OF q [unfolded \<open>q = Inr r\<close>]] by (auto simp: same_tables_def)
  ultimately show ?thesis
    by (auto simp: Key_IsExpired_def ApiKey_of_row_def not_less split: option.splits)
qed

lemma Exec_keys_ok:
  assumes "db_Exec (\<lambda>d. set_keys (F (t_keys d)) d) d = (Inr u, d')"
  shows "t_keys d' = F (t_keys d)"
  using db_Exec_ok [OF assms] by (auto simp: set_keys_def same_tables_def split: if_splits)

text \<open>
  Only a usable key authenticates.  \<open>GetByKeyHash\<close> returns a key only when the table
  holds an active row with exactly that hash that has not expired, and then it returns that row;
  and once \<open>Deactivate\<close> or \<open>Remove\<close> has succeeded for an id, no key with that
  id is returned any more.
\<close>

theorem GetByKeyHash_sound:
  assumes "Key_GetByKeyHash now h d = (Inr (Some k), d')"
  shows "(\<exists>r \<in> set (t_keys d). kr_KeyHash r = h \<and> kr_IsActive r \<and> k = ApiKey_of_row r \<and>
      (case kr_ExpiresAt r of None \<Rightarrow> True | Some t \<Rightarrow> t = [] \<or> now \<le> t)) \<and>
    (\<forall>i d0. Key_Deactivate i d0 = (Inr (), d) \<or> Key_Remove i d0 = (Inr (), d) \<longrightarrow> ak_ID k \<noteq> i)"
proof -
  from GetByKeyHash_row [OF assms] obtain r where r: "r \<in> set (t_keys d)" "kr_IsActive r" "k = ApiKey_of_row r"
    by blast
  have "ak_ID k \<noteq> i" if "Key_Deactivate i d0 = (Inr (), d)" for i d0
  proof -
    from that obtain u where "db_Exec (\<lambda>d. set_keys (updrows (\<lambda>r. kr_ID r = i)
        (\<lambda>r. r\<lparr>kr_IsActive := False\<rparr>) (t_keys d)) d) d0 = (Inr u, d)"
      by (auto simp: Key_Deactivate_def split: prod.splits sum.splits)
    have "t_keys d = updrows (\<lambda>r. kr_ID r = i) (\<lambda>r. r\<lparr>kr_IsActive := False\<rparr>) (t_keys d0)"
      by (rule Exec_keys_ok [OF \<open>db_Exec _ d0 = (Inr u, d)\<close>])
    with r(1) have "r \<in> (\<lambda>r. if kr_ID r = i then r\<lparr>kr_IsActive := False\<rparr> else r) ` set (t_keys d0)"
      by (simp add: updrows_def)
    then obtain q where q: "r = (if kr_ID q = i then q\<lparr>kr_IsActive := False\<rparr> else q)" by (rule imageE)
    show ?thesis using r(2,3) unfolding q by (cases "kr_ID q = i") (simp_all add: ApiKey_of_row_def)
  qed
  moreover have "ak_ID k \<noteq> i" if "Key_Remove i d0 = (Inr (), d)" for i d0
  proof -
    from that obtain u where
      "db_Exec (\<lambda>d. set_keys (filter (\<lambda>r. kr_ID r \<noteq> i) (t_keys d)) d) d0 = (Inr u, d)"
      by (auto simp: Key_Remove_def split: prod.splits sum.splits)
    from Exec_keys_ok [OF this] r show ?thesis by (auto simp: ApiKey_of_row_def)
  qed
  ultimately show ?thesis using GetByKeyHash_row [OF assms] by blast
qed

definition sample_key :: "string \<Rightarrow> api_key_row" where
  "sample_key i = \<lparr>kr_ID = i, kr_KeyHash = ''hash'', kr_Name = ''n'', kr_Description = [],
     kr_Permissions = ''read'', kr_CreatedAt = ''2024-01-01T00:00:00Z'', kr_ExpiresAt = None,
     kr_LastUsedAt = None, kr_IsActive = True\<rparr>"

theorem GetByKeyHash_sound_witness:
  "\<exists>k d'. Key_GetByKeyHash ''2025-01-01T00:00:00Z'' ''hash'' (empty_db\<lparr>t_keys := [sample_key ''7'']\<rparr>) =
     (Inr (Some k), d') \<and> k = ApiKey_of_row (sample_key ''7'')"
proof -
  obtain k d' where k: "Key_GetByKeyHash ''2025-01-01T00:00:00Z'' ''hash''
      (empty_db\<lparr>t_keys := [sample_key ''7'']\<rparr>) = (Inr (Some k), d')"
    by (simp add: Key_GetByKeyHash_def scanApiKey_def db_QueryRow_def empty_db_def sample_key_def
        Key_IsExpired_def ApiKey_of_row_def)
  from GetByKeyHash_sound [OF this] k show ?thesis by (auto simp: empty_db_def)
qed

text \<open>
  A page of the key list cannot contain a key that was never used: scanning its NULL
  \<open>last_used_at\<close> into a string fails, and with it the whole call.  \<open>Create\<close>
  leaves that column NULL.
\<close>

theorem Key_List_fails_on_unused_key:
  assumes "r \<in> set (t_keys d)" and "kr_LastUsedAt r = None" and "db_faults d = []"
    and "length (t_keys d) \<le> nat pageSize" and "0 \<le> pageSize"
  shows "\<exists>e d'. Key_List False 1 pageSize d = (Inl (Wrapf ''failed to scan api key'' e), d')"
proof -
  have scan: "\<exists>e. scan_key_rows rs = Inl (Wrapf ''failed to scan api key'' e)" if "r \<in> set rs" for rs
    using that assms(2)
  proof (induction rs)
    case (Cons q rs)
    then show ?case by (cases "q = r") (auto split: option.splits)
  qed simp
  have "Key_List False 1 pageSize d =
      (case scan_key_rows (rev (sort_key kr_CreatedAt (t_keys d))) of Inl e \<Rightarrow> (Inl e, d) | Inr ks \<Rightarrow> (Inr ks, d))"
    using assms(3-5)
    by (auto simp: Key_List_def Let_def db_Query_def limit_offset_def wrap64_def split: Dialect.splits sum.splits)
  with scan [of "rev (sort_key kr_CreatedAt (t_keys d))"] assms(1) show ?thesis by auto
qed

theorem Key_List_fails_on_unused_key_witness:
  "\<exists>e d'. Key_List False 1 20 (empty_db\<lparr>t_keys := [sample_key ''7'']\<rparr>) =
     (Inl (Wrapf ''failed to scan api key'' e), d')"
  by (rule Key_List_fails_on_unused_key [of "sample_key ''7''"]) (simp_all add: empty_db_def sample_key_def)

end
