(* ===== verification/Filesystem.thy ===== *)
theory Filesystem
  imports Paths "HOL-Library.AList" "HOL-Library.Char_ord" "HOL-Library.List_Lexorder"
begin

text \<open>
  The part of the packages \<open>os\<close> and \<open>path/filepath\<close> the storage layer uses, on a
  Unix file system without symbolic links: a tree of files and directories, stored as a list of
  nodes under their absolute path (a list of elements).  I/O failures are entries of
  \<open>fs_io\<close>, of which every reading or writing call consumes one: \<open>NoEffect\<close>
  fails before the file is touched, \<open>Partial n\<close> after \<open>n\<close> bytes were written.
\<close>

section \<open>State\<close>

datatype fnode = FFile bytes | FDir

datatype io_fault = NoEffect err | Partial nat err

record fs =
  fs_nodes :: "(string list \<times> fnode) list"
  fs_cwd :: "string option"
  fs_tmp :: string
  fs_dirsize :: int
    \<comment> \<open>the size \<open>Stat\<close> reports for a directory\<close>
  fs_io :: "io_fault option list"

definition fs_pop :: "'a fs_scheme \<Rightarrow> io_fault option \<times> 'a fs_scheme" where
  "fs_pop f = (case fs_io f of [] \<Rightarrow> (None, f) | x # xs \<Rightarrow> (x, f\<lparr>fs_io := xs\<rparr>))"

definition fs_get :: "'a fs_scheme \<Rightarrow> string list \<Rightarrow> fnode option" where
  "fs_get f k = (if k = [] then Some FDir else map_of (fs_nodes f) k)"

definition fs_put :: "string list \<Rightarrow> fnode \<Rightarrow> 'a fs_scheme \<Rightarrow> 'a fs_scheme" where
  "fs_put k n f = f\<lparr>fs_nodes := AList.update k n (fs_nodes f)\<rparr>"

definition fs_del :: "string list \<Rightarrow> 'a fs_scheme \<Rightarrow> 'a fs_scheme" where
  "fs_del k f = f\<lparr>fs_nodes := AList.delete k (fs_nodes f)\<rparr>"

definition starts_with :: "string list \<Rightarrow> string list \<Rightarrow> bool" where
  "starts_with k j \<longleftrightarrow> take (length k) j = k"

section \<open>filepath\<close>

definition IsAbs :: "string \<Rightarrow> bool" where
  "IsAbs p \<longleftrightarrow> p \<noteq> [] \<and> hd p = slash"

definition filepath_Abs :: "'a fs_scheme \<Rightarrow> string \<Rightarrow> string res" where
  "filepath_Abs f p =
     (if IsAbs p then Inr (path_Clean p)
      else case fs_cwd f of None \<Rightarrow> Inl (Ext ''getwd'') | Some wd \<Rightarrow> Inr (path_Join [wd, p]))"

text \<open>The node a path names: the operating system resolves a relative path against the
  working directory.\<close>

definition fs_key :: "'a fs_scheme \<Rightarrow> string \<Rightarrow> string list" where
  "fs_key f p =
     clean_elems True []
       (if IsAbs p then Split slash p
        else (case fs_cwd f of None \<Rightarrow> [] | Some wd \<Rightarrow> Split slash wd) @ Split slash p)"

definition ENOTDIR :: err where "ENOTDIR = Ext ''not a directory''"
definition EISDIR :: err where "EISDIR = Ext ''is a directory''"
definition ENOTEMPTY :: err where "ENOTEMPTY = Ext ''directory not empty''"
definition EEXIST :: err where "EEXIST = Ext ''file exists''"
definition EINVAL :: err where "EINVAL = Ext ''invalid argument''"

definition is_file :: "'a fs_scheme \<Rightarrow> string list \<Rightarrow> bool" where
  "is_file f k = (case fs_get f k of Some (FFile _) \<Rightarrow> True | _ \<Rightarrow> False)"

text \<open>Whether a proper ancestor of \<open>k\<close> is a file.\<close>

definition under_file :: "'a fs_scheme \<Rightarrow> string list \<Rightarrow> bool" where
  "under_file f k \<longleftrightarrow> list_ex (\<lambda>i. is_file f (take i k)) [0..<length k]"

section \<open>os\<close>

definition os_Stat :: "string \<Rightarrow> 'a fs_scheme \<Rightarrow> fnode res" where
  "os_Stat p f =
     (let k = fs_key f p
      in if under_file f k then Inl ENOTDIR
         else case fs_get f k of None \<Rightarrow> Inl ErrNotExist | Some n \<Rightarrow> Inr n)"

text \<open>\<open>filepath.EvalSymlinks\<close> where no link exists: it succeeds on what exists.\<close>

definition EvalSymlinks :: "'a fs_scheme \<Rightarrow> string \<Rightarrow> string res" where
  "EvalSymlinks f p = (case os_Stat p f of Inl e \<Rightarrow> Inl e | Inr _ \<Rightarrow> Inr (path_Clean p))"

fun mkdir_each :: "string list list \<Rightarrow> 'a fs_scheme \<Rightarrow> unit res \<times> 'a fs_scheme" where
  "mkdir_each [] f = (Inr (), f)"
| "mkdir_each (k # ks) f =
     (case fs_get f k of
        Some (FFile _) \<Rightarrow> (Inl ENOTDIR, f)
      | Some FDir \<Rightarrow> mkdir_each ks f
      | None \<Rightarrow> mkdir_each ks (fs_put k FDir f))"

definition os_MkdirAll :: "string \<Rightarrow> 'a fs_scheme \<Rightarrow> unit res \<times> 'a fs_scheme" where
  "os_MkdirAll p f = (let k = fs_key f p in mkdir_each (map (\<lambda>i. take i k) [1..<Suc (length k)]) f)"

text \<open>What opening a file for writing requires.\<close>

definition open_check :: "'a fs_scheme \<Rightarrow> string list \<Rightarrow> err option" where
  "open_check f k =
     (if under_file f k then Some ENOTDIR
      else if k = [] then Some EISDIR
      else if fs_get f (butlast k) = None then Some ErrNotExist
      else if fs_get f k = Some FDir then Some EISDIR
      else None)"

text \<open>\<open>os.WriteFile\<close>, and a truncating open followed by a copy of \<open>data\<close>.\<close>

definition os_WriteFile :: "string \<Rightarrow> bytes \<Rightarrow> 'a fs_scheme \<Rightarrow> unit res \<times> 'a fs_scheme" where
  "os_WriteFile p data f0 =
     (case fs_pop f0 of (flt, f) \<Rightarrow>
        let k = fs_key f p
        in case open_check f k of
             Some e \<Rightarrow> (Inl e, f)
           | None \<Rightarrow>
               (case flt of
                  None \<Rightarrow> (Inr (), fs_put k (FFile data) f)
                | Some (NoEffect e) \<Rightarrow> (Inl e, f)
                | Some (Partial n e) \<Rightarrow> (Inl e, fs_put k (FFile (take n data)) f)))"

definition old_content :: "'a fs_scheme \<Rightarrow> string list \<Rightarrow> bytes" where
  "old_content f k = (case fs_get f k of Some (FFile b) \<Rightarrow> b | _ \<Rightarrow> [])"

text \<open>The bytes of a file after \<open>data\<close> is written at an offset: a gap is filled with
  zero bytes.\<close>

definition overlay :: "bytes \<Rightarrow> nat \<Rightarrow> bytes \<Rightarrow> bytes" where
  "overlay old ofs data =
     (if data = [] then old
      else take ofs (old @ replicate (ofs - length old) (CHR 0x00)) @ data @ drop (ofs + length data) old)"

text \<open>\<open>os.OpenFile(O_CREATE|O_WRONLY)\<close> followed by \<open>File.WriteAt\<close>.\<close>

definition os_WriteAt :: "string \<Rightarrow> bytes \<Rightarrow> int \<Rightarrow> 'a fs_scheme \<Rightarrow> (bool \<times> err) option \<times> 'a fs_scheme" where
  "os_WriteAt p data offset f0 =
     (case fs_pop f0 of (flt, f) \<Rightarrow>
        let k = fs_key f p; old = old_content f k
        in case open_check f k of
             Some e \<Rightarrow> (Some (True, e), f)
           | None \<Rightarrow>
               if offset < 0 then (Some (False, EINVAL), fs_put k (FFile old) f)
               else (case flt of
                  None \<Rightarrow> (None, fs_put k (FFile (overlay old (nat offset) data)) f)
                | Some (NoEffect e) \<Rightarrow> (Some (True, e), f)
                | Some (Partial n e) \<Rightarrow>
                    (Some (False, e), fs_put k (FFile (overlay old (nat offset) (take n data))) f)))"

definition os_ReadFile :: "string \<Rightarrow> 'a fs_scheme \<Rightarrow> bytes res \<times> 'a fs_scheme" where
  "os_ReadFile p f0 =
     (case fs_pop f0 of (flt, f) \<Rightarrow>
        (case os_Stat p f of
           Inl e \<Rightarrow> (Inl e, f)
         | Inr FDir \<Rightarrow> (Inl EISDIR, f)
         | Inr (FFile b) \<Rightarrow>
             (case flt of None \<Rightarrow> (Inr b, f) | Some (NoEffect e) \<Rightarrow> (Inl e, f) | Some (Partial n e) \<Rightarrow> (Inl e, f))))"

definition os_Remove :: "string \<Rightarrow> 'a fs_scheme \<Rightarrow> unit res \<times> 'a fs_scheme" where
  "os_Remove p f0 =
     (case fs_pop f0 of (flt, f) \<Rightarrow>
        let k = fs_key f p
        in case os_Stat p f of
             Inl e \<Rightarrow> (Inl e, f)
           | Inr n \<Rightarrow>
               if n = FDir \<and> list_ex (\<lambda>(j, m). starts_with k j \<and> j \<noteq> k) (fs_nodes f) then (Inl ENOTEMPTY, f)
               else (case flt of None \<Rightarrow> (Inr (), fs_del k f) | Some (NoEffect e) \<Rightarrow> (Inl e, f)
                                 | Some (Partial m e) \<Rightarrow> (Inl e, f)))"

definition os_RemoveAll :: "string \<Rightarrow> 'a fs_scheme \<Rightarrow> unit res \<times> 'a fs_scheme" where
  "os_RemoveAll p f0 =
     (case fs_pop f0 of (flt, f) \<Rightarrow>
        let k = fs_key f p
        in if under_file f k then (Inl ENOTDIR, f)
           else (case flt of
             None \<Rightarrow> (Inr (), f\<lparr>fs_nodes := filter (\<lambda>(j, m). \<not> starts_with k j) (fs_nodes f)\<rparr>)
           | Some (NoEffect e) \<Rightarrow> (Inl e, f) | Some (Partial m e) \<Rightarrow> (Inl e, f)))"

definition move_tree :: "string list \<Rightarrow> string list \<Rightarrow> 'a fs_scheme \<Rightarrow> 'a fs_scheme" where
  "move_tree k k' f =
     f\<lparr>fs_nodes := map (\<lambda>(j, m). if starts_with k j then (k' @ drop (length k) j, m) else (j, m))
                     (filter (\<lambda>(j, m). j \<noteq> k') (fs_nodes f))\<rparr>"

definition os_Rename :: "string \<Rightarrow> string \<Rightarrow> 'a fs_scheme \<Rightarrow> unit res \<times> 'a fs_scheme" where
  "os_Rename p q f0 =
     (case fs_pop f0 of (flt, f) \<Rightarrow>
        let k = fs_key f p; k' = fs_key f q
        in case os_Stat p f of
             Inl e \<Rightarrow> (Inl e, f)
           | Inr n \<Rightarrow>
               if under_file f k' then (Inl ENOTDIR, f)
               else if k' = [] then (Inl EEXIST, f)
               else if fs_get f (butlast k') = None then (Inl ErrNotExist, f)
               else if k = k' then (Inr (), f)
               else if starts_with k k' then (Inl EINVAL, f)
               else if n = FDir \<and> is_file f k' then (Inl ENOTDIR, f)
               else if n \<noteq> FDir \<and> fs_get f k' = Some FDir then (Inl EEXIST, f)
               else if n = FDir \<and> list_ex (\<lambda>(j, m). starts_with k' j \<and> j \<noteq> k') (fs_nodes f) then (Inl ENOTEMPTY, f)
               else (case flt of None \<Rightarrow> (Inr (), move_tree k k' f) | Some (NoEffect e) \<Rightarrow> (Inl e, f)
                                 | Some (Partial m e) \<Rightarrow> (Inl e, f)))"

definition os_ReadDir :: "string \<Rightarrow> 'a fs_scheme \<Rightarrow> string list res" where
  "os_ReadDir p f =
     (let k = fs_key f p
      in case os_Stat p f of
           Inl e \<Rightarrow> Inl e
         | Inr (FFile _) \<Rightarrow> Inl ENOTDIR
         | Inr FDir \<Rightarrow>
             Inr (sort (map (\<lambda>(j, m). last j)
               (filter (\<lambda>(j, m). starts_with k j \<and> length j = Suc (length k)) (fs_nodes f)))))"

section \<open>Lemmas\<close>

lemma fs_get_put [simp]:
  "k \<noteq> [] \<Longrightarrow> fs_get (fs_put k n f) j = (if j = k then Some n else fs_get f j)"
  by (simp add: fs_get_def fs_put_def AList.update_conv')

lemma fs_get_del [simp]:
  "k \<noteq> [] \<Longrightarrow> fs_get (fs_del k f) j = (if j = k then None else fs_get f j)"
  by (simp add: fs_get_def fs_del_def AList.delete_conv')

lemma fs_put_fields [simp]:
  "fs_cwd (fs_put k n f) = fs_cwd f" "fs_tmp (fs_put k n f) = fs_tmp f" "fs_io (fs_put k n f) = fs_io f"
  by (simp_all add: fs_put_def)

lemma fs_del_fields [simp]:
  "fs_cwd (fs_del k f) = fs_cwd f" "fs_tmp (fs_del k f) = fs_tmp f" "fs_io (fs_del k f) = fs_io f"
  by (simp_all add: fs_del_def)

lemma fs_pop_fields [simp]:
  "fs_get (snd (fs_pop f)) = fs_get f" "fs_cwd (snd (fs_pop f)) = fs_cwd f"
  "fs_nodes (snd (fs_pop f)) = fs_nodes f" "fs_tmp (snd (fs_pop f)) = fs_tmp f"
  by (auto simp: fs_pop_def fs_get_def fun_eq_iff split: list.splits)

lemma fs_key_cwd: "fs_cwd f = fs_cwd g \<Longrightarrow> fs_key f p = fs_key g p"
  by (simp add: fs_key_def)

lemma under_file_get: "fs_get f = fs_get g \<Longrightarrow> under_file f k = under_file g k"
  by (simp add: under_file_def is_file_def)

text \<open>A tree: every node below the root sits in a directory.\<close>

definition fs_tree :: "'a fs_scheme \<Rightarrow> bool" where
  "fs_tree f \<longleftrightarrow> distinct (map fst (fs_nodes f)) \<and>
     list_all (\<lambda>(k, n). k \<noteq> [] \<and> fs_get f (butlast k) = Some FDir) (fs_nodes f)"

lemma fs_tree_parent:
  assumes "fs_tree f" "fs_get f k = Some n" "k \<noteq> []"
  shows "fs_get f (butlast k) = Some FDir"
proof -
  have "(k, n) \<in> set (fs_nodes f)" using assms(2,3) by (simp add: fs_get_def map_of_SomeD)
  with assms(1) show ?thesis by (auto simp: fs_tree_def list_all_iff)
qed

lemma fs_tree_ancestors:
  assumes "fs_tree f" "fs_get f k = Some n" "i < length k"
  shows "fs_get f (take i k) = Some FDir"
  using assms(2,3)
proof (induction k arbitrary: n rule: rev_induct)
  case (snoc x k)
  have p: "fs_get f k = Some FDir" using fs_tree_parent [OF assms(1) snoc.prems(1)] by simp
  show ?case
  proof (cases "i = length k")
    case False
    with snoc.prems(2) snoc.IH [OF p] show ?thesis by simp
  qed (simp add: p)
qed simp

lemma fs_tree_not_under:
  "fs_tree f \<Longrightarrow> fs_get f k = Some n \<Longrightarrow> \<not> under_file f k"
  using fs_tree_ancestors [of f k n] by (auto simp: under_file_def is_file_def list_ex_iff)

lemma fs_tree_iff:
  "fs_tree f \<longleftrightarrow> distinct (map fst (fs_nodes f)) \<and> [] \<notin> fst ` set (fs_nodes f) \<and>
     (\<forall>k n. k \<noteq> [] \<and> fs_get f k = Some n \<longrightarrow> fs_get f (butlast k) = Some FDir)"
proof (intro iffI conjI allI impI)
  assume t: "fs_tree f"
  then show "distinct (map fst (fs_nodes f))" "[] \<notin> fst ` set (fs_nodes f)"
    by (auto simp: fs_tree_def list_all_iff)
  show "fs_get f (butlast k) = Some FDir" if "k \<noteq> [] \<and> fs_get f k = Some n" for k n
    using fs_tree_parent [OF t] that by blast
next
  assume a: "distinct (map fst (fs_nodes f)) \<and> [] \<notin> fst ` set (fs_nodes f) \<and>
     (\<forall>k n. k \<noteq> [] \<and> fs_get f k = Some n \<longrightarrow> fs_get f (butlast k) = Some FDir)"
  have "k \<noteq> [] \<and> fs_get f (butlast k) = Some FDir" if "(k, n) \<in> set (fs_nodes f)" for k n
  proof -
    have "k \<noteq> []" using a that by force
    moreover from this have "fs_get f k = Some n" using a that by (simp add: fs_get_def)
    ultimately show ?thesis using a by blast
  qed
  with a show "fs_tree f" by (auto simp: fs_tree_def list_all_iff)
qed

lemma fs_tree_put:
  assumes "fs_tree f" "k \<noteq> []" "fs_get f (butlast k) = Some FDir" "fs_get f k = Some FDir \<Longrightarrow> n = FDir"
  shows "fs_tree (fs_put k n f)"
proof -
  have "distinct (map fst (fs_nodes (fs_put k n f)))" "[] \<notin> fst ` set (fs_nodes (fs_put k n f))"
    using assms(1,2) by (auto simp: fs_tree_iff fs_put_def AList.distinct_update dom_update [symmetric] AList.dom_update)
  moreover have "fs_get (fs_put k n f) (butlast j) = Some FDir"
    if "j \<noteq> []" "fs_get (fs_put k n f) j = Some m" for j m
  proof (cases "j = k")
    case True
    then show ?thesis using assms(2,3) by (cases "butlast k = k") (auto simp: butlast_conv_take)
  next
    case False
    then have "fs_get f (butlast j) = Some FDir"
      using that fs_tree_parent [OF assms(1), of j m] assms(2) by simp
    with assms(2,4) show ?thesis by auto
  qed
  ultimately show ?thesis by (auto simp: fs_tree_iff)
qed

lemma fs_tree_del:
  assumes "fs_tree f" "k \<noteq> []" "\<And>j n. j \<noteq> [] \<Longrightarrow> fs_get f j = Some n \<Longrightarrow> butlast j \<noteq> k"
  shows "fs_tree (fs_del k f)"
proof -
  have "distinct (map fst (fs_nodes (fs_del k f)))" "[] \<notin> fst ` set (fs_nodes (fs_del k f))"
    using assms(1) by (auto simp: fs_tree_iff fs_del_def AList.delete_eq distinct_map_filter)
  then show ?thesis
    using assms fs_tree_parent [OF assms(1)] by (auto simp: fs_tree_iff split: if_splits)
qed

lemma fs_tree_del_leaf:
  assumes t: "fs_tree f" "k \<noteq> []" and n: "fs_get f k = Some n"
    and leaf: "\<not> (n = FDir \<and> list_ex (\<lambda>(j, m). starts_with k j \<and> j \<noteq> k) (fs_nodes f))"
  shows "fs_tree (fs_del k f)"
proof (rule fs_tree_del [OF t])
  fix j m assume j: "j \<noteq> []" "fs_get f j = Some m"
  show "butlast j \<noteq> k"
  proof
    assume b: "butlast j = k"
    then have "n = FDir" using fs_tree_parent [OF t(1) j(2,1)] n by simp
    moreover have "(j, m) \<in> set (fs_nodes f)" using j by (simp add: fs_get_def map_of_SomeD)
    moreover have "starts_with k j \<and> j \<noteq> k"
      using j(1) b by (cases j rule: rev_cases) (auto simp: starts_with_def)
    ultimately show False using leaf by (auto simp: list_ex_iff)
  qed
qed

lemma file_no_child:
  assumes "fs_tree f" "fs_get f k = Some (FFile b)" "starts_with k j" "fs_get f j = Some n"
  shows "j = k"
proof (rule ccontr)
  assume "j \<noteq> k"
  with assms(3) have "length k < length j" "take (length k) j = k"
    unfolding starts_with_def by (metis linorder_le_less_linear take_all)+
  with fs_tree_ancestors [OF assms(1,4)] assms(2) show False by force
qed

lemma map_of_rekey:
  assumes "k' \<notin> fst ` set al" "k \<noteq> k'"
  shows "map_of (map (\<lambda>(j, m). if j = k then (k', m) else (j, m)) al) = (map_of al)(k := None, k' := map_of al k)"
proof -
  have n: "map_of al k' = None" using assms(1) by (simp add: map_of_eq_None_iff)
  show ?thesis using assms n
  proof (induction al)
    case (Cons p al)
    obtain j m where p: "p = (j, m)" by fastforce
    have "map_of (map (\<lambda>(j, m). if j = k then (k', m) else (j, m)) al) = (map_of al)(k := None, k' := map_of al k)"
      using Cons by (auto split: if_splits)
    with p Cons.prems show ?case by (auto simp: fun_eq_iff)
  qed (auto simp: fun_eq_iff)
qed

text \<open>Renaming a file: nothing else moves, because nothing lies below a file.\<close>

lemma move_file_get:
  assumes t: "fs_tree f" and k: "fs_get f k = Some (FFile b)" and ne: "k \<noteq> k'" "k' \<noteq> []"
  shows "fs_get (move_tree k k' f) j = (if j = k' then Some (FFile b) else if j = k then None else fs_get f j)"
    and "distinct (map fst (fs_nodes (move_tree k k' f)))"
    and "[] \<notin> fst ` set (fs_nodes (move_tree k k' f))"
proof -
  let ?al = "filter (\<lambda>(j, m). j \<noteq> k') (fs_nodes f)"
  have kne: "k \<noteq> []" using k by (auto simp: fs_get_def)
  have t': "distinct (map fst (fs_nodes f))" "[] \<notin> fst ` set (fs_nodes f)" using t by (simp_all add: fs_tree_iff)
  have "j = k" if "(j, m) \<in> set (fs_nodes f)" "starts_with k j" for j m
  proof -
    have "j \<noteq> []" using that(1) t'(2) by force
    then have "fs_get f j = Some m" using that(1) t'(1) by (simp add: fs_get_def)
    from file_no_child [OF t k that(2) this] show ?thesis .
  qed
  then have sw: "\<forall>(j, m) \<in> set ?al. starts_with k j = (j = k)" by (auto simp: starts_with_def)
  have nodes: "fs_nodes (move_tree k k' f) = map (\<lambda>(j, m). if j = k then (k', m) else (j, m)) ?al"
    unfolding move_tree_def using sw by (auto intro!: map_cong)
  have k': "k' \<notin> fst ` set ?al" by auto
  have fl: "map_of (filter (\<lambda>(j, m). j \<noteq> k') al) i = (if i = k' then None else map_of al i)"
    for i and al :: "(string list \<times> fnode) list" by (induction al) auto
  show "fs_get (move_tree k k' f) j = (if j = k' then Some (FFile b) else if j = k then None else fs_get f j)"
    unfolding fs_get_def nodes map_of_rekey [OF k' ne(1)]
    using k kne ne by (auto simp: fl fs_get_def)
  have keys: "map fst (fs_nodes (move_tree k k' f)) = map (\<lambda>j. if j = k then k' else j) (map fst ?al)"
    unfolding nodes by (auto simp: o_def case_prod_beta)
  have "distinct (map fst ?al)" using t'(1) by (simp add: distinct_map_filter)
  moreover have "inj_on (\<lambda>j. if j = k then k' else j) (set (map fst ?al))" using k' by (auto simp: inj_on_def)
  ultimately show "distinct (map fst (fs_nodes (move_tree k k' f)))" unfolding keys by (subst distinct_map) simp
  show "[] \<notin> fst ` set (fs_nodes (move_tree k k' f))"
    using t'(2) ne(2) arg_cong [OF keys, of set] by (auto simp: image_iff split: if_splits)
qed

end
