(* ===== verification/Storage.thy ===== *)
theory Storage
  imports Filesystem
begin

text \<open>
  \<open>src/internal/storage\<close>: the interface \<open>StorageAdapter\<close>, its local
  implementation (\<open>local.go\<close>), the check on temporary files (\<open>tempfile.go\<close>) and
  the classification of errors (\<open>errors.go\<close>).  A \<open>StorageAdapter\<close> value is a
  record of functions on the state of the backend.  The per-path mutexes of
  \<open>LocalStorage\<close> make every call one atomic step on its path; lock entries carry no data
  and are not part of the state.

  The interface's contract is the locale \<open>storage\<close>, interpreted by
  \<open>LocalStorage\<close>; the services above are proved against it.
\<close>

section \<open>The interface\<close>

text \<open>An \<open>io.Reader\<close>: the bytes it delivers and the error it ends with, if any.\<close>

record reader =
  rd_data :: bytes
  rd_err :: "err option"

text \<open>\<open>io.LimitReader\<close> and \<open>io.ReadAll\<close> on it.\<close>

definition LimitReader :: "reader \<Rightarrow> int \<Rightarrow> reader" where
  "LimitReader rd n = \<lparr>rd_data = take (nat n) (rd_data rd), rd_err = (if n \<le> int (length (rd_data rd)) then None else rd_err rd)\<rparr>"

definition ReadAll :: "reader \<Rightarrow> bytes res" where
  "ReadAll rd = (case rd_err rd of None \<Rightarrow> Inr (rd_data rd) | Some e \<Rightarrow> Inl e)"

record 's StorageAdapter =
  sa_Write :: "string \<Rightarrow> bytes \<Rightarrow> 's \<Rightarrow> unit res \<times> 's"
  sa_WriteAt :: "string \<Rightarrow> bytes \<Rightarrow> int \<Rightarrow> 's \<Rightarrow> unit res \<times> 's"
  sa_WriteFromTempFile :: "string \<Rightarrow> string \<Rightarrow> 's \<Rightarrow> unit res \<times> 's"
  sa_WriteFromReader :: "string \<Rightarrow> reader \<Rightarrow> 's \<Rightarrow> unit res \<times> 's"
  sa_Read :: "string \<Rightarrow> 's \<Rightarrow> bytes res \<times> 's"
  sa_ReadAt :: "string \<Rightarrow> int \<Rightarrow> int \<Rightarrow> 's \<Rightarrow> bytes res \<times> 's"
  sa_Remove :: "string \<Rightarrow> 's \<Rightarrow> unit res \<times> 's"
  sa_Exists :: "string \<Rightarrow> 's \<Rightarrow> bool"
  sa_List :: "string \<Rightarrow> 's \<Rightarrow> string list res"
  sa_GetSize :: "string \<Rightarrow> 's \<Rightarrow> int res"
  sa_Rename :: "string \<Rightarrow> string \<Rightarrow> 's \<Rightarrow> unit res \<times> 's"
  sa_CreateDirectory :: "string \<Rightarrow> 's \<Rightarrow> unit res \<times> 's"
  sa_RemoveDirectory :: "string \<Rightarrow> 's \<Rightarrow> unit res \<times> 's"
  sa_StorageType :: string
  sa_ValidatePath :: "string \<Rightarrow> 's \<Rightarrow> unit res"
  sa_OpenReader :: "string \<Rightarrow> 's \<Rightarrow> reader res \<times> 's"

section \<open>errors.go\<close>

fun IsNotExist :: "err option \<Rightarrow> bool" where
  "IsNotExist None = False"
| "IsNotExist (Some e) = (errors_Is e ErrNotExist \<or> errors_Is e NoSuchKey)"

section \<open>Path validation\<close>

definition getFullPath :: "string \<Rightarrow> string \<Rightarrow> string" where
  "getFullPath rootDir path = path_Join [rootDir, path]"

text \<open>The loop of \<open>resolveExistingAncestor\<close>; \<open>ev\<close> is
  \<open>filepath.EvalSymlinks\<close> and the first argument bounds the number of iterations.\<close>

fun resolve_loop :: "nat \<Rightarrow> (string \<Rightarrow> string res) \<Rightarrow> string \<Rightarrow> string \<Rightarrow> string \<Rightarrow> string option" where
  "resolve_loop 0 ev path dir tail = None"
| "resolve_loop (Suc n) ev path dir tail =
     (case ev dir of
        Inr resolved \<Rightarrow> Some (if tail = [] then resolved else path_Join [resolved, tail])
      | Inl _ \<Rightarrow>
          let tail' = path_Join [path_Base dir, tail]; parent = path_Dir dir
          in if parent = dir then Some path else resolve_loop n ev path parent tail')"

definition resolveExistingAncestor :: "(string \<Rightarrow> string res) \<Rightarrow> string \<Rightarrow> string option" where
  "resolveExistingAncestor ev path = resolve_loop (Suc (length path)) ev path path []"

definition ValidatePath ::
  "(string \<Rightarrow> string res) \<Rightarrow> (string \<Rightarrow> string res) \<Rightarrow> string \<Rightarrow> string \<Rightarrow> unit res"
where
  "ValidatePath ev toAbs rootDir path =
     (case toAbs rootDir of
        Inl e \<Rightarrow> Inl (Wrapf ''invalid root directory'' e)
      | Inr absRoot0 \<Rightarrow>
          let absRoot = (case ev absRoot0 of Inr r \<Rightarrow> r | Inl _ \<Rightarrow> absRoot0)
          in case toAbs (getFullPath rootDir path) of
               Inl e \<Rightarrow> Inl (Wrapf ''invalid path'' e)
             | Inr absFull0 \<Rightarrow>
                 let resolved = (case ev absFull0 of
                        Inr r \<Rightarrow> r
                      | Inl _ \<Rightarrow> (case resolveExistingAncestor ev absFull0 of Some r \<Rightarrow> r | None \<Rightarrow> absFull0));
                     absFull = path_Clean resolved
                 in if \<not> HasPrefix absFull (absRoot @ ''/'') \<and> absFull \<noteq> absRoot
                    then Inl (Errorf ''path traversal detected'')
                    else Inr ())"

definition validatePath :: "string \<Rightarrow> string \<Rightarrow> 'a fs_scheme \<Rightarrow> unit res" where
  "validatePath rootDir path f = ValidatePath (EvalSymlinks f) (filepath_Abs f) rootDir path"

definition validateTempFilePath :: "string \<Rightarrow> 'a fs_scheme \<Rightarrow> unit res" where
  "validateTempFilePath tempFilePath f =
     (case filepath_Abs f tempFilePath of
        Inl e \<Rightarrow> Inl (Wrapf ''invalid temp file path'' e)
      | Inr absTemp \<Rightarrow>
          if \<not> HasPrefix absTemp (fs_tmp f) \<and> \<not> HasPrefix absTemp ''/tmp/''
          then Inl (Errorf ''temp file must be in system temp directory'')
          else Inr ())"

section \<open>LocalStorage\<close>

definition ensureDirectoryExists :: "string \<Rightarrow> 'a fs_scheme \<Rightarrow> unit res \<times> 'a fs_scheme" where
  "ensureDirectoryExists dirPath f =
     (if os_Stat dirPath f = Inl ErrNotExist then os_MkdirAll dirPath f else (Inr (), f))"

text \<open>The common opening of the writing methods: validate, then make sure the parent
  directory exists.\<close>

definition prepare_write :: "string \<Rightarrow> string \<Rightarrow> 'a fs_scheme \<Rightarrow> unit res \<times> 'a fs_scheme" where
  "prepare_write rootDir path f =
     (case ensureDirectoryExists (path_Dir (getFullPath rootDir path)) f of
        (Inl e, f1) \<Rightarrow> (Inl (Wrapf ''failed to create directory'' e), f1)
      | (Inr _, f1) \<Rightarrow> (Inr (), f1))"

definition LS_Write :: "string \<Rightarrow> string \<Rightarrow> bytes \<Rightarrow> 'a fs_scheme \<Rightarrow> unit res \<times> 'a fs_scheme" where
  "LS_Write rootDir path data f =
     (case validatePath rootDir path f of
        Inl e \<Rightarrow> (Inl e, f)
      | Inr _ \<Rightarrow>
          (case prepare_write rootDir path f of
             (Inl e, f1) \<Rightarrow> (Inl e, f1)
           | (Inr _, f1) \<Rightarrow>
               (case os_WriteFile (getFullPath rootDir path) data f1 of
                  (Inl e, f2) \<Rightarrow> (Inl (Wrapf ''failed to write file'' e), f2)
                | (Inr _, f2) \<Rightarrow> (Inr (), f2))))"

definition LS_WriteAt :: "string \<Rightarrow> string \<Rightarrow> bytes \<Rightarrow> int \<Rightarrow> 'a fs_scheme \<Rightarrow> unit res \<times> 'a fs_scheme" where
  "LS_WriteAt rootDir path data offset f =
     (case validatePath rootDir path f of
        Inl e \<Rightarrow> (Inl e, f)
      | Inr _ \<Rightarrow>
          (case prepare_write rootDir path f of
             (Inl e, f1) \<Rightarrow> (Inl e, f1)
           | (Inr _, f1) \<Rightarrow>
               (case os_WriteAt (getFullPath rootDir path) data offset f1 of
                  (Some (opening, e), f2) \<Rightarrow>
                    (Inl (Wrapf (if opening then ''failed to open file'' else ''failed to write at offset'') e), f2)
                | (None, f2) \<Rightarrow> (Inr (), f2))))"

definition LS_WriteFromTempFile :: "string \<Rightarrow> string \<Rightarrow> string \<Rightarrow> 'a fs_scheme \<Rightarrow> unit res \<times> 'a fs_scheme" where
  "LS_WriteFromTempFile rootDir path tempFilePath f =
     (case validatePath rootDir path f of
        Inl e \<Rightarrow> (Inl e, f)
      | Inr _ \<Rightarrow>
     (case validateTempFilePath tempFilePath f of
        Inl e \<Rightarrow> (Inl e, f)
      | Inr _ \<Rightarrow>
     (case prepare_write rootDir path f of
        (Inl e, f1) \<Rightarrow> (Inl e, f1)
      | (Inr _, f1) \<Rightarrow>
     (case os_Rename tempFilePath (getFullPath rootDir path) f1 of
        (Inr _, f2) \<Rightarrow> (Inr (), f2)
      | (Inl _, f2) \<Rightarrow>
     (case os_Stat tempFilePath f2 of
        Inl e \<Rightarrow> (Inl (Wrapf ''failed to open temp file'' e), f2)
      | Inr _ \<Rightarrow>
     (case open_check f2 (fs_key f2 (getFullPath rootDir path)) of
        Some e \<Rightarrow> (Inl (Wrapf ''failed to create destination file'' e), f2)
      | None \<Rightarrow>
     (case os_ReadFile tempFilePath f2 of
        (Inl e, f3) \<Rightarrow>
          (Inl (Wrapf ''failed to copy file'' e), fs_put (fs_key f3 (getFullPath rootDir path)) (FFile []) f3)
      | (Inr data, f3) \<Rightarrow>
     (case os_WriteFile (getFullPath rootDir path) data f3 of
        (Inl e, f4) \<Rightarrow> (Inl (Wrapf ''failed to copy file'' e), f4)
      | (Inr _, f4) \<Rightarrow>
     (case os_Remove tempFilePath f4 of
        (Inl e, f5) \<Rightarrow> (Inl (Wrapf ''failed to remove temp file'' e), f5)
      | (Inr _, f5) \<Rightarrow> (Inr (), f5))))))))))"

definition LS_Read :: "string \<Rightarrow> string \<Rightarrow> 'a fs_scheme \<Rightarrow> bytes res \<times> 'a fs_scheme" where
  "LS_Read rootDir path f =
     (case validatePath rootDir path f of
        Inl e \<Rightarrow> (Inl e, f)
      | Inr _ \<Rightarrow>
          (case os_ReadFile (getFullPath rootDir path) f of
             (Inl e, f1) \<Rightarrow> (Inl (Wrapf ''failed to read file'' e), f1)
           | (Inr b, f1) \<Rightarrow> (Inr b, f1)))"

definition LS_OpenReader :: "string \<Rightarrow> string \<Rightarrow> 'a fs_scheme \<Rightarrow> reader res \<times> 'a fs_scheme" where
  "LS_OpenReader rootDir path f0 =
     (case validatePath rootDir path f0 of
        Inl e \<Rightarrow> (Inl e, f0)
      | Inr _ \<Rightarrow>
          (case fs_pop f0 of (flt, f) \<Rightarrow>
             (case os_Stat (getFullPath rootDir path) f of
                Inl e \<Rightarrow> (Inl (Wrapf ''failed to open file'' e), f)
              | Inr FDir \<Rightarrow> (Inr \<lparr>rd_data = [], rd_err = Some EISDIR\<rparr>, f)
              | Inr (FFile b) \<Rightarrow>
                  (Inr (case flt of
                     None \<Rightarrow> \<lparr>rd_data = b, rd_err = None\<rparr>
                   | Some (NoEffect e) \<Rightarrow> \<lparr>rd_data = [], rd_err = Some e\<rparr>
                   | Some (Partial n e) \<Rightarrow> \<lparr>rd_data = take n b, rd_err = Some e\<rparr>), f))))"

definition LS_WriteFromReader :: "string \<Rightarrow> string \<Rightarrow> reader \<Rightarrow> 'a fs_scheme \<Rightarrow> unit res \<times> 'a fs_scheme" where
  "LS_WriteFromReader rootDir path rd f =
     (case validatePath rootDir path f of
        Inl e \<Rightarrow> (Inl e, f)
      | Inr _ \<Rightarrow>
          (case prepare_write rootDir path f of
             (Inl e, f1) \<Rightarrow> (Inl e, f1)
           | (Inr _, f1) \<Rightarrow>
               (case open_check f1 (fs_key f1 (getFullPath rootDir path)) of
                  Some e \<Rightarrow> (Inl (Wrapf ''failed to create file'' e), f1)
                | None \<Rightarrow>
                    (case os_WriteFile (getFullPath rootDir path) (rd_data rd) f1 of
                       (Inl e, f2) \<Rightarrow> (Inl (Wrapf ''failed to write from reader'' e), f2)
                     | (Inr _, f2) \<Rightarrow>
                         (case rd_err rd of
                            Some e \<Rightarrow> (Inl (Wrapf ''failed to write from reader'' e), f2)
                          | None \<Rightarrow> (Inr (), f2))))))"

definition LS_ReadAt :: "string \<Rightarrow> string \<Rightarrow> int \<Rightarrow> int \<Rightarrow> 'a fs_scheme \<Rightarrow> bytes res \<times> 'a fs_scheme" where
  "LS_ReadAt rootDir path sz offset f =
     (case validatePath rootDir path f of
        Inl e \<Rightarrow> (Inl e, f)
      | Inr _ \<Rightarrow>
          if sz \<le> 0 then (Inl (Errorf ''invalid read size''), f)
          else if offset < 0 then (Inl (Errorf ''invalid read offset''), f)
          else (case os_Stat (getFullPath rootDir path) f of
             Inl e \<Rightarrow> (Inl (Wrapf ''failed to open file'' e), f)
           | Inr _ \<Rightarrow>
               (case os_ReadFile (getFullPath rootDir path) f of
                  (Inl e, f1) \<Rightarrow> (Inl (Wrapf ''failed to read at offset'' e), f1)
                | (Inr b, f1) \<Rightarrow> (Inr (take (nat sz) (drop (nat offset) b)), f1))))"

definition LS_Remove :: "string \<Rightarrow> string \<Rightarrow> 'a fs_scheme \<Rightarrow> unit res \<times> 'a fs_scheme" where
  "LS_Remove rootDir path f =
     (case validatePath rootDir path f of
        Inl e \<Rightarrow> (Inl e, f)
      | Inr _ \<Rightarrow>
          (case os_Remove (getFullPath rootDir path) f of
             (Inl e, f1) \<Rightarrow> (Inl (Wrapf ''failed to remove file'' e), f1)
           | (Inr _, f1) \<Rightarrow> (Inr (), f1)))"

definition LS_Exists :: "string \<Rightarrow> string \<Rightarrow> 'a fs_scheme \<Rightarrow> bool" where
  "LS_Exists rootDir path f =
     (case validatePath rootDir path f of
        Inl e \<Rightarrow> False
      | Inr _ \<Rightarrow> (case os_Stat (getFullPath rootDir path) f of Inl _ \<Rightarrow> False | Inr _ \<Rightarrow> True))"

definition LS_List :: "string \<Rightarrow> string \<Rightarrow> 'a fs_scheme \<Rightarrow> string list res" where
  "LS_List rootDir directory f =
     (case validatePath rootDir directory f of
        Inl e \<Rightarrow> Inl e
      | Inr _ \<Rightarrow>
          (case os_ReadDir (getFullPath rootDir directory) f of
             Inl e \<Rightarrow> Inl (Wrapf ''failed to list directory'' e)
           | Inr names \<Rightarrow> Inr names))"

definition LS_GetSize :: "string \<Rightarrow> string \<Rightarrow> 'a fs_scheme \<Rightarrow> int res" where
  "LS_GetSize rootDir path f =
     (case validatePath rootDir path f of
        Inl e \<Rightarrow> Inl e
      | Inr _ \<Rightarrow>
          (case os_Stat (getFullPath rootDir path) f of
             Inl e \<Rightarrow> Inl (Wrapf ''failed to get file size'' e)
           | Inr (FFile b) \<Rightarrow> Inr (int (length b))
           | Inr FDir \<Rightarrow> Inr (fs_dirsize f)))"

definition LS_Rename :: "string \<Rightarrow> string \<Rightarrow> string \<Rightarrow> 'a fs_scheme \<Rightarrow> unit res \<times> 'a fs_scheme" where
  "LS_Rename rootDir oldPath newPath f =
     (case validatePath rootDir oldPath f of
        Inl e \<Rightarrow> (Inl e, f)
      | Inr _ \<Rightarrow>
     (case validatePath rootDir newPath f of
        Inl e \<Rightarrow> (Inl e, f)
      | Inr _ \<Rightarrow>
          if oldPath = newPath then (Inr (), f)
          else (case prepare_write rootDir newPath f of
             (Inl e, f1) \<Rightarrow> (Inl e, f1)
           | (Inr _, f1) \<Rightarrow>
               (case os_Rename (getFullPath rootDir oldPath) (getFullPath rootDir newPath) f1 of
                  (Inl e, f2) \<Rightarrow> (Inl (Wrapf ''failed to rename'' e), f2)
                | (Inr _, f2) \<Rightarrow> (Inr (), f2)))))"

definition LS_CreateDirectory :: "string \<Rightarrow> string \<Rightarrow> 'a fs_scheme \<Rightarrow> unit res \<times> 'a fs_scheme" where
  "LS_CreateDirectory rootDir path f =
     (case validatePath rootDir path f of
        Inl e \<Rightarrow> (Inl e, f)
      | Inr _ \<Rightarrow>
          (case os_MkdirAll (getFullPath rootDir path) f of
             (Inl e, f1) \<Rightarrow> (Inl (Wrapf ''failed to create directory'' e), f1)
           | (Inr _, f1) \<Rightarrow> (Inr (), f1)))"

definition LS_RemoveDirectory :: "string \<Rightarrow> string \<Rightarrow> 'a fs_scheme \<Rightarrow> unit res \<times> 'a fs_scheme" where
  "LS_RemoveDirectory rootDir path f =
     (case validatePath rootDir path f of
        Inl e \<Rightarrow> (Inl e, f)
      | Inr _ \<Rightarrow>
          (case os_RemoveAll (getFullPath rootDir path) f of
             (Inl e, f1) \<Rightarrow> (Inl (Wrapf ''failed to remove directory'' e), f1)
           | (Inr _, f1) \<Rightarrow> (Inr (), f1)))"

definition NewLocalStorage :: "string \<Rightarrow> ('a fs_scheme) StorageAdapter" where
  "NewLocalStorage rootDir =
     \<lparr>sa_Write = LS_Write rootDir, sa_WriteAt = LS_WriteAt rootDir,
      sa_WriteFromTempFile = LS_WriteFromTempFile rootDir,
      sa_WriteFromReader = LS_WriteFromReader rootDir, sa_Read = LS_Read rootDir,
      sa_ReadAt = LS_ReadAt rootDir, sa_Remove = LS_Remove rootDir, sa_Exists = LS_Exists rootDir,
      sa_List = LS_List rootDir, sa_GetSize = LS_GetSize rootDir, sa_Rename = LS_Rename rootDir,
      sa_CreateDirectory = LS_CreateDirectory rootDir,
      sa_RemoveDirectory = LS_RemoveDirectory rootDir, sa_StorageType = ''local'',
      sa_ValidatePath = validatePath rootDir, sa_OpenReader = LS_OpenReader rootDir\<rparr>"

section \<open>Absolute paths\<close>

text \<open>The absolute path with the given elements.\<close>

definition abs_of :: "string list \<Rightarrow> string" where
  "abs_of es = slash # JoinStr slash es"

definition root_elems :: "string \<Rightarrow> string list" where
  "root_elems root = tl (Split slash root)"

text \<open>A root directory as the theorems assume it: absolute and clean.\<close>

definition ok_root :: "string \<Rightarrow> bool" where
  "ok_root root \<longleftrightarrow> root = abs_of (root_elems root) \<and> root_elems root \<noteq> [] \<and>
     list_all proper_name (root_elems root)"

lemma proper_slash: "list_all proper_name es \<Longrightarrow> p \<in> set es \<Longrightarrow> slash \<notin> set p"
  by (auto simp: list_all_iff proper_name_def)

lemma Split_abs_of: "es \<noteq> [] \<Longrightarrow> list_all proper_name es \<Longrightarrow> Split slash (abs_of es) = [] # es"
  using Split_JoinStr [of es slash] proper_slash [of es] by (simp add: abs_of_def)

lemma clean_abs: "list_all proper_name es \<Longrightarrow> clean_elems True [] ([] # es) = es"
  using clean_elems_id by simp

lemma Clean_abs_of [simp]: "list_all proper_name es \<Longrightarrow> path_Clean (abs_of es) = abs_of es"
proof (cases "es = []")
  case False
  assume "list_all proper_name es"
  moreover have "abs_of es \<noteq> []" "hd (abs_of es) = slash" by (simp_all add: abs_of_def)
  ultimately show ?thesis
    using False by (simp add: path_Clean_def Split_abs_of clean_elems_id Let_def) (simp add: abs_of_def)
qed (simp add: abs_of_def path_Clean_def)

lemma fs_key_abs_of [simp]: "list_all proper_name es \<Longrightarrow> fs_key f (abs_of es) = es"
  by (cases "es = []")
    (simp_all add: fs_key_def IsAbs_def Split_abs_of clean_elems_id, simp_all add: abs_of_def)

lemma Split_safe: "safe_path p \<Longrightarrow> list_all proper_name (Split slash p)"
  by (simp add: safe_path_def)

lemma Join_abs_of:
  assumes "list_all proper_name es" "safe_path p"
  shows "path_Join [abs_of es, p] = abs_of (es @ Split slash p)"
proof -
  have ne: "p \<noteq> []" "abs_of es \<noteq> []" using safe_path_nonempty [OF assms(2)] by (simp_all add: abs_of_def)
  have s: "Split slash (abs_of es @ slash # p) = [] # (if es = [] then [[]] else es) @ Split slash p"
    using Split_abs_of [OF _ assms(1)] by (auto simp: Split_append_sep abs_of_def)
  have c: "clean_elems True [] (Split slash (abs_of es @ slash # p)) = es @ Split slash p"
    unfolding s using assms(1) Split_safe [OF assms(2)]
    by (cases "es = []") (auto simp: clean_elems_id)
  show ?thesis using ne c by (simp add: path_Join_def path_Clean_def Let_def abs_of_def)
qed

lemma Dir_abs_of:
  assumes "es \<noteq> []" "list_all proper_name es"
  shows "path_Dir (abs_of es) = abs_of (butlast es)"
proof -
  have b: "list_all proper_name (butlast es)" using assms(2) by (auto simp: list_all_iff dest: in_set_butlastD)
  have "Split slash (abs_of es) = ([] # butlast es) @ [last es]" using assms by (simp add: Split_abs_of)
  from path_Split_dir_Join [OF this]
  have d: "path_Split_dir (abs_of es) = (if butlast es = [] then abs_of [] else abs_of (butlast es) @ [slash])"
    by (simp add: abs_of_def JoinStr_Cons)
  show ?thesis
  proof (cases "butlast es = []")
    case True
    then show ?thesis using d by (simp add: path_Dir_def)
  next
    case False
    have "Split slash (abs_of (butlast es) @ [slash]) = [] # butlast es @ [[]]"
      using Split_append_sep [of slash "abs_of (butlast es)" "[]"] Split_abs_of [OF False b] by simp
    moreover have "clean_elems True [] (butlast es @ [[]]) = butlast es"
      using b clean_elems_append by (simp add: clean_elems_proper proper_no_dotdot filter_proper_id list_all_append)
    ultimately show ?thesis using d False
      by (simp add: path_Dir_def path_Clean_def Let_def abs_of_def)
  qed
qed

lemma Base_abs_of:
  assumes "es \<noteq> []" "list_all proper_name es"
  shows "path_Base (abs_of es) = last es"
proof -
  have l: "proper_name (last es)" using assms by (simp add: list_all_iff)
  have e: "abs_of es = abs_of (butlast es) @ (if butlast es = [] then [] else [slash]) @ last es"
    using assms(1) JoinStr_append [of "butlast es" "[last es]" slash]
    by (cases es rule: rev_cases) (auto simp: abs_of_def)
  have "rev (last es) \<noteq> [] \<and> hd (rev (last es)) \<noteq> slash"
    using l by (cases "last es" rule: rev_cases) (auto simp: proper_name_def)
  then have "strip_slashes (rev (abs_of es)) = rev (abs_of es)"
    by (intro strip_slashes_id) (simp add: e hd_append)
  then show ?thesis using assms by (simp add: path_Base_def Split_abs_of Let_def) (simp add: abs_of_def)
qed

lemma clean_rooted_proper:
  "list_all proper_name out \<Longrightarrow> \<forall>e \<in> set xs. slash \<notin> set e \<Longrightarrow>
    list_all proper_name (clean_elems True out xs)"
proof (induction xs arbitrary: out)
  case (Cons x xs)
  show ?case
  proof (cases "x = [] \<or> x = ''.'' \<or> x = ''..''")
    case True
    with Cons show ?thesis by (cases out) (auto simp: proper_name_def)
  next
    case False
    with Cons show ?thesis by (simp add: proper_name_def)
  qed
qed (simp add: list_all_iff)

lemma starts_with_append: "starts_with es fe \<longleftrightarrow> (\<exists>rest. fe = es @ rest)"
  unfolding starts_with_def by (metis append_eq_conv_conj)

lemma HasPrefix_abs_of:
  assumes "es \<noteq> []" "list_all proper_name es" "list_all proper_name fe"
  shows "HasPrefix (abs_of fe) (abs_of es @ ''/'') \<or> abs_of fe = abs_of es \<longleftrightarrow> starts_with es fe"
proof
  assume "HasPrefix (abs_of fe) (abs_of es @ ''/'') \<or> abs_of fe = abs_of es"
  then show "starts_with es fe"
  proof
    assume "HasPrefix (abs_of fe) (abs_of es @ ''/'')"
    then obtain t where t: "abs_of fe = abs_of es @ slash # t" by (auto simp: HasPrefix_iff)
    then have "fe \<noteq> []" using assms(1) by (auto simp: abs_of_def)
    then have "[] # fe = ([] # es) @ Split slash t"
      using arg_cong [OF t, of "Split slash"] assms by (simp add: Split_append_sep Split_abs_of)
    then show ?thesis by (simp add: starts_with_append)
  next
    assume "abs_of fe = abs_of es"
    then have "fs_key f (abs_of fe) = fs_key f (abs_of es)" for f :: fs by simp
    then show ?thesis using assms(2,3) by (simp add: starts_with_def)
  qed
next
  assume "starts_with es fe"
  then obtain rest where r: "fe = es @ rest" by (auto simp: starts_with_append)
  show "HasPrefix (abs_of fe) (abs_of es @ ''/'') \<or> abs_of fe = abs_of es"
    using r assms(1) JoinStr_append [of es rest slash]
    by (cases "rest = []") (auto simp: abs_of_def HasPrefix_iff)
qed

text \<open>Where nothing is a symbolic link, resolving the deepest existing ancestor gives the path
  back, and the loop ends at the file system root at the latest.\<close>

lemma EvalSymlinks_abs_of:
  "list_all proper_name ds \<Longrightarrow> EvalSymlinks f (abs_of ds) = Inr r \<Longrightarrow> r = abs_of ds"
  by (auto simp: EvalSymlinks_def split: sum.splits)

lemma EvalSymlinks_root: "EvalSymlinks f (abs_of []) = Inr (abs_of [])"
  by (simp add: EvalSymlinks_def os_Stat_def under_file_def fs_get_def Let_def)

lemma resolve_loop_abs:
  assumes "list_all proper_name (ds @ ts)" "length ds < n"
  shows "resolve_loop n (EvalSymlinks f) (abs_of (ds @ ts)) (abs_of ds) (JoinStr slash ts) = Some (abs_of (ds @ ts))"
  using assms
proof (induction n arbitrary: ds ts)
  case (Suc n)
  have p: "list_all proper_name ds" "list_all proper_name ts" using Suc.prems(1) by (simp_all add: list_all_append)
  have ts: "ts \<noteq> [] \<Longrightarrow> JoinStr slash ts \<noteq> [] \<and> path_Join [abs_of ds, JoinStr slash ts] = abs_of (ds @ ts)"
    using Join_abs_of [OF p(1) safe_path_JoinStr [OF p(2)]] safe_path_nonempty [OF safe_path_JoinStr [OF p(2)]]
      Split_JoinStr [of ts slash] proper_slash [OF p(2)] by simp
  show ?case
  proof (cases "EvalSymlinks f (abs_of ds)")
    case (Inr r)
    with EvalSymlinks_abs_of [OF p(1) Inr] ts show ?thesis by (cases "ts = []") auto
  next
    case (Inl e)
    then have ne: "ds \<noteq> []" using EvalSymlinks_root [of f] by auto
    have dir: "path_Dir (abs_of ds) = abs_of (butlast ds)" "path_Base (abs_of ds) = last ds"
      using ne p(1) by (simp_all add: Dir_abs_of Base_abs_of)
    have l: "proper_name (last ds)" using ne p(1) by (simp add: list_all_iff)
    have tail: "path_Join [last ds, JoinStr slash ts] = JoinStr slash (last ds # ts)"
    proof (cases "ts = []")
      case True
      have "safe_path (last ds)" using safe_path_JoinStr [of "[last ds]"] l by simp
      with True l show ?thesis by (simp add: path_Join_def safe_path_Clean proper_name_def)
    next
      case False
      then have "path_Join [last ds, JoinStr slash ts] = path_Clean (JoinStr slash (last ds # ts))"
        using ts l by (simp add: path_Join_def proper_name_def JoinStr_Cons)
      with safe_path_JoinStr [of "last ds # ts"] l p(2) show ?thesis by (simp add: safe_path_Clean)
    qed
    have "abs_of (butlast ds) \<noteq> abs_of ds"
    proof
      assume "abs_of (butlast ds) = abs_of ds"
      then have "fs_key (f :: 'a fs_scheme) (abs_of (butlast ds)) = fs_key f (abs_of ds)" by simp
      moreover have "list_all proper_name (butlast ds)"
        using p(1) by (auto simp: list_all_iff dest: in_set_butlastD)
      ultimately have "butlast ds = ds" using p(1) by simp
      from arg_cong [OF this, of length] ne show False by (cases ds rule: rev_cases) auto
    qed
    moreover have e: "butlast ds @ last ds # ts = ds @ ts"
      using append_butlast_last_id [OF ne] by (metis append.assoc append_Cons append_Nil)
    moreover have "length (butlast ds) < n" using Suc.prems(2) ne by (cases ds) auto
    ultimately show ?thesis
      using Inl dir tail Suc.IH [of "butlast ds" "last ds # ts", unfolded e] Suc.prems(1)
      by (simp add: Let_def)
  qed
qed simp

lemma validatePath_abs:
  assumes r: "ok_root rootDir" and fe: "list_all proper_name fe" and full: "getFullPath rootDir path = abs_of fe"
  shows "validatePath rootDir path f = Inr () \<longleftrightarrow> starts_with (root_elems rootDir) fe"
proof -
  let ?es = "root_elems rootDir"
  have es: "rootDir = abs_of ?es" "?es \<noteq> []" "list_all proper_name ?es" using r by (auto simp: ok_root_def)
  have a: "filepath_Abs f (abs_of xs) = Inr (abs_of xs)" if "list_all proper_name xs" for xs
    using that by (simp add: filepath_Abs_def IsAbs_def) (simp add: abs_of_def)
  have rt: "(case EvalSymlinks f rootDir of Inr r \<Rightarrow> r | Inl _ \<Rightarrow> rootDir) = rootDir"
    using EvalSymlinks_abs_of [OF es(3), of f, folded es(1)] by (auto split: sum.splits)
  have ar: "filepath_Abs f rootDir = Inr rootDir" using a [OF es(3)] es(1) by simp
  have "length fe < Suc (length (abs_of fe))"
  proof -
    have "length es \<le> Suc (length (JoinStr c es))" for es c
      by (induction c es rule: JoinStr.induct) auto
    from this [of fe slash] show ?thesis by (simp add: abs_of_def)
  qed
  then have rs: "resolveExistingAncestor (EvalSymlinks f) (abs_of fe) = Some (abs_of fe)"
    using resolve_loop_abs [of fe "[]"] fe unfolding resolveExistingAncestor_def
    by (simp del: resolve_loop.simps)
  have tg: "(case EvalSymlinks f (abs_of fe) of Inr r \<Rightarrow> r
       | Inl _ \<Rightarrow> (case resolveExistingAncestor (EvalSymlinks f) (abs_of fe) of Some r \<Rightarrow> r | None \<Rightarrow> abs_of fe))
     = abs_of fe"
    using EvalSymlinks_abs_of [OF fe] rs by (auto split: sum.splits)
  have "validatePath rootDir path f = Inr () \<longleftrightarrow>
      HasPrefix (abs_of fe) (rootDir @ ''/'') \<or> abs_of fe = rootDir"
    unfolding validatePath_def ValidatePath_def full ar a [OF fe] sum.case Let_def rt tg
    using fe by simp
  with HasPrefix_abs_of [OF es(2,3) fe, folded es(1)] show ?thesis by simp
qed

lemma getFullPath_elems:
  assumes "ok_root rootDir"
  shows "\<exists>fe. list_all proper_name fe \<and> getFullPath rootDir path = abs_of fe \<and>
    fe = clean_elems True [] (root_elems rootDir @ Split slash path)"
proof -
  let ?es = "root_elems rootDir"
  let ?fe = "clean_elems True [] (?es @ Split slash path)"
  have es: "rootDir = abs_of ?es" "?es \<noteq> []" "list_all proper_name ?es" using assms by (auto simp: ok_root_def)
  have ns: "\<forall>e \<in> set (?es @ Split slash path). slash \<notin> set e"
    using proper_slash [OF es(3)] Split_parts_no_sep [of _ slash path] by auto
  have ne: "abs_of ?es \<noteq> []" by (simp add: abs_of_def)
  have "getFullPath rootDir path = abs_of ?fe"
  proof (cases "path = []")
    case True
    have "?fe = ?es"
      using True es(3) by (simp add: clean_elems_append proper_no_dotdot filter_proper_id)
    moreover have "path_Clean rootDir = rootDir" using Clean_abs_of [OF es(3)] es(1) by simp
    ultimately show ?thesis using True es(1) ne by (simp add: getFullPath_def path_Join_def)
  next
    case False
    have s: "Split slash (abs_of ?es @ slash # path) = [] # ?es @ Split slash path"
      using Split_append_sep [of slash "abs_of ?es" path] Split_abs_of [OF es(2,3)] by simp
    have "getFullPath rootDir path = path_Clean (abs_of ?es @ slash # path)"
      using es(1) False ne by (simp add: getFullPath_def path_Join_def)
    also have "\<dots> = abs_of ?fe"
      using s by (simp add: path_Clean_def abs_of_def Let_def)
    finally show ?thesis .
  qed
  with clean_rooted_proper [OF _ ns, of "[]"] show ?thesis by auto
qed

lemma getFullPath_safe:
  assumes "ok_root rootDir" "safe_path p"
  shows "getFullPath rootDir p = abs_of (root_elems rootDir @ Split slash p)"
    and "list_all proper_name (root_elems rootDir @ Split slash p)"
    and "validatePath rootDir p f = Inr ()"
proof -
  have es: "list_all proper_name (root_elems rootDir)" using assms(1) by (simp add: ok_root_def)
  show l: "list_all proper_name (root_elems rootDir @ Split slash p)"
    using es Split_safe [OF assms(2)] by simp
  show g: "getFullPath rootDir p = abs_of (root_elems rootDir @ Split slash p)"
    using Join_abs_of [OF es assms(2)] assms(1) by (simp add: getFullPath_def ok_root_def)
  show "validatePath rootDir p f = Inr ()"
    using validatePath_abs [OF assms(1) l g] by (simp add: starts_with_append)
qed

end
