(* ===== verification/Dist_Lock.thy ===== *)
theory Dist_Lock
  imports Prelude "HOL-Library.Word"
begin

text \<open>
  \<open>src/internal/distributed/lock.go\<close>: the interface \<open>DistributedLock\<close>, its
  in-process implementation \<open>LocalDistributedLock\<close>, the retry loop
  \<open>AcquireLock\<close> with exponential back-off and jitter, and the renewal goroutine of
  \<open>AcquireLockWithRenewal\<close>.  Every operation runs under the struct's mutex, so it is
  one atomic step on the map of lock entries; the clock and the random token are arguments.  A
  call of \<open>AcquireLock\<close> interleaves with other clients while it sleeps: what they do to
  the lock table during the i-th delay is the function \<open>ae_wait (env i)\<close>.

  The interface is the locale \<open>dist_lock\<close>, interpreted by the local implementation.
\<close>

unbundle bit_operations_syntax

section \<open>The interface\<close>

record 's DistributedLock =
  dl_Lock :: "string \<Rightarrow> gotime \<Rightarrow> string \<Rightarrow> int \<Rightarrow> 's \<Rightarrow> string res \<times> 's"
    \<comment> \<open>fresh token, time, key, ttl\<close>
  dl_Unlock :: "gotime \<Rightarrow> string \<Rightarrow> string \<Rightarrow> 's \<Rightarrow> unit res \<times> 's"
    \<comment> \<open>time, key, token\<close>
  dl_Extend :: "gotime \<Rightarrow> string \<Rightarrow> string \<Rightarrow> int \<Rightarrow> 's \<Rightarrow> unit res \<times> 's"
    \<comment> \<open>time, key, token, ttl\<close>

section \<open>LocalDistributedLock\<close>

record localLockEntry =
  le_token :: string
  le_expiry :: gotime

type_synonym locks = "string \<rightharpoonup> localLockEntry"

definition expiredLocked :: "gotime \<Rightarrow> localLockEntry \<Rightarrow> bool" where
  "expiredLocked now e \<longleftrightarrow> le_expiry e \<noteq> 0 \<and> le_expiry e < now"

definition NewLocalDistributedLock :: locks where
  "NewLocalDistributedLock = Map.empty"

definition Local_Lock :: "string \<Rightarrow> gotime \<Rightarrow> string \<Rightarrow> int \<Rightarrow> locks \<Rightarrow> string res \<times> locks" where
  "Local_Lock token now key ttl l =
     (let grant = (\<lambda>l'. (Inr token,
            l'(key \<mapsto> \<lparr>le_token = token, le_expiry = (if 0 < ttl then now + ttl else 0)\<rparr>)))
      in case l key of
           Some e \<Rightarrow> if expiredLocked now e then grant (l(key := None)) else (Inl ErrLockConflict, l)
         | None \<Rightarrow> grant l)"

definition Local_Unlock :: "gotime \<Rightarrow> string \<Rightarrow> string \<Rightarrow> locks \<Rightarrow> unit res \<times> locks" where
  "Local_Unlock now key token l =
     (case l key of
        None \<Rightarrow> (Inl ErrLockNotHeld, l)
      | Some e \<Rightarrow>
          if expiredLocked now e then (Inl ErrLockNotHeld, l(key := None))
          else if le_token e \<noteq> token then (Inl ErrLockNotHeld, l)
          else (Inr (), l(key := None)))"

definition Local_Extend :: "gotime \<Rightarrow> string \<Rightarrow> string \<Rightarrow> int \<Rightarrow> locks \<Rightarrow> unit res \<times> locks" where
  "Local_Extend now key token ttl l =
     (case l key of
        None \<Rightarrow> (Inl ErrLockNotHeld, l)
      | Some e \<Rightarrow>
          if expiredLocked now e then (Inl ErrLockNotHeld, l(key := None))
          else if le_token e \<noteq> token then (Inl ErrLockNotHeld, l)
          else (Inr (), if 0 < ttl then l(key \<mapsto> e\<lparr>le_expiry := now + ttl\<rparr>) else l))"

definition LocalDistributedLock :: "locks DistributedLock" where
  "LocalDistributedLock =
     \<lparr>dl_Lock = Local_Lock, dl_Unlock = Local_Unlock, dl_Extend = Local_Extend\<rparr>"

section \<open>LockGuard\<close>

record LockGuard =
  lg_key :: string
  lg_token :: string

definition LockGuard_Unlock :: "'s DistributedLock \<Rightarrow> gotime \<Rightarrow> LockGuard \<Rightarrow> 's \<Rightarrow> unit res \<times> 's" where
  "LockGuard_Unlock dl now lg s = dl_Unlock dl now (lg_key lg) (lg_token lg) s"

section \<open>Random jitter and the retry loop\<close>

text \<open>The value the 8 random bytes encode, big-endian, as an \<open>int64\<close>.\<close>

definition rand_value :: "8 word list \<Rightarrow> int" where
  "rand_value b =
     sint (push_bit 56 (ucast (b ! 0)) OR push_bit 48 (ucast (b ! 1))
           OR push_bit 40 (ucast (b ! 2)) OR push_bit 32 (ucast (b ! 3))
           OR push_bit 24 (ucast (b ! 4)) OR push_bit 16 (ucast (b ! 5))
           OR push_bit 8 (ucast (b ! 6)) OR ucast (b ! 7) :: 64 word)"

definition randInt63n :: "8 word list \<Rightarrow> int \<Rightarrow> int" where
  "randInt63n b n =
     (if n \<le> 0 then 0
      else let v = rand_value b;
               v' = (if v < 0 then wrap64 (- v) else v)
           in go_rem v' n)"

abbreviation second :: int where "second \<equiv> 1000000000"
abbreviation millisecond :: int where "millisecond \<equiv> 1000000"

definition retry_delay :: "int \<Rightarrow> nat \<Rightarrow> 8 word list \<Rightarrow> int" where
  "retry_delay baseDelay i b =
     (if i > 0 then
        let backoff0 = wrap64 (wrap64 (2 ^ (i - 1)) * baseDelay);
            backoff = (if 2 * second < backoff0 then 2 * second else backoff0);
            jitter = randInt63n b (go_quot backoff 2)
        in wrap64 (backoff + jitter)
      else baseDelay)"

record 's acq_env =
  ae_now :: gotime
  ae_token :: string
  ae_rand :: "8 word list"
  ae_done :: bool
  ae_wait :: "'s \<Rightarrow> 's"

fun AcquireLock_loop ::
  "'s DistributedLock \<Rightarrow> (nat \<Rightarrow> 's acq_env) \<Rightarrow> string \<Rightarrow> int \<Rightarrow> int \<Rightarrow> nat \<Rightarrow> nat \<Rightarrow> err option
    \<Rightarrow> 's \<Rightarrow> string res \<times> 's \<times> int list"
where
  "AcquireLock_loop dl env key ttl baseDelay i 0 lastErr s =
     (Inl (case lastErr of None \<Rightarrow> Errorf ''failed to acquire lock after retries''
           | Some e \<Rightarrow> Wrapf ''failed to acquire lock after retries'' e), s, [])"
| "AcquireLock_loop dl env key ttl baseDelay i (Suc n) lastErr s =
     (case dl_Lock dl (ae_token (env i)) (ae_now (env i)) key ttl s of
        (Inr token, s1) \<Rightarrow> (Inr token, s1, [])
      | (Inl e, s1) \<Rightarrow>
          if \<not> errors_Is e ErrLockConflict then (Inl e, s1, [])
          else let delay = retry_delay baseDelay i (ae_rand (env i))
               in if ae_done (env i) then (Inl ErrContext, s1, [delay])
                  else case AcquireLock_loop dl env key ttl baseDelay (Suc i) n (Some e)
                              (ae_wait (env i) s1) of
                         (r, s2, ds) \<Rightarrow> (r, s2, delay # ds))"

definition AcquireLock ::
  "'s DistributedLock \<Rightarrow> (nat \<Rightarrow> 's acq_env) \<Rightarrow> string \<Rightarrow> int \<Rightarrow> int \<Rightarrow> int \<Rightarrow> 's
    \<Rightarrow> string res \<times> 's \<times> int list"
where
  "AcquireLock dl env key ttl retryCount retryDelay s =
     AcquireLock_loop dl env key ttl retryDelay 0 (nat retryCount) None s"

section \<open>Contexts and the renewal goroutine\<close>

text \<open>The part of Go's package \<open>context\<close> the callers use: a context is done when it or
  an ancestor is cancelled or past its deadline.\<close>

datatype ctx = Background | WithCancel nat ctx | WithTimeout nat gotime ctx

fun ctx_done :: "nat set \<Rightarrow> gotime \<Rightarrow> ctx \<Rightarrow> bool" where
  "ctx_done cancelled now Background = False"
| "ctx_done cancelled now (WithCancel i c) = (i \<in> cancelled \<or> ctx_done cancelled now c)"
| "ctx_done cancelled now (WithTimeout i d c) =
     (i \<in> cancelled \<or> d \<le> now \<or> ctx_done cancelled now c)"

record renewal =
  rn_ctx :: ctx
  rn_key :: string
  rn_token :: string
  rn_ttl :: int
  rn_interval :: int
  rn_next :: gotime
  rn_running :: bool

definition renew_interval :: "int \<Rightarrow> int" where
  "renew_interval ttl =
     (let interval = go_quot ttl 3 in if interval < 2 * second then 2 * second else interval)"

text \<open>The goroutine as it is started at time \<open>now\<close>, right after the lock was
  acquired; \<open>i\<close> identifies the cancel function returned to the caller.\<close>

definition start_renewal :: "ctx \<Rightarrow> nat \<Rightarrow> gotime \<Rightarrow> string \<Rightarrow> string \<Rightarrow> int \<Rightarrow> renewal" where
  "start_renewal ctx i now key token ttl =
     \<lparr>rn_ctx = WithCancel i ctx, rn_key = key, rn_token = token, rn_ttl = ttl,
      rn_interval = renew_interval ttl, rn_next = now + renew_interval ttl, rn_running = True\<rparr>"

definition AcquireLockWithRenewal ::
  "'s DistributedLock \<Rightarrow> (nat \<Rightarrow> 's acq_env) \<Rightarrow> ctx \<Rightarrow> nat \<Rightarrow> gotime \<Rightarrow> string \<Rightarrow> int \<Rightarrow> int \<Rightarrow> int
    \<Rightarrow> 's \<Rightarrow> (string \<times> renewal) res \<times> 's"
where
  "AcquireLockWithRenewal dl env ctx i now key ttl retryCount retryDelay s =
     (case AcquireLock dl env key ttl retryCount retryDelay s of
        (Inl e, s1, ds) \<Rightarrow> (Inl e, s1)
      | (Inr token, s1, ds) \<Rightarrow> (Inr (token, start_renewal ctx i now key token ttl), s1))"

text \<open>One wake-up of the goroutine at time \<open>now\<close>: the \<open>select\<close> takes a ready
  case, and \<open>pick\<close> decides when both the tick and the end of the context are ready.\<close>

definition renew_step ::
  "'s DistributedLock \<Rightarrow> nat set \<Rightarrow> gotime \<Rightarrow> bool \<Rightarrow> renewal \<times> 's \<Rightarrow> renewal \<times> 's"
where
  "renew_step dl cancelled now pick rs =
     (case rs of (r, s) \<Rightarrow>
        if \<not> rn_running r then (r, s)
        else let tick = (rn_next r \<le> now); stop = ctx_done cancelled now (rn_ctx r)
             in if tick \<and> (stop \<longrightarrow> pick) then
                  (case dl_Extend dl now (rn_key r) (rn_token r) (rn_ttl r) s of
                     (Inl e, s1) \<Rightarrow> (r\<lparr>rn_running := False\<rparr>, s1)
                   | (Inr _, s1) \<Rightarrow> (r\<lparr>rn_next := rn_next r + rn_interval r\<rparr>, s1))
                else if stop then (r\<lparr>rn_running := False\<rparr>, s)
                else (r, s))"

section \<open>The contract of a lock\<close>

text \<open>\<open>holder n key s\<close> is the token that owns \<open>key\<close> at time \<open>n\<close>, if any.\<close>

definition Local_holder :: "gotime \<Rightarrow> string \<Rightarrow> locks \<Rightarrow> string option" where
  "Local_holder n key l =
     (case l key of None \<Rightarrow> None | Some e \<Rightarrow> if expiredLocked n e then None else Some (le_token e))"

text \<open>The calls other clients make: an interleaving is a list of these.\<close>

datatype lock_op =
    LockOp gotime string string int
  | UnlockOp gotime string string
  | ExtendOp gotime string string int

fun op_time :: "lock_op \<Rightarrow> gotime" where
  "op_time (LockOp now tok key ttl) = now"
| "op_time (UnlockOp now key tok) = now"
| "op_time (ExtendOp now key tok ttl) = now"

text \<open>Whether a call presents the token \<open>tok\<close> for \<open>key\<close>.\<close>

fun op_presents :: "string \<Rightarrow> string \<Rightarrow> lock_op \<Rightarrow> bool" where
  "op_presents key tok (LockOp now t k ttl) = False"
| "op_presents key tok (UnlockOp now k t) = (k = key \<and> t = tok)"
| "op_presents key tok (ExtendOp now k t ttl) = (k = key \<and> t = tok)"

fun run_op :: "'s DistributedLock \<Rightarrow> lock_op \<Rightarrow> 's \<Rightarrow> err option \<times> 's" where
  "run_op dl (LockOp now tok key ttl) s =
     (case dl_Lock dl tok now key ttl s of (Inl e, s1) \<Rightarrow> (Some e, s1) | (Inr _, s1) \<Rightarrow> (None, s1))"
| "run_op dl (UnlockOp now key tok) s =
     (case dl_Unlock dl now key tok s of (Inl e, s1) \<Rightarrow> (Some e, s1) | (Inr _, s1) \<Rightarrow> (None, s1))"
| "run_op dl (ExtendOp now key tok ttl) s =
     (case dl_Extend dl now key tok ttl s of (Inl e, s1) \<Rightarrow> (Some e, s1) | (Inr _, s1) \<Rightarrow> (None, s1))"

fun run_ops :: "'s DistributedLock \<Rightarrow> lock_op list \<Rightarrow> 's \<Rightarrow> err option list \<times> 's" where
  "run_ops dl [] s = ([], s)"
| "run_ops dl (p # ps) s =
     (case run_op dl p s of (r, s1) \<Rightarrow> case run_ops dl ps s1 of (rs, s2) \<Rightarrow> (r # rs, s2))"

fun lock_attempt :: "string \<Rightarrow> lock_op \<Rightarrow> bool" where
  "lock_attempt key (LockOp now tok k ttl) = (k = key)"
| "lock_attempt key p = False"

text \<open>A schedule of the renewal goroutine: what other clients do before each wake-up, and when
  the wake-up happens.\<close>

fun renew_sched ::
  "'s DistributedLock \<Rightarrow> nat set \<Rightarrow> (lock_op list \<times> gotime) list \<Rightarrow> renewal \<times> 's \<Rightarrow> renewal \<times> 's"
where
  "renew_sched dl cancelled [] rs = rs"
| "renew_sched dl cancelled ((ops, t) # xs) rs =
     renew_sched dl cancelled xs
       (renew_step dl cancelled t True (fst rs, snd (run_ops dl ops (snd rs))))"

fun sched_ok :: "nat set \<Rightarrow> renewal \<Rightarrow> gotime \<Rightarrow> (lock_op list \<times> gotime) list \<Rightarrow> bool" where
  "sched_ok cancelled r prev [] = True"
| "sched_ok cancelled r prev ((ops, t) # xs) =
     (prev \<le> t \<and> rn_next r \<le> t \<and> t \<le> prev + rn_ttl r \<and> \<not> ctx_done cancelled t (rn_ctx r) \<and>
      list_all (\<lambda>p. prev \<le> op_time p \<and> op_time p \<le> t \<and>
                    \<not> op_presents (rn_key r) (rn_token r) p) ops \<and>
      sched_ok cancelled (r\<lparr>rn_next := rn_next r + rn_interval r\<rparr>) t xs)"

text \<open>
  What a client may rely on even when requests to the lock service get lost: a call that reports
  an error may or may not have taken effect.  Only the present and the future of a key count, so
  the laws speak of times from the call on.  \<open>life ttl\<close> says that the service keeps
  entries for the duration \<open>ttl\<close> exactly.
\<close>

locale lock_service =
  fixes dl :: "'s DistributedLock"
    and holder :: "gotime \<Rightarrow> string \<Rightarrow> 's \<Rightarrow> string option"
    and life :: "int \<Rightarrow> bool"
  assumes granted: "dl_Lock dl tok now key ttl s = (Inr t, s') \<Longrightarrow>
      t = tok \<and> holder now key s = None \<and>
      (life ttl \<longrightarrow> (\<forall>n. now \<le> n \<and> (0 < ttl \<longrightarrow> n \<le> now + ttl) \<longrightarrow> holder n key s' = Some tok))"
    and lock_held: "holder now key s = Some t \<Longrightarrow> dl_Lock dl tok now key ttl s = (r, s') \<Longrightarrow>
      isl r \<and> (\<forall>n\<ge>now. holder n key s' = holder n key s)"
    and lock_other: "dl_Lock dl tok now key ttl s = (r, s') \<Longrightarrow> k \<noteq> key \<Longrightarrow> now \<le> n \<Longrightarrow>
      holder n k s' = holder n k s"
    and unlock_held: "holder now key s = Some t \<Longrightarrow> t \<noteq> tok \<Longrightarrow>
      dl_Unlock dl now key tok s = (r', s') \<Longrightarrow>
      isl r' \<and> (\<forall>n\<ge>now. holder n key s' = holder n key s)"
    and unlock_other: "dl_Unlock dl now key tok s = (r', s') \<Longrightarrow> k \<noteq> key \<Longrightarrow> now \<le> n \<Longrightarrow>
      holder n k s' = holder n k s"
    and extended: "holder now key s = Some tok \<Longrightarrow> dl_Extend dl now key tok ttl s = (Inr (), s') \<Longrightarrow>
      life ttl \<Longrightarrow> 0 < ttl \<Longrightarrow> now \<le> n \<Longrightarrow> n \<le> now + ttl \<Longrightarrow> holder n key s' = Some tok"
    and extend_held: "holder now key s = Some t \<Longrightarrow> t \<noteq> tok \<Longrightarrow>
      dl_Extend dl now key tok ttl s = (r', s') \<Longrightarrow>
      isl r' \<and> (\<forall>n\<ge>now. holder n key s' = holder n key s)"
    and extend_other: "dl_Extend dl now key tok ttl s = (r', s') \<Longrightarrow> k \<noteq> key \<Longrightarrow> now \<le> n \<Longrightarrow>
      holder n k s' = holder n k s"
begin

text \<open>The retry loop returns a token only when the lock was free at that moment and is now
  owned by that token, after one delay per failed attempt.\<close>

lemma AcquireLock_loop_holds:
  "AcquireLock_loop dl env key ttl base i n lastErr s = (Inr t, s', ds) \<Longrightarrow> life ttl \<Longrightarrow>
   \<exists>j. i \<le> j \<and> j < i + n \<and> length ds = j - i \<and> t = ae_token (env j) \<and>
       (\<forall>m. ae_now (env j) \<le> m \<and> (0 < ttl \<longrightarrow> m \<le> ae_now (env j) + ttl) \<longrightarrow>
            holder m key s' = Some t)"
proof (induction n arbitrary: i lastErr s ds)
  case (Suc n)
  obtain r s1 where l: "dl_Lock dl (ae_token (env i)) (ae_now (env i)) key ttl s = (r, s1)"
    by fastforce
  show ?case
  proof (cases r)
    case (Inr u)
    with Suc.prems l have "t = u" "s' = s1" "ds = []" by auto
    with granted [OF l [unfolded Inr]] Suc.prems(2)
    show ?thesis by (intro exI [of _ i]) auto
  next
    case (Inl e)
    with Suc.prems l obtain ds' where rec:
      "AcquireLock_loop dl env key ttl base (Suc i) n (Some e) (ae_wait (env i) s1)
         = (Inr t, s', ds')" and len: "length ds = Suc (length ds')"
      by (auto simp: Let_def split: if_splits prod.splits)
    from Suc.IH [OF rec Suc.prems(2)] obtain j where j: "Suc i \<le> j" "j < Suc i + n"
      "length ds' = j - Suc i" "t = ae_token (env j)"
      "\<forall>m. ae_now (env j) \<le> m \<and> (0 < ttl \<longrightarrow> m \<le> ae_now (env j) + ttl) \<longrightarrow> holder m key s' = Some t"
      by blast
    then have "i \<le> j" "j < i + Suc n" "length ds = j - i" using len by auto
    with j(4,5) show ?thesis by blast
  qed
qed simp

text \<open>While a token owns the lock, no later call of another client changes that, whether it
  succeeds or fails.\<close>

lemma held_after_op:
  assumes own: "\<forall>n. a \<le> n \<and> n \<le> b \<longrightarrow> holder n key s = Some tok"
    and p: "a \<le> op_time p" "op_time p \<le> b" "\<not> op_presents key tok p"
    and run: "run_op dl p s = (r, s')"
  shows "\<forall>n. op_time p \<le> n \<and> n \<le> b \<longrightarrow> holder n key s' = Some tok"
    and "lock_attempt key p \<Longrightarrow> r \<noteq> None"
proof -
  have h: "holder (op_time p) key s = Some tok" using own p by simp
  have kept: "\<forall>n\<ge>op_time p. holder n key s' = holder n key s"
  proof (cases p)
    case (LockOp now t k ttl)
    obtain q where "dl_Lock dl t now k ttl s = (q, s')"
      using run LockOp by (auto split: prod.splits sum.splits)
    then show ?thesis
      using LockOp h lock_held [of now key s tok t ttl q s'] lock_other [of t now k ttl s q s' key]
      by (cases "k = key") auto
  next
    case (UnlockOp now k t)
    obtain q where "dl_Unlock dl now k t s = (q, s')"
      using run UnlockOp by (auto split: prod.splits sum.splits)
    then show ?thesis
      using UnlockOp h p(3) unlock_held [of now key s tok t q s'] unlock_other [of now k t s q s' key]
      by (cases "k = key") auto
  next
    case (ExtendOp now k t ttl)
    obtain q where "dl_Extend dl now k t ttl s = (q, s')"
      using run ExtendOp by (auto split: prod.splits sum.splits)
    then show ?thesis
      using ExtendOp h p(3) extend_held [of now key s tok t ttl q s']
        extend_other [of now k t ttl s q s' key]
      by (cases "k = key") auto
  qed
  then show "\<forall>n. op_time p \<le> n \<and> n \<le> b \<longrightarrow> holder n key s' = Some tok" using own p(1) by simp
  show "lock_attempt key p \<Longrightarrow> r \<noteq> None"
    using run h lock_held by (cases p) (fastforce split: prod.splits sum.splits)+
qed

lemma held_through:
  assumes "\<forall>n. a \<le> n \<and> n \<le> b \<longrightarrow> holder n key s = Some tok"
    and "sorted (a # map op_time ps)"
    and "\<forall>p \<in> set ps. op_time p \<le> b \<and> \<not> op_presents key tok p"
    and "run_ops dl ps s = (rs, s')"
  shows "(\<forall>n. last (a # map op_time ps) \<le> n \<and> n \<le> b \<longrightarrow> holder n key s' = Some tok) \<and>
    (\<forall>(p, r) \<in> set (zip ps rs). lock_attempt key p \<longrightarrow> r \<noteq> None)"
  using assms
proof (induction ps arbitrary: a s rs)
  case (Cons p ps)
  obtain r s1 where r: "run_op dl p s = (r, s1)" by fastforce
  from Cons.prems(4) r obtain rs1 where rs1: "run_ops dl ps s1 = (rs1, s')" and "rs = r # rs1"
    by (auto split: prod.splits)
  have p: "a \<le> op_time p" "op_time p \<le> b" "\<not> op_presents key tok p"
    and srt: "sorted (op_time p # map op_time ps)"
    and rest: "\<forall>p \<in> set ps. op_time p \<le> b \<and> \<not> op_presents key tok p"
    using Cons.prems(2,3) by auto
  note st = held_after_op [OF Cons.prems(1) p r]
  from Cons.IH [OF st(1) srt rest rs1] \<open>rs = r # rs1\<close> st(2) show ?case by auto
qed simp

text \<open>Renewal: while the goroutine still runs, the lock is still owned.\<close>

lemma renew_sched_safe:
  assumes "life (rn_ttl r)" "0 < rn_ttl r"
    and "\<forall>n. t0 \<le> n \<and> n \<le> t0 + rn_ttl r \<longrightarrow> holder n (rn_key r) s = Some (rn_token r)"
    and "sched_ok cancelled r t0 xs" and "list_all (\<lambda>(ops, t). sorted (map op_time ops)) xs"
    and "renew_sched dl cancelled xs (r, s) = (r', s')" and "rn_running r'"
  shows "holder (last (t0 # map snd xs)) (rn_key r) s' = Some (rn_token r)"
  using assms
proof (induction xs arbitrary: r s t0)
  case (Cons x xs)
  obtain ops t where x: "x = (ops, t)" by fastforce
  obtain rs s1 where ops: "run_ops dl ops s = (rs, s1)" by fastforce
  have ok: "rn_next r \<le> t" "\<not> ctx_done cancelled t (rn_ctx r)" "t0 \<le> t" "t \<le> t0 + rn_ttl r"
    and opt: "\<forall>p \<in> set ops. op_time p \<le> t0 + rn_ttl r \<and> \<not> op_presents (rn_key r) (rn_token r) p"
    and srt: "sorted (t0 # map op_time ops)" and "\<forall>u \<in> set (t0 # map op_time ops). u \<le> t"
    using Cons.prems(4,5) x by (auto simp: list_all_iff)
  then have lst: "last (t0 # map op_time ops) \<le> t" by (metis last_in_set list.distinct(1))
  have own: "holder t (rn_key r) s1 = Some (rn_token r)"
    using held_through [OF Cons.prems(3) srt opt ops] ok(4) lst by blast
  obtain r2 s2 where st: "renew_step dl cancelled t True (r, s1) = (r2, s2)" by fastforce
  have fin: "renew_sched dl cancelled xs (r2, s2) = (r', s')"
    using Cons.prems(6) x ops st by simp
  have run2: "rn_running r2"
  proof (rule ccontr)
    assume "\<not> rn_running r2"
    then have "renew_sched dl cancelled xs (r2, s) = (r2, snd (renew_sched dl cancelled xs (r2, s)))" for s
      by (induction xs arbitrary: s) (auto simp: renew_step_def)
    with fin \<open>\<not> rn_running r2\<close> Cons.prems(7) show False by (metis fst_conv)
  qed
  from st run2 ok obtain u where
    ext: "dl_Extend dl t (rn_key r) (rn_token r) (rn_ttl r) s1 = (Inr u, s2)"
    and r2: "r2 = r\<lparr>rn_next := rn_next r + rn_interval r\<rparr>"
    by (auto simp: renew_step_def Let_def split: prod.splits sum.splits if_splits)
  have "\<forall>n. t \<le> n \<and> n \<le> t + rn_ttl r2 \<longrightarrow> holder n (rn_key r2) s2 = Some (rn_token r2)"
    using extended [OF own, of "rn_ttl r" s2] ext r2 Cons.prems(1,2) by simp
  from Cons.IH [OF _ _ this _ _ fin Cons.prems(7)] Cons.prems(1,2,4,5) x r2 show ?case by simp
qed simp

end

text \<open>A service that always answers, and keeps entries for every duration.\<close>

locale dist_lock =
  fixes dl :: "'s DistributedLock"
    and holder :: "gotime \<Rightarrow> string \<Rightarrow> 's \<Rightarrow> string option"
  assumes lock_free: "holder now key s = None \<Longrightarrow>
      \<exists>s'. dl_Lock dl tok now key ttl s = (Inr tok, s') \<and>
           (\<forall>n. now \<le> n \<and> (0 < ttl \<longrightarrow> n \<le> now + ttl) \<longrightarrow> holder n key s' = Some tok)"
    and lock_busy: "holder now key s = Some t \<Longrightarrow>
      dl_Lock dl tok now key ttl s = (Inl ErrLockConflict, s)"
    and lock_frame: "dl_Lock dl tok now key ttl s = (r, s') \<Longrightarrow> k \<noteq> key \<Longrightarrow>
      holder n k s' = holder n k s"
    and unlock_own: "holder now key s = Some tok \<Longrightarrow>
      \<exists>s'. dl_Unlock dl now key tok s = (Inr (), s') \<and> (\<forall>n. holder n key s' = None)"
    and unlock_foreign: "holder now key s = Some t \<Longrightarrow> t \<noteq> tok \<Longrightarrow>
      dl_Unlock dl now key tok s = (Inl ErrLockNotHeld, s)"
    and unlock_free: "holder now key s = None \<Longrightarrow>
      \<exists>s'. dl_Unlock dl now key tok s = (Inl ErrLockNotHeld, s') \<and> (\<forall>n\<ge>now. holder n key s' = None)"
    and unlock_frame: "dl_Unlock dl now key tok s = (r', s') \<Longrightarrow> k \<noteq> key \<Longrightarrow>
      holder n k s' = holder n k s"
    and extend_own: "holder now key s = Some tok \<Longrightarrow> 0 < ttl \<Longrightarrow>
      \<exists>s'. dl_Extend dl now key tok ttl s = (Inr (), s') \<and>
           (\<forall>n. now \<le> n \<and> n \<le> now + ttl \<longrightarrow> holder n key s' = Some tok)"
    and extend_foreign: "holder now key s = Some t \<Longrightarrow> t \<noteq> tok \<Longrightarrow>
      dl_Extend dl now key tok ttl s = (Inl ErrLockNotHeld, s)"
    and extend_frame: "dl_Extend dl now key tok ttl s = (r', s') \<Longrightarrow> k \<noteq> key \<Longrightarrow>
      holder n k s' = holder n k s"
begin

lemma lock_result:
  assumes "dl_Lock dl tok now key ttl s = (Inr t, s')"
  shows "t = tok" and "holder now key s = None"
    and "now \<le> n \<Longrightarrow> (0 < ttl \<Longrightarrow> n \<le> now + ttl) \<Longrightarrow> holder n key s' = Some tok"
proof -
  show none: "holder now key s = None"
    using assms lock_busy [of now key s _ tok ttl] by (cases "holder now key s") auto
  from lock_free [OF none, of tok ttl] assms
  show "t = tok" "now \<le> n \<Longrightarrow> (0 < ttl \<Longrightarrow> n \<le> now + ttl) \<Longrightarrow> holder n key s' = Some tok"
    by auto
qed

text \<open>While a token owns the lock, no call of another client changes that.\<close>

lemma owner_stable_op:
  assumes own: "\<forall>n. a \<le> n \<and> n \<le> b \<longrightarrow> holder n key s = Some tok"
    and p: "a \<le> op_time p" "op_time p \<le> b" "\<not> op_presents key tok p"
    and run: "run_op dl p s = (r, s')"
  shows "\<forall>n. a \<le> n \<and> n \<le> b \<longrightarrow> holder n key s' = Some tok"
    and "lock_attempt key p \<Longrightarrow> r = Some ErrLockConflict"
proof -
  have h: "holder (op_time p) key s = Some tok" using own p by simp
  show "\<forall>n. a \<le> n \<and> n \<le> b \<longrightarrow> holder n key s' = Some tok"
  proof (cases p)
    case (LockOp now t k ttl)
    show ?thesis
    proof (cases "k = key")
      case True
      then show ?thesis using own run h LockOp lock_busy [of now key s tok t ttl] by simp
    next
      case False
      then show ?thesis
        using own run LockOp lock_frame by (auto split: prod.splits sum.splits)
    qed
  next
    case (UnlockOp now k t)
    show ?thesis
    proof (cases "k = key")
      case True
      then show ?thesis using own run h p UnlockOp unlock_foreign [of now key s tok t] by simp
    next
      case False
      then show ?thesis
        using own run UnlockOp unlock_frame by (auto split: prod.splits sum.splits)
    qed
  next
    case (ExtendOp now k t ttl)
    show ?thesis
    proof (cases "k = key")
      case True
      then show ?thesis using own run h p ExtendOp extend_foreign [of now key s tok t ttl] by simp
    next
      case False
      then show ?thesis
        using own run ExtendOp extend_frame by (auto split: prod.splits sum.splits)
    qed
  qed
  show "lock_attempt key p \<Longrightarrow> r = Some ErrLockConflict"
    using run h lock_busy by (cases p) auto
qed

lemma owner_stable:
  assumes "\<forall>n. a \<le> n \<and> n \<le> b \<longrightarrow> holder n key s = Some tok"
    and "\<forall>p \<in> set ps. a \<le> op_time p \<and> op_time p \<le> b \<and> \<not> op_presents key tok p"
    and "run_ops dl ps s = (rs, s')"
  shows "(\<forall>n. a \<le> n \<and> n \<le> b \<longrightarrow> holder n key s' = Some tok) \<and>
    (\<forall>(p, r) \<in> set (zip ps rs). lock_attempt key p \<longrightarrow> r = Some ErrLockConflict)"
  using assms
proof (induction ps arbitrary: s rs)
  case (Cons p ps)
  obtain r s1 where r: "run_op dl p s = (r, s1)" by fastforce
  from Cons.prems(3) r obtain rs1 where rs1: "run_ops dl ps s1 = (rs1, s')" and "rs = r # rs1"
    by (auto split: prod.splits)
  have p: "a \<le> op_time p" "op_time p \<le> b" "\<not> op_presents key tok p" using Cons.prems(2) by auto
  note st = owner_stable_op [OF Cons.prems(1) p r]
  have "\<forall>p \<in> set ps. a \<le> op_time p \<and> op_time p \<le> b \<and> \<not> op_presents key tok p"
    using Cons.prems(2) by simp
  from Cons.IH [OF st(1) this rs1] \<open>rs = r # rs1\<close> st(2) show ?case by auto
qed simp

text \<open>Renewal: as long as every wake-up of the goroutine finds the lock still owned and the
  next one comes within the ttl, the lock never lapses.\<close>

lemma renew_tick:
  assumes "rn_running r" "rn_next r \<le> now" "\<not> ctx_done cancelled now (rn_ctx r)" "0 < rn_ttl r"
    and "holder now (rn_key r) s = Some (rn_token r)"
    and "renew_step dl cancelled now pick (r, s) = (r', s')"
  shows "rn_running r' \<and> rn_next r' = rn_next r + rn_interval r \<and> rn_ctx r' = rn_ctx r
    \<and> rn_key r' = rn_key r \<and> rn_token r' = rn_token r \<and> rn_ttl r' = rn_ttl r
    \<and> rn_interval r' = rn_interval r
    \<and> (\<forall>n. now \<le> n \<and> n \<le> now + rn_ttl r \<longrightarrow> holder n (rn_key r) s' = Some (rn_token r))"
  using assms extend_own [OF assms(5,4)] by (auto simp: renew_step_def)

lemma renew_sched_keeps:
  assumes "rn_running r" "0 < rn_ttl r"
    and "\<forall>n. t0 \<le> n \<and> n \<le> t0 + rn_ttl r \<longrightarrow> holder n (rn_key r) s = Some (rn_token r)"
    and "sched_ok cancelled r t0 xs"
    and "renew_sched dl cancelled xs (r, s) = (r', s')"
  shows "rn_running r' \<and> holder (last (t0 # map snd xs)) (rn_key r) s' = Some (rn_token r)"
  using assms
proof (induction xs arbitrary: r s t0)
  case Nil
  then show ?case by simp
next
  case (Cons x xs)
  obtain ops t where x: "x = (ops, t)" by fastforce
  obtain rs s1 where ops: "run_ops dl ops s = (rs, s1)" by fastforce
  have ok: "t0 \<le> t" "rn_next r \<le> t" "t \<le> t0 + rn_ttl r" "\<not> ctx_done cancelled t (rn_ctx r)"
    "\<forall>p \<in> set ops. t0 \<le> op_time p \<and> op_time p \<le> t0 + rn_ttl r \<and>
       \<not> op_presents (rn_key r) (rn_token r) p"
    using Cons.prems(4) x by (auto simp: list_all_iff)
  have own: "holder t (rn_key r) s1 = Some (rn_token r)"
    using owner_stable [OF Cons.prems(3) ok(5) ops] ok(1,3) by blast
  obtain r2 s2 where st: "renew_step dl cancelled t True (r, s1) = (r2, s2)" by fastforce
  note tick = renew_tick [OF Cons.prems(1) ok(2,4) Cons.prems(2) own st]
  have r2: "r2 = r\<lparr>rn_next := rn_next r + rn_interval r\<rparr>"
    using tick Cons.prems(1) by (cases r; cases r2) auto
  have "rn_running r' \<and> holder (last (t # map snd xs)) (rn_key r2) s' = Some (rn_token r2)"
    using Cons.IH [of r2 t s2] tick r2 Cons.prems x ops st by auto
  then show ?case using x r2 by simp
qed

end

sublocale dist_lock \<subseteq> lock_service dl holder "\<lambda>_. True"
proof (unfold_locales, goal_cases)
  case (1 tok now key ttl s t s')
  then show ?case using lock_result [OF 1] by simp
next
  case (2 now key s t tok ttl r s')
  then show ?case using lock_busy [OF 2(1), of tok ttl] by auto
next
  case (4 now key s t tok r' s')
  then show ?case using unlock_foreign [OF 4(1,2)] by auto
next
  case (6 now key s tok ttl s' n)
  then show ?case using extend_own [OF 6(1,4)] by auto
next
  case (7 now key s t tok ttl r' s')
  then show ?case using extend_foreign [OF 7(1,2), of ttl] by auto
qed (auto dest: lock_frame unlock_frame extend_frame)

lemma Local_laws:
  "dist_lock LocalDistributedLock Local_holder"
proof (unfold_locales, goal_cases)
  case (1 now key s tok ttl)
  then show ?case
    by (auto simp: LocalDistributedLock_def Local_Lock_def Local_holder_def expiredLocked_def Let_def
        split: option.splits if_splits)
qed (auto simp: LocalDistributedLock_def Local_Lock_def Local_Unlock_def Local_Extend_def
      Local_holder_def expiredLocked_def Let_def split: option.splits if_splits)

interpretation local_lock: dist_lock LocalDistributedLock Local_holder
  by (rule Local_laws)

section \<open>Properties\<close>

lemmas local_lock_defs =
  LocalDistributedLock_def Local_Lock_def Local_Unlock_def Local_Extend_def Local_holder_def
  expiredLocked_def

lemma sint_64_range: "in_int64 (sint (w :: 64 word))"
  using sint_ge [of w] sint_lt [of w] by (simp add: in_int64_def min_int64_def max_int64_def)

lemma rand_value_range: "in_int64 (rand_value b)"
  unfolding rand_value_def by (rule sint_64_range)

lemma rand_value_abs:
  "rand_value b \<noteq> min_int64 \<Longrightarrow>
    0 \<le> (if rand_value b < 0 then wrap64 (- rand_value b) else rand_value b)"
  using rand_value_range [of b]
  by (simp add: wrap64_id in_int64_def min_int64_def max_int64_def)

lemma jitter_range:
  assumes "rand_value b \<noteq> min_int64" and "0 \<le> n"
  shows "0 \<le> randInt63n b n \<and> randInt63n b n \<le> n"
proof (cases "n = 0")
  case False
  with assms(2) have "0 < n" by simp
  with rand_value_abs [OF assms(1)] show ?thesis
    by (simp add: randInt63n_def go_rem_nonneg Let_def order_less_imp_le)
qed (simp add: randInt63n_def)

text \<open>
  C9: mutual exclusion over every interleaving.  Once \<open>Lock\<close> granted a token with a
  positive ttl, then whatever other clients call during the ttl (any number of
  \<open>Lock\<close>, \<open>Unlock\<close> and \<open>Extend\<close> calls that do not present this
  token), the token still owns the key, and every attempt to lock the key got
  \<open>ErrLockConflict\<close>.
\<close>

theorem local_lock_exclusive:
  assumes "Local_Lock tok now key ttl l = (Inr tok, l1)" and "0 < ttl"
    and "\<forall>p \<in> set ops. now \<le> op_time p \<and> op_time p \<le> now + ttl \<and> \<not> op_presents key tok p"
    and "run_ops LocalDistributedLock ops l1 = (rs, l2)"
  shows "(\<forall>n. now \<le> n \<and> n \<le> now + ttl \<longrightarrow> Local_holder n key l2 = Some tok) \<and>
    (\<forall>(p, r) \<in> set (zip ops rs). lock_attempt key p \<longrightarrow> r = Some ErrLockConflict)"
proof -
  have "dl_Lock LocalDistributedLock tok now key ttl l = (Inr tok, l1)"
    using assms(1) by (simp add: LocalDistributedLock_def)
  then have "\<forall>n. now \<le> n \<and> n \<le> now + ttl \<longrightarrow> Local_holder n key l1 = Some tok"
    using local_lock.lock_result(3) by blast
  from local_lock.owner_stable [OF this assms(3,4)] show ?thesis .
qed

theorem local_lock_exclusive_witness:
  "snd (snd (let l1 = snd (Local_Lock ''t1'' 5 ''file:a'' 10 Map.empty);
        (rs, l2) = run_ops LocalDistributedLock
          [LockOp 7 ''t2'' ''file:a'' 10, UnlockOp 9 ''file:a'' ''t3''] l1
    in (l1, rs, Local_holder 15 ''file:a'' l2))) = Some ''t1''"
proof -
  let ?ops = "[LockOp 7 ''t2'' ''file:a'' 10, UnlockOp 9 ''file:a'' ''t3'']"
  obtain l1 where l: "Local_Lock ''t1'' 5 ''file:a'' 10 Map.empty = (Inr ''t1'', l1)"
    by (simp add: Local_Lock_def)
  obtain rs l2 where r: "run_ops LocalDistributedLock ?ops l1 = (rs, l2)" by fastforce
  have "\<forall>p \<in> set ?ops. 5 \<le> op_time p \<and> op_time p \<le> 5 + 10 \<and> \<not> op_presents ''file:a'' ''t1'' p"
    by simp
  from local_lock_exclusive [OF l _ this r]
  have "Local_holder 15 ''file:a'' l2 = Some ''t1''" by simp
  with l r show ?thesis by (simp del: run_ops.simps run_op.simps)
qed

text \<open>
  A lock whose ttl has passed is neither stuck nor dangerous.  After the expiry the next
  \<open>Lock\<close> succeeds, and then the former owner's late \<open>Unlock\<close> and
  \<open>Extend\<close> are refused with \<open>ErrLockNotHeld\<close> and leave the new owner's
  entry as it is.
\<close>

theorem stale_owner_is_fenced:
  assumes "l key = Some e" and "le_expiry e \<noteq> 0" and "le_expiry e < now"
    and "0 < ttl" and "tok \<noteq> le_token e" and "now \<le> n" and "n \<le> now + ttl"
  shows "\<exists>l1. Local_Lock tok now key ttl l = (Inr tok, l1)
    \<and> Local_Unlock n key (le_token e) l1 = (Inl ErrLockNotHeld, l1)
    \<and> Local_Extend n key (le_token e) ttl' l1 = (Inl ErrLockNotHeld, l1)
    \<and> Local_holder n key l1 = Some tok"
  using assms by (auto simp: local_lock_defs Let_def)

theorem stale_owner_is_fenced_witness:
  "\<exists>l1. Local_Lock ''new'' 100 ''k'' 10 [''k'' \<mapsto> \<lparr>le_token = ''old'', le_expiry = 50\<rparr>]
      = (Inr ''new'', l1) \<and> Local_holder 105 ''k'' l1 = Some ''new''"
  using stale_owner_is_fenced [of "[''k'' \<mapsto> \<lparr>le_token = ''old'', le_expiry = 50\<rparr>]" "''k''"
      "\<lparr>le_token = ''old'', le_expiry = 50\<rparr>" 100 10 "''new''" 105] by auto

text \<open>
  \<open>AcquireLock\<close> on the local lock, with other clients acting during every sleep.
  If it returns a token, that token was drawn at one of its at most \<open>retryCount\<close>
  attempts and owns the key at that time, after exactly one delay per failed attempt.
\<close>

theorem AcquireLock_owns:
  assumes "AcquireLock LocalDistributedLock env key ttl retryCount retryDelay l = (Inr t, l', ds)"
  shows "int (length ds) < retryCount \<and> t = ae_token (env (length ds)) \<and>
    Local_holder (ae_now (env (length ds))) key l' = Some t"
  using local_lock.AcquireLock_loop_holds [OF assms [unfolded AcquireLock_def] TrueI] by force

theorem AcquireLock_owns_witness:
  "\<exists>t l' ds. AcquireLock LocalDistributedLock
      (\<lambda>i. \<lparr>ae_now = 100 + int i, ae_token = ''t'', ae_rand = replicate 8 0, ae_done = False,
            ae_wait = (\<lambda>l. l(''k'' := None))\<rparr>)
      ''k'' 10 3 5 [''k'' \<mapsto> \<lparr>le_token = ''o'', le_expiry = 0\<rparr>] = (Inr t, l', ds)
    \<and> int (length ds) < 3 \<and> Local_holder (100 + int (length ds)) ''k'' l' = Some t"
proof -
  let ?env = "\<lambda>i. \<lparr>ae_now = 100 + int i, ae_token = ''t'', ae_rand = replicate 8 0, ae_done = False,
            ae_wait = (\<lambda>l. l(''k'' := None))\<rparr>"
  let ?l = "[''k'' \<mapsto> \<lparr>le_token = ''o'', le_expiry = 0\<rparr>] :: locks"
  obtain t l' ds where a: "AcquireLock LocalDistributedLock ?env ''k'' 10 3 5 ?l = (Inr t, l', ds)"
    by (simp add: AcquireLock_def local_lock_defs numeral_3_eq_3 Let_def)
  from AcquireLock_owns [OF a] a show ?thesis by auto
qed

text \<open>
  \<open>randInt63n\<close> returns a value in \<open>[0, n)\<close> for every positive \<open>n\<close> and
  every 8 random bytes, except when the bytes encode the least 64-bit integer, whose negation
  overflows to itself.
\<close>

theorem randInt63n_range:
  assumes "0 < n" and "rand_value b \<noteq> min_int64"
  shows "0 \<le> randInt63n b n \<and> randInt63n b n < n"
  using assms rand_value_abs [of b] by (simp add: randInt63n_def go_rem_nonneg Let_def)

theorem randInt63n_range_witness:
  "0 \<le> randInt63n [255, 255, 255, 255, 255, 255, 255, 255] 1000 \<and>
   randInt63n [255, 255, 255, 255, 255, 255, 255, 255] 1000 < 1000"
  by (rule randInt63n_range) (simp_all add: rand_value_def min_int64_def)

text \<open>
  The excluded case is a real one: for the bytes 80 00 00 00 00 00 00 00 the negation
  overflows and the result is negative.
\<close>

theorem randInt63n_negative:
  "randInt63n [128, 0, 0, 0, 0, 0, 0, 0] 1000 = - 808"
  by (simp add: randInt63n_def rand_value_def wrap64_def go_rem_def go_quot_def)

text \<open>
  The delay before a retry.  The first one is the base delay; every later one lies between
  the back-off and one and a half times it, and the back-off is capped at two seconds, so no
  delay exceeds three seconds, whatever the random bytes (the least integer excepted).  The
  number of retries is bounded so that the shift does not overflow.
\<close>

theorem retry_delay_bounds:
  assumes "0 < base" and "base \<le> 60 * second" and "0 < i" and "i \<le> 28"
    and "rand_value b \<noteq> min_int64"
  shows "min (2 ^ (i - 1) * base) (2 * second) \<le> retry_delay base i b
    \<and> retry_delay base i b \<le> 3 * second"
proof -
  have p: "(2 :: int) ^ (i - 1) \<le> 2 ^ 27" using assms by (intro power_increasing) auto
  have q: "(1 :: int) \<le> 2 ^ (i - 1)" by simp
  have "(2 :: int) ^ (i - 1) * base \<le> 2 ^ 27 * (60 * second)"
    using p assms q by (intro mult_mono) auto
  then have up: "(2 :: int) ^ (i - 1) * base \<le> 8053063680000000000" by simp
  have lo: "0 < (2 :: int) ^ (i - 1) * base" using assms by simp
  have w1: "wrap64 (2 ^ (i - 1)) = 2 ^ (i - 1)"
    using p by (intro wrap64_nonneg_id) simp_all
  have w2: "wrap64 (2 ^ (i - 1) * base) = 2 ^ (i - 1) * base"
    using up lo by (intro wrap64_nonneg_id) simp_all
  define bo where "bo = min (2 ^ (i - 1) * base) (2 * second)"
  have bo: "0 < bo" "bo \<le> 2 * second" using lo by (auto simp: bo_def)
  have "bo div 2 \<le> second" using bo(2) by simp
  then have j: "0 \<le> randInt63n b (bo div 2) \<and> randInt63n b (bo div 2) \<le> second"
    using jitter_range [OF assms(5), of "bo div 2"] bo by simp
  have "retry_delay base i b = wrap64 (bo + randInt63n b (bo div 2))"
    using assms(3) bo(1) unfolding retry_delay_def w1 w2 Let_def
    by (auto simp: go_quot_nonneg bo_def min_def)
  also have "\<dots> = bo + randInt63n b (bo div 2)"
    using bo j by (intro wrap64_nonneg_id) simp_all
  finally show ?thesis using bo j unfolding bo_def [symmetric] by linarith
qed

theorem retry_delay_bounds_witness:
  "retry_delay (100 * millisecond) 3 [1, 2, 3, 4, 5, 6, 7, 8] \<le> 3 * second"
  using retry_delay_bounds [of "100 * millisecond" 3 "[1, 2, 3, 4, 5, 6, 7, 8]"]
  by (simp add: rand_value_def min_int64_def)

text \<open>
  Renewal protects a held lock.  From the moment \<open>AcquireLockWithRenewal\<close>'s
  goroutine runs for a lock just acquired, through every schedule in which its context stays
  live, each wake-up comes no later than one ttl after the previous one and other clients never
  present the token, the goroutine is still running and the token still owns the key: long
  operations may exceed the ttl as often as they like.
\<close>

theorem renewal_keeps_lock:
  assumes "Local_Lock tok t0 key ttl l = (Inr tok, l1)" and "0 < ttl"
    and "sched_ok cancelled (start_renewal c i t0 key tok ttl) t0 xs"
    and "renew_sched LocalDistributedLock cancelled xs (start_renewal c i t0 key tok ttl, l1) = (r, l2)"
  shows "rn_running r \<and> Local_holder (last (t0 # map snd xs)) key l2 = Some tok"
proof -
  have lk: "dl_Lock LocalDistributedLock tok t0 key ttl l = (Inr tok, l1)"
    using assms(1) by (simp add: LocalDistributedLock_def)
  have "\<forall>n. t0 \<le> n \<and> n \<le> t0 + ttl \<longrightarrow> Local_holder n key l1 = Some tok"
    using local_lock.lock_result(3) [OF lk] by simp
  then show ?thesis
    using local_lock.renew_sched_keeps [OF _ _ _ assms(3,4)] assms(2)
    by (simp add: start_renewal_def)
qed

theorem renewal_keeps_lock_witness:
  "Local_holder (26 * second) ''k''
     (snd (renew_sched LocalDistributedLock {}
        [([LockOp (5 * second) ''t2'' ''k'' second], 10 * second),
         ([UnlockOp (15 * second) ''k'' ''t3''], 26 * second)]
        (start_renewal Background 0 0 ''k'' ''t1'' (20 * second),
         snd (Local_Lock ''t1'' 0 ''k'' (20 * second) Map.empty)))) = Some ''t1''"
proof -
  let ?xs = "[([LockOp (5 * second) ''t2'' ''k'' second], 10 * second),
         ([UnlockOp (15 * second) ''k'' ''t3''], 26 * second)]"
  let ?r = "start_renewal Background 0 0 ''k'' ''t1'' (20 * second)"
  obtain l1 where l: "Local_Lock ''t1'' 0 ''k'' (20 * second) Map.empty = (Inr ''t1'', l1)"
    by (simp add: Local_Lock_def)
  have ok: "sched_ok {} ?r 0 ?xs"
    by (simp add: start_renewal_def renew_interval_def go_quot_def)
  obtain r l2 where r: "renew_sched LocalDistributedLock {} ?xs (?r, l1) = (r, l2)" by fastforce
  show ?thesis using renewal_keeps_lock [OF l _ ok r] l r by simp
qed

end
