(* ===== verification/Directory_Manager.thy ===== *)
theory Directory_Manager
  imports Metadata Storage Dist_Lock
begin

text \<open>
  \<open>src/internal/service/directory/manager.go\<close>: creation, deletion and renaming of
  directories.  The database holds the directories; the storage backend and the distributed lock
  are optional, as the nil pointers of the source are.  Storage calls are best effort: their
  errors are logged and dropped.  As in the file manager one operation is one step on the triple
  of storage, database and lock; \<open>dm_env\<close> holds what it takes from the clock and from the
  random source, \<open>de_row_ts\<close> giving the time at which a batch touches a row.
\<close>

section \<open>State and environment\<close>

record ('s, 'l) dm_state =
  x_store :: 's
  x_db :: db
  x_lock :: 'l

record 'l dm_env =
  de_acq :: "nat \<Rightarrow> 'l acq_env"
  de_start :: gotime
  de_acquired :: gotime
  de_unlock_now :: gotime
  de_uuid :: string
  de_ts :: string
  de_row_ts :: "string \<Rightarrow> string"

record ('s, 'l) DirectoryManager =
  dmg_store :: "'s StorageAdapter option"
  dmg_distLock :: "'l DistributedLock option"

section \<open>Locking\<close>

text \<open>The context of the acquisition has the cancel function 1, called when
  \<open>lockDirectory\<close> returns; the renewal derives its own context from it.\<close>

definition lockDirectory ::
  "('s, 'l) DirectoryManager \<Rightarrow> 'l dm_env \<Rightarrow> string \<Rightarrow> 'l \<Rightarrow> (string \<times> renewal) option res \<times> 'l"
where
  "lockDirectory dm env path l =
     (case dmg_distLock dm of
        None \<Rightarrow> (Inr None, l)
      | Some dl \<Rightarrow>
          (case AcquireLockWithRenewal dl (de_acq env)
                  (WithTimeout 1 (de_start env + 30 * Dist_Lock.second) Background) 2 (de_acquired env)
                  (''dir:'' @ path) (10 * Dist_Lock.second) 30 (50 * millisecond) l of
             (Inl e, l1) \<Rightarrow> (Inl (Wrapf ''failed to acquire directory lock'' e), l1)
           | (Inr tr, l1) \<Rightarrow> (Inr (Some tr), l1)))"

definition releaseDirectory ::
  "('s, 'l) DirectoryManager \<Rightarrow> 'l dm_env \<Rightarrow> string \<Rightarrow> (string \<times> renewal) option \<Rightarrow> 'l \<Rightarrow> 'l"
where
  "releaseDirectory dm env path tok l =
     (case (dmg_distLock dm, tok) of
        (Some dl, Some (token, _)) \<Rightarrow> snd (dl_Unlock dl (de_unlock_now env) (''dir:'' @ path) token l)
      | _ \<Rightarrow> l)"

definition supportsDirectoryStorageOps :: "('s, 'l) DirectoryManager \<Rightarrow> bool" where
  "supportsDirectoryStorageOps dm =
     (case dmg_store dm of None \<Rightarrow> False | Some st \<Rightarrow> sa_StorageType st = ''local'')"

definition on_store :: "('s, 'l) DirectoryManager \<Rightarrow> ('s StorageAdapter \<Rightarrow> 's \<Rightarrow> 's) \<Rightarrow> 's \<Rightarrow> 's" where
  "on_store dm f s = (case dmg_store dm of None \<Rightarrow> s | Some st \<Rightarrow> f st s)"

section \<open>Queries\<close>

definition DM_Exists :: "string \<Rightarrow> db \<Rightarrow> bool \<times> db" where
  "DM_Exists path0 d =
     (let path = NormalizePath path0
      in case Dir_Exists path d of (Inl e, d1) \<Rightarrow> (False, d1) | (Inr b, d1) \<Rightarrow> (b, d1))"

definition GetDirectoryMetadata :: "string \<Rightarrow> db \<Rightarrow> DirectoryMetadata res \<times> db" where
  "GetDirectoryMetadata path0 d =
     (let path = NormalizePath path0
      in case Dir_GetByPath path d of
           (Inl e, d1) \<Rightarrow> (Inl (Wrapf ''directory metadata not found'' e), d1)
         | (Inr None, d1) \<Rightarrow> (Inl (Errorf ''directory not found''), d1)
         | (Inr (Some m), d1) \<Rightarrow> (Inr m, d1))"

text \<open>The rows below a directory: \<open>path LIKE ? ESCAPE '\' AND is_deleted = FALSE\<close>.\<close>

definition under_pat :: "Dialect \<Rightarrow> string \<Rightarrow> string \<Rightarrow> bool" where
  "under_pat dl path p = like dl (escapeLikePattern (path @ ''/'') @ ''%'') p"

definition files_under :: "string \<Rightarrow> db \<Rightarrow> (string \<times> string) list" where
  "files_under path d = map (\<lambda>r. (fm_ID r, fm_Path r))
     (filter (\<lambda>r. under_pat (db_dialect d) path (fm_Path r) \<and> \<not> fm_IsDeleted r) (t_files d))"

definition dirs_under :: "string \<Rightarrow> db \<Rightarrow> (string \<times> string) list" where
  "dirs_under path d = map (\<lambda>r. (dm_ID r, dm_Path r))
     (filter (\<lambda>r. under_pat (db_dialect d) path (dm_Path r) \<and> \<not> dm_IsDeleted r) (t_dirs d))"

section \<open>Creation\<close>

definition dir_create_body ::
  "('s, 'l) DirectoryManager \<Rightarrow> 'l dm_env \<Rightarrow> string \<Rightarrow> 's \<times> db \<Rightarrow> unit res \<times> 's \<times> db"
where
  "dir_create_body dm env path sd =
     (case DM_Exists path (snd sd) of
        (True, d1) \<Rightarrow> (Inl (Errorf ''directory already exists''), fst sd, d1)
      | (False, d1) \<Rightarrow>
          (case Dir_Create \<lparr>dm_ID = de_uuid env, dm_Path = path, dm_Name = GetFileName path,
                            dm_CreatedAt = de_ts env, dm_UpdatedAt = de_ts env, dm_IsDeleted = False\<rparr> d1 of
             (Inl e, d2) \<Rightarrow> (Inl e, fst sd, d2)
           | (Inr _, d2) \<Rightarrow>
               (Inr (), (if supportsDirectoryStorageOps dm
                         then on_store dm (\<lambda>st s. snd (sa_CreateDirectory st path s)) (fst sd) else fst sd), d2)))"

text \<open>The common frame of the three operations: take the lock, run the body, release.\<close>

definition with_directory_lock ::
  "('s, 'l) DirectoryManager \<Rightarrow> 'l dm_env \<Rightarrow> string \<Rightarrow> ('s \<times> db \<Rightarrow> unit res \<times> 's \<times> db)
    \<Rightarrow> ('s, 'l) dm_state \<Rightarrow> unit res \<times> ('s, 'l) dm_state"
where
  "with_directory_lock dm env path body w =
     (case lockDirectory dm env path (x_lock w) of
        (Inl e, l1) \<Rightarrow> (Inl e, w\<lparr>x_lock := l1\<rparr>)
      | (Inr tok, l1) \<Rightarrow>
          (case body (x_store w, x_db w) of
             (r, s1, d1) \<Rightarrow> (r, \<lparr>x_store = s1, x_db = d1, x_lock = releaseDirectory dm env path tok l1\<rparr>)))"

definition CreateDirectory ::
  "('s, 'l) DirectoryManager \<Rightarrow> 'l dm_env \<Rightarrow> string \<Rightarrow> ('s, 'l) dm_state \<Rightarrow> unit res \<times> ('s, 'l) dm_state"
where
  "CreateDirectory dm env path0 w =
     (let path = NormalizePath path0 in with_directory_lock dm env path (dir_create_body dm env path) w)"

section \<open>Transactions\<close>

text \<open>A transaction that runs a list of statements, each with the message its failure is
  wrapped in, and commits; on a failure it is rolled back.\<close>

fun tx_execs :: "(string \<times> (db \<Rightarrow> db option)) list \<Rightarrow> db \<Rightarrow> unit res \<times> db" where
  "tx_execs [] d = (Inr (), d)"
| "tx_execs ((msg, stmt) # ss) d =
     (case db_Exec stmt d of
        (Inl e, d1) \<Rightarrow> (Inl (Wrapf msg e), d1)
      | (Inr _, d1) \<Rightarrow> tx_execs ss d1)"

definition in_tx :: "string \<Rightarrow> string \<Rightarrow> (string \<times> (db \<Rightarrow> db option)) list \<Rightarrow> db \<Rightarrow> unit res \<times> db" where
  "in_tx begin_msg commit_msg stmts d0 =
     (case pop_fault d0 of
        (Some e, d1) \<Rightarrow> (Inl (Wrapf begin_msg e), d1)
      | (None, d1) \<Rightarrow>
          (case tx_execs stmts d1 of
             (Inl e, d2) \<Rightarrow> (Inl e, tx_restore d1 d2)
           | (Inr _, d2) \<Rightarrow>
               (case tx_Commit d1 d2 of
                  (Inl e, d3) \<Rightarrow> (Inl (Wrapf commit_msg e), d3)
                | (Inr _, d3) \<Rightarrow> (Inr (), d3))))"

text \<open>A query for \<open>(id, path)\<close> rows with the check of \<open>rows.Err()\<close>.\<close>

definition query_entries ::
  "string \<Rightarrow> string \<Rightarrow> (db \<Rightarrow> (string \<times> string) list) \<Rightarrow> db \<Rightarrow> (string \<times> string) list res \<times> db"
where
  "query_entries query_msg iter_msg q d =
     (case db_Query (\<lambda>d. Some (q d)) d of
        (Inl e, d1) \<Rightarrow> (Inl (Wrapf query_msg e), d1)
      | (Inr es, d1) \<Rightarrow>
          (case pop_fault d1 of
             (Some e, d2) \<Rightarrow> (Inl (Wrapf iter_msg e), d2)
           | (None, d2) \<Rightarrow> (Inr es, d2)))"

section \<open>Deletion\<close>

definition batchSize :: nat where "batchSize = 500"

definition del_file_stmt :: "string \<Rightarrow> string \<Rightarrow> db \<Rightarrow> db option" where
  "del_file_stmt now i d = set_files (updrows (\<lambda>r. fm_ID r = i)
     (\<lambda>r. r\<lparr>fm_IsDeleted := True, fm_UpdatedAt := now\<rparr>) (t_files d)) d"

definition del_dir_stmt :: "string \<Rightarrow> string \<Rightarrow> db \<Rightarrow> db option" where
  "del_dir_stmt now i d = set_dirs (updrows (\<lambda>r. dm_ID r = i)
     (\<lambda>r. r\<lparr>dm_IsDeleted := True, dm_UpdatedAt := now\<rparr>) (t_dirs d)) d"

text \<open>One pass of each batch loop; the result is the batch, empty when nothing is left.\<close>

definition delete_file_batch ::
  "('s, 'l) DirectoryManager \<Rightarrow> 'l dm_env \<Rightarrow> string \<Rightarrow> 's \<times> db \<Rightarrow> (string \<times> string) list res \<times> 's \<times> db"
where
  "delete_file_batch dm env path sd =
     (case query_entries ''failed to query files'' ''failed to iterate file rows''
             (\<lambda>d. take batchSize (files_under path d)) (snd sd) of
        (Inl e, d1) \<Rightarrow> (Inl e, fst sd, d1)
      | (Inr [], d1) \<Rightarrow> (Inr [], fst sd, d1)
      | (Inr (e # es), d1) \<Rightarrow>
          (case in_tx ''failed to begin delete transaction'' ''failed to commit file deletion batch''
                  (map (\<lambda>(i, p). (''failed to delete file metadata'', del_file_stmt (de_row_ts env i) i)) (e # es)) d1 of
             (Inl er, d2) \<Rightarrow> (Inl er, fst sd, d2)
           | (Inr _, d2) \<Rightarrow>
               (Inr (e # es), fold (\<lambda>(i, p). on_store dm (\<lambda>st s. snd (sa_Remove st p s))) (e # es) (fst sd), d2)))"

definition delete_dir_batch ::
  "('s, 'l) DirectoryManager \<Rightarrow> 'l dm_env \<Rightarrow> string \<Rightarrow> 's \<times> db \<Rightarrow> (string \<times> string) list res \<times> 's \<times> db"
where
  "delete_dir_batch dm env path sd =
     (case query_entries ''failed to query directories'' ''failed to iterate directory rows''
             (\<lambda>d. take batchSize (dirs_under path d)) (snd sd) of
        (Inl e, d1) \<Rightarrow> (Inl e, fst sd, d1)
      | (Inr [], d1) \<Rightarrow> (Inr [], fst sd, d1)
      | (Inr (e # es), d1) \<Rightarrow>
          (case in_tx ''failed to begin delete directory transaction'' ''failed to commit directory deletion batch''
                  (map (\<lambda>(i, p). (''failed to delete directory metadata'', del_dir_stmt (de_row_ts env i) i)) (e # es)) d1 of
             (Inl er, d2) \<Rightarrow> (Inl er, fst sd, d2)
           | (Inr _, d2) \<Rightarrow>
               (Inr (e # es),
                (if supportsDirectoryStorageOps dm
                 then fold (\<lambda>(i, p). on_store dm (\<lambda>st s. snd (sa_RemoveDirectory st p s))) (e # es) (fst sd)
                 else fst sd), d2)))"

section \<open>Transactions are atomic\<close>

lemma tx_restore_same: "same_tables (tx_restore d0 d) d0"
  by (simp add: tx_restore_def same_tables_def)

lemma tx_Commit_err: "tx_Commit d0 d = (Inl e, d') \<Longrightarrow> same_tables d' d0"
  by (auto simp: tx_Commit_def tx_restore_same split: prod.splits option.splits)

lemma tx_Commit_ok: "tx_Commit d0 d = (Inr u, d') \<Longrightarrow> same_tables d' d"
  by (auto simp: tx_Commit_def dest: pop_fault_same split: prod.splits option.splits)

lemma in_tx_cases:
  assumes "in_tx b c ss d = (r, d')"
  shows "(\<exists>e. r = Inl e \<and> same_tables d' d) \<or>
    (\<exists>d1 d2. r = Inr () \<and> same_tables d1 d \<and> tx_execs ss d1 = (Inr (), d2) \<and> same_tables d' d2)"
proof -
  obtain f d1 where p: "pop_fault d = (f, d1)" by fastforce
  note s1 = pop_fault_same [OF p]
  obtain r2 d2 where x: "tx_execs ss d1 = (r2, d2)" by fastforce
  obtain r3 d3 where c: "tx_Commit d1 d2 = (r3, d3)" by fastforce
  show ?thesis
  proof (cases f)
    case (Some e)
    with assms p s1 show ?thesis by (auto simp: in_tx_def)
  next
    case None
    show ?thesis
    proof (cases r2)
      case (Inl e)
      with assms p None x have "r = Inl e" "d' = tx_restore d1 d2" by (auto simp: in_tx_def)
      with same_tables_trans [OF tx_restore_same s1] show ?thesis by blast
    next
      case (Inr u)
      with assms p None x c have r: "r = (case r3 of Inl e \<Rightarrow> Inl (Wrapf c e) | Inr _ \<Rightarrow> Inr ())" "d' = d3"
        by (auto simp: in_tx_def split: sum.splits)
      show ?thesis
      proof (cases r3)
        case (Inl e)
        with r same_tables_trans [OF tx_Commit_err [OF c [unfolded Inl]] s1] show ?thesis by simp
      next
        case (Inr v)
        with r s1 x \<open>r2 = Inr u\<close> tx_Commit_ok [OF c [unfolded Inr]] show ?thesis by auto
      qed
    qed
  qed
qed

section \<open>Updates by id\<close>

definition upd_by_id ::
  "('r \<Rightarrow> string) \<Rightarrow> (string \<Rightarrow> string \<Rightarrow> 'r \<Rightarrow> 'r) \<Rightarrow> (string \<times> string) list \<Rightarrow> 'r list \<Rightarrow> 'r list"
where
  "upd_by_id ident f es rs = map (\<lambda>r. case map_of es (ident r) of None \<Rightarrow> r | Some p \<Rightarrow> f (ident r) p r) rs"

text \<open>A table whose rows have an id, and statements that update the row with one id.\<close>

locale id_table =
  fixes tbl :: "db \<Rightarrow> 'r list"
    and upd :: "'r list \<Rightarrow> db \<Rightarrow> db"
    and unique :: "'r list \<Rightarrow> bool"
    and ident :: "'r \<Rightarrow> string"
  assumes tbl_upd [simp]: "tbl (upd rs d) = rs"
    and upd_upd [simp]: "upd rs (upd qs d) = upd rs d"
    and upd_tbl: "upd (tbl d) d = d"
    and upd_same: "same_tables d e \<Longrightarrow> same_tables (upd rs d) (upd rs e)"
    and tbl_same: "same_tables d e \<Longrightarrow> tbl d = tbl e"
    and faults_upd [simp]: "db_faults (upd rs d) = db_faults d"
begin

lemma upd_by_id_Cons:
  assumes "\<And>i p r. ident (f i p r) = ident r"
    and "i \<notin> fst ` set es \<or> (\<forall>i p q r. f i p (f i q r) = f i q r)"
  shows "upd_by_id ident f es (updrows (\<lambda>r. ident r = i) (f i p) rs) = upd_by_id ident f ((i, p) # es) rs"
proof -
  have "map_of es i = None" if "i \<notin> fst ` set es" using that by (simp add: map_of_eq_None_iff)
  with assms show ?thesis
    by (auto simp: upd_by_id_def updrows_def split: option.splits)
qed

lemma tx_rows:
  assumes st: "\<And>i p d. stmt i p d = (let rs = updrows (\<lambda>r. ident r = i) (f i p) (tbl d)
        in if unique rs then Some (upd rs d) else None)"
    and idf: "\<And>i p r. ident (f i p r) = ident r"
    and ok: "distinct (map fst es) \<or> (\<forall>i p q r. f i p (f i q r) = f i q r)"
    and x: "tx_execs (map (\<lambda>(i, p). (msg, stmt i p)) es) d = (Inr (), d')"
  shows "same_tables d' (upd (upd_by_id ident f es (tbl d)) d) \<and> (unique (tbl d) \<longrightarrow> unique (tbl d'))"
  using ok x
proof (induction es arbitrary: d)
  case Nil
  then show ?case by (simp add: upd_by_id_def upd_tbl)
next
  case (Cons e es)
  obtain i p where e: "e = (i, p)" by fastforce
  let ?rs = "updrows (\<lambda>r. ident r = i) (f i p) (tbl d)"
  from Cons.prems(2) obtain d1 where d1: "db_Exec (stmt i p) d = (Inr (), d1)"
    and rest: "tx_execs (map (\<lambda>(i, p). (msg, stmt i p)) es) d1 = (Inr (), d')"
    unfolding e by (auto split: prod.splits sum.splits)
  obtain d0 where d0: "same_tables d0 d" "stmt i p d0 = Some d1" using db_Exec_ok [OF d1] by blast
  then have u: "unique ?rs" "d1 = upd ?rs d0" using st tbl_same [OF d0(1)] by (auto simp: Let_def split: if_splits)
  have s: "same_tables (upd rs d1) (upd rs d)" for rs using upd_same [OF d0(1)] u(2) by simp
  have c: "upd_by_id ident f es ?rs = upd_by_id ident f (e # es) (tbl d)"
    unfolding e by (rule upd_by_id_Cons [OF idf]) (use Cons.prems(1) e in auto)
  have "distinct (map fst es) \<or> (\<forall>i p q r. f i p (f i q r) = f i q r)" using Cons.prems(1) by auto
  from Cons.IH [OF this rest] c s same_tables_trans u show ?case by fastforce
qed

lemma tx_rows_total:
  assumes st: "\<And>i p d. stmt i p d = (let rs = updrows (\<lambda>r. ident r = i) (f i p) (tbl d)
        in if unique rs then Some (upd rs d) else None)"
    and keep: "\<And>i p rs. unique rs \<Longrightarrow> unique (updrows (\<lambda>r. ident r = i) (f i p) rs)"
    and "unique (tbl d)" "db_faults d = []"
  shows "\<exists>d'. tx_execs (map (\<lambda>(i, p). (msg, stmt i p)) es) d = (Inr (), d') \<and> db_faults d' = []"
  using assms(3,4)
proof (induction es arbitrary: d)
  case (Cons e es)
  obtain i p where e: "e = (i, p)" by fastforce
  let ?rs = "updrows (\<lambda>r. ident r = i) (f i p) (tbl d)"
  have "db_Exec (stmt i p) d = (Inr (), upd ?rs d)"
    using st keep Cons.prems by (simp add: db_Exec_def)
  moreover have "\<exists>d'. tx_execs (map (\<lambda>(i, p). (msg, stmt i p)) es) (upd ?rs d) = (Inr (), d') \<and> db_faults d' = []"
    by (rule Cons.IH) (use keep Cons.prems in simp_all)
  ultimately show ?case unfolding e by simp
qed simp

end

interpretation file_rows: id_table t_files "\<lambda>rs d. d\<lparr>t_files := rs\<rparr>" file_unique fm_ID
  by unfold_locales (simp_all add: same_tables_def)

interpretation dir_rows: id_table t_dirs "\<lambda>rs d. d\<lparr>t_dirs := rs\<rparr>" dir_unique dm_ID
  by unfold_locales (simp_all add: same_tables_def)

lemma in_tx_total:
  assumes "db_faults d = []" "tx_execs ss d = (Inr (), d')" "db_faults d' = []"
  shows "in_tx b c ss d = (Inr (), d')"
  using assms by (simp add: in_tx_def tx_Commit_def)

lemma query_entries_same: "query_entries m n q d = (r, d') \<Longrightarrow> same_tables d' d"
  by (auto simp: query_entries_def dest!: db_Query_same pop_fault_same intro: same_tables_trans
      split: prod.splits sum.splits option.splits)

lemma query_entries_ok:
  assumes "query_entries m n q d = (Inr es, d')" "\<And>d e. same_tables d e \<Longrightarrow> q d = q e"
  shows "es = q d"
  using assms(1) db_Query_answer [OF _ assms(2)]
  by (auto simp: query_entries_def split: prod.splits sum.splits option.splits)

lemma query_entries_total: "db_faults d = [] \<Longrightarrow> query_entries m n q d = (Inr (q d), d)"
  by (simp add: query_entries_def db_Query_def)

lemma under_same: "same_tables d e \<Longrightarrow> files_under p d = files_under p e \<and> dirs_under p d = dirs_under p e"
  by (simp add: same_tables_def files_under_def dirs_under_def)

section \<open>The batch loops\<close>

definition del_file :: "(string \<Rightarrow> string) \<Rightarrow> string \<Rightarrow> string \<Rightarrow> FileMetadata \<Rightarrow> FileMetadata" where
  "del_file ts i p r = r\<lparr>fm_IsDeleted := True, fm_UpdatedAt := ts i\<rparr>"

definition del_dir :: "(string \<Rightarrow> string) \<Rightarrow> string \<Rightarrow> string \<Rightarrow> DirectoryMetadata \<Rightarrow> DirectoryMetadata" where
  "del_dir ts i p r = r\<lparr>dm_IsDeleted := True, dm_UpdatedAt := ts i\<rparr>"

lemma del_file_stmt_alt:
  "del_file_stmt (ts i) i d = (let rs = updrows (\<lambda>r. fm_ID r = i) (del_file ts i p) (t_files d)
     in if file_unique rs then Some (d\<lparr>t_files := rs\<rparr>) else None)"
  by (simp add: del_file_stmt_def set_files_def del_file_def [abs_def])

lemma del_dir_stmt_alt:
  "del_dir_stmt (ts i) i d = (let rs = updrows (\<lambda>r. dm_ID r = i) (del_dir ts i p) (t_dirs d)
     in if dir_unique rs then Some (d\<lparr>t_dirs := rs\<rparr>) else None)"
  by (simp add: del_dir_stmt_def set_dirs_def del_dir_def [abs_def])

lemma files_under_distinct: "db_wf d \<Longrightarrow> distinct (map fst (files_under p d))"
  using wf_files [of d] by (simp add: files_under_def o_def distinct_map inj_on_def)

lemma dirs_under_distinct: "db_wf d \<Longrightarrow> distinct (map fst (dirs_under p d))"
  using wf_dirs [of d] by (simp add: dirs_under_def o_def distinct_map inj_on_def)

lemma delete_file_batch_res:
  assumes "delete_file_batch dm env path (s, d) = (r, s', d')"
  shows "(\<exists>e. r = Inl e \<and> same_tables d' d \<and> s' = s) \<or>
    (r = Inr (take batchSize (files_under path d)) \<and>
     same_tables d' (d\<lparr>t_files := upd_by_id fm_ID (del_file (de_row_ts env)) (take batchSize (files_under path d)) (t_files d)\<rparr>))"
proof -
  let ?q = "\<lambda>d. take batchSize (files_under path d)"
  let ?ss = "\<lambda>es. map (\<lambda>(i, p). (''failed to delete file metadata'', del_file_stmt (de_row_ts env i) i)) es"
  obtain q d1 where q: "query_entries ''failed to query files'' ''failed to iterate file rows'' ?q d = (q, d1)" by fastforce
  note s1 = query_entries_same [OF q]
  show ?thesis
  proof (cases q)
    case (Inl e)
    with assms q s1 show ?thesis by (auto simp: delete_file_batch_def)
  next
    case (Inr es)
    have es: "es = ?q d" by (rule query_entries_ok [OF q [unfolded Inr]]) (simp add: under_same)
    show ?thesis
    proof (cases es)
      case Nil
      with assms q Inr s1 es show ?thesis by (auto simp: delete_file_batch_def upd_by_id_def same_tables_def)
    next
      case (Cons e0 es0)
      obtain x d2 where x: "in_tx ''failed to begin delete transaction'' ''failed to commit file deletion batch'' (?ss es) d1 = (x, d2)"
        by fastforce
      from in_tx_cases [OF x] show ?thesis
      proof (elim disjE exE conjE)
        fix e assume "x = Inl e" "same_tables d2 d1"
        with assms q Inr Cons x s1 same_tables_trans show ?thesis by (auto simp: delete_file_batch_def)
      next
        fix d3 d4 assume c: "x = Inr ()" "same_tables d3 d1" "tx_execs (?ss es) d3 = (Inr (), d4)" "same_tables d2 d4"
        have "same_tables d4 (d3\<lparr>t_files := upd_by_id fm_ID (del_file (de_row_ts env)) es (t_files d3)\<rparr>)"
          by (rule conjunct1 [OF file_rows.tx_rows [where stmt = "\<lambda>i p. del_file_stmt (de_row_ts env i) i", OF _ _ _ c(3)]])
             (simp_all add: del_file_stmt_alt del_file_def)
        moreover have "same_tables d3 d" using c(2) s1 same_tables_trans by blast
        ultimately have "same_tables d2 (d\<lparr>t_files := upd_by_id fm_ID (del_file (de_row_ts env)) es (t_files d)\<rparr>)"
          using c(4) by (simp add: same_tables_def)
        with assms q Inr Cons x c(1) es show ?thesis by (auto simp: delete_file_batch_def)
      qed
    qed
  qed
qed

lemma delete_dir_batch_res:
  assumes "delete_dir_batch dm env path (s, d) = (r, s', d')"
  shows "(\<exists>e. r = Inl e \<and> same_tables d' d \<and> s' = s) \<or>
    (r = Inr (take batchSize (dirs_under path d)) \<and>
     same_tables d' (d\<lparr>t_dirs := upd_by_id dm_ID (del_dir (de_row_ts env)) (take batchSize (dirs_under path d)) (t_dirs d)\<rparr>))"
proof -
  let ?q = "\<lambda>d. take batchSize (dirs_under path d)"
  let ?ss = "\<lambda>es. map (\<lambda>(i, p). (''failed to delete directory metadata'', del_dir_stmt (de_row_ts env i) i)) es"
  obtain q d1 where q: "query_entries ''failed to query directories'' ''failed to iterate directory rows'' ?q d = (q, d1)"
    by fastforce
  note s1 = query_entries_same [OF q]
  show ?thesis
  proof (cases q)
    case (Inl e)
    with assms q s1 show ?thesis by (auto simp: delete_dir_batch_def)
  next
    case (Inr es)
    have es: "es = ?q d" by (rule query_entries_ok [OF q [unfolded Inr]]) (simp add: under_same)
    show ?thesis
    proof (cases es)
      case Nil
      with assms q Inr s1 es show ?thesis by (auto simp: delete_dir_batch_def upd_by_id_def same_tables_def)
    next
      case (Cons e0 es0)
      obtain x d2 where x: "in_tx ''failed to begin delete directory transaction'' ''failed to commit directory deletion batch''
          (?ss es) d1 = (x, d2)" by fastforce
      from in_tx_cases [OF x] show ?thesis
      proof (elim disjE exE conjE)
        fix e assume "x = Inl e" "same_tables d2 d1"
        with assms q Inr Cons x s1 same_tables_trans show ?thesis by (auto simp: delete_dir_batch_def)
      next
        fix d3 d4 assume c: "x = Inr ()" "same_tables d3 d1" "tx_execs (?ss es) d3 = (Inr (), d4)" "same_tables d2 d4"
        have "same_tables d4 (d3\<lparr>t_dirs := upd_by_id dm_ID (del_dir (de_row_ts env)) es (t_dirs d3)\<rparr>)"
          by (rule conjunct1 [OF dir_rows.tx_rows [where stmt = "\<lambda>i p. del_dir_stmt (de_row_ts env i) i", OF _ _ _ c(3)]])
             (simp_all add: del_dir_stmt_alt del_dir_def)
        moreover have "same_tables d3 d" using c(2) s1 same_tables_trans by blast
        ultimately have "same_tables d2 (d\<lparr>t_dirs := upd_by_id dm_ID (del_dir (de_row_ts env)) es (t_dirs d)\<rparr>)"
          using c(4) by (simp add: same_tables_def)
        with assms q Inr Cons x c(1) es show ?thesis by (auto simp: delete_dir_batch_def)
      qed
    qed
  qed
qed

lemma filter_map_less:
  assumes "\<And>r. P (g r) \<Longrightarrow> P r" "r \<in> set rs" "P r" "\<not> P (g r)"
  shows "length (filter P (map g rs)) < length (filter P rs)"
  using assms(2)
proof (induction rs)
  case (Cons x rs)
  have le: "length (filter P (map g rs)) \<le> length (filter P rs)"
    using assms(1) by (induction rs) auto
  show ?case
  proof (cases "x = r")
    case True
    with le assms(3,4) show ?thesis by simp
  next
    case False
    with Cons assms(1) show ?thesis by auto
  qed
qed simp

text \<open>A batch that is not empty leaves strictly fewer live rows below the directory.\<close>

lemma file_batch_decreases:
  assumes "take batchSize (files_under path d) = e # es"
    and "same_tables d' (d\<lparr>t_files := upd_by_id fm_ID (del_file ts) (e # es) (t_files d)\<rparr>)"
  shows "length (files_under path d') < length (files_under path d)"
proof -
  let ?P = "\<lambda>r. under_pat (db_dialect d) path (fm_Path r) \<and> \<not> fm_IsDeleted r"
  have "e \<in> set (files_under path d)" using assms(1) by (metis in_set_takeD list.set_intros(1))
  then obtain r where r: "r \<in> set (t_files d)" "?P r" "e = (fm_ID r, fm_Path r)" by (auto simp: files_under_def)
  let ?g = "\<lambda>r. case map_of (e # es) (fm_ID r) of None \<Rightarrow> r | Some p \<Rightarrow> del_file ts (fm_ID r) p r"
  have "length (filter ?P (map ?g (t_files d))) < length (filter ?P (t_files d))"
    by (rule filter_map_less [where P = ?P and g = ?g, OF _ r(1,2)])
       (auto simp: r(3) del_file_def split: option.splits if_splits)
  with assms(2) show ?thesis by (simp add: files_under_def same_tables_def upd_by_id_def)
qed

lemma dir_batch_decreases:
  assumes "take batchSize (dirs_under path d) = e # es"
    and "same_tables d' (d\<lparr>t_dirs := upd_by_id dm_ID (del_dir ts) (e # es) (t_dirs d)\<rparr>)"
  shows "length (dirs_under path d') < length (dirs_under path d)"
proof -
  let ?P = "\<lambda>r. under_pat (db_dialect d) path (dm_Path r) \<and> \<not> dm_IsDeleted r"
  have "e \<in> set (dirs_under path d)" using assms(1) by (metis in_set_takeD list.set_intros(1))
  then obtain r where r: "r \<in> set (t_dirs d)" "?P r" "e = (dm_ID r, dm_Path r)" by (auto simp: dirs_under_def)
  let ?g = "\<lambda>r. case map_of (e # es) (dm_ID r) of None \<Rightarrow> r | Some p \<Rightarrow> del_dir ts (dm_ID r) p r"
  have "length (filter ?P (map ?g (t_dirs d))) < length (filter ?P (t_dirs d))"
    by (rule filter_map_less [where P = ?P and g = ?g, OF _ r(1,2)])
       (auto simp: r(3) del_dir_def split: option.splits if_splits)
  with assms(2) show ?thesis by (simp add: dirs_under_def same_tables_def upd_by_id_def)
qed

function delete_files_loop ::
  "('s, 'l) DirectoryManager \<Rightarrow> 'l dm_env \<Rightarrow> string \<Rightarrow> 's \<times> db \<Rightarrow> unit res \<times> 's \<times> db"
where
  "delete_files_loop dm env path sd =
     (case delete_file_batch dm env path sd of
        (Inl e, sd1) \<Rightarrow> (Inl e, sd1)
      | (Inr [], sd1) \<Rightarrow> (Inr (), sd1)
      | (Inr (_ # _), sd1) \<Rightarrow> delete_files_loop dm env path sd1)"
  by pat_completeness auto

termination
proof (relation "measure (\<lambda>(dm, env, path, sd). length (files_under path (snd sd)))")
  fix dm :: "('s, 'l) DirectoryManager" and env :: "'l dm_env" and path sd r sd1 es e es0
  assume a: "(r, sd1) = delete_file_batch dm env path sd" "r = Inr es" "es = e # es0"
  obtain s d s' d' where sd: "sd = (s, d)" "sd1 = (s', d')" by fastforce
  from a sd have b: "delete_file_batch dm env path (s, d) = (Inr es, s', d')" by simp
  from delete_file_batch_res [OF b] a(3) show "((dm, env, path, sd1), dm, env, path, sd)
      \<in> measure (\<lambda>(dm, env, path, sd). length (files_under path (snd sd)))"
    using file_batch_decreases [of path d e es0 d' "de_row_ts env"] sd by auto
qed simp

function delete_dirs_loop ::
  "('s, 'l) DirectoryManager \<Rightarrow> 'l dm_env \<Rightarrow> string \<Rightarrow> 's \<times> db \<Rightarrow> unit res \<times> 's \<times> db"
where
  "delete_dirs_loop dm env path sd =
     (case delete_dir_batch dm env path sd of
        (Inl e, sd1) \<Rightarrow> (Inl e, sd1)
      | (Inr [], sd1) \<Rightarrow> (Inr (), sd1)
      | (Inr (_ # _), sd1) \<Rightarrow> delete_dirs_loop dm env path sd1)"
  by pat_completeness auto

termination
proof (relation "measure (\<lambda>(dm, env, path, sd). length (dirs_under path (snd sd)))")
  fix dm :: "('s, 'l) DirectoryManager" and env :: "'l dm_env" and path sd r sd1 es e es0
  assume a: "(r, sd1) = delete_dir_batch dm env path sd" "r = Inr es" "es = e # es0"
  obtain s d s' d' where sd: "sd = (s, d)" "sd1 = (s', d')" by fastforce
  from a sd have b: "delete_dir_batch dm env path (s, d) = (Inr es, s', d')" by simp
  from delete_dir_batch_res [OF b] a(3) show "((dm, env, path, sd1), dm, env, path, sd)
      \<in> measure (\<lambda>(dm, env, path, sd). length (dirs_under path (snd sd)))"
    using dir_batch_decreases [of path d e es0 d' "de_row_ts env"] sd by auto
qed simp

declare delete_files_loop.simps [simp del] delete_dirs_loop.simps [simp del]

text \<open>The directory's own record, the last step of both kinds of deletion.\<close>

definition delete_self :: "'l dm_env \<Rightarrow> string \<Rightarrow> db \<Rightarrow> unit res \<times> db" where
  "delete_self env path d =
     (case Dir_GetByPath path d of
        (Inl e, d1) \<Rightarrow> (Inl (Wrapf ''failed to get directory metadata'' e), d1)
      | (Inr None, d1) \<Rightarrow> (Inl (Errorf ''directory not found''), d1)
      | (Inr (Some meta), d1) \<Rightarrow> Dir_Remove (de_ts env) (dm_ID meta) d1)"

definition delete_empty :: "'l dm_env \<Rightarrow> string \<Rightarrow> db \<Rightarrow> unit res \<times> db" where
  "delete_empty env path d =
     (case db_QueryRow (\<lambda>d. [length (files_under path d)]) d of
        (Inl e, d1) \<Rightarrow> (Inl (Wrapf ''failed to check directory contents'' e), d1)
      | (Inr fileCount, d1) \<Rightarrow>
          if 0 < fileCount then (Inl (Errorf ''directory is not empty''), d1)
          else (case db_QueryRow (\<lambda>d. [length (dirs_under path d)]) d1 of
             (Inl e, d2) \<Rightarrow> (Inl (Wrapf ''failed to check directory contents'' e), d2)
           | (Inr dirCount, d2) \<Rightarrow>
               if 0 < dirCount then (Inl (Errorf ''directory is not empty''), d2)
               else delete_self env path d2))"

definition dir_delete_body ::
  "('s, 'l) DirectoryManager \<Rightarrow> 'l dm_env \<Rightarrow> string \<Rightarrow> bool \<Rightarrow> 's \<times> db \<Rightarrow> unit res \<times> 's \<times> db"
where
  "dir_delete_body dm env path recursive sd =
     (case DM_Exists path (snd sd) of
        (False, d1) \<Rightarrow> (Inl (Errorf ''directory not found''), fst sd, d1)
      | (True, d1) \<Rightarrow>
          if \<not> recursive then (case delete_empty env path d1 of (r, d2) \<Rightarrow> (r, fst sd, d2))
          else (case delete_files_loop dm env path (fst sd, d1) of
             (Inl e, sd2) \<Rightarrow> (Inl e, sd2)
           | (Inr _, sd2) \<Rightarrow>
               (case delete_dirs_loop dm env path sd2 of
                  (Inl e, sd3) \<Rightarrow> (Inl e, sd3)
                | (Inr _, s3, d3) \<Rightarrow> (case delete_self env path d3 of (r, d4) \<Rightarrow> (r, s3, d4)))))"

definition DeleteDirectory ::
  "('s, 'l) DirectoryManager \<Rightarrow> 'l dm_env \<Rightarrow> string \<Rightarrow> bool \<Rightarrow> ('s, 'l) dm_state \<Rightarrow> unit res \<times> ('s, 'l) dm_state"
where
  "DeleteDirectory dm env path0 recursive w =
     (let path = NormalizePath path0 in with_directory_lock dm env path (dir_delete_body dm env path recursive) w)"

section \<open>Renaming\<close>

definition ren_file_stmt :: "string \<Rightarrow> string \<Rightarrow> string \<Rightarrow> string \<Rightarrow> string \<Rightarrow> db \<Rightarrow> db option" where
  "ren_file_stmt oldPath newPath now i p d =
     (let newItemPath = newPath @ drop (length oldPath) p; newItemName = GetFileName newItemPath
      in set_files (updrows (\<lambda>r. fm_ID r = i)
           (\<lambda>r. r\<lparr>fm_Path := newItemPath, fm_Name := newItemName, fm_UpdatedAt := now\<rparr>) (t_files d)) d)"

definition ren_dir_stmt :: "string \<Rightarrow> string \<Rightarrow> string \<Rightarrow> string \<Rightarrow> string \<Rightarrow> db \<Rightarrow> db option" where
  "ren_dir_stmt oldPath newPath now i p d =
     (let newItemPath = newPath @ drop (length oldPath) p; newItemName = GetFileName newItemPath
      in set_dirs (updrows (\<lambda>r. dm_ID r = i)
           (\<lambda>r. r\<lparr>dm_Path := newItemPath, dm_Name := newItemName, dm_UpdatedAt := now\<rparr>) (t_dirs d)) d)"

definition ren_self_stmt :: "string \<Rightarrow> string \<Rightarrow> string \<Rightarrow> string \<Rightarrow> db \<Rightarrow> db option" where
  "ren_self_stmt newPath newName now i d =
     set_dirs (updrows (\<lambda>r. dm_ID r = i)
       (\<lambda>r. r\<lparr>dm_Path := newPath, dm_Name := newName, dm_UpdatedAt := now\<rparr>) (t_dirs d)) d"

definition move_objects ::
  "('s, 'l) DirectoryManager \<Rightarrow> string \<Rightarrow> string \<Rightarrow> (string \<times> string) list \<Rightarrow> 's \<Rightarrow> 's"
where
  "move_objects dm oldPath newPath fileEntries s =
     on_store dm (\<lambda>st s. snd (sa_Rename st oldPath newPath s))
       (fold (\<lambda>(i, p). on_store dm (\<lambda>st s. snd (sa_Rename st p (newPath @ drop (length oldPath) p) s))) fileEntries s)"

definition dir_rename_body ::
  "('s, 'l) DirectoryManager \<Rightarrow> 'l dm_env \<Rightarrow> string \<Rightarrow> string \<Rightarrow> 's \<times> db \<Rightarrow> unit res \<times> 's \<times> db"
where
  "dir_rename_body dm env oldPath newName sd =
     (case GetDirectoryMetadata oldPath (snd sd) of
        (Inl e, d1) \<Rightarrow> (Inl e, fst sd, d1)
      | (Inr meta, d1) \<Rightarrow>
     (let newPath = NormalizePath (GetDirectory oldPath @ ''/'' @ newName)
      in case DM_Exists newPath d1 of
        (True, d2) \<Rightarrow> (Inl (Errorf ''target path already exists''), fst sd, d2)
      | (False, d2) \<Rightarrow>
     (case query_entries ''failed to query child files'' ''failed to iterate file rows'' (files_under oldPath) d2 of
        (Inl e, d3) \<Rightarrow> (Inl e, fst sd, d3)
      | (Inr fileEntries, d3) \<Rightarrow>
     (case query_entries ''failed to query child directories'' ''failed to iterate directory rows'' (dirs_under oldPath) d3 of
        (Inl e, d4) \<Rightarrow> (Inl e, fst sd, d4)
      | (Inr dirEntries, d4) \<Rightarrow>
     (let now = de_ts env
      in case in_tx ''failed to begin rename transaction'' ''failed to commit rename''
           (map (\<lambda>(i, p). (''failed to update file path'', ren_file_stmt oldPath newPath now i p)) fileEntries @
            map (\<lambda>(i, p). (''failed to update directory path'', ren_dir_stmt oldPath newPath now i p)) dirEntries @
            [(''failed to update directory metadata'', ren_self_stmt newPath newName now (dm_ID meta))]) d4 of
        (Inl e, d5) \<Rightarrow> (Inl e, fst sd, d5)
      | (Inr _, d5) \<Rightarrow> (Inr (), move_objects dm oldPath newPath fileEntries (fst sd), d5))))))"

definition RenameDirectory ::
  "('s, 'l) DirectoryManager \<Rightarrow> 'l dm_env \<Rightarrow> string \<Rightarrow> string \<Rightarrow> ('s, 'l) dm_state \<Rightarrow> unit res \<times> ('s, 'l) dm_state"
where
  "RenameDirectory dm env oldPath0 newName w =
     (let oldPath = NormalizePath oldPath0
      in if dmg_store dm \<noteq> None \<and> \<not> supportsDirectoryStorageOps dm
         then (Inl (Errorf ''directory rename is not supported for object storage''), w)
         else with_directory_lock dm env oldPath (dir_rename_body dm env oldPath newName) w)"

section \<open>What the loops do\<close>

text \<open>\<open>part_del P del rs rs'\<close>: some rows with \<open>P\<close> were deleted, no other row changed.\<close>

definition part_del :: "('r \<Rightarrow> bool) \<Rightarrow> ('r \<Rightarrow> 'r) \<Rightarrow> 'r list \<Rightarrow> 'r list \<Rightarrow> bool" where
  "part_del P del rs rs' \<longleftrightarrow> list_all2 (\<lambda>r r'. r' = r \<or> P r \<and> r' = del r) rs rs'"

lemma part_del_refl [simp]: "part_del P del rs rs"
  by (simp add: part_del_def list.rel_refl)

lemma part_del_trans:
  assumes "\<And>r. \<not> P (del r)" "part_del P del a b" "part_del P del b c"
  shows "part_del P del a c"
  unfolding part_del_def
proof (rule list_all2_trans [OF _ assms(2,3) [unfolded part_del_def]])
  fix x y z assume "y = x \<or> P x \<and> y = del x" "z = y \<or> P y \<and> z = del y"
  then show "z = x \<or> P x \<and> z = del x" using assms(1) [of x] by (elim disjE) simp_all
qed

lemma part_del_map: "part_del P del rs (map g rs) \<longleftrightarrow> (\<forall>r \<in> set rs. g r = r \<or> P r \<and> g r = del r)"
  by (auto simp: part_del_def list_all2_map2 list.rel_refl_strong list_all2_same)

lemma part_del_done:
  assumes "\<And>r. \<not> P (del r)" "part_del P del rs rs'" "filter P rs' = []"
  shows "rs' = map (\<lambda>r. if P r then del r else r) rs"
  using assms(2,3) unfolding part_del_def
  by (induction rule: list_all2_induct) (auto split: if_splits)

lemma part_del_key: "(\<And>r. k (del r) = k r) \<Longrightarrow> part_del P del rs rs' \<Longrightarrow> map k rs' = map k rs"
  unfolding part_del_def by (erule list_all2_induct) auto

lemma part_del_entries:
  assumes d: "distinct (map ident rs)" and es: "set es \<subseteq> set (map (\<lambda>r. (ident r, path r)) (filter P rs))"
    and f: "\<And>i p r. f i p r = del r \<or> i \<noteq> ident r"
  shows "part_del P del rs (upd_by_id ident f es rs)"
  unfolding upd_by_id_def part_del_map
proof
  fix r assume r: "r \<in> set rs"
  show "(case map_of es (ident r) of None \<Rightarrow> r | Some p \<Rightarrow> f (ident r) p r) = r \<or>
      P r \<and> (case map_of es (ident r) of None \<Rightarrow> r | Some p \<Rightarrow> f (ident r) p r) = del r"
  proof (cases "map_of es (ident r)")
    case (Some p)
    then have "(ident r, p) \<in> set es" by (rule map_of_SomeD)
    with es obtain q where "q \<in> set rs" "P q" "ident q = ident r" by auto
    with distinct_key_eq [OF d _ r] have "P r" by blast
    with Some f show ?thesis by auto
  qed simp
qed

abbreviation file_under_P :: "Dialect \<Rightarrow> string \<Rightarrow> FileMetadata \<Rightarrow> bool" where
  "file_under_P dl path r \<equiv> under_pat dl path (fm_Path r) \<and> \<not> fm_IsDeleted r"

abbreviation dir_under_P :: "Dialect \<Rightarrow> string \<Rightarrow> DirectoryMetadata \<Rightarrow> bool" where
  "dir_under_P dl path r \<equiv> under_pat dl path (dm_Path r) \<and> \<not> dm_IsDeleted r"

abbreviation file_gone :: "'l dm_env \<Rightarrow> FileMetadata \<Rightarrow> FileMetadata" where
  "file_gone env r \<equiv> r\<lparr>fm_IsDeleted := True, fm_UpdatedAt := de_row_ts env (fm_ID r)\<rparr>"

abbreviation dir_gone :: "'l dm_env \<Rightarrow> DirectoryMetadata \<Rightarrow> DirectoryMetadata" where
  "dir_gone env r \<equiv> r\<lparr>dm_IsDeleted := True, dm_UpdatedAt := de_row_ts env (dm_ID r)\<rparr>"

lemma files_part_del_wf:
  assumes "db_wf d" "same_tables d' (d\<lparr>t_files := rs\<rparr>)" "part_del P (file_gone env) (t_files d) rs"
  shows "db_wf d'"
proof -
  have "map fm_ID rs = map fm_ID (t_files d)" "map fm_Path rs = map fm_Path (t_files d)"
    by (rule part_del_key [OF _ assms(3)], simp)+
  with assms(1,2) show ?thesis by (simp add: db_wf_def file_unique_def same_tables_def)
qed

lemma dirs_part_del_wf:
  assumes "db_wf d" "same_tables d' (d\<lparr>t_dirs := rs\<rparr>)" "part_del P (dir_gone env) (t_dirs d) rs"
  shows "db_wf d'"
proof -
  have "map dm_ID rs = map dm_ID (t_dirs d)" "map dm_Path rs = map dm_Path (t_dirs d)"
    by (rule part_del_key [OF _ assms(3)], simp)+
  with assms(1,2) show ?thesis by (simp add: db_wf_def dir_unique_def same_tables_def)
qed

lemma file_batch_part_del:
  assumes "db_wf d" "es = take batchSize (files_under path d)"
  shows "part_del (file_under_P (db_dialect d) path) (file_gone env) (t_files d)
    (upd_by_id fm_ID (del_file (de_row_ts env)) es (t_files d))"
proof (rule part_del_entries [where path = fm_Path])
  show "set es \<subseteq> set (map (\<lambda>r. (fm_ID r, fm_Path r)) (filter (file_under_P (db_dialect d) path) (t_files d)))"
    using assms(2) set_take_subset [of batchSize "files_under path d"] by (simp only: files_under_def)
qed (use wf_files [OF assms(1)] in \<open>auto simp: del_file_def\<close>)

lemma dir_batch_part_del:
  assumes "db_wf d" "es = take batchSize (dirs_under path d)"
  shows "part_del (dir_under_P (db_dialect d) path) (dir_gone env) (t_dirs d)
    (upd_by_id dm_ID (del_dir (de_row_ts env)) es (t_dirs d))"
proof (rule part_del_entries [where path = dm_Path])
  show "set es \<subseteq> set (map (\<lambda>r. (dm_ID r, dm_Path r)) (filter (dir_under_P (db_dialect d) path) (t_dirs d)))"
    using assms(2) set_take_subset [of batchSize "dirs_under path d"] by (simp only: dirs_under_def)
qed (use wf_dirs [OF assms(1)] in \<open>auto simp: del_dir_def\<close>)

lemma delete_files_loop_res:
  assumes "db_wf d" "delete_files_loop dm env path (s, d) = (r, s', d')"
  shows "\<exists>rs. same_tables d' (d\<lparr>t_files := rs\<rparr>) \<and>
    part_del (file_under_P (db_dialect d) path) (file_gone env) (t_files d) rs \<and>
    (r = Inr () \<longrightarrow> filter (file_under_P (db_dialect d) path) rs = [])"
  using assms
proof (induction "length (files_under path d)" arbitrary: s d rule: less_induct)
  case less
  obtain q s1 d1 where b: "delete_file_batch dm env path (s, d) = (q, s1, d1)" by (metis surj_pair)
  let ?es = "take batchSize (files_under path d)"
  let ?rs = "upd_by_id fm_ID (del_file (de_row_ts env)) ?es (t_files d)"
  let ?P = "file_under_P (db_dialect d) path"
  note loop = less.prems(2) [unfolded delete_files_loop.simps [of dm env path "(s, d)"] b prod.case]
  from delete_file_batch_res [OF b] show ?case
  proof (elim disjE exE conjE)
    fix e assume "q = Inl e" "same_tables d1 d" "s1 = s"
    with loop show ?thesis by (intro exI [of _ "t_files d"]) auto
  next
    assume q: "q = Inr ?es" and s1: "same_tables d1 (d\<lparr>t_files := ?rs\<rparr>)"
    have pd: "part_del ?P (file_gone env) (t_files d) ?rs" by (rule file_batch_part_del [OF less.prems(1) refl])
    show ?thesis
    proof (cases ?es)
      case Nil
      then have u: "files_under path d = []" by (simp add: batchSize_def)
      then have "filter ?P (t_files d) = []" unfolding files_under_def map_is_Nil_conv .
      with u loop q s1 show ?thesis by (intro exI [of _ "t_files d"]) (simp add: upd_by_id_def same_tables_def)
    next
      case (Cons e es)
      have lt: "length (files_under path d1) < length (files_under path d)"
        by (rule file_batch_decreases [OF Cons]) (use s1 Cons in simp)
      have wf: "db_wf d1" by (rule files_part_del_wf [OF less.prems(1) s1 pd])
      have "delete_files_loop dm env path (s1, d1) = (r, s', d')" using loop q Cons by simp
      from less.hyps [OF lt wf this] s1 part_del_trans [OF _ pd, of _] obtain rs
        where "same_tables d' (d\<lparr>t_files := rs\<rparr>)" "part_del ?P (file_gone env) ?rs rs" "r = Inr () \<longrightarrow> filter ?P rs = []"
        by (auto simp: same_tables_def)
      moreover from this(2) have "part_del ?P (file_gone env) (t_files d) rs" by (intro part_del_trans [OF _ pd]) simp_all
      ultimately show ?thesis by blast
    qed
  qed
qed

lemma delete_dirs_loop_res:
  assumes "db_wf d" "delete_dirs_loop dm env path (s, d) = (r, s', d')"
  shows "\<exists>rs. same_tables d' (d\<lparr>t_dirs := rs\<rparr>) \<and>
    part_del (dir_under_P (db_dialect d) path) (dir_gone env) (t_dirs d) rs \<and>
    (r = Inr () \<longrightarrow> filter (dir_under_P (db_dialect d) path) rs = [])"
  using assms
proof (induction "length (dirs_under path d)" arbitrary: s d rule: less_induct)
  case less
  obtain q s1 d1 where b: "delete_dir_batch dm env path (s, d) = (q, s1, d1)" by (metis surj_pair)
  let ?es = "take batchSize (dirs_under path d)"
  let ?rs = "upd_by_id dm_ID (del_dir (de_row_ts env)) ?es (t_dirs d)"
  let ?P = "dir_under_P (db_dialect d) path"
  note loop = less.prems(2) [unfolded delete_dirs_loop.simps [of dm env path "(s, d)"] b prod.case]
  from delete_dir_batch_res [OF b] show ?case
  proof (elim disjE exE conjE)
    fix e assume "q = Inl e" "same_tables d1 d" "s1 = s"
    with loop show ?thesis by (intro exI [of _ "t_dirs d"]) auto
  next
    assume q: "q = Inr ?es" and s1: "same_tables d1 (d\<lparr>t_dirs := ?rs\<rparr>)"
    have pd: "part_del ?P (dir_gone env) (t_dirs d) ?rs" by (rule dir_batch_part_del [OF less.prems(1) refl])
    show ?thesis
    proof (cases ?es)
      case Nil
      then have u: "dirs_under path d = []" by (simp add: batchSize_def)
      then have "filter ?P (t_dirs d) = []" unfolding dirs_under_def map_is_Nil_conv .
      with u loop q s1 show ?thesis by (intro exI [of _ "t_dirs d"]) (simp add: upd_by_id_def same_tables_def)
    next
      case (Cons e es)
      have lt: "length (dirs_under path d1) < length (dirs_under path d)"
        by (rule dir_batch_decreases [OF Cons]) (use s1 Cons in simp)
      have wf: "db_wf d1" by (rule dirs_part_del_wf [OF less.prems(1) s1 pd])
      have "delete_dirs_loop dm env path (s1, d1) = (r, s', d')" using loop q Cons by simp
      from less.hyps [OF lt wf this] s1 obtain rs
        where "same_tables d' (d\<lparr>t_dirs := rs\<rparr>)" "part_del ?P (dir_gone env) ?rs rs" "r = Inr () \<longrightarrow> filter ?P rs = []"
        by (auto simp: same_tables_def)
      moreover from this(2) have "part_del ?P (dir_gone env) (t_dirs d) rs" by (intro part_del_trans [OF _ pd]) simp_all
      ultimately show ?thesis by blast
    qed
  qed
qed

lemma live_part_del:
  assumes "part_del (\<lambda>r. U (k r) \<and> \<not> del r) gone rs rs'" "distinct (map k rs)"
    and gone: "\<And>r. k (gone r) = k r" "\<And>r. del (gone r)"
  shows "find (\<lambda>r. k r = q \<and> \<not> del r) rs' = find (\<lambda>r. k r = q \<and> \<not> del r) rs \<or>
    U q \<and> find (\<lambda>r. k r = q \<and> \<not> del r) rs' = None"
  using assms(1,2) unfolding part_del_def
proof (induction rule: list_all2_induct)
  case (Cons x xs y ys)
  have keys: "map k ys = map k xs"
    using part_del_key [where k = k and del = gone and P = "\<lambda>r. U (k r) \<and> \<not> del r"] gone(1) Cons.hyps(2) by (simp add: part_del_def)
  from Cons.hyps(1) show ?case
  proof
    assume "y = x" with Cons show ?thesis by auto
  next
    assume y: "(U (k x) \<and> \<not> del x) \<and> y = gone x"
    show ?thesis
    proof (cases "k x = q")
      case True
      then have "q \<notin> set (map k ys)" using Cons.prems keys by auto
      then have "find (\<lambda>r. k r = q \<and> \<not> del r) ys = None" by (auto simp: find_None_iff)
      with y True gone show ?thesis by auto
    next
      case False
      with y gone Cons show ?thesis by auto
    qed
  qed
qed simp

lemma Dir_GetByPath_res:
  assumes "Dir_GetByPath p d = (r, d1)"
  shows "same_tables d1 d" and "r = Inr (Some m) \<Longrightarrow> live_dir d (NormalizePath p) = Some m"
proof -
  let ?P = "\<lambda>r. dm_Path r = NormalizePath p \<and> \<not> dm_IsDeleted r"
  obtain q d2 where q: "db_QueryRow (\<lambda>d. filter ?P (t_dirs d)) d = (q, d2)" by fastforce
  have d1: "d1 = d2" and rq: "r = Inr (Some m) \<Longrightarrow> q = Inr m" for m
    using assms q by (auto simp: Dir_GetByPath_def scanDirectoryMetadata_def Let_def split: sum.splits if_splits)
  show "same_tables d1 d" using db_QueryRow_same [OF q] d1 by simp
  show "live_dir d (NormalizePath p) = Some m" if "r = Inr (Some m)"
    using q [unfolded rq [OF that]]
    by (auto simp: db_QueryRow_def live_dir_def find_filter_hd dest!: pop_fault_same
        simp: same_tables_def split: prod.splits option.splits list.splits)
qed

lemma DM_Exists_same: "DM_Exists p d = (b, d1) \<Longrightarrow> same_tables d1 d"
  by (auto simp: DM_Exists_def Dir_Exists_def Let_def dest: db_QueryRow_same split: prod.splits sum.splits)

lemma Dir_Remove_err: "Dir_Remove now i d = (Inl e, d') \<Longrightarrow> same_tables d' d"
  by (auto simp: Dir_Remove_def split: prod.splits sum.splits dest!: db_Exec_err)

lemma Dir_Remove_files: "Dir_Remove now i d = (r, d') \<Longrightarrow> live_file d' = live_file d"
proof (cases r)
  case (Inl e)
  assume "Dir_Remove now i d = (r, d')"
  with Inl Dir_Remove_err live_file_eq show ?thesis by metis
next
  case (Inr u)
  assume "Dir_Remove now i d = (r, d')"
  with Inr obtain d0 rs where "same_tables d0 d" "d' = d0\<lparr>t_dirs := rs\<rparr>" using Dir_Remove_ok [of now i d d'] by auto
  then show ?thesis by (simp add: live_file_def same_tables_def fun_eq_iff)
qed

lemma delete_self_res:
  assumes "db_wf d" "NormalizePath path = path" "delete_self env path d = (r, d')"
  shows "live_file d' = live_file d \<and>
    ((\<exists>e. r = Inl e \<and> same_tables d' d) \<or>
     (r = Inr () \<and> live_dir d path \<noteq> None \<and> db_wf d' \<and> live_dir d' = (live_dir d)(path := None)))"
proof -
  obtain g d1 where g: "Dir_GetByPath path d = (g, d1)" by fastforce
  note s1 = Dir_GetByPath_res(1) [OF g]
  have eq: "live_file d1 = live_file d" "live_dir d1 = live_dir d" "db_wf d1"
    using live_file_eq [OF s1] live_dir_eq [OF s1] same_tables_wf [OF s1] assms(1) by auto
  show ?thesis
  proof (cases "\<exists>m. g = Inr (Some m)")
    case False
    with g assms(3) have "(\<exists>e. r = Inl e) \<and> d' = d1" by (auto simp: delete_self_def split: sum.splits option.splits)
    with s1 eq show ?thesis by auto
  next
    case True
    then obtain m where m: "g = Inr (Some m)" by blast
    have l: "live_dir d1 path = Some m" using Dir_GetByPath_res(2) [OF g m] assms(2) eq(2) by simp
    have rm: "Dir_Remove (de_ts env) (dm_ID m) d1 = (r, d')" using assms(3) g m by (simp add: delete_self_def)
    show ?thesis
    proof (cases r)
      case (Inl e)
      with rm have "same_tables d' d" using Dir_Remove_err same_tables_trans [OF _ s1] by blast
      with Inl Dir_Remove_files [OF rm] eq show ?thesis by simp
    next
      case (Inr u)
      with Dir_Remove_live [OF eq(3) l] rm Dir_Remove_files [OF rm] eq l show ?thesis by auto
    qed
  qed
qed

text \<open>What a database change may do to the visible records: forget some below \<open>path\<close>.\<close>

definition forgets :: "(string \<Rightarrow> bool) \<Rightarrow> (string \<Rightarrow> 'r option) \<Rightarrow> (string \<Rightarrow> 'r option) \<Rightarrow> bool" where
  "forgets U l l' \<longleftrightarrow> (\<forall>q. l' q = l q \<or> U q \<and> l' q = None)"

lemma delete_files_loop_live:
  assumes wf: "db_wf d" and l: "delete_files_loop dm env path (s, d) = (r, s', d')"
  shows "db_wf d' \<and> db_dialect d' = db_dialect d \<and> live_dir d' = live_dir d \<and>
    forgets (under_pat (db_dialect d) path) (live_file d) (live_file d') \<and>
    (r = Inr () \<longrightarrow> (\<forall>q. under_pat (db_dialect d) path q \<longrightarrow> live_file d' q = None))"
proof -
  let ?P = "file_under_P (db_dialect d) path"
  obtain rs where rs: "same_tables d' (d\<lparr>t_files := rs\<rparr>)" "part_del ?P (file_gone env) (t_files d) rs"
    "r = Inr () \<longrightarrow> filter ?P rs = []" using delete_files_loop_res [OF wf l] by blast
  have t: "t_files d' = rs" "db_dialect d' = db_dialect d" "live_dir d' = live_dir d"
    using rs(1) by (simp_all add: same_tables_def live_dir_def fun_eq_iff)
  have f: "forgets (under_pat (db_dialect d) path) (live_file d) (live_file d')"
    using live_part_del [where k = fm_Path and del = fm_IsDeleted and gone = "file_gone env", OF rs(2)] wf_files [OF wf]
    unfolding forgets_def live_file_def t(1) by simp
  have "live_file d' q = None" if "r = Inr ()" "under_pat (db_dialect d) path q" for q
    using rs(3) that unfolding live_file_def t(1) by (auto simp: find_None_iff filter_empty_conv)
  with f t files_part_del_wf [OF wf rs(1,2)] show ?thesis by simp
qed

lemma delete_dirs_loop_live:
  assumes wf: "db_wf d" and l: "delete_dirs_loop dm env path (s, d) = (r, s', d')"
  shows "db_wf d' \<and> live_file d' = live_file d \<and>
    forgets (under_pat (db_dialect d) path) (live_dir d) (live_dir d') \<and>
    (r = Inr () \<longrightarrow> (\<forall>q. under_pat (db_dialect d) path q \<longrightarrow> live_dir d' q = None))"
proof -
  let ?P = "dir_under_P (db_dialect d) path"
  obtain rs where rs: "same_tables d' (d\<lparr>t_dirs := rs\<rparr>)" "part_del ?P (dir_gone env) (t_dirs d) rs"
    "r = Inr () \<longrightarrow> filter ?P rs = []" using delete_dirs_loop_res [OF wf l] by blast
  have t: "t_dirs d' = rs" "live_file d' = live_file d"
    using rs(1) by (simp_all add: same_tables_def live_file_def fun_eq_iff)
  have f: "forgets (under_pat (db_dialect d) path) (live_dir d) (live_dir d')"
    using live_part_del [where k = dm_Path and del = dm_IsDeleted and gone = "dir_gone env", OF rs(2)] wf_dirs [OF wf]
    unfolding forgets_def live_dir_def t(1) by simp
  have "live_dir d' q = None" if "r = Inr ()" "under_pat (db_dialect d) path q" for q
    using rs(3) that unfolding live_dir_def t(1) by (auto simp: find_None_iff filter_empty_conv)
  with f t dirs_part_del_wf [OF wf rs(1,2)] show ?thesis by simp
qed

text \<open>What is promised of a deletion: nothing outside the directory changes, and after a
  success nothing of the directory is left.\<close>

definition deleted_tree :: "string \<Rightarrow> db \<Rightarrow> bool \<Rightarrow> db \<Rightarrow> bool" where
  "deleted_tree path d ok d' \<longleftrightarrow>
     (let U = under_pat (db_dialect d) path
      in db_wf d' \<and> forgets U (live_file d) (live_file d') \<and>
         forgets (\<lambda>q. U q \<or> q = path) (live_dir d) (live_dir d') \<and>
         (ok \<longrightarrow> (\<forall>q. U q \<longrightarrow> live_file d' q = None \<and> live_dir d' q = None) \<and> live_dir d' path = None))"

lemma forgets_refl [simp]: "forgets U l l"
  by (simp add: forgets_def)

lemma forgets_weaken: "forgets U l l' \<Longrightarrow> forgets (\<lambda>q. U q \<or> q = p) l l'"
  by (auto simp: forgets_def)

lemma same_deleted_tree: "db_wf d \<Longrightarrow> same_tables d' d \<Longrightarrow> deleted_tree path d False d'"
  using live_file_eq [of d' d] live_dir_eq [of d' d] same_tables_wf [of d' d] by (simp add: deleted_tree_def)

lemma deleted_tree_same:
  "same_tables d1 d \<Longrightarrow> deleted_tree path d1 ok d' \<Longrightarrow> deleted_tree path d ok d'"
  using live_file_eq [of d1 d] live_dir_eq [of d1 d] by (simp add: deleted_tree_def same_tables_def)

lemma delete_recursive_res:
  assumes wf: "db_wf d" and n: "NormalizePath path = path"
    and f: "delete_files_loop dm env path (s, d) = (Inr (), s1, d1)" and g: "delete_dirs_loop dm env path (s1, d1) = (Inr (), s2, d2)"
    and h: "delete_self env path d2 = (r, d3)"
  shows "deleted_tree path d (r = Inr ()) d3"
proof -
  let ?U = "under_pat (db_dialect d) path"
  note a = delete_files_loop_live [OF wf f]
  note b = delete_dirs_loop_live [OF conjunct1 [OF a] g]
  note c = delete_self_res [OF conjunct1 [OF b] n h]
  have fl: "live_file d3 = live_file d1" using b c by simp
  have dl: "live_dir d3 = live_dir d2 \<or> r = Inr () \<and> live_dir d3 = (live_dir d2)(path := None)"
    using c live_dir_eq by blast
  have "db_wf d3" using c b same_tables_wf by blast
  moreover have "forgets (\<lambda>q. ?U q \<or> q = path) (live_dir d) (live_dir d3)"
    using a b dl unfolding forgets_def by (metis fun_upd_apply)
  moreover have "live_dir d3 q = None" if "?U q" "r = Inr ()" for q using dl a b that by auto
  moreover have "r = Inr () \<longrightarrow> live_dir d3 path = None" using c by auto
  ultimately show ?thesis using a fl by (simp add: deleted_tree_def)
qed

lemma dir_delete_body_res:
  assumes wf: "db_wf d" and n: "NormalizePath path = path" and b: "dir_delete_body dm env path True (s, d) = (r, s', d')"
  shows "deleted_tree path d (r = Inr ()) d'"
proof -
  obtain ex d1 where e: "DM_Exists path d = (ex, d1)" by fastforce
  note s1 = DM_Exists_same [OF e]
  have wf1: "db_wf d1" using same_tables_wf [OF s1] wf by simp
  obtain r2 s2 d2 where f: "delete_files_loop dm env path (s, d1) = (r2, s2, d2)" by (metis surj_pair)
  obtain r3 s3 d3 where g: "delete_dirs_loop dm env path (s2, d2) = (r3, s3, d3)" by (metis surj_pair)
  obtain r4 d4 where h: "delete_self env path d3 = (r4, d4)" by fastforce
  note a = delete_files_loop_live [OF wf1 f]
  note c = delete_dirs_loop_live [OF conjunct1 [OF a] g]
  have "deleted_tree path d1 (r = Inr ()) d'" if ex
  proof (cases r2)
    case (Inl e)
    with that b \<open>DM_Exists path d = (ex, d1)\<close> f have "r = Inl e" "d' = d2" by (auto simp: dir_delete_body_def)
    with a show ?thesis by (simp add: deleted_tree_def)
  next
    case (Inr u)
    show ?thesis
    proof (cases r3)
      case (Inl e)
      with that b \<open>DM_Exists path d = (ex, d1)\<close> f g Inr have "r = Inl e" "d' = d3" by (auto simp: dir_delete_body_def)
      with a c forgets_weaken show ?thesis by (auto simp: deleted_tree_def)
    next
      case (Inr v)
      with that b e f g h \<open>r2 = Inr u\<close> have "r = r4" "d' = d4" by (auto simp: dir_delete_body_def)
      with delete_recursive_res [OF wf1 n _ _ h] f g \<open>r2 = Inr u\<close> Inr show ?thesis by simp
    qed
  qed
  moreover have "deleted_tree path d1 (r = Inr ()) d'" if "\<not> ex"
    using that b e same_deleted_tree [OF wf1, of d1 path] by (auto simp: dir_delete_body_def)
  ultimately show ?thesis using deleted_tree_same [OF s1] by blast
qed

section \<open>What a rename does\<close>

definition ren_file :: "string \<Rightarrow> string \<Rightarrow> string \<Rightarrow> string \<Rightarrow> string \<Rightarrow> FileMetadata \<Rightarrow> FileMetadata" where
  "ren_file oldPath newPath now i p r =
     r\<lparr>fm_Path := newPath @ drop (length oldPath) p, fm_Name := GetFileName (newPath @ drop (length oldPath) p), fm_UpdatedAt := now\<rparr>"

definition ren_dir :: "string \<Rightarrow> string \<Rightarrow> string \<Rightarrow> string \<Rightarrow> string \<Rightarrow> DirectoryMetadata \<Rightarrow> DirectoryMetadata" where
  "ren_dir oldPath newPath now i p r =
     r\<lparr>dm_Path := newPath @ drop (length oldPath) p, dm_Name := GetFileName (newPath @ drop (length oldPath) p), dm_UpdatedAt := now\<rparr>"

lemma ren_file_stmt_alt:
  "ren_file_stmt oldPath newPath now i p d = (let rs = updrows (\<lambda>r. fm_ID r = i) (ren_file oldPath newPath now i p) (t_files d)
     in if file_unique rs then Some (d\<lparr>t_files := rs\<rparr>) else None)"
  by (simp add: ren_file_stmt_def set_files_def ren_file_def [abs_def] Let_def)

lemma ren_dir_stmt_alt:
  "ren_dir_stmt oldPath newPath now i p d = (let rs = updrows (\<lambda>r. dm_ID r = i) (ren_dir oldPath newPath now i p) (t_dirs d)
     in if dir_unique rs then Some (d\<lparr>t_dirs := rs\<rparr>) else None)"
  by (simp add: ren_dir_stmt_def set_dirs_def ren_dir_def [abs_def] Let_def)

lemma tx_execs_append:
  "tx_execs (a @ b) d = (case tx_execs a d of (Inl e, d1) \<Rightarrow> (Inl e, d1) | (Inr _, d1) \<Rightarrow> tx_execs b d1)"
  by (induction a arbitrary: d) (auto split: prod.splits sum.splits)

text \<open>An update by the ids of a selection of the rows changes exactly the selected rows.\<close>

lemma upd_by_id_select:
  assumes d: "distinct (map ident rs)"
  shows "upd_by_id ident f (map (\<lambda>r. (ident r, path r)) (filter P rs)) rs =
    map (\<lambda>r. if P r then f (ident r) (path r) r else r) rs"
  unfolding upd_by_id_def
proof (rule map_cong [OF refl])
  fix r assume r: "r \<in> set rs"
  have "map_of (map (\<lambda>r. (ident r, path r)) (filter P rs)) (ident r) = (if P r then Some (path r) else None)"
  proof (cases "P r")
    case True
    have "distinct (map fst (map (\<lambda>r. (ident r, path r)) (filter P rs)))"
      using d by (simp add: o_def distinct_map inj_on_def)
    with True r show ?thesis by (auto intro!: map_of_is_SomeI)
  next
    case False
    have "ident r \<notin> fst ` set (map (\<lambda>r. (ident r, path r)) (filter P rs))"
      using False distinct_key_eq [OF d _ r] by auto
    with False show ?thesis by (auto simp: map_of_eq_None_iff)
  qed
  then show "(case map_of (map (\<lambda>r. (ident r, path r)) (filter P rs)) (ident r) of None \<Rightarrow> r | Some p \<Rightarrow> f (ident r) p r) =
      (if P r then f (ident r) (path r) r else r)" by simp
qed

text \<open>The rows after a rename of the directory with record \<open>meta\<close>.\<close>

definition renamed_files :: "string \<Rightarrow> string \<Rightarrow> string \<Rightarrow> db \<Rightarrow> FileMetadata list" where
  "renamed_files oldPath newPath now d =
     map (\<lambda>r. if file_under_P (db_dialect d) oldPath r then ren_file oldPath newPath now (fm_ID r) (fm_Path r) r else r) (t_files d)"

definition renamed_dirs :: "string \<Rightarrow> string \<Rightarrow> string \<Rightarrow> string \<Rightarrow> DirectoryMetadata \<Rightarrow> db \<Rightarrow> DirectoryMetadata list" where
  "renamed_dirs oldPath newPath newName now meta d =
     map (\<lambda>r. if dm_ID r = dm_ID meta then r\<lparr>dm_Path := newPath, dm_Name := newName, dm_UpdatedAt := now\<rparr>
              else if dir_under_P (db_dialect d) oldPath r then ren_dir oldPath newPath now (dm_ID r) (dm_Path r) r else r) (t_dirs d)"

lemma rename_tx:
  assumes wf: "db_wf d"
    and x: "tx_execs (map (\<lambda>(i, p). (m1, ren_file_stmt oldPath newPath now i p)) (files_under oldPath d) @
            map (\<lambda>(i, p). (m2, ren_dir_stmt oldPath newPath now i p)) (dirs_under oldPath d) @
            [(m3, ren_self_stmt newPath newName now (dm_ID meta))]) d = (Inr (), d')"
  shows "same_tables d' (d\<lparr>t_files := renamed_files oldPath newPath now d,
      t_dirs := renamed_dirs oldPath newPath newName now meta d\<rparr>) \<and> db_wf d'"
proof -
  let ?fs = "map (\<lambda>(i, p). (m1, ren_file_stmt oldPath newPath now i p)) (files_under oldPath d)"
  let ?ds = "map (\<lambda>(i, p). (m2, ren_dir_stmt oldPath newPath now i p)) (dirs_under oldPath d)"
  from x obtain d1 d2 where x1: "tx_execs ?fs d = (Inr (), d1)" and x2: "tx_execs ?ds d1 = (Inr (), d2)"
    and x3: "db_Exec (ren_self_stmt newPath newName now (dm_ID meta)) d2 = (Inr (), d')"
    by (auto simp: tx_execs_append split: prod.splits sum.splits)
  have "same_tables d1 (d\<lparr>t_files := upd_by_id fm_ID (ren_file oldPath newPath now) (files_under oldPath d) (t_files d)\<rparr>) \<and>
      (file_unique (t_files d) \<longrightarrow> file_unique (t_files d1))"
    by (rule file_rows.tx_rows [OF _ _ _ x1])
       (use files_under_distinct [OF wf] in \<open>simp_all add: ren_file_stmt_alt ren_file_def\<close>)
  moreover have "upd_by_id fm_ID (ren_file oldPath newPath now) (files_under oldPath d) (t_files d) = renamed_files oldPath newPath now d"
    unfolding files_under_def renamed_files_def using wf_files [OF wf] by (intro upd_by_id_select) simp
  ultimately have r1: "same_tables d1 (d\<lparr>t_files := renamed_files oldPath newPath now d\<rparr>)" "file_unique (t_files d1)"
    using wf by (simp_all add: db_wf_def)
  have "same_tables d2 (d1\<lparr>t_dirs := upd_by_id dm_ID (ren_dir oldPath newPath now) (dirs_under oldPath d) (t_dirs d1)\<rparr>) \<and>
      (dir_unique (t_dirs d1) \<longrightarrow> dir_unique (t_dirs d2))"
    by (rule dir_rows.tx_rows [OF _ _ _ x2])
       (use dirs_under_distinct [OF wf] in \<open>simp_all add: ren_dir_stmt_alt ren_dir_def\<close>)
  moreover have "upd_by_id dm_ID (ren_dir oldPath newPath now) (dirs_under oldPath d) (t_dirs d) =
      map (\<lambda>r. if dir_under_P (db_dialect d) oldPath r then ren_dir oldPath newPath now (dm_ID r) (dm_Path r) r else r) (t_dirs d)"
    unfolding dirs_under_def using wf_dirs [OF wf] by (intro upd_by_id_select) simp
  ultimately have r2: "same_tables d2 (d\<lparr>t_files := renamed_files oldPath newPath now d, t_dirs :=
      map (\<lambda>r. if dir_under_P (db_dialect d) oldPath r then ren_dir oldPath newPath now (dm_ID r) (dm_Path r) r else r) (t_dirs d)\<rparr>)"
    using r1(1) by (simp add: same_tables_def)
  let ?self = "\<lambda>r. r\<lparr>dm_Path := newPath, dm_Name := newName, dm_UpdatedAt := now\<rparr>"
  obtain d0 where d0: "same_tables d0 d2" "d' = d0\<lparr>t_dirs := updrows (\<lambda>r. dm_ID r = dm_ID meta) ?self (t_dirs d2)\<rparr>"
    "dir_unique (t_dirs d')"
    using Exec_dirs_ok [where F = "updrows (\<lambda>r. dm_ID r = dm_ID meta) ?self", OF x3 [unfolded ren_self_stmt_def [abs_def]]] by auto
  have c: "updrows (\<lambda>r. dm_ID r = dm_ID meta) ?self
      (map (\<lambda>r. if dir_under_P (db_dialect d) oldPath r then ren_dir oldPath newPath now (dm_ID r) (dm_Path r) r else r) (t_dirs d)) =
      renamed_dirs oldPath newPath newName now meta d"
    by (simp add: updrows_def renamed_dirs_def ren_dir_def)
  have "same_tables d' (d\<lparr>t_files := renamed_files oldPath newPath now d,
      t_dirs := renamed_dirs oldPath newPath newName now meta d\<rparr>)"
    using r2 d0(1,2) c by (simp add: same_tables_def)
  moreover from this have "db_wf d'" using wf d0(3) r1 by (simp add: db_wf_def same_tables_def)
  ultimately show ?thesis by simp
qed

definition renamed_tree :: "string \<Rightarrow> string \<Rightarrow> string \<Rightarrow> db \<Rightarrow> db \<Rightarrow> bool" where
  "renamed_tree oldPath newName now d d' \<longleftrightarrow>
     (\<exists>meta. live_dir d oldPath = Some meta \<and>
        (let newPath = NormalizePath (GetDirectory oldPath @ ''/'' @ newName)
         in same_tables d' (d\<lparr>t_files := renamed_files oldPath newPath now d,
              t_dirs := renamed_dirs oldPath newPath newName now meta d\<rparr>)) \<and> db_wf d')"

lemma renamed_tree_same:
  assumes "same_tables d1 d" "renamed_tree oldPath newName now d1 d'"
  shows "renamed_tree oldPath newName now d d'"
  using assms live_dir_eq [OF assms(1)]
  by (auto simp: renamed_tree_def Let_def same_tables_def renamed_files_def renamed_dirs_def)

lemma dir_rename_body_res:
  assumes wf: "db_wf d" and n: "NormalizePath oldPath = oldPath"
    and b: "dir_rename_body dm env oldPath newName (s, d) = (r, s', d')"
  shows "(r = Inr () \<and> renamed_tree oldPath newName (de_ts env) d d') \<or> (\<exists>e. r = Inl e \<and> same_tables d' d \<and> s' = s)"
proof -
  let ?new = "NormalizePath (GetDirectory oldPath @ ''/'' @ newName)"
  obtain gm d1 where g: "GetDirectoryMetadata oldPath d = (gm, d1)" by fastforce
  obtain gp dp where gp: "Dir_GetByPath oldPath d = (gp, dp)" by fastforce
  have s1: "same_tables d1 d" and ml: "\<And>m. gm = Inr m \<Longrightarrow> live_dir d oldPath = Some m"
    using g gp Dir_GetByPath_res [OF gp] n by (auto simp: GetDirectoryMetadata_def split: sum.splits option.splits)
  obtain ex d2 where e: "DM_Exists ?new d1 = (ex, d2)" by fastforce
  have s2: "same_tables d2 d" using DM_Exists_same [OF e] s1 same_tables_trans by blast
  obtain q3 d3 where q3: "query_entries ''failed to query child files'' ''failed to iterate file rows'' (files_under oldPath) d2 = (q3, d3)"
    by fastforce
  have s3: "same_tables d3 d" using query_entries_same [OF q3] s2 same_tables_trans by blast
  obtain q4 d4 where q4: "query_entries ''failed to query child directories'' ''failed to iterate directory rows'' (dirs_under oldPath) d3 = (q4, d4)"
    by fastforce
  have s4: "same_tables d4 d" using query_entries_same [OF q4] s3 same_tables_trans by blast
  have fe: "es = files_under oldPath d4" if "q3 = Inr es" for es
  proof -
    have "es = files_under oldPath d2" by (rule query_entries_ok [OF q3 [unfolded that]]) (simp add: under_same)
    then show ?thesis using under_same [OF s2] under_same [OF s4] by simp
  qed
  have de: "es = dirs_under oldPath d4" if "q4 = Inr es" for es
  proof -
    have "es = dirs_under oldPath d3" by (rule query_entries_ok [OF q4 [unfolded that]]) (simp add: under_same)
    then show ?thesis using under_same [OF s3] under_same [OF s4] by simp
  qed
  show ?thesis
  proof (cases "(\<exists>e. gm = Inl e) \<or> ex \<or> (\<exists>e. q3 = Inl e) \<or> (\<exists>e. q4 = Inl e)")
    case True
    then show ?thesis using b g e q3 q4 s1 s2 s3 s4
      by (cases gm; cases ex; cases q3; cases q4) (auto simp: dir_rename_body_def Let_def)
  next
    case False
    then obtain m es1 es2 where c: "gm = Inr m" "\<not> ex" "q3 = Inr es1" "q4 = Inr es2"
      by (meson sum.exhaust_sel isl_def)
    let ?ss = "map (\<lambda>(i, p). (''failed to update file path'', ren_file_stmt oldPath ?new (de_ts env) i p)) es1 @
            map (\<lambda>(i, p). (''failed to update directory path'', ren_dir_stmt oldPath ?new (de_ts env) i p)) es2 @
            [(''failed to update directory metadata'', ren_self_stmt ?new newName (de_ts env) (dm_ID m))]"
    obtain x d5 where x: "in_tx ''failed to begin rename transaction'' ''failed to commit rename'' ?ss d4 = (x, d5)" by fastforce
    have r: "r = (case x of Inl e \<Rightarrow> Inl e | Inr _ \<Rightarrow> Inr ())" "d' = d5" "isl x \<Longrightarrow> s' = s"
      using b g e q3 q4 c x by (auto simp: dir_rename_body_def Let_def split: sum.splits)
    from in_tx_cases [OF x] show ?thesis
    proof (elim disjE exE conjE)
      fix er assume "x = Inl er" "same_tables d5 d4"
      with r s4 same_tables_trans show ?thesis by auto
    next
      fix d6 d7 assume t: "x = Inr ()" "same_tables d6 d4" "tx_execs ?ss d6 = (Inr (), d7)" "same_tables d5 d7"
      have s6: "same_tables d6 d" using t(2) s4 same_tables_trans by blast
      have wf6: "db_wf d6" using same_tables_wf [OF s6] wf by simp
      have es: "es1 = files_under oldPath d6" "es2 = dirs_under oldPath d6"
        using fe [OF c(3)] de [OF c(4)] under_same [OF t(2)] by simp_all
      from rename_tx [OF wf6 t(3) [unfolded es]] t(4) same_tables_wf [OF t(4)] live_dir_eq [OF s6] ml [OF c(1)]
      have "renamed_tree oldPath newName (de_ts env) d6 d5"
        by (auto simp: renamed_tree_def Let_def intro: same_tables_trans)
      with renamed_tree_same [OF s6] r t(1) show ?thesis by simp
    qed
  qed
qed

section \<open>Properties\<close>

lemma with_directory_lock_cases:
  assumes "with_directory_lock dm env path body w = (r, w')"
  shows "(\<exists>e. r = Inl e \<and> x_store w' = x_store w \<and> x_db w' = x_db w) \<or>
    body (x_store w, x_db w) = (r, x_store w', x_db w')"
  using assms by (auto simp: with_directory_lock_def split: prod.splits sum.splits)



lemma delete_file_batch_total:
  assumes wf: "db_wf d" and f: "db_faults d = []"
  shows "\<exists>s' d'. delete_file_batch dm env path (s, d) = (Inr (take batchSize (files_under path d)), s', d') \<and> db_faults d' = []"
proof (cases "take batchSize (files_under path d)")
  case Nil
  with f show ?thesis by (simp add: delete_file_batch_def query_entries_total del: take_eq_Nil take_eq_Nil2)
next
  case (Cons e es)
  let ?ss = "map (\<lambda>(i, p). (''failed to delete file metadata'', del_file_stmt (de_row_ts env i) i)) (e # es)"
  have "\<exists>d'. tx_execs ?ss d = (Inr (), d') \<and> db_faults d' = []"
    by (rule file_rows.tx_rows_total [where f = "del_file (de_row_ts env)" and stmt = "\<lambda>i p. del_file_stmt (de_row_ts env i) i"])
       (rule del_file_stmt_alt, use wf f in \<open>simp_all add: db_wf_def file_unique_def updrows_key del_file_def\<close>)
  then obtain d' where d': "tx_execs ?ss d = (Inr (), d')" "db_faults d' = []" by blast
  from in_tx_total [OF f d'] Cons f d'(2) show ?thesis by (simp add: delete_file_batch_def query_entries_total)
qed

lemma delete_dir_batch_total:
  assumes wf: "db_wf d" and f: "db_faults d = []"
  shows "\<exists>s' d'. delete_dir_batch dm env path (s, d) = (Inr (take batchSize (dirs_under path d)), s', d') \<and> db_faults d' = []"
proof (cases "take batchSize (dirs_under path d)")
  case Nil
  with f show ?thesis by (simp add: delete_dir_batch_def query_entries_total del: take_eq_Nil take_eq_Nil2)
next
  case (Cons e es)
  let ?ss = "map (\<lambda>(i, p). (''failed to delete directory metadata'', del_dir_stmt (de_row_ts env i) i)) (e # es)"
  have "\<exists>d'. tx_execs ?ss d = (Inr (), d') \<and> db_faults d' = []"
    by (rule dir_rows.tx_rows_total [where f = "del_dir (de_row_ts env)" and stmt = "\<lambda>i p. del_dir_stmt (de_row_ts env i) i"])
       (rule del_dir_stmt_alt, use wf f in \<open>simp_all add: db_wf_def dir_unique_def updrows_key del_dir_def\<close>)
  then obtain d' where d': "tx_execs ?ss d = (Inr (), d')" "db_faults d' = []" by blast
  from in_tx_total [OF f d'] Cons f d'(2) show ?thesis by (simp add: delete_dir_batch_def query_entries_total)
qed

lemma delete_files_loop_total:
  assumes "db_wf d" "db_faults d = []"
  shows "\<exists>s' d'. delete_files_loop dm env path (s, d) = (Inr (), s', d') \<and> db_faults d' = []"
  using assms
proof (induction "length (files_under path d)" arbitrary: s d rule: less_induct)
  case less
  obtain s1 d1 where b: "delete_file_batch dm env path (s, d) = (Inr (take batchSize (files_under path d)), s1, d1)"
    and f1: "db_faults d1 = []" using delete_file_batch_total [OF less.prems, of dm env path s] by blast
  let ?es = "take batchSize (files_under path d)"
  have s1: "same_tables d1 (d\<lparr>t_files := upd_by_id fm_ID (del_file (de_row_ts env)) ?es (t_files d)\<rparr>)"
    using delete_file_batch_res [OF b] by blast
  show ?case
  proof (cases ?es)
    case Nil
    with b f1 show ?thesis by (simp add: delete_files_loop.simps [of dm env path "(s, d)"] del: take_eq_Nil take_eq_Nil2)
  next
    case (Cons e es)
    have "length (files_under path d1) < length (files_under path d)"
      by (rule file_batch_decreases [OF Cons]) (use s1 Cons in simp)
    moreover have "db_wf d1" by (rule files_part_del_wf [OF less.prems(1) s1 file_batch_part_del [OF less.prems(1) refl]])
    ultimately have "\<exists>s' d'. delete_files_loop dm env path (s1, d1) = (Inr (), s', d') \<and> db_faults d' = []"
      using f1 by (rule less.hyps)
    with b Cons show ?thesis by (simp add: delete_files_loop.simps [of dm env path "(s, d)"])
  qed
qed

lemma delete_dirs_loop_total:
  assumes "db_wf d" "db_faults d = []"
  shows "\<exists>s' d'. delete_dirs_loop dm env path (s, d) = (Inr (), s', d') \<and> db_faults d' = []"
  using assms
proof (induction "length (dirs_under path d)" arbitrary: s d rule: less_induct)
  case less
  obtain s1 d1 where b: "delete_dir_batch dm env path (s, d) = (Inr (take batchSize (dirs_under path d)), s1, d1)"
    and f1: "db_faults d1 = []" using delete_dir_batch_total [OF less.prems, of dm env path s] by blast
  let ?es = "take batchSize (dirs_under path d)"
  have s1: "same_tables d1 (d\<lparr>t_dirs := upd_by_id dm_ID (del_dir (de_row_ts env)) ?es (t_dirs d)\<rparr>)"
    using delete_dir_batch_res [OF b] by blast
  show ?case
  proof (cases ?es)
    case Nil
    with b f1 show ?thesis by (simp add: delete_dirs_loop.simps [of dm env path "(s, d)"] del: take_eq_Nil take_eq_Nil2)
  next
    case (Cons e es)
    have "length (dirs_under path d1) < length (dirs_under path d)"
      by (rule dir_batch_decreases [OF Cons]) (use s1 Cons in simp)
    moreover have "db_wf d1" by (rule dirs_part_del_wf [OF less.prems(1) s1 dir_batch_part_del [OF less.prems(1) refl]])
    ultimately have "\<exists>s' d'. delete_dirs_loop dm env path (s1, d1) = (Inr (), s', d') \<and> db_faults d' = []"
      using f1 by (rule less.hyps)
    with b Cons show ?thesis by (simp add: delete_dirs_loop.simps [of dm env path "(s, d)"])
  qed
qed

lemma under_pat_not_self: "\<not> under_pat dl path path"
  unfolding under_pat_def like_prefix by (auto dest!: list_all2_lengthD arg_cong [of _ _ length])

text \<open>
  C8: recursive deletion ends and succeeds.  With a database that answers and a lock that is
  granted, \<open>DeleteDirectory(path, true)\<close> of an existing directory returns success,
  whatever the storage does: the batch loops always terminate, because each batch that is not
  empty deletes at least one row.
\<close>

theorem delete_directory_terminates:
  assumes "db_wf (x_db w)" "db_faults (x_db w) = []" "safe_path (NormalizePath p)"
    and "live_dir (x_db w) (NormalizePath p) \<noteq> None"
    and "lockDirectory dm env (NormalizePath p) (x_lock w) = (Inr tok, l1)"
  shows "fst (DeleteDirectory dm env p True w) = Inr ()"
proof -
  let ?p = "NormalizePath p" let ?d = "x_db w"
  have n: "NormalizePath ?p = ?p" using assms(3) by simp
  have ex: "DM_Exists ?p ?d = (True, ?d)" using Dir_Exists_ok [OF assms(2)] n assms(4) by (simp add: DM_Exists_def)
  obtain s1 d1 where f: "delete_files_loop dm env ?p (x_store w, ?d) = (Inr (), s1, d1)" "db_faults d1 = []"
    using delete_files_loop_total [OF assms(1,2), of dm env ?p "x_store w"] by blast
  note a = delete_files_loop_live [OF assms(1) f(1)]
  obtain s2 d2 where g: "delete_dirs_loop dm env ?p (s1, d1) = (Inr (), s2, d2)" "db_faults d2 = []"
    using delete_dirs_loop_total [OF conjunct1 [OF a] f(2), of dm env ?p s1] by blast
  note b = delete_dirs_loop_live [OF conjunct1 [OF a] g(1)]
  have "live_dir d2 ?p = live_dir d1 ?p" using b under_pat_not_self unfolding forgets_def by blast
  then obtain m where m: "live_dir d2 ?p = Some m" using a assms(4) by auto
  obtain d3 where "Dir_Remove (de_ts env) (dm_ID m) d2 = (Inr (), d3)" using Dir_Remove_total [OF conjunct1 [OF b] g(2)] by blast
  then have "delete_self env ?p d2 = (Inr (), d3)" using Dir_Get_ok [OF g(2)] n m by (simp add: delete_self_def)
  with ex f(1) g(1) assms(5) show ?thesis
    by (simp add: DeleteDirectory_def Let_def with_directory_lock_def dir_delete_body_def)
qed

text \<open>
  A directory that is not empty is only deleted recursively.  Without the flag
  \<open>DeleteDirectory\<close> succeeds only if no visible record lies below the directory, and then
  it removes the directory's own record and nothing else; otherwise no visible record changes.
\<close>

theorem delete_empty_only:
  assumes wf: "db_wf (x_db w)" and sp: "safe_path (NormalizePath p)" and del: "DeleteDirectory dm env p False w = (r, w')"
  shows "live_file (x_db w') = live_file (x_db w) \<and> x_store w' = x_store w \<and>
    (if r = Inr () then files_under (NormalizePath p) (x_db w) = [] \<and> dirs_under (NormalizePath p) (x_db w) = [] \<and>
        live_dir (x_db w') = (live_dir (x_db w))(NormalizePath p := None)
     else live_dir (x_db w') = live_dir (x_db w))"
proof -
  let ?p = "NormalizePath p" let ?d = "x_db w"
  have n: "NormalizePath ?p = ?p" using sp by simp
  from with_directory_lock_cases [OF del [unfolded DeleteDirectory_def Let_def]] consider
      (lock) e where "r = Inl e" "x_store w' = x_store w" "x_db w' = ?d"
    | (body) "dir_delete_body dm env ?p False (x_store w, ?d) = (r, x_store w', x_db w')" by blast
  then show ?thesis
  proof cases
    case body
    obtain ex d1 where e: "DM_Exists ?p ?d = (ex, d1)" by fastforce
    obtain c2 d2 where c2: "db_QueryRow (\<lambda>d. [length (files_under ?p d)]) d1 = (c2, d2)" by fastforce
    obtain c3 d3 where c3: "db_QueryRow (\<lambda>d. [length (dirs_under ?p d)]) d2 = (c3, d3)" by fastforce
    obtain r4 d4 where h: "delete_self env ?p d3 = (r4, d4)" by fastforce
    have s1: "same_tables d1 ?d" by (rule DM_Exists_same [OF e])
    have s2: "same_tables d2 ?d" using db_QueryRow_same [OF c2] s1 same_tables_trans by blast
    have s3: "same_tables d3 ?d" using db_QueryRow_same [OF c3] s2 same_tables_trans by blast
    have eq: "live_file d = live_file ?d" "live_dir d = live_dir ?d" if "same_tables d ?d" for d
      using live_file_eq [OF that] live_dir_eq [OF that] .
    have cnt: "c2 = Inr k \<Longrightarrow> k = length (files_under ?p ?d)" "c3 = Inr k \<Longrightarrow> k = length (dirs_under ?p ?d)" for k
      using c2 c3 pop_fault_same under_same s1 s2 same_tables_trans
      by (auto simp: db_QueryRow_def split: prod.splits option.splits) metis+
    note c = delete_self_res [OF _ n h] 
    have st: "x_store w' = x_store w" using body by (auto simp: dir_delete_body_def split: prod.splits bool.splits)
    show ?thesis
    proof (cases "ex \<and> c2 = Inr 0 \<and> c3 = Inr 0")
      case True
      then have "r = r4" "x_db w' = d4" using body e c2 c3 h by (auto simp: dir_delete_body_def delete_empty_def)
      with c same_tables_wf [OF s3] wf eq [OF s3] cnt [of 0] True st live_dir_eq show ?thesis by auto
    next
      case False
      then have "(\<exists>e. r = Inl e) \<and> (x_db w' = d1 \<or> x_db w' = d2 \<or> x_db w' = d3)" using body e c2 c3
        by (cases ex; cases c2; cases c3) (auto simp: dir_delete_body_def delete_empty_def split: if_splits)
      with eq [OF s1] eq [OF s2] eq [OF s3] st show ?thesis by auto
    qed
  qed auto
qed

definition sample_dir :: "string \<Rightarrow> string \<Rightarrow> DirectoryMetadata" where
  "sample_dir i p = \<lparr>dm_ID = i, dm_Path = p, dm_Name = p, dm_CreatedAt = ''t'', dm_UpdatedAt = ''t'', dm_IsDeleted = False\<rparr>"

definition sample_tree :: db where
  "sample_tree = empty_db\<lparr>t_dirs := [sample_dir ''1'' ''docs'', sample_dir ''2'' ''docs/old''],
     t_files := [sample_file ''3'' ''docs/old/a'', sample_file ''4'' ''other'']\<rparr>"

definition sample_dm :: "(unit, locks) DirectoryManager" where
  "sample_dm = \<lparr>dmg_store = None, dmg_distLock = Some LocalDistributedLock\<rparr>"

definition sample_dm_env :: "locks dm_env" where
  "sample_dm_env = \<lparr>de_acq = (\<lambda>i. \<lparr>ae_now = 5, ae_token = ''tok'', ae_rand = [], ae_done = False, ae_wait = id\<rparr>),
     de_start = 4, de_acquired = 6, de_unlock_now = 9, de_uuid = ''u'', de_ts = ''now'', de_row_ts = (\<lambda>i. ''now'')\<rparr>"

abbreviation sample_w :: "(unit, locks) dm_state" where
  "sample_w \<equiv> \<lparr>x_store = (), x_db = sample_tree, x_lock = Map.empty\<rparr>"

lemma sample_tree_wf: "db_wf sample_tree" "db_faults sample_tree = []"
  by (simp_all add: sample_tree_def db_wf_def empty_db_def file_unique_def dir_unique_def task_unique_def audit_unique_def
      key_unique_def sample_dir_def sample_file_def)

lemma sample_dir_path: "NormalizePath ''docs'' = ''docs''" "safe_path (NormalizePath ''docs'')"
proof -
  show "NormalizePath ''docs'' = ''docs''" by code_simp
  then show "safe_path (NormalizePath ''docs'')" by (simp add: safe_path_def proper_name_def)
qed



theorem delete_directory_terminates_witness:
  "fst (DeleteDirectory sample_dm sample_dm_env ''docs'' True sample_w) = Inr ()"
proof -
  have l: "live_dir (x_db sample_w) (NormalizePath ''docs'') \<noteq> None"
    unfolding sample_dir_path(1) by (simp add: live_dir_def sample_tree_def sample_dir_def)
  obtain tok l1 where "lockDirectory sample_dm sample_dm_env (NormalizePath ''docs'') (x_lock sample_w) = (Inr tok, l1)"
    by (simp add: lockDirectory_def sample_dm_def sample_dm_env_def AcquireLockWithRenewal_def AcquireLock_def
        eval_nat_numeral LocalDistributedLock_def Local_Lock_def)
  from delete_directory_terminates [OF _ _ sample_dir_path(2) l this] sample_tree_wf show ?thesis by simp
qed

theorem delete_empty_only_witness:
  "fst (DeleteDirectory sample_dm sample_dm_env ''docs'' False sample_w) \<noteq> Inr ()"
proof -
  obtain r w' where r: "DeleteDirectory sample_dm sample_dm_env ''docs'' False sample_w = (r, w')" by fastforce
  have "dirs_under ''docs'' sample_tree \<noteq> []" by code_simp
  with delete_empty_only [OF _ sample_dir_path(2) r] sample_tree_wf r sample_dir_path(1) show ?thesis by (auto split: if_splits)
qed

text \<open>
  The directory lock is not renewed.  \<open>lockDirectory\<close> derives the renewal from a
  context it cancels when it returns; so the goroutine stops at its first wake-up, before any
  tick, and 10 seconds after the acquisition another client obtains the lock although the
  directory operation may still be running.
\<close>

theorem directory_lock_not_renewed:
  assumes "dmg_distLock dm = Some LocalDistributedLock"
    and "Local_holder (ae_now (de_acq env 0)) (''dir:'' @ path) l = None"
    and "t < de_acquired env + renew_interval (10 * Dist_Lock.second)"
    and "0 < ae_now (de_acq env 0)" "ae_now (de_acq env 0) + 10 * Dist_Lock.second < n"
  shows "\<exists>tok rn l1. lockDirectory dm env path l = (Inr (Some (tok, rn)), l1) \<and>
    renew_step LocalDistributedLock {1} t pick (rn, l1) = (rn\<lparr>rn_running := False\<rparr>, l1) \<and>
    fst (Local_Lock tok2 n (''dir:'' @ path) ttl2 l1) = Inr tok2"
proof -
  let ?k = "''dir:'' @ path" let ?t0 = "ae_now (de_acq env 0)" let ?tok = "ae_token (de_acq env 0)"
  let ?rn = "start_renewal (WithTimeout 1 (de_start env + 30 * Dist_Lock.second) Background) 2 (de_acquired env) ?k ?tok (10 * Dist_Lock.second)"
  obtain l1 where l1: "Local_Lock ?tok ?t0 ?k (10 * Dist_Lock.second) l = (Inr ?tok, l1)"
    "l1 ?k = Some \<lparr>le_token = ?tok, le_expiry = ?t0 + 10 * Dist_Lock.second\<rparr>"
    using assms(2) by (auto simp: Local_Lock_def Local_holder_def split: option.splits if_splits)
  have a: "lockDirectory dm env path l = (Inr (Some (?tok, ?rn)), l1)"
    using assms(1) l1(1) by (simp add: lockDirectory_def AcquireLockWithRenewal_def AcquireLock_def eval_nat_numeral LocalDistributedLock_def)
  have b: "renew_step LocalDistributedLock {1} t pick (?rn, l1) = (?rn\<lparr>rn_running := False\<rparr>, l1)"
    using assms(3) by (simp add: renew_step_def start_renewal_def)
  have c: "fst (Local_Lock tok2 n ?k ttl2 l1) = Inr tok2"
    using l1(2) assms(4,5) by (simp add: Local_Lock_def expiredLocked_def)
  from a b c show ?thesis by blast
qed

theorem directory_lock_not_renewed_witness:
  "\<exists>tok rn l1. lockDirectory sample_dm sample_dm_env ''docs'' Map.empty = (Inr (Some (tok, rn)), l1) \<and>
    fst (Local_Lock ''other'' (11 * Dist_Lock.second) ''dir:docs'' Dist_Lock.second l1) = Inr ''other''"
proof -
  have "dmg_distLock sample_dm = Some LocalDistributedLock" by (simp add: sample_dm_def)
  from directory_lock_not_renewed [OF this, of sample_dm_env "''docs''" Map.empty 7 "11 * Dist_Lock.second" True "''other''" Dist_Lock.second]
  show ?thesis by (auto simp: sample_dm_env_def Local_holder_def renew_interval_def go_quot_def)
qed

end
