(* ===== verification/Storage_Contract.thy ===== *)
theory Storage_Contract
  imports Storage
begin

text \<open>
  The contract of a \<open>StorageAdapter\<close> as the services rely on it, and the proof that
  \<open>LocalStorage\<close> meets it.  \<open>object_storage\<close> is what any backend promises, \<open>storage\<close> what
  a file system adds.  \<open>view s p\<close> is the content stored under the path
  \<open>p\<close>; a successful call changes exactly the paths it names, and a failed one changes at
  most the path it was writing.
\<close>

section \<open>The contract\<close>

locale object_storage =
  fixes st :: "'s StorageAdapter"
    and inv :: "'s \<Rightarrow> bool"
    and calm :: "'s \<Rightarrow> bool"
    and writable :: "'s \<Rightarrow> string \<Rightarrow> bool"
    and view :: "'s \<Rightarrow> string \<Rightarrow> bytes option"
  assumes write_ok: "inv s \<Longrightarrow> safe_path p \<Longrightarrow> sa_Write st p data s = (Inr (), s') \<Longrightarrow>
      inv s' \<and> view s' = (view s)(p \<mapsto> data)"
    and write_err: "inv s \<Longrightarrow> safe_path p \<Longrightarrow> sa_Write st p data s = (Inl e, s') \<Longrightarrow>
      inv s' \<and> (\<forall>q. q \<noteq> p \<longrightarrow> view s' q = view s q)"
    and write_total: "inv s \<Longrightarrow> calm s \<Longrightarrow> safe_path p \<Longrightarrow> writable s p \<Longrightarrow>
      \<exists>s'. sa_Write st p data s = (Inr (), s') \<and> calm s'"
    and reader_ok: "inv s \<Longrightarrow> safe_path p \<Longrightarrow> sa_WriteFromReader st p rd s = (Inr (), s') \<Longrightarrow>
      inv s' \<and> view s' = (view s)(p \<mapsto> rd_data rd)"
    and reader_total: "inv s \<Longrightarrow> calm s \<Longrightarrow> safe_path p \<Longrightarrow> writable s p \<Longrightarrow> rd_err rd = None \<Longrightarrow>
      \<exists>s'. sa_WriteFromReader st p rd s = (Inr (), s') \<and> calm s'"
    and view_writable: "inv s \<Longrightarrow> safe_path p \<Longrightarrow> view s p \<noteq> None \<Longrightarrow> writable s p"
    and read_ok: "inv s \<Longrightarrow> calm s \<Longrightarrow> safe_path p \<Longrightarrow> view s p = Some b \<Longrightarrow> sa_Read st p s = (Inr b, s)"
    and read_view: "inv s \<Longrightarrow> safe_path p \<Longrightarrow> sa_Read st p s = (r, s') \<Longrightarrow>
      inv s' \<and> view s' = view s \<and> (\<forall>b. r = Inr b \<longrightarrow> view s p = Some b)"
    and readAt_view: "inv s \<Longrightarrow> safe_path p \<Longrightarrow> in_int64 n \<Longrightarrow> in_int64 k \<Longrightarrow> sa_ReadAt st p n k s = (r, s') \<Longrightarrow>
      inv s' \<and> view s' = view s \<and>
      (\<forall>b. r = Inr b \<longrightarrow> (\<exists>c. view s p = Some c \<and> b = take (nat n) (drop (nat k) c)))"
    and readAt_in: "inv s \<Longrightarrow> calm s \<Longrightarrow> safe_path p \<Longrightarrow> view s p = Some c \<Longrightarrow> 0 < n \<Longrightarrow> 0 \<le> k \<Longrightarrow>
      k < int (length c) \<Longrightarrow> k + n - 1 \<le> max_int64 \<Longrightarrow> sa_ReadAt st p n k s = (Inr (take (nat n) (drop (nat k) c)), s)"
    and getSize_calm: "inv s \<Longrightarrow> calm s \<Longrightarrow> safe_path p \<Longrightarrow> view s p = Some b \<Longrightarrow> sa_GetSize st p s = Inr (int (length b))"
    and remove_ok: "inv s \<Longrightarrow> safe_path p \<Longrightarrow> sa_Remove st p s = (Inr (), s') \<Longrightarrow>
      inv s' \<and> view s' = (view s)(p := None)"
    and remove_err: "inv s \<Longrightarrow> safe_path p \<Longrightarrow> sa_Remove st p s = (Inl e, s') \<Longrightarrow> inv s' \<and> view s' = view s"
    and remove_total: "inv s \<Longrightarrow> calm s \<Longrightarrow> safe_path p \<Longrightarrow> view s p \<noteq> None \<Longrightarrow>
      \<exists>s'. sa_Remove st p s = (Inr (), s') \<and> calm s'"
    and rename_ok: "inv s \<Longrightarrow> safe_path p \<Longrightarrow> safe_path q \<Longrightarrow> p \<noteq> q \<Longrightarrow> view s p = Some b \<Longrightarrow>
      sa_Rename st p q s = (Inr (), s') \<Longrightarrow> inv s' \<and> view s' = (view s)(p := None, q \<mapsto> b)"
    and rename_total: "inv s \<Longrightarrow> calm s \<Longrightarrow> safe_path p \<Longrightarrow> safe_path q \<Longrightarrow> view s p \<noteq> None \<Longrightarrow>
      writable s q \<Longrightarrow> \<not> HasPrefix q (p @ ''/'') \<Longrightarrow> \<exists>s'. sa_Rename st p q s = (Inr (), s') \<and> calm s'"
begin

lemma write_read:
  assumes "inv s" "calm s" "safe_path p" "writable s p"
  shows "\<exists>s'. sa_Write st p data s = (Inr (), s') \<and> sa_Read st p s' = (Inr data, s') \<and>
    (\<forall>q. q \<noteq> p \<longrightarrow> view s' q = view s q)"
proof -
  obtain s' where s': "sa_Write st p data s = (Inr (), s')" "calm s'" using write_total [OF assms] by blast
  with write_ok [OF assms(1,3) s'(1)] read_ok [of s' p data] assms(3) show ?thesis by auto
qed

end

text \<open>What a file system promises beyond an object store: reads behind the end are short and sizes need no
  request that could fail, and a rename that fails has moved nothing and one that succeeds can be undone.\<close>

locale storage = object_storage +
  assumes readAt_ok: "inv s \<Longrightarrow> calm s \<Longrightarrow> safe_path p \<Longrightarrow> view s p = Some c \<Longrightarrow> 0 < n \<Longrightarrow> 0 \<le> k \<Longrightarrow>
      sa_ReadAt st p n k s = (Inr (take (nat n) (drop (nat k) c)), s)"
    and getSize_ok: "inv s \<Longrightarrow> safe_path p \<Longrightarrow> view s p = Some b \<Longrightarrow> sa_GetSize st p s = Inr (int (length b))"
    and rename_err: "inv s \<Longrightarrow> safe_path p \<Longrightarrow> safe_path q \<Longrightarrow> view s p \<noteq> None \<Longrightarrow>
      sa_Rename st p q s = (Inl e, s') \<Longrightarrow> inv s' \<and> view s' = view s"
    and rename_back: "inv s \<Longrightarrow> safe_path p \<Longrightarrow> safe_path q \<Longrightarrow> p \<noteq> q \<Longrightarrow> view s p = Some b \<Longrightarrow>
      \<not> HasPrefix p (q @ ''/'') \<Longrightarrow> sa_Rename st p q s = (Inr (), s') \<Longrightarrow> writable s' p"

section \<open>LocalStorage\<close>

definition fkey :: "string \<Rightarrow> string \<Rightarrow> string list" where
  "fkey rootDir p = root_elems rootDir @ Split slash p"

definition LS_view :: "string \<Rightarrow> 'a fs_scheme \<Rightarrow> string \<Rightarrow> bytes option" where
  "LS_view rootDir f p = (case fs_get f (fkey rootDir p) of Some (FFile b) \<Rightarrow> Some b | _ \<Rightarrow> None)"

definition LS_inv :: "string \<Rightarrow> 'a fs_scheme \<Rightarrow> bool" where
  "LS_inv rootDir f \<longleftrightarrow> ok_root rootDir \<and> fs_tree f"

definition LS_calm :: "'a fs_scheme \<Rightarrow> bool" where
  "LS_calm f \<longleftrightarrow> fs_io f = []"

definition LS_writable :: "string \<Rightarrow> 'a fs_scheme \<Rightarrow> string \<Rightarrow> bool" where
  "LS_writable rootDir f p \<longleftrightarrow> \<not> under_file f (fkey rootDir p) \<and> fs_get f (fkey rootDir p) \<noteq> Some FDir"

text \<open>\<open>grown f f'\<close>: some directories were added, nothing else changed.\<close>

definition grown :: "'a fs_scheme \<Rightarrow> 'a fs_scheme \<Rightarrow> bool" where
  "grown f f' \<longleftrightarrow> fs_tree f' \<and> fs_cwd f' = fs_cwd f \<and> fs_io f' = fs_io f \<and> fs_tmp f' = fs_tmp f \<and>
     (\<forall>j. fs_get f' j = fs_get f j \<or> fs_get f j = None \<and> fs_get f' j = Some FDir)"

lemma grown_refl: "fs_tree f \<Longrightarrow> grown f f"
  by (simp add: grown_def)

lemma grown_trans: "grown f g \<Longrightarrow> grown g h \<Longrightarrow> grown f h"
  unfolding grown_def by (metis option.distinct(1))

lemma grown_view: "grown f f' \<Longrightarrow> LS_view rootDir f' = LS_view rootDir f"
proof
  fix p assume "grown f f'"
  then have "fs_get f' (fkey rootDir p) = fs_get f (fkey rootDir p) \<or>
      fs_get f (fkey rootDir p) = None \<and> fs_get f' (fkey rootDir p) = Some FDir" by (simp add: grown_def)
  then show "LS_view rootDir f' p = LS_view rootDir f p" by (auto simp: LS_view_def)
qed

lemma grown_get: "grown f f' \<Longrightarrow> fs_get f' j = fs_get f j \<or> fs_get f j = None \<and> fs_get f' j = Some FDir"
  by (simp add: grown_def)

lemma grown_file: "grown f f' \<Longrightarrow> is_file f' k = is_file f k"
  using grown_get [of f f' k] by (auto simp: is_file_def)

lemma grown_under: "grown f f' \<Longrightarrow> under_file f' k = under_file f k"
  by (simp add: under_file_def grown_file)

lemma mkdir_each_grown:
  assumes "fs_tree f" "fs_get f (take a k) = Some FDir" "a \<le> length k"
    and "mkdir_each (map (\<lambda>i. take i k) [Suc a..<Suc (length k)]) f = (r, f')"
  shows "grown f f' \<and> (r = Inr () \<longrightarrow> fs_get f' k = Some FDir) \<and>
    (\<not> under_file f k \<and> \<not> is_file f k \<longrightarrow> r = Inr ()) \<and>
    (\<forall>j. fs_get f' j \<noteq> fs_get f j \<longrightarrow> length j \<le> length k)"
  using assms
proof (induction "length k - a" arbitrary: a f)
  case 0
  then show ?case by (simp add: grown_refl)
next
  case (Suc n)
  then have a: "a < length k" by simp
  let ?j = "take (Suc a) k"
  have up: "[Suc a..<Suc (length k)] = Suc a # [Suc (Suc a)..<Suc (length k)]"
    using a by (simp add: upt_conv_Cons del: upt_Suc)
  have j: "?j \<noteq> []" "butlast ?j = take a k" using a by (auto simp: butlast_take)
  show ?case
  proof (cases "fs_get f ?j")
    case None
    have t: "fs_tree (fs_put ?j FDir f)" using fs_tree_put [OF Suc.prems(1) j(1)] Suc.prems(2) j(2) by simp
    have g: "grown f (fs_put ?j FDir f)" using t None j(1) by (simp add: grown_def)
    have "mkdir_each (map (\<lambda>i. take i k) [Suc (Suc a)..<Suc (length k)]) (fs_put ?j FDir f) = (r, f')"
      using Suc.prems(4) None unfolding up by simp
    from Suc.hyps(1) [OF _ t _ _ this] Suc.hyps(2) j(1) a
    have ih: "grown (fs_put ?j FDir f) f' \<and> (r = Inr () \<longrightarrow> fs_get f' k = Some FDir) \<and>
      (\<not> under_file (fs_put ?j FDir f) k \<and> \<not> is_file (fs_put ?j FDir f) k \<longrightarrow> r = Inr ()) \<and>
      (\<forall>i. fs_get f' i \<noteq> fs_get (fs_put ?j FDir f) i \<longrightarrow> length i \<le> length k)" by simp
    have "fs_get f' i \<noteq> fs_get f i \<longrightarrow> length i \<le> length k" for i
      using ih j(1) by (cases "i = ?j") auto
    with ih g grown_trans [OF g] grown_under [OF g] grown_file [OF g] show ?thesis by blast
  next
    case (Some m)
    show ?thesis
    proof (cases m)
      case (FFile b)
      have "is_file f ?j" using Some FFile by (simp add: is_file_def)
      then have "under_file f k \<or> is_file f k"
        using a by (cases "Suc a = length k") (auto simp: under_file_def list_ex_iff intro!: bexI [of _ "Suc a"])
      with Suc.prems(4) Some FFile grown_refl [OF Suc.prems(1)] show ?thesis unfolding up by auto
    next
      case FDir
      have "mkdir_each (map (\<lambda>i. take i k) [Suc (Suc a)..<Suc (length k)]) f = (r, f')"
        using Suc.prems(4) Some FDir unfolding up by simp
      from Suc.hyps(1) [OF _ Suc.prems(1) _ _ this] Suc.hyps(2) Some FDir a show ?thesis by simp
    qed
  qed
qed

lemma fkey_ne [simp]: "fkey rootDir p \<noteq> []"
  by (simp add: fkey_def)

lemma fkey_inject [simp]: "fkey rootDir p = fkey rootDir q \<longleftrightarrow> p = q"
  unfolding fkey_def by (metis JoinStr_Split same_append_eq)

lemmas full_path = getFullPath_safe(1) [folded fkey_def]
lemmas proper_key = getFullPath_safe(2) [folded fkey_def]
lemmas valid_path = getFullPath_safe(3)

lemma key_full: "ok_root rootDir \<Longrightarrow> safe_path p \<Longrightarrow> fs_key f (getFullPath rootDir p) = fkey rootDir p"
  by (simp add: full_path proper_key)

lemma not_file_dir: "fs_get f k = Some n \<Longrightarrow> \<not> is_file f k \<Longrightarrow> n = FDir"
  by (cases n) (simp_all add: is_file_def)

lemma prepare_write_grown:
  assumes r: "ok_root rootDir" and p: "safe_path p" and t: "fs_tree f"
    and w: "prepare_write rootDir p f = (res, f')"
  shows "grown f f' \<and> (LS_writable rootDir f p \<longrightarrow> res = Inr () \<and> open_check f' (fkey rootDir p) = None)"
proof -
  let ?k = "fkey rootDir p" let ?d = "butlast (fkey rootDir p)"
  have pd: "list_all proper_name ?d"
    using proper_key [OF r p] by (auto simp: list_all_iff dest: in_set_butlastD)
  have dir: "path_Dir (getFullPath rootDir p) = abs_of ?d"
    using full_path [OF r p] Dir_abs_of [OF fkey_ne proper_key [OF r p]] by simp
  have st: "os_Stat (abs_of ?d) f = (if under_file f ?d then Inl ENOTDIR
      else case fs_get f ?d of None \<Rightarrow> Inl ErrNotExist | Some n \<Rightarrow> Inr n)"
    using pd by (simp add: os_Stat_def)
  obtain r1 where e: "ensureDirectoryExists (abs_of ?d) f = (r1, f')" and res: "res = Inr () \<longleftrightarrow> r1 = Inr ()"
    using w unfolding prepare_write_def dir by (auto split: prod.splits sum.splits)
  have up: "under_file f ?d \<or> is_file f ?d \<Longrightarrow> under_file f ?k"
  proof -
    have tk: "take i ?d = take i ?k" if "i < length ?k" for i using that by (simp add: butlast_conv_take)
    assume "under_file f ?d \<or> is_file f ?d"
    then show ?thesis unfolding under_file_def list_ex_iff
    proof
      assume "\<exists>i \<in> set [0..<length ?d]. is_file f (take i ?d)"
      then obtain i where "i < length ?d" "is_file f (take i ?d)" by auto
      moreover have "i < length ?k" using \<open>i < length ?d\<close> by simp
      ultimately show "\<exists>i \<in> set [0..<length ?k]. is_file f (take i ?k)" using tk [of i] by auto
    next
      assume "is_file f ?d"
      then show "\<exists>i \<in> set [0..<length ?k]. is_file f (take i ?k)"
        using fkey_ne [of rootDir p] by (intro bexI [of _ "length ?k - 1"]) (auto simp: butlast_conv_take)
    qed
  qed
  have g: "grown f f' \<and> fs_get f' ?k = fs_get f ?k \<and>
      (LS_writable rootDir f p \<longrightarrow> r1 = Inr () \<and> fs_get f' ?d = Some FDir)"
  proof (cases "os_Stat (abs_of ?d) f = Inl ErrNotExist")
    case True
    then have "mkdir_each (map (\<lambda>i. take i ?d) [Suc 0..<Suc (length ?d)]) f = (r1, f')"
      using e pd by (simp add: ensureDirectoryExists_def os_MkdirAll_def Let_def del: upt_Suc length_butlast)
    from mkdir_each_grown [OF t _ _ this] have m: "grown f f' \<and> (r1 = Inr () \<longrightarrow> fs_get f' ?d = Some FDir) \<and>
      (\<not> under_file f ?d \<and> \<not> is_file f ?d \<longrightarrow> r1 = Inr ()) \<and>
      (\<forall>j. fs_get f' j \<noteq> fs_get f j \<longrightarrow> length j \<le> length ?d)"
      by (simp add: fs_get_def del: length_butlast)
    have "\<not> length ?k \<le> length ?d" using fkey_ne [of rootDir p] by (cases ?k rule: rev_cases) auto
    with m have "fs_get f' ?k = fs_get f ?k" by blast
    with m up show ?thesis by (auto simp: LS_writable_def)
  next
    case False
    then have f': "f' = f" "r1 = Inr ()" using e by (auto simp: ensureDirectoryExists_def)
    have "fs_get f ?d = Some FDir" if "\<not> under_file f ?k"
      using False st that up not_file_dir [of f ?d] by (auto split: option.splits if_splits)
    with f' grown_refl [OF t] show ?thesis by (auto simp: LS_writable_def)
  qed
  then have "open_check f' ?k = None" if "LS_writable rootDir f p"
    using that grown_under [of f f' ?k] by (simp add: open_check_def LS_writable_def)
  with g res show ?thesis by auto
qed

text \<open>Popping a fault changes no file.\<close>

lemma fs_pop_tree: "fs_pop f = (x, g) \<Longrightarrow> fs_tree g = fs_tree f \<and> fs_get g = fs_get f \<and> fs_cwd g = fs_cwd f"
proof -
  assume "fs_pop f = (x, g)"
  then have g: "g = snd (fs_pop f)" by simp
  show ?thesis unfolding g fs_tree_def by simp
qed

lemma view_of_get: "fs_get g = fs_get f \<Longrightarrow> LS_view rootDir g = LS_view rootDir f"
  by (simp add: LS_view_def fun_eq_iff)

lemma fs_pop_view: "fs_pop f = (x, g) \<Longrightarrow> LS_view rootDir g = LS_view rootDir f"
  using fs_pop_tree view_of_get by blast

lemma fs_pop_calm: "LS_calm f \<Longrightarrow> fs_pop f = (None, f)"
  by (simp add: LS_calm_def fs_pop_def)

lemma put_file:
  assumes "fs_tree f" "open_check f (fkey rootDir p) = None"
  shows "fs_tree (fs_put (fkey rootDir p) (FFile b) f)"
    and "LS_view rootDir (fs_put (fkey rootDir p) (FFile b) f) = (LS_view rootDir f)(p \<mapsto> b)"
proof -
  let ?k = "fkey rootDir p"
  have o: "\<not> under_file f ?k" "fs_get f (butlast ?k) \<noteq> None" "fs_get f ?k \<noteq> Some FDir"
    using assms(2) by (auto simp: open_check_def split: if_splits)
  have "\<not> is_file f (butlast ?k)"
  proof
    assume "is_file f (butlast ?k)"
    then have "under_file f ?k" unfolding under_file_def list_ex_iff
      using fkey_ne [of rootDir p] by (intro bexI [of _ "length ?k - 1"]) (auto simp: butlast_conv_take)
    with o(1) show False ..
  qed
  with o(2) have "fs_get f (butlast ?k) = Some FDir" using not_file_dir by fastforce
  with o(3) show "fs_tree (fs_put ?k (FFile b) f)" by (intro fs_tree_put assms) auto
  show "LS_view rootDir (fs_put ?k (FFile b) f) = (LS_view rootDir f)(p \<mapsto> b)"
    by (auto simp: LS_view_def fun_eq_iff)
qed

lemma os_WriteFile_full:
  assumes r: "ok_root rootDir" and p: "safe_path p" and t: "fs_tree f"
    and w: "os_WriteFile (getFullPath rootDir p) data f = (res, f')"
  shows "fs_tree f' \<and> (res = Inr () \<longrightarrow> LS_view rootDir f' = (LS_view rootDir f)(p \<mapsto> data)) \<and>
    (\<forall>q. q \<noteq> p \<longrightarrow> LS_view rootDir f' q = LS_view rootDir f q) \<and>
    (LS_calm f \<and> open_check f (fkey rootDir p) = None \<longrightarrow> res = Inr () \<and> LS_calm f')"
proof -
  let ?k = "fkey rootDir p"
  obtain flt g where g: "fs_pop f = (flt, g)" by fastforce
  have oc: "open_check g ?k = open_check f ?k"
    using fs_pop_tree [OF g] by (simp add: open_check_def under_file_def is_file_def)
  have k: "fs_key g (getFullPath rootDir p) = ?k" by (rule key_full [OF r p])
  have tg: "fs_tree g" using fs_pop_tree [OF g] t by simp
  have vg: "LS_view rootDir g = LS_view rootDir f" by (rule fs_pop_view [OF g])
  have w': "(case open_check f ?k of Some e \<Rightarrow> (Inl e, g)
      | None \<Rightarrow> (case flt of None \<Rightarrow> (Inr (), fs_put ?k (FFile data) g) | Some (NoEffect e) \<Rightarrow> (Inl e, g)
          | Some (Partial n e) \<Rightarrow> (Inl e, fs_put ?k (FFile (take n data)) g))) = (res, f')"
    using w unfolding os_WriteFile_def g prod.case Let_def k oc .
  show ?thesis
  proof (cases "open_check f ?k")
    case (Some e)
    with w' tg vg show ?thesis by auto
  next
    case None
    note pf = put_file [OF tg None [folded oc]]
    show ?thesis
    proof (cases "LS_calm f")
      case True
      with g fs_pop_calm [OF True] have "flt = None" "g = f" by auto
      with w' None pf True show ?thesis by (auto simp: LS_calm_def)
    next
      case False
      with w' None pf tg vg show ?thesis by (auto split: option.splits io_fault.splits)
    qed
  qed
qed

lemma LS_Write_full:
  assumes i: "LS_inv rootDir f" and p: "safe_path p" and w: "LS_Write rootDir p data f = (res, f')"
  shows "LS_inv rootDir f' \<and> (res = Inr () \<longrightarrow> LS_view rootDir f' = (LS_view rootDir f)(p \<mapsto> data)) \<and>
    (\<forall>q. q \<noteq> p \<longrightarrow> LS_view rootDir f' q = LS_view rootDir f q) \<and>
    (LS_calm f \<and> LS_writable rootDir f p \<longrightarrow> res = Inr () \<and> LS_calm f')"
proof -
  have r: "ok_root rootDir" and t: "fs_tree f" using i by (auto simp: LS_inv_def)
  obtain r1 f1 where f1: "prepare_write rootDir p f = (r1, f1)" by fastforce
  note g = prepare_write_grown [OF r p t f1]
  have t1: "fs_tree f1" and c1: "LS_calm f1 = LS_calm f" using g by (auto simp: grown_def LS_calm_def)
  have v1: "LS_view rootDir f1 = LS_view rootDir f" using g grown_view by blast
  obtain r2 f2 where f2: "os_WriteFile (getFullPath rootDir p) data f1 = (r2, f2)" by fastforce
  note wf = os_WriteFile_full [OF r p t1 f2]
  show ?thesis
  proof (cases r1)
    case (Inl e)
    then have "res = Inl e" "f' = f1" using w f1 valid_path [OF r p, of f] by (simp_all add: LS_Write_def)
    with Inl g t1 v1 r show ?thesis by (auto simp: LS_inv_def)
  next
    case (Inr u)
    then have "f' = f2" "res = Inr () \<longleftrightarrow> r2 = Inr ()"
      using w f1 f2 valid_path [OF r p, of f] by (auto simp: LS_Write_def split: sum.splits prod.splits)
    with wf g v1 c1 r show ?thesis by (auto simp: LS_inv_def)
  qed
qed

lemma LS_WriteFromReader_full:
  assumes i: "LS_inv rootDir f" and p: "safe_path p" and w: "LS_WriteFromReader rootDir p rd f = (res, f')"
  shows "(res = Inr () \<longrightarrow> LS_inv rootDir f' \<and> LS_view rootDir f' = (LS_view rootDir f)(p \<mapsto> rd_data rd)) \<and>
    (LS_calm f \<and> LS_writable rootDir f p \<and> rd_err rd = None \<longrightarrow> res = Inr () \<and> LS_calm f')"
proof -
  have r: "ok_root rootDir" and t: "fs_tree f" using i by (auto simp: LS_inv_def)
  obtain r1 f1 where f1: "prepare_write rootDir p f = (r1, f1)" by fastforce
  note g = prepare_write_grown [OF r p t f1]
  have t1: "fs_tree f1" and c1: "LS_calm f1 = LS_calm f" using g by (auto simp: grown_def LS_calm_def)
  have v1: "LS_view rootDir f1 = LS_view rootDir f" using g grown_view by blast
  obtain r2 f2 where f2: "os_WriteFile (getFullPath rootDir p) (rd_data rd) f1 = (r2, f2)" by fastforce
  note wf = os_WriteFile_full [OF r p t1 f2]
  have k: "fs_key f1 (getFullPath rootDir p) = fkey rootDir p" by (rule key_full [OF r p])
  show ?thesis
    using w f1 f2 wf g v1 c1 r k valid_path [OF r p, of f]
    by (auto simp: LS_WriteFromReader_def LS_inv_def split: sum.splits option.splits)
qed

lemma os_Stat_full:
  assumes "ok_root rootDir" "safe_path p" "fs_tree f"
  shows "os_Stat (getFullPath rootDir p) f = Inr (FFile b) \<longleftrightarrow> LS_view rootDir f p = Some b"
  using fs_tree_not_under [OF assms(3), of "fkey rootDir p"] key_full [OF assms(1,2), of f]
  by (auto simp: os_Stat_def LS_view_def Let_def split: option.splits fnode.splits if_splits)

lemma os_ReadFile_full:
  assumes "ok_root rootDir" "safe_path p" "fs_tree f"
    and "os_ReadFile (getFullPath rootDir p) f = (res, f')"
  shows "fs_tree f' \<and> LS_view rootDir f' = LS_view rootDir f \<and>
    (\<forall>b. res = Inr b \<longrightarrow> LS_view rootDir f p = Some b) \<and>
    (\<forall>b. LS_calm f \<and> LS_view rootDir f p = Some b \<longrightarrow> res = Inr b \<and> f' = f)"
proof -
  obtain flt g where g: "fs_pop f = (flt, g)" by fastforce
  have tg: "fs_tree g" "LS_view rootDir g = LS_view rootDir f"
    using fs_pop_tree [OF g] assms(3) fs_pop_view [OF g] by simp_all
  have e: "f' = g" using assms(4) g
    by (auto simp: os_ReadFile_def split: sum.splits fnode.splits option.splits io_fault.splits)
  have s: "os_Stat (getFullPath rootDir p) g = Inr (FFile b) \<longleftrightarrow> LS_view rootDir f p = Some b" for b
    using os_Stat_full(1) [OF assms(1,2) tg(1)] tg(2) by simp
  have "LS_view rootDir f p = Some b" if "res = Inr b" for b
    using assms(4) g s that
    by (auto simp: os_ReadFile_def split: sum.splits fnode.splits option.splits io_fault.splits)
  moreover have "res = Inr b \<and> f' = f" if "LS_calm f" "LS_view rootDir f p = Some b" for b
    using that assms(4) g s [of b] fs_pop_calm [OF that(1)] by (auto simp: os_ReadFile_def)
  ultimately show ?thesis using e tg by auto
qed

lemma LS_Read_full:
  assumes i: "LS_inv rootDir f" and p: "safe_path p" and w: "LS_Read rootDir p f = (res, f')"
  shows "LS_inv rootDir f' \<and> LS_view rootDir f' = LS_view rootDir f \<and>
    (\<forall>b. res = Inr b \<longrightarrow> LS_view rootDir f p = Some b) \<and>
    (\<forall>b. LS_calm f \<and> LS_view rootDir f p = Some b \<longrightarrow> res = Inr b \<and> f' = f)"
proof -
  have r: "ok_root rootDir" and t: "fs_tree f" using i by (auto simp: LS_inv_def)
  obtain r1 f1 where f1: "os_ReadFile (getFullPath rootDir p) f = (r1, f1)" by fastforce
  note rd = os_ReadFile_full [OF r p t f1]
  have "f' = f1" "\<forall>b. res = Inr b \<longleftrightarrow> r1 = Inr b"
    using w f1 valid_path [OF r p, of f] by (auto simp: LS_Read_def split: sum.splits)
  with rd r show ?thesis unfolding LS_inv_def by blast
qed

lemma LS_ReadAt_full:
  assumes i: "LS_inv rootDir f" and p: "safe_path p" and w: "LS_ReadAt rootDir p n k f = (res, f')"
  shows "LS_inv rootDir f' \<and> LS_view rootDir f' = LS_view rootDir f \<and>
    (\<forall>b. res = Inr b \<longrightarrow> (\<exists>c. LS_view rootDir f p = Some c \<and> b = take (nat n) (drop (nat k) c))) \<and>
    (\<forall>c. LS_calm f \<and> LS_view rootDir f p = Some c \<and> 0 < n \<and> 0 \<le> k \<longrightarrow>
       res = Inr (take (nat n) (drop (nat k) c)) \<and> f' = f)"
proof -
  have r: "ok_root rootDir" and t: "fs_tree f" using i by (auto simp: LS_inv_def)
  obtain r1 f1 where f1: "os_ReadFile (getFullPath rootDir p) f = (r1, f1)" by fastforce
  note rd = os_ReadFile_full [OF r p t f1]
  have s: "LS_view rootDir f p = Some c \<Longrightarrow> os_Stat (getFullPath rootDir p) f = Inr (FFile c)" for c
    using os_Stat_full(1) [OF r p t] by simp
  have w': "(if n \<le> 0 then (Inl (Errorf ''invalid read size''), f)
      else if k < 0 then (Inl (Errorf ''invalid read offset''), f)
      else case os_Stat (getFullPath rootDir p) f of Inl e \<Rightarrow> (Inl (Wrapf ''failed to open file'' e), f)
        | Inr _ \<Rightarrow> (case (r1, f1) of (Inl e, f1) \<Rightarrow> (Inl (Wrapf ''failed to read at offset'' e), f1)
            | (Inr b, f1) \<Rightarrow> (Inr (take (nat n) (drop (nat k) b)), f1))) = (res, f')"
    using w unfolding LS_ReadAt_def valid_path [OF r p] f1 by simp
  have ff: "f' = f1 \<or> f' = f" and rb: "\<And>b. res = Inr b \<Longrightarrow> \<exists>c. r1 = Inr c \<and> b = take (nat n) (drop (nat k) c)"
    using w' by (auto split: if_splits sum.splits)
  have "LS_inv rootDir f' \<and> LS_view rootDir f' = LS_view rootDir f"
    using ff conjunct1 [OF rd] conjunct1 [OF conjunct2 [OF rd]] r t by (auto simp: LS_inv_def)
  moreover have "\<exists>c. LS_view rootDir f p = Some c \<and> b = take (nat n) (drop (nat k) c)" if "res = Inr b" for b
    using rb [OF that] rd by blast
  moreover have "res = Inr (take (nat n) (drop (nat k) c)) \<and> f' = f"
    if "LS_calm f" "LS_view rootDir f p = Some c" "0 < n" "0 \<le> k" for c
  proof -
    have "r1 = Inr c \<and> f1 = f" using rd that by blast
    with w' s [OF that(2)] that(3,4) show ?thesis by simp
  qed
  ultimately show ?thesis by simp
qed

lemma LS_Remove_full:
  assumes i: "LS_inv rootDir f" and p: "safe_path p" and w: "LS_Remove rootDir p f = (res, f')"
  shows "LS_inv rootDir f' \<and>
    LS_view rootDir f' = (if res = Inr () then (LS_view rootDir f)(p := None) else LS_view rootDir f) \<and>
    (LS_calm f \<and> LS_view rootDir f p \<noteq> None \<longrightarrow> res = Inr () \<and> LS_calm f')"
proof -
  have r: "ok_root rootDir" and t: "fs_tree f" using i by (auto simp: LS_inv_def)
  let ?k = "fkey rootDir p"
  obtain flt g where g: "fs_pop f = (flt, g)" by fastforce
  have tg: "fs_tree g" "LS_view rootDir g = LS_view rootDir f" "fs_get g = fs_get f"
    using fs_pop_tree [OF g] t fs_pop_view [OF g] by simp_all
  have k: "fs_key g (getFullPath rootDir p) = ?k" by (rule key_full [OF r p])
  obtain r1 where w1: "os_Remove (getFullPath rootDir p) f = (r1, f')" and res: "res = Inr () \<longleftrightarrow> r1 = Inr ()"
    using w valid_path [OF r p, of f] by (auto simp: LS_Remove_def split: sum.splits prod.splits)
  have del: "fs_tree (fs_del ?k g)" if "fs_get g ?k = Some n"
    "\<not> (n = FDir \<and> list_ex (\<lambda>(j, m). starts_with ?k j \<and> j \<noteq> ?k) (fs_nodes g))" for n
    by (rule fs_tree_del_leaf [OF tg(1) fkey_ne that])
  have dv: "LS_view rootDir (fs_del ?k g) = (LS_view rootDir g)(p := None)"
    by (auto simp: LS_view_def fun_eq_iff)
  have st: "os_Stat (getFullPath rootDir p) g = Inr n \<Longrightarrow> fs_get g ?k = Some n" for n
    using k by (auto simp: os_Stat_def Let_def split: if_splits option.splits)
  have "(fs_tree f' \<and> LS_view rootDir f' =
      (if r1 = Inr () then (LS_view rootDir f)(p := None) else LS_view rootDir f))"
    using w1 g del dv st tg unfolding os_Remove_def k Let_def
    by (auto simp: k split: sum.splits if_splits option.splits io_fault.splits)
  moreover have "r1 = Inr () \<and> LS_calm f'" if c: "LS_calm f" "LS_view rootDir f p \<noteq> None"
  proof -
    obtain b where b: "LS_view rootDir f p = Some b" using c by auto
    have "flt = None" "g = f" using g fs_pop_calm [OF c(1)] by auto
    with w1 g b os_Stat_full(1) [OF r p t, of b] c(1) k show ?thesis
      by (auto simp: os_Remove_def LS_calm_def)
  qed
  ultimately show ?thesis using res r by (auto simp: LS_inv_def)
qed

lemma move_file_tree:
  assumes t: "fs_tree f" and k: "fs_get f k = Some (FFile b)" and ne: "k \<noteq> k'" "k' \<noteq> []"
    and par: "fs_get f (butlast k') = Some FDir" and tgt: "fs_get f k' \<noteq> Some FDir"
  shows "fs_tree (move_tree k k' f)"
proof -
  note g = move_file_get [OF t k ne]
  have "fs_get (move_tree k k' f) (butlast j) = Some FDir"
    if j: "j \<noteq> []" "fs_get (move_tree k k' f) j = Some n" for j n
  proof -
    have d: "fs_get f (butlast j) = Some FDir"
      using j par fs_tree_parent [OF t, of j n] g(1) [of j] by (auto split: if_splits)
    with k tgt g(1) [of "butlast j"] show ?thesis by auto
  qed
  with g(2,3) show ?thesis by (auto simp: fs_tree_iff)
qed

lemma move_file_writable:
  assumes t: "fs_tree f" and k: "fs_get f k = Some (FFile b)" and ne: "k \<noteq> k'" "k' \<noteq> []"
    and s: "\<not> starts_with k' k"
  shows "\<not> under_file (move_tree k k' f) k \<and> fs_get (move_tree k k' f) k \<noteq> Some FDir"
proof -
  note g = move_file_get(1) [OF t k ne]
  have "\<not> is_file (move_tree k k' f) (take i k)" if i: "i < length k" for i
  proof -
    have "starts_with (take i k) k" by (metis append_take_drop_id starts_with_append)
    then have "take i k \<noteq> k'" using s by metis
    moreover have "\<not> is_file f (take i k)"
      using fs_tree_not_under [OF t k] i by (auto simp: under_file_def list_ex_iff)
    ultimately show ?thesis using g [of "take i k"] by (auto simp: is_file_def)
  qed
  then show ?thesis using g [of k] by (auto simp: under_file_def list_ex_iff)
qed

lemma starts_with_fkey:
  assumes "starts_with (fkey rootDir p) (fkey rootDir q)" "p \<noteq> q"
  shows "HasPrefix q (p @ ''/'')"
proof -
  from assms(1) obtain rest where r: "Split slash q = Split slash p @ rest"
    by (auto simp: starts_with_append fkey_def)
  with assms(2) have "rest \<noteq> []" by (metis JoinStr_Split append_Nil2)
  then have "q = p @ slash # JoinStr slash rest"
    using arg_cong [OF r, of "JoinStr slash"] JoinStr_append [of "Split slash p" rest slash] by simp
  then show ?thesis by (simp add: HasPrefix_iff)
qed

lemma LS_Rename_full:
  assumes i: "LS_inv rootDir f" and p: "safe_path p" and q: "safe_path q" and ne: "p \<noteq> q"
    and b: "LS_view rootDir f p = Some b" and w: "LS_Rename rootDir p q f = (res, f')"
  shows "LS_inv rootDir f' \<and>
    LS_view rootDir f' = (if res = Inr () then (LS_view rootDir f)(p := None, q \<mapsto> b) else LS_view rootDir f) \<and>
    (LS_calm f \<and> LS_writable rootDir f q \<and> \<not> HasPrefix q (p @ ''/'') \<longrightarrow> res = Inr () \<and> LS_calm f') \<and>
    (res = Inr () \<and> \<not> HasPrefix p (q @ ''/'') \<longrightarrow> LS_writable rootDir f' p)"
proof -
  have r: "ok_root rootDir" and t: "fs_tree f" using i by (auto simp: LS_inv_def)
  let ?k = "fkey rootDir p" let ?k' = "fkey rootDir q"
  obtain r1 f1 where f1: "prepare_write rootDir q f = (r1, f1)" by fastforce
  note gr = prepare_write_grown [OF r q t f1]
  have t1: "fs_tree f1" and c1: "LS_calm f1 = LS_calm f" using gr by (auto simp: grown_def LS_calm_def)
  have v1: "LS_view rootDir f1 = LS_view rootDir f" using gr grown_view by blast
  obtain flt g where g: "fs_pop f1 = (flt, g)" by fastforce
  have tg: "fs_tree g" "LS_view rootDir g = LS_view rootDir f" "fs_get g = fs_get f1"
    using fs_pop_tree [OF g] t1 fs_pop_view [OF g] v1 by simp_all
  have kk: "fs_key g (getFullPath rootDir p) = ?k" "fs_key g (getFullPath rootDir q) = ?k'"
    by (rule key_full [OF r p], rule key_full [OF r q])
  have st: "os_Stat (getFullPath rootDir p) g = Inr (FFile b)"
    using os_Stat_full(1) [OF r p tg(1)] tg(2) b by simp
  then have kg: "fs_get g ?k = Some (FFile b)"
    using kk by (auto simp: os_Stat_def Let_def split: if_splits option.splits)
  have nk: "?k \<noteq> ?k'" using ne by simp
  have mv: "fs_tree (move_tree ?k ?k' g) \<and> LS_view rootDir (move_tree ?k ?k' g) = (LS_view rootDir g)(p := None, q \<mapsto> b)"
    if oc: "open_check g ?k' = None"
  proof -
    have o: "\<not> under_file g ?k'" "fs_get g (butlast ?k') \<noteq> None" "fs_get g ?k' \<noteq> Some FDir"
      using oc by (auto simp: open_check_def split: if_splits)
    have "fs_tree (fs_put ?k' (FFile b) g)" by (rule put_file [OF tg(1) oc])
    then have "fs_get (fs_put ?k' (FFile b) g) (butlast ?k') = Some FDir"
      using fs_tree_parent [of "fs_put ?k' (FFile b) g" ?k' "FFile b"] by simp
    then have "fs_get g (butlast ?k') = Some FDir" by (simp split: if_splits)
    with move_file_tree [OF tg(1) kg nk fkey_ne] o(3) move_file_get(1) [OF tg(1) kg nk fkey_ne]
    show ?thesis by (auto simp: LS_view_def fun_eq_iff ne)
  qed
  let ?ren = "if under_file g ?k' then (Inl ENOTDIR, g)
      else if fs_get g (butlast ?k') = None then (Inl ErrNotExist, g)
      else if starts_with ?k ?k' then (Inl EINVAL, g)
      else if fs_get g ?k' = Some FDir then (Inl EEXIST, g)
      else (case flt of None \<Rightarrow> (Inr (), move_tree ?k ?k' g) | Some (NoEffect e) \<Rightarrow> (Inl e, g)
                        | Some (Partial m e) \<Rightarrow> (Inl e, g))"
  have ren: "os_Rename (getFullPath rootDir p) (getFullPath rootDir q) f1 = ?ren"
    unfolding os_Rename_def g prod.case Let_def kk st sum.case using nk by simp
  have oc': "open_check g ?k' = None"
    if "\<not> under_file g ?k'" "fs_get g (butlast ?k') \<noteq> None" "fs_get g ?k' \<noteq> Some FDir"
    using that by (simp add: open_check_def)
  have os: "fs_tree (snd ?ren) \<and> LS_view rootDir (snd ?ren) =
      (if fst ?ren = Inr () then (LS_view rootDir f)(p := None, q \<mapsto> b) else LS_view rootDir f)"
    using mv oc' tg by (auto split: option.splits io_fault.splits)
  have ret: "LS_writable rootDir (snd ?ren) p" if "fst ?ren = Inr ()" "\<not> HasPrefix p (q @ ''/'')"
  proof -
    have m: "snd ?ren = move_tree ?k ?k' g" using that(1) by (auto split: if_splits option.splits io_fault.splits)
    have "\<not> starts_with ?k' ?k" using starts_with_fkey [of rootDir q p] ne that(2) by blast
    with move_file_writable [OF tg(1) kg nk fkey_ne] show ?thesis unfolding m LS_writable_def by blast
  qed
  have total: "fst ?ren = Inr () \<and> LS_calm (snd ?ren)"
    if c: "LS_calm f" "LS_writable rootDir f q" "\<not> HasPrefix q (p @ ''/'')"
  proof -
    have fl: "flt = None" "g = f1" using g fs_pop_calm [of f1] c(1) c1 by auto
    have "open_check g ?k' = None" using gr c(2) fl(2) by simp
    moreover have "\<not> starts_with ?k ?k'" using starts_with_fkey [of rootDir p q] ne c(3) by blast
    moreover have "LS_calm (move_tree ?k ?k' g)" using fl(2) c(1) c1 by (simp add: LS_calm_def move_tree_def)
    ultimately show ?thesis using fl by (auto simp: open_check_def split: if_splits)
  qed
  show ?thesis
  proof (cases r1)
    case (Inl e)
    then have "res = Inl e" "f' = f1"
      using w f1 valid_path [OF r p, of f] valid_path [OF r q, of f] ne by (simp_all add: LS_Rename_def)
    with Inl gr t1 v1 r show ?thesis by (auto simp: LS_inv_def)
  next
    case (Inr u)
    obtain x y where xy: "os_Rename (getFullPath rootDir p) (getFullPath rootDir q) f1 = (x, y)" by fastforce
    then have e: "?ren = (x, y)" using ren by simp
    have "(case (x, y) of (Inl e, f2) \<Rightarrow> (Inl (Wrapf ''failed to rename'' e), f2) | (Inr _, f2) \<Rightarrow> (Inr (), f2))
        = (res, f')"
      using w unfolding LS_Rename_def valid_path [OF r p] valid_path [OF r q] sum.case f1 prod.case Inr xy
      by (simp add: ne)
    then have "f' = y" "res = Inr () \<longleftrightarrow> x = Inr ()" by (auto split: sum.splits)
    with os [unfolded e] total [unfolded e] ret [unfolded e] r show ?thesis unfolding LS_inv_def by simp
  qed
qed

lemma LS_GetSize_full:
  assumes "LS_inv rootDir f" "safe_path p" "LS_view rootDir f p = Some b"
  shows "LS_GetSize rootDir p f = Inr (int (length b))"
  using assms os_Stat_full(1) [of rootDir p f b] valid_path [of rootDir p f]
  by (simp add: LS_GetSize_def LS_inv_def)

lemma LS_view_writable:
  assumes "LS_inv rootDir f" "LS_view rootDir f p \<noteq> None"
  shows "LS_writable rootDir f p"
  using assms fs_tree_not_under [of f "fkey rootDir p"]
  by (auto simp: LS_view_def LS_writable_def LS_inv_def split: option.splits fnode.splits)

interpretation local_storage: storage "NewLocalStorage rootDir :: ('a fs_scheme) StorageAdapter"
  "LS_inv rootDir" LS_calm "LS_writable rootDir" "LS_view rootDir" for rootDir
proof (unfold_locales, goal_cases)
  case (1 s p data s')
  then show ?case using LS_Write_full [of rootDir s p data "Inr ()" s'] by (simp add: NewLocalStorage_def)
next
  case (2 s p data e s')
  then show ?case using LS_Write_full [of rootDir s p data "Inl e" s'] by (simp add: NewLocalStorage_def)
next
  case (3 s p data)
  then show ?case
    using LS_Write_full [of rootDir s p data "fst (LS_Write rootDir p data s)" "snd (LS_Write rootDir p data s)"]
    by (simp add: NewLocalStorage_def) (metis surjective_pairing)
next
  case (4 s p rd s')
  then show ?case using LS_WriteFromReader_full [of rootDir s p rd "Inr ()" s'] by (simp add: NewLocalStorage_def)
next
  case (5 s p rd)
  then show ?case
    using LS_WriteFromReader_full [of rootDir s p rd "fst (LS_WriteFromReader rootDir p rd s)"
        "snd (LS_WriteFromReader rootDir p rd s)"]
    by (simp add: NewLocalStorage_def) (metis surjective_pairing)
next
  case (6 s p)
  then show ?case by (intro LS_view_writable)
next
  case (7 s p b)
  obtain r s' where r: "LS_Read rootDir p s = (r, s')" by fastforce
  from LS_Read_full [OF 7(1,3) r] 7 have "r = Inr b \<and> s' = s" by blast
  with r show ?case by (simp add: NewLocalStorage_def)
next
  case (8 s p r s')
  then have "LS_Read rootDir p s = (r, s')" by (simp add: NewLocalStorage_def)
  from LS_Read_full [OF 8(1,2) this] show ?case by blast
next
  case (9 s p n k r s')
  then have "LS_ReadAt rootDir p n k s = (r, s')" by (simp add: NewLocalStorage_def)
  from LS_ReadAt_full [OF 9(1,2) this] show ?case by blast
next
  case (10 s p c n k)
  obtain r s' where r: "LS_ReadAt rootDir p n k s = (r, s')" by fastforce
  from LS_ReadAt_full [OF 10(1,3) r] 10
  have "r = Inr (take (nat n) (drop (nat k) c)) \<and> s' = s" by blast
  with r show ?case by (simp add: NewLocalStorage_def)
next
  case (11 s p b)
  then show ?case by (simp add: NewLocalStorage_def LS_GetSize_full)
next
  case (12 s p s')
  then show ?case using LS_Remove_full [of rootDir s p "Inr ()" s'] by (simp add: NewLocalStorage_def)
next
  case (13 s p e s')
  then show ?case using LS_Remove_full [of rootDir s p "Inl e" s'] by (simp add: NewLocalStorage_def)
next
  case (14 s p)
  then show ?case
    using LS_Remove_full [of rootDir s p "fst (LS_Remove rootDir p s)" "snd (LS_Remove rootDir p s)"]
    by (simp add: NewLocalStorage_def) (metis surjective_pairing)
next
  case (15 s p q b s')
  then show ?case using LS_Rename_full [of rootDir s p q b "Inr ()" s'] by (simp add: NewLocalStorage_def)
next
  case (16 s p q)
  then obtain b where b: "LS_view rootDir s p = Some b" by auto
  show ?case
  proof (cases "p = q")
    case True
    with 16 valid_path [of rootDir p s] show ?thesis by (simp add: NewLocalStorage_def LS_Rename_def LS_inv_def)
  next
    case False
    with 16 b LS_Rename_full [of rootDir s p q b "fst (LS_Rename rootDir p q s)" "snd (LS_Rename rootDir p q s)"]
    show ?thesis by (simp add: NewLocalStorage_def) (metis surjective_pairing)
  qed
next
  case (17 s p c n k)
  obtain r s' where r: "LS_ReadAt rootDir p n k s = (r, s')" by fastforce
  from LS_ReadAt_full [OF 17(1,3) r] 17
  have "r = Inr (take (nat n) (drop (nat k) c)) \<and> s' = s" by blast
  with r show ?case by (simp add: NewLocalStorage_def)
next
  case (18 s p b)
  then show ?case by (simp add: NewLocalStorage_def LS_GetSize_full)
next
  case (19 s p q e s')
  then show ?case
    using LS_Rename_full [of rootDir s p q _ "Inl e" s'] valid_path [of rootDir p s]
    by (cases "p = q") (auto simp: NewLocalStorage_def LS_Rename_def LS_inv_def)
next
  case (20 s p q b s')
  then show ?case using LS_Rename_full [of rootDir s p q b "Inr ()" s'] by (simp add: NewLocalStorage_def)
qed

section \<open>Properties\<close>


definition sample_fs :: fs where
  "sample_fs = \<lparr>fs_nodes = [([''srv''], FDir), ([''srv'', ''data''], FDir)], fs_cwd = Some ''/'',
     fs_tmp = ''/tmp'', fs_dirsize = 4096, fs_io = []\<rparr>"


text \<open>
  What is written is what is read.  With a working disk and no file or directory in the
  way, \<open>LocalStorage.Write\<close> of a safe path succeeds (creating missing directories), a
  \<open>Read\<close> then returns exactly the bytes, and the content of every other path is as
  before.
\<close>

theorem local_write_read:
  assumes "LS_inv rootDir f" "LS_calm f" "safe_path p" "LS_writable rootDir f p"
  shows "\<exists>f'. LS_Write rootDir p data f = (Inr (), f') \<and> LS_Read rootDir p f' = (Inr data, f') \<and>
    (\<forall>q. q \<noteq> p \<longrightarrow> LS_view rootDir f' q = LS_view rootDir f q)"
  using local_storage.write_read [OF assms, of data] by (simp add: NewLocalStorage_def)

theorem local_write_read_witness:
  "\<exists>f'. LS_Write ''/srv/data'' ''docs/a.txt'' ''hello'' sample_fs = (Inr (), f') \<and>
     LS_Read ''/srv/data'' ''docs/a.txt'' f' = (Inr ''hello'', f')"
proof -
  have "LS_inv ''/srv/data'' sample_fs" "LS_calm sample_fs" "safe_path ''docs/a.txt''"
    "LS_writable ''/srv/data'' sample_fs ''docs/a.txt''"
    by (simp_all add: LS_inv_def LS_calm_def safe_path_def LS_writable_def sample_fs_def ok_root_def root_elems_def
        abs_of_def proper_name_def fs_tree_def fs_get_def under_file_def is_file_def fkey_def)
  from local_write_read [OF this, of "''hello''"] show ?thesis by blast
qed

text \<open>
  The check on temporary files compares prefixes of strings, not of paths: with the system
  temporary directory \<open>/tmp\<close> it accepts files of the directory \<open>/tmpfoo\<close>, and it
  rejects every file of another directory, such as a configured shared one.
\<close>

theorem validateTempFilePath_prefix:
  "validateTempFilePath ''/tmpfoo/x'' sample_fs = Inr () \<and>
   validateTempFilePath ''/mnt/shared/upload-1'' sample_fs =
     Inl (Errorf ''temp file must be in system temp directory'')"
  by code_simp

end
