(* ===== verification/File_Manager.thy ===== *)
theory File_Manager
  imports Metadata Storage_Contract Dist_Lock
begin

text \<open>
  \<open>src/internal/service/filemanager/manager.go\<close>: uploads, downloads, deletion and renaming
  of whole files over a storage backend, the metadata database and a distributed lock.  The
  state is the triple of theirs.  What an operation takes from its environment is the record
  \<open>fm_env\<close>: the attempts of \<open>AcquireLock\<close>, the time of the unlock, the fresh
  UUID, the time stamp, and the SHA-256 function of the standard library.  The per-path mutex
  makes the operations of one process on a path sequential; an operation is therefore one step,
  with other clients of the lock acting only while it waits.
\<close>

section \<open>State and environment\<close>

record ('s, 'l) fm_state =
  w_store :: 's
  w_db :: db
  w_lock :: 'l

record 'l fm_env =
  fe_acq :: "nat \<Rightarrow> 'l acq_env"
  fe_unlock_now :: gotime
  fe_uuid :: string
  fe_ts :: string
  fe_sha :: "bytes \<Rightarrow> string"

record ('s, 'l) FileManager =
  fmg_storage :: "'s StorageAdapter"
  fmg_distLock :: "'l DistributedLock"

section \<open>Locking\<close>

definition distLockFile ::
  "'l DistributedLock \<Rightarrow> 'l fm_env \<Rightarrow> string \<Rightarrow> 'l \<Rightarrow> string res \<times> 'l"
where
  "distLockFile dl env path l =
     (case AcquireLock dl (fe_acq env) (''file:'' @ path) (10 * Dist_Lock.second) 30 (50 * millisecond) l of
        (Inl e, l1, ds) \<Rightarrow> (Inl (Wrapf ''failed to acquire distributed lock'' e), l1)
      | (Inr token, l1, ds) \<Rightarrow> (Inr token, l1))"

text \<open>With renewal: the goroutine is cancelled before the lock is released.\<close>

definition distLockFileWithRenewal ::
  "'l DistributedLock \<Rightarrow> 'l fm_env \<Rightarrow> string \<Rightarrow> 'l \<Rightarrow> string res \<times> 'l"
where
  "distLockFileWithRenewal dl env path l =
     (case AcquireLockWithRenewal dl (fe_acq env) Background 0 (fe_unlock_now env) (''file:'' @ path)
             (10 * Dist_Lock.second) 30 (50 * millisecond) l of
        (Inl e, l1) \<Rightarrow> (Inl (Wrapf ''failed to acquire distributed lock'' e), l1)
      | (Inr (token, rn), l1) \<Rightarrow> (Inr token, l1))"

definition distUnlockFile :: "'l DistributedLock \<Rightarrow> 'l fm_env \<Rightarrow> string \<Rightarrow> string \<Rightarrow> 'l \<Rightarrow> 'l" where
  "distUnlockFile dl env path token l =
     snd (dl_Unlock dl (fe_unlock_now env) (''file:'' @ path) token l)"

section \<open>Queries\<close>

definition FM_Exists :: "string \<Rightarrow> db \<Rightarrow> bool \<times> db" where
  "FM_Exists path0 d =
     (let path = NormalizePath path0
      in case File_Exists path d of (Inl e, d1) \<Rightarrow> (False, d1) | (Inr b, d1) \<Rightarrow> (b, d1))"

definition GetFileMetadata :: "string \<Rightarrow> db \<Rightarrow> FileMetadata res \<times> db" where
  "GetFileMetadata path0 d =
     (let path = NormalizePath path0
      in case File_GetByPath path d of
           (Inl e, d1) \<Rightarrow> (Inl (Wrapf ''file metadata not found'' e), d1)
         | (Inr None, d1) \<Rightarrow> (Inl (Errorf ''file not found''), d1)
         | (Inr (Some m), d1) \<Rightarrow> (Inr m, d1))"

definition GetFileSize :: "string \<Rightarrow> db \<Rightarrow> int \<times> db" where
  "GetFileSize path0 d =
     (let path = NormalizePath path0
      in case File_GetByPath path d of
           (Inr (Some m), d1) \<Rightarrow> (fm_Size m, d1)
         | (_, d1) \<Rightarrow> (0, d1))"

section \<open>Uploads\<close>

definition new_meta :: "'s StorageAdapter \<Rightarrow> 'l fm_env \<Rightarrow> string \<Rightarrow> int \<Rightarrow> string \<Rightarrow> FileMetadata" where
  "new_meta st env path sz hash =
     \<lparr>fm_ID = fe_uuid env, fm_Path = path, fm_Name = GetFileName path, fm_Size = sz, fm_Hash = hash,
      fm_StorageType = sa_StorageType st, fm_StorageLocation = [], fm_CreatedAt = fe_ts env,
      fm_UpdatedAt = fe_ts env, fm_IsDeleted = False\<rparr>"

text \<open>The part of \<open>UploadFile\<close> below the locks: first the branch for a path without
  a record, then the whole.\<close>

definition upload_new ::
  "'s StorageAdapter \<Rightarrow> 'l fm_env \<Rightarrow> string \<Rightarrow> bytes \<Rightarrow> 's \<times> db \<Rightarrow> FileMetadata res \<times> 's \<times> db"
where
  "upload_new st env path data sd =
     (case sa_Write st path data (fst sd) of
        (Inl e, s1) \<Rightarrow> (Inl (Wrapf ''failed to write file'' e), s1, snd sd)
      | (Inr _, s1) \<Rightarrow>
          let meta = new_meta st env path (int (length data)) (fe_sha env data)
          in case File_Create meta (snd sd) of
               (Inl e, d1) \<Rightarrow> (Inl (Wrapf ''failed to create file metadata'' e), snd (sa_Remove st path s1), d1)
             | (Inr _, d1) \<Rightarrow> (Inr meta, s1, d1))"

definition upload_overwrite ::
  "'s StorageAdapter \<Rightarrow> 'l fm_env \<Rightarrow> string \<Rightarrow> bytes \<Rightarrow> FileMetadata \<Rightarrow> 's \<times> db
    \<Rightarrow> FileMetadata res \<times> 's \<times> db"
where
  "upload_overwrite st env path data existing sd =
     (case sa_Write st path data (fst sd) of
        (Inl e, s1) \<Rightarrow> (Inl (Wrapf ''failed to overwrite file'' e), s1, snd sd)
      | (Inr _, s1) \<Rightarrow>
          let meta = existing\<lparr>fm_Size := int (length data), fm_Hash := fe_sha env data,
                              fm_UpdatedAt := fe_ts env, fm_IsDeleted := False\<rparr>
          in case File_Update meta (snd sd) of
               (Inl e, d1) \<Rightarrow> (Inl (Wrapf ''failed to update file metadata'' e), s1, d1)
             | (Inr _, d1) \<Rightarrow> (Inr meta, s1, d1))"

definition upload_body ::
  "'s StorageAdapter \<Rightarrow> 'l fm_env \<Rightarrow> string \<Rightarrow> bytes \<Rightarrow> 's \<times> db \<Rightarrow> FileMetadata res \<times> 's \<times> db"
where
  "upload_body st env path data sd =
     (case FM_Exists path (snd sd) of
        (False, d1) \<Rightarrow> upload_new st env path data (fst sd, d1)
      | (True, d1) \<Rightarrow>
          (case File_GetByPath path d1 of
             (Inr (Some existing), d2) \<Rightarrow> upload_overwrite st env path data existing (fst sd, d2)
           | (_, d2) \<Rightarrow> upload_new st env path data (fst sd, d2)))"

definition UploadFile ::
  "('s, 'l) FileManager \<Rightarrow> 'l fm_env \<Rightarrow> string \<Rightarrow> bytes \<Rightarrow> ('s, 'l) fm_state
    \<Rightarrow> FileMetadata res \<times> ('s, 'l) fm_state"
where
  "UploadFile fm env path0 data w =
     (let path = NormalizePath path0
      in case distLockFileWithRenewal (fmg_distLock fm) env path (w_lock w) of
           (Inl e, l1) \<Rightarrow> (Inl e, w\<lparr>w_lock := l1\<rparr>)
         | (Inr token, l1) \<Rightarrow>
             (case upload_body (fmg_storage fm) env path data (w_store w, w_db w) of
                (r, s1, d1) \<Rightarrow>
                  (r, \<lparr>w_store = s1, w_db = d1, w_lock = distUnlockFile (fmg_distLock fm) env path token l1\<rparr>)))"

text \<open>\<open>UploadFileFromReader\<close> below the locks.  The hash is that of the bytes the
  reader delivered; the size is asked from the storage afterwards, and 0 when that fails.\<close>

definition upload_reader_body ::
  "'s StorageAdapter \<Rightarrow> 'l fm_env \<Rightarrow> string \<Rightarrow> reader \<Rightarrow> 's \<times> db \<Rightarrow> FileMetadata res \<times> 's \<times> db"
where
  "upload_reader_body st env path rd sd =
     (case sa_WriteFromReader st path rd (fst sd) of
        (Inl e, s1) \<Rightarrow> (Inl (Wrapf ''failed to write file from reader'' e), s1, snd sd)
      | (Inr _, s1) \<Rightarrow>
          let sz = (case sa_GetSize st path s1 of Inl _ \<Rightarrow> 0 | Inr n \<Rightarrow> n);
              hash = fe_sha env (rd_data rd)
          in case File_GetByPath path (snd sd) of
               (Inr (Some existing), d1) \<Rightarrow>
                 let meta = existing\<lparr>fm_Size := sz, fm_Hash := hash, fm_UpdatedAt := fe_ts env,
                                     fm_IsDeleted := False\<rparr>
                 in (case File_Update meta d1 of
                       (Inl e, d2) \<Rightarrow> (Inl (Wrapf ''failed to update file metadata'' e), s1, d2)
                     | (Inr _, d2) \<Rightarrow> (Inr meta, s1, d2))
             | (_, d1) \<Rightarrow>
                 let meta = new_meta st env path sz hash
                 in (case File_Create meta d1 of
                       (Inl e, d2) \<Rightarrow> (Inl (Wrapf ''failed to create file metadata'' e), snd (sa_Remove st path s1), d2)
                     | (Inr _, d2) \<Rightarrow> (Inr meta, s1, d2)))"

definition UploadFileFromReader ::
  "('s, 'l) FileManager \<Rightarrow> 'l fm_env \<Rightarrow> string \<Rightarrow> reader \<Rightarrow> ('s, 'l) fm_state
    \<Rightarrow> FileMetadata res \<times> ('s, 'l) fm_state"
where
  "UploadFileFromReader fm env path0 rd w =
     (let path = NormalizePath path0
      in case distLockFileWithRenewal (fmg_distLock fm) env path (w_lock w) of
           (Inl e, l1) \<Rightarrow> (Inl e, w\<lparr>w_lock := l1\<rparr>)
         | (Inr token, l1) \<Rightarrow>
             (case upload_reader_body (fmg_storage fm) env path rd (w_store w, w_db w) of
                (r, s1, d1) \<Rightarrow>
                  (r, \<lparr>w_store = s1, w_db = d1, w_lock = distUnlockFile (fmg_distLock fm) env path token l1\<rparr>)))"

section \<open>Downloads\<close>

definition DownloadFile ::
  "('s, 'l) FileManager \<Rightarrow> string \<Rightarrow> ('s, 'l) fm_state \<Rightarrow> bytes res \<times> ('s, 'l) fm_state"
where
  "DownloadFile fm path0 w =
     (let path = NormalizePath path0
      in case GetFileMetadata path (w_db w) of
           (Inl e, d1) \<Rightarrow> (Inl e, w\<lparr>w_db := d1\<rparr>)
         | (Inr _, d1) \<Rightarrow>
             (case sa_Read (fmg_storage fm) path (w_store w) of
                (Inl e, s1) \<Rightarrow> (Inl (Wrapf ''failed to read file'' e), w\<lparr>w_db := d1, w_store := s1\<rparr>)
              | (Inr b, s1) \<Rightarrow> (Inr b, w\<lparr>w_db := d1, w_store := s1\<rparr>)))"

definition DownloadFileAt ::
  "('s, 'l) FileManager \<Rightarrow> string \<Rightarrow> int \<Rightarrow> int \<Rightarrow> ('s, 'l) fm_state \<Rightarrow> bytes res \<times> ('s, 'l) fm_state"
where
  "DownloadFileAt fm path0 sz offset w =
     (let path = NormalizePath path0
      in case GetFileMetadata path (w_db w) of
           (Inl e, d1) \<Rightarrow> (Inl e, w\<lparr>w_db := d1\<rparr>)
         | (Inr _, d1) \<Rightarrow>
             (case sa_ReadAt (fmg_storage fm) path sz offset (w_store w) of
                (Inl e, s1) \<Rightarrow> (Inl (Wrapf ''failed to read file at offset'' e), w\<lparr>w_db := d1, w_store := s1\<rparr>)
              | (Inr b, s1) \<Rightarrow> (Inr b, w\<lparr>w_db := d1, w_store := s1\<rparr>)))"

definition DownloadFileData ::
  "('s, 'l) FileManager \<Rightarrow> FileMetadata option \<Rightarrow> ('s, 'l) fm_state \<Rightarrow> bytes res \<times> ('s, 'l) fm_state"
where
  "DownloadFileData fm meta w =
     (case meta of
        None \<Rightarrow> (Inl (Errorf ''metadata is required''), w)
      | Some m \<Rightarrow>
          (case sa_Read (fmg_storage fm) (NormalizePath (fm_Path m)) (w_store w) of
             (Inl e, s1) \<Rightarrow> (Inl (Wrapf ''failed to read file'' e), w\<lparr>w_store := s1\<rparr>)
           | (Inr b, s1) \<Rightarrow> (Inr b, w\<lparr>w_store := s1\<rparr>)))"

definition DownloadFileDataAt ::
  "('s, 'l) FileManager \<Rightarrow> FileMetadata option \<Rightarrow> int \<Rightarrow> int \<Rightarrow> ('s, 'l) fm_state
    \<Rightarrow> bytes res \<times> ('s, 'l) fm_state"
where
  "DownloadFileDataAt fm meta sz offset w =
     (case meta of
        None \<Rightarrow> (Inl (Errorf ''metadata is required''), w)
      | Some m \<Rightarrow>
          (case sa_ReadAt (fmg_storage fm) (NormalizePath (fm_Path m)) sz offset (w_store w) of
             (Inl e, s1) \<Rightarrow> (Inl (Wrapf ''failed to read file at offset'' e), w\<lparr>w_store := s1\<rparr>)
           | (Inr b, s1) \<Rightarrow> (Inr b, w\<lparr>w_store := s1\<rparr>)))"

section \<open>Deletion and renaming\<close>

definition delete_body ::
  "'s StorageAdapter \<Rightarrow> 'l fm_env \<Rightarrow> string \<Rightarrow> 's \<times> db \<Rightarrow> unit res \<times> 's \<times> db"
where
  "delete_body st env path sd =
     (case GetFileMetadata path (snd sd) of
        (Inl e, d1) \<Rightarrow> (Inl e, fst sd, d1)
      | (Inr meta, d1) \<Rightarrow>
          (case sa_Remove st path (fst sd) of
             (Inl e, s1) \<Rightarrow> (Inl (Wrapf ''failed to delete file from storage'' e), s1, d1)
           | (Inr _, s1) \<Rightarrow>
               (case File_Remove (fe_ts env) (fm_ID meta) d1 of
                  (Inl e, d2) \<Rightarrow> (Inl (Wrapf ''failed to delete file metadata'' e), s1, d2)
                | (Inr _, d2) \<Rightarrow> (Inr (), s1, d2))))"

definition DeleteFile ::
  "('s, 'l) FileManager \<Rightarrow> 'l fm_env \<Rightarrow> string \<Rightarrow> ('s, 'l) fm_state \<Rightarrow> unit res \<times> ('s, 'l) fm_state"
where
  "DeleteFile fm env path0 w =
     (let path = NormalizePath path0
      in case distLockFile (fmg_distLock fm) env path (w_lock w) of
           (Inl e, l1) \<Rightarrow> (Inl e, w\<lparr>w_lock := l1\<rparr>)
         | (Inr token, l1) \<Rightarrow>
             (case delete_body (fmg_storage fm) env path (w_store w, w_db w) of
                (r, s1, d1) \<Rightarrow>
                  (r, \<lparr>w_store = s1, w_db = d1, w_lock = distUnlockFile (fmg_distLock fm) env path token l1\<rparr>)))"

definition rename_body ::
  "'s StorageAdapter \<Rightarrow> 'l fm_env \<Rightarrow> string \<Rightarrow> string \<Rightarrow> 's \<times> db \<Rightarrow> unit res \<times> 's \<times> db"
where
  "rename_body st env oldPath newName sd =
     (case GetFileMetadata oldPath (snd sd) of
        (Inl e, d1) \<Rightarrow> (Inl e, fst sd, d1)
      | (Inr meta0, d1) \<Rightarrow>
          let newPath = NormalizePath (GetDirectory oldPath @ ''/'' @ newName)
          in case FM_Exists newPath d1 of
               (True, d2) \<Rightarrow> (Inl (Errorf ''target path already exists''), fst sd, d2)
             | (False, d2) \<Rightarrow>
                 (case sa_Rename st oldPath newPath (fst sd) of
                    (Inl e, s1) \<Rightarrow> (Inl (Wrapf ''failed to rename file in storage'' e), s1, d2)
                  | (Inr _, s1) \<Rightarrow>
                      let meta = meta0\<lparr>fm_Path := newPath, fm_Name := newName, fm_UpdatedAt := fe_ts env\<rparr>
                      in (case File_Update meta d2 of
                            (Inl e, d3) \<Rightarrow>
                              (Inl (Wrapf ''failed to update file metadata'' e), snd (sa_Rename st newPath oldPath s1), d3)
                          | (Inr _, d3) \<Rightarrow> (Inr (), s1, d3))))"

definition RenameFile ::
  "('s, 'l) FileManager \<Rightarrow> 'l fm_env \<Rightarrow> string \<Rightarrow> string \<Rightarrow> ('s, 'l) fm_state
    \<Rightarrow> unit res \<times> ('s, 'l) fm_state"
where
  "RenameFile fm env oldPath0 newName w =
     (let oldPath = NormalizePath oldPath0
      in case distLockFile (fmg_distLock fm) env oldPath (w_lock w) of
           (Inl e, l1) \<Rightarrow> (Inl e, w\<lparr>w_lock := l1\<rparr>)
         | (Inr token, l1) \<Rightarrow>
             (case rename_body (fmg_storage fm) env oldPath newName (w_store w, w_db w) of
                (r, s1, d1) \<Rightarrow>
                  (r, \<lparr>w_store = s1, w_db = d1, w_lock = distUnlockFile (fmg_distLock fm) env oldPath token l1\<rparr>)))"

section \<open>Lemmas on the records\<close>

lemma live_update:
  assumes d: "distinct (map i rs)" "distinct (map k rs)"
    and r: "find (\<lambda>r. k r = p \<and> \<not> del r) rs = Some r"
    and d': "distinct (map k (updrows (\<lambda>x. i x = i r) f rs))" and f: "\<not> del (f r)"
  shows "(\<lambda>q. find (\<lambda>r. k r = q \<and> \<not> del r) (updrows (\<lambda>x. i x = i r) f rs)) =
    (\<lambda>q. find (\<lambda>r. k r = q \<and> \<not> del r) rs)(p := None, k (f r) \<mapsto> f r)"
proof
  fix q
  have r': "k r = p" "\<not> del r" "r \<in> set rs" using find_SomeD [OF r] by auto
  have P: "\<forall>x \<in> set rs. i x = i r \<longleftrightarrow> x = r"
    using distinct_key_eq [OF d(1) _ r'(3)] by auto
  have u: "updrows (\<lambda>x. i x = i r) f rs = map (\<lambda>x. if x = r then f r else x) rs"
    using P by (auto simp: updrows_def)
  show "find (\<lambda>r. k r = q \<and> \<not> del r) (updrows (\<lambda>x. i x = i r) f rs) =
    ((\<lambda>q. find (\<lambda>r. k r = q \<and> \<not> del r) rs)(p := None, k (f r) \<mapsto> f r)) q"
  proof (cases "q = k (f r)")
    case True
    have "f r \<in> set (updrows (\<lambda>x. i x = i r) f rs)" using r'(3) unfolding u by force
    from find_unique [OF d' this, of "\<lambda>x. \<not> del x"] f True show ?thesis by simp
  next
    case False
    have "find (\<lambda>x. k x = q \<and> \<not> del x) (map (\<lambda>x. if x = r then f r else x) rs) =
        find (\<lambda>x. k x = q \<and> \<not> del x \<and> x \<noteq> r) rs"
      using False by (induction rs) auto
    moreover have "find (\<lambda>x. k x = q \<and> \<not> del x \<and> x \<noteq> r) rs =
        (if q = p then None else find (\<lambda>x. k x = q \<and> \<not> del x) rs)"
    proof (cases "q = p")
      case True
      have "\<not> (k x = q \<and> \<not> del x \<and> x \<noteq> r)" if "x \<in> set rs" for x
        using distinct_key_eq [OF d(2) that r'(3)] True r'(1) by auto
      with True show ?thesis by (simp add: find_None_iff)
    next
      case False
      have "(k x = q \<and> \<not> del x \<and> x \<noteq> r) = (k x = q \<and> \<not> del x)" if "x \<in> set rs" for x
        using False r'(1) by auto
      with False show ?thesis by (simp cong: find_cong)
    qed
    ultimately show ?thesis using False unfolding u by simp
  qed
qed

lemma File_Update_ok:
  assumes "File_Update m d = (Inr (), d')"
  shows "\<exists>d0 rs. same_tables d0 d \<and> d' = d0\<lparr>t_files := rs\<rparr> \<and> file_unique rs \<and>
    rs = updrows (\<lambda>r. fm_ID r = fm_ID m) (\<lambda>r. m\<lparr>fm_ID := fm_ID r, fm_CreatedAt := fm_CreatedAt r\<rparr>) (t_files d)"
proof -
  have f: "(\<lambda>r. r\<lparr>fm_Path := fm_Path m, fm_Name := fm_Name m, fm_Size := fm_Size m,
                     fm_Hash := fm_Hash m, fm_StorageType := fm_StorageType m,
                     fm_StorageLocation := fm_StorageLocation m, fm_UpdatedAt := fm_UpdatedAt m,
                     fm_IsDeleted := fm_IsDeleted m\<rparr>) = (\<lambda>r. m\<lparr>fm_ID := fm_ID r, fm_CreatedAt := fm_CreatedAt r\<rparr>)"
    by (rule ext) simp
  from assms obtain u where "db_Exec (\<lambda>d. set_files (updrows (\<lambda>r. fm_ID r = fm_ID m)
      (\<lambda>r. m\<lparr>fm_ID := fm_ID r, fm_CreatedAt := fm_CreatedAt r\<rparr>) (t_files d)) d) d = (Inr u, d')"
    unfolding File_Update_def f by (auto split: prod.splits sum.splits)
  from Exec_files_ok [OF this] show ?thesis by blast
qed

lemma File_Update_live:
  assumes wf: "db_wf d" and l: "live_file d p = Some r" and m: "fm_ID m = fm_ID r" "fm_CreatedAt m = fm_CreatedAt r"
    "\<not> fm_IsDeleted m" and u: "File_Update m d = (Inr (), d')"
  shows "db_wf d' \<and> live_file d' = (live_file d)(p := None, fm_Path m \<mapsto> m)"
proof -
  obtain d0 rs where d0: "same_tables d0 d" "d' = d0\<lparr>t_files := rs\<rparr>" "file_unique rs"
    and rs: "rs = updrows (\<lambda>x. fm_ID x = fm_ID r) (\<lambda>r. m\<lparr>fm_ID := fm_ID r, fm_CreatedAt := fm_CreatedAt r\<rparr>) (t_files d)"
    using File_Update_ok [OF u] m(1) by auto
  have fr: "m\<lparr>fm_ID := fm_ID r, fm_CreatedAt := fm_CreatedAt r\<rparr> = m" using m by simp
  have "live_file d' = (live_file d)(p := None, fm_Path m \<mapsto> m)"
    unfolding live_file_def d0(2)
    using live_update [where k = fm_Path and i = fm_ID and del = fm_IsDeleted and p = p and r = r
        and rs = "t_files d" and f = "\<lambda>r. m\<lparr>fm_ID := fm_ID r, fm_CreatedAt := fm_CreatedAt r\<rparr>"]
      wf_files [OF wf] l d0(3) m(3) rs fr by (simp add: live_file_def file_unique_def)
  with set_files_wf [OF d0(1) wf d0(3)] d0(2) show ?thesis by simp
qed

lemma File_Update_err: "File_Update m d = (Inl e, d') \<Longrightarrow> same_tables d' d"
  by (auto simp: File_Update_def split: prod.splits sum.splits dest!: db_Exec_err)

lemma File_Update_total:
  assumes "db_wf d" "db_faults d = []" "live_file d p = Some r" "fm_ID m = fm_ID r"
    "\<forall>x \<in> set (t_files d). x \<noteq> r \<longrightarrow> fm_Path x \<noteq> fm_Path m"
  shows "\<exists>d'. File_Update m d = (Inr (), d') \<and> db_faults d' = []"
proof -
  let ?f = "\<lambda>r. m\<lparr>fm_ID := fm_ID r, fm_CreatedAt := fm_CreatedAt r\<rparr>"
  let ?rs = "updrows (\<lambda>x. fm_ID x = fm_ID m) ?f (t_files d)"
  have f: "(\<lambda>r. r\<lparr>fm_Path := fm_Path m, fm_Name := fm_Name m, fm_Size := fm_Size m,
                     fm_Hash := fm_Hash m, fm_StorageType := fm_StorageType m,
                     fm_StorageLocation := fm_StorageLocation m, fm_UpdatedAt := fm_UpdatedAt m,
                     fm_IsDeleted := fm_IsDeleted m\<rparr>) = ?f" by (rule ext) simp
  have r: "r \<in> set (t_files d)" by (rule conjunct2 [OF find_SomeD [OF assms(3) [unfolded live_file_def]]])
  have P: "\<forall>x \<in> set (t_files d). fm_ID x = fm_ID m \<longleftrightarrow> x = r"
  proof
    fix x assume "x \<in> set (t_files d)"
    with distinct_key_eq [of fm_ID "t_files d" x r] wf_files [OF assms(1)] r assms(4)
    show "fm_ID x = fm_ID m \<longleftrightarrow> x = r" by metis
  qed
  have ids: "map fm_ID ?rs = map fm_ID (t_files d)" by (rule updrows_key) simp
  have paths: "map fm_Path ?rs = map (\<lambda>x. if x = r then fm_Path m else fm_Path x) (t_files d)"
    using P by (auto simp: updrows_def)
  have "inj_on (\<lambda>x. if x = r then fm_Path m else fm_Path x) (set (t_files d))"
    using assms(5) wf_files [OF assms(1)] by (auto simp: inj_on_def distinct_map)
  then have "distinct (map fm_Path ?rs)"
    unfolding paths using wf_files [OF assms(1)] by (simp add: distinct_map)
  then have "file_unique ?rs" using ids wf_files [OF assms(1)] by (simp add: file_unique_def)
  then show ?thesis unfolding File_Update_def f using assms(2) by (simp add: db_Exec_def set_files_def)
qed

lemma File_Update_in_place:
  assumes "db_wf d" "db_faults d = []" "live_file d p = Some r" "fm_ID m = fm_ID r" "fm_Path m = fm_Path r"
  shows "\<exists>d'. File_Update m d = (Inr (), d') \<and> db_faults d' = []"
proof (rule File_Update_total [OF assms(1-4)], intro ballI impI notI)
  fix x assume x: "x \<in> set (t_files d)" "x \<noteq> r" "fm_Path x = fm_Path m"
  have "r \<in> set (t_files d)" by (rule conjunct2 [OF find_SomeD [OF assms(3) [unfolded live_file_def]]])
  with x(1,3) assms(5) have "x = r"
    using distinct_key_eq [OF conjunct2 [OF wf_files [OF assms(1)]] x(1)] by simp
  with x(2) show False ..
qed

lemma File_GetByPath_res:
  assumes "File_GetByPath p d = (r, d1)"
  shows "same_tables d1 d" and "r = Inr (Some m) \<Longrightarrow> live_file d (NormalizePath p) = Some m"
proof -
  let ?P = "\<lambda>r. fm_Path r = NormalizePath p \<and> \<not> fm_IsDeleted r"
  obtain q d2 where q: "db_QueryRow (\<lambda>d. filter ?P (t_files d)) d = (q, d2)" by fastforce
  have d1: "d1 = d2" and rq: "r = Inr (Some m) \<Longrightarrow> q = Inr m" for m
    using assms q by (auto simp: File_GetByPath_def scanFileMetadata_def Let_def split: sum.splits if_splits)
  show "same_tables d1 d" using db_QueryRow_same [OF q] d1 by simp
  show "live_file d (NormalizePath p) = Some m" if "r = Inr (Some m)"
    using q [unfolded rq [OF that]]
    by (auto simp: db_QueryRow_def live_file_def find_filter_hd dest!: pop_fault_same
        simp: same_tables_def split: prod.splits option.splits list.splits)
qed

lemma FM_Exists_res:
  assumes "FM_Exists p d = (b, d1)" and p: "NormalizePath p = p"
  shows "same_tables d1 d" and "b \<Longrightarrow> live_file d p \<noteq> None"
proof -
  let ?P = "\<lambda>r. fm_Path r = p \<and> \<not> fm_IsDeleted r"
  obtain q d2 where q: "db_QueryRow (\<lambda>d. [length (filter ?P (t_files d))]) d = (q, d2)" by fastforce
  have d1: "d1 = d2" and bq: "b \<Longrightarrow> \<exists>n. q = Inr n \<and> 0 < n"
    using assms q by (auto simp: FM_Exists_def File_Exists_def Let_def p split: sum.splits)
  show "same_tables d1 d" using db_QueryRow_same [OF q] d1 by simp
  show "live_file d p \<noteq> None" if b
    using q bq [OF that]
    by (auto simp: db_QueryRow_def live_file_def find_filter_hd filter_empty_conv dest!: pop_fault_same
        simp: same_tables_def split: prod.splits option.splits list.splits)
qed

section \<open>The operations below the locks\<close>

text \<open>Records and objects agree: every live record describes the bytes stored under its
  path.\<close>

definition consistent :: "(bytes \<Rightarrow> string) \<Rightarrow> (string \<Rightarrow> bytes option) \<Rightarrow> db \<Rightarrow> bool" where
  "consistent sha view d \<longleftrightarrow>
     (\<forall>p m. live_file d p = Some m \<longrightarrow>
        (\<exists>b. view p = Some b \<and> fm_Size m = int (length b) \<and> fm_Hash m = sha b))"

lemma consistent_upd:
  "consistent sha v d \<Longrightarrow> live_file d' = (live_file d)(p \<mapsto> m) \<Longrightarrow> fm_Size m = int (length b) \<Longrightarrow>
    fm_Hash m = sha b \<Longrightarrow> consistent sha (v(p \<mapsto> b)) d'"
  by (auto simp: consistent_def)

lemma consistent_del:
  "consistent sha v d \<Longrightarrow> live_file d' = (live_file d)(p := None) \<Longrightarrow> consistent sha (v(p := None)) d'"
  by (auto simp: consistent_def)

lemma new_meta_norm: "safe_path p \<Longrightarrow> file_norm (new_meta st env p n h) = new_meta st env p n h"
  by (simp add: file_norm_def new_meta_def)

context object_storage
begin

lemma upload_new_ok:
  assumes "inv s" "db_wf d" "safe_path p" "upload_new st env p data (s, d) = (Inr m, s', d')"
  shows "inv s' \<and> db_wf d' \<and> view s' = (view s)(p \<mapsto> data) \<and> live_file d' = (live_file d)(p \<mapsto> m) \<and>
    m = new_meta st env p (int (length data)) (fe_sha env data)"
proof -
  let ?m = "new_meta st env p (int (length data)) (fe_sha env data)"
  obtain s1 where w: "sa_Write st p data s = (Inr (), s1)"
    and c: "File_Create ?m d = (Inr (), d')" and "s' = s1" "m = ?m"
    using assms(4) by (auto simp: upload_new_def Let_def split: prod.splits sum.splits)
  moreover have "\<not> fm_IsDeleted ?m" "fm_Path ?m = p" by (simp_all add: new_meta_def)
  ultimately show ?thesis
    using write_ok [OF assms(1,3) w] File_Create_live [OF assms(2) _ c] assms(3)
      new_meta_norm [OF assms(3), of st env "int (length data)" "fe_sha env data"]
    by simp
qed

lemma upload_overwrite_ok:
  assumes "inv s" "db_wf d" "safe_path p" "live_file d p = Some r"
    and "upload_overwrite st env p data r (s, d) = (Inr m, s', d')"
  shows "inv s' \<and> db_wf d' \<and> view s' = (view s)(p \<mapsto> data) \<and> live_file d' = (live_file d)(p \<mapsto> m) \<and>
    fm_Size m = int (length data) \<and> fm_Hash m = fe_sha env data"
proof -
  let ?m = "r\<lparr>fm_Size := int (length data), fm_Hash := fe_sha env data, fm_UpdatedAt := fe_ts env,
              fm_IsDeleted := False\<rparr>"
  obtain s1 where w: "sa_Write st p data s = (Inr (), s1)"
    and c: "File_Update ?m d = (Inr (), d')" and "s' = s1" "m = ?m"
    using assms(5) by (auto simp: upload_overwrite_def Let_def split: prod.splits sum.splits)
  moreover have "fm_Path r = p" using assms(4) find_SomeD unfolding live_file_def by fastforce
  ultimately show ?thesis
    using write_ok [OF assms(1,3) w] File_Update_live [OF assms(2,4) _ _ _ c] by simp
qed

lemma upload_body_ok:
  assumes "inv s" "db_wf d" "safe_path p" "upload_body st env p data (s, d) = (Inr m, s', d')"
  shows "inv s' \<and> db_wf d' \<and> view s' = (view s)(p \<mapsto> data) \<and> live_file d' = (live_file d)(p \<mapsto> m) \<and>
    fm_Size m = int (length data) \<and> fm_Hash m = fe_sha env data"
proof -
  obtain b d1 where ex: "FM_Exists p d = (b, d1)" by fastforce
  obtain r d2 where ge: "File_GetByPath p d1 = (r, d2)" by fastforce
  have n: "NormalizePath p = p" using assms(3) by simp
  have s1: "same_tables d1 d" by (rule FM_Exists_res [OF ex n])
  have s2: "same_tables d2 d" using File_GetByPath_res(1) [OF ge] s1 same_tables_trans by blast
  have new: ?thesis if "same_tables d0 d" "upload_new st env p data (s, d0) = (Inr m, s', d')" for d0
    using upload_new_ok [OF assms(1) _ assms(3) that(2)] assms(2) same_tables_wf [OF that(1)]
      live_file_eq [OF that(1)] by (simp add: new_meta_def)
  show ?thesis
  proof (cases "\<exists>x. b \<and> r = Inr (Some x)")
    case True
    then obtain x where x: b "r = Inr (Some x)" by blast
    have l: "live_file d2 p = Some x"
      using File_GetByPath_res(2) [OF ge x(2)] n live_file_eq [OF s1] live_file_eq [OF s2] by simp
    have u: "upload_overwrite st env p data x (s, d2) = (Inr m, s', d')"
      using assms(4) ex ge x by (simp add: upload_body_def)
    have "db_wf d2" using assms(2) same_tables_wf [OF s2] by simp
    from upload_overwrite_ok [OF assms(1) this assms(3) l u] live_file_eq [OF s2] show ?thesis by simp
  next
    case False
    then have "upload_new st env p data (s, if b then d2 else d1) = (Inr m, s', d')"
      using assms(4) ex ge by (auto simp: upload_body_def split: if_splits sum.splits option.splits)
    with new [of "if b then d2 else d1"] s1 s2 show ?thesis by simp
  qed
qed

lemma upload_body_total:
  assumes "inv s" "calm s" "db_wf d" "db_faults d = []" "safe_path p" "writable s p"
    and "fe_uuid env \<notin> set (map fm_ID (t_files d))"
  shows "\<exists>m s' d'. upload_body st env p data (s, d) = (Inr m, s', d') \<and> calm s' \<and> db_faults d' = []"
proof -
  obtain s1 where w: "sa_Write st p data s = (Inr (), s1)" "calm s1"
    using write_total [OF assms(1,2,5,6)] by blast
  have n: "NormalizePath p = p" using assms(5) by simp
  have ex: "FM_Exists p d = (live_file d p \<noteq> None, d)"
    using File_Exists_ok [OF assms(4)] n by (simp add: FM_Exists_def)
  have ge: "File_GetByPath p d = (Inr (live_file d p), d)" using File_Get_ok [OF assms(4)] n by simp
  show ?thesis
  proof (cases "live_file d p")
    case None
    let ?m = "new_meta st env p (int (length data)) (fe_sha env data)"
    have m: "fm_Path ?m = p" "fm_ID ?m = fe_uuid env" by (simp_all add: new_meta_def)
    obtain d' where "File_Create ?m d = (Inr (), d')" "db_faults d' = []"
      using File_Create_free [OF assms(3,4), of ?m] None n m assms(7) by auto
    with w ex None show ?thesis by (simp add: upload_body_def upload_new_def Let_def)
  next
    case (Some r)
    let ?m = "r\<lparr>fm_Size := int (length data), fm_Hash := fe_sha env data, fm_UpdatedAt := fe_ts env,
              fm_IsDeleted := False\<rparr>"
    obtain d' where "File_Update ?m d = (Inr (), d')" "db_faults d' = []"
      using File_Update_in_place [OF assms(3,4) Some, of ?m] by auto
    with w ex ge Some show ?thesis by (simp add: upload_body_def upload_overwrite_def Let_def)
  qed
qed

end

lemma GetFileMetadata_res:
  assumes "GetFileMetadata p d = (r, d1)" and "NormalizePath p = p"
  shows "same_tables d1 d" and "r = Inr m \<Longrightarrow> live_file d p = Some m"
proof -
  obtain q d2 where q: "File_GetByPath p d = (q, d2)" by fastforce
  have d1: "d1 = d2" and rq: "r = Inr m \<Longrightarrow> q = Inr (Some m)" for m
    using assms q by (auto simp: GetFileMetadata_def Let_def split: sum.splits option.splits)
  show "same_tables d1 d" using File_GetByPath_res(1) [OF q] d1 by simp
  show "live_file d p = Some m" if "r = Inr m"
    using File_GetByPath_res(2) [OF q rq [OF that]] assms(2) by simp
qed

lemma GetFileMetadata_ok:
  "db_faults d = [] \<Longrightarrow> NormalizePath p = p \<Longrightarrow> live_file d p = Some m \<Longrightarrow> GetFileMetadata p d = (Inr m, d)"
  by (simp add: GetFileMetadata_def File_Get_ok)

context object_storage
begin

lemma delete_body_ok:
  assumes "inv s" "db_wf d" "safe_path p" "delete_body st env p (s, d) = (Inr (), s', d')"
  shows "inv s' \<and> db_wf d' \<and> view s' = (view s)(p := None) \<and> live_file d' = (live_file d)(p := None) \<and>
    live_file d p \<noteq> None"
proof -
  have n: "NormalizePath p = p" using assms(3) by simp
  obtain q d1 where q: "GetFileMetadata p d = (q, d1)" by fastforce
  obtain m where m: "q = Inr m" using assms(4) q by (cases q) (auto simp: delete_body_def)
  obtain s1 where w: "sa_Remove st p s = (Inr (), s1)" and r: "File_Remove (fe_ts env) (fm_ID m) d1 = (Inr (), d')"
    and "s' = s1"
    using assms(4) q m by (auto simp: delete_body_def split: prod.splits sum.splits)
  have s1: "same_tables d1 d" and l: "live_file d p = Some m"
    using GetFileMetadata_res [OF q n] m by auto
  have "db_wf d1" "live_file d1 p = Some m"
    using assms(2) same_tables_wf [OF s1] live_file_eq [OF s1] l by auto
  with File_Remove_live [OF _ _ r] remove_ok [OF assms(1,3) w] live_file_eq [OF s1] l \<open>s' = s1\<close>
  show ?thesis by auto
qed

lemma rename_body_ok:
  assumes "inv s" "db_wf d" "safe_path p" "safe_path q" "q = NormalizePath (GetDirectory p @ ''/'' @ newName)"
    and "view s p = Some b" "rename_body st env p newName (s, d) = (Inr (), s', d')" and ne: "p \<noteq> q"
  shows "\<exists>m. live_file d p = Some m \<and> inv s' \<and> db_wf d' \<and> view s' = (view s)(p := None, q \<mapsto> b) \<and>
    live_file d' = (live_file d)(p := None, q \<mapsto> m\<lparr>fm_Path := q, fm_Name := newName, fm_UpdatedAt := fe_ts env\<rparr>)"
proof -
  have n: "NormalizePath p = p" "NormalizePath q = q" using assms(3,4) by simp_all
  obtain r1 d1 where g: "GetFileMetadata p d = (r1, d1)" by fastforce
  obtain m where m: "r1 = Inr m" using assms(7) g by (cases r1) (auto simp: rename_body_def)
  let ?m = "m\<lparr>fm_Path := q, fm_Name := newName, fm_UpdatedAt := fe_ts env\<rparr>"
  obtain ex d2 where e: "FM_Exists q d1 = (ex, d2)" by fastforce
  have nex: "\<not> ex" using assms(7) g m e assms(5) by (auto simp: rename_body_def Let_def)
  obtain s1 where w: "sa_Rename st p q s = (Inr (), s1)" and u: "File_Update ?m d2 = (Inr (), d')" and "s' = s1"
    using assms(7) g m e nex assms(5) by (auto simp: rename_body_def Let_def split: prod.splits sum.splits)
  have t1: "same_tables d1 d" and l: "live_file d p = Some m" using GetFileMetadata_res [OF g n(1)] m by auto
  have t2: "same_tables d2 d" using FM_Exists_res(1) [OF e n(2)] t1 same_tables_trans by blast
  have wf2: "db_wf d2" "live_file d2 = live_file d" using assms(2) same_tables_wf [OF t2] live_file_eq [OF t2] by auto
  have ml: "\<not> fm_IsDeleted m" "fm_Path m = p" using l find_SomeD unfolding live_file_def by fastforce+
  have up: "db_wf d' \<and> live_file d' = (live_file d)(p := None, q \<mapsto> ?m)"
    using File_Update_live [OF wf2(1), of p m ?m d'] wf2(2) l ml(1) u by simp
  show ?thesis using up rename_ok [OF assms(1,3,4) ne assms(6) w] l \<open>s' = s1\<close> by auto
qed

text \<open>A failed update of the record moves the object back.\<close>

end

context storage
begin

lemma rename_body_rollback:
  assumes "inv s" "calm s" "safe_path p" "safe_path q" "q = NormalizePath (GetDirectory p @ ''/'' @ newName)"
    and ne: "p \<noteq> q" and "view s p = Some b" "view s q = None" "\<not> HasPrefix p (q @ ''/'')"
    and wq: "writable s q" "\<not> HasPrefix q (p @ ''/'')" and "rename_body st env p newName (s, d) = (Inl e, s', d')"
  shows "view s' = view s \<and> same_tables d' d"
proof -
  have n: "NormalizePath p = p" "NormalizePath q = q" using assms(3,4) by simp_all
  obtain r1 d1 where g: "GetFileMetadata p d = (r1, d1)" by fastforce
  have t1: "same_tables d1 d" using GetFileMetadata_res(1) [OF g n(1)] .
  show ?thesis
  proof (cases r1)
    case (Inl e1)
    with assms(12) g t1 show ?thesis by (auto simp: rename_body_def)
  next
    case (Inr m)
    let ?m = "m\<lparr>fm_Path := q, fm_Name := newName, fm_UpdatedAt := fe_ts env\<rparr>"
    obtain ex d2 where x: "FM_Exists q d1 = (ex, d2)" by fastforce
    have t2: "same_tables d2 d" using FM_Exists_res(1) [OF x n(2)] t1 same_tables_trans by blast
    obtain rr s1 where w: "sa_Rename st p q s = (rr, s1)" by fastforce
    obtain ur d3 where u: "File_Update ?m d2 = (ur, d3)" by fastforce
    consider ex | "\<not> ex" "\<exists>e. rr = Inl e" | "\<not> ex" "rr = Inr ()"
      by (cases rr) auto
    then show ?thesis
    proof cases
      case 1
      with assms(5,12) g Inr x t2 show ?thesis by (auto simp: rename_body_def Let_def)
    next
      case 2
      with assms(5,12) g Inr x w t2 rename_err [OF assms(1,3,4), of _ s1] assms(7)
      show ?thesis by (auto simp: rename_body_def Let_def)
    next
      case 3
      note ok = rename_ok [OF assms(1,3,4) ne assms(7) w [unfolded 3(2)]]
      have c: "calm s1" "writable s1 p"
        using rename_total [OF assms(1-4) _ wq] rename_back [OF assms(1,3,4) ne assms(7,9) w [unfolded 3(2)]] w assms(7)
        by auto
      have "view s1 q \<noteq> None" using ok by simp
      from rename_total [OF _ c(1) assms(4,3) this c(2) assms(9)] ok
      obtain s2 where s2: "sa_Rename st q p s1 = (Inr (), s2)" by blast
      have "view s2 = (view s1)(q := None, p \<mapsto> b)"
        using rename_ok [OF _ assms(4,3) ne [symmetric] _ s2] ok by simp
      then have "view s2 = view s" using ok ne assms(7,8) by (auto simp: fun_eq_iff)
      with 3 assms(5,12) g Inr x w u s2 t2 File_Update_err [of ?m d2] same_tables_trans show ?thesis
        by (auto simp: rename_body_def Let_def split: sum.splits)
    qed
  qed
qed

text \<open>Uploading over an existing file while the existence query fails once.\<close>

lemma upload_lost:
  assumes "inv s" "calm s" "db_wf d" "db_faults d = [Some e]" "safe_path p"
    and "live_file d p = Some r" "view s p = Some b"
  shows "\<exists>e' s' d'. upload_body st env p data (s, d) = (Inl e', s', d') \<and>
    live_file d' p = Some r \<and> view s' p = None"
proof -
  let ?d = "d\<lparr>db_faults := []\<rparr>"
  have n: "NormalizePath p = p" using assms(5) by simp
  have sd: "same_tables ?d d" by (simp add: same_tables_def)
  have wf: "db_wf ?d" "live_file ?d = live_file d" using same_tables_wf [OF sd] live_file_eq [OF sd] assms(3) by auto
  have ex: "FM_Exists p d = (False, ?d)"
    using assms(4) by (simp add: FM_Exists_def File_Exists_def db_QueryRow_def pop_fault_def Let_def)
  obtain s1 where w: "sa_Write st p data s = (Inr (), s1)" "calm s1"
    using write_total [OF assms(1,2,5)] view_writable [OF assms(1,5)] assms(7) by auto
  note ok = write_ok [OF assms(1,5) w(1)]
  let ?m = "new_meta st env p (int (length data)) (fe_sha env data)"
  have "live_file ?d (NormalizePath (fm_Path ?m)) \<noteq> None" using assms(6) n wf(2) by (simp add: new_meta_def)
  then obtain e' d' where c: "File_Create ?m ?d = (Inl e', d')"
    using File_Create_busy [OF wf(1)] by (metis prod.collapse)
  have "same_tables d' d" using File_Create_err [OF c] sd same_tables_trans by blast
  then have l: "live_file d' p = Some r" using live_file_eq assms(6) by simp
  obtain s2 where r: "sa_Remove st p s1 = (Inr (), s2)"
    using remove_total [of s1 p] ok w(2) assms(5) by auto
  have "view s2 p = None" using remove_ok [OF _ assms(5) r] ok by simp
  with ex w c r l show ?thesis by (simp add: upload_body_def upload_new_def Let_def)
qed

end

lemma upload_reader_body_ok:
  fixes s :: "'a fs_scheme"
  assumes "LS_inv rootDir s" "db_wf d" "safe_path p"
    and "upload_reader_body (NewLocalStorage rootDir) env p rd (s, d) = (Inr m, s', d')"
  shows "LS_inv rootDir s' \<and> db_wf d' \<and> LS_view rootDir s' = (LS_view rootDir s)(p \<mapsto> rd_data rd) \<and>
    live_file d' = (live_file d)(p \<mapsto> m) \<and>
    fm_Size m = int (length (rd_data rd)) \<and> fm_Hash m = fe_sha env (rd_data rd)"
proof -
  let ?st = "NewLocalStorage rootDir :: ('a fs_scheme) StorageAdapter"
  have n: "NormalizePath p = p" using assms(3) by simp
  obtain wr s1 where w: "sa_WriteFromReader ?st p rd s = (wr, s1)" by fastforce
  then have wr: "wr = Inr ()" using assms(4) by (cases wr) (auto simp: upload_reader_body_def)
  note ok = local_storage.reader_ok [OF assms(1,3) w [unfolded wr]]
  have sz: "sa_GetSize ?st p s1 = Inr (int (length (rd_data rd)))"
    using local_storage.getSize_ok [OF conjunct1 [OF ok] assms(3)] ok by simp
  obtain r d1 where g: "File_GetByPath p d = (r, d1)" by fastforce
  have t1: "same_tables d1 d" by (rule File_GetByPath_res [OF g])
  have wf1: "db_wf d1" "live_file d1 = live_file d" using assms(2) same_tables_wf [OF t1] live_file_eq [OF t1] by auto
  show ?thesis
  proof (cases "\<exists>x. r = Inr (Some x)")
    case True
    then obtain x where x: "r = Inr (Some x)" by blast
    let ?m = "x\<lparr>fm_Size := int (length (rd_data rd)), fm_Hash := fe_sha env (rd_data rd),
               fm_UpdatedAt := fe_ts env, fm_IsDeleted := False\<rparr>"
    have l: "live_file d1 p = Some x" using File_GetByPath_res(2) [OF g x] n wf1(2) by simp
    have u: "File_Update ?m d1 = (Inr (), d')" "s' = s1" "m = ?m"
      using assms(4) w wr sz g x by (auto simp: upload_reader_body_def Let_def split: prod.splits sum.splits)
    have "fm_Path x = p" using l find_SomeD unfolding live_file_def by fastforce
    with File_Update_live [OF wf1(1) l _ _ _ u(1)] wf1(2) ok u(2,3) show ?thesis by simp
  next
    case False
    let ?m = "new_meta ?st env p (int (length (rd_data rd))) (fe_sha env (rd_data rd))"
    have u: "File_Create ?m d1 = (Inr (), d')" "s' = s1" "m = ?m"
      using assms(4) w wr sz g False
      by (auto simp: upload_reader_body_def Let_def split: prod.splits sum.splits option.splits)
    have m: "\<not> fm_IsDeleted ?m" "fm_Path ?m = p" "file_norm ?m = ?m" "fm_Size ?m = int (length (rd_data rd))"
      "fm_Hash ?m = fe_sha env (rd_data rd)"
      using new_meta_norm [OF assms(3), of ?st env] by (simp_all add: new_meta_def)
    with File_Create_live [OF wf1(1) _ u(1)] wf1(2) ok u(2,3) n show ?thesis by simp
  qed
qed

section \<open>Properties\<close>

abbreviation local_fm :: "string \<Rightarrow> 'l DistributedLock \<Rightarrow> ('a fs_scheme, 'l) FileManager" where
  "local_fm rootDir dl \<equiv> \<lparr>fmg_storage = NewLocalStorage rootDir, fmg_distLock = dl\<rparr>"

lemma local_acquire:
  assumes "Local_holder (ae_now (env 0)) key l = None" "0 < retries"
  shows "\<exists>l1. AcquireLock LocalDistributedLock env key ttl retries delay l = (Inr (ae_token (env 0)), l1, [])"
proof -
  obtain n where "nat retries = Suc n" using assms(2) by (cases "nat retries") auto
  with local_lock.lock_free [OF assms(1), of "ae_token (env 0)" ttl] show ?thesis
    by (auto simp: AcquireLock_def)
qed

context object_storage
begin

lemma UploadFile_total:
  assumes "inv s" "calm s" "db_wf d" "db_faults d = []" and "IsValidFilePath p" "writable s (NormalizePath p)"
    and "fe_uuid env \<notin> set (map fm_ID (t_files d))"
    and "Local_holder (ae_now (fe_acq env 0)) (''file:'' @ NormalizePath p) l = None"
  shows "\<exists>m s' d' l'. UploadFile \<lparr>fmg_storage = st, fmg_distLock = LocalDistributedLock\<rparr> env p data
        \<lparr>w_store = s, w_db = d, w_lock = l\<rparr> = (Inr m, \<lparr>w_store = s', w_db = d', w_lock = l'\<rparr>) \<and>
      inv s' \<and> calm s' \<and> db_wf d' \<and> db_faults d' = [] \<and> view s' = (view s)(NormalizePath p \<mapsto> data) \<and>
      live_file d' = (live_file d)(NormalizePath p \<mapsto> m) \<and> fm_Size m = int (length data) \<and> fm_Hash m = fe_sha env data"
proof -
  let ?p = "NormalizePath p"
  have sp: "safe_path ?p" by (rule valid_path_safe [OF assms(5)])
  obtain l1 where l1: "distLockFileWithRenewal LocalDistributedLock env ?p l = (Inr (ae_token (fe_acq env 0)), l1)"
    using local_acquire [where env = "fe_acq env", OF assms(8), of 30 "10 * Dist_Lock.second" "50 * millisecond"]
    by (auto simp: distLockFileWithRenewal_def AcquireLockWithRenewal_def)
  obtain m s' d' where b: "upload_body st env ?p data (s, d) = (Inr m, s', d')" "calm s'" "db_faults d' = []"
    using upload_body_total [OF assms(1-4) sp assms(6,7)] by blast
  from upload_body_ok [OF assms(1,3) sp b(1)] l1 b show ?thesis
    by (auto simp: UploadFile_def Let_def)
qed

lemma upload_roundtrip:
  assumes "inv s" "calm s" "db_wf d" "db_faults d = []" and "IsValidFilePath p" "writable s (NormalizePath p)"
    and "fe_uuid env \<notin> set (map fm_ID (t_files d))"
    and "Local_holder (ae_now (fe_acq env 0)) (''file:'' @ NormalizePath p) l = None"
  shows "\<exists>m w. UploadFile \<lparr>fmg_storage = st, fmg_distLock = LocalDistributedLock\<rparr> env p data
        \<lparr>w_store = s, w_db = d, w_lock = l\<rparr> = (Inr m, w) \<and>
      fm_Size m = int (length data) \<and> fm_Hash m = fe_sha env data \<and>
      fst (DownloadFile \<lparr>fmg_storage = st, fmg_distLock = LocalDistributedLock\<rparr> p w) = Inr data \<and>
      (\<forall>q. q \<noteq> NormalizePath p \<longrightarrow> view (w_store w) q = view s q \<and> live_file (w_db w) q = live_file d q)"
proof -
  let ?p = "NormalizePath p"
  have sp: "safe_path ?p" by (rule valid_path_safe [OF assms(5)])
  then have n: "NormalizePath ?p = ?p" by simp
  obtain m s' d' l' where up: "UploadFile \<lparr>fmg_storage = st, fmg_distLock = LocalDistributedLock\<rparr> env p data
        \<lparr>w_store = s, w_db = d, w_lock = l\<rparr> = (Inr m, \<lparr>w_store = s', w_db = d', w_lock = l'\<rparr>)"
    and ok: "inv s'" "calm s'" "db_faults d' = []" "view s' = (view s)(?p \<mapsto> data)"
      "live_file d' = (live_file d)(?p \<mapsto> m)" "fm_Size m = int (length data)" "fm_Hash m = fe_sha env data"
    using UploadFile_total [OF assms] by blast
  have dl: "GetFileMetadata ?p d' = (Inr m, d')" using GetFileMetadata_ok [OF ok(3) n] ok(5) by simp
  have rd: "sa_Read st ?p s' = (Inr data, s')" using read_ok [OF ok(1,2) sp] ok(4) by simp
  show ?thesis using up ok dl rd by (auto simp: DownloadFile_def Let_def)
qed

end

text \<open>
  C3: upload, then download.  On the local backend with a working disk and database, and a lock
  that is free when it is asked for, \<open>UploadFile\<close> of a valid path succeeds, whether the
  path is new, was deleted before or is overwritten; it reports the size and the hash of the data;
  \<open>DownloadFile\<close> then returns exactly the data; and no other file changes.
\<close>

theorem upload_download:
  fixes s :: "'a fs_scheme"
  assumes "LS_inv rootDir s" "LS_calm s" "db_wf d" "db_faults d = []"
    and "IsValidFilePath p" "LS_writable rootDir s (NormalizePath p)"
    and "fe_uuid env \<notin> set (map fm_ID (t_files d))"
    and "Local_holder (ae_now (fe_acq env 0)) (''file:'' @ NormalizePath p) l = None"
  shows "\<exists>m w. UploadFile (local_fm rootDir LocalDistributedLock) env p data
        \<lparr>w_store = s, w_db = d, w_lock = l\<rparr> = (Inr m, w) \<and>
      fm_Size m = int (length data) \<and> fm_Hash m = fe_sha env data \<and>
      fst (DownloadFile (local_fm rootDir LocalDistributedLock) p w) = Inr data \<and>
      (\<forall>q. q \<noteq> NormalizePath p \<longrightarrow> LS_view rootDir (w_store w) q = LS_view rootDir s q \<and>
             live_file (w_db w) q = live_file d q)"
  by (rule local_storage.upload_roundtrip [OF assms])

definition sample_env :: "locks fm_env" where
  "sample_env = \<lparr>fe_acq = (\<lambda>i. \<lparr>ae_now = 5, ae_token = ''tok'', ae_rand = [], ae_done = False, ae_wait = id\<rparr>),
     fe_unlock_now = 6, fe_uuid = ''new-id'', fe_ts = ''2024-01-01T00:00:00Z'', fe_sha = (\<lambda>b. ''h'' @ b)\<rparr>"

lemma sample_facts:
  "LS_inv ''/srv/data'' sample_fs" "LS_calm sample_fs" "db_wf empty_db" "db_faults empty_db = []"
  by (simp_all add: LS_inv_def LS_calm_def sample_fs_def ok_root_def root_elems_def abs_of_def proper_name_def
      fs_tree_def fs_get_def db_wf_def empty_db_def file_unique_def dir_unique_def task_unique_def
      audit_unique_def key_unique_def)

theorem upload_download_witness:
  "\<exists>m w. UploadFile (local_fm ''/srv/data'' LocalDistributedLock) sample_env ''/docs/a.txt'' ''hello''
        \<lparr>w_store = sample_fs, w_db = empty_db, w_lock = Map.empty\<rparr> = (Inr m, w) \<and> fm_Size m = 5 \<and>
      fst (DownloadFile (local_fm ''/srv/data'' LocalDistributedLock) ''/docs/a.txt'' w) = Inr ''hello''"
proof -
  have v: "IsValidFilePath ''/docs/a.txt''" by code_simp
  have n: "NormalizePath ''/docs/a.txt'' = ''docs/a.txt''" by code_simp
  have w: "LS_writable ''/srv/data'' sample_fs (NormalizePath ''/docs/a.txt'')"
    unfolding n
    by (simp add: LS_writable_def sample_fs_def root_elems_def fs_get_def under_file_def is_file_def fkey_def)
  have u: "fe_uuid sample_env \<notin> set (map fm_ID (t_files empty_db))"
    "Local_holder (ae_now (fe_acq sample_env 0)) (''file:'' @ NormalizePath ''/docs/a.txt'') Map.empty = None"
    by (simp_all add: sample_env_def empty_db_def Local_holder_def)
  from upload_download [OF sample_facts v w u, of "''hello''"] show ?thesis by auto
qed




definition sample_fs2 :: fs where
  "sample_fs2 = sample_fs\<lparr>fs_nodes := ([''srv'', ''data'', ''a.txt''], FFile ''hello'') # fs_nodes sample_fs\<rparr>"

definition sample_rec :: "string \<Rightarrow> string \<Rightarrow> bool \<Rightarrow> FileMetadata" where
  "sample_rec i p del = \<lparr>fm_ID = i, fm_Path = p, fm_Name = p, fm_Size = 5, fm_Hash = ''hhello'', fm_StorageType = ''local'',
     fm_StorageLocation = [], fm_CreatedAt = ''t'', fm_UpdatedAt = ''t'', fm_IsDeleted = del\<rparr>"

lemma sample_facts2:
  "LS_inv ''/srv/data'' sample_fs2" "LS_calm sample_fs2" "safe_path ''a.txt''" "IsValidFileName ''b.txt''"
  "LS_view ''/srv/data'' sample_fs2 ''a.txt'' = Some ''hello''" "LS_view ''/srv/data'' sample_fs2 ''b.txt'' = None"
  "LS_writable ''/srv/data'' sample_fs2 ''b.txt''" "NormalizePath (GetDirectory ''a.txt'' @ ''/'' @ ''b.txt'') = ''b.txt''"
proof -
  show "NormalizePath (GetDirectory ''a.txt'' @ ''/'' @ ''b.txt'') = ''b.txt''" by code_simp
qed (simp_all add: LS_inv_def LS_calm_def sample_fs2_def sample_fs_def ok_root_def root_elems_def abs_of_def proper_name_def
      fs_tree_def fs_get_def safe_path_def IsValidFileName_def HasPrefix_def LS_view_def LS_writable_def under_file_def
      is_file_def fkey_def upt_rec)


lemma rename_body_Inr:
  assumes "rename_body st env p newName (s, d) = (Inr (), s', d')" "safe_path p" "safe_path q"
    and q: "q = NormalizePath (GetDirectory p @ ''/'' @ newName)"
  obtains m d2 where "same_tables d2 d" "live_file d p = Some m"
    "File_Update (m\<lparr>fm_Path := q, fm_Name := newName, fm_UpdatedAt := fe_ts env\<rparr>) d2 = (Inr (), d')"
proof -
  obtain r1 d1 where g: "GetFileMetadata p d = (r1, d1)" by fastforce
  obtain m where m: "r1 = Inr m" using assms(1) g by (cases r1) (auto simp: rename_body_def)
  obtain ex d2 where e: "FM_Exists q d1 = (ex, d2)" by fastforce
  have "File_Update (m\<lparr>fm_Path := q, fm_Name := newName, fm_UpdatedAt := fe_ts env\<rparr>) d2 = (Inr (), d')"
    using assms(1) g m e q by (auto simp: rename_body_def Let_def split: prod.splits sum.splits bool.splits)
  moreover have "same_tables d2 d" "live_file d p = Some m"
    using GetFileMetadata_res [OF g] FM_Exists_res(1) [OF e] assms(2,3) m same_tables_trans by auto
  ultimately show ?thesis using that by blast
qed

text \<open>
  The path of a deleted file can be uploaded to again but never renamed to.  Deletion keeps
  the row, and its path stays in the unique column; \<open>RenameFile\<close> updates the path of
  the renamed row, so on every backend and with every lock it fails while such a row exists.
\<close>

theorem rename_onto_deleted_fails:
  assumes "db_wf (w_db w)" "safe_path p" "IsValidFileName newName"
    and q: "q = NormalizePath (GetDirectory p @ ''/'' @ newName)" and "p \<noteq> q"
    and x: "x \<in> set (t_files (w_db w))" "fm_Path x = q"
    and ren: "RenameFile fm env p newName w = (r, w')"
  shows "r \<noteq> Inr ()"
proof
  assume r: "r = Inr ()"
  from ren r assms(2) obtain s1 d1
    where b: "rename_body (fmg_storage fm) env p newName (w_store w, w_db w) = (Inr (), s1, d1)"
    by (auto simp: RenameFile_def split: prod.splits sum.splits)
  obtain m d2 where m: "same_tables d2 (w_db w)" "live_file (w_db w) p = Some m"
    and u: "File_Update (m\<lparr>fm_Path := q, fm_Name := newName, fm_UpdatedAt := fe_ts env\<rparr>) d2 = (Inr (), d1)"
    by (rule rename_body_Inr [OF b assms(2) rename_sibling(1) [OF assms(2,3) q] q])
  let ?rs = "t_files (w_db w)" let ?m = "m\<lparr>fm_Path := q, fm_Name := newName, fm_UpdatedAt := fe_ts env\<rparr>"
  let ?us = "updrows (\<lambda>r. fm_ID r = fm_ID m) (\<lambda>r. ?m\<lparr>fm_ID := fm_ID r, fm_CreatedAt := fm_CreatedAt r\<rparr>) ?rs"
  have mr: "m \<in> set ?rs" "fm_Path m = p" using find_SomeD [OF m(2) [unfolded live_file_def]] by auto
  have un: "distinct (map fm_Path ?us)"
    using File_Update_ok [OF u] m(1) by (auto simp: file_unique_def same_tables_def)
  have ids: "fm_ID x \<noteq> fm_ID m"
  proof
    assume "fm_ID x = fm_ID m"
    with distinct_key_eq [OF _ x(1) mr(1)] wf_files [OF assms(1)] have "x = m" by blast
    with x(2) mr(2) assms(5) show False by simp
  qed
  have "x \<in> set ?us" unfolding updrows_def using x(1) ids by (auto intro!: image_eqI [of _ _ x])
  moreover have "?m \<in> set ?us" unfolding updrows_def using mr(1) by (auto intro!: image_eqI [of _ _ m])
  ultimately have "x = ?m" using x(2) by (intro distinct_key_eq [OF un]) simp_all
  then have "fm_ID x = fm_ID ?m" by (rule arg_cong)
  with ids show False by simp
qed

theorem rename_onto_deleted_fails_witness:
  "fst (RenameFile (local_fm ''/srv/data'' LocalDistributedLock) sample_env ''a.txt'' ''b.txt''
      \<lparr>w_store = sample_fs2, w_db = empty_db\<lparr>t_files := [sample_rec ''i'' ''a.txt'' False, sample_rec ''j'' ''b.txt'' True]\<rparr>,
       w_lock = Map.empty\<rparr>) \<noteq> Inr ()"
proof -
  let ?w = "\<lparr>w_store = sample_fs2, w_db = empty_db\<lparr>t_files := [sample_rec ''i'' ''a.txt'' False, sample_rec ''j'' ''b.txt'' True]\<rparr>,
       w_lock = Map.empty :: locks\<rparr>"
  have wf: "db_wf (w_db ?w)"
    by (simp add: db_wf_def empty_db_def file_unique_def dir_unique_def task_unique_def audit_unique_def key_unique_def sample_rec_def)
  show ?thesis
    by (rule rename_onto_deleted_fails [OF wf sample_facts2(3,4) refl, of "sample_rec ''j'' ''b.txt'' True", OF _ _ _ prod.collapse [symmetric]])
       (simp_all only: sample_facts2(8), simp_all add: sample_rec_def)
qed

text \<open>
  A transient database error can lose a file.  If the one query by which \<open>UploadFile\<close>
  asks whether the path has a record fails, the answer is taken as no; the object is overwritten,
  the insert of a second record fails, and the clean-up removes the object.  The upload reports an
  error, but the record of the existing file is still live and its object is gone.
\<close>

theorem upload_fault_loses_object:
  fixes w :: "('a fs_scheme, locks) fm_state"
  assumes "LS_inv rootDir (w_store w)" "LS_calm (w_store w)" "db_wf (w_db w)" "db_faults (w_db w) = [Some e]" "safe_path p"
    and "live_file (w_db w) p = Some r" "LS_view rootDir (w_store w) p = Some b"
    and "Local_holder (ae_now (fe_acq env 0)) (''file:'' @ p) (w_lock w) = None"
  shows "\<exists>e' w'. UploadFile (local_fm rootDir LocalDistributedLock) env p data w = (Inl e', w') \<and>
    live_file (w_db w') p = Some r \<and> LS_view rootDir (w_store w') p = None"
proof -
  obtain l1 where l1: "distLockFileWithRenewal LocalDistributedLock env p (w_lock w) = (Inr (ae_token (fe_acq env 0)), l1)"
    using local_acquire [where env = "fe_acq env", OF assms(8), of 30 "10 * Dist_Lock.second" "50 * millisecond"]
    by (auto simp: distLockFileWithRenewal_def AcquireLockWithRenewal_def)
  from local_storage.upload_lost [OF assms(1-7), of env data] l1 assms(5) show ?thesis
    by (auto simp: UploadFile_def)
qed

theorem upload_fault_loses_object_witness:
  "\<exists>e' w'. UploadFile (local_fm ''/srv/data'' LocalDistributedLock) sample_env ''a.txt'' ''new''
      \<lparr>w_store = sample_fs2, w_db = empty_db\<lparr>t_files := [sample_rec ''i'' ''a.txt'' False], db_faults := [Some (Errorf ''busy'')]\<rparr>,
       w_lock = Map.empty\<rparr> = (Inl e', w') \<and>
    live_file (w_db w') ''a.txt'' \<noteq> None \<and> LS_view ''/srv/data'' (w_store w') ''a.txt'' = None"
proof -
  let ?w = "\<lparr>w_store = sample_fs2, w_db = empty_db\<lparr>t_files := [sample_rec ''i'' ''a.txt'' False], db_faults := [Some (Errorf ''busy'')]\<rparr>,
       w_lock = Map.empty :: locks\<rparr>"
  have wf: "db_wf (w_db ?w)" "live_file (w_db ?w) ''a.txt'' = Some (sample_rec ''i'' ''a.txt'' False)"
    by (simp_all add: db_wf_def empty_db_def file_unique_def dir_unique_def task_unique_def audit_unique_def key_unique_def
        live_file_def sample_rec_def)
  from upload_fault_loses_object [of "''/srv/data''" ?w, OF _ _ wf(1) _ sample_facts2(3) wf(2), of "Errorf ''busy''" "''hello''" sample_env "''new''"]
  show ?thesis using sample_facts2(1,2,5) by (auto simp: Local_holder_def)
qed

end
