(* ===== verification/Session_Store.thy ===== *)
theory Session_Store
  imports Prelude
begin

text \<open>
  \<open>src/internal/distributed/session.go\<close>: the interface \<open>SessionStore\<close> and its
  in-process implementation \<open>MemorySessionStore\<close>.  A value is stored as the bytes
  \<open>json.Marshal\<close> returns for it; the encoder and the decoder are the argument
  \<open>codec\<close>, and a value is called \<open>codec_ok\<close> when it survives the round
  trip.  \<open>Get\<close> and \<open>Exists\<close> evict an expired entry in a second critical section,
  after they have released the read lock: the two sections are separate definitions, so that an
  interleaving between them can be stated.

  The interface is the locale \<open>session_store\<close>, interpreted by the in-process store; it
  also covers a store behind a network, whose calls are only sure to work in a \<open>calm\<close> state
  and which keeps entries for the durations \<open>life\<close> exactly.
\<close>

section \<open>The interface\<close>

record ('s, 'v) SessionStore =
  ss_Set :: "gotime \<Rightarrow> string \<Rightarrow> string \<Rightarrow> 'v \<Rightarrow> int \<Rightarrow> 's \<Rightarrow> unit res \<times> 's"
    \<comment> \<open>time, prefix, key, value, ttl\<close>
  ss_Get :: "gotime \<Rightarrow> string \<Rightarrow> string \<Rightarrow> 's \<Rightarrow> 'v res \<times> 's"
  ss_Delete :: "string \<Rightarrow> string \<Rightarrow> 's \<Rightarrow> unit res \<times> 's"
  ss_Exists :: "gotime \<Rightarrow> string \<Rightarrow> string \<Rightarrow> 's \<Rightarrow> bool res \<times> 's"

record 'v codec =
  cd_Marshal :: "'v \<Rightarrow> bytes res"
  cd_Unmarshal :: "bytes \<Rightarrow> 'v res"

definition codec_ok :: "'v codec \<Rightarrow> 'v \<Rightarrow> bool" where
  "codec_ok c v \<longleftrightarrow>
     (case cd_Marshal c v of Inl _ \<Rightarrow> False | Inr b \<Rightarrow> (case cd_Unmarshal c b of Inl _ \<Rightarrow> False
        | Inr w \<Rightarrow> w = v))"

section \<open>MemorySessionStore\<close>

record MemorySessionStore =
  ms_data :: "string \<rightharpoonup> bytes"
  ms_ttls :: "string \<rightharpoonup> gotime"

definition NewMemorySessionStore :: MemorySessionStore where
  "NewMemorySessionStore = \<lparr>ms_data = Map.empty, ms_ttls = Map.empty\<rparr>"

definition storeKey :: "string \<Rightarrow> string \<Rightarrow> string" where
  "storeKey pre key = pre @ '':'' @ key"

definition Mem_Set ::
  "'v codec \<Rightarrow> gotime \<Rightarrow> string \<Rightarrow> string \<Rightarrow> 'v \<Rightarrow> int \<Rightarrow> MemorySessionStore
    \<Rightarrow> unit res \<times> MemorySessionStore"
where
  "Mem_Set c now pre key v ttl s =
     (case cd_Marshal c v of
        Inl e \<Rightarrow> (Inl (Wrapf ''failed to marshal session'' e), s)
      | Inr data \<Rightarrow>
          let k = storeKey pre key; s1 = s\<lparr>ms_data := (ms_data s)(k \<mapsto> data)\<rparr>
          in (Inr (), if 0 < ttl then s1\<lparr>ms_ttls := (ms_ttls s1)(k \<mapsto> now + ttl)\<rparr> else s1))"

text \<open>The first critical section of \<open>Get\<close> and \<open>Exists\<close>: what the read lock
  protects.\<close>

datatype lookup = Absent | Stale | Live bytes

definition Mem_lookup :: "gotime \<Rightarrow> string \<Rightarrow> MemorySessionStore \<Rightarrow> lookup" where
  "Mem_lookup now k s =
     (case ms_data s k of
        None \<Rightarrow> Absent
      | Some data \<Rightarrow>
          (case ms_ttls s k of
             Some t \<Rightarrow> if t < now then Stale else Live data
           | None \<Rightarrow> Live data))"

text \<open>The second critical section, entered after a \<open>Stale\<close> lookup.\<close>

definition Mem_evict :: "string \<Rightarrow> MemorySessionStore \<Rightarrow> MemorySessionStore" where
  "Mem_evict k s = s\<lparr>ms_data := (ms_data s)(k := None), ms_ttls := (ms_ttls s)(k := None)\<rparr>"

definition Mem_Get ::
  "'v codec \<Rightarrow> gotime \<Rightarrow> string \<Rightarrow> string \<Rightarrow> MemorySessionStore \<Rightarrow> 'v res \<times> MemorySessionStore"
where
  "Mem_Get c now pre key s =
     (case Mem_lookup now (storeKey pre key) s of
        Absent \<Rightarrow> (Inl (Errorf ''session not found''), s)
      | Stale \<Rightarrow> (Inl (Errorf ''session not found''), Mem_evict (storeKey pre key) s)
      | Live data \<Rightarrow>
          (case cd_Unmarshal c data of
             Inl e \<Rightarrow> (Inl (Wrapf ''failed to unmarshal session'' e), s)
           | Inr v \<Rightarrow> (Inr v, s)))"

definition Mem_Delete ::
  "string \<Rightarrow> string \<Rightarrow> MemorySessionStore \<Rightarrow> unit res \<times> MemorySessionStore"
where
  "Mem_Delete pre key s = (Inr (), Mem_evict (storeKey pre key) s)"

definition Mem_Exists ::
  "gotime \<Rightarrow> string \<Rightarrow> string \<Rightarrow> MemorySessionStore \<Rightarrow> bool res \<times> MemorySessionStore"
where
  "Mem_Exists now pre key s =
     (case Mem_lookup now (storeKey pre key) s of
        Absent \<Rightarrow> (Inr False, s)
      | Stale \<Rightarrow> (Inr False, Mem_evict (storeKey pre key) s)
      | Live _ \<Rightarrow> (Inr True, s))"

definition MemStore :: "'v codec \<Rightarrow> (MemorySessionStore, 'v) SessionStore" where
  "MemStore c =
     \<lparr>ss_Set = Mem_Set c, ss_Get = Mem_Get c, ss_Delete = Mem_Delete, ss_Exists = Mem_Exists\<rparr>"

section \<open>The contract of a session store\<close>

definition Mem_view :: "'v codec \<Rightarrow> gotime \<Rightarrow> string \<Rightarrow> MemorySessionStore \<Rightarrow> 'v option" where
  "Mem_view c now k s =
     (case Mem_lookup now k s of
        Live data \<Rightarrow> (case cd_Unmarshal c data of Inr v \<Rightarrow> Some v | Inl _ \<Rightarrow> None)
      | _ \<Rightarrow> None)"

text \<open>The prefixes the services use contain no colon, so the key of an entry determines
  its prefix and its session id.\<close>

lemma storeKey_inject:
  "CHR '':'' \<notin> set p \<Longrightarrow> CHR '':'' \<notin> set q \<Longrightarrow> storeKey p k = storeKey q l \<longleftrightarrow> p = q \<and> k = l"
  using Split_no_sep [of "CHR '':''" p] Split_no_sep [of "CHR '':''" q]
    Split_append_sep [of "CHR '':''" p k] Split_append_sep [of "CHR '':''" q l]
  by (auto simp: storeKey_def)

text \<open>A history of calls on a store.\<close>

datatype 'v store_op =
    SetOp gotime string string 'v int
  | GetOp gotime string string
  | DeleteOp string string
  | ExistsOp gotime string string

fun sop_key :: "'v store_op \<Rightarrow> string \<times> string" where
  "sop_key (SetOp now p k v ttl) = (p, k)"
| "sop_key (GetOp now p k) = (p, k)"
| "sop_key (DeleteOp p k) = (p, k)"
| "sop_key (ExistsOp now p k) = (p, k)"

fun sop_writes :: "'v store_op \<Rightarrow> bool" where
  "sop_writes (SetOp now p k v ttl) = True"
| "sop_writes (DeleteOp p k) = True"
| "sop_writes _ = False"

fun sop_before :: "gotime \<Rightarrow> 'v store_op \<Rightarrow> bool" where
  "sop_before t (GetOp now p k) = (now \<le> t)"
| "sop_before t (ExistsOp now p k) = (now \<le> t)"
| "sop_before t _ = True"

fun run_sop :: "('s, 'v) SessionStore \<Rightarrow> 'v store_op \<Rightarrow> 's \<Rightarrow> 's" where
  "run_sop st (SetOp now p k v ttl) s = snd (ss_Set st now p k v ttl s)"
| "run_sop st (GetOp now p k) s = snd (ss_Get st now p k s)"
| "run_sop st (DeleteOp p k) s = snd (ss_Delete st p k s)"
| "run_sop st (ExistsOp now p k) s = snd (ss_Exists st now p k s)"

locale session_store =
  fixes st :: "('s, 'v) SessionStore"
    and view :: "gotime \<Rightarrow> string \<Rightarrow> 's \<Rightarrow> 'v option"
    and good :: "'v \<Rightarrow> bool"
    and calm :: "'s \<Rightarrow> bool"
    and life :: "int \<Rightarrow> bool"
  assumes set_view: "calm s \<Longrightarrow> good v \<Longrightarrow> life ttl \<Longrightarrow> 0 < ttl \<Longrightarrow> now \<le> n \<Longrightarrow> n \<le> now + ttl \<Longrightarrow>
      fst (ss_Set st now p k v ttl s) = Inr () \<and>
      view n (storeKey p k) (snd (ss_Set st now p k v ttl s)) = Some v"
    and set_frame: "storeKey p k \<noteq> k' \<Longrightarrow> view n k' (snd (ss_Set st now p k v ttl s)) = view n k' s"
    and get_view: "calm s \<Longrightarrow> view now (storeKey p k) s = Some v \<Longrightarrow> fst (ss_Get st now p k s) = Inr v"
    and get_none: "view now (storeKey p k) s = None \<Longrightarrow> \<exists>e. fst (ss_Get st now p k s) = Inl e"
    and get_frame: "now \<le> n \<Longrightarrow> view n k' (snd (ss_Get st now p k s)) = view n k' s"
    and delete_view: "calm s \<Longrightarrow> view n (storeKey p k) (snd (ss_Delete st p k s)) = None"
    and delete_frame: "storeKey p k \<noteq> k' \<Longrightarrow> view n k' (snd (ss_Delete st p k s)) = view n k' s"
    and exists_frame: "now \<le> n \<Longrightarrow> view n k' (snd (ss_Exists st now p k s)) = view n k' s"
begin

lemma history_keeps:
  assumes "CHR '':'' \<notin> set p"
    and "\<forall>q \<in> set ops. CHR '':'' \<notin> set (fst (sop_key q)) \<and> sop_before n q \<and>
           (sop_writes q \<longrightarrow> sop_key q \<noteq> (p, k))"
  shows "view n (storeKey p k) (fold (run_sop st) ops s) = view n (storeKey p k) s"
  using assms(2)
proof (induction ops arbitrary: s)
  case (Cons q ops)
  have "view n (storeKey p k) (run_sop st q s) = view n (storeKey p k) s"
    using Cons.prems assms(1)
    by (cases q) (auto simp: set_frame get_frame delete_frame exists_frame storeKey_inject)
  with Cons show ?case by simp
qed simp

lemma set_get:
  assumes "calm s" and "good v" and "life ttl" and "0 < ttl" and "now \<le> n" and "n \<le> now + ttl"
    and "CHR '':'' \<notin> set p"
    and "\<forall>q \<in> set ops. CHR '':'' \<notin> set (fst (sop_key q)) \<and> sop_before n q \<and>
           (sop_writes q \<longrightarrow> sop_key q \<noteq> (p, k))"
    and "calm (fold (run_sop st) ops (snd (ss_Set st now p k v ttl s)))"
  shows "fst (ss_Get st n p k (fold (run_sop st) ops (snd (ss_Set st now p k v ttl s)))) = Inr v"
  using set_view [OF assms(1-6), of p k] history_keeps [OF assms(7,8)] assms(9) by (simp add: get_view)

lemma delete_get:
  assumes "calm s" and "CHR '':'' \<notin> set p"
    and "\<forall>q \<in> set ops. CHR '':'' \<notin> set (fst (sop_key q)) \<and> sop_before n q \<and>
           (sop_writes q \<longrightarrow> sop_key q \<noteq> (p, k))"
  shows "\<exists>e. fst (ss_Get st n p k (fold (run_sop st) ops (snd (ss_Delete st p k s)))) = Inl e"
  using delete_view [OF assms(1), of n p k] history_keeps [OF assms(2,3)] by (simp add: get_none)

end

lemmas mem_defs = MemStore_def Mem_Set_def Mem_Get_def Mem_Delete_def Mem_Exists_def
  Mem_view_def Mem_lookup_def Mem_evict_def codec_ok_def

interpretation mem_store: session_store "MemStore c" "Mem_view c" "codec_ok c" "\<lambda>_. True" "\<lambda>_. True"
  for c
proof (unfold_locales, goal_cases)
qed (auto simp: mem_defs Let_def split: option.splits sum.splits if_splits)

section \<open>Properties\<close>

text \<open>
  A session that was stored with a positive ttl is read back as it was stored at any time
  up to its expiry, whatever calls on other sessions, and whatever reads of this one, happen in
  between; here \<open>codec_ok\<close> is the assumption that the JSON encoding of the value can be
  decoded again.
\<close>

theorem session_roundtrip:
  assumes "codec_ok c v" and "0 < ttl" and "now \<le> n" and "n \<le> now + ttl" and "CHR '':'' \<notin> set p"
    and "\<forall>q \<in> set ops. CHR '':'' \<notin> set (fst (sop_key q)) \<and> sop_before n q \<and>
           (sop_writes q \<longrightarrow> sop_key q \<noteq> (p, k))"
  shows "fst (Mem_Get c n p k
      (fold (run_sop (MemStore c)) ops (snd (Mem_Set c now p k v ttl s)))) = Inr v"
  using mem_store.set_get [OF TrueI assms(1) TrueI assms(2-6) TrueI] by (simp add: MemStore_def)

theorem session_roundtrip_witness:
  "fst (Mem_Get \<lparr>cd_Marshal = (\<lambda>v. Inr (''q'' @ v)), cd_Unmarshal = (\<lambda>b. Inr (tl b))\<rparr> 20
          ''upload'' ''1''
      (fold (run_sop (MemStore \<lparr>cd_Marshal = (\<lambda>v. Inr (''q'' @ v)), cd_Unmarshal = (\<lambda>b. Inr (tl b))\<rparr>))
         [SetOp 11 ''upload'' ''2'' ''x'' 5, GetOp 12 ''upload'' ''1'', DeleteOp ''download'' ''1'']
         (snd (Mem_Set \<lparr>cd_Marshal = (\<lambda>v. Inr (''q'' @ v)), cd_Unmarshal = (\<lambda>b. Inr (tl b))\<rparr> 10
            ''upload'' ''1'' ''v'' 10 NewMemorySessionStore)))) = Inr ''v''"
  by (rule session_roundtrip) (simp_all add: codec_ok_def)

text \<open>
  Eviction of an expired entry is a second critical section.  When a writer renews the
  session between the two sections of a \<open>Get\<close>, the renewed session is readable before
  the eviction and lost after it.
\<close>

theorem evict_loses_renewed_session:
  assumes "Mem_lookup now (storeKey p k) s = Stale"
    and "codec_ok c v" and "0 < ttl" and "now' \<le> n" and "n \<le> now' + ttl"
    and "Mem_Set c now' p k v ttl s = (r, s')"
  shows "fst (Mem_Get c n p k s') = Inr v \<and>
    fst (Mem_Get c n p k (Mem_evict (storeKey p k) s')) = Inl (Errorf ''session not found'')"
proof
  have s': "s' = snd (Mem_Set c now' p k v ttl s)" using assms(6) by simp
  show "fst (Mem_Get c n p k s') = Inr v"
    using mem_store.get_view [OF TrueI, of c n p k s' v] mem_store.set_view [OF TrueI assms(2) TrueI assms(3-5), of p k s]
    unfolding s' by (simp add: MemStore_def)
qed (simp add: Mem_Get_def Mem_lookup_def Mem_evict_def)

theorem evict_loses_renewed_session_witness:
  "\<exists>r s'. Mem_Set \<lparr>cd_Marshal = Inr, cd_Unmarshal = Inr\<rparr> 21 ''u'' ''1'' ''v2'' 10
           \<lparr>ms_data = [''u:1'' \<mapsto> ''v1''], ms_ttls = [''u:1'' \<mapsto> 5]\<rparr> = (r, s') \<and>
    fst (Mem_Get \<lparr>cd_Marshal = Inr, cd_Unmarshal = Inr\<rparr> 22 ''u'' ''1'' s') = Inr ''v2''"
proof -
  let ?c = "\<lparr>cd_Marshal = Inr, cd_Unmarshal = Inr\<rparr> :: bytes codec"
  let ?s = "\<lparr>ms_data = [''u:1'' \<mapsto> ''v1''], ms_ttls = [''u:1'' \<mapsto> 5]\<rparr>"
  obtain r s' where "Mem_Set ?c 21 ''u'' ''1'' ''v2'' 10 ?s = (r, s')" by fastforce
  moreover have "Mem_lookup 20 (storeKey ''u'' ''1'') ?s = Stale" "codec_ok ?c ''v2''"
    by (simp_all add: Mem_lookup_def storeKey_def codec_ok_def)
  ultimately show ?thesis using evict_loses_renewed_session [of 20 _ _ ?s ?c "''v2''" 10 21 22] by auto
qed

end
