(* ===== verification/Crypto.thy ===== *)
theory Crypto
  imports Filesystem
begin

text \<open>
  \<open>src/internal/crypto/crypto.go\<close>: encryption of strings and files with AES-256-GCM.
  The hexadecimal and base64 codecs of the standard library are written out.  The cipher is the
  argument \<open>gcm\<close>: what the code relies on is that \<open>Open\<close> undoes \<open>Seal\<close>
  (\<open>gcm_ok\<close>).  The key derivation \<open>scrypt\<close>, of another module, is an argument as
  well, and a nonce is what the random source returns, \<open>None\<close> when it fails.
\<close>

section \<open>encoding/hex\<close>

definition hex_digits :: string where "hex_digits = ''0123456789abcdef''"

definition hex_val :: "char \<Rightarrow> nat option" where
  "hex_val c =
     (let n = of_char c :: nat
      in if 48 \<le> n \<and> n \<le> 57 then Some (n - 48)
         else if 97 \<le> n \<and> n \<le> 102 then Some (n - 87)
         else if 65 \<le> n \<and> n \<le> 70 then Some (n - 55)
         else None)"

fun hex_EncodeToString :: "bytes \<Rightarrow> string" where
  "hex_EncodeToString [] = []"
| "hex_EncodeToString (b # bs) =
     hex_digits ! (of_char b div 16) # hex_digits ! (of_char b mod 16) # hex_EncodeToString bs"

fun hex_DecodeString :: "string \<Rightarrow> bytes option" where
  "hex_DecodeString [] = Some []"
| "hex_DecodeString [c] = None"
| "hex_DecodeString (a # b # s) =
     (case (hex_val a, hex_val b, hex_DecodeString s) of
        (Some x, Some y, Some bs) \<Rightarrow> Some (char_of (16 * x + y) # bs)
      | _ \<Rightarrow> None)"

section \<open>encoding/base64\<close>

definition b64_alphabet :: string where
  "b64_alphabet = ''ABCDEFGHIJKLMNOPQRSTUVWXYZabcdefghijklmnopqrstuvwxyz0123456789+/''"

definition b64_char :: "nat \<Rightarrow> char" where
  "b64_char n = b64_alphabet ! n"

definition b64_val :: "char \<Rightarrow> nat option" where
  "b64_val c = map_of (zip b64_alphabet [0..<64]) c"

fun b64_EncodeToString :: "bytes \<Rightarrow> string" where
  "b64_EncodeToString [] = []"
| "b64_EncodeToString [x] =
     (let a = of_char x :: nat
      in [b64_char (a div 4), b64_char (a mod 4 * 16), CHR ''='', CHR ''=''])"
| "b64_EncodeToString [x, y] =
     (let a = of_char x :: nat; b = of_char y :: nat
      in [b64_char (a div 4), b64_char (a mod 4 * 16 + b div 16), b64_char (b mod 16 * 4), CHR ''=''])"
| "b64_EncodeToString (x # y # z # s) =
     (let a = of_char x :: nat; b = of_char y :: nat; c = of_char z :: nat
      in b64_char (a div 4) # b64_char (a mod 4 * 16 + b div 16) # b64_char (b mod 16 * 4 + c div 64)
         # b64_char (c mod 64) # b64_EncodeToString s)"

text \<open>The decoder skips carriage returns and line feeds wherever they stand, requires the
  padding, and does not look at the unused bits before it.\<close>

fun b64_quads :: "string \<Rightarrow> bytes option" where
  "b64_quads [] = Some []"
| "b64_quads (p # q # r # s # rest) =
     (case (b64_val p, b64_val q) of
        (Some a, Some b) \<Rightarrow>
          (let x = char_of (a * 4 + b div 16)
           in if r = CHR ''='' then (if s = CHR ''='' \<and> rest = [] then Some [x] else None)
              else (case b64_val r of
                None \<Rightarrow> None
              | Some c \<Rightarrow>
                  (let y = char_of (b mod 16 * 16 + c div 4)
                   in if s = CHR ''='' then (if rest = [] then Some [x, y] else None)
                      else (case (b64_val s, b64_quads rest) of
                        (Some d, Some bs) \<Rightarrow> Some (x # y # char_of (c mod 4 * 64 + d) # bs)
                      | _ \<Rightarrow> None))))
      | _ \<Rightarrow> None)"
| "b64_quads s = None"

definition b64_DecodeString :: "string \<Rightarrow> bytes option" where
  "b64_DecodeString s = b64_quads (filter (\<lambda>c. c \<noteq> CHR 0x0A \<and> c \<noteq> CHR 0x0D) s)"

section \<open>CryptoService\<close>

record gcm =
  gcm_Seal :: "bytes \<Rightarrow> bytes \<Rightarrow> bytes \<Rightarrow> bytes"
    \<comment> \<open>key, nonce, plaintext\<close>
  gcm_Open :: "bytes \<Rightarrow> bytes \<Rightarrow> bytes \<Rightarrow> bytes option"

definition gcm_ok :: "gcm \<Rightarrow> bool" where
  "gcm_ok g \<longleftrightarrow> (\<forall>k n p. gcm_Open g k n (gcm_Seal g k n p) = Some p)"

abbreviation nonceSize :: nat where "nonceSize \<equiv> 12"

record CryptoService =
  cs_key :: bytes
  cs_enabled :: bool

definition NewCryptoService :: CryptoService where
  "NewCryptoService = \<lparr>cs_key = [], cs_enabled = False\<rparr>"

definition Init :: "(bytes \<Rightarrow> bytes \<Rightarrow> bytes res) \<Rightarrow> string \<Rightarrow> CryptoService \<Rightarrow> unit res \<times> CryptoService" where
  "Init scrypt key cs =
     (if key = [] then (Inl (Errorf ''encryption key cannot be empty''), cs)
      else case hex_DecodeString key of
        Some decoded \<Rightarrow>
          if length decoded = 32 then (Inr (), \<lparr>cs_key = decoded, cs_enabled = True\<rparr>)
          else (case scrypt key ''fssvrgo-v1-aes256-gcm'' of
            Inl e \<Rightarrow> (Inl (Wrapf ''failed to derive encryption key'' e), cs)
          | Inr derived \<Rightarrow> (Inr (), \<lparr>cs_key = derived, cs_enabled = True\<rparr>))
      | None \<Rightarrow>
          (case scrypt key ''fssvrgo-v1-aes256-gcm'' of
            Inl e \<Rightarrow> (Inl (Wrapf ''failed to derive encryption key'' e), cs)
          | Inr derived \<Rightarrow> (Inr (), \<lparr>cs_key = derived, cs_enabled = True\<rparr>)))"

definition GenerateKey :: "bytes option \<Rightarrow> string" where
  "GenerateKey rnd = (case rnd of None \<Rightarrow> [] | Some key \<Rightarrow> hex_EncodeToString key)"

text \<open>\<open>aes.NewCipher\<close> accepts keys of 16, 24 and 32 bytes.\<close>

definition bad_key :: "bytes \<Rightarrow> bool" where
  "bad_key k \<longleftrightarrow> length k \<notin> {16, 24, 32}"

definition Encrypt :: "gcm \<Rightarrow> bytes option \<Rightarrow> CryptoService \<Rightarrow> string \<Rightarrow> string res" where
  "Encrypt g rnd cs plaintext =
     (if \<not> cs_enabled cs then Inr plaintext
      else if bad_key (cs_key cs) then Inl (Wrapf ''failed to create cipher'' (Ext ''invalid key size''))
      else case rnd of
        None \<Rightarrow> Inl (Wrapf ''failed to generate nonce'' (Ext ''random source''))
      | Some nonce \<Rightarrow> Inr (b64_EncodeToString (nonce @ gcm_Seal g (cs_key cs) nonce plaintext)))"

definition Decrypt :: "gcm \<Rightarrow> CryptoService \<Rightarrow> string \<Rightarrow> string res" where
  "Decrypt g cs ciphertext =
     (if \<not> cs_enabled cs then Inr ciphertext
      else case b64_DecodeString ciphertext of
        None \<Rightarrow> Inl (Wrapf ''failed to decode base64'' (Ext ''illegal base64 data''))
      | Some data \<Rightarrow>
          if bad_key (cs_key cs) then Inl (Wrapf ''failed to create cipher'' (Ext ''invalid key size''))
          else if length data < nonceSize then Inl (Errorf ''ciphertext too short'')
          else (case gcm_Open g (cs_key cs) (take nonceSize data) (drop nonceSize data) of
            None \<Rightarrow> Inl (Wrapf ''failed to decrypt'' (Ext ''message authentication failed''))
          | Some plaintext \<Rightarrow> Inr plaintext))"

definition EncryptFile ::
  "gcm \<Rightarrow> bytes option \<Rightarrow> CryptoService \<Rightarrow> string \<Rightarrow> string \<Rightarrow> 'a fs_scheme \<Rightarrow> unit res \<times> 'a fs_scheme"
where
  "EncryptFile g rnd cs inputPath outputPath f =
     (case os_ReadFile inputPath f of
        (Inl e, f1) \<Rightarrow> (Inl (Wrapf ''failed to read input file'' e), f1)
      | (Inr data, f1) \<Rightarrow>
          (case Encrypt g rnd cs data of
             Inl e \<Rightarrow> (Inl (Wrapf ''failed to encrypt file data'' e), f1)
           | Inr encrypted \<Rightarrow>
               (case os_WriteFile outputPath encrypted f1 of
                  (Inl e, f2) \<Rightarrow> (Inl (Wrapf ''failed to write output file'' e), f2)
                | (Inr _, f2) \<Rightarrow> (Inr (), f2))))"

definition DecryptFile ::
  "gcm \<Rightarrow> CryptoService \<Rightarrow> string \<Rightarrow> string \<Rightarrow> 'a fs_scheme \<Rightarrow> unit res \<times> 'a fs_scheme"
where
  "DecryptFile g cs inputPath outputPath f =
     (case os_ReadFile inputPath f of
        (Inl e, f1) \<Rightarrow> (Inl (Wrapf ''failed to read input file'' e), f1)
      | (Inr data, f1) \<Rightarrow>
          (case Decrypt g cs data of
             Inl e \<Rightarrow> (Inl (Wrapf ''failed to decrypt file data'' e), f1)
           | Inr decrypted \<Rightarrow>
               (case os_WriteFile outputPath decrypted f1 of
                  (Inl e, f2) \<Rightarrow> (Inl (Wrapf ''failed to write output file'' e), f2)
                | (Inr _, f2) \<Rightarrow> (Inr (), f2))))"

definition DecryptFileStreaming ::
  "gcm \<Rightarrow> CryptoService \<Rightarrow> string \<Rightarrow> string \<Rightarrow> 'a fs_scheme \<Rightarrow> unit res \<times> 'a fs_scheme"
where
  "DecryptFileStreaming g cs inputPath outputPath f =
     (case os_Stat inputPath f of
        Inl e \<Rightarrow> (Inl (Wrapf ''failed to open input file'' e), f)
      | Inr _ \<Rightarrow>
     (case os_ReadFile inputPath f of
        (Inl e, f1) \<Rightarrow> (Inl (Wrapf ''failed to read encrypted file'' e), f1)
      | (Inr encData, f1) \<Rightarrow>
          (case Decrypt g cs encData of
             Inl e \<Rightarrow> (Inl (Wrapf ''failed to decrypt file data'' e), f1)
           | Inr decrypted \<Rightarrow>
               (case os_WriteFile outputPath decrypted f1 of
                  (Inl e, f2) \<Rightarrow> (Inl (Wrapf ''failed to write output file'' e), f2)
                | (Inr _, f2) \<Rightarrow> (Inr (), f2)))))"

section \<open>The codecs\<close>

lemma of_char_less [simp]: "(of_char c :: nat) < 256"
  using of_char_mod_256 [of c, where ?'a = nat] by (metis mod_less_divisor zero_less_numeral)

lemma char_of_eq: "n = of_char c \<Longrightarrow> char_of (n :: nat) = c"
  by simp

lemma hex_val_digit: "n < 16 \<Longrightarrow> hex_val (hex_digits ! n) = Some n"
proof -
  have "list_all (\<lambda>n. hex_val (hex_digits ! n) = Some n) [0..<16]" by code_simp
  then show "n < 16 \<Longrightarrow> ?thesis" by (simp add: list_all_iff)
qed

lemma hex_roundtrip: "hex_DecodeString (hex_EncodeToString bs) = Some bs"
proof (induction bs)
  case (Cons b bs)
  have "hex_val (hex_digits ! (of_char b div 16)) = Some (of_char b div 16)"
    "hex_val (hex_digits ! (of_char b mod 16)) = Some (of_char b mod 16)"
    using of_char_less [of b] by (auto intro!: hex_val_digit simp: div_less_iff_less_mult)
  with Cons show ?case by (simp add: mult_div_mod_eq)
qed simp

lemma b64_val_char: "n < 64 \<Longrightarrow> b64_val (b64_char n) = Some n \<and> b64_char n \<noteq> CHR ''='' \<and>
    b64_char n \<noteq> CHR 0x0A \<and> b64_char n \<noteq> CHR 0x0D"
proof -
  have "list_all (\<lambda>n. b64_val (b64_char n) = Some n \<and> b64_char n \<noteq> CHR ''='' \<and>
    b64_char n \<noteq> CHR 0x0A \<and> b64_char n \<noteq> CHR 0x0D) [0..<64]" by code_simp
  then show "n < 64 \<Longrightarrow> ?thesis" by (simp add: list_all_iff)
qed

lemma b64_arith:
  fixes a b c :: nat
  assumes "a < 256" "b < 256" "c < 256"
  shows "a div 4 < 64" "a mod 4 * 16 < 64" "a mod 4 * 16 + b div 16 < 64" "b mod 16 * 4 < 64" "b mod 16 * 4 + c div 64 < 64" "c mod 64 < 64"
    "a div 4 * 4 + (a mod 4 * 16) div 16 = a" "a div 4 * 4 + (a mod 4 * 16 + b div 16) div 16 = a"
    "(a mod 4 * 16 + b div 16) mod 16 * 16 + (b mod 16 * 4) div 4 = b"
    "(a mod 4 * 16 + b div 16) mod 16 * 16 + (b mod 16 * 4 + c div 64) div 4 = b"
    "(b mod 16 * 4 + c div 64) mod 4 * 64 + c mod 64 = c"
proof -
  have l: "b div 16 < 16" "c div 64 < 4" "a mod 4 < 4" "b mod 16 < 16"
    using assms by (simp_all add: div_less_iff_less_mult)
  then show "a div 4 < 64" "a mod 4 * 16 < 64" "a mod 4 * 16 + b div 16 < 64" "b mod 16 * 4 < 64"
    "b mod 16 * 4 + c div 64 < 64" "c mod 64 < 64"
    using assms by linarith+
  have d: "(a mod 4 * 16 + b div 16) div 16 = a mod 4" "(a mod 4 * 16 + b div 16) mod 16 = b div 16"
    "(b mod 16 * 4 + c div 64) div 4 = b mod 16" "(b mod 16 * 4 + c div 64) mod 4 = c div 64" using l by simp_all
  show "a div 4 * 4 + (a mod 4 * 16) div 16 = a" "a div 4 * 4 + (a mod 4 * 16 + b div 16) div 16 = a"
    "(a mod 4 * 16 + b div 16) mod 16 * 16 + (b mod 16 * 4) div 4 = b"
    "(a mod 4 * 16 + b div 16) mod 16 * 16 + (b mod 16 * 4 + c div 64) div 4 = b"
    "(b mod 16 * 4 + c div 64) mod 4 * 64 + c mod 64 = c"
    unfolding d by (simp_all add: div_mult_mod_eq)
qed

lemma b64_no_newline: "filter (\<lambda>c. c \<noteq> CHR 0x0A \<and> c \<noteq> CHR 0x0D) (b64_EncodeToString bs) = b64_EncodeToString bs"
  by (induction bs rule: b64_EncodeToString.induct) (auto simp: Let_def b64_val_char b64_arith(1-6) [OF of_char_less of_char_less of_char_less])

lemma b64_quads_encode: "b64_quads (b64_EncodeToString bs) = Some bs"
proof (induction bs rule: b64_EncodeToString.induct)
  case (2 x)
  note A = b64_arith [OF of_char_less [of x] of_char_less [of x] of_char_less [of x]]
  show ?case using A by (simp add: Let_def b64_val_char)
next
  case (3 x y)
  note A = b64_arith [OF of_char_less [of x] of_char_less [of y] of_char_less [of y]]
  show ?case using A by (simp add: Let_def b64_val_char)
next
  case (4 x y z s)
  note A = b64_arith [OF of_char_less [of x] of_char_less [of y] of_char_less [of z]]
  show ?case using A 4 by (simp add: Let_def b64_val_char)
qed simp

lemma b64_roundtrip: "b64_DecodeString (b64_EncodeToString bs) = Some bs"
  by (simp add: b64_DecodeString_def b64_no_newline b64_quads_encode)

section \<open>Properties\<close>

lemma Init_key:
  assumes "\<And>k s d. scrypt k s = Inr d \<Longrightarrow> length d = 32" and "Init scrypt key cs0 = (Inr (), cs)"
  shows "cs_enabled cs \<and> length (cs_key cs) = 32"
  using assms by (auto simp: Init_def split: if_splits option.splits sum.splits)

text \<open>
  C20: what the service encrypts it decrypts.  After a successful \<open>Init\<close> with any key or
  passphrase, for every 12-byte nonce the random source returns, \<open>Encrypt\<close> succeeds and
  \<open>Decrypt\<close> returns the plaintext unchanged, byte for byte and whatever its length.  The
  hypotheses are that \<open>Open\<close> undoes \<open>Seal\<close> and that \<open>scrypt\<close> returns a
  key of the length asked for.
\<close>

theorem encrypt_decrypt:
  assumes "gcm_ok g" "\<And>k s d. scrypt k s = Inr d \<Longrightarrow> length d = 32"
    and "Init scrypt key cs0 = (Inr (), cs)" "length nonce = nonceSize"
  shows "\<exists>c. Encrypt g (Some nonce) cs p = Inr c \<and> Decrypt g cs c = Inr p"
proof -
  have k: "cs_enabled cs" "\<not> bad_key (cs_key cs)" using Init_key [OF assms(2,3)] by (simp_all add: bad_key_def)
  let ?d = "nonce @ gcm_Seal g (cs_key cs) nonce p"
  have "gcm_Open g (cs_key cs) (take nonceSize ?d) (drop nonceSize ?d) = Some p"
    using assms(1,4) by (simp add: gcm_ok_def)
  moreover have "\<not> length ?d < nonceSize" using assms(4) by simp
  ultimately show ?thesis using k by (simp add: Encrypt_def Decrypt_def b64_roundtrip)
qed

theorem encrypt_decrypt_witness:
  "let g = \<lparr>gcm_Seal = (\<lambda>k n p. map (\<lambda>c. char_of (255 - of_char c :: nat)) p), gcm_Open = (\<lambda>k n c. Some (map (\<lambda>c. char_of (255 - of_char c :: nat)) c))\<rparr>;
       cs = snd (Init (\<lambda>k s. Inr (replicate 32 (CHR ''k''))) ''passphrase'' NewCryptoService)
   in \<exists>c. Encrypt g (Some (replicate 12 (CHR ''n''))) cs ''secret'' = Inr c \<and> Decrypt g cs c = Inr ''secret''"
proof -
  let ?g = "\<lparr>gcm_Seal = (\<lambda>k n p. map (\<lambda>c. char_of (255 - of_char c :: nat)) p), gcm_Open = (\<lambda>k n c. Some (map (\<lambda>c. char_of (255 - of_char c :: nat)) c))\<rparr>"
  let ?scrypt = "\<lambda>k s. Inr (replicate 32 (CHR ''k'')) :: bytes res"
  have inv: "char_of (255 - (255 - of_char c) :: nat) = c" for c
  proof -
    have "255 - (255 - of_char c) = (of_char c :: nat)" using of_char_less [of c] by linarith
    then show ?thesis by simp
  qed
  have g: "gcm_ok ?g" by (simp add: gcm_ok_def inv o_def)
  have "hex_DecodeString ''passphrase'' = None" by code_simp
  then obtain cs where cs: "Init ?scrypt ''passphrase'' NewCryptoService = (Inr (), cs)"
    by (simp add: Init_def del: hex_DecodeString.simps)
  from encrypt_decrypt [OF g _ cs, of "replicate 12 (CHR ''n'')" "''secret''"] cs show ?thesis by (simp add: Let_def)
qed

end
