(* ===== verification/Multipart_Ranges.thy ===== *)
theory Multipart_Ranges
  imports Filesystem
begin

text \<open>
  The bookkeeping of a multipart upload in \<open>src/internal/service/transfer/multipart.go\<close>: the
  sorted list of byte ranges written so far, the test that it covers the file, and the part size
  suggested to clients.  The lists are refined by sets of byte positions.
\<close>

section \<open>Definitions\<close>

record byteRange =
  br_Start :: int
  br_End :: int

text \<open>The loop of \<open>addCoveredRange\<close> over the remaining ranges: the range being merged,
  the output so far and the flag \<open>inserted\<close>.\<close>

fun addCoveredRange_loop :: "int \<Rightarrow> int \<Rightarrow> byteRange list \<Rightarrow> bool \<Rightarrow> byteRange list \<Rightarrow> byteRange list" where
  "addCoveredRange_loop start end' merged inserted [] =
     (if inserted then merged else merged @ [\<lparr>br_Start = start, br_End = end'\<rparr>])"
| "addCoveredRange_loop start end' merged inserted (r # rs) =
     (if br_End r < start then addCoveredRange_loop start end' (merged @ [r]) inserted rs
      else if br_Start r > end' then
        (let merged1 = (if inserted then merged else merged @ [\<lparr>br_Start = start, br_End = end'\<rparr>])
         in addCoveredRange_loop start end' (merged1 @ [r]) True rs)
      else addCoveredRange_loop (if br_Start r < start then br_Start r else start)
             (if br_End r > end' then br_End r else end') merged inserted rs)"

definition addCoveredRange :: "int \<Rightarrow> int \<Rightarrow> byteRange list \<Rightarrow> byteRange list" where
  "addCoveredRange start end' coveredRanges =
     (if start \<ge> end' then coveredRanges else addCoveredRange_loop start end' [] False coveredRanges)"

definition isFullyCovered :: "int \<Rightarrow> byteRange list \<Rightarrow> bool" where
  "isFullyCovered totalSize coveredRanges =
     (if coveredRanges = [] then totalSize = 0
      else if br_Start (hd coveredRanges) \<noteq> 0 then False
      else if br_End (last coveredRanges) \<noteq> totalSize then False
      else list_all (\<lambda>i. br_Start (coveredRanges ! i) = br_End (coveredRanges ! (i - 1))) [1..<length coveredRanges])"

definition suggestedPartSize :: "int \<Rightarrow> int" where
  "suggestedPartSize totalSize =
     (if totalSize \<le> 100 * 1024 * 1024 then 8 * 1024 * 1024
      else if totalSize \<le> 1024 * 1024 * 1024 then 16 * 1024 * 1024
      else if totalSize \<le> 10 * 1024 * 1024 * 1024 then 64 * 1024 * 1024
      else 128 * 1024 * 1024)"

section \<open>The set a list of ranges stands for\<close>

definition covered :: "byteRange list \<Rightarrow> int set" where
  "covered rs = (\<Union>r \<in> set rs. {br_Start r..<br_End r})"

definition ranges_ok :: "byteRange list \<Rightarrow> bool" where
  "ranges_ok rs \<longleftrightarrow> sorted_wrt (\<lambda>a b. br_End a < br_Start b) rs \<and> (\<forall>r \<in> set rs. br_Start r < br_End r)"

lemma covered_simps [simp]:
  "covered [] = {}" "covered (r # rs) = {br_Start r..<br_End r} \<union> covered rs" "covered (xs @ ys) = covered xs \<union> covered ys"
  by (auto simp: covered_def)

text \<open>Once the range is inserted the rest is copied.\<close>

lemma loop_inserted:
  assumes "\<forall>r \<in> set rs. end' < br_Start r" "start < end'" "\<forall>r \<in> set rs. br_Start r < br_End r"
  shows "addCoveredRange_loop start end' merged True rs = merged @ rs"
  using assms by (induction rs arbitrary: merged) auto

lemma loop_refines:
  assumes "start < end'" "ranges_ok (merged @ rs)" "\<forall>r \<in> set merged. br_End r < start"
  shows "ranges_ok (addCoveredRange_loop start end' merged False rs) \<and>
    covered (addCoveredRange_loop start end' merged False rs) = covered (merged @ rs) \<union> {start..<end'}"
  using assms
proof (induction rs arbitrary: start end' merged)
  case Nil
  then show ?case by (auto simp: ranges_ok_def sorted_wrt_append)
next
  case (Cons r rs)
  have r: "br_Start r < br_End r" "\<forall>q \<in> set rs. br_End r < br_Start q" "\<forall>q \<in> set merged. br_End q < br_Start r"
    "\<forall>q \<in> set rs. br_Start q < br_End q" "ranges_ok merged" "ranges_ok rs"
    using Cons.prems(2) by (auto simp: ranges_ok_def sorted_wrt_append)
  consider "br_End r < start" | "\<not> br_End r < start" "end' < br_Start r" | "\<not> br_End r < start" "\<not> end' < br_Start r" by blast
  then show ?case
  proof cases
    case 1
    with Cons.IH [of start end' "merged @ [r]"] Cons.prems show ?thesis by auto
  next
    case 2
    let ?n = "\<lparr>br_Start = start, br_End = end'\<rparr>"
    have "addCoveredRange_loop start end' merged False (r # rs) = (merged @ [?n] @ [r]) @ rs"
      using 2 r Cons.prems(1) by (simp add: Let_def) (subst loop_inserted, auto)
    moreover have "ranges_ok ((merged @ [?n] @ [r]) @ rs)"
      using 2 r Cons.prems by (auto simp: ranges_ok_def sorted_wrt_append)
    ultimately show ?thesis by auto
  next
    case 3
    let ?s = "if br_Start r < start then br_Start r else start" let ?e = "if br_End r > end' then br_End r else end'"
    have "ranges_ok (merged @ rs)" using Cons.prems(2) by (auto simp: ranges_ok_def sorted_wrt_append)
    moreover have "\<forall>q \<in> set merged. br_End q < ?s" using Cons.prems(3) r(3) by auto
    moreover have "?s < ?e" using Cons.prems(1) r(1) by auto
    ultimately have "ranges_ok (addCoveredRange_loop ?s ?e merged False rs) \<and>
      covered (addCoveredRange_loop ?s ?e merged False rs) = covered (merged @ rs) \<union> {?s..<?e}" by (intro Cons.IH)
    moreover have "{?s..<?e} = {br_Start r..<br_End r} \<union> {start..<end'}" using 3 r(1) Cons.prems(1) by auto
    ultimately show ?thesis using 3 by auto
  qed
qed

lemma addCoveredRange_refines:
  assumes "ranges_ok rs"
  shows "ranges_ok (addCoveredRange s e rs)" "covered (addCoveredRange s e rs) = covered rs \<union> {s..<e}"
  using loop_refines [of s e "[]" rs] assms by (auto simp: addCoveredRange_def)

text \<open>The ranges are separated by gaps, so they cover an interval only if there is one range.\<close>

lemma isFullyCovered_iff:
  assumes ok: "ranges_ok rs" and n: "0 \<le> n"
  shows "isFullyCovered n rs \<longleftrightarrow> covered rs = {0..<n}"
proof (cases rs)
  case Nil
  then show ?thesis using n by (auto simp: isFullyCovered_def)
next
  case (Cons r qs)
  show ?thesis
  proof (cases qs)
    case Nil
    with Cons ok have "br_Start r < br_End r" by (simp add: ranges_ok_def)
    with Cons Nil show ?thesis by (auto simp: isFullyCovered_def Ico_eq_Ico)
  next
    case (Cons q ps)
    have o: "br_Start r < br_End r" "\<forall>x \<in> set qs. br_End r < br_Start x" "\<forall>x \<in> set qs. br_Start x < br_End x"
      using ok \<open>rs = r # qs\<close> by (auto simp: ranges_ok_def)
    have "br_Start (rs ! 1) \<noteq> br_End (rs ! (1 - 1))" using o(2) \<open>rs = r # qs\<close> Cons by force
    moreover have "1 \<in> set [1..<length rs]" using \<open>rs = r # qs\<close> Cons by (simp del: upt_Suc)
    ultimately have "\<not> list_all (\<lambda>i. br_Start (rs ! i) = br_End (rs ! (i - 1))) [1..<length rs]"
      unfolding list_all_iff by blast
    then have "\<not> isFullyCovered n rs" using \<open>rs = r # qs\<close> by (simp add: isFullyCovered_def)
    moreover have "covered rs \<noteq> {0..<n}"
    proof
      assume c: "covered rs = {0..<n}"
      have "br_End r \<notin> covered rs" using o \<open>rs = r # qs\<close> by (fastforce simp: covered_def)
      moreover have "br_Start r \<in> covered rs" "br_Start q \<in> covered rs" "br_End r < br_Start q"
        using o \<open>rs = r # qs\<close> Cons by (auto simp: covered_def)
      ultimately show False using c o(1) by auto
    qed
    ultimately show ?thesis by blast
  qed
qed

section \<open>Contents\<close>

text \<open>The positions a write at \<open>offset\<close> touches, and the temp file after a sequence of
  writes.\<close>

definition span :: "int \<times> bytes \<Rightarrow> int set" where
  "span w = {fst w..<fst w + int (length (snd w))}"

definition written :: "(int \<times> bytes) list \<Rightarrow> bytes \<Rightarrow> bytes" where
  "written ws old = fold (\<lambda>(ofs, data) b. overlay b (nat ofs) data) ws old"

lemma overlay_length: "length (overlay old k data) = (if data = [] then length old else max (length old) (k + length data))"
  by (auto simp: overlay_def)

lemma overlay_nth:
  assumes "i < length (overlay old k data)" "k + length data \<le> length old"
  shows "overlay old k data ! i = (if k \<le> i \<and> i < k + length data then data ! (i - k) else old ! i)"
  using assms by (auto simp: overlay_def nth_append min_def)

lemma overlay_length_in: "k + length data \<le> length old \<Longrightarrow> length (overlay old k data) = length old"
  by (simp add: overlay_length)

definition writes_in :: "int \<Rightarrow> (int \<times> bytes) list \<Rightarrow> bool" where
  "writes_in n ws \<longleftrightarrow> (\<forall>w \<in> set ws. 0 \<le> fst w \<and> fst w + int (length (snd w)) \<le> n)"

lemma written_Nil [simp]: "written [] old = old"
  by (simp add: written_def)

lemma written_Cons [simp]: "written (w # ws) old = written ws (overlay old (nat (fst w)) (snd w))"
  by (cases w) (simp add: written_def)

lemma written_append [simp]: "written (a @ b) old = written b (written a old)"
  by (simp add: written_def)

lemma written_length: "writes_in (int (length old)) ws \<Longrightarrow> length (written ws old) = length old"
proof (induction ws arbitrary: old)
  case (Cons w ws)
  have "nat (fst w) + length (snd w) \<le> length old" using Cons.prems by (auto simp: writes_in_def)
  then have "length (overlay old (nat (fst w)) (snd w)) = length old" by (rule overlay_length_in)
  moreover have "writes_in (int (length old)) ws" using Cons.prems by (simp add: writes_in_def)
  ultimately show ?case using Cons.IH [of "overlay old (nat (fst w)) (snd w)"] by simp
qed simp

text \<open>A byte no later write touches keeps its value.\<close>

lemma written_keeps:
  assumes "writes_in (int (length old)) ws" "i < length old" "\<forall>w \<in> set ws. int i \<notin> span w"
  shows "written ws old ! i = old ! i"
  using assms
proof (induction ws arbitrary: old)
  case (Cons w ws)
  let ?o = "overlay old (nat (fst w)) (snd w)"
  have b: "nat (fst w) + length (snd w) \<le> length old" "0 \<le> fst w" using Cons.prems(1) by (auto simp: writes_in_def)
  have l: "length ?o = length old" using b(1) by (rule overlay_length_in)
  have n: "\<not> (nat (fst w) \<le> i \<and> i < nat (fst w) + length (snd w))" using Cons.prems(3) b(2) by (auto simp: span_def)
  have "i < length ?o" using l Cons.prems(2) by simp
  from overlay_nth [OF this b(1)] have "?o ! i = old ! i" unfolding if_not_P [OF n] .
  moreover have "written ws ?o ! i = ?o ! i"
    by (rule Cons.IH) (use Cons.prems l in \<open>auto simp: writes_in_def\<close>)
  ultimately show ?case by simp
qed simp

lemma card_Union_sum_le: "card (\<Union> (set As)) \<le> sum_list (map card As)"
proof (induction As)
  case (Cons A As)
  have "card (A \<union> \<Union> (set As)) \<le> card A + card (\<Union> (set As))" by (rule card_Un_le)
  with Cons show ?case by simp
qed simp

text \<open>Sets whose sizes add up to the size of their union are disjoint.\<close>

lemma card_sum_disjoint:
  assumes "\<forall>A \<in> set As. finite A" "card (\<Union> (set As)) = sum_list (map card As)" "i < length As" "j < length As" "i \<noteq> j"
  shows "As ! i \<inter> As ! j = {}"
  using assms
proof (induction As arbitrary: i j)
  case (Cons A As)
  let ?U = "\<Union> (set As)"
  have fin: "finite A" "finite ?U" using Cons.prems(1) by auto
  have le: "card ?U \<le> sum_list (map card As)" by (rule card_Union_sum_le)
  have c: "card A + card ?U = card (A \<union> ?U) + card (A \<inter> ?U)" by (rule card_Un_Int [OF fin])
  have "card (A \<union> ?U) = card A + sum_list (map card As)" using Cons.prems(2) by simp
  with c le have "card (A \<inter> ?U) = 0" "card ?U = sum_list (map card As)" by linarith+
  then have dis: "A \<inter> ?U = {}" and eq: "card ?U = sum_list (map card As)" using fin by auto
  show ?case
  proof (cases "i = 0 \<or> j = 0")
    case True
    with Cons.prems(3-5) obtain k where "k < length As" "{i, j} = {0, Suc k}"
      by (cases i; cases j) auto
    moreover have "A \<inter> As ! k = {}" using dis nth_mem [OF \<open>k < length As\<close>] by blast
    ultimately show ?thesis by (auto simp: doubleton_eq_iff)
  next
    case False
    then obtain a b where ab: "i = Suc a" "j = Suc b" by (cases i; cases j) auto
    have "As ! a \<inter> As ! b = {}" by (rule Cons.IH [OF _ eq]) (use Cons.prems ab in auto)
    with ab show ?thesis by simp
  qed
qed simp

text \<open>Writes that cover the file and add up to its size do not overlap, so each one is in the
  file as it was sent.\<close>

lemma exact_cover_content:
  assumes "writes_in n ws" "int (length old) = n" "(\<Union>w \<in> set ws. span w) = {0..<n}"
    and "sum_list (map (\<lambda>w. int (length (snd w))) ws) = n" "(ofs, data) \<in> set ws"
  shows "take (length data) (drop (nat ofs) (written ws old)) = data"
proof -
  obtain k where k: "k < length ws" "ws ! k = (ofs, data)" using assms(5) by (auto simp: in_set_conv_nth)
  let ?pre = "take k ws" let ?post = "drop (Suc k) ws"
  have ws: "ws = ?pre @ (ofs, data) # ?post" using k id_take_nth_drop by metis
  have len: "card (span w) = length (snd w)" for w :: "int \<times> bytes" by (simp add: span_def)
  have "int (sum_list (map (card \<circ> span) ws)) = sum_list (map (\<lambda>w. int (length (snd w))) ws)"
    by (induction ws) (simp_all add: len)
  then have "int (sum_list (map (card \<circ> span) ws)) = n" using assms(4) by simp
  moreover have "int (card (\<Union>w \<in> set ws. span w)) = n" using assms(2,3) by simp
  ultimately have "card (\<Union> (set (map span ws))) = sum_list (map card (map span ws))" by simp
  then have dis: "map span ws ! i \<inter> map span ws ! k = {}" if "i < length ws" "i \<noteq> k" for i
    using card_sum_disjoint [of "map span ws" i k] that k(1) by (auto simp: span_def)
  have b: "0 \<le> ofs" "ofs + int (length data) \<le> n" using assms(1,5) by (auto simp: writes_in_def)
  have wi: "writes_in n ?pre" "writes_in n ?post" using assms(1) by (auto simp: writes_in_def dest: in_set_takeD in_set_dropD)
  let ?b = "written ?pre old" let ?c = "overlay ?b (nat ofs) data"
  have lb: "length ?b = length old" using written_length wi(1) assms(2) by simp
  have kb: "nat ofs + length data \<le> length ?b" using b lb assms(2) by linarith
  have lc: "length ?c = length old" using overlay_length_in [OF kb] lb by simp
  have "written ws old = written ?post ?c" by (subst ws) (simp add: written_def)
  moreover have "written ?post ?c ! (nat ofs + i) = data ! i" if i: "i < length data" for i
  proof -
    have "int (nat ofs + i) \<notin> span w" if w: "w \<in> set ?post" for w
    proof
      assume in_w: "int (nat ofs + i) \<in> span w"
      from w obtain j where j: "j < length ?post" "?post ! j = w" by (auto simp: in_set_conv_nth)
      then have "ws ! (Suc k + j) = w" "Suc k + j < length ws" by auto
      with dis [of "Suc k + j"] have "span w \<inter> span (ofs, data) = {}" using k by simp
      moreover have "int (nat ofs + i) \<in> span (ofs, data)" using i b(1) by (simp add: span_def)
      ultimately show False using in_w by blast
    qed
    then have "written ?post ?c ! (nat ofs + i) = ?c ! (nat ofs + i)"
      using written_keeps [of ?c ?post "nat ofs + i"] wi(2) lc assms(2) kb lb i by simp
    also have "\<dots> = data ! i" using overlay_nth [of "nat ofs + i" ?b "nat ofs" data] kb lc lb i by simp
    finally show ?thesis .
  qed
  moreover have "length (written ?post ?c) = length old" using written_length [of ?c ?post] wi(2) lc assms(2) by simp
  ultimately show ?thesis using kb lb by (intro nth_equalityI) (auto simp: add.commute)
qed

section \<open>Properties\<close>

text \<open>
  The list of covered ranges is exact.  Starting from the empty list and recording any
  sequence of written ranges with \<open>addCoveredRange\<close>, in any order and with any overlaps,
  the list stays sorted with a gap between neighbours, it stands for exactly the bytes written,
  and \<open>isFullyCovered\<close> answers true if and only if every byte of the file was written and
  none beyond it.
\<close>

theorem covered_ranges_exact:
  "let rs = fold (\<lambda>(s, e). addCoveredRange s e) ws []
   in ranges_ok rs \<and> covered rs = (\<Union>(s, e) \<in> set ws. {s..<e}) \<and>
      isFullyCovered (int n) rs = ((\<Union>(s, e) \<in> set ws. {s..<e}) = {0..<int n})"
proof -
  have "ranges_ok rs \<Longrightarrow> ranges_ok (fold (\<lambda>(s, e). addCoveredRange s e) ws rs) \<and>
      covered (fold (\<lambda>(s, e). addCoveredRange s e) ws rs) = covered rs \<union> (\<Union>(s, e) \<in> set ws. {s..<e})" for rs
  proof (induction ws arbitrary: rs)
    case (Cons w ws)
    then show ?case using addCoveredRange_refines [OF Cons.prems, of "fst w" "snd w"] by (auto split: prod.splits)
  qed simp
  from this [of "[]"] have "ranges_ok (fold (\<lambda>(s, e). addCoveredRange s e) ws []) \<and>
      covered (fold (\<lambda>(s, e). addCoveredRange s e) ws []) = (\<Union>(s, e) \<in> set ws. {s..<e})" by (simp add: ranges_ok_def)
  then show ?thesis using isFullyCovered_iff [of "fold (\<lambda>(s, e). addCoveredRange s e) ws []" "int n"] by (simp add: Let_def)
qed

end
