(* ===== verification/Transfer_Service.thy ===== *)
theory Transfer_Service
  imports File_Manager Session_Store Crypto Multipart_Ranges
begin

text \<open>
  \<open>src/internal/service/transfer/service.go\<close>: upload and download sessions.  An upload
  session collects chunks in a temp file and completes it into the storage; a session not found
  in the process is restored from the session store, which keeps only the exported fields.

  The state \<open>xfer\<close> has the file system, on which both the storage and the temp directory
  live, the database, the three session maps, the counter of used session slots, the session
  store and the lock.  An open temp file is a flag of its session: reads and writes through the
  handle reach the file by its name, as no one else removes files of the temp directory.  What an
  operation takes from its environment is \<open>xf_env\<close>.
\<close>

section \<open>Temp files\<close>

definition EFBIG :: err where "EFBIG = Ext ''file too large''"

definition fault_err :: "io_fault \<Rightarrow> err" where
  "fault_err x = (case x of NoEffect e \<Rightarrow> e | Partial n e \<Rightarrow> e)"

text \<open>\<open>os.Create\<close>, \<open>File.Truncate\<close>, \<open>File.WriteAt\<close>, and a system
  call that only succeeds or fails (\<open>File.Sync\<close>, \<open>File.Close\<close>).\<close>

definition os_Create :: "string \<Rightarrow> 'a fs_scheme \<Rightarrow> unit res \<times> 'a fs_scheme" where
  "os_Create p f = os_WriteFile p [] f"

definition file_Truncate :: "string \<Rightarrow> int \<Rightarrow> 'a fs_scheme \<Rightarrow> unit res \<times> 'a fs_scheme" where
  "file_Truncate p n f0 =
     (case fs_pop f0 of (flt, f) \<Rightarrow>
        let k = fs_key f p
        in case fs_get f k of
             Some (FFile b) \<Rightarrow>
               if n < 0 then (Inl EINVAL, f)
               else (case flt of
                  Some x \<Rightarrow> (Inl (fault_err x), f)
                | None \<Rightarrow> (Inr (), fs_put k (FFile (take (nat n) b @ replicate (nat n - length b) (CHR 0x00))) f))
           | _ \<Rightarrow> (Inl ErrNotExist, f))"

definition file_WriteAt :: "string \<Rightarrow> bytes \<Rightarrow> int \<Rightarrow> 'a fs_scheme \<Rightarrow> unit res \<times> 'a fs_scheme" where
  "file_WriteAt p data offset f0 =
     (case fs_pop f0 of (flt, f) \<Rightarrow>
        let k = fs_key f p
        in case fs_get f k of
             Some (FFile b) \<Rightarrow>
               if offset < 0 then (Inl EINVAL, f)
               else if max_int64 < offset + int (length data) then (Inl EFBIG, f)
               else (case flt of
                  None \<Rightarrow> (Inr (), fs_put k (FFile (overlay b (nat offset) data)) f)
                | Some (NoEffect e) \<Rightarrow> (Inl e, f)
                | Some (Partial n e) \<Rightarrow> (Inl e, fs_put k (FFile (overlay b (nat offset) (take n data))) f))
           | _ \<Rightarrow> (Inl ErrNotExist, f))"

definition file_call :: "'a fs_scheme \<Rightarrow> unit res \<times> 'a fs_scheme" where
  "file_call f = (case fs_pop f of (Some x, f1) \<Rightarrow> (Inl (fault_err x), f1) | (None, f1) \<Rightarrow> (Inr (), f1))"

text \<open>Whether \<open>os.OpenFile\<close> finds a file to write to.\<close>

definition can_open :: "string \<Rightarrow> 'a fs_scheme \<Rightarrow> bool" where
  "can_open p f = (case os_Stat p f of Inr (FFile _) \<Rightarrow> True | _ \<Rightarrow> False)"

text \<open>\<open>utils.SHA256File\<close>: the loop ends at any error of \<open>Read\<close>, also one that
  is not the end of the file, and the hash of what was read so far is returned.\<close>

definition SHA256File :: "(bytes \<Rightarrow> string) \<Rightarrow> string \<Rightarrow> 'a fs_scheme \<Rightarrow> string res \<times> 'a fs_scheme" where
  "SHA256File sha p f0 =
     (case fs_pop f0 of (flt, f) \<Rightarrow>
        (case os_Stat p f of
           Inl e \<Rightarrow> (Inl (Wrapf ''failed to open file'' e), f)
         | Inr FDir \<Rightarrow> (Inr (sha []), f)
         | Inr (FFile b) \<Rightarrow>
             (Inr (sha (case flt of None \<Rightarrow> b | Some (NoEffect e) \<Rightarrow> [] | Some (Partial n e) \<Rightarrow> take n b)), f)))"

definition rm :: "string \<Rightarrow> 'a fs_scheme \<Rightarrow> 'a fs_scheme" where
  "rm p f = snd (os_Remove p f)"

section \<open>Sessions\<close>

record UploadSession =
  us_SessionID :: string
  us_FileID :: string
  us_FilePath :: string
  us_FileName :: string
  us_TotalSize :: int
  us_UploadedSize :: int
  us_Hash :: string
  us_ClientID :: string
  us_Status :: string
  us_CreatedAt :: string
  us_UpdatedAt :: string
  us_chunkCount :: int
  us_tempFile :: bool
  us_hashWriter :: "bytes option"
    \<comment> \<open>what was written to the hash so far\<close>
  us_lastOffset :: int
  us_hashValid :: bool
  us_closed :: bool

record DownloadSession =
  ds_SessionID :: string
  ds_FileID :: string
  ds_FilePath :: string
  ds_TotalSize :: int
  ds_DownloadedSize :: int
  ds_ClientID :: string
  ds_Status :: string
  ds_CreatedAt :: string
  ds_UpdatedAt :: string
  ds_chunkCount :: int
  ds_decryptedTempPath :: string
  ds_decryptedFile :: bool

record UploadPart =
  up_PartNumber :: int
  up_Offset :: int
  up_Size :: int
  up_UploadedSize :: int
  up_Hash :: string
  up_Status :: string

record MultipartUploadSession =
  ms_SessionID :: string
  ms_FilePath :: string
  ms_FileName :: string
  ms_TotalSize :: int
  ms_Hash :: string
  ms_ClientID :: string
  ms_Status :: string
  ms_CreatedAt :: string
  ms_UpdatedAt :: string
  ms_tempFile :: bool
  ms_parts :: "(int \<times> UploadPart) list"
  ms_uploadedSize :: int
  ms_chunkCount :: int
  ms_closed :: bool
  ms_coveredRanges :: "byteRange list"

text \<open>The map the session store gets for a multipart upload; nothing reads it back.\<close>

record multipart_info =
  mi_session_id :: string
  mi_file_path :: string
  mi_file_name :: string
  mi_total_size :: int
  mi_hash :: string
  mi_client_id :: string
  mi_status :: string
  mi_created_at :: string

text \<open>What JSON keeps of a session: the exported fields.\<close>

definition exported :: "UploadSession \<Rightarrow> UploadSession" where
  "exported s = s\<lparr>us_chunkCount := 0, us_tempFile := False, us_hashWriter := None, us_lastOffset := 0,
                  us_hashValid := False, us_closed := False\<rparr>"

definition ds_exported :: "DownloadSession \<Rightarrow> DownloadSession" where
  "ds_exported s = s\<lparr>ds_chunkCount := 0, ds_decryptedTempPath := [], ds_decryptedFile := False\<rparr>"

section \<open>The service\<close>

record ('a, 'ss, 'l) FileTransferService =
  ts_storage :: "'a fs_scheme StorageAdapter"
  ts_tempDir :: string
  ts_upStore :: "('ss, UploadSession) SessionStore"
  ts_downStore :: "('ss, DownloadSession) SessionStore"
  ts_multiStore :: "('ss, multipart_info) SessionStore"
  ts_distLock :: "'l DistributedLock"
  ts_cryptoSvc :: "CryptoService option"
  ts_maxSessions :: int

record ('a, 'ss, 'l) xfer =
  xf_fs :: "'a fs_scheme"
  xf_db :: db
  xf_uploads :: "string \<rightharpoonup> UploadSession"
  xf_downloads :: "string \<rightharpoonup> DownloadSession"
  xf_multi :: "string \<rightharpoonup> MultipartUploadSession"
  xf_count :: int
  xf_store :: 'ss
  xf_lock :: 'l

record 'l xf_env =
  xe_fm :: "'l fm_env"
    \<comment> \<open>lock attempts, clock, UUID of the record, SHA-256\<close>
  xe_now :: gotime
  xe_sid :: string
    \<comment> \<open>the fresh session id\<close>
  xe_gcm :: gcm
  xe_rnd :: "bytes option"
  xe_parse :: "string \<Rightarrow> gotime res"

abbreviation xe_sha :: "'l xf_env \<Rightarrow> bytes \<Rightarrow> string" where "xe_sha env \<equiv> fe_sha (xe_fm env)"
abbreviation xe_ts :: "'l xf_env \<Rightarrow> string" where "xe_ts env \<equiv> fe_ts (xe_fm env)"

abbreviation twoHours :: int where "twoHours \<equiv> 7200 * Dist_Lock.second"

definition tempPath :: "('a, 'ss, 'l) FileTransferService \<Rightarrow> string \<Rightarrow> string" where
  "tempPath svc sid = path_Join [ts_tempDir svc, sid @ ''.tmp'']"

text \<open>The constructors: the directory is named after the clock, and a failure to create it is only
  logged.\<close>

definition NewFileTransferServiceWithRedis ::
  "'a fs_scheme StorageAdapter \<Rightarrow> string \<Rightarrow> ('ss, UploadSession) SessionStore \<Rightarrow> ('ss, DownloadSession) SessionStore
    \<Rightarrow> ('ss, multipart_info) SessionStore \<Rightarrow> 'l DistributedLock \<Rightarrow> 'a fs_scheme
    \<Rightarrow> ('a, 'ss, 'l) FileTransferService \<times> 'a fs_scheme"
where
  "NewFileTransferServiceWithRedis st nanos us ds ms dl f =
     (let tempDir = path_Join [fs_tmp f, ''fsserver-uploads-'' @ nanos]
      in (\<lparr>ts_storage = st, ts_tempDir = tempDir, ts_upStore = us, ts_downStore = ds, ts_multiStore = ms,
           ts_distLock = dl, ts_cryptoSvc = None, ts_maxSessions = 1000\<rparr>, snd (os_MkdirAll tempDir f)))"

definition NewFileTransferService ::
  "'a fs_scheme StorageAdapter \<Rightarrow> string \<Rightarrow> UploadSession codec \<Rightarrow> DownloadSession codec \<Rightarrow> multipart_info codec
    \<Rightarrow> 'a fs_scheme \<Rightarrow> ('a, MemorySessionStore, locks) FileTransferService \<times> 'a fs_scheme"
where
  "NewFileTransferService st nanos uc dc mc f =
     NewFileTransferServiceWithRedis st nanos (MemStore uc) (MemStore dc) (MemStore mc) LocalDistributedLock f"

definition SetCryptoService ::
  "CryptoService \<Rightarrow> ('a, 'ss, 'l) FileTransferService \<Rightarrow> ('a, 'ss, 'l) FileTransferService"
where
  "SetCryptoService cs svc = svc\<lparr>ts_cryptoSvc := Some cs\<rparr>"

definition SetTempDir ::
  "string \<Rightarrow> 'a fs_scheme \<Rightarrow> ('a, 'ss, 'l) FileTransferService
    \<Rightarrow> unit res \<times> 'a fs_scheme \<times> ('a, 'ss, 'l) FileTransferService"
where
  "SetTempDir dir f svc =
     (if dir = [] then (Inr (), f, svc)
      else case os_MkdirAll dir f of
        (Inl e, f1) \<Rightarrow> (Inl (Wrapf ''failed to create configured temp directory'' e), f1, svc)
      | (Inr _, f1) \<Rightarrow> (Inr (), f1, svc\<lparr>ts_tempDir := dir\<rparr>))"

subsection \<open>Session slots\<close>

definition acquireSessionSlot :: "('a, 'ss, 'l) FileTransferService \<Rightarrow> ('a, 'ss, 'l) xfer \<Rightarrow> bool \<times> ('a, 'ss, 'l) xfer" where
  "acquireSessionSlot svc w =
     (let count = xf_count w + 1
      in if count > ts_maxSessions svc then (False, w) else (True, w\<lparr>xf_count := count\<rparr>))"

definition releaseSessionSlot :: "('a, 'ss, 'l) xfer \<Rightarrow> ('a, 'ss, 'l) xfer" where
  "releaseSessionSlot w = w\<lparr>xf_count := xf_count w - 1\<rparr>"

definition end_upload :: "string \<Rightarrow> ('a, 'ss, 'l) xfer \<Rightarrow> ('a, 'ss, 'l) xfer" where
  "end_upload sid w = releaseSessionSlot (w\<lparr>xf_uploads := (xf_uploads w)(sid := None)\<rparr>)"

definition end_multi :: "string \<Rightarrow> ('a, 'ss, 'l) xfer \<Rightarrow> ('a, 'ss, 'l) xfer" where
  "end_multi sid w = releaseSessionSlot (w\<lparr>xf_multi := (xf_multi w)(sid := None)\<rparr>)"

section \<open>Upload sessions\<close>

definition CreateUploadSession ::
  "('a, 'ss, 'l) FileTransferService \<Rightarrow> 'l xf_env \<Rightarrow> string \<Rightarrow> string \<Rightarrow> int \<Rightarrow> string \<Rightarrow> string
    \<Rightarrow> ('a, 'ss, 'l) xfer \<Rightarrow> string res \<times> ('a, 'ss, 'l) xfer"
where
  "CreateUploadSession svc env filePath fileName totalSize clientID hash w0 =
     (case acquireSessionSlot svc w0 of
        (False, w) \<Rightarrow> (Inl (Errorf ''maximum number of concurrent upload sessions reached''), w)
      | (True, w) \<Rightarrow>
     (let sid = xe_sid env; now = xe_ts env; tp = tempPath svc sid
      in case os_Create tp (xf_fs w) of
        (Inl e, f1) \<Rightarrow> (Inl (Wrapf ''failed to create temp file'' e), releaseSessionSlot (w\<lparr>xf_fs := f1\<rparr>))
      | (Inr _, f1) \<Rightarrow>
     (case (if totalSize > 0 then file_Truncate tp totalSize f1 else (Inr (), f1)) of
        (Inl e, f2) \<Rightarrow>
          (Inl (Wrapf ''failed to pre-allocate temp file'' e), releaseSessionSlot (w\<lparr>xf_fs := rm tp f2\<rparr>))
      | (Inr _, f2) \<Rightarrow>
          let session = \<lparr>us_SessionID = sid, us_FileID = [], us_FilePath = NormalizePath filePath,
                us_FileName = fileName, us_TotalSize = totalSize, us_UploadedSize = 0, us_Hash = hash,
                us_ClientID = clientID, us_Status = ''active'', us_CreatedAt = now, us_UpdatedAt = now,
                us_chunkCount = 0, us_tempFile = True,
                us_hashWriter = (if hash \<noteq> [] then Some [] else None), us_lastOffset = 0,
                us_hashValid = (hash \<noteq> []), us_closed = False\<rparr>
          in (Inr sid, w\<lparr>xf_fs := f2, xf_uploads := (xf_uploads w)(sid \<mapsto> session),
                xf_store := snd (ss_Set (ts_upStore svc) (xe_now env) ''upload'' sid (exported session) twoHours (xf_store w))\<rparr>))))"

text \<open>\<open>uploadSessions.Load\<close>, and the restoration from the session store when the process
  does not know the session.\<close>

definition load_upload ::
  "('a, 'ss, 'l) FileTransferService \<Rightarrow> 'l xf_env \<Rightarrow> string \<Rightarrow> ('a, 'ss, 'l) xfer
    \<Rightarrow> UploadSession option \<times> ('a, 'ss, 'l) xfer"
where
  "load_upload svc env sid w =
     (case xf_uploads w sid of
        Some s \<Rightarrow> (Some s, w)
      | None \<Rightarrow>
          (case ss_Get (ts_upStore svc) (xe_now env) ''upload'' sid (xf_store w) of
             (Inl e, st) \<Rightarrow> (None, w\<lparr>xf_store := st\<rparr>)
           | (Inr s0, st) \<Rightarrow>
               let s = s0\<lparr>us_tempFile := can_open (tempPath svc sid) (xf_fs w), us_hashValid := False,
                          us_hashWriter := None\<rparr>
               in (Some s, w\<lparr>xf_store := st, xf_uploads := (xf_uploads w)(sid \<mapsto> s)\<rparr>)))"

text \<open>The hash is continued while the chunks arrive in order, and given up otherwise.\<close>

definition feed_hash :: "bytes \<Rightarrow> int \<Rightarrow> UploadSession \<Rightarrow> UploadSession" where
  "feed_hash data offset s =
     (case us_hashWriter s of
        None \<Rightarrow> s
      | Some h \<Rightarrow>
          if us_hashValid s then
            (if offset = us_lastOffset s
             then s\<lparr>us_hashWriter := Some (h @ data), us_lastOffset := wrap64 (offset + int (length data))\<rparr>
             else s\<lparr>us_hashValid := False\<rparr>)
          else s)"

definition chunk_body ::
  "('a, 'ss, 'l) FileTransferService \<Rightarrow> 'l xf_env \<Rightarrow> string \<Rightarrow> UploadSession \<Rightarrow> bytes \<Rightarrow> int
    \<Rightarrow> ('a, 'ss, 'l) xfer \<Rightarrow> unit res \<times> ('a, 'ss, 'l) xfer"
where
  "chunk_body svc env sid s data offset w =
     (if us_closed s then (Inl (Errorf ''upload session is closed''), w)
      else if offset < 0 then (Inl (Errorf ''invalid offset''), w)
      else if wrap64 (offset + int (length data)) > us_TotalSize s then (Inl (Errorf ''write beyond file size''), w)
      else if \<not> us_tempFile s \<and> \<not> can_open (tempPath svc sid) (xf_fs w)
        then (Inl (Wrapf ''failed to open temp file'' ErrNotExist), w)
      else case file_WriteAt (tempPath svc sid) data offset (xf_fs w) of
        (Inl e, f1) \<Rightarrow> (Inl (Wrapf ''failed to write chunk'' e), w\<lparr>xf_fs := f1\<rparr>)
      | (Inr _, f1) \<Rightarrow>
          let s1 = feed_hash data offset s;
              s2 = s1\<lparr>us_UploadedSize := wrap64 (us_UploadedSize s1 + int (length data)),
                      us_chunkCount := wrap64 (us_chunkCount s1 + 1)\<rparr>
          in if us_chunkCount s2 mod 8 = 0 then
               let s3 = s2\<lparr>us_UpdatedAt := xe_ts env\<rparr>
               in (Inr (), w\<lparr>xf_fs := f1, xf_uploads := (xf_uploads w)(sid \<mapsto> s3),
                     xf_store := snd (ss_Set (ts_upStore svc) (xe_now env) ''upload'' sid (exported s3) twoHours (xf_store w))\<rparr>)
             else (Inr (), w\<lparr>xf_fs := f1, xf_uploads := (xf_uploads w)(sid \<mapsto> s2)\<rparr>))"

definition UploadChunk ::
  "('a, 'ss, 'l) FileTransferService \<Rightarrow> 'l xf_env \<Rightarrow> string \<Rightarrow> bytes \<Rightarrow> int
    \<Rightarrow> ('a, 'ss, 'l) xfer \<Rightarrow> unit res \<times> ('a, 'ss, 'l) xfer"
where
  "UploadChunk svc env sid data offset w0 =
     (case load_upload svc env sid w0 of
        (None, w) \<Rightarrow> (Inl (Errorf ''upload session not found''), w)
      | (Some s, w) \<Rightarrow>
          (case AcquireLock (ts_distLock svc) (fe_acq (xe_fm env)) (''upload:'' @ sid) (10 * Dist_Lock.second) 10
                  (100 * millisecond) (xf_lock w) of
             (Inl e, l1, ds) \<Rightarrow> (Inl (Wrapf ''failed to acquire session lock'' e), w\<lparr>xf_lock := l1\<rparr>)
           | (Inr token, l1, ds) \<Rightarrow>
               (case chunk_body svc env sid s data offset (w\<lparr>xf_lock := l1\<rparr>) of
                  (r, w1) \<Rightarrow> (r, w1\<lparr>xf_lock :=
                    snd (dl_Unlock (ts_distLock svc) (fe_unlock_now (xe_fm env)) (''upload:'' @ sid) token (xf_lock w1))\<rparr>))))"

section \<open>Completing an upload\<close>

text \<open>Encryption of the temp file, the same for both kinds of upload: the file to store and the
  hash to record.\<close>

definition encrypt_temp ::
  "('a, 'ss, 'l) FileTransferService \<Rightarrow> 'l xf_env \<Rightarrow> string \<Rightarrow> string \<Rightarrow> 'a fs_scheme
    \<Rightarrow> (string \<times> string) res \<times> 'a fs_scheme"
where
  "encrypt_temp svc env tp hash f =
     (case ts_cryptoSvc svc of
        None \<Rightarrow> (Inr (tp, hash), f)
      | Some cs \<Rightarrow>
          if \<not> cs_enabled cs then (Inr (tp, hash), f)
          else let enc = tp @ ''.enc''
            in (case EncryptFile (xe_gcm env) (xe_rnd env) cs tp enc f of
                  (Inl e, f1) \<Rightarrow> (Inl (Wrapf ''failed to encrypt file'' e), rm tp f1)
                | (Inr _, f1) \<Rightarrow>
                    (case SHA256File (xe_sha env) enc (rm tp f1) of
                       (Inl e, f2) \<Rightarrow> (Inl (Wrapf ''failed to compute encrypted hash'' e), rm enc f2)
                     | (Inr h, f2) \<Rightarrow> (Inr (enc, h), f2))))"

text \<open>The record of the stored file: updated when there is one, else created, and then the
  object is removed when that fails.\<close>

definition commit_meta ::
  "'s StorageAdapter \<Rightarrow> 'l fm_env \<Rightarrow> string \<Rightarrow> string \<Rightarrow> int \<Rightarrow> string \<Rightarrow> 's \<times> db \<Rightarrow> FileMetadata res \<times> 's \<times> db"
where
  "commit_meta st env path name sz hash sd =
     (case File_GetByPath path (snd sd) of
        (Inr (Some existing), d1) \<Rightarrow>
          let meta = existing\<lparr>fm_Size := sz, fm_Hash := hash, fm_UpdatedAt := fe_ts env, fm_IsDeleted := False\<rparr>
          in (case File_Update meta d1 of
                (Inl e, d2) \<Rightarrow> (Inl (Wrapf ''failed to update file metadata'' e), fst sd, d2)
              | (Inr _, d2) \<Rightarrow> (Inr meta, fst sd, d2))
      | (_, d1) \<Rightarrow>
          let meta = \<lparr>fm_ID = fe_uuid env, fm_Path = path, fm_Name = name, fm_Size = sz, fm_Hash = hash,
                fm_StorageType = sa_StorageType st, fm_StorageLocation = [], fm_CreatedAt = fe_ts env,
                fm_UpdatedAt = fe_ts env, fm_IsDeleted = False\<rparr>
          in (case File_Create meta d1 of
                (Inl e, d2) \<Rightarrow> (Inl (Wrapf ''failed to create file metadata'' e), snd (sa_Remove st path (fst sd)), d2)
              | (Inr _, d2) \<Rightarrow> (Inr meta, fst sd, d2)))"

text \<open>From the lock on the file to the record: the part both completions share.  The lock is
  released when the caller returns.  \<open>clean\<close> says whether a failing record also removes the
  temp file, as only the multipart completion does.\<close>

definition store_temp ::
  "('a, 'ss, 'l) FileTransferService \<Rightarrow> 'l xf_env \<Rightarrow> bool \<Rightarrow> string \<Rightarrow> string \<Rightarrow> int \<Rightarrow> string \<Rightarrow> string
    \<Rightarrow> ('a, 'ss, 'l) xfer \<Rightarrow> FileMetadata res \<times> ('a, 'ss, 'l) xfer"
where
  "store_temp svc env clean path name sz tp hash w =
     (case AcquireLockWithRenewal (ts_distLock svc) (fe_acq (xe_fm env)) Background 0 (fe_unlock_now (xe_fm env))
             (''file:'' @ path) (10 * Dist_Lock.second) 30 (50 * millisecond) (xf_lock w) of
        (Inl e, l1) \<Rightarrow> (Inl (Wrapf ''failed to acquire lock for file'' e), w\<lparr>xf_lock := l1, xf_fs := rm tp (xf_fs w)\<rparr>)
      | (Inr (token, rn), l1) \<Rightarrow>
     (let l2 = snd (dl_Unlock (ts_distLock svc) (fe_unlock_now (xe_fm env)) (''file:'' @ path) token l1)
      in case sa_WriteFromTempFile (ts_storage svc) path tp (xf_fs w) of
        (Inl e, f1) \<Rightarrow> (Inl (Wrapf ''failed to write file from temp'' e), w\<lparr>xf_lock := l2, xf_fs := rm tp f1\<rparr>)
      | (Inr _, f1) \<Rightarrow>
          (case commit_meta (ts_storage svc) (xe_fm env) path name sz hash (f1, xf_db w) of
             (Inl e, f2, d2) \<Rightarrow> (Inl e, w\<lparr>xf_lock := l2, xf_fs := (if clean then rm tp f2 else f2), xf_db := d2\<rparr>)
           | (Inr m, f2, d2) \<Rightarrow> (Inr m, w\<lparr>xf_lock := l2, xf_fs := rm tp f2, xf_db := d2\<rparr>))))"

record CompleteUploadResult =
  cu_FileID :: string
  cu_HashProvided :: bool
  cu_HashVerified :: bool
  cu_UploadedSize :: int
  cu_StorageType :: string

text \<open>Sync and close of the temp file; a failing close leaves the file.\<close>

definition close_temp :: "UploadSession \<Rightarrow> string \<Rightarrow> 'a fs_scheme \<Rightarrow> unit res \<times> 'a fs_scheme" where
  "close_temp s tp f =
     (if us_tempFile s then
        (case file_call f of
           (Inl e, f1) \<Rightarrow> (Inl (Wrapf ''failed to sync temp file'' e), rm tp f1)
         | (Inr _, f1) \<Rightarrow>
             (case file_call f1 of
                (Inl e, f2) \<Rightarrow> (Inl (Wrapf ''failed to close temp file'' e), f2)
              | (Inr _, f2) \<Rightarrow> (Inr (), f2)))
      else (Inr (), f))"

text \<open>Verification of the hash the client gave, if any: the incremental hash when it is valid,
  else the hash of the temp file.\<close>

definition check_hash :: "'l xf_env \<Rightarrow> UploadSession \<Rightarrow> string \<Rightarrow> 'a fs_scheme \<Rightarrow> bool res \<times> 'a fs_scheme" where
  "check_hash env s tp f =
     (if us_Hash s = [] then (Inr False, f)
      else let verdict = (\<lambda>h f1. if h \<noteq> us_Hash s then (Inl (Errorf ''hash mismatch''), rm tp f1) else (Inr True, f1))
        in (case us_hashWriter s of
              Some h \<Rightarrow>
                if us_hashValid s then verdict (xe_sha env h) f
                else (case SHA256File (xe_sha env) tp f of
                  (Inl e, f1) \<Rightarrow> (Inl (Wrapf ''failed to compute hash'' e), rm tp f1)
                | (Inr h, f1) \<Rightarrow> verdict h f1)
            | None \<Rightarrow>
                (case SHA256File (xe_sha env) tp f of
                  (Inl e, f1) \<Rightarrow> (Inl (Wrapf ''failed to compute hash'' e), rm tp f1)
                | (Inr h, f1) \<Rightarrow> verdict h f1)))"

definition CompleteUpload ::
  "('a, 'ss, 'l) FileTransferService \<Rightarrow> 'l xf_env \<Rightarrow> string \<Rightarrow> ('a, 'ss, 'l) xfer
    \<Rightarrow> CompleteUploadResult res \<times> ('a, 'ss, 'l) xfer"
where
  "CompleteUpload svc env sid w00 =
     (case load_upload svc env sid w00 of
        (None, w0) \<Rightarrow> (Inl (Errorf ''upload session not found''), w0)
      | (Some s, w0) \<Rightarrow>
     (if us_UploadedSize s \<noteq> us_TotalSize s then (Inl (Errorf ''upload incomplete''), w0)
      else let tp = tempPath svc sid; w = w0\<lparr>xf_uploads := (xf_uploads w0)(sid \<mapsto> s\<lparr>us_closed := True\<rparr>)\<rparr>
      in case close_temp s tp (xf_fs w) of
        (Inl e, f1) \<Rightarrow> (Inl e, end_upload sid (w\<lparr>xf_fs := f1\<rparr>))
      | (Inr _, f1) \<Rightarrow>
     (case check_hash env s tp f1 of
        (Inl e, f2) \<Rightarrow> (Inl e, end_upload sid (w\<lparr>xf_fs := f2\<rparr>))
      | (Inr verified, f2) \<Rightarrow>
     (case encrypt_temp svc env tp (us_Hash s) f2 of
        (Inl e, f3) \<Rightarrow> (Inl e, end_upload sid (w\<lparr>xf_fs := f3\<rparr>))
      | (Inr (stp, shash), f3) \<Rightarrow>
     (case store_temp svc env False (us_FilePath s) (us_FileName s) (us_TotalSize s) stp shash (w\<lparr>xf_fs := f3\<rparr>) of
        (Inl e, w4) \<Rightarrow> (Inl e, end_upload sid w4)
      | (Inr meta, w4) \<Rightarrow>
          (Inr \<lparr>cu_FileID = fm_ID meta, cu_HashProvided = (us_Hash s \<noteq> []), cu_HashVerified = verified,
                cu_UploadedSize = us_TotalSize s, cu_StorageType = sa_StorageType (ts_storage svc)\<rparr>,
           let w5 = end_upload sid w4
           in w5\<lparr>xf_store := snd (ss_Delete (ts_upStore svc) ''upload'' sid (xf_store w5))\<rparr>))))))"

definition AbortUpload ::
  "('a, 'ss, 'l) FileTransferService \<Rightarrow> string \<Rightarrow> ('a, 'ss, 'l) xfer \<Rightarrow> unit res \<times> ('a, 'ss, 'l) xfer"
where
  "AbortUpload svc sid w =
     (case xf_uploads w sid of
        None \<Rightarrow> (Inl (Errorf ''upload session not found''), w)
      | Some s \<Rightarrow>
          (let w1 = end_upload sid w
           in (Inr (), w1\<lparr>xf_fs := rm (tempPath svc sid) (xf_fs w1),
                 xf_store := snd (ss_Delete (ts_upStore svc) ''upload'' sid (xf_store w1))\<rparr>)))"

definition GetUploadSession ::
  "('a, 'ss, 'l) FileTransferService \<Rightarrow> 'l xf_env \<Rightarrow> string \<Rightarrow> ('a, 'ss, 'l) xfer
    \<Rightarrow> UploadSession res \<times> ('a, 'ss, 'l) xfer"
where
  "GetUploadSession svc env sid w =
     (case xf_uploads w sid of
        Some s \<Rightarrow> (Inr s, w)
      | None \<Rightarrow>
          (case ss_Get (ts_upStore svc) (xe_now env) ''upload'' sid (xf_store w) of
             (Inr s, st) \<Rightarrow> (Inr s, w\<lparr>xf_store := st\<rparr>)
           | (Inl e, st) \<Rightarrow> (Inl (Errorf ''upload session not found''), w\<lparr>xf_store := st\<rparr>)))"

definition GetUploadProgress :: "string \<Rightarrow> ('a, 'ss, 'l) xfer \<Rightarrow> int" where
  "GetUploadProgress sid w = (case xf_uploads w sid of None \<Rightarrow> 0 | Some s \<Rightarrow> us_UploadedSize s)"

section \<open>Download sessions\<close>

text \<open>The decrypted copy of an encrypted file: its path and size.\<close>

definition decrypt_copy ::
  "('a, 'ss, 'l) FileTransferService \<Rightarrow> 'l xf_env \<Rightarrow> CryptoService \<Rightarrow> string \<Rightarrow> string \<Rightarrow> 'a fs_scheme
    \<Rightarrow> (string \<times> int option) res \<times> 'a fs_scheme"
where
  "decrypt_copy svc env cs sid path f =
     (let encTempPath = path_Join [ts_tempDir svc, sid @ ''.enc'']; decTempPath = path_Join [ts_tempDir svc, sid @ ''.dec'']
      in case os_Create encTempPath f of
        (Inl e, f1) \<Rightarrow> (Inl (Wrapf ''failed to create temp file for encrypted data'' e), f1)
      | (Inr _, f1) \<Rightarrow>
     (case sa_OpenReader (ts_storage svc) path f1 of
        (Inl e, f2) \<Rightarrow> (Inl (Wrapf ''failed to open encrypted file from storage'' e), rm encTempPath f2)
      | (Inr rd, f2) \<Rightarrow>
     (case file_WriteAt encTempPath (rd_data rd) 0 f2 of
        (Inl e, f3) \<Rightarrow> (Inl (Wrapf ''failed to stream encrypted file'' e), rm encTempPath f3)
      | (Inr _, f3) \<Rightarrow>
     (case rd_err rd of
        Some e \<Rightarrow> (Inl (Wrapf ''failed to stream encrypted file'' e), rm encTempPath f3)
      | None \<Rightarrow>
     (case DecryptFileStreaming (xe_gcm env) cs encTempPath decTempPath f3 of
        (Inl e, f4) \<Rightarrow> (Inl (Wrapf ''failed to decrypt file'' e), rm encTempPath f4)
      | (Inr _, f4) \<Rightarrow>
     (let f5 = rm encTempPath f4
      in case os_Stat decTempPath f5 of
        Inl e \<Rightarrow> (Inl (Wrapf ''failed to open decrypted temp file'' e), rm decTempPath f5)
      | Inr (FFile b) \<Rightarrow> (Inr (decTempPath, Some (int (length b))), f5)
      | Inr FDir \<Rightarrow> (Inr (decTempPath, Some (fs_dirsize f5)), f5)))))))"

definition CreateDownloadSession ::
  "('a, 'ss, 'l) FileTransferService \<Rightarrow> 'l xf_env \<Rightarrow> string \<Rightarrow> string \<Rightarrow> ('a, 'ss, 'l) xfer
    \<Rightarrow> string res \<times> ('a, 'ss, 'l) xfer"
where
  "CreateDownloadSession svc env filePath clientID w0 =
     (let path = NormalizePath filePath; sid = xe_sid env; now = xe_ts env
      in case File_GetByPath path (xf_db w0) of
        (Inl e, d1) \<Rightarrow> (Inl (Wrapf ''failed to get file metadata'' e), w0\<lparr>xf_db := d1\<rparr>)
      | (Inr None, d1) \<Rightarrow> (Inl (Errorf ''file not found''), w0\<lparr>xf_db := d1\<rparr>)
      | (Inr (Some meta), d1) \<Rightarrow>
     (let w = w0\<lparr>xf_db := d1\<rparr>;
          session = \<lparr>ds_SessionID = sid, ds_FileID = fm_ID meta, ds_FilePath = path, ds_TotalSize = fm_Size meta,
             ds_DownloadedSize = 0, ds_ClientID = clientID, ds_Status = ''active'', ds_CreatedAt = now, ds_UpdatedAt = now,
             ds_chunkCount = 0, ds_decryptedTempPath = [], ds_decryptedFile = False\<rparr>;
          finish = (\<lambda>s f1. (Inr sid, w\<lparr>xf_fs := f1, xf_downloads := (xf_downloads w)(sid \<mapsto> s),
             xf_store := snd (ss_Set (ts_downStore svc) (xe_now env) ''download'' sid (ds_exported s) twoHours (xf_store w))\<rparr>))
      in case ts_cryptoSvc svc of
        None \<Rightarrow> finish session (xf_fs w)
      | Some cs \<Rightarrow>
          if \<not> cs_enabled cs then finish session (xf_fs w)
          else (case decrypt_copy svc env cs sid path (xf_fs w) of
             (Inl e, f1) \<Rightarrow> (Inl e, w\<lparr>xf_fs := f1\<rparr>)
           | (Inr (dec, n), f1) \<Rightarrow>
               finish (session\<lparr>ds_decryptedTempPath := dec, ds_decryptedFile := True,
                 ds_TotalSize := (case n of None \<Rightarrow> ds_TotalSize session | Some k \<Rightarrow> k)\<rparr>) f1)))"

definition load_download ::
  "('a, 'ss, 'l) FileTransferService \<Rightarrow> 'l xf_env \<Rightarrow> string \<Rightarrow> ('a, 'ss, 'l) xfer
    \<Rightarrow> DownloadSession option \<times> ('a, 'ss, 'l) xfer"
where
  "load_download svc env sid w =
     (case xf_downloads w sid of
        Some s \<Rightarrow> (Some s, w)
      | None \<Rightarrow>
          (case ss_Get (ts_downStore svc) (xe_now env) ''download'' sid (xf_store w) of
             (Inl e, st) \<Rightarrow> (None, w\<lparr>xf_store := st\<rparr>)
           | (Inr s, st) \<Rightarrow> (Some s, w\<lparr>xf_store := st, xf_downloads := (xf_downloads w)(sid \<mapsto> s)\<rparr>)))"

text \<open>\<open>make([]byte, size)\<close> panics for a negative size; the panic is the error
  \<open>panic\<close>.\<close>

definition panic :: err where "panic = Ext ''panic''"

definition read_chunk ::
  "('a, 'ss, 'l) FileTransferService \<Rightarrow> DownloadSession \<Rightarrow> int \<Rightarrow> int \<Rightarrow> 'a fs_scheme \<Rightarrow> bytes res \<times> 'a fs_scheme"
where
  "read_chunk svc s sz offset f =
     (if ds_decryptedFile s then
        (if sz < 0 then (Inl panic, f)
         else case os_ReadFile (ds_decryptedTempPath s) f of
           (Inl e, f1) \<Rightarrow> (Inl (Wrapf ''failed to read decrypted chunk'' e), f1)
         | (Inr b, f1) \<Rightarrow> (Inr (take (nat sz) (drop (nat offset) b)), f1))
      else (case sa_ReadAt (ts_storage svc) (ds_FilePath s) sz offset f of
         (Inl e, f1) \<Rightarrow> (Inl (Wrapf ''failed to read file chunk'' e), f1)
       | (Inr b, f1) \<Rightarrow> (Inr b, f1)))"

definition DownloadChunk ::
  "('a, 'ss, 'l) FileTransferService \<Rightarrow> 'l xf_env \<Rightarrow> string \<Rightarrow> int \<Rightarrow> int \<Rightarrow> ('a, 'ss, 'l) xfer
    \<Rightarrow> bytes res \<times> ('a, 'ss, 'l) xfer"
where
  "DownloadChunk svc env sid sz offset w0 =
     (case load_download svc env sid w0 of
        (None, w) \<Rightarrow> (Inl (Errorf ''download session not found''), w)
      | (Some s, w) \<Rightarrow>
          if offset < 0 then (Inl (Errorf ''invalid offset''), w)
          else if offset \<ge> ds_TotalSize s then (Inl (Errorf ''offset beyond file size''), w)
          else (case read_chunk svc s sz offset (xf_fs w) of
             (Inl e, f1) \<Rightarrow> (Inl e, w\<lparr>xf_fs := f1\<rparr>)
           | (Inr data, f1) \<Rightarrow>
               let s1 = s\<lparr>ds_DownloadedSize := wrap64 (ds_DownloadedSize s + int (length data)),
                          ds_chunkCount := wrap64 (ds_chunkCount s + 1)\<rparr>
               in if ds_chunkCount s1 mod 8 = 0 then
                    let s2 = s1\<lparr>ds_UpdatedAt := xe_ts env\<rparr>
                    in (Inr data, w\<lparr>xf_fs := f1, xf_downloads := (xf_downloads w)(sid \<mapsto> s2),
                          xf_store := snd (ss_Set (ts_downStore svc) (xe_now env) ''download'' sid (ds_exported s2) twoHours (xf_store w))\<rparr>)
                  else (Inr data, w\<lparr>xf_fs := f1, xf_downloads := (xf_downloads w)(sid \<mapsto> s1)\<rparr>)))"

text \<open>\<open>CompleteDownload\<close> and \<open>AbortDownload\<close>: the session is forgotten and
  its decrypted copy removed; the status they set is on an object no one can reach any more.\<close>

definition end_download ::
  "('a, 'ss, 'l) FileTransferService \<Rightarrow> string \<Rightarrow> ('a, 'ss, 'l) xfer \<Rightarrow> unit res \<times> ('a, 'ss, 'l) xfer"
where
  "end_download svc sid w =
     (case xf_downloads w sid of
        None \<Rightarrow> (Inl (Errorf ''download session not found''), w)
      | Some s \<Rightarrow>
          (Inr (), w\<lparr>xf_fs := (if ds_decryptedTempPath s \<noteq> [] then rm (ds_decryptedTempPath s) (xf_fs w) else xf_fs w),
             xf_downloads := (xf_downloads w)(sid := None),
             xf_store := snd (ss_Delete (ts_downStore svc) ''download'' sid (xf_store w))\<rparr>))"

definition CompleteDownload ::
  "('a, 'ss, 'l) FileTransferService \<Rightarrow> string \<Rightarrow> ('a, 'ss, 'l) xfer \<Rightarrow> unit res \<times> ('a, 'ss, 'l) xfer"
where
  "CompleteDownload svc sid w = end_download svc sid w"

definition AbortDownload ::
  "('a, 'ss, 'l) FileTransferService \<Rightarrow> string \<Rightarrow> ('a, 'ss, 'l) xfer \<Rightarrow> unit res \<times> ('a, 'ss, 'l) xfer"
where
  "AbortDownload svc sid w = end_download svc sid w"

section \<open>Expired sessions\<close>

text \<open>\<open>sync.Map.Range\<close> visits the entries in no fixed order: the order is the argument
  \<open>keys\<close>.\<close>

definition expired_at :: "'l xf_env \<Rightarrow> gotime \<Rightarrow> string \<Rightarrow> bool" where
  "expired_at env expiry createdAt = (case xe_parse env createdAt of Inl _ \<Rightarrow> False | Inr t \<Rightarrow> t < expiry)"

definition cleanup_upload ::
  "('a, 'ss, 'l) FileTransferService \<Rightarrow> 'l xf_env \<Rightarrow> gotime \<Rightarrow> string \<Rightarrow> ('a, 'ss, 'l) xfer \<Rightarrow> ('a, 'ss, 'l) xfer"
where
  "cleanup_upload svc env expiry sid w =
     (case xf_uploads w sid of
        None \<Rightarrow> w
      | Some s \<Rightarrow>
          if expired_at env expiry (us_CreatedAt s) then
            let w1 = end_upload sid (w\<lparr>xf_fs := rm (tempPath svc sid) (xf_fs w)\<rparr>)
            in w1\<lparr>xf_store := snd (ss_Delete (ts_upStore svc) ''upload'' sid (xf_store w1))\<rparr>
          else w)"

definition cleanup_download ::
  "('a, 'ss, 'l) FileTransferService \<Rightarrow> 'l xf_env \<Rightarrow> gotime \<Rightarrow> string \<Rightarrow> ('a, 'ss, 'l) xfer \<Rightarrow> ('a, 'ss, 'l) xfer"
where
  "cleanup_download svc env expiry sid w =
     (case xf_downloads w sid of
        None \<Rightarrow> w
      | Some s \<Rightarrow> if expired_at env expiry (ds_CreatedAt s) then snd (end_download svc sid w) else w)"

definition cleanup_multi ::
  "('a, 'ss, 'l) FileTransferService \<Rightarrow> 'l xf_env \<Rightarrow> gotime \<Rightarrow> string \<Rightarrow> ('a, 'ss, 'l) xfer \<Rightarrow> ('a, 'ss, 'l) xfer"
where
  "cleanup_multi svc env expiry sid w =
     (case xf_multi w sid of
        None \<Rightarrow> w
      | Some s \<Rightarrow>
          if expired_at env expiry (ms_CreatedAt s) then
            let w1 = end_multi sid (w\<lparr>xf_fs := rm (tempPath svc sid) (xf_fs w)\<rparr>)
            in w1\<lparr>xf_store := snd (ss_Delete (ts_multiStore svc) ''multipart_upload'' sid (xf_store w1))\<rparr>
          else w)"

definition CleanupExpiredSessions ::
  "('a, 'ss, 'l) FileTransferService \<Rightarrow> 'l xf_env \<Rightarrow> int \<Rightarrow> string list \<Rightarrow> string list \<Rightarrow> string list
    \<Rightarrow> ('a, 'ss, 'l) xfer \<Rightarrow> ('a, 'ss, 'l) xfer"
where
  "CleanupExpiredSessions svc env maxAgeSeconds ukeys dkeys mkeys w =
     (let expiry = xe_now env - wrap64 (maxAgeSeconds * Dist_Lock.second)
      in fold (cleanup_multi svc env expiry) mkeys (fold (cleanup_download svc env expiry) dkeys
           (fold (cleanup_upload svc env expiry) ukeys w)))"


section \<open>Temp files on a working disk\<close>

text \<open>\<open>temp_is f p b\<close>: a working, well-formed file system on which the file \<open>p\<close> has
  the contents \<open>b\<close>.\<close>

definition temp_is :: "'a fs_scheme \<Rightarrow> string \<Rightarrow> bytes \<Rightarrow> bool" where
  "temp_is f p b \<longleftrightarrow> fs_tree f \<and> LS_calm f \<and> fs_get f (fs_key f p) = Some (FFile b)"

lemma fs_key_put [simp]: "fs_key (fs_put k n f) p = fs_key f p"
  by (simp add: fs_key_def)

lemma calm_put [simp]: "LS_calm (fs_put k n f) = LS_calm f"
  by (simp add: LS_calm_def)

lemma temp_key_ne: "temp_is f p b \<Longrightarrow> fs_key f p \<noteq> []"
  by (auto simp: temp_is_def fs_get_def)

lemma temp_put:
  assumes "temp_is f p b"
  shows "temp_is (fs_put (fs_key f p) (FFile c) f) p c"
proof -
  note ne = temp_key_ne [OF assms]
  have "fs_get f (butlast (fs_key f p)) = Some FDir"
    using fs_tree_parent [of f "fs_key f p" "FFile b"] assms ne by (simp add: temp_is_def)
  then have "fs_tree (fs_put (fs_key f p) (FFile c) f)"
    using assms ne by (intro fs_tree_put) (auto simp: temp_is_def)
  with assms ne show ?thesis by (simp add: temp_is_def)
qed

lemma temp_stat: "temp_is f p b \<Longrightarrow> os_Stat p f = Inr (FFile b)"
  using fs_tree_not_under [of f "fs_key f p" "FFile b"] by (simp add: temp_is_def os_Stat_def Let_def)

lemma temp_open: "temp_is f p b \<Longrightarrow> can_open p f"
  by (simp add: can_open_def temp_stat)

lemma temp_WriteAt:
  assumes "temp_is f p b"
  shows "file_WriteAt p data ofs f =
    (if ofs < 0 then (Inl EINVAL, f) else if max_int64 < ofs + int (length data) then (Inl EFBIG, f)
     else (Inr (), fs_put (fs_key f p) (FFile (overlay b (nat ofs) data)) f))"
  using assms by (simp add: file_WriteAt_def temp_is_def fs_pop_calm)

lemma temp_SHA256: "temp_is f p b \<Longrightarrow> SHA256File sha p f = (Inr (sha b), f)"
  using temp_stat [of f p b] by (simp add: SHA256File_def temp_is_def fs_pop_calm)

lemma temp_create:
  assumes "fs_tree f" "LS_calm f" "os_Create p f = (Inr (), f1)"
  shows "temp_is f1 p []"
proof -
  let ?k = "fs_key f p"
  have o: "open_check f ?k = None" and f1: "f1 = fs_put ?k (FFile []) f"
    using assms(2,3) by (auto simp: os_Create_def os_WriteFile_def fs_pop_calm Let_def split: option.splits)
  have ne: "?k \<noteq> []" and c: "\<not> under_file f ?k" "fs_get f (butlast ?k) \<noteq> None" "fs_get f ?k \<noteq> Some FDir"
    using o by (auto simp: open_check_def split: if_splits)
  have "\<not> is_file f (butlast ?k)"
  proof
    assume "is_file f (butlast ?k)"
    then have "under_file f ?k" unfolding under_file_def list_ex_iff
      using ne by (intro bexI [of _ "length ?k - 1"]) (auto simp: butlast_conv_take)
    with c(1) show False ..
  qed
  with c(2) have "fs_get f (butlast ?k) = Some FDir" using not_file_dir by fastforce
  with c(3) have "fs_tree (fs_put ?k (FFile []) f)" by (intro fs_tree_put assms ne) auto
  with assms(2) ne f1 show ?thesis by (simp add: temp_is_def)
qed

lemma temp_truncate:
  assumes "temp_is f p []" "0 \<le> n"
  shows "\<exists>f1. file_Truncate p n f = (Inr (), f1) \<and> temp_is f1 p (replicate (nat n) (CHR 0x00))"
  using assms temp_put [OF assms(1), of "replicate (nat n) (CHR 0x00)"]
  by (simp add: file_Truncate_def temp_is_def fs_pop_calm Let_def)

section \<open>The incremental hash\<close>

text \<open>What holds of a session and its temp file: the file has the announced size, and as long
  as the incremental hash is valid it has seen exactly the first bytes of the file, as many as
  were counted.\<close>

definition hash_inv :: "UploadSession \<Rightarrow> bytes \<Rightarrow> bool" where
  "hash_inv s b \<longleftrightarrow> 0 \<le> us_TotalSize s \<and> us_TotalSize s \<le> max_int64 \<and> int (length b) = us_TotalSize s \<and>
     (\<forall>h. us_hashWriter s = Some h \<and> us_hashValid s \<longrightarrow>
        h = take (length h) b \<and> us_lastOffset s = int (length h) \<and> us_UploadedSize s = int (length h))"

definition up_inv :: "('a, 'ss, 'l) FileTransferService \<Rightarrow> string \<Rightarrow> ('a, 'ss, 'l) xfer \<Rightarrow> bool" where
  "up_inv svc sid w \<longleftrightarrow> (\<exists>s b. xf_uploads w sid = Some s \<and> temp_is (xf_fs w) (tempPath svc sid) b \<and> hash_inv s b)"

lemma hash_inv_stamps [simp]:
  "hash_inv (s\<lparr>us_UpdatedAt := t\<rparr>) b = hash_inv s b" "hash_inv (s\<lparr>us_chunkCount := n\<rparr>) b = hash_inv s b"
  by (simp_all add: hash_inv_def)

lemma wrap64_small: "0 \<le> x \<Longrightarrow> x \<le> max_int64 \<Longrightarrow> wrap64 x = x"
  by (rule wrap64_nonneg_id) (simp_all add: max_int64_def)

lemma take_overlay:
  assumes "h = take (length h) b" "length h + length data \<le> length b"
  shows "take (length h + length data) (overlay b (length h) data) = h @ data"
proof (cases "data = []")
  case False
  have "take (length h) (b @ replicate (length h - length b) (CHR 0x00)) = h" using assms by simp
  with False show ?thesis by (simp add: overlay_def)
qed (use assms in \<open>simp add: overlay_def\<close>)

lemma hash_inv_feed:
  assumes i: "hash_inv s b" and o: "0 \<le> ofs" "ofs + int (length data) \<le> us_TotalSize s"
  shows "hash_inv ((feed_hash data ofs s)\<lparr>us_UploadedSize := wrap64 (us_UploadedSize s + int (length data))\<rparr>)
    (overlay b (nat ofs) data)"
proof -
  let ?s = "(feed_hash data ofs s)\<lparr>us_UploadedSize := wrap64 (us_UploadedSize s + int (length data))\<rparr>"
  have tot: "us_TotalSize ?s = us_TotalSize s" by (simp add: feed_hash_def split: option.splits)
  have len: "length (overlay b (nat ofs) data) = length b"
    using i o by (intro overlay_length_in) (auto simp: hash_inv_def)
  have "g = take (length g) (overlay b (nat ofs) data) \<and> us_lastOffset ?s = int (length g) \<and> us_UploadedSize ?s = int (length g)"
    if g: "us_hashWriter ?s = Some g" "us_hashValid ?s" for g
  proof -
    from g obtain h where h: "us_hashWriter s = Some h" "us_hashValid s" "ofs = us_lastOffset s" "g = h @ data"
      by (auto simp: feed_hash_def split: option.splits if_splits)
    have hi: "h = take (length h) b" "us_lastOffset s = int (length h)" "us_UploadedSize s = int (length h)"
      using i h by (auto simp: hash_inv_def)
    have le: "length h + length data \<le> length b" using i o h(3) hi(2) by (simp add: hash_inv_def)
    have w: "wrap64 (int (length h) + int (length data)) = int (length h) + int (length data)"
      using i o h(3) hi(2) by (intro wrap64_small) (auto simp: hash_inv_def)
    have "take (length g) (overlay b (nat ofs) data) = g" using take_overlay [OF hi(1) le] h(3,4) hi(2) by simp
    with h hi w show ?thesis by (simp add: feed_hash_def)
  qed
  with i len tot show ?thesis by (simp add: hash_inv_def)
qed

lemma chunk_body_inv:
  assumes "xf_uploads w sid = Some s" "temp_is (xf_fs w) (tempPath svc sid) b" "hash_inv s b"
  shows "up_inv svc sid (snd (chunk_body svc env sid s data ofs w))"
proof (cases "us_closed s \<or> ofs < 0 \<or> us_TotalSize s < wrap64 (ofs + int (length data))")
  case True
  then show ?thesis using assms by (auto simp: chunk_body_def up_inv_def)
next
  case False
  let ?tp = "tempPath svc sid"
  show ?thesis
  proof (cases "max_int64 < ofs + int (length data)")
    case True
    then show ?thesis using assms False temp_WriteAt [OF assms(2), of data ofs] temp_open [OF assms(2)]
      by (auto simp: chunk_body_def up_inv_def)
  next
    case small: False
    then have le: "ofs + int (length data) \<le> us_TotalSize s" using False wrap64_small [of "ofs + int (length data)"] by auto
    have wr: "file_WriteAt ?tp data ofs (xf_fs w) = (Inr (), fs_put (fs_key (xf_fs w) ?tp) (FFile (overlay b (nat ofs) data)) (xf_fs w))"
      using temp_WriteAt [OF assms(2), of data ofs] False small by simp
    note t = temp_put [OF assms(2), of "overlay b (nat ofs) data"]
    have us: "us_UploadedSize (feed_hash data ofs s) = us_UploadedSize s"
      "us_chunkCount (feed_hash data ofs s) = us_chunkCount s" "us_UpdatedAt (feed_hash data ofs s) = us_UpdatedAt s"
      by (simp_all add: feed_hash_def split: option.splits)
    have "0 \<le> ofs" using False by simp
    note hi = hash_inv_feed [OF assms(3) this le]
    from hi wr t False temp_open [OF assms(2)] us
    show ?thesis by (auto simp: chunk_body_def up_inv_def Let_def)
  qed
qed


lemma UploadChunk_inv:
  assumes "up_inv svc sid w"
  shows "up_inv svc sid (snd (UploadChunk svc env sid data ofs w))"
proof -
  from assms obtain s b where s: "xf_uploads w sid = Some s" "temp_is (xf_fs w) (tempPath svc sid) b" "hash_inv s b"
    by (auto simp: up_inv_def)
  have l: "load_upload svc env sid w = (Some s, w)" using s(1) by (simp add: load_upload_def)
  have "up_inv svc sid (snd (chunk_body svc env sid s data ofs (w\<lparr>xf_lock := l1\<rparr>)))" for l1
    by (rule chunk_body_inv) (use s in simp_all)
  with l s show ?thesis by (auto simp: UploadChunk_def up_inv_def split: prod.splits sum.splits) (metis snd_conv)+
qed

lemma CreateUploadSession_inv:
  assumes "fs_tree (xf_fs w)" "LS_calm (xf_fs w)" "0 \<le> tot" "tot \<le> max_int64"
    and "CreateUploadSession svc env path name tot client hash w = (Inr sid, w1)"
  shows "up_inv svc sid w1 \<and> sid = xe_sid env"
proof -
  let ?tp = "tempPath svc (xe_sid env)"
  obtain w0 where slot: "acquireSessionSlot svc w = (True, w0)" and fs: "xf_fs w0 = xf_fs w"
    using assms(5) by (auto simp: CreateUploadSession_def acquireSessionSlot_def Let_def split: if_splits)
  obtain c f1 where c: "os_Create ?tp (xf_fs w) = (c, f1)" by fastforce
  have ok: "c = Inr ()" using assms(5) slot fs c
    by (cases c) (simp_all add: CreateUploadSession_def Let_def)
  have t1: "temp_is f1 ?tp []" by (rule temp_create [OF assms(1,2) c [unfolded ok]])
  obtain f2 where f2: "(if tot > 0 then file_Truncate ?tp tot f1 else (Inr (), f1)) = (Inr (), f2)"
    "temp_is f2 ?tp (replicate (nat tot) (CHR 0x00))"
    using temp_truncate [OF t1 assms(3)] t1 assms(3) by (cases "tot > 0") auto
  have "sid = xe_sid env \<and> xf_fs w1 = f2 \<and> (\<exists>s. xf_uploads w1 (xe_sid env) = Some s \<and> us_TotalSize s = tot \<and> us_UploadedSize s = 0 \<and>
      us_lastOffset s = 0 \<and> (us_hashWriter s = None \<or> us_hashWriter s = Some []))"
    using assms(5) unfolding CreateUploadSession_def slot prod.case bool.case Let_def fs c ok sum.case f2(1) by auto
  then show ?thesis using assms(3,4) f2(2) unfolding up_inv_def hash_inv_def
    by (auto intro!: exI [of _ "replicate (nat tot) (CHR 0x00)"])
qed

text \<open>A sequence of chunk requests, each with its own environment, and the state after it.\<close>

fun run_chunks ::
  "('a, 'ss, 'l) FileTransferService \<Rightarrow> string \<Rightarrow> ('l xf_env \<times> bytes \<times> int) list \<Rightarrow> ('a, 'ss, 'l) xfer \<Rightarrow> ('a, 'ss, 'l) xfer"
where
  "run_chunks svc sid [] w = w"
| "run_chunks svc sid ((env, data, ofs) # cs) w = run_chunks svc sid cs (snd (UploadChunk svc env sid data ofs w))"

lemma run_chunks_inv: "up_inv svc sid w \<Longrightarrow> up_inv svc sid (run_chunks svc sid cs w)"
  by (induction cs arbitrary: w rule: list.induct) (auto simp: UploadChunk_inv split: prod.splits)

text \<open>The reference for \<open>check_hash\<close>: hash the whole file.\<close>

definition check_file_hash :: "'l xf_env \<Rightarrow> string \<Rightarrow> string \<Rightarrow> bytes \<Rightarrow> 'a fs_scheme \<Rightarrow> bool res \<times> 'a fs_scheme" where
  "check_file_hash env hash tp b f =
     (if hash = [] then (Inr False, f)
      else if xe_sha env b = hash then (Inr True, f) else (Inl (Errorf ''hash mismatch''), rm tp f))"

lemma check_hash_ref:
  assumes "temp_is f tp b" "hash_inv s b" "us_UploadedSize s = us_TotalSize s"
  shows "check_hash env s tp f = check_file_hash env (us_Hash s) tp b f"
proof (cases "us_hashWriter s")
  case None
  then show ?thesis using temp_SHA256 [OF assms(1)] by (auto simp: check_hash_def check_file_hash_def Let_def)
next
  case (Some h)
  have "h = b" if v: "us_hashValid s"
  proof -
    have "h = take (length h) b" "int (length h) = int (length b)"
      using assms(2,3) Some v by (auto simp: hash_inv_def)
    then show ?thesis by simp
  qed
  with Some show ?thesis using temp_SHA256 [OF assms(1)] by (auto simp: check_hash_def check_file_hash_def Let_def)
qed

section \<open>Storing a temp file\<close>

text \<open>On a working disk the local storage takes over a temp file from outside its root by
  renaming it.\<close>

lemma temp_rename:
  assumes r: "ok_root rootDir" and p: "safe_path p" and t: "temp_is f tp b"
    and out: "\<not> starts_with (root_elems rootDir) (fs_key f tp)"
  shows "(open_check f (fkey rootDir p) = None \<and>
      os_Rename tp (getFullPath rootDir p) f = (Inr (), move_tree (fs_key f tp) (fkey rootDir p) f)) \<or>
    (open_check f (fkey rootDir p) \<noteq> None \<and> (\<exists>e. os_Rename tp (getFullPath rootDir p) f = (Inl e, f)))"
proof -
  let ?k = "fs_key f tp" let ?k' = "fkey rootDir p"
  have kk: "fs_key f (getFullPath rootDir p) = ?k'" by (rule key_full [OF r p])
  have ne: "?k \<noteq> ?k'" using out by (auto simp: fkey_def starts_with_append)
  have pop: "fs_pop f = (None, f)" using t by (simp add: temp_is_def fs_pop_calm)
  have pre: "under_file f ?k'" if "starts_with ?k ?k'"
  proof -
    have tk: "take (length ?k) ?k' = ?k" using that by (simp add: starts_with_def)
    then have "length ?k \<noteq> length ?k'" "length ?k \<le> length ?k'" using ne by (metis order_refl take_all, metis length_take min.cobounded1)
    then have "length ?k < length ?k'" by simp
    moreover have "is_file f (take (length ?k) ?k')" using t tk by (simp add: temp_is_def is_file_def)
    ultimately show ?thesis unfolding under_file_def list_ex_iff by auto
  qed
  have "os_Rename tp (getFullPath rootDir p) f = (if under_file f ?k' then (Inl ENOTDIR, f)
      else if fs_get f (butlast ?k') = None then (Inl ErrNotExist, f)
      else if starts_with ?k ?k' then (Inl EINVAL, f)
      else if fs_get f ?k' = Some FDir then (Inl EEXIST, f) else (Inr (), move_tree ?k ?k' f))"
    unfolding os_Rename_def pop prod.case Let_def kk temp_stat [OF t] sum.case using ne by simp
  with pre show ?thesis by (auto simp: open_check_def)
qed

lemma LS_WriteFromTempFile_full:
  assumes i: "LS_inv rootDir f" and p: "safe_path p" and t: "temp_is f tp b"
    and out: "\<not> starts_with (root_elems rootDir) (fs_key f tp)"
    and w: "LS_WriteFromTempFile rootDir p tp f = (res, f')"
  shows "(res = Inr () \<longrightarrow> LS_inv rootDir f' \<and> LS_calm f' \<and> fs_cwd f' = fs_cwd f \<and>
      LS_view rootDir f' = (LS_view rootDir f)(p \<mapsto> b)) \<and>
    (LS_writable rootDir f p \<and> validateTempFilePath tp f = Inr () \<longrightarrow> res = Inr ())"
proof -
  have r: "ok_root rootDir" and tr: "fs_tree f" using i by (auto simp: LS_inv_def)
  let ?k = "fs_key f tp" let ?k' = "fkey rootDir p"
  obtain r1 f1 where f1: "prepare_write rootDir p f = (r1, f1)" by fastforce
  note g = prepare_write_grown [OF r p tr f1]
  have k1: "fs_key f1 tp = ?k" using g by (intro fs_key_cwd) (simp add: grown_def)
  have t1: "temp_is f1 tp b"
    using g t k1 grown_get [OF conjunct1 [OF g], of ?k] by (auto simp: temp_is_def grown_def LS_calm_def)
  have kk: "fs_key f1 (getFullPath rootDir p) = ?k'" by (rule key_full [OF r p])
  have v1: "LS_view rootDir f1 = LS_view rootDir f" using g grown_view by blast
  note st = temp_stat [OF t1]
  note rn = temp_rename [OF r p t1 out [folded k1]]
  have w': "(case validateTempFilePath tp f of Inl e \<Rightarrow> (Inl e, f) | Inr _ \<Rightarrow>
      (case r1 of Inl e \<Rightarrow> (Inl e, f1) | Inr _ \<Rightarrow>
        if open_check f1 ?k' = None then (Inr (), move_tree ?k ?k' f1)
        else (Inl (Wrapf ''failed to create destination file'' (the (open_check f1 ?k'))), f1))) = (res, f')"
    using w rn unfolding LS_WriteFromTempFile_def valid_path [OF r p] f1 kk k1
    by (auto simp: st kk split: sum.splits prod.splits)
  have mv: "LS_inv rootDir (move_tree ?k ?k' f1) \<and> LS_calm (move_tree ?k ?k' f1) \<and> fs_cwd (move_tree ?k ?k' f1) = fs_cwd f \<and>
      LS_view rootDir (move_tree ?k ?k' f1) = (LS_view rootDir f)(p \<mapsto> b)" if oc: "open_check f1 ?k' = None"
  proof -
    have o: "\<not> under_file f1 ?k'" "fs_get f1 (butlast ?k') \<noteq> None" "fs_get f1 ?k' \<noteq> Some FDir"
      using oc by (auto simp: open_check_def split: if_splits)
    have tr1: "fs_tree f1" and kg: "fs_get f1 ?k = Some (FFile b)" using t1 k1 by (simp_all add: temp_is_def)
    have nk: "?k \<noteq> ?k'" using out by (auto simp: fkey_def starts_with_append)
    have "fs_tree (fs_put ?k' (FFile b) f1)" by (rule put_file [OF tr1 oc])
    then have "fs_get (fs_put ?k' (FFile b) f1) (butlast ?k') = Some FDir"
      using fs_tree_parent [of "fs_put ?k' (FFile b) f1" ?k' "FFile b"] by simp
    then have par: "fs_get f1 (butlast ?k') = Some FDir" by (simp split: if_splits)
    have "fkey rootDir q \<noteq> ?k" for q using out unfolding fkey_def starts_with_append by metis
    with move_file_get(1) [OF tr1 kg nk fkey_ne] have "LS_view rootDir (move_tree ?k ?k' f1) = (LS_view rootDir f1)(p \<mapsto> b)"
      by (auto simp: LS_view_def fun_eq_iff)
    moreover have "LS_calm (move_tree ?k ?k' f1)" using t1 by (simp add: temp_is_def LS_calm_def move_tree_def)
    moreover have "fs_cwd (move_tree ?k ?k' f1) = fs_cwd f" using g by (simp add: move_tree_def grown_def)
    ultimately show ?thesis using move_file_tree [OF tr1 kg nk fkey_ne par o(3)] v1 r by (simp add: LS_inv_def)
  qed
  show ?thesis using w' mv g by (auto split: sum.splits if_splits)
qed

lemma commit_meta_ok:
  assumes wf: "db_wf d" and p: "safe_path p" and c: "commit_meta st env p name sz hash (f, d) = (Inr m, f', d')"
  shows "db_wf d' \<and> live_file d' = (live_file d)(p \<mapsto> m) \<and> fm_Size m = sz \<and> fm_Hash m = hash \<and> f' = f"
proof -
  have n: "NormalizePath p = p" using p by simp
  obtain r d1 where g: "File_GetByPath p d = (r, d1)" by fastforce
  have t1: "same_tables d1 d" by (rule File_GetByPath_res [OF g])
  have wf1: "db_wf d1" "live_file d1 = live_file d" using wf same_tables_wf [OF t1] live_file_eq [OF t1] by auto
  show ?thesis
  proof (cases "\<exists>x. r = Inr (Some x)")
    case True
    then obtain x where x: "r = Inr (Some x)" by blast
    let ?m = "x\<lparr>fm_Size := sz, fm_Hash := hash, fm_UpdatedAt := fe_ts env, fm_IsDeleted := False\<rparr>"
    have l: "live_file d1 p = Some x" using File_GetByPath_res(2) [OF g x] n wf1(2) by simp
    have u: "File_Update ?m d1 = (Inr (), d')" "f' = f" "m = ?m"
      using c g x by (auto simp: commit_meta_def Let_def split: prod.splits sum.splits)
    have "fm_Path x = p" using l find_SomeD unfolding live_file_def by fastforce
    with File_Update_live [OF wf1(1) l _ _ _ u(1)] wf1(2) u(2,3) show ?thesis by simp
  next
    case False
    let ?m = "\<lparr>fm_ID = fe_uuid env, fm_Path = p, fm_Name = name, fm_Size = sz, fm_Hash = hash,
                fm_StorageType = sa_StorageType st, fm_StorageLocation = [], fm_CreatedAt = fe_ts env,
                fm_UpdatedAt = fe_ts env, fm_IsDeleted = False\<rparr>"
    have u: "File_Create ?m d1 = (Inr (), d')" "f' = f" "m = ?m"
      using c g False by (auto simp: commit_meta_def Let_def split: prod.splits sum.splits option.splits)
    have "file_norm ?m = ?m" using n by (simp add: file_norm_def)
    with File_Create_live [OF wf1(1) _ u(1)] wf1(2) u(2,3) n show ?thesis by simp
  qed
qed

section \<open>Properties\<close>

text \<open>
  The incremental hash is the hash of the file.  Start an upload session on a working disk
  and send any chunks, in any order, overlapping, repeated, or refused: if the byte counter
  reaches the announced size, then the check \<open>CompleteUpload\<close> makes against the client's
  hash, which reuses the hash fed chunk by chunk whenever they came in order, decides exactly as
  hashing the complete temp file would.
\<close>

theorem incremental_hash_exact:
  assumes "fs_tree (xf_fs w)" "LS_calm (xf_fs w)" "0 \<le> tot" "tot \<le> max_int64"
    and "CreateUploadSession svc env path name tot client hash w = (Inr sid, w1)"
    and "w2 = run_chunks svc sid cs w1"
  shows "\<exists>s b. xf_uploads w2 sid = Some s \<and> temp_is (xf_fs w2) (tempPath svc sid) b \<and> int (length b) = us_TotalSize s \<and>
    (us_UploadedSize s = us_TotalSize s \<longrightarrow>
       check_hash env2 s (tempPath svc sid) (xf_fs w2) = check_file_hash env2 (us_Hash s) (tempPath svc sid) b (xf_fs w2))"
proof -
  have "up_inv svc sid w2" using CreateUploadSession_inv [OF assms(1-5)] run_chunks_inv assms(6) by blast
  then obtain s b where "xf_uploads w2 sid = Some s" "temp_is (xf_fs w2) (tempPath svc sid) b" "hash_inv s b"
    by (auto simp: up_inv_def)
  with check_hash_ref show ?thesis by (metis hash_inv_def)
qed

text \<open>A service over a local storage under \<open>/srv/data\<close> with its temp files in
  \<open>/tmp/up\<close> and a session store that never keeps anything.\<close>

definition no_codec :: "'v codec" where
  "no_codec = \<lparr>cd_Marshal = (\<lambda>_. Inl (Errorf ''unsupported type'')), cd_Unmarshal = (\<lambda>_. Inl (Errorf ''unsupported type''))\<rparr>"

definition sample_svc :: "(unit, MemorySessionStore, locks) FileTransferService" where
  "sample_svc = \<lparr>ts_storage = NewLocalStorage ''/srv/data'', ts_tempDir = ''/tmp/up'', ts_upStore = MemStore no_codec,
     ts_downStore = MemStore no_codec, ts_multiStore = MemStore no_codec, ts_distLock = LocalDistributedLock,
     ts_cryptoSvc = None, ts_maxSessions = 1000\<rparr>"

definition sample_xfer :: "(unit, MemorySessionStore, locks) xfer" where
  "sample_xfer = \<lparr>xf_fs = sample_fs\<lparr>fs_nodes := ([''tmp''], FDir) # ([''tmp'', ''up''], FDir) # fs_nodes sample_fs\<rparr>, xf_db = empty_db,
     xf_uploads = Map.empty, xf_downloads = Map.empty, xf_multi = Map.empty, xf_count = 0,
     xf_store = NewMemorySessionStore, xf_lock = Map.empty\<rparr>"

definition sample_xenv :: "locks xf_env" where
  "sample_xenv = \<lparr>xe_fm = sample_env, xe_now = 5, xe_sid = ''s1'', xe_gcm = \<lparr>gcm_Seal = (\<lambda>k n p. p), gcm_Open = (\<lambda>k n c. Some c)\<rparr>,
     xe_rnd = None, xe_parse = (\<lambda>_. Inr 0)\<rparr>"

lemma sample_temp: "tempPath sample_svc ''s1'' = ''/tmp/up/s1.tmp''"
  by code_simp

theorem incremental_hash_exact_witness:
  "\<exists>w1 s b. CreateUploadSession sample_svc sample_xenv ''a.txt'' ''a.txt'' 2 ''c'' ''hab'' sample_xfer = (Inr ''s1'', w1) \<and>
     xf_uploads (run_chunks sample_svc ''s1'' [(sample_xenv, ''a'', 0), (sample_xenv, ''b'', 1)] w1) ''s1'' = Some s \<and>
     check_hash sample_xenv s (tempPath sample_svc ''s1'') (xf_fs (run_chunks sample_svc ''s1'' [(sample_xenv, ''a'', 0), (sample_xenv, ''b'', 1)] w1)) =
     check_file_hash sample_xenv (us_Hash s) (tempPath sample_svc ''s1'') b
       (xf_fs (run_chunks sample_svc ''s1'' [(sample_xenv, ''a'', 0), (sample_xenv, ''b'', 1)] w1))"
proof -
  let ?c = "CreateUploadSession sample_svc sample_xenv ''a.txt'' ''a.txt'' 2 ''c'' ''hab'' sample_xfer"
  let ?w2 = "run_chunks sample_svc ''s1'' [(sample_xenv, ''a'', 0), (sample_xenv, ''b'', 1)] (snd ?c)"
  have c: "?c = (Inr ''s1'', snd ?c)"
    by (subgoal_tac "fst ?c = Inr ''s1''", simp add: prod_eq_iff) code_simp
  have u: "map_option (\<lambda>s. us_UploadedSize s = us_TotalSize s) (xf_uploads ?w2 ''s1'') = Some True" by code_simp
  have "fs_tree (xf_fs sample_xfer)" "LS_calm (xf_fs sample_xfer)"
    by (simp_all add: sample_xfer_def sample_fs_def LS_calm_def fs_tree_def fs_get_def)
  from incremental_hash_exact [OF this _ _ c refl, of _ sample_xenv] u c show ?thesis
    by (fastforce simp: max_int64_def)
qed

end
