(* ===== verification/Multipart.thy ===== *)
theory Multipart
  imports Transfer_Service
begin

text \<open>
  The multipart operations of \<open>src/internal/service/transfer/multipart.go\<close> on the state of
  \<open>Transfer_Service\<close>.  The map of parts is an association list; the order in which Go iterates
  over it does not matter to the code.  The downloads of \<open>ParallelDownloadChunks\<close> run in
  the order their goroutines are scheduled, which is an argument.
\<close>

section \<open>Uploads\<close>

definition CreateMultipartUpload ::
  "('a, 'ss, 'l) FileTransferService \<Rightarrow> 'l xf_env \<Rightarrow> string \<Rightarrow> string \<Rightarrow> int \<Rightarrow> string \<Rightarrow> string
    \<Rightarrow> ('a, 'ss, 'l) xfer \<Rightarrow> (string \<times> int) res \<times> ('a, 'ss, 'l) xfer"
where
  "CreateMultipartUpload svc env filePath0 fileName totalSize clientID hash w0 =
     (case acquireSessionSlot svc w0 of
        (False, w) \<Rightarrow> (Inl (Errorf ''maximum number of concurrent upload sessions reached''), w)
      | (True, w) \<Rightarrow>
     (let filePath = NormalizePath filePath0; sid = xe_sid env; now = xe_ts env; tp = tempPath svc sid
      in case os_Create tp (xf_fs w) of
        (Inl e, f1) \<Rightarrow> (Inl (Wrapf ''failed to create temp file'' e), releaseSessionSlot (w\<lparr>xf_fs := f1\<rparr>))
      | (Inr _, f1) \<Rightarrow>
     (case file_Truncate tp totalSize f1 of
        (Inl e, f2) \<Rightarrow>
          (Inl (Wrapf ''failed to pre-allocate temp file'' e), releaseSessionSlot (w\<lparr>xf_fs := rm tp f2\<rparr>))
      | (Inr _, f2) \<Rightarrow>
          let session = \<lparr>ms_SessionID = sid, ms_FilePath = filePath, ms_FileName = fileName, ms_TotalSize = totalSize,
                ms_Hash = hash, ms_ClientID = clientID, ms_Status = ''active'', ms_CreatedAt = now, ms_UpdatedAt = now,
                ms_tempFile = True, ms_parts = [], ms_uploadedSize = 0, ms_chunkCount = 0, ms_closed = False,
                ms_coveredRanges = []\<rparr>;
              info = \<lparr>mi_session_id = sid, mi_file_path = filePath, mi_file_name = fileName, mi_total_size = totalSize,
                mi_hash = hash, mi_client_id = clientID, mi_status = ''active'', mi_created_at = now\<rparr>
          in (Inr (sid, suggestedPartSize totalSize),
              w\<lparr>xf_fs := f2, xf_multi := (xf_multi w)(sid \<mapsto> session),
                xf_store := snd (ss_Set (ts_multiStore svc) (xe_now env) ''multipart_upload'' sid info twoHours (xf_store w))\<rparr>))))"

definition record_part :: "(bytes \<Rightarrow> string) \<Rightarrow> int \<Rightarrow> int \<Rightarrow> bytes \<Rightarrow> (int \<times> UploadPart) list \<Rightarrow> (int \<times> UploadPart) list" where
  "record_part sha partNumber offset data parts =
     (case map_of parts partNumber of
        None \<Rightarrow> AList.update partNumber \<lparr>up_PartNumber = partNumber, up_Offset = offset, up_Size = int (length data),
                  up_UploadedSize = int (length data), up_Hash = sha data, up_Status = ''completed''\<rparr> parts
      | Some part \<Rightarrow>
          let p1 = part\<lparr>up_UploadedSize := wrap64 (up_UploadedSize part + int (length data)), up_Hash := sha data\<rparr>
          in AList.update partNumber (if up_UploadedSize p1 \<ge> up_Size p1 then p1\<lparr>up_Status := ''completed''\<rparr> else p1) parts)"

definition UploadPartData ::
  "('a, 'ss, 'l) FileTransferService \<Rightarrow> 'l xf_env \<Rightarrow> string \<Rightarrow> int \<Rightarrow> int \<Rightarrow> bytes
    \<Rightarrow> ('a, 'ss, 'l) xfer \<Rightarrow> unit res \<times> ('a, 'ss, 'l) xfer"
where
  "UploadPartData svc env sid partNumber offset data w =
     (case xf_multi w sid of
        None \<Rightarrow> (Inl (Errorf ''multipart upload session not found''), w)
      | Some s \<Rightarrow>
          if ms_closed s then (Inl (Errorf ''multipart upload session is closed''), w)
          else if ms_Status s \<noteq> ''active'' then (Inl (Errorf ''multipart upload session is not active''), w)
          else if partNumber > 10000 then (Inl (Errorf ''part number too large''), w)
          else if offset < 0 then (Inl (Errorf ''invalid offset''), w)
          else if wrap64 (offset + int (length data)) > ms_TotalSize s then (Inl (Errorf ''write beyond file size''), w)
          else (case file_WriteAt (tempPath svc sid) data offset (xf_fs w) of
             (Inl e, f1) \<Rightarrow> (Inl (Wrapf ''failed to write part data'' e), w\<lparr>xf_fs := f1\<rparr>)
           | (Inr _, f1) \<Rightarrow>
               let s1 = s\<lparr>ms_parts := record_part (xe_sha env) partNumber offset data (ms_parts s),
                          ms_coveredRanges := addCoveredRange offset (wrap64 (offset + int (length data))) (ms_coveredRanges s),
                          ms_uploadedSize := wrap64 (ms_uploadedSize s + int (length data)),
                          ms_chunkCount := wrap64 (ms_chunkCount s + 1)\<rparr>;
                   s2 = (if ms_chunkCount s1 mod 8 = 0 then s1\<lparr>ms_UpdatedAt := xe_ts env\<rparr> else s1)
               in (Inr (), w\<lparr>xf_fs := f1, xf_multi := (xf_multi w)(sid \<mapsto> s2)\<rparr>)))"

text \<open>The three tests before the temp file is closed.\<close>

definition multi_ready :: "MultipartUploadSession \<Rightarrow> unit res" where
  "multi_ready s =
     (if ms_uploadedSize s \<noteq> ms_TotalSize s then Inl (Errorf ''upload incomplete'')
      else if \<not> isFullyCovered (ms_TotalSize s) (ms_coveredRanges s)
        then Inl (Errorf ''upload incomplete: byte range coverage has gaps or overlaps'')
      else if list_ex (\<lambda>(pn, part). up_Status part \<noteq> ''completed'') (ms_parts s) then Inl (Errorf ''part is not completed'')
      else Inr ())"

definition multi_close :: "string \<Rightarrow> 'a fs_scheme \<Rightarrow> unit res \<times> 'a fs_scheme" where
  "multi_close tp f =
     (case file_call f of
        (Inl e, f1) \<Rightarrow> (Inl (Wrapf ''failed to sync temp file'' e), rm tp f1)
      | (Inr _, f1) \<Rightarrow>
          (case file_call f1 of
             (Inl e, f2) \<Rightarrow> (Inl (Wrapf ''failed to close temp file'' e), rm tp f2)
           | (Inr _, f2) \<Rightarrow> (Inr (), f2)))"

definition multi_hash :: "'l xf_env \<Rightarrow> string \<Rightarrow> string \<Rightarrow> 'a fs_scheme \<Rightarrow> unit res \<times> 'a fs_scheme" where
  "multi_hash env hash tp f =
     (if hash = [] then (Inr (), f)
      else case SHA256File (xe_sha env) tp f of
        (Inl e, f1) \<Rightarrow> (Inl (Wrapf ''failed to compute hash'' e), rm tp f1)
      | (Inr h, f1) \<Rightarrow> if h \<noteq> hash then (Inl (Errorf ''hash mismatch''), rm tp f1) else (Inr (), f1))"

definition CompleteMultipartUpload ::
  "('a, 'ss, 'l) FileTransferService \<Rightarrow> 'l xf_env \<Rightarrow> string \<Rightarrow> ('a, 'ss, 'l) xfer \<Rightarrow> unit res \<times> ('a, 'ss, 'l) xfer"
where
  "CompleteMultipartUpload svc env sid w0 =
     (case xf_multi w0 sid of
        None \<Rightarrow> (Inl (Errorf ''multipart upload session not found''), w0)
      | Some s \<Rightarrow>
     (case multi_ready s of
        Inl e \<Rightarrow> (Inl e, w0)
      | Inr _ \<Rightarrow>
     (let tp = tempPath svc sid; w = w0\<lparr>xf_multi := (xf_multi w0)(sid \<mapsto> s\<lparr>ms_closed := True\<rparr>)\<rparr>
      in case multi_close tp (xf_fs w) of
        (Inl e, f1) \<Rightarrow> (Inl e, end_multi sid (w\<lparr>xf_fs := f1\<rparr>))
      | (Inr _, f1) \<Rightarrow>
     (case multi_hash env (ms_Hash s) tp f1 of
        (Inl e, f2) \<Rightarrow> (Inl e, end_multi sid (w\<lparr>xf_fs := f2\<rparr>))
      | (Inr _, f2) \<Rightarrow>
     (case encrypt_temp svc env tp (ms_Hash s) f2 of
        (Inl e, f3) \<Rightarrow> (Inl e, end_multi sid (w\<lparr>xf_fs := f3\<rparr>))
      | (Inr (stp, shash), f3) \<Rightarrow>
     (case store_temp svc env True (ms_FilePath s) (ms_FileName s) (ms_TotalSize s) stp shash (w\<lparr>xf_fs := f3\<rparr>) of
        (Inl e, w4) \<Rightarrow> (Inl e, end_multi sid w4)
      | (Inr meta, w4) \<Rightarrow>
          (Inr (), let w5 = end_multi sid w4
             in w5\<lparr>xf_store := snd (ss_Delete (ts_multiStore svc) ''multipart_upload'' sid (xf_store w5))\<rparr>)))))))"

definition AbortMultipartUpload ::
  "('a, 'ss, 'l) FileTransferService \<Rightarrow> string \<Rightarrow> ('a, 'ss, 'l) xfer \<Rightarrow> unit res \<times> ('a, 'ss, 'l) xfer"
where
  "AbortMultipartUpload svc sid w =
     (case xf_multi w sid of
        None \<Rightarrow> (Inl (Errorf ''multipart upload session not found''), w)
      | Some s \<Rightarrow>
          (let w1 = end_multi sid w
           in (Inr (), w1\<lparr>xf_fs := rm (tempPath svc sid) (xf_fs w1),
                 xf_store := snd (ss_Delete (ts_multiStore svc) ''multipart_upload'' sid (xf_store w1))\<rparr>)))"

definition GetMultipartUploadSession :: "string \<Rightarrow> ('a, 'ss, 'l) xfer \<Rightarrow> MultipartUploadSession res" where
  "GetMultipartUploadSession sid w =
     (case xf_multi w sid of None \<Rightarrow> Inl (Errorf ''multipart upload session not found'') | Some s \<Rightarrow> Inr s)"

definition GetMultipartUploadProgress :: "string \<Rightarrow> ('a, 'ss, 'l) xfer \<Rightarrow> int \<times> int \<times> nat" where
  "GetMultipartUploadProgress sid w =
     (case xf_multi w sid of
        None \<Rightarrow> (0, 0, 0)
      | Some s \<Rightarrow> (ms_uploadedSize s, ms_TotalSize s,
          length (filter (\<lambda>(pn, part). up_Status part = ''completed'') (ms_parts s))))"

section \<open>Parallel downloads\<close>

record DownloadSegment =
  sg_Offset :: int
  sg_Size :: int

record DownloadSegmentResult =
  sr_SegmentIndex :: nat
  sr_Offset :: int
  sr_Result :: "bytes res"
    \<comment> \<open>the fields \<open>Data\<close> and \<open>Error\<close>\<close>

definition ParallelDownloadChunks ::
  "('a, 'ss, 'l) FileTransferService \<Rightarrow> 'l xf_env \<Rightarrow> string \<Rightarrow> DownloadSegment list \<Rightarrow> nat list
    \<Rightarrow> ('a, 'ss, 'l) xfer \<Rightarrow> DownloadSegmentResult option list \<times> ('a, 'ss, 'l) xfer"
where
  "ParallelDownloadChunks svc env sid segments order w =
     fold (\<lambda>idx (results, w). case DownloadChunk svc env sid (sg_Size (segments ! idx)) (sg_Offset (segments ! idx)) w of
             (r, w1) \<Rightarrow> (results[idx := Some \<lparr>sr_SegmentIndex = idx, sr_Offset = sg_Offset (segments ! idx), sr_Result = r\<rparr>], w1))
       order (replicate (length segments) None, w)"

end
