(* ===== verification/Transfer_Integrity.thy ===== *)
theory Transfer_Integrity
  imports Multipart
begin

text \<open>
  What the two kinds of upload store.  Both write the bytes they accept into a temp file of the
  announced size and complete it into the storage; the contract they share, the locale
  \<open>chunked_upload\<close>, is interpreted by \<open>UploadChunk\<close> and by
  \<open>UploadPartData\<close>.  The theorems follow an upload from its creation to its completion on
  a local storage; whatever the client sends, what is stored is what was accepted.
\<close>

section \<open>Changes of one temp file\<close>

definition only_temp :: "string \<Rightarrow> 'a fs_scheme \<Rightarrow> 'a fs_scheme \<Rightarrow> bool" where
  "only_temp tp f g \<longleftrightarrow> fs_cwd g = fs_cwd f \<and> fs_tmp g = fs_tmp f \<and> (\<forall>k. k \<noteq> fs_key f tp \<longrightarrow> fs_get g k = fs_get f k)"

lemma only_temp_refl [simp]: "only_temp tp f f"
  by (simp add: only_temp_def)

lemma only_temp_key: "only_temp tp f g \<Longrightarrow> fs_key g p = fs_key f p"
  by (intro fs_key_cwd) (simp add: only_temp_def)

lemma only_temp_trans [trans]: "only_temp tp f g \<Longrightarrow> only_temp tp g h \<Longrightarrow> only_temp tp f h"
  using only_temp_key [of tp f g tp] by (simp add: only_temp_def)

lemma only_temp_put [simp]: "fs_key f tp \<noteq> [] \<Longrightarrow> only_temp tp f (fs_put (fs_key f tp) n f)"
  by (simp add: only_temp_def)

lemma only_temp_view:
  assumes "only_temp tp f g" "\<not> starts_with (root_elems rootDir) (fs_key f tp)"
  shows "LS_view rootDir g = LS_view rootDir f"
proof
  fix p
  have "fkey rootDir p \<noteq> fs_key f tp" using assms(2) unfolding fkey_def starts_with_append by metis
  then show "LS_view rootDir g p = LS_view rootDir f p" using assms(1) by (simp add: LS_view_def only_temp_def)
qed

lemma only_temp_valid: "only_temp tp f g \<Longrightarrow> validateTempFilePath p g = validateTempFilePath p f"
  by (simp add: validateTempFilePath_def filepath_Abs_def only_temp_def split: option.splits)

lemma only_temp_create: "LS_calm f \<Longrightarrow> os_Create tp f = (r, g) \<Longrightarrow> only_temp tp f g"
  by (auto simp: os_Create_def os_WriteFile_def fs_pop_calm Let_def open_check_def split: option.splits if_splits)

lemma only_temp_truncate: "temp_is f tp b \<Longrightarrow> file_Truncate tp n f = (r, g) \<Longrightarrow> only_temp tp f g"
  using temp_key_ne [of f tp b]
  by (auto simp: file_Truncate_def temp_is_def fs_pop_calm Let_def split: if_splits)

lemma only_temp_writable:
  assumes o: "only_temp tp f g" and t: "temp_is f tp b" "temp_is g tp c"
  shows "LS_writable rootDir g p = LS_writable rootDir f p"
proof -
  have k: "fs_key g tp = fs_key f tp" by (rule only_temp_key [OF o])
  have "is_file g k = is_file f k \<and> (fs_get g k = Some FDir) = (fs_get f k = Some FDir)" for k
    using o t k by (cases "k = fs_key f tp") (auto simp: only_temp_def temp_is_def is_file_def)
  then show ?thesis by (simp add: LS_writable_def under_file_def)
qed

lemma rm_view:
  assumes "LS_calm f" "\<not> starts_with (root_elems rootDir) (fs_key f tp)"
  shows "LS_view rootDir (rm tp f) = LS_view rootDir f"
proof
  fix p
  have "fkey rootDir p \<noteq> fs_key f tp" using assms(2) unfolding fkey_def starts_with_append by metis
  then have "fs_get (fs_del (fs_key f tp) f) (fkey rootDir p) = fs_get f (fkey rootDir p)"
    by (simp add: fs_get_def fs_del_def AList.delete_conv')
  then show "LS_view rootDir (rm tp f) p = LS_view rootDir f p"
    using assms(1) by (simp add: LS_view_def rm_def os_Remove_def fs_pop_calm Let_def split: sum.splits)
qed

lemma rm_tree:
  assumes "LS_calm f" "fs_tree f"
  shows "fs_tree (rm tp f) \<and> LS_calm (rm tp f)"
proof -
  have st: "os_Stat tp f = Inr n \<Longrightarrow> fs_get f (fs_key f tp) = Some n" for n
    by (auto simp: os_Stat_def Let_def split: if_splits option.splits)
  have "filter (\<lambda>(k', _). [] \<noteq> k') (fs_nodes f) = fs_nodes f"
    using assms(2) by (intro filter_True) (auto simp: fs_tree_iff image_iff)
  then have "fs_tree (fs_del [] f)" using assms(2) by (simp add: fs_del_def AList.delete_eq)
  moreover have "LS_calm (fs_del k f) = LS_calm f" for k by (simp add: LS_calm_def)
  ultimately show ?thesis using assms st fs_tree_del_leaf [OF assms(2)]
    by (cases "fs_key f tp = []") (auto simp: rm_def os_Remove_def fs_pop_calm Let_def split: sum.splits)
qed

section \<open>From the temp file to the record\<close>

lemma store_temp_ok:
  assumes "ts_storage svc = NewLocalStorage rootDir" "LS_inv rootDir (xf_fs w)" "db_wf (xf_db w)" "safe_path p"
    and t: "temp_is (xf_fs w) tp b" and out: "\<not> starts_with (root_elems rootDir) (fs_key (xf_fs w) tp)"
    and s: "store_temp svc env clean p name sz tp hash w = (Inr m, w')"
  shows "LS_view rootDir (xf_fs w') = (LS_view rootDir (xf_fs w))(p \<mapsto> b) \<and> LS_inv rootDir (xf_fs w') \<and>
    LS_calm (xf_fs w') \<and> db_wf (xf_db w') \<and> live_file (xf_db w') = (live_file (xf_db w))(p \<mapsto> m) \<and> fm_Size m = sz \<and> fm_Hash m = hash \<and>
    xf_uploads w' = xf_uploads w \<and> xf_multi w' = xf_multi w \<and> xf_count w' = xf_count w \<and> xf_store w' = xf_store w"
proof -
  obtain r f1 where wr: "LS_WriteFromTempFile rootDir p tp (xf_fs w) = (r, f1)" by fastforce
  have sa: "sa_WriteFromTempFile (ts_storage svc) = LS_WriteFromTempFile rootDir"
    using assms(1) by (simp add: NewLocalStorage_def)
  obtain c f2 d2 where cm: "commit_meta (ts_storage svc) (xe_fm env) p name sz hash (f1, xf_db w) = (c, f2, d2)" by (metis prod_cases3)
  from s wr cm sa have ok: "r = Inr ()" "c = Inr m"
    "\<exists>l. w' = w\<lparr>xf_lock := l, xf_fs := rm tp f2, xf_db := d2\<rparr>"
    by (auto simp: store_temp_def Let_def split: prod.splits sum.splits)
  note full = LS_WriteFromTempFile_full [OF assms(2,4) t out wr]
  note meta = commit_meta_ok [OF assms(3,4) cm [unfolded ok(2)]]
  have "\<not> starts_with (root_elems rootDir) (fs_key f1 tp)"
    using out fs_key_cwd [of f1 "xf_fs w" tp] full ok(1) by simp
  moreover have "LS_inv rootDir (rm tp f1)" "LS_calm (rm tp f1)" using rm_tree [of f1 tp] full ok(1) by (auto simp: LS_inv_def)
  ultimately show ?thesis using ok full meta rm_view [of f1 rootDir tp] by auto
qed

section \<open>Uploads chunk by chunk\<close>

text \<open>The calls a client makes, and the writes among them that were accepted.\<close>

fun run_puts ::
  "('e \<Rightarrow> bytes \<Rightarrow> int \<Rightarrow> 'w \<Rightarrow> unit res \<times> 'w) \<Rightarrow> ('e \<times> bytes \<times> int) list \<Rightarrow> 'w \<Rightarrow> (int \<times> bytes) list \<times> 'w"
where
  "run_puts put [] w = ([], w)"
| "run_puts put ((e, data, ofs) # cs) w =
     (case put e data ofs w of (r, w1) \<Rightarrow>
        (case run_puts put cs w1 of (ws, w2) \<Rightarrow> (case r of Inr _ \<Rightarrow> (ofs, data) # ws | Inl _ \<Rightarrow> ws, w2)))"

text \<open>The contract: \<open>track w ws\<close> says that the session of \<open>w\<close> has accepted exactly the
  writes \<open>ws\<close>; a successful call adds its write, a refused one changes nothing.\<close>

locale chunked_upload =
  fixes put :: "'e \<Rightarrow> bytes \<Rightarrow> int \<Rightarrow> 'w \<Rightarrow> unit res \<times> 'w"
    and track :: "'w \<Rightarrow> (int \<times> bytes) list \<Rightarrow> bool"
  assumes put_ok: "track w ws \<Longrightarrow> put e data ofs w = (Inr (), w') \<Longrightarrow> track w' (ws @ [(ofs, data)])"
    and put_refused: "track w ws \<Longrightarrow> put e data ofs w = (Inl x, w') \<Longrightarrow> track w' ws"
begin

lemma run_tracks: "track w ws \<Longrightarrow> run_puts put cs w = (acc, w') \<Longrightarrow> track w' (ws @ acc)"
proof (induction cs arbitrary: w ws acc)
  case (Cons c cs)
  obtain e data ofs where c: "c = (e, data, ofs)" by (cases c)
  obtain r w1 where p: "put e data ofs w = (r, w1)" by fastforce
  obtain acc1 w2 where q: "run_puts put cs w1 = (acc1, w2)" by fastforce
  have w2: "w2 = w'" and acc: "acc = (case r of Inr _ \<Rightarrow> (ofs, data) # acc1 | Inl _ \<Rightarrow> acc1)"
    using Cons.prems(2) c p q by simp_all
  show ?case
  proof (cases r)
    case (Inl x)
    with put_refused [OF Cons.prems(1) p [unfolded Inl]] Cons.IH q w2 acc show ?thesis by simp
  next
    case (Inr u)
    with p have "put e data ofs w = (Inr (), w1)" by simp
    from Cons.IH [OF put_ok [OF Cons.prems(1) this] q [unfolded w2]] Inr acc show ?thesis by simp
  qed
qed simp

end

definition zeros :: "int \<Rightarrow> bytes" where "zeros n = replicate (nat n) (CHR 0x00)"

definition sent :: "(int \<times> bytes) list \<Rightarrow> int" where "sent ws = sum_list (map (\<lambda>w. int (length (snd w))) ws)"

lemma length_zeros [simp]: "length (zeros n) = nat n"
  by (simp add: zeros_def)

lemma sent_simps [simp]: "sent [] = 0" "sent (ws @ [(ofs, data)]) = sent ws + int (length data)"
  by (simp_all add: sent_def)

subsection \<open>Plain uploads\<close>

definition up_track ::
  "('a, 'ss, 'l) FileTransferService \<Rightarrow> string \<Rightarrow> ('a, 'ss, 'l) xfer \<Rightarrow> ('a, 'ss, 'l) xfer \<Rightarrow> (int \<times> bytes) list \<Rightarrow> bool"
where
  "up_track svc sid w0 w ws \<longleftrightarrow>
     (\<exists>s s0. xf_uploads w0 sid = Some s0 \<and> xf_uploads w sid = Some s \<and> us_TotalSize s = us_TotalSize s0 \<and>
        us_Hash s = us_Hash s0 \<and> us_FilePath s = us_FilePath s0 \<and> us_FileName s = us_FileName s0 \<and>
        us_closed s = us_closed s0 \<and> writes_in (us_TotalSize s) ws \<and> us_UploadedSize s = wrap64 (sent ws) \<and>
        temp_is (xf_fs w) (tempPath svc sid) (written ws (zeros (us_TotalSize s))) \<and>
        hash_inv s (written ws (zeros (us_TotalSize s)))) \<and>
     xf_db w = xf_db w0 \<and> xf_count w = xf_count w0 \<and> only_temp (tempPath svc sid) (xf_fs w0) (xf_fs w)"

text \<open>One chunk on a working disk: refused without a trace, or written.\<close>

lemma chunk_body_track:
  assumes s: "xf_uploads w sid = Some s" and t: "temp_is (xf_fs w) (tempPath svc sid) b" and h: "hash_inv s b"
    and c: "chunk_body svc env sid s data ofs w = (r, w')"
  shows "(\<exists>x. r = Inl x \<and> w' = w) \<or>
    (r = Inr () \<and> 0 \<le> ofs \<and> ofs + int (length data) \<le> us_TotalSize s \<and>
     xf_fs w' = fs_put (fs_key (xf_fs w) (tempPath svc sid)) (FFile (overlay b (nat ofs) data)) (xf_fs w) \<and>
     xf_db w' = xf_db w \<and> xf_count w' = xf_count w \<and>
     (\<exists>s'. xf_uploads w' sid = Some s' \<and> us_TotalSize s' = us_TotalSize s \<and> us_Hash s' = us_Hash s \<and>
        us_FilePath s' = us_FilePath s \<and> us_FileName s' = us_FileName s \<and> us_closed s' = us_closed s \<and>
        us_UploadedSize s' = wrap64 (us_UploadedSize s + int (length data)) \<and> hash_inv s' (overlay b (nat ofs) data)))"
proof (cases "us_closed s \<or> ofs < 0 \<or> us_TotalSize s < wrap64 (ofs + int (length data)) \<or> max_int64 < ofs + int (length data)")
  case True
  then show ?thesis using c temp_WriteAt [OF t, of data ofs] temp_open [OF t] by (auto simp: chunk_body_def split: if_splits)
next
  case False
  then have le: "0 \<le> ofs" "ofs + int (length data) \<le> us_TotalSize s" using wrap64_small [of "ofs + int (length data)"] by auto
  have fh: "us_UploadedSize (feed_hash data ofs s) = us_UploadedSize s" "us_chunkCount (feed_hash data ofs s) = us_chunkCount s"
    "us_TotalSize (feed_hash data ofs s) = us_TotalSize s" "us_Hash (feed_hash data ofs s) = us_Hash s"
    "us_FilePath (feed_hash data ofs s) = us_FilePath s" "us_FileName (feed_hash data ofs s) = us_FileName s"
    "us_closed (feed_hash data ofs s) = us_closed s"
    by (simp_all add: feed_hash_def split: option.splits)
  from False c temp_WriteAt [OF t, of data ofs] temp_open [OF t] fh hash_inv_feed [OF h le] le show ?thesis
    by (auto simp: chunk_body_def Let_def split: if_splits)
qed

lemma up_track_chunk:
  assumes tr: "up_track svc sid w0 w ws" and u: "UploadChunk svc env sid data ofs w = (r, w')"
  shows "up_track svc sid w0 w' (case r of Inr _ \<Rightarrow> ws @ [(ofs, data)] | Inl _ \<Rightarrow> ws)"
proof -
  let ?tp = "tempPath svc sid"
  obtain s s0 where s: "xf_uploads w0 sid = Some s0" "xf_uploads w sid = Some s" "us_TotalSize s = us_TotalSize s0"
      "us_Hash s = us_Hash s0" "us_FilePath s = us_FilePath s0" "us_FileName s = us_FileName s0"
      "writes_in (us_TotalSize s) ws" "us_UploadedSize s = wrap64 (sent ws)" "us_closed s = us_closed s0"
    and t: "temp_is (xf_fs w) ?tp (written ws (zeros (us_TotalSize s)))" and h: "hash_inv s (written ws (zeros (us_TotalSize s)))"
    and fr: "xf_db w = xf_db w0" "xf_count w = xf_count w0" "only_temp ?tp (xf_fs w0) (xf_fs w)"
    using tr by (auto simp: up_track_def)
  have lu: "load_upload svc env sid w = (Some s, w)" using s(2) by (simp add: load_upload_def)
  obtain a l1 ds where a: "AcquireLock (ts_distLock svc) (fe_acq (xe_fm env)) (''upload:'' @ sid) (10 * Dist_Lock.second) 10
      (100 * millisecond) (xf_lock w) = (a, l1, ds)" by (metis prod_cases3)
  show ?thesis
  proof (cases a)
    case (Inl e)
    then have "r = Inl (Wrapf ''failed to acquire session lock'' e)" "w' = w\<lparr>xf_lock := l1\<rparr>"
      using u unfolding UploadChunk_def lu prod.case option.case a Inl sum.case by simp_all
    then show ?thesis using tr by (simp add: up_track_def)
  next
    case (Inr token)
    obtain r1 w1 where b: "chunk_body svc env sid s data ofs (w\<lparr>xf_lock := l1\<rparr>) = (r1, w1)" by fastforce
    then obtain l2 where w': "w' = w1\<lparr>xf_lock := l2\<rparr>" "r = r1"       using u unfolding UploadChunk_def lu prod.case option.case a Inr sum.case b by auto
    let ?b = "overlay (written ws (zeros (us_TotalSize s))) (nat ofs) data"
    have ne: "fs_key (xf_fs w) ?tp \<noteq> []" by (rule temp_key_ne [OF t])
    from chunk_body_track [OF _ _ h b] s(2) t
    consider x where "r1 = Inl x" "w1 = w\<lparr>xf_lock := l1\<rparr>"
      | s' where "r1 = Inr ()" "0 \<le> ofs" "ofs + int (length data) \<le> us_TotalSize s"
        "xf_fs w1 = fs_put (fs_key (xf_fs w) ?tp) (FFile ?b) (xf_fs w)" "xf_db w1 = xf_db w" "xf_count w1 = xf_count w"
        "xf_uploads w1 sid = Some s'" "us_TotalSize s' = us_TotalSize s" "us_Hash s' = us_Hash s"
        "us_FilePath s' = us_FilePath s" "us_FileName s' = us_FileName s" "us_closed s' = us_closed s"
        "us_UploadedSize s' = wrap64 (us_UploadedSize s + int (length data))" "hash_inv s' ?b" by auto
    then show ?thesis
    proof cases
      case 1
      then show ?thesis using w' tr by (simp add: up_track_def)
    next
      case 2
      have "writes_in (us_TotalSize s) (ws @ [(ofs, data)])" using s(7) 2(2,3) by (auto simp: writes_in_def)
      moreover have "only_temp ?tp (xf_fs w0) (xf_fs w1)" using only_temp_trans [OF fr(3)] 2(4) ne by simp
      ultimately show ?thesis using w' s fr temp_put [OF t, of ?b] 2 wrap64_add_left by (auto simp: up_track_def)
    qed
  qed
qed

interpretation uploads: chunked_upload "\<lambda>env. UploadChunk svc env sid" "up_track svc sid w0" for svc sid w0
  by unfold_locales (use up_track_chunk in fastforce)+

lemma CreateUploadSession_track:
  assumes "fs_tree (xf_fs w)" "LS_calm (xf_fs w)" "0 \<le> tot" "tot \<le> max_int64"
    and c: "CreateUploadSession svc env path name tot client hash w = (Inr sid, w1)"
  shows "up_track svc sid w1 w1 [] \<and> xf_db w1 = xf_db w \<and> xf_count w1 = xf_count w + 1 \<and> only_temp (tempPath svc sid) (xf_fs w) (xf_fs w1) \<and>
    (\<exists>s. xf_uploads w1 sid = Some s \<and> us_TotalSize s = tot \<and> us_Hash s = hash \<and> us_FilePath s = NormalizePath path \<and>
       us_FileName s = name \<and> \<not> us_closed s)"
proof -
  let ?tp = "tempPath svc (xe_sid env)"
  obtain w0 where slot: "acquireSessionSlot svc w = (True, w0)" and w0: "w0 = w\<lparr>xf_count := xf_count w + 1\<rparr>"
    using c by (auto simp: CreateUploadSession_def acquireSessionSlot_def Let_def split: if_splits)
  have fs: "xf_fs w0 = xf_fs w" by (simp add: w0)
  obtain e f1 where e: "os_Create ?tp (xf_fs w) = (e, f1)" by fastforce
  have ok: "e = Inr ()" using c slot fs e by (cases e) (simp_all add: CreateUploadSession_def Let_def)
  have t1: "temp_is f1 ?tp []" by (rule temp_create [OF assms(1,2) e [unfolded ok]])
  obtain f2 where f2: "(if tot > 0 then file_Truncate ?tp tot f1 else (Inr (), f1)) = (Inr (), f2)" "temp_is f2 ?tp (zeros tot)"
    using temp_truncate [OF t1 assms(3)] t1 assms(3) by (cases "tot > 0") (auto simp: zeros_def)
  have "only_temp ?tp f1 f2"
    using f2(1) only_temp_truncate [OF t1] by (cases "tot > 0") auto
  with only_temp_create [OF assms(2) e] have ot: "only_temp ?tp (xf_fs w) f2" by (rule only_temp_trans)
  obtain s where sid: "sid = xe_sid env" "xf_fs w1 = f2" "xf_db w1 = xf_db w" "xf_count w1 = xf_count w + 1"
    and s: "xf_uploads w1 sid = Some s" "us_TotalSize s = tot" "us_Hash s = hash" "us_FilePath s = NormalizePath path"
      "us_FileName s = name" "\<not> us_closed s" "us_UploadedSize s = 0" "us_lastOffset s = 0" "us_hashWriter s = None \<or> us_hashWriter s = Some []"
    using c unfolding CreateUploadSession_def slot prod.case bool.case Let_def fs e ok sum.case f2(1) by (auto simp: w0)
  have "hash_inv s (zeros tot)" using s assms(3,4) by (auto simp: hash_inv_def)
  moreover have "wrap64 0 = 0" by (rule wrap64_small) (simp_all add: max_int64_def)
  ultimately have "up_track svc sid w1 w1 []" using sid s f2(2) unfolding up_track_def by (simp add: writes_in_def)
  with sid s ot show ?thesis by auto
qed

definition plain_storage :: "('a, 'ss, 'l) FileTransferService \<Rightarrow> bool" where
  "plain_storage svc \<longleftrightarrow> (case ts_cryptoSvc svc of None \<Rightarrow> True | Some cs \<Rightarrow> \<not> cs_enabled cs)"

lemma plain_encrypt: "plain_storage svc \<Longrightarrow> encrypt_temp svc env tp hash f = (Inr (tp, hash), f)"
  by (simp add: plain_storage_def encrypt_temp_def split: option.splits)

lemma file_call_calm: "LS_calm f \<Longrightarrow> file_call f = (Inr (), f)"
  by (simp add: file_call_def fs_pop_calm)

text \<open>What a completed upload has stored: the temp file at its path, with a record of its size
  and hash, and nothing else.\<close>

definition stores :: "string \<Rightarrow> string \<Rightarrow> bytes \<Rightarrow> string \<Rightarrow> ('a, 'ss, 'l) xfer \<Rightarrow> ('a, 'ss, 'l) xfer \<Rightarrow> bool" where
  "stores rootDir p b hash w w' \<longleftrightarrow>
     LS_view rootDir (xf_fs w') = (LS_view rootDir (xf_fs w))(p \<mapsto> b) \<and> LS_inv rootDir (xf_fs w') \<and>
     LS_calm (xf_fs w') \<and> db_wf (xf_db w') \<and>
     (\<exists>m. live_file (xf_db w') = (live_file (xf_db w))(p \<mapsto> m) \<and> fm_Size m = int (length b) \<and> fm_Hash m = hash)"

lemma CompleteUpload_stores:
  assumes st: "ts_storage svc = NewLocalStorage rootDir" "ok_root rootDir" "plain_storage svc" "db_wf (xf_db w)"
    and tr: "up_track svc sid w0 w ws" and s0: "xf_uploads w0 sid = Some s0" and p: "safe_path (us_FilePath s0)"
    and out: "\<not> starts_with (root_elems rootDir) (fs_key (xf_fs w) (tempPath svc sid))"
    and c: "CompleteUpload svc env sid w = (Inr r, w')"
  shows "stores rootDir (us_FilePath s0) (written ws (zeros (us_TotalSize s0))) (us_Hash s0) w w' \<and>
    wrap64 (sent ws) = us_TotalSize s0 \<and> xf_count w' = xf_count w - 1 \<and> xf_uploads w' sid = None \<and>
    (us_Hash s0 \<noteq> [] \<longrightarrow> xe_sha env (written ws (zeros (us_TotalSize s0))) = us_Hash s0) \<and>
    cu_HashVerified r = (us_Hash s0 \<noteq> [])"
proof -
  let ?tp = "tempPath svc sid" let ?b = "written ws (zeros (us_TotalSize s0))"
  obtain s where s: "xf_uploads w sid = Some s" "us_TotalSize s = us_TotalSize s0"
      "us_Hash s = us_Hash s0" "us_FilePath s = us_FilePath s0" "us_FileName s = us_FileName s0"
      "writes_in (us_TotalSize s) ws" "us_UploadedSize s = wrap64 (sent ws)"
    and t: "temp_is (xf_fs w) ?tp ?b" and h: "hash_inv s ?b"
    using tr s0 by (auto simp: up_track_def)
  have lu: "load_upload svc env sid w = (Some s, w)" using s(1) by (simp add: load_upload_def)
  have calm: "LS_calm (xf_fs w)" and tree: "fs_tree (xf_fs w)" using t by (simp_all add: temp_is_def)
  have sz: "us_UploadedSize s = us_TotalSize s"
    using c unfolding CompleteUpload_def lu prod.case option.case by (simp split: if_splits)
  have close: "close_temp s ?tp (xf_fs w) = (Inr (), xf_fs w)" using file_call_calm [OF calm] by (simp add: close_temp_def)
  note chk = check_hash_ref [OF t h sz, of env]
  have len: "int (length ?b) = us_TotalSize s0" using h s(2) by (simp add: hash_inv_def)
  let ?w1 = "w\<lparr>xf_uploads := (xf_uploads w)(sid \<mapsto> s\<lparr>us_closed := True\<rparr>), xf_fs := xf_fs w\<rparr>"
  have hv: "us_Hash s0 = [] \<or> xe_sha env ?b = us_Hash s0"
    using c sz unfolding CompleteUpload_def lu prod.case option.case Let_def close
    by (auto simp: close chk check_file_hash_def s(3) split: if_splits)
  obtain x w4 where x: "store_temp svc env False (us_FilePath s0) (us_FileName s) (us_TotalSize s0) ?tp (us_Hash s0) ?w1 = (x, w4)"
    by fastforce
  have ch: "check_hash env s ?tp (xf_fs w) = (Inr (us_Hash s0 \<noteq> []), xf_fs w)" using chk hv s(3) by (auto simp: check_file_hash_def)
  obtain m where m: "x = Inr m" and w': "xf_fs w' = xf_fs w4" "xf_db w' = xf_db w4" "xf_count w' = xf_count w4 - 1"
      "xf_uploads w' sid = None" and r: "cu_HashVerified r = (us_Hash s0 \<noteq> [])"
    using c sz x unfolding CompleteUpload_def lu prod.case option.case Let_def
    by (cases x) (auto simp: close ch plain_encrypt [OF st(3)] s end_upload_def releaseSessionSlot_def)
  have "LS_inv rootDir (xf_fs ?w1)" using st(2) tree by (simp add: LS_inv_def)
  from store_temp_ok [OF st(1) this _ p _ _ x [unfolded m]] t out st(4)
  have "LS_view rootDir (xf_fs w4) = (LS_view rootDir (xf_fs w))(us_FilePath s0 \<mapsto> ?b)" "db_wf (xf_db w4)"
    "LS_inv rootDir (xf_fs w4)" "LS_calm (xf_fs w4)"
    "live_file (xf_db w4) = (live_file (xf_db w))(us_FilePath s0 \<mapsto> m)" "fm_Size m = us_TotalSize s0" "fm_Hash m = us_Hash s0"
    "xf_count w4 = xf_count w" by simp_all
  with w' r hv sz s(2,7) len show ?thesis by (auto simp: stores_def)
qed

text \<open>A session from its creation to its completion, whatever it accepted in between.\<close>

lemma session_stores:
  assumes st: "ts_storage svc = NewLocalStorage rootDir" "plain_storage svc" "LS_inv rootDir (xf_fs w)" "LS_calm (xf_fs w)"
      "db_wf (xf_db w)" "safe_path (NormalizePath path)" "0 \<le> tot" "tot \<le> max_int64"
    and out: "\<not> starts_with (root_elems rootDir) (fs_key (xf_fs w) (tempPath svc sid))"
    and c: "CreateUploadSession svc env path name tot client hash w = (Inr sid, w1)"
    and t2: "up_track svc sid w1 w2 ws"
    and d: "CompleteUpload svc env2 sid w2 = (Inr res, w3)"
  shows "\<exists>b. b = written ws (zeros tot) \<and> int (length b) = tot \<and> stores rootDir (NormalizePath path) b hash w w3 \<and>
    (hash \<noteq> [] \<longrightarrow> xe_sha env2 b = hash) \<and> cu_HashVerified res = (hash \<noteq> []) \<and>
    xf_uploads w3 sid = None \<and> xf_count w3 = xf_count w"
proof -
  have ok: "ok_root rootDir" "fs_tree (xf_fs w)" using st(3) by (auto simp: LS_inv_def)
  from CreateUploadSession_track [OF ok(2) st(4,7,8) c] obtain s where t1: "up_track svc sid w1 w1 []"
    "xf_db w1 = xf_db w" "xf_count w1 = xf_count w + 1" "only_temp (tempPath svc sid) (xf_fs w) (xf_fs w1)"
    and s: "xf_uploads w1 sid = Some s" "us_TotalSize s = tot" "us_Hash s = hash" "us_FilePath s = NormalizePath path" by auto
  have w2: "xf_db w2 = xf_db w" "xf_count w2 = xf_count w + 1" "only_temp (tempPath svc sid) (xf_fs w1) (xf_fs w2)"
    using t1 t2 by (simp_all add: up_track_def)
  have ot: "only_temp (tempPath svc sid) (xf_fs w) (xf_fs w2)" by (rule only_temp_trans [OF t1(4) w2(3)])
  have out2: "\<not> starts_with (root_elems rootDir) (fs_key (xf_fs w2) (tempPath svc sid))" using out only_temp_key [OF ot] by simp
  have wf: "db_wf (xf_db w2)" using w2(1) st(5) by simp
  have "int (length (written ws (zeros tot))) = tot" using t2 s(1,2) by (auto simp: up_track_def hash_inv_def)
  moreover have "LS_view rootDir (xf_fs w2) = LS_view rootDir (xf_fs w)" by (rule only_temp_view [OF ot out])
  ultimately show ?thesis
    using CompleteUpload_stores [OF st(1) ok(1) st(2) wf t2 s(1) _ out2 d] s(2-4) st(6) w2 by (auto simp: stores_def)
qed

section \<open>An upload in order completes\<close>

text \<open>The lock of a session is free again after each call, whatever the clock did meanwhile.\<close>

lemma local_acquire_free:
  assumes "l key = None" "0 < retries"
  shows "AcquireLock LocalDistributedLock env key ttl retries delay l =
    (Inr (ae_token (env 0)), l(key \<mapsto> \<lparr>le_token = ae_token (env 0), le_expiry = (if 0 < ttl then ae_now (env 0) + ttl else 0)\<rparr>), [])"
proof -
  obtain n where "nat retries = Suc n" using assms(2) by (cases "nat retries") auto
  with assms(1) show ?thesis by (simp add: AcquireLock_def LocalDistributedLock_def Local_Lock_def Let_def)
qed

lemma local_release_free:
  "l key = None \<Longrightarrow> snd (dl_Unlock LocalDistributedLock now key token (l(key \<mapsto> \<lparr>le_token = token, le_expiry = t\<rparr>))) = l"
  by (auto simp: LocalDistributedLock_def Local_Unlock_def fun_upd_idem)

lemma chunk_accepted:
  assumes tr: "up_track svc sid w0 w ws" and s0: "xf_uploads w0 sid = Some s0" "\<not> us_closed s0"
    and dl: "ts_distLock svc = LocalDistributedLock" "xf_lock w (''upload:'' @ sid) = None"
    and o: "0 \<le> ofs" "ofs + int (length data) \<le> us_TotalSize s0"
  shows "\<exists>w'. UploadChunk svc env sid data ofs w = (Inr (), w') \<and> xf_lock w' = xf_lock w"
proof -
  let ?tp = "tempPath svc sid"
  obtain s where s: "xf_uploads w sid = Some s" "us_TotalSize s = us_TotalSize s0" "\<not> us_closed s"
    and t: "temp_is (xf_fs w) ?tp (written ws (zeros (us_TotalSize s)))" and h: "hash_inv s (written ws (zeros (us_TotalSize s)))"
    using tr s0 by (auto simp: up_track_def)
  have m: "ofs + int (length data) \<le> max_int64" using o s(2) h by (simp add: hash_inv_def)
  have wr: "wrap64 (ofs + int (length data)) = ofs + int (length data)" using o m by (intro wrap64_small) auto
  have lu: "load_upload svc env sid w = (Some s, w)" using s(1) by (simp add: load_upload_def)
  have "\<exists>w1. chunk_body svc env sid s data ofs (w\<lparr>xf_lock := l\<rparr>) = (Inr (), w1) \<and> xf_lock w1 = l" for l
    using s o m wr temp_WriteAt [OF t, of data ofs] temp_open [OF t] by (simp add: chunk_body_def Let_def)
  then obtain w1 where b: "chunk_body svc env sid s data ofs (w\<lparr>xf_lock :=
      (xf_lock w)((''upload:'' @ sid) \<mapsto> \<lparr>le_token = ae_token (fe_acq (xe_fm env) 0),
        le_expiry = ae_now (fe_acq (xe_fm env) 0) + 10 * Dist_Lock.second\<rparr>)\<rparr>) = (Inr (), w1)"
    "xf_lock w1 = (xf_lock w)((''upload:'' @ sid) \<mapsto> \<lparr>le_token = ae_token (fe_acq (xe_fm env) 0),
        le_expiry = ae_now (fe_acq (xe_fm env) 0) + 10 * Dist_Lock.second\<rparr>)" by metis
  note a = local_acquire_free [of "xf_lock w" "''upload:'' @ sid" 10, OF dl(2),
      of "fe_acq (xe_fm env)" "10 * Dist_Lock.second" "100 * millisecond"]
  note u = local_release_free [of "xf_lock w" "''upload:'' @ sid", OF dl(2)]
  show ?thesis
    using b u a unfolding UploadChunk_def lu prod.case option.case dl(1) by simp
qed

text \<open>Chunks sent one after the other.\<close>

fun in_order :: "int \<Rightarrow> ('e \<times> bytes) list \<Rightarrow> ('e \<times> bytes \<times> int) list" where
  "in_order ofs [] = []"
| "in_order ofs ((e, data) # cs) = (e, data, ofs) # in_order (ofs + int (length data)) cs"

definition chunk_data :: "('e \<times> bytes) list \<Rightarrow> bytes" where "chunk_data cs = concat (map snd cs)"

lemma chunk_data_simps [simp]: "chunk_data [] = []" "chunk_data ((e, data) # cs) = data @ chunk_data cs"
  by (simp_all add: chunk_data_def)

lemma overlay_at_end:
  "length pre + length data \<le> length pre + length rest \<Longrightarrow> overlay (pre @ rest) (length pre) data = (pre @ data) @ drop (length data) rest"
  by (cases "data = []") (simp_all add: overlay_def)

lemma written_in_order:
  "length (chunk_data cs) \<le> length rest \<Longrightarrow>
   written (map (\<lambda>(e, data, ofs). (ofs, data)) (in_order (int (length pre)) cs)) (pre @ rest) =
     pre @ chunk_data cs @ drop (length (chunk_data cs)) rest"
proof (induction cs arbitrary: pre rest)
  case (Cons c cs)
  obtain e data where c: "c = (e, data)" by (cases c)
  have len: "int (length pre) + int (length data) = int (length (pre @ data))" by simp
  have "length (chunk_data cs) \<le> length (drop (length data) rest)" using Cons.prems c by simp
  from Cons.IH [OF this, of "pre @ data"] show ?case
    using Cons.prems c overlay_at_end [of pre data rest] by (simp add: len del: of_nat_add append_assoc length_append) (simp add: ac_simps)
qed simp

lemma sent_in_order: "sent (map (\<lambda>(e, data, ofs). (ofs, data)) (in_order k cs)) = int (length (chunk_data cs))"
  by (induction cs arbitrary: k) (auto simp: sent_def)

lemma run_in_order:
  assumes "up_track svc sid w0 w ws" and s0: "xf_uploads w0 sid = Some s0" "\<not> us_closed s0"
    and dl: "ts_distLock svc = LocalDistributedLock" and "xf_lock w (''upload:'' @ sid) = None"
    and "0 \<le> k" "k + int (length (chunk_data cs)) \<le> us_TotalSize s0"
  shows "\<exists>w'. run_puts (\<lambda>env. UploadChunk svc env sid) (in_order k cs) w =
      (map (\<lambda>(e, data, ofs). (ofs, data)) (in_order k cs), w') \<and> xf_lock w' = xf_lock w"
  using assms(1,5,6,7)
proof (induction cs arbitrary: k w ws)
  case (Cons c cs)
  obtain e data where c: "c = (e, data)" by (cases c)
  have o: "0 \<le> k" "k + int (length data) \<le> us_TotalSize s0" using Cons.prems(3,4) c by auto
  obtain w1 where w1: "UploadChunk svc e sid data k w = (Inr (), w1)" "xf_lock w1 = xf_lock w"
    using chunk_accepted [OF Cons.prems(1) s0 dl Cons.prems(2) o] by blast
  have "up_track svc sid w0 w1 (ws @ [(k, data)])" using up_track_chunk [OF Cons.prems(1) w1(1)] by simp
  from Cons.IH [OF this _ _ _, of "k + int (length data)"] Cons.prems(2,3,4) c w1 show ?case by auto
qed simp

lemma commit_meta_total:
  assumes "db_wf d" "db_faults d = []" "safe_path p" "fe_uuid env \<notin> set (map fm_ID (t_files d))"
  shows "\<exists>m d'. commit_meta st env p name sz hash (f, d) = (Inr m, f, d') \<and> db_faults d' = []"
proof -
  have n: "NormalizePath p = p" using assms(3) by simp
  have ge: "File_GetByPath p d = (Inr (live_file d p), d)" using File_Get_ok [OF assms(2)] n by simp
  show ?thesis
  proof (cases "live_file d p")
    case None
    let ?m = "\<lparr>fm_ID = fe_uuid env, fm_Path = p, fm_Name = name, fm_Size = sz, fm_Hash = hash,
                fm_StorageType = sa_StorageType st, fm_StorageLocation = [], fm_CreatedAt = fe_ts env,
                fm_UpdatedAt = fe_ts env, fm_IsDeleted = False\<rparr>"
    obtain d' where "File_Create ?m d = (Inr (), d')" "db_faults d' = []"
      using File_Create_free [OF assms(1,2), of ?m] None n assms(4) by auto
    with ge None show ?thesis by (simp add: commit_meta_def Let_def)
  next
    case (Some r)
    let ?m = "r\<lparr>fm_Size := sz, fm_Hash := hash, fm_UpdatedAt := fe_ts env, fm_IsDeleted := False\<rparr>"
    obtain d' where "File_Update ?m d = (Inr (), d')" "db_faults d' = []"
      using File_Update_in_place [OF assms(1,2) Some, of ?m] by auto
    with ge Some show ?thesis by (simp add: commit_meta_def Let_def)
  qed
qed

lemma CompleteUpload_total:
  assumes st: "ts_storage svc = NewLocalStorage rootDir" "ok_root rootDir" "plain_storage svc"
      "ts_distLock svc = LocalDistributedLock" "xf_lock w (''file:'' @ us_FilePath s0) = None"
    and db: "db_wf (xf_db w)" "db_faults (xf_db w) = []" "fe_uuid (xe_fm env) \<notin> set (map fm_ID (t_files (xf_db w)))"
    and tr: "up_track svc sid w0 w ws" and s0: "xf_uploads w0 sid = Some s0" and p: "safe_path (us_FilePath s0)"
    and out: "\<not> starts_with (root_elems rootDir) (fs_key (xf_fs w) (tempPath svc sid))"
    and v: "validateTempFilePath (tempPath svc sid) (xf_fs w) = Inr ()" "LS_writable rootDir (xf_fs w) (us_FilePath s0)"
    and sz: "wrap64 (sent ws) = us_TotalSize s0"
    and hash: "us_Hash s0 = [] \<or> xe_sha env (written ws (zeros (us_TotalSize s0))) = us_Hash s0"
  shows "\<exists>r w'. CompleteUpload svc env sid w = (Inr r, w') \<and> db_faults (xf_db w') = []"
proof -
  let ?tp = "tempPath svc sid" let ?b = "written ws (zeros (us_TotalSize s0))"
  obtain s where s: "xf_uploads w sid = Some s" "us_TotalSize s = us_TotalSize s0"
      "us_Hash s = us_Hash s0" "us_FilePath s = us_FilePath s0" "us_FileName s = us_FileName s0"
      "us_UploadedSize s = us_TotalSize s0"
    and t: "temp_is (xf_fs w) ?tp ?b" and h: "hash_inv s ?b"
    using tr s0 sz by (auto simp: up_track_def)
  have lu: "load_upload svc env sid w = (Some s, w)" using s(1) by (simp add: load_upload_def)
  have calm: "LS_calm (xf_fs w)" and tree: "LS_inv rootDir (xf_fs w)" using t st(2) by (simp_all add: temp_is_def LS_inv_def)
  have close: "close_temp s ?tp (xf_fs w) = (Inr (), xf_fs w)" using file_call_calm [OF calm] by (simp add: close_temp_def)
  have ch: "check_hash env s ?tp (xf_fs w) = (Inr (us_Hash s0 \<noteq> []), xf_fs w)"
    using check_hash_ref [OF t h, of env] hash s by (auto simp: check_file_hash_def)
  obtain x f1 where x: "LS_WriteFromTempFile rootDir (us_FilePath s0) ?tp (xf_fs w) = (x, f1)" by fastforce
  have ok: "x = Inr ()" using LS_WriteFromTempFile_full [OF tree p t out x] v by blast
  obtain m d' where cm: "commit_meta (ts_storage svc) (xe_fm env) (us_FilePath s0) (us_FileName s) (us_TotalSize s0) (us_Hash s0) (f1, xf_db w) = (Inr m, f1, d')"
    and d': "db_faults d' = []"
    using commit_meta_total [OF db(1,2) p db(3), of "ts_storage svc" "us_FileName s" "us_TotalSize s0" "us_Hash s0" f1] by blast
  have "\<exists>w4. store_temp svc env False (us_FilePath s0) (us_FileName s) (us_TotalSize s0) ?tp (us_Hash s0)
      (w\<lparr>xf_uploads := u, xf_fs := xf_fs w\<rparr>) = (Inr m, w4) \<and> xf_db w4 = d'" for u
    using x ok cm st(1) local_acquire_free [of "xf_lock w" "''file:'' @ us_FilePath s0" 30, OF st(5)]
    by (simp add: store_temp_def AcquireLockWithRenewal_def st(4) NewLocalStorage_def Let_def)
  then obtain w4 where "store_temp svc env False (us_FilePath s0) (us_FileName s) (us_TotalSize s0) ?tp (us_Hash s0)
      (w\<lparr>xf_uploads := (xf_uploads w)(sid \<mapsto> s\<lparr>us_closed := True\<rparr>), xf_fs := xf_fs w\<rparr>) = (Inr m, w4)" "xf_db w4 = d'" by blast
  then show ?thesis unfolding CompleteUpload_def lu prod.case option.case Let_def
    by (simp add: close ch plain_encrypt [OF st(3)] s d' end_upload_def releaseSessionSlot_def)
qed

section \<open>Downloads\<close>

lemma plain_download:
  assumes st: "ts_storage svc = NewLocalStorage rootDir" "plain_storage svc"
    and i: "LS_inv rootDir (xf_fs w)" "LS_calm (xf_fs w)" and db: "db_wf (xf_db w)" "db_faults (xf_db w) = []"
    and p: "safe_path (NormalizePath path)" "LS_view rootDir (xf_fs w) (NormalizePath path) = Some b"
    and m: "live_file (xf_db w) (NormalizePath path) = Some m" "fm_Size m = int (length b)"
  shows "\<exists>w'. CreateDownloadSession svc env path client w = (Inr (xe_sid env), w') \<and>
    (\<forall>env' sz ofs. 0 < sz \<longrightarrow> 0 \<le> ofs \<longrightarrow> ofs < int (length b) \<longrightarrow>
       fst (DownloadChunk svc env' (xe_sid env) sz ofs w') = Inr (take (nat sz) (drop (nat ofs) b)))"
proof -
  let ?p = "NormalizePath path"
  have n: "NormalizePath ?p = ?p" using p(1) by simp
  have ge: "File_GetByPath ?p (xf_db w) = (Inr (Some m), xf_db w)" using File_Get_ok [OF db(2)] n m(1) by simp
  obtain s w' where c: "CreateDownloadSession svc env path client w = (Inr (xe_sid env), w')"
    and s: "xf_downloads w' (xe_sid env) = Some s" "ds_FilePath s = ?p" "ds_TotalSize s = int (length b)" "\<not> ds_decryptedFile s"
    and w': "xf_fs w' = xf_fs w"
    using ge st(2) m(2) unfolding CreateDownloadSession_def Let_def
    by (auto simp: plain_storage_def split: option.splits)
  have rd: "sa_ReadAt (ts_storage svc) ?p sz ofs (xf_fs w) = (Inr (take (nat sz) (drop (nat ofs) b)), xf_fs w)"
    if "0 < sz" "0 \<le> ofs" for sz ofs
    using local_storage.readAt_ok [OF i p that] st(1) by simp
  have "fst (DownloadChunk svc env' (xe_sid env) sz ofs w') = Inr (take (nat sz) (drop (nat ofs) b))"
    if "0 < sz" "0 \<le> ofs" "ofs < int (length b)" for env' sz ofs
    using that s w' rd [OF that(1,2)] by (simp add: DownloadChunk_def load_download_def read_chunk_def Let_def)
  with c show ?thesis by blast
qed

lemma fst_pair: "fst p = a \<Longrightarrow> p = (a, snd p)"
  by auto

lemma sample_xfer_facts:
  "ts_storage sample_svc = NewLocalStorage ''/srv/data''" "plain_storage sample_svc" "ts_distLock sample_svc = LocalDistributedLock"
  "LS_inv ''/srv/data'' (xf_fs sample_xfer)" "LS_calm (xf_fs sample_xfer)" "db_wf (xf_db sample_xfer)" "db_faults (xf_db sample_xfer) = []"
  by (simp_all add: sample_svc_def plain_storage_def sample_xfer_def sample_fs_def LS_inv_def LS_calm_def ok_root_def root_elems_def
      abs_of_def proper_name_def fs_tree_def fs_get_def db_wf_def empty_db_def file_unique_def dir_unique_def task_unique_def
      audit_unique_def key_unique_def)

section \<open>Properties of plain uploads\<close>

text \<open>
  C21: what a completed upload stores.  On a local storage with a working disk and any database,
  create an upload session, send any chunks in any order and complete it.  If the completion
  reports success then the file consists exactly of the accepted chunks, written in the order
  they were accepted over a file of zeros of the announced size; its record has that size and the
  client's hash; if the client gave a hash it is the hash of the stored bytes; no other file or
  record changed; and the session and its slot are gone.
\<close>

theorem chunked_upload_integrity:
  assumes st: "ts_storage svc = NewLocalStorage rootDir" "plain_storage svc" "LS_inv rootDir (xf_fs w)" "LS_calm (xf_fs w)"
      "db_wf (xf_db w)" "safe_path (NormalizePath path)" "0 \<le> tot" "tot \<le> max_int64"
    and out: "\<not> starts_with (root_elems rootDir) (fs_key (xf_fs w) (tempPath svc sid))"
    and c: "CreateUploadSession svc env path name tot client hash w = (Inr sid, w1)"
    and r: "run_puts (\<lambda>env. UploadChunk svc env sid) cs w1 = (ws, w2)"
    and d: "CompleteUpload svc env2 sid w2 = (Inr res, w3)"
  shows "\<exists>b. b = written ws (zeros tot) \<and> int (length b) = tot \<and> stores rootDir (NormalizePath path) b hash w w3 \<and>
    (hash \<noteq> [] \<longrightarrow> xe_sha env2 b = hash) \<and> cu_HashVerified res = (hash \<noteq> []) \<and>
    xf_uploads w3 sid = None \<and> xf_count w3 = xf_count w"
proof -
  have "fs_tree (xf_fs w)" using st(3) by (simp add: LS_inv_def)
  from CreateUploadSession_track [OF this st(4,7,8) c] have "up_track svc sid w1 w1 []" by blast
  from uploads.run_tracks [OF this r] have "up_track svc sid w1 w2 ws" by simp
  from session_stores [OF st out c this d] show ?thesis by blast
qed

theorem chunked_upload_integrity_witness:
  "let c = CreateUploadSession sample_svc sample_xenv ''/a.txt'' ''a.txt'' 3 ''c'' ''habc'' sample_xfer;
       r = run_puts (\<lambda>env. UploadChunk sample_svc env ''s1'') [(sample_xenv, ''c'', 2), (sample_xenv, ''x'', 3), (sample_xenv, ''ab'', 0)] (snd c);
       d = CompleteUpload sample_svc sample_xenv ''s1'' (snd r)
   in (\<exists>res. fst d = Inr res) \<and> stores ''/srv/data'' ''a.txt'' ''abc'' ''habc'' sample_xfer (snd d)"
proof -
  let ?c = "CreateUploadSession sample_svc sample_xenv ''/a.txt'' ''a.txt'' 3 ''c'' ''habc'' sample_xfer"
  let ?r = "run_puts (\<lambda>env. UploadChunk sample_svc env ''s1'') [(sample_xenv, ''c'', 2), (sample_xenv, ''x'', 3), (sample_xenv, ''ab'', 0)] (snd ?c)"
  let ?d = "CompleteUpload sample_svc sample_xenv ''s1'' (snd ?r)"
  have f: "fst ?c = Inr ''s1''" "fst ?r = [(2, ''c''), (0, ''ab'')]" by code_simp+
  have "map_sum id (\<lambda>_. ()) (fst ?d) = Inr ()" by code_simp
  then obtain res where res: "fst ?d = Inr res" by (cases "fst ?d") simp_all
  note e = fst_pair [OF f(1)] fst_pair [OF f(2)] fst_pair [OF res]
  have n: "NormalizePath ''/a.txt'' = ''a.txt''" "written [(2, ''c''), (0, ''ab'')] (zeros 3) = ''abc''" by code_simp+
  have "\<not> starts_with (root_elems ''/srv/data'') (fs_key (xf_fs sample_xfer) (tempPath sample_svc ''s1''))" by code_simp
  from chunked_upload_integrity [OF sample_xfer_facts(1,2,4-6) _ _ _ this e] n(2) res
  show ?thesis by (simp add: n(1) Let_def safe_path_def proper_name_def max_int64_def)
qed

text \<open>
  C22: an upload in order completes and is downloaded as it was sent.  On a local storage with a
  working disk and database, with temp files in the system's temp directory, free locks and a
  fresh record id: once the session is created, chunks sent one after the other are all accepted
  and the completion succeeds if the client's hash, if any, is right; a download session
  can then be opened, and every read in range returns the bytes that were uploaded.
\<close>

theorem chunked_roundtrip:
  assumes st: "ts_storage svc = NewLocalStorage rootDir" "plain_storage svc" "LS_inv rootDir (xf_fs w)" "LS_calm (xf_fs w)"
      "db_wf (xf_db w)" "safe_path (NormalizePath path)" "int (length (chunk_data cs)) \<le> max_int64"
    and out: "\<not> starts_with (root_elems rootDir) (fs_key (xf_fs w) (tempPath svc sid))"
    and ok: "db_faults (xf_db w) = []" "validateTempFilePath (tempPath svc sid) (xf_fs w) = Inr ()"
      "fe_uuid (xe_fm env2) \<notin> set (map fm_ID (t_files (xf_db w)))"
    and dl: "ts_distLock svc = LocalDistributedLock" "xf_lock w1 (''upload:'' @ sid) = None" "xf_lock w1 (''file:'' @ NormalizePath path) = None"
    and c: "CreateUploadSession svc env path name (int (length (chunk_data cs))) client hash w = (Inr sid, w1)"
    and wr: "LS_writable rootDir (xf_fs w1) (NormalizePath path)"
    and h: "hash = [] \<or> xe_sha env2 (chunk_data cs) = hash"
  shows "\<exists>w2 res w3 w4. run_puts (\<lambda>env. UploadChunk svc env sid) (in_order 0 cs) w1 =
      (map (\<lambda>(e, data, ofs). (ofs, data)) (in_order 0 cs), w2) \<and>
    CompleteUpload svc env2 sid w2 = (Inr res, w3) \<and> CreateDownloadSession svc env3 path client3 w3 = (Inr (xe_sid env3), w4) \<and>
    (\<forall>env4 sz ofs. 0 < sz \<longrightarrow> 0 \<le> ofs \<longrightarrow> ofs < int (length (chunk_data cs)) \<longrightarrow>
       fst (DownloadChunk svc env4 (xe_sid env3) sz ofs w4) = Inr (take (nat sz) (drop (nat ofs) (chunk_data cs))))"
proof -
  let ?n = "int (length (chunk_data cs))" let ?ws = "map (\<lambda>(e, data, ofs). (ofs, data)) (in_order 0 cs)" let ?tp = "tempPath svc sid"
  have root: "ok_root rootDir" "fs_tree (xf_fs w)" using st(3) by (auto simp: LS_inv_def)
  have n0: "0 \<le> ?n" by simp
  from CreateUploadSession_track [OF root(2) st(4) n0 st(7) c] obtain s where t1: "up_track svc sid w1 w1 []"
    "xf_db w1 = xf_db w" "only_temp ?tp (xf_fs w) (xf_fs w1)" and s: "xf_uploads w1 sid = Some s" "us_TotalSize s = ?n"
    "us_Hash s = hash" "us_FilePath s = NormalizePath path" "\<not> us_closed s" by auto
  obtain w2 where r: "run_puts (\<lambda>env. UploadChunk svc env sid) (in_order 0 cs) w1 = (?ws, w2)" "xf_lock w2 = xf_lock w1"
    using run_in_order [OF t1(1) s(1,5) dl(1,2), of 0 cs] s(2) by auto
  have t2: "up_track svc sid w1 w2 ?ws" using uploads.run_tracks [OF t1(1) r(1)] by simp
  have db2: "xf_db w2 = xf_db w" and ot: "only_temp ?tp (xf_fs w) (xf_fs w2)"
    using t2 t1 only_temp_trans by (auto simp: up_track_def)
  have cont: "written ?ws (zeros (us_TotalSize s)) = chunk_data cs"
    using written_in_order [of cs "zeros ?n" "[]"] s(2) by simp
  have sz: "wrap64 (sent ?ws) = us_TotalSize s" using s(2) st(7) by (simp add: sent_in_order wrap64_small)
  have out2: "\<not> starts_with (root_elems rootDir) (fs_key (xf_fs w2) ?tp)" using out only_temp_key [OF ot] by simp
  obtain b1 b2 where "only_temp ?tp (xf_fs w1) (xf_fs w2)" "temp_is (xf_fs w1) ?tp b1" "temp_is (xf_fs w2) ?tp b2"
    using t1(1) t2 by (auto simp: up_track_def)
  then have wr2: "LS_writable rootDir (xf_fs w2) (us_FilePath s)" using only_temp_writable [of ?tp "xf_fs w1" "xf_fs w2"] wr s(4) by simp
  have v2: "validateTempFilePath ?tp (xf_fs w2) = Inr ()" using ok(2) only_temp_valid [OF ot] by simp
  have fl: "xf_lock w2 (''file:'' @ us_FilePath s) = None" using r(2) dl(3) s(4) by simp
  have sp: "safe_path (us_FilePath s)" using s(4) st(6) by simp
  have db: "db_wf (xf_db w2)" "db_faults (xf_db w2) = []" "fe_uuid (xe_fm env2) \<notin> set (map fm_ID (t_files (xf_db w2)))"
    using db2 st(5) ok by simp_all
  obtain res w3 where d: "CompleteUpload svc env2 sid w2 = (Inr res, w3)" "db_faults (xf_db w3) = []"
    using CompleteUpload_total [OF st(1) root(1) st(2) dl(1) fl db t2 s(1) sp out2 v2 wr2 sz] cont h s(3) by auto
  have sto: "stores rootDir (us_FilePath s) (chunk_data cs) hash w2 w3"
    using CompleteUpload_stores [OF st(1) root(1) st(2) db(1) t2 s(1) sp out2 d(1)] cont s(3) by simp
  then obtain m where "LS_inv rootDir (xf_fs w3)" "LS_calm (xf_fs w3)" "db_wf (xf_db w3)"
    "LS_view rootDir (xf_fs w3) (NormalizePath path) = Some (chunk_data cs)"
    "live_file (xf_db w3) (NormalizePath path) = Some m" "fm_Size m = ?n" using s(4) by (auto simp: stores_def)
  from plain_download [OF st(1,2) this(1,2,3) d(2) st(6) this(4,5,6), of env3 client3] r(1) d(1) show ?thesis by blast
qed

theorem chunked_roundtrip_witness:
  "let c = CreateUploadSession sample_svc sample_xenv ''/a.txt'' ''a.txt'' 3 ''c'' ''habc'' sample_xfer
   in \<exists>w2 res w3 w4. run_puts (\<lambda>env. UploadChunk sample_svc env ''s1'') [(sample_xenv, ''ab'', 0), (sample_xenv, ''c'', 2)] (snd c) =
        ([(0, ''ab''), (2, ''c'')], w2) \<and>
      CompleteUpload sample_svc sample_xenv ''s1'' w2 = (Inr res, w3) \<and>
      CreateDownloadSession sample_svc sample_xenv ''/a.txt'' ''d'' w3 = (Inr ''s1'', w4) \<and>
      fst (DownloadChunk sample_svc sample_xenv ''s1'' 10 1 w4) = Inr ''bc''"
proof -
  let ?c = "CreateUploadSession sample_svc sample_xenv ''/a.txt'' ''a.txt'' 3 ''c'' ''habc'' sample_xfer"
  let ?cs = "[(sample_xenv, ''ab''), (sample_xenv, ''c'')]"
  have "fst ?c = Inr ''s1''" by code_simp
  then have "?c = (Inr ''s1'', snd ?c)" by (rule fst_pair)
  then have c: "CreateUploadSession sample_svc sample_xenv ''/a.txt'' ''a.txt'' (int (length (chunk_data ?cs))) ''c'' ''habc'' sample_xfer = (Inr ''s1'', snd ?c)"
    by simp
  have n: "NormalizePath ''/a.txt'' = ''a.txt''" by code_simp
  have o: "\<not> starts_with (root_elems ''/srv/data'') (fs_key (xf_fs sample_xfer) (tempPath sample_svc ''s1''))" by code_simp
  have v: "validateTempFilePath (tempPath sample_svc ''s1'') (xf_fs sample_xfer) = Inr ()"
    "fe_uuid (xe_fm sample_xenv) \<notin> set (map fm_ID (t_files (xf_db sample_xfer)))"
    "xf_lock (snd ?c) (''upload:'' @ ''s1'') = None" "xf_lock (snd ?c) (''file:'' @ ''a.txt'') = None"
    "LS_writable ''/srv/data'' (xf_fs (snd ?c)) ''a.txt''" "xe_sha sample_xenv (chunk_data ?cs) = ''habc''" by code_simp+
  have sp: "safe_path (NormalizePath ''/a.txt'')" unfolding n by (simp add: safe_path_def proper_name_def)
  have m: "int (length (chunk_data ?cs)) \<le> max_int64" by (simp add: max_int64_def)
  have sid: "xe_sid sample_xenv = ''s1''" by (simp add: sample_xenv_def)
  from chunked_roundtrip [OF sample_xfer_facts(1,2,4-6) sp m o sample_xfer_facts(7) v(1,2) sample_xfer_facts(3) v(3) _ c,
      of sample_xenv "''d''"] v(4-6) n
  obtain w2 res w3 w4 where "run_puts (\<lambda>env. UploadChunk sample_svc env ''s1'') (in_order 0 ?cs) (snd ?c) =
      (map (\<lambda>(e, data, ofs). (ofs, data)) (in_order 0 ?cs), w2)" "CompleteUpload sample_svc sample_xenv ''s1'' w2 = (Inr res, w3)"
    "CreateDownloadSession sample_svc sample_xenv ''/a.txt'' ''d'' w3 = (Inr ''s1'', w4)"
    "\<forall>env4 sz ofs. 0 < sz \<longrightarrow> 0 \<le> ofs \<longrightarrow> ofs < int (length (chunk_data ?cs)) \<longrightarrow>
       fst (DownloadChunk sample_svc env4 ''s1'' sz ofs w4) = Inr (take (nat sz) (drop (nat ofs) (chunk_data ?cs)))"
    unfolding sid by auto
  then show ?thesis unfolding Let_def by (intro exI [of _ w2] exI [of _ res] exI [of _ w3] exI [of _ w4]) simp
qed

text \<open>
  A plain upload with a gap is accepted.  \<open>CompleteUpload\<close> compares only the number
  of bytes received with the announced size: two copies of the first byte of a two-byte file
  complete it without a hash, and a zero byte the client never sent is stored.
\<close>

theorem upload_gap_accepted:
  "let c = CreateUploadSession sample_svc sample_xenv ''a.txt'' ''a.txt'' 2 ''c'' [] sample_xfer;
       r = run_puts (\<lambda>env. UploadChunk sample_svc env ''s1'') [(sample_xenv, ''a'', 0), (sample_xenv, ''a'', 0)] (snd c);
       d = CompleteUpload sample_svc sample_xenv ''s1'' (snd r)
   in map_sum id cu_UploadedSize (fst d) = Inr 2 \<and> LS_view ''/srv/data'' (xf_fs (snd d)) ''a.txt'' = Some [CHR ''a'', CHR 0x00]"
  by code_simp

text \<open>
  A configured temp directory outside the system's one breaks every upload.  The local
  storage only takes over temp files whose absolute path starts with the system's temp directory
  or with \<open>/tmp/\<close>.  When \<open>SetTempDir\<close> has set another directory, as the
  configuration advises for instances that share a volume, no completion ever succeeds.
\<close>

theorem configured_temp_dir_never_completes:
  assumes st: "ts_storage svc = NewLocalStorage rootDir" "plain_storage svc" "LS_calm (xf_fs w)"
    and a: "filepath_Abs (xf_fs w) (tempPath svc sid) = Inr p" "\<not> HasPrefix p (fs_tmp (xf_fs w))" "\<not> HasPrefix p ''/tmp/''"
  shows "\<exists>e. fst (CompleteUpload svc env sid w) = Inl e"
proof -
  let ?tp = "tempPath svc sid"
  have v: "\<exists>e. validateTempFilePath ?tp (xf_fs w) = Inl e" using a by (auto simp: validateTempFilePath_def)
  have wt: "\<exists>e f. LS_WriteFromTempFile rootDir q ?tp (xf_fs w) = (Inl e, f)" for q
    using v by (auto simp: LS_WriteFromTempFile_def split: sum.splits)
  have sto: "\<exists>e w''. store_temp svc env False q name sz ?tp hash w' = (Inl e, w'')" if "xf_fs w' = xf_fs w" for q name sz hash w'
    using wt [of q] st(1) that by (auto simp: store_temp_def NewLocalStorage_def Let_def split: prod.splits sum.splits)
  obtain so w0 where lu: "load_upload svc env sid w = (so, w0)" by fastforce
  have w0: "xf_fs w0 = xf_fs w" using lu by (auto simp: load_upload_def Let_def split: option.splits sum.splits prod.splits)
  show ?thesis
  proof (cases so)
    case (Some s)
    have cl: "close_temp s ?tp (xf_fs w) = (Inr (), xf_fs w)" using file_call_calm [OF st(3)] by (simp add: close_temp_def)
    have ch: "check_hash env s ?tp (xf_fs w) = (Inr x, f) \<Longrightarrow> f = xf_fs w" for x f
      using st(3) by (auto simp: check_hash_def Let_def SHA256File_def fs_pop_calm split: option.splits if_splits sum.splits fnode.splits)
    obtain x f where x: "check_hash env s ?tp (xf_fs w) = (x, f)" by fastforce
    show ?thesis
    proof (cases x)
      case (Inr y)
      then show ?thesis using lu Some x ch w0
          sto [of "w0\<lparr>xf_uploads := (xf_uploads w0)(sid \<mapsto> s\<lparr>us_closed := True\<rparr>), xf_fs := xf_fs w\<rparr>" "us_FilePath s" "us_FileName s" "us_TotalSize s" "us_Hash s"]
        by (auto simp: CompleteUpload_def Let_def cl plain_encrypt [OF st(2)])
    qed (use lu Some x w0 in \<open>simp add: CompleteUpload_def Let_def cl\<close>)
  qed (use lu in \<open>simp add: CompleteUpload_def\<close>)
qed

theorem configured_temp_dir_never_completes_witness:
  "\<exists>e. fst (CompleteUpload (sample_svc\<lparr>ts_tempDir := ''/mnt/shared''\<rparr>) sample_xenv ''s1'' sample_xfer) = Inl e \<and>
     filepath_Abs (xf_fs sample_xfer) (tempPath (sample_svc\<lparr>ts_tempDir := ''/mnt/shared''\<rparr>) ''s1'') = Inr ''/mnt/shared/s1.tmp''"
proof -
  let ?svc = "sample_svc\<lparr>ts_tempDir := ''/mnt/shared''\<rparr>"
  have p: "filepath_Abs (xf_fs sample_xfer) (tempPath ?svc ''s1'') = Inr ''/mnt/shared/s1.tmp''"
    "\<not> HasPrefix ''/mnt/shared/s1.tmp'' (fs_tmp (xf_fs sample_xfer))" "\<not> HasPrefix ''/mnt/shared/s1.tmp'' ''/tmp/''" by code_simp+
  have "ts_storage ?svc = NewLocalStorage ''/srv/data''" "plain_storage ?svc"
    using sample_xfer_facts(1,2) by (simp_all add: plain_storage_def)
  from configured_temp_dir_never_completes [OF this sample_xfer_facts(5) p] p(1) show ?thesis by blast
qed

end
