(* ===== verification/Multipart_Integrity.thy ===== *)
theory Multipart_Integrity
  imports Transfer_Integrity
begin

text \<open>
  The multipart upload of \<open>Multipart\<close> from its creation to its completion.
  \<open>UploadPartData\<close> fulfils the contract \<open>chunked_upload\<close> as
  \<open>UploadChunk\<close> does; in addition it records the covered ranges, so that a completed upload
  has every accepted part in place.
\<close>

section \<open>Parts\<close>

definition mp_track ::
  "('a, 'ss, 'l) FileTransferService \<Rightarrow> string \<Rightarrow> ('a, 'ss, 'l) xfer \<Rightarrow> ('a, 'ss, 'l) xfer \<Rightarrow> (int \<times> bytes) list \<Rightarrow> bool"
where
  "mp_track svc sid w0 w ws \<longleftrightarrow>
     (\<exists>s s0. xf_multi w0 sid = Some s0 \<and> xf_multi w sid = Some s \<and> ms_TotalSize s = ms_TotalSize s0 \<and>
        ms_Hash s = ms_Hash s0 \<and> ms_FilePath s = ms_FilePath s0 \<and> ms_FileName s = ms_FileName s0 \<and>
        0 \<le> ms_TotalSize s \<and> ms_TotalSize s \<le> max_int64 \<and>
        writes_in (ms_TotalSize s) ws \<and> ms_uploadedSize s = wrap64 (sent ws) \<and>
        ranges_ok (ms_coveredRanges s) \<and> covered (ms_coveredRanges s) = (\<Union>x \<in> set ws. span x) \<and>
        temp_is (xf_fs w) (tempPath svc sid) (written ws (zeros (ms_TotalSize s)))) \<and>
     xf_db w = xf_db w0 \<and> xf_count w = xf_count w0 \<and> xf_lock w = xf_lock w0 \<and> only_temp (tempPath svc sid) (xf_fs w0) (xf_fs w)"

lemma mp_track_part:
  assumes tr: "mp_track svc sid w0 w ws" and u: "UploadPartData svc env sid pn ofs data w = (r, w')"
  shows "mp_track svc sid w0 w' (case r of Inr _ \<Rightarrow> ws @ [(ofs, data)] | Inl _ \<Rightarrow> ws)"
proof -
  let ?tp = "tempPath svc sid"
  obtain s s0 where s: "xf_multi w0 sid = Some s0" "xf_multi w sid = Some s" "ms_TotalSize s = ms_TotalSize s0"
      "ms_Hash s = ms_Hash s0" "ms_FilePath s = ms_FilePath s0" "ms_FileName s = ms_FileName s0"
      "writes_in (ms_TotalSize s) ws" "ms_uploadedSize s = wrap64 (sent ws)" "0 \<le> ms_TotalSize s" "ms_TotalSize s \<le> max_int64"
    and cov: "ranges_ok (ms_coveredRanges s)" "covered (ms_coveredRanges s) = (\<Union>x \<in> set ws. span x)"
    and t: "temp_is (xf_fs w) ?tp (written ws (zeros (ms_TotalSize s)))"
    and fr: "xf_db w = xf_db w0" "xf_count w = xf_count w0" "xf_lock w = xf_lock w0" "only_temp ?tp (xf_fs w0) (xf_fs w)"
    using tr by (auto simp: mp_track_def)
  show ?thesis
  proof (cases "ms_closed s \<or> ms_Status s \<noteq> ''active'' \<or> pn > 10000 \<or> ofs < 0 \<or> wrap64 (ofs + int (length data)) > ms_TotalSize s \<or>
      max_int64 < ofs + int (length data)")
    case True
    then have "w' = w \<and> (\<exists>e. r = Inl e)" using u s(2) temp_WriteAt [OF t, of data ofs] by (auto simp: UploadPartData_def split: if_splits)
    then show ?thesis using tr by auto
  next
    case False
    then have o: "0 \<le> ofs" "ofs + int (length data) \<le> max_int64" by auto
    then have wr: "wrap64 (ofs + int (length data)) = ofs + int (length data)" by (intro wrap64_small) auto
    have le: "ofs + int (length data) \<le> ms_TotalSize s" using False wr by auto
    let ?b = "overlay (written ws (zeros (ms_TotalSize s))) (nat ofs) data"
    obtain s' where w': "r = Inr ()" "xf_fs w' = fs_put (fs_key (xf_fs w) ?tp) (FFile ?b) (xf_fs w)" "xf_db w' = xf_db w"
        "xf_count w' = xf_count w" "xf_lock w' = xf_lock w" "xf_multi w' sid = Some s'"
      and s': "ms_TotalSize s' = ms_TotalSize s" "ms_Hash s' = ms_Hash s" "ms_FilePath s' = ms_FilePath s"
        "ms_FileName s' = ms_FileName s" "ms_uploadedSize s' = wrap64 (ms_uploadedSize s + int (length data))"
        "ms_coveredRanges s' = addCoveredRange ofs (ofs + int (length data)) (ms_coveredRanges s)"
      using u s(2) False wr temp_WriteAt [OF t, of data ofs] by (auto simp: UploadPartData_def Let_def split: if_splits)
    have "writes_in (ms_TotalSize s) (ws @ [(ofs, data)])" using s(7) o le by (auto simp: writes_in_def)
    moreover have "only_temp ?tp (xf_fs w0) (xf_fs w')"
      using only_temp_trans [OF fr(4)] w'(2) temp_key_ne [OF t] by simp
    moreover have "covered (ms_coveredRanges s') = (\<Union>x \<in> set (ws @ [(ofs, data)]). span x)" "ranges_ok (ms_coveredRanges s')"
      using addCoveredRange_refines [OF cov(1)] cov(2) s'(6) by (auto simp: span_def)
    ultimately show ?thesis using w' s s' fr temp_put [OF t, of ?b] wrap64_add_left by (auto simp: mp_track_def)
  qed
qed

interpretation parts: chunked_upload "\<lambda>(env, pn) data ofs. UploadPartData svc env sid pn ofs data" "mp_track svc sid w0" for svc sid w0
  by unfold_locales (use mp_track_part in \<open>fastforce split: prod.splits\<close>)+

lemma CreateMultipartUpload_track:
  assumes "fs_tree (xf_fs w)" "LS_calm (xf_fs w)" "tot \<le> max_int64"
    and c: "CreateMultipartUpload svc env path name tot client hash w = (Inr (sid, psz), w1)"
  shows "mp_track svc sid w1 w1 [] \<and> xf_db w1 = xf_db w \<and> xf_count w1 = xf_count w + 1 \<and> only_temp (tempPath svc sid) (xf_fs w) (xf_fs w1) \<and>
    psz = suggestedPartSize tot \<and> 0 \<le> tot \<and>
    (\<exists>s. xf_multi w1 sid = Some s \<and> ms_TotalSize s = tot \<and> ms_Hash s = hash \<and> ms_FilePath s = NormalizePath path \<and>
       ms_FileName s = name)"
proof -
  let ?tp = "tempPath svc (xe_sid env)"
  obtain w0 where slot: "acquireSessionSlot svc w = (True, w0)" and w0: "w0 = w\<lparr>xf_count := xf_count w + 1\<rparr>"
    using c by (auto simp: CreateMultipartUpload_def acquireSessionSlot_def Let_def split: if_splits)
  have fs: "xf_fs w0 = xf_fs w" by (simp add: w0)
  obtain e f1 where e: "os_Create ?tp (xf_fs w) = (e, f1)" by fastforce
  have ok: "e = Inr ()" using c slot fs e by (cases e) (simp_all add: CreateMultipartUpload_def Let_def)
  have t1: "temp_is f1 ?tp []" by (rule temp_create [OF assms(1,2) e [unfolded ok]])
  obtain g f2 where g: "file_Truncate ?tp tot f1 = (g, f2)" by fastforce
  have gr: "g = Inr ()" using c unfolding CreateMultipartUpload_def slot prod.case bool.case Let_def fs e ok sum.case g by (cases g) simp_all
  then have tot: "0 \<le> tot" using g t1 by (auto simp: file_Truncate_def temp_is_def fs_pop_calm Let_def split: if_splits)
  have t2: "temp_is f2 ?tp (zeros tot)" using temp_truncate [OF t1 tot] g by (auto simp: zeros_def)
  have ot: "only_temp ?tp (xf_fs w) f2" by (rule only_temp_trans [OF only_temp_create [OF assms(2) e] only_temp_truncate [OF t1 g]])
  obtain s where sid: "sid = xe_sid env" "psz = suggestedPartSize tot" "xf_fs w1 = f2" "xf_db w1 = xf_db w" "xf_count w1 = xf_count w + 1"
    and s: "xf_multi w1 sid = Some s" "ms_TotalSize s = tot" "ms_Hash s = hash" "ms_FilePath s = NormalizePath path"
      "ms_FileName s = name" "ms_uploadedSize s = 0" "ms_coveredRanges s = []"
    using c unfolding CreateMultipartUpload_def slot prod.case bool.case Let_def fs e ok sum.case g gr by (auto simp: w0)
  have "wrap64 0 = 0" by (rule wrap64_small) (simp_all add: max_int64_def)
  then have "mp_track svc sid w1 w1 []" using sid s t2 tot assms(3) unfolding mp_track_def by (simp add: writes_in_def ranges_ok_def)
  with sid s ot tot show ?thesis by auto
qed

section \<open>Completion\<close>

lemma CompleteMultipartUpload_stores:
  assumes st: "ts_storage svc = NewLocalStorage rootDir" "ok_root rootDir" "plain_storage svc" "db_wf (xf_db w)"
    and tr: "mp_track svc sid w0 w ws" and s0: "xf_multi w0 sid = Some s0" and p: "safe_path (ms_FilePath s0)"
    and out: "\<not> starts_with (root_elems rootDir) (fs_key (xf_fs w) (tempPath svc sid))"
    and c: "CompleteMultipartUpload svc env sid w = (Inr (), w')"
  shows "stores rootDir (ms_FilePath s0) (written ws (zeros (ms_TotalSize s0))) (ms_Hash s0) w w' \<and>
    wrap64 (sent ws) = ms_TotalSize s0 \<and> (\<Union>x \<in> set ws. span x) = {0..<ms_TotalSize s0} \<and>
    xf_count w' = xf_count w - 1 \<and> xf_multi w' sid = None \<and>
    (ms_Hash s0 \<noteq> [] \<longrightarrow> xe_sha env (written ws (zeros (ms_TotalSize s0))) = ms_Hash s0)"
proof -
  let ?tp = "tempPath svc sid" let ?b = "written ws (zeros (ms_TotalSize s0))"
  obtain s where s: "xf_multi w sid = Some s" "ms_TotalSize s = ms_TotalSize s0"
      "ms_Hash s = ms_Hash s0" "ms_FilePath s = ms_FilePath s0" "ms_FileName s = ms_FileName s0"
      "writes_in (ms_TotalSize s) ws" "ms_uploadedSize s = wrap64 (sent ws)" "0 \<le> ms_TotalSize s"
    and cov: "ranges_ok (ms_coveredRanges s)" "covered (ms_coveredRanges s) = (\<Union>x \<in> set ws. span x)"
    and t: "temp_is (xf_fs w) ?tp ?b"
    using tr s0 by (auto simp: mp_track_def)
  have calm: "LS_calm (xf_fs w)" and tree: "fs_tree (xf_fs w)" using t by (simp_all add: temp_is_def)
  have rd: "multi_ready s = Inr ()" using c s(1) by (cases "multi_ready s") (simp_all add: CompleteMultipartUpload_def)
  then have sz: "ms_uploadedSize s = ms_TotalSize s" and fc: "isFullyCovered (ms_TotalSize s) (ms_coveredRanges s)"
    by (auto simp: multi_ready_def split: if_splits)
  have full: "(\<Union>x \<in> set ws. span x) = {0..<ms_TotalSize s0}"
    using isFullyCovered_iff [OF cov(1) s(8)] fc cov(2) s(2) by simp
  have close: "multi_close ?tp (xf_fs w) = (Inr (), xf_fs w)" using file_call_calm [OF calm] by (simp add: multi_close_def)
  have len: "int (length ?b) = ms_TotalSize s0" using written_length [of "zeros (ms_TotalSize s0)" ws] s(2,6,8) by simp
  have mh: "multi_hash env (ms_Hash s) ?tp (xf_fs w) =
      (if ms_Hash s0 = [] \<or> xe_sha env ?b = ms_Hash s0 then (Inr (), xf_fs w) else (Inl (Errorf ''hash mismatch''), rm ?tp (xf_fs w)))"
    using temp_SHA256 [OF t] s(3) by (simp add: multi_hash_def)
  have hv: "ms_Hash s0 = [] \<or> xe_sha env ?b = ms_Hash s0"
    using c s(1) rd by (auto simp: CompleteMultipartUpload_def Let_def close mh split: if_splits)
  then have mh2: "multi_hash env (ms_Hash s0) ?tp (xf_fs w) = (Inr (), xf_fs w)" using mh s(3) by auto
  let ?w1 = "w\<lparr>xf_multi := (xf_multi w)(sid \<mapsto> s\<lparr>ms_closed := True\<rparr>), xf_fs := xf_fs w\<rparr>"
  obtain x w4 where x: "store_temp svc env True (ms_FilePath s0) (ms_FileName s) (ms_TotalSize s0) ?tp (ms_Hash s0) ?w1 = (x, w4)"
    by fastforce
  obtain m where m: "x = Inr m" and w': "xf_fs w' = xf_fs w4" "xf_db w' = xf_db w4" "xf_count w' = xf_count w4 - 1" "xf_multi w' sid = None"
    using c rd x hv s(1) by (cases x)
      (auto simp: CompleteMultipartUpload_def Let_def close mh2 plain_encrypt [OF st(3)] s end_multi_def releaseSessionSlot_def)
  have "LS_inv rootDir (xf_fs ?w1)" using st(2) tree by (simp add: LS_inv_def)
  from store_temp_ok [OF st(1) this _ p _ _ x [unfolded m]] t out st(4)
  have "LS_view rootDir (xf_fs w4) = (LS_view rootDir (xf_fs w))(ms_FilePath s0 \<mapsto> ?b)" "db_wf (xf_db w4)"
    "LS_inv rootDir (xf_fs w4)" "LS_calm (xf_fs w4)"
    "live_file (xf_db w4) = (live_file (xf_db w))(ms_FilePath s0 \<mapsto> m)" "fm_Size m = ms_TotalSize s0" "fm_Hash m = ms_Hash s0"
    "xf_count w4 = xf_count w" by simp_all
  with w' hv sz s(2,7) len full show ?thesis by (auto simp: stores_def)
qed

section \<open>Properties\<close>

text \<open>
  C23: a completed multipart upload is exactly its parts.  On a local storage with a working disk
  and any database, create a multipart upload and send any parts, concurrently in any order,
  with any part numbers and offsets; those that are refused leave no trace.  If the completion
  reports success, and the parts together have at most \<open>2^63 - 1\<close> bytes, then the parts
  tile the file: every byte of it was sent, and each accepted part is in the stored object at its
  offset, unchanged.  The record has the size and the client's hash, which if given is
  the hash of the object, and no other file or record changed.
\<close>

theorem multipart_integrity:
  assumes st: "ts_storage svc = NewLocalStorage rootDir" "plain_storage svc" "LS_inv rootDir (xf_fs w)" "LS_calm (xf_fs w)"
      "db_wf (xf_db w)" "safe_path (NormalizePath path)" "tot \<le> max_int64"
    and out: "\<not> starts_with (root_elems rootDir) (fs_key (xf_fs w) (tempPath svc sid))"
    and c: "CreateMultipartUpload svc env path name tot client hash w = (Inr (sid, psz), w1)"
    and r: "run_puts (\<lambda>(env, pn) data ofs. UploadPartData svc env sid pn ofs data) cs w1 = (ws, w2)"
    and d: "CompleteMultipartUpload svc env2 sid w2 = (Inr (), w3)"
    and total: "sent ws \<le> max_int64"
  shows "\<exists>b. int (length b) = tot \<and> stores rootDir (NormalizePath path) b hash w w3 \<and>
    (\<Union>x \<in> set ws. span x) = {0..<tot} \<and>
    (\<forall>(ofs, data) \<in> set ws. take (length data) (drop (nat ofs) b) = data) \<and>
    (hash \<noteq> [] \<longrightarrow> xe_sha env2 b = hash) \<and> xf_multi w3 sid = None \<and> xf_count w3 = xf_count w"
proof -
  have ok: "ok_root rootDir" "fs_tree (xf_fs w)" using st(3) by (auto simp: LS_inv_def)
  from CreateMultipartUpload_track [OF ok(2) st(4,7) c] obtain s where t1: "mp_track svc sid w1 w1 []"
    "xf_db w1 = xf_db w" "xf_count w1 = xf_count w + 1" "only_temp (tempPath svc sid) (xf_fs w) (xf_fs w1)" "0 \<le> tot"
    and s: "xf_multi w1 sid = Some s" "ms_TotalSize s = tot" "ms_Hash s = hash" "ms_FilePath s = NormalizePath path" by auto
  have t2: "mp_track svc sid w1 w2 ws" using parts.run_tracks [OF t1(1) r] by simp
  then have w2: "xf_db w2 = xf_db w" "xf_count w2 = xf_count w + 1" "only_temp (tempPath svc sid) (xf_fs w1) (xf_fs w2)" "writes_in tot ws"
    using t1 s(1,2) by (auto simp: mp_track_def)
  have ot: "only_temp (tempPath svc sid) (xf_fs w) (xf_fs w2)" by (rule only_temp_trans [OF t1(4) w2(3)])
  have out2: "\<not> starts_with (root_elems rootDir) (fs_key (xf_fs w2) (tempPath svc sid))" using out only_temp_key [OF ot] by simp
  have wf: "db_wf (xf_db w2)" and sp: "safe_path (ms_FilePath s)" using w2(1) st(5,6) s(4) by simp_all
  let ?b = "written ws (zeros tot)"
  note e = CompleteMultipartUpload_stores [OF st(1) ok(1) st(2) wf t2 s(1) sp out2 d, unfolded s(2-4)]
  have "0 \<le> sent ws" unfolding sent_def by (rule sum_list_nonneg) auto
  then have sz: "sent ws = tot" using e total wrap64_small by simp
  have "take (length data) (drop (nat ofs) ?b) = data" if "(ofs, data) \<in> set ws" for ofs data
    using exact_cover_content [OF w2(4) _ _ sz [unfolded sent_def] that, of "zeros tot"] e t1(5) by simp
  moreover have "int (length ?b) = tot" using written_length [of "zeros tot" ws] w2(4) t1(5) by simp
  moreover have "LS_view rootDir (xf_fs w2) = LS_view rootDir (xf_fs w)" by (rule only_temp_view [OF ot out])
  ultimately show ?thesis using e w2 by (intro exI [of _ ?b]) (auto simp: stores_def)
qed

theorem multipart_integrity_witness:
  "let c = CreateMultipartUpload sample_svc sample_xenv ''/a.txt'' ''a.txt'' 3 ''c'' ''habc'' sample_xfer;
       r = run_puts (\<lambda>(env, pn) data ofs. UploadPartData sample_svc env ''s1'' pn ofs data)
             [((sample_xenv, 2), ''c'', 2), ((sample_xenv, 10001), ''x'', 0), ((sample_xenv, 1), ''ab'', 0)] (snd c);
       d = CompleteMultipartUpload sample_svc sample_xenv ''s1'' (snd r)
   in fst d = Inr () \<and> (\<exists>b. stores ''/srv/data'' ''a.txt'' b ''habc'' sample_xfer (snd d) \<and> take 1 (drop 2 b) = ''c'')"
proof -
  let ?c = "CreateMultipartUpload sample_svc sample_xenv ''/a.txt'' ''a.txt'' 3 ''c'' ''habc'' sample_xfer"
  let ?r = "run_puts (\<lambda>(env, pn) data ofs. UploadPartData sample_svc env ''s1'' pn ofs data)
             [((sample_xenv, 2), ''c'', 2), ((sample_xenv, 10001), ''x'', 0), ((sample_xenv, 1), ''ab'', 0)] (snd ?c)"
  let ?d = "CompleteMultipartUpload sample_svc sample_xenv ''s1'' (snd ?r)"
  have f: "fst ?c = Inr (''s1'', suggestedPartSize 3)" "fst ?r = [(2, ''c''), (0, ''ab'')]" "fst ?d = Inr ()" by code_simp+
  note e = fst_pair [OF f(1)] fst_pair [OF f(2)] fst_pair [OF f(3)]
  have n: "NormalizePath ''/a.txt'' = ''a.txt''" by code_simp
  have "\<not> starts_with (root_elems ''/srv/data'') (fs_key (xf_fs sample_xfer) (tempPath sample_svc ''s1''))" by code_simp
  from multipart_integrity [OF sample_xfer_facts(1,2,4-6) _ _ this e]
  obtain b where "stores ''/srv/data'' ''a.txt'' b ''habc'' sample_xfer (snd ?d)"
    "\<forall>(ofs, data) \<in> set [(2, ''c''), (0, ''ab'')]. take (length data) (drop (nat ofs) b) = data"
    by (auto simp: n safe_path_def proper_name_def max_int64_def sent_def)
  with f(3) show ?thesis by (auto simp: Let_def)
qed

text \<open>
  A part that is sent twice blocks its upload.  The byte counter grows with every accepted
  part, also with a retry that writes the same bytes at the same place.  Once the accepted parts
  have more bytes than the file, no further parts make the completion succeed (as long as the
  counter does not wrap round).
\<close>

theorem multipart_retry_never_completes:
  assumes st: "fs_tree (xf_fs w)" "LS_calm (xf_fs w)" "tot \<le> max_int64"
    and c: "CreateMultipartUpload svc env path name tot client hash w = (Inr (sid, psz), w1)"
    and r: "run_puts (\<lambda>(env, pn) data ofs. UploadPartData svc env sid pn ofs data) cs w1 = (ws, w2)" and "tot < sent ws"
    and q: "run_puts (\<lambda>(env, pn) data ofs. UploadPartData svc env sid pn ofs data) ds w2 = (vs, w3)" and "sent (ws @ vs) \<le> max_int64"
  shows "\<exists>e. CompleteMultipartUpload svc env2 sid w3 = (Inl e, w3)"
proof -
  from CreateMultipartUpload_track [OF st c] obtain s where t1: "mp_track svc sid w1 w1 []"
    and s: "xf_multi w1 sid = Some s" "ms_TotalSize s = tot" by auto
  have "mp_track svc sid w1 w3 (ws @ vs)" using parts.run_tracks [OF parts.run_tracks [OF t1 r] q] by simp
  then obtain s' where s': "xf_multi w3 sid = Some s'" "ms_uploadedSize s' = wrap64 (sent (ws @ vs))" "ms_TotalSize s' = tot"
    using s by (auto simp: mp_track_def)
  have "0 \<le> sent ws" "0 \<le> sent vs" "sent (ws @ vs) = sent ws + sent vs" by (auto simp: sent_def intro!: sum_list_nonneg)
  then have "wrap64 (sent (ws @ vs)) \<noteq> tot" using assms(6,8) wrap64_small [of "sent (ws @ vs)"] by simp
  with s' show ?thesis by (simp add: CompleteMultipartUpload_def multi_ready_def)
qed

theorem multipart_retry_never_completes_witness:
  "let c = CreateMultipartUpload sample_svc sample_xenv ''a.txt'' ''a.txt'' 2 ''c'' [] sample_xfer;
       r = run_puts (\<lambda>(env, pn) data ofs. UploadPartData sample_svc env ''s1'' pn ofs data)
             [((sample_xenv, 1), ''ab'', 0), ((sample_xenv, 1), ''ab'', 0)] (snd c)
   in \<exists>e. CompleteMultipartUpload sample_svc sample_xenv ''s1'' (snd r) = (Inl e, snd r)"
proof -
  let ?c = "CreateMultipartUpload sample_svc sample_xenv ''a.txt'' ''a.txt'' 2 ''c'' [] sample_xfer"
  let ?put = "\<lambda>(env, pn) data ofs. UploadPartData sample_svc env ''s1'' pn ofs data"
  let ?r = "run_puts ?put [((sample_xenv, 1), ''ab'', 0), ((sample_xenv, 1), ''ab'', 0)] (snd ?c)"
  have f: "fst ?c = Inr (''s1'', suggestedPartSize 2)" "fst ?r = [(0, ''ab''), (0, ''ab'')]" by code_simp+
  have t: "fs_tree (xf_fs sample_xfer)" using sample_xfer_facts(4) by (simp add: LS_inv_def)
  have "run_puts ?put [] (snd ?r) = ([], snd ?r)" by simp
  from multipart_retry_never_completes [OF t sample_xfer_facts(5) _ fst_pair [OF f(1)] fst_pair [OF f(2)] _ this]
  show ?thesis by (simp add: max_int64_def sent_def Let_def)
qed

section \<open>Parallel downloads\<close>

text \<open>What a read of a plain download session returns, errors included.\<close>

definition chunk_result :: "bytes \<Rightarrow> int \<Rightarrow> int \<Rightarrow> bytes res" where
  "chunk_result b sz ofs =
     (if ofs < 0 then Inl (Errorf ''invalid offset'')
      else if ofs \<ge> int (length b) then Inl (Errorf ''offset beyond file size'')
      else if sz \<le> 0 then Inl (Wrapf ''failed to read file chunk'' (Errorf ''invalid read size''))
      else Inr (take (nat sz) (drop (nat ofs) b)))"

definition dl_ready :: "string \<Rightarrow> string \<Rightarrow> bytes \<Rightarrow> ('a, 'ss, 'l) xfer \<Rightarrow> bool" where
  "dl_ready rootDir sid b w \<longleftrightarrow> LS_inv rootDir (xf_fs w) \<and> LS_calm (xf_fs w) \<and>
     (\<exists>s. xf_downloads w sid = Some s \<and> safe_path (ds_FilePath s) \<and> \<not> ds_decryptedFile s \<and>
        ds_TotalSize s = int (length b) \<and> LS_view rootDir (xf_fs w) (ds_FilePath s) = Some b)"

lemma dl_ready_chunk:
  assumes st: "ts_storage svc = NewLocalStorage rootDir" and r: "dl_ready rootDir sid b w"
  shows "\<exists>w'. DownloadChunk svc env sid sz ofs w = (chunk_result b sz ofs, w') \<and> dl_ready rootDir sid b w'"
proof -
  obtain s where i: "LS_inv rootDir (xf_fs w)" "LS_calm (xf_fs w)" and s: "xf_downloads w sid = Some s" "safe_path (ds_FilePath s)"
    "\<not> ds_decryptedFile s" "ds_TotalSize s = int (length b)" "LS_view rootDir (xf_fs w) (ds_FilePath s) = Some b"
    using r by (auto simp: dl_ready_def)
  have ok: "sa_ReadAt (ts_storage svc) (ds_FilePath s) sz ofs (xf_fs w) = (Inr (take (nat sz) (drop (nat ofs) b)), xf_fs w)"
    if "0 < sz" "0 \<le> ofs"
    using local_storage.readAt_ok [OF i s(2,5) that] st by simp
  have bad: "sa_ReadAt (ts_storage svc) (ds_FilePath s) sz ofs (xf_fs w) = (Inl (Errorf ''invalid read size''), xf_fs w)" if "sz \<le> 0"
    using that st valid_path [of rootDir "ds_FilePath s" "xf_fs w"] i s(2) by (simp add: NewLocalStorage_def LS_ReadAt_def LS_inv_def)
  show ?thesis
    using s i ok bad r by (auto simp: DownloadChunk_def load_download_def read_chunk_def chunk_result_def Let_def dl_ready_def)
qed

text \<open>
  Parallel downloads do not depend on the schedule.  Whatever order the goroutines of
  \<open>ParallelDownloadChunks\<close> run in, the result list has, at the position of each
  segment, its index, its offset, and exactly its bytes of the file or the error of its
  range.
\<close>

theorem parallel_download_any_order:
  assumes st: "ts_storage svc = NewLocalStorage rootDir" and r: "dl_ready rootDir sid b w"
    and order: "distinct order" "set order = {0..<length segments}"
  shows "fst (ParallelDownloadChunks svc env sid segments order w) =
    map (\<lambda>i. Some \<lparr>sr_SegmentIndex = i, sr_Offset = sg_Offset (segments ! i),
                    sr_Result = chunk_result b (sg_Size (segments ! i)) (sg_Offset (segments ! i))\<rparr>) [0..<length segments]"
proof -
  let ?res = "\<lambda>i. Some \<lparr>sr_SegmentIndex = i, sr_Offset = sg_Offset (segments ! i),
                    sr_Result = chunk_result b (sg_Size (segments ! i)) (sg_Offset (segments ! i))\<rparr>"
  let ?step = "\<lambda>idx (results, w). case DownloadChunk svc env sid (sg_Size (segments ! idx)) (sg_Offset (segments ! idx)) w of
             (r, w1) \<Rightarrow> (results[idx := Some \<lparr>sr_SegmentIndex = idx, sr_Offset = sg_Offset (segments ! idx), sr_Result = r\<rparr>], w1)"
  have "fst (fold ?step is (rs, v)) = map (\<lambda>i. if i \<in> set is then ?res i else rs ! i) [0..<length rs]"
    if "dl_ready rootDir sid b v" for "is" rs v
    using that
  proof (induction "is" arbitrary: rs v)
    case Nil
    then show ?case by (simp add: map_nth)
  next
    case (Cons i "is")
    obtain v1 where v1: "DownloadChunk svc env sid (sg_Size (segments ! i)) (sg_Offset (segments ! i)) v =
        (chunk_result b (sg_Size (segments ! i)) (sg_Offset (segments ! i)), v1)" "dl_ready rootDir sid b v1"
      using dl_ready_chunk [OF st Cons.prems] by blast
    from Cons.IH [OF v1(2), of "rs[i := ?res i]"] show ?case by (auto simp: v1(1) nth_list_update)
  qed
  from this [OF r, of order "replicate (length segments) None"] order(2) show ?thesis
    unfolding ParallelDownloadChunks_def by (auto intro!: nth_equalityI)
qed

definition sample_download :: DownloadSession where
  "sample_download = \<lparr>ds_SessionID = ''d1'', ds_FileID = ''i'', ds_FilePath = ''a.txt'', ds_TotalSize = 5,
     ds_DownloadedSize = 0, ds_ClientID = ''c'', ds_Status = ''active'', ds_CreatedAt = [], ds_UpdatedAt = [],
     ds_chunkCount = 0, ds_decryptedTempPath = [], ds_decryptedFile = False\<rparr>"

theorem parallel_download_any_order_witness:
  "fst (ParallelDownloadChunks sample_svc sample_xenv ''d1'' [\<lparr>sg_Offset = 0, sg_Size = 2\<rparr>, \<lparr>sg_Offset = 9, sg_Size = 2\<rparr>] [1, 0]
      (sample_xfer\<lparr>xf_fs := sample_fs2, xf_downloads := [''d1'' \<mapsto> sample_download]\<rparr>)) =
     [Some \<lparr>sr_SegmentIndex = 0, sr_Offset = 0, sr_Result = Inr ''he''\<rparr>,
      Some \<lparr>sr_SegmentIndex = 1, sr_Offset = 9, sr_Result = Inl (Errorf ''offset beyond file size'')\<rparr>]"
proof -
  let ?w = "sample_xfer\<lparr>xf_fs := sample_fs2, xf_downloads := [''d1'' \<mapsto> sample_download]\<rparr>"
  let ?sg = "[\<lparr>sg_Offset = 0, sg_Size = 2\<rparr>, \<lparr>sg_Offset = 9, sg_Size = 2\<rparr>]"
  have r: "dl_ready ''/srv/data'' ''d1'' ''hello'' ?w"
    using sample_facts2(1,2,3,5) by (simp add: dl_ready_def sample_download_def)
  have "distinct [1, 0 :: nat]" "set [1, 0] = {0..<length ?sg}" by auto
  from parallel_download_any_order [OF sample_xfer_facts(1) r this, of sample_xenv]
  show ?thesis by (simp add: chunk_result_def upt_rec)
qed

end
