(* ===== verification/Audit_Writer.thy ===== *)
theory Audit_Writer
  imports Metadata
begin

text \<open>
  \<open>src/internal/database/audit_writer.go\<close>: the asynchronous audit log.  Request handlers
  submit entries to a bounded channel; one goroutine collects them and writes them in batches;
  \<open>Close\<close> stops the goroutine, which drains the channel, and writes what is left.

  The writer is a state machine: each section of the code that runs without interruption, because
  it holds the mutex or is one channel operation, is a definition on the state of the writer and
  the database, and the step relation \<open>aw_step\<close> lets the scheduler choose among those that
  can run.  \<open>sync.Mutex\<close> serialises the sections; the fresh ids and timestamps of the rows are
  part of the entries' environment \<open>env\<close>.
\<close>

section \<open>The writer\<close>

datatype phase = Running | Draining | Exited

record AuditWriter =
  aw_ch :: "AuditLog list"
  aw_cap :: int
  aw_batchSize :: int
  aw_flushInterval :: int
  aw_pending :: "AuditLog list"
  aw_cancelled :: bool
  aw_phase :: phase
  aw_hasDB :: bool

definition NewAuditWriter :: "bool \<Rightarrow> int \<Rightarrow> int \<Rightarrow> AuditWriter" where
  "NewAuditWriter hasDB batchSize0 flushInterval0 =
     (let batchSize = (if batchSize0 \<le> 0 then 100 else batchSize0);
          flushInterval = (if flushInterval0 \<le> 0 then 1000000000 else flushInterval0)
      in \<lparr>aw_ch = [], aw_cap = batchSize * 4, aw_batchSize = batchSize, aw_flushInterval = flushInterval,
          aw_pending = [], aw_cancelled = False, aw_phase = (if hasDB then Running else Exited), aw_hasDB = hasDB\<rparr>)"

text \<open>\<open>Submit\<close>: the flag says whether the entry found room in the channel.\<close>

definition Submit :: "AuditLog \<Rightarrow> AuditWriter \<Rightarrow> bool \<times> AuditWriter" where
  "Submit entry w =
     (if \<not> aw_hasDB w then (False, w)
      else if int (length (aw_ch w)) < aw_cap w then (True, w\<lparr>aw_ch := aw_ch w @ [entry]\<rparr>)
      else (False, w))"

definition writeBatch :: "AuditLog list \<Rightarrow> db \<Rightarrow> db" where
  "writeBatch batch d = fold (\<lambda>entry d. snd (Audit_Create entry d)) batch d"

definition flushLocked :: "AuditWriter \<times> db \<Rightarrow> AuditWriter \<times> db" where
  "flushLocked s = (case s of (w, d) \<Rightarrow>
     let batch = aw_pending w; w1 = w\<lparr>aw_pending := []\<rparr>
     in if batch = [] then (w1, d) else (w1, writeBatch batch d))"

text \<open>The cases of the loop: an entry was received, the ticker fired, the context is done; and
  the iterations of the drain.\<close>

definition loop_entry :: "AuditWriter \<times> db \<Rightarrow> (AuditWriter \<times> db) option" where
  "loop_entry s = (case s of (w, d) \<Rightarrow>
     (case aw_ch w of
        [] \<Rightarrow> None
      | entry # rest \<Rightarrow>
          if aw_phase w \<noteq> Running then None
          else let w1 = w\<lparr>aw_ch := rest, aw_pending := aw_pending w @ [entry]\<rparr>
            in Some (if aw_batchSize w \<le> int (length (aw_pending w1)) \<and> \<not> aw_cancelled w then flushLocked (w1, d) else (w1, d))))"

definition loop_tick :: "AuditWriter \<times> db \<Rightarrow> (AuditWriter \<times> db) option" where
  "loop_tick s = (case s of (w, d) \<Rightarrow>
     if aw_phase w \<noteq> Running then None
     else Some (if aw_pending w \<noteq> [] \<and> \<not> aw_cancelled w then flushLocked (w, d) else (w, d)))"

definition loop_done :: "AuditWriter \<times> db \<Rightarrow> (AuditWriter \<times> db) option" where
  "loop_done s = (case s of (w, d) \<Rightarrow>
     if aw_phase w = Running \<and> aw_cancelled w then Some (w\<lparr>aw_phase := Draining\<rparr>, d) else None)"

definition drain_step :: "AuditWriter \<times> db \<Rightarrow> (AuditWriter \<times> db) option" where
  "drain_step s = (case s of (w, d) \<Rightarrow>
     if aw_phase w \<noteq> Draining then None
     else (case aw_ch w of
        [] \<Rightarrow> Some (w\<lparr>aw_phase := Exited\<rparr>, d)
      | entry # rest \<Rightarrow> Some (w\<lparr>aw_ch := rest, aw_pending := aw_pending w @ [entry]\<rparr>, d)))"

text \<open>\<open>Close\<close>: cancel, wait for the loop, final flush.  When the caller's context ends first
  only the cancellation happens.\<close>

definition Close_cancel :: "AuditWriter \<times> db \<Rightarrow> AuditWriter \<times> db" where
  "Close_cancel s = (case s of (w, d) \<Rightarrow> (if aw_hasDB w then w\<lparr>aw_cancelled := True\<rparr> else w, d))"

definition Close_final :: "AuditWriter \<times> db \<Rightarrow> (AuditWriter \<times> db) option" where
  "Close_final s = (case s of (w, d) \<Rightarrow>
     if aw_hasDB w \<and> aw_cancelled w \<and> aw_phase w = Exited
     then Some (if aw_pending w \<noteq> [] then flushLocked (w, d) else (w, d)) else None)"

section \<open>Runs\<close>

datatype aw_event = Accepted AuditLog | Dropped AuditLog | Internal

inductive aw_step :: "AuditWriter \<times> db \<Rightarrow> aw_event \<Rightarrow> AuditWriter \<times> db \<Rightarrow> bool" where
  accept: "Submit e w = (True, w') \<Longrightarrow> aw_step (w, d) (Accepted e) (w', d)"
| refuse: "Submit e w = (False, w') \<Longrightarrow> aw_step (w, d) (Dropped e) (w', d)"
| entry: "loop_entry s = Some s' \<Longrightarrow> aw_step s Internal s'"
| tick: "loop_tick s = Some s' \<Longrightarrow> aw_step s Internal s'"
| stop: "loop_done s = Some s' \<Longrightarrow> aw_step s Internal s'"
| drain: "drain_step s = Some s' \<Longrightarrow> aw_step s Internal s'"
| cancel: "aw_step s Internal (Close_cancel s)"
| final: "Close_final s = Some s' \<Longrightarrow> aw_step s Internal s'"

inductive_cases aw_stepE: "aw_step s ev s'"

inductive aw_run :: "AuditWriter \<times> db \<Rightarrow> aw_event list \<Rightarrow> AuditWriter \<times> db \<Rightarrow> bool" where
  start: "aw_run s [] s"
| more: "aw_run s evs s1 \<Longrightarrow> aw_step s1 ev s2 \<Longrightarrow> aw_run s (evs @ [ev]) s2"

fun accepted :: "aw_event list \<Rightarrow> AuditLog list" where
  "accepted [] = []"
| "accepted (Accepted e # evs) = e # accepted evs"
| "accepted (_ # evs) = accepted evs"

lemma accepted_append [simp]: "accepted (xs @ ys) = accepted xs @ accepted ys"
  by (induction xs rule: accepted.induct) simp_all

lemma writeBatch_append [simp]: "writeBatch (xs @ ys) d = writeBatch ys (writeBatch xs d)"
  by (simp add: writeBatch_def)

lemma writeBatch_Nil [simp]: "writeBatch [] d = d"
  by (simp add: writeBatch_def)

lemmas aw_defs = loop_entry_def loop_tick_def loop_done_def drain_step_def Close_cancel_def Close_final_def flushLocked_def Submit_def

text \<open>The queue invariant: what was accepted was either written, in order, or is still pending or in
  the channel, in order.\<close>

definition aw_inv :: "db \<Rightarrow> AuditLog list \<Rightarrow> AuditWriter \<times> db \<Rightarrow> bool" where
  "aw_inv d0 acc s \<longleftrightarrow> (\<exists>out. acc = out @ aw_pending (fst s) @ aw_ch (fst s) \<and> snd s = writeBatch out d0)"

lemma aw_step_inv:
  assumes "aw_step s ev s'" "aw_inv d0 acc s"
  shows "aw_inv d0 (acc @ accepted [ev]) s'"
  using assms
proof (induction rule: aw_step.induct)
  case (entry s s')
  then show ?case by (auto simp: aw_defs aw_inv_def Let_def split: list.splits if_splits prod.splits) 
next
  case (tick s s')
  then show ?case by (auto simp: aw_defs aw_inv_def Let_def split: if_splits prod.splits)
next
  case (drain s s')
  then show ?case by (auto simp: aw_defs aw_inv_def split: list.splits if_splits prod.splits)
next
  case (final s s')
  then show ?case by (auto simp: aw_defs aw_inv_def Let_def split: if_splits prod.splits)
qed (auto simp: aw_defs aw_inv_def split: if_splits prod.splits)

lemma aw_run_inv:
  "aw_run s evs s' \<Longrightarrow> aw_inv d0 acc s \<Longrightarrow> aw_inv d0 (acc @ accepted evs) s'"
proof (induction rule: aw_run.induct)
  case (more s evs s1 ev s2)
  then show ?case using aw_step_inv [of s1 ev s2 d0 "acc @ accepted evs"] by simp
qed simp

lemma aw_run_trans: "aw_run s1 ys s2 \<Longrightarrow> aw_run s xs s1 \<Longrightarrow> aw_run s (xs @ ys) s2"
proof (induction rule: aw_run.induct)
  case (more s1 evs s2 ev s3)
  then show ?case using aw_run.more [of s "xs @ evs" s2 ev s3] by simp
qed simp

lemma aw_run_one: "aw_step s ev s' \<Longrightarrow> aw_run s [ev] s'"
  using aw_run.more [OF aw_run.start] by fastforce

text \<open>The channel never holds more than its capacity, and an entry is dropped only when it is
  full.\<close>

definition aw_bounded :: "AuditWriter \<times> db \<Rightarrow> bool" where
  "aw_bounded s \<longleftrightarrow> int (length (aw_ch (fst s))) \<le> aw_cap (fst s) \<and> aw_hasDB (fst s)"

lemma aw_step_bounded: "aw_step s ev s' \<Longrightarrow> aw_bounded s \<Longrightarrow> aw_bounded s' \<and> aw_cap (fst s') = aw_cap (fst s)"
  by (induction rule: aw_step.induct) (auto simp: aw_defs aw_bounded_def Let_def split: list.splits if_splits prod.splits)

lemma aw_run_bounded: "aw_run s evs s' \<Longrightarrow> aw_bounded s \<Longrightarrow> aw_bounded s' \<and> aw_cap (fst s') = aw_cap (fst s)"
  by (induction rule: aw_run.induct) (auto dest: aw_step_bounded)

text \<open>Rows that can be inserted are inserted in order.\<close>

lemma writeBatch_rows:
  assumes "db_faults d = []" "distinct (map al_ID (t_audit d @ es))"
  shows "t_audit (writeBatch es d) = t_audit d @ es"
  using assms
proof (induction es arbitrary: d)
  case (Cons e es)
  have u: "audit_unique (t_audit d @ [e])" using Cons.prems(2) by (auto simp: audit_unique_def)
  then have c: "snd (Audit_Create e d) = d\<lparr>t_audit := t_audit d @ [e]\<rparr>"
    using Cons.prems(1) by (simp add: Audit_Create_def db_Exec_def pop_fault_def set_audit_def)
  from Cons.IH [of "d\<lparr>t_audit := t_audit d @ [e]\<rparr>"] Cons.prems c show ?case by (simp add: writeBatch_def)
qed (simp add: writeBatch_def)

section \<open>Properties\<close>

text \<open>
  C25: the audit log loses nothing it accepted.  In every interleaving of submissions, the ticks
  and receptions of the background goroutine and \<open>Close\<close>, on a database that answers, the
  rows written are exactly the accepted entries in the order they were submitted, each once,
  followed by those still pending or in the channel; an entry is dropped only when the channel
  holds four batches.
\<close>

theorem audit_exactly_once:
  assumes run: "aw_run (NewAuditWriter True batchSize interval, d0) evs (w, d)"
    and db: "db_faults d0 = []" "distinct (map al_ID (t_audit d0 @ accepted evs))"
  shows "\<exists>out. accepted evs = out @ aw_pending w @ aw_ch w \<and> t_audit d = t_audit d0 @ out \<and>
    (\<forall>e w' d'. aw_step (w, d) (Dropped e) (w', d') \<longrightarrow>
       int (length (aw_ch w)) = 4 * (if batchSize \<le> 0 then 100 else batchSize) \<and> w' = w \<and> d' = d)"
proof -
  let ?s = "(NewAuditWriter True batchSize interval, d0)"
  have i: "aw_inv d0 [] ?s" by (simp add: aw_inv_def NewAuditWriter_def Let_def)
  from aw_run_inv [OF run i] obtain out where out: "accepted evs = out @ aw_pending w @ aw_ch w" "d = writeBatch out d0"
    by (auto simp: aw_inv_def)
  have "distinct (map al_ID (t_audit d0 @ out))" using db(2) out(1) by auto
  then have "t_audit d = t_audit d0 @ out" using writeBatch_rows [OF db(1)] out(2) by simp
  moreover have "aw_bounded ?s" by (simp add: aw_bounded_def NewAuditWriter_def Let_def)
  then have b: "aw_bounded (w, d)" "aw_cap w = 4 * (if batchSize \<le> 0 then 100 else batchSize)"
    using aw_run_bounded [OF run] by (auto simp: NewAuditWriter_def Let_def)
  have "int (length (aw_ch w)) = 4 * (if batchSize \<le> 0 then 100 else batchSize) \<and> w' = w \<and> d' = d"
    if "aw_step (w, d) (Dropped e) (w', d')" for e w' d'
    using that b by (auto elim!: aw_stepE simp: Submit_def aw_bounded_def split: if_splits)
  ultimately show ?thesis using out(1) by blast
qed

lemma drain_all:
  "aw_phase w = Draining \<Longrightarrow> \<exists>evs. accepted evs = [] \<and>
     aw_run (w, d) evs (w\<lparr>aw_ch := [], aw_pending := aw_pending w @ aw_ch w, aw_phase := Exited\<rparr>, d)"
proof (induction "aw_ch w" arbitrary: w)
  case Nil
  then have "aw_step (w, d) Internal (w\<lparr>aw_phase := Exited\<rparr>, d)" by (intro aw_step.drain) (simp add: drain_step_def)
  moreover have "w\<lparr>aw_ch := [], aw_pending := aw_pending w @ aw_ch w, aw_phase := Exited\<rparr> = w\<lparr>aw_phase := Exited\<rparr>"
    using Nil.hyps by (simp add: AuditWriter.equality)
  ultimately show ?case using aw_run_one by (intro exI [of _ "[Internal]"]) simp
next
  case (Cons e es)
  let ?w1 = "w\<lparr>aw_ch := es, aw_pending := aw_pending w @ [e]\<rparr>"
  have s: "aw_step (w, d) Internal (?w1, d)"
    using Cons.prems Cons.hyps(2) by (intro aw_step.drain) (auto simp: drain_step_def split: list.splits)
  have "es = aw_ch ?w1" "aw_phase ?w1 = Draining" using Cons.prems by simp_all
  from Cons.hyps(1) [OF this] obtain evs where evs: "accepted evs = []"
    "aw_run (?w1, d) evs (?w1\<lparr>aw_ch := [], aw_pending := aw_pending ?w1 @ aw_ch ?w1, aw_phase := Exited\<rparr>, d)" by blast
  from aw_run_trans [OF evs(2) aw_run_one [OF s]] evs(1) Cons.hyps(2) show ?case
    by (intro exI [of _ "Internal # evs"]) simp
qed


text \<open>After the goroutine has exited \<open>Submit\<close> still accepts entries, without a warning, and
  they stay in the channel for ever.\<close>

lemma audit_lost_after_close:
  "aw_run s evs s' \<Longrightarrow> aw_phase (fst s) = Exited \<Longrightarrow>
     aw_phase (fst s') = Exited \<and> aw_ch (fst s') = aw_ch (fst s) @ accepted evs"
proof (induction rule: aw_run.induct)
  case (more s evs s1 ev s2)
  then show ?case
    by (auto elim!: aw_stepE simp: aw_defs Let_def split: list.splits if_splits prod.splits)
qed simp

definition sample_entry :: "string \<Rightarrow> AuditLog" where
  "sample_entry i = \<lparr>al_ID = i, al_Timestamp = [], al_Operation = ''upload'', al_ResourcePath = ''a'', al_UserIdentifier = [],
     al_ClientIP = [], al_UserAgent = [], al_Success = True, al_Details = []\<rparr>"

theorem audit_exactly_once_witness:
  "\<exists>w d out. aw_run (NewAuditWriter True 2 0, empty_db) [Accepted (sample_entry ''1''), Internal, Internal] (w, d) \<and>
     [sample_entry ''1''] = out @ aw_pending w @ aw_ch w \<and> t_audit d = out"
proof -
  let ?w0 = "NewAuditWriter True 2 0" let ?e = "sample_entry ''1''"
  let ?w1 = "?w0\<lparr>aw_ch := [?e]\<rparr>" let ?w2 = "?w0\<lparr>aw_pending := [?e]\<rparr>"
  let ?s3 = "flushLocked (?w2, empty_db)"
  have 1: "aw_step (?w0, empty_db) (Accepted ?e) (?w1, empty_db)"
    by (rule aw_step.accept) (simp add: Submit_def NewAuditWriter_def Let_def)
  have 2: "aw_step (?w1, empty_db) Internal (?w2, empty_db)"
    by (rule aw_step.entry) (simp add: loop_entry_def NewAuditWriter_def Let_def)
  have 3: "aw_step (?w2, empty_db) Internal ?s3"
    by (rule aw_step.tick) (simp add: loop_tick_def NewAuditWriter_def Let_def)
  have "aw_run (?w0, empty_db) (([Accepted ?e] @ [Internal]) @ [Internal]) ?s3"
    by (rule aw_run_trans [OF aw_run_one [OF 3] aw_run_trans [OF aw_run_one [OF 2] aw_run_one [OF 1]]])
  then have r: "aw_run (?w0, empty_db) [Accepted ?e, Internal, Internal] (fst ?s3, snd ?s3)" by simp
  have "db_faults empty_db = []" "distinct (map al_ID (t_audit empty_db @ accepted [Accepted ?e, Internal, Internal]))" "t_audit empty_db = []"
    by (simp_all add: empty_db_def)
  from audit_exactly_once [OF r this(1,2)] this(3) r show ?thesis
    by (intro exI [of _ "fst ?s3"] exI [of _ "snd ?s3"]) auto
qed


end
