(* ===== verification/Cleanup.thy ===== *)
theory Cleanup
  imports File_Manager
begin

text \<open>
  \<open>src/internal/database/cleanup.go\<close>: the periodic removal of files and directories whose
  records were soft-deleted longer ago than the retention.  The comparison of timestamps is the
  database's and so an argument, as is the number of rows read when the connection breaks while a
  result is iterated, which the code does not notice.  The ticker that calls \<open>cleanup\<close> is not
  modelled.
\<close>

section \<open>The service\<close>

record CleanupService =
  cl_interval :: int
  cl_retention :: int

definition NewCleanupService :: "int \<Rightarrow> int \<Rightarrow> CleanupService" where
  "NewCleanupService intervalMinutes retentionDays =
     \<lparr>cl_interval = wrap64 (intervalMinutes * 60000000000), cl_retention = wrap64 (wrap64 (retentionDays * 24) * 3600000000000)\<rparr>"

record cl_env =
  ce_now :: gotime
  ce_format :: "gotime \<Rightarrow> string"
    \<comment> \<open>\<open>Format("2006-01-02 15:04:05")\<close> in the local time zone\<close>
  ce_before :: "string \<Rightarrow> string \<Rightarrow> bool"
    \<comment> \<open>\<open>updated_at < ?\<close> of the database\<close>
  ce_rows :: nat

definition read_rows :: "cl_env \<Rightarrow> (db \<Rightarrow> (string \<times> string) list) \<Rightarrow> db \<Rightarrow> (string \<times> string) list res \<times> db" where
  "read_rows env q d =
     (case db_Query (\<lambda>d. Some (q d)) d of
        (Inl e, d1) \<Rightarrow> (Inl e, d1)
      | (Inr rows, d1) \<Rightarrow>
          (case pop_fault d1 of (Some e, d2) \<Rightarrow> (Inr (take (ce_rows env) rows), d2) | (None, d2) \<Rightarrow> (Inr rows, d2)))"

definition expired_files :: "cl_env \<Rightarrow> string \<Rightarrow> db \<Rightarrow> FileMetadata list" where
  "expired_files env cutoff d = filter (\<lambda>r. fm_IsDeleted r \<and> ce_before env (fm_UpdatedAt r) cutoff) (t_files d)"

definition expired_dirs :: "cl_env \<Rightarrow> string \<Rightarrow> db \<Rightarrow> DirectoryMetadata list" where
  "expired_dirs env cutoff d = filter (\<lambda>r. dm_IsDeleted r \<and> ce_before env (dm_UpdatedAt r) cutoff) (t_dirs d)"

definition getDeletedFiles :: "cl_env \<Rightarrow> string \<Rightarrow> db \<Rightarrow> (string \<times> string) list res \<times> db" where
  "getDeletedFiles env cutoff d = read_rows env (\<lambda>d. map (\<lambda>r. (fm_ID r, fm_Path r)) (expired_files env cutoff d)) d"

definition getDeletedDirectories :: "cl_env \<Rightarrow> string \<Rightarrow> db \<Rightarrow> (string \<times> string) list res \<times> db" where
  "getDeletedDirectories env cutoff d = read_rows env (\<lambda>d. map (\<lambda>r. (dm_ID r, dm_Path r)) (expired_dirs env cutoff d)) d"

definition permanentlyDeleteFile :: "string \<Rightarrow> db \<Rightarrow> unit res \<times> db" where
  "permanentlyDeleteFile i d = db_Exec (\<lambda>d. set_files (filter (\<lambda>r. fm_ID r \<noteq> i) (t_files d)) d) d"

definition permanentlyDeleteDirectory :: "string \<Rightarrow> db \<Rightarrow> unit res \<times> db" where
  "permanentlyDeleteDirectory i d = db_Exec (\<lambda>d. set_dirs (filter (\<lambda>r. dm_ID r \<noteq> i) (t_dirs d)) d) d"

definition cleanup_file :: "'s StorageAdapter \<Rightarrow> string \<times> string \<Rightarrow> 's \<times> db \<Rightarrow> 's \<times> db" where
  "cleanup_file st f sd =
     (case sa_Remove st (snd f) (fst sd) of
        (Inl e, s1) \<Rightarrow> if IsNotExist (Some e) then (s1, snd (permanentlyDeleteFile (fst f) (snd sd))) else (s1, snd sd)
      | (Inr _, s1) \<Rightarrow> (s1, snd (permanentlyDeleteFile (fst f) (snd sd))))"

definition cleanup :: "'s StorageAdapter \<Rightarrow> cl_env \<Rightarrow> CleanupService \<Rightarrow> 's \<times> db \<Rightarrow> 's \<times> db" where
  "cleanup st env svc sd =
     (let cutoff = ce_format env (ce_now env - cl_retention svc)
      in case getDeletedFiles env cutoff (snd sd) of
           (Inl e, d1) \<Rightarrow> (fst sd, d1)
         | (Inr files, d1) \<Rightarrow>
             (case fold (cleanup_file st) files (fst sd, d1) of
                (s2, d2) \<Rightarrow>
                  (case getDeletedDirectories env cutoff d2 of
                     (Inl e, d3) \<Rightarrow> (s2, d3)
                   | (Inr dirs, d3) \<Rightarrow> (s2, fold (\<lambda>x d. snd (permanentlyDeleteDirectory (fst x) d)) dirs d3))))"

section \<open>What a removal of rows keeps\<close>

text \<open>\<open>purged D d d'\<close>: \<open>d'\<close> lacks some of the rows of \<open>d\<close>, all of them in
  \<open>D\<close>, and no visible one.\<close>

definition purged :: "cl_env \<Rightarrow> string \<Rightarrow> db \<Rightarrow> db \<Rightarrow> bool" where
  "purged env cutoff d d' \<longleftrightarrow> db_wf d' \<and>
     set (t_files d) - set (expired_files env cutoff d) \<subseteq> set (t_files d') \<and> set (t_files d') \<subseteq> set (t_files d) \<and>
     set (t_dirs d) - set (expired_dirs env cutoff d) \<subseteq> set (t_dirs d') \<and> set (t_dirs d') \<subseteq> set (t_dirs d) \<and>
     t_tasks d' = t_tasks d \<and> t_audit d' = t_audit d \<and> t_keys d' = t_keys d"

lemma purged_same: "db_wf d \<Longrightarrow> same_tables d' d \<Longrightarrow> purged env cutoff d d'"
  using same_tables_wf [of d' d] by (auto simp: purged_def same_tables_def)

lemma purged_step: "purged env cutoff d d1 \<Longrightarrow> same_tables d2 d1 \<Longrightarrow> purged env cutoff d d2"
  using same_tables_wf [of d2 d1] by (auto simp: purged_def same_tables_def)

text \<open>The rows of a list of ids are among the expired ones.\<close>

lemma delete_file_purged:
  assumes p: "purged env cutoff d d1" and i: "\<forall>r \<in> set (t_files d). fm_ID r = i \<longrightarrow> r \<in> set (expired_files env cutoff d)"
    and c: "permanentlyDeleteFile i d1 = (r, d2)"
  shows "purged env cutoff d d2"
proof (cases r)
  case (Inl e)
  with c show ?thesis using purged_step [OF p] db_Exec_err by (auto simp: permanentlyDeleteFile_def)
next
  case (Inr u)
  with c obtain d0 where d0: "same_tables d0 d1" "set_files (filter (\<lambda>r. fm_ID r \<noteq> i) (t_files d0)) d0 = Some d2"
    using db_Exec_ok by (fastforce simp: permanentlyDeleteFile_def)
  then have "t_files d2 = filter (\<lambda>r. fm_ID r \<noteq> i) (t_files d1)" "t_dirs d2 = t_dirs d1" "t_tasks d2 = t_tasks d1"
    "t_audit d2 = t_audit d1" "t_keys d2 = t_keys d1" "db_wf d2"
    using p same_tables_wf [OF d0(1)] by (auto simp: set_files_def same_tables_def purged_def db_wf_def split: if_splits)
  with p i show ?thesis by (auto simp: purged_def)
qed

lemma delete_dir_purged:
  assumes p: "purged env cutoff d d1" and i: "\<forall>r \<in> set (t_dirs d). dm_ID r = i \<longrightarrow> r \<in> set (expired_dirs env cutoff d)"
    and c: "permanentlyDeleteDirectory i d1 = (r, d2)"
  shows "purged env cutoff d d2"
proof (cases r)
  case (Inl e)
  with c show ?thesis using purged_step [OF p] db_Exec_err by (auto simp: permanentlyDeleteDirectory_def)
next
  case (Inr u)
  with c obtain d0 where d0: "same_tables d0 d1" "set_dirs (filter (\<lambda>r. dm_ID r \<noteq> i) (t_dirs d0)) d0 = Some d2"
    using db_Exec_ok by (fastforce simp: permanentlyDeleteDirectory_def)
  then have "t_dirs d2 = filter (\<lambda>r. dm_ID r \<noteq> i) (t_dirs d1)" "t_files d2 = t_files d1" "t_tasks d2 = t_tasks d1"
    "t_audit d2 = t_audit d1" "t_keys d2 = t_keys d1" "db_wf d2"
    using p same_tables_wf [OF d0(1)] by (auto simp: set_dirs_def same_tables_def purged_def db_wf_def split: if_splits)
  with p i show ?thesis by (auto simp: purged_def)
qed

lemma purged_live:
  assumes wf: "db_wf d" and p: "purged env cutoff d d'"
  shows "live_file d' = live_file d"
proof
  fix q
  have iff: "live_file d q = Some r \<longleftrightarrow> r \<in> set (t_files d) \<and> fm_Path r = q \<and> \<not> fm_IsDeleted r" if "db_wf d" for d q r
  proof
    assume "live_file d q = Some r"
    then show "r \<in> set (t_files d) \<and> fm_Path r = q \<and> \<not> fm_IsDeleted r" using find_SomeD unfolding live_file_def by fastforce
  next
    assume r: "r \<in> set (t_files d) \<and> fm_Path r = q \<and> \<not> fm_IsDeleted r"
    then obtain r' where r': "live_file d q = Some r'" unfolding live_file_def by (cases "find (\<lambda>r. fm_Path r = q \<and> \<not> fm_IsDeleted r) (t_files d)") (auto simp: find_None_iff)
    then have "r' \<in> set (t_files d)" "fm_Path r' = q" using find_SomeD unfolding live_file_def by fastforce+
    with r have "r' = r" using distinct_key_eq [OF conjunct2 [OF wf_files [OF that]]] by simp
    with r' show "live_file d q = Some r" by simp
  qed
  have "live_file d' q = Some r \<longleftrightarrow> live_file d q = Some r" for r
    unfolding iff [OF wf] iff [OF conjunct1 [OF p [unfolded purged_def]]] using p by (auto simp: purged_def expired_files_def)
  then show "live_file d' q = live_file d q" by (metis option.exhaust)
qed

lemma read_rows_sub:
  assumes "read_rows env q d = (r, d1)" "\<And>d e. same_tables d e \<Longrightarrow> q d = q e"
  shows "same_tables d1 d" and "r = Inr es \<Longrightarrow> set es \<subseteq> set (q d)"
proof -
  obtain r0 d0 where q: "db_Query (\<lambda>d. Some (q d)) d = (r0, d0)" by fastforce
  show "same_tables d1 d"
    using assms(1) q db_Query_same [OF q] same_tables_trans [OF pop_fault_same [of d0], of _ _ d]
    by (cases r0) (auto simp: read_rows_def split: prod.splits option.splits)
  show "set es \<subseteq> set (q d)" if "r = Inr es"
  proof (cases r0)
    case (Inr rows)
    have "rows = q d" by (rule db_Query_answer [OF q [unfolded Inr] assms(2)])
    then show ?thesis using assms(1) q Inr that by (auto simp: read_rows_def dest: in_set_takeD split: prod.splits option.splits)
  qed (use assms(1) q that in \<open>simp add: read_rows_def\<close>)
qed

section \<open>The run\<close>

lemma delete_dirs_purged:
  assumes "purged env cutoff d d1" "\<forall>x \<in> set xs. \<forall>r \<in> set (t_dirs d). dm_ID r = fst x \<longrightarrow> r \<in> set (expired_dirs env cutoff d)"
  shows "purged env cutoff d (fold (\<lambda>x d. snd (permanentlyDeleteDirectory (fst x) d)) xs d1)"
  using assms
proof (induction xs arbitrary: d1)
  case (Cons x xs)
  obtain r d2 where "permanentlyDeleteDirectory (fst x) d1 = (r, d2)" by fastforce
  with Cons.IH [of d2] Cons.prems delete_dir_purged show ?case by fastforce
qed simp

context object_storage
begin

lemma cleanup_files_safe:
  assumes "inv s" "purged env cutoff d d1"
    and "\<forall>x \<in> set xs. safe_path (snd x) \<and> (\<forall>r \<in> set (t_files d). fm_ID r = fst x \<longrightarrow> r \<in> set (expired_files env cutoff d))"
    and "fold (cleanup_file st) xs (s, d1) = (s', d')"
  shows "inv s' \<and> purged env cutoff d d' \<and> (\<forall>p. p \<notin> snd ` set xs \<longrightarrow> view s' p = view s p)"
  using assms
proof (induction xs arbitrary: s d1)
  case (Cons x xs)
  obtain r s1 where r: "sa_Remove st (snd x) s = (r, s1)" by fastforce
  obtain c d2 where c: "permanentlyDeleteFile (fst x) d1 = (c, d2)" by fastforce
  have p: "safe_path (snd x)" using Cons.prems(3) by simp
  have s1: "inv s1" "\<forall>q. q \<noteq> snd x \<longrightarrow> view s1 q = view s q"
  proof -
    have "inv s1 \<and> (\<forall>q. q \<noteq> snd x \<longrightarrow> view s1 q = view s q)"
    proof (cases r)
      case (Inl e)
      from remove_err [OF Cons.prems(1) p r [unfolded Inl]] show ?thesis by simp
    next
      case (Inr u)
      with r have "sa_Remove st (snd x) s = (Inr (), s1)" by simp
      from remove_ok [OF Cons.prems(1) p this] show ?thesis by simp
    qed
    then show "inv s1" "\<forall>q. q \<noteq> snd x \<longrightarrow> view s1 q = view s q" by simp_all
  qed
  have d2: "purged env cutoff d d2" using delete_file_purged [OF Cons.prems(2) _ c] Cons.prems(3) by simp
  have "\<exists>d3. cleanup_file st x (s, d1) = (s1, d3) \<and> purged env cutoff d d3"
    using r c d2 Cons.prems(2) by (cases r) (simp_all add: cleanup_file_def)
  then obtain d3 where d3: "cleanup_file st x (s, d1) = (s1, d3)" "purged env cutoff d d3" by blast
  have "fold (cleanup_file st) xs (s1, d3) = (s', d')" using Cons.prems(4) d3(1) by simp
  from Cons.IH [OF s1(1) d3(2) _ this] Cons.prems(3) s1(2) show ?case by auto
qed simp

lemma cleanup_safe:
  assumes "inv s" and wf: "db_wf d" and sp: "\<forall>r \<in> set (t_files d). safe_path (fm_Path r)"
    and c: "cleanup st env svc (s, d) = (s', d')"
  shows "inv s' \<and> purged env (ce_format env (ce_now env - cl_retention svc)) d d' \<and>
    (\<forall>p m. live_file d p = Some m \<longrightarrow> view s' p = view s p)"
proof -
  let ?cut = "ce_format env (ce_now env - cl_retention svc)"
  have st: "same_tables d e \<Longrightarrow> expired_files env ?cut d = expired_files env ?cut e \<and> expired_dirs env ?cut d = expired_dirs env ?cut e" for d e
    by (simp add: expired_files_def expired_dirs_def same_tables_def)
  have ids: "\<forall>r \<in> set (t_files d). fm_ID r = fm_ID q \<longrightarrow> r \<in> set (expired_files env ?cut d)" if "q \<in> set (expired_files env ?cut d)" for q
    using that distinct_key_eq [OF conjunct1 [OF wf_files [OF wf]]] by (fastforce simp: expired_files_def)
  have dids: "\<forall>r \<in> set (t_dirs d). dm_ID r = dm_ID q \<longrightarrow> r \<in> set (expired_dirs env ?cut d)" if "q \<in> set (expired_dirs env ?cut d)" for q
    using that wf distinct_key_eq [of dm_ID "t_dirs d"] by (fastforce simp: expired_dirs_def db_wf_def dir_unique_def)
  obtain fs d1 where f: "getDeletedFiles env ?cut d = (fs, d1)" by fastforce
  have same1: "same_tables d1 d" using read_rows_sub(1) [OF f [unfolded getDeletedFiles_def]] st by simp
  show ?thesis
  proof (cases fs)
    case (Inl e)
    then show ?thesis using c f purged_same [OF wf same1] assms(1) by (auto simp: cleanup_def Let_def)
  next
    case (Inr files)
    have sub: "set files \<subseteq> (\<lambda>r. (fm_ID r, fm_Path r)) ` set (expired_files env ?cut d)"
      using read_rows_sub(2) [OF f [unfolded getDeletedFiles_def] _ Inr] st by auto
    obtain s2 d2 where l: "fold (cleanup_file st) files (s, d1) = (s2, d2)" by fastforce
    have "\<forall>x \<in> set files. safe_path (snd x) \<and> (\<forall>r \<in> set (t_files d). fm_ID r = fst x \<longrightarrow> r \<in> set (expired_files env ?cut d))"
    proof
      fix x assume "x \<in> set files"
      with sub obtain q where q: "q \<in> set (expired_files env ?cut d)" "x = (fm_ID q, fm_Path q)" by blast
      then have "q \<in> set (t_files d)" by (simp add: expired_files_def)
      with ids [OF q(1)] q(2) sp show "safe_path (snd x) \<and> (\<forall>r \<in> set (t_files d). fm_ID r = fst x \<longrightarrow> r \<in> set (expired_files env ?cut d))"
        by simp
    qed
    note fl = cleanup_files_safe [OF assms(1) purged_same [OF wf same1] this l]
    obtain ds d3 where g: "getDeletedDirectories env ?cut d2 = (ds, d3)" by fastforce
    have "same_tables d3 d2" using read_rows_sub(1) [OF g [unfolded getDeletedDirectories_def]] st by simp
    with fl have p3: "purged env ?cut d d3" using purged_step by blast
    have view: "view s2 p = view s p" if "live_file d p = Some m" for p m
    proof -
      have m: "m \<in> set (t_files d)" "fm_Path m = p" "\<not> fm_IsDeleted m"
        using find_SomeD [OF that [unfolded live_file_def]] by simp_all
      have "p \<notin> snd ` set files"
      proof
        assume "p \<in> snd ` set files"
        with sub obtain q where q: "q \<in> set (t_files d)" "fm_IsDeleted q" "fm_Path q = p" by (auto simp: expired_files_def)
        with m distinct_key_eq [OF conjunct2 [OF wf_files [OF wf]] q(1) m(1)] show False by simp
      qed
      with fl show ?thesis by simp
    qed
    show ?thesis
    proof (cases ds)
      case e: (Inl e)
      have "cleanup st env svc (s, d) = (s2, d3)" unfolding cleanup_def Let_def using f Inr l g e by simp
      then show ?thesis using c p3 fl view by auto
    next
      case dirs: (Inr dirs)
      have "set dirs \<subseteq> (\<lambda>r. (dm_ID r, dm_Path r)) ` set (expired_dirs env ?cut d2)"
        using read_rows_sub(2) [OF g [unfolded getDeletedDirectories_def] _ dirs] st by auto
      moreover have "set (expired_dirs env ?cut d2) \<subseteq> set (expired_dirs env ?cut d)"
        using fl by (auto simp: purged_def expired_dirs_def)
      ultimately have "\<forall>x \<in> set dirs. \<forall>r \<in> set (t_dirs d). dm_ID r = fst x \<longrightarrow> r \<in> set (expired_dirs env ?cut d)"
        using dids by (force simp: subset_iff)
      note dp = delete_dirs_purged [OF p3 this]
      have "cleanup st env svc (s, d) = (s2, fold (\<lambda>x d. snd (permanentlyDeleteDirectory (fst x) d)) dirs d3)"
        unfolding cleanup_def Let_def using f Inr l g dirs by simp
      then show ?thesis using c dp fl view by auto
    qed
  qed
qed

end

section \<open>Properties\<close>


definition sample_cl_env :: cl_env where
  "sample_cl_env = \<lparr>ce_now = 0, ce_format = (\<lambda>_. ''2024-06-01 00:00:00''), ce_before = (\<lambda>a b. take 4 a = ''2024''), ce_rows = 0\<rparr>"


text \<open>The clean-up does not lock the paths it removes.  When a file is uploaded again between the
  query for deleted records and the removal of its object, the new record has a new id, survives
  and stays visible, but its object is removed.\<close>

theorem cleanup_races_with_upload:
  assumes "LS_inv rootDir s" "LS_calm s" "safe_path p" "db_wf d" "db_faults d = []"
    and m: "live_file d p = Some m" "fm_ID m \<noteq> i" "LS_view rootDir s p \<noteq> None"
    and c: "cleanup_file (NewLocalStorage rootDir) (i, p) (s, d) = (s', d')"
  shows "live_file d' p = Some m \<and> LS_view rootDir s' p = None"
proof -
  obtain s1 where r: "sa_Remove (NewLocalStorage rootDir) p s = (Inr (), s1)"
    using local_storage.remove_total [OF assms(1-3) m(3)] by blast
  have v: "LS_view rootDir s1 p = None" using local_storage.remove_ok [OF assms(1,3) r] by simp
  have u: "file_unique (filter (\<lambda>r. fm_ID r \<noteq> i) (t_files d))"
    using wf_files [OF assms(4)] by (simp add: file_unique_def distinct_map_filter)
  then have d': "d' = d\<lparr>t_files := filter (\<lambda>r. fm_ID r \<noteq> i) (t_files d)\<rparr>" "s' = s1"
    using c r assms(5) by (simp_all add: cleanup_file_def permanentlyDeleteFile_def db_Exec_def set_files_def)
  have "find P (filter Q xs) = Some x" if "find P xs = Some x" "Q x" for P Q and xs :: "FileMetadata list" and x
    using that by (induction xs) (auto split: if_splits)
  then have "live_file d' p = Some m" using m d'(1) by (simp add: live_file_def)
  with v d'(2) show ?thesis by simp
qed

end
