(* ===== verification/Jwt.thy ===== *)
theory Jwt
  imports Crypto
begin

text \<open>
  \<open>src/internal/auth/jwt.go\<close>: access and refresh tokens.  Signing and parsing belong to the
  library \<open>golang-jwt\<close> and are the argument \<open>jwt_lib\<close>; what the service relies on
  is \<open>jwt_ok\<close>: a token signed with the secret parses back to its claims while it is valid,
  and is refused before and after.  \<open>RefreshToken\<close> looks at the blacklist in one critical
  section and extends it in another; the two are separate definitions, so that their interleaving
  can be stated.
\<close>

section \<open>Claims and the library\<close>

record Claims =
  jc_UserID :: string
  jc_Role :: string
  jc_TokenType :: string
  jc_ID :: string
  jc_ExpiresAt :: gotime
  jc_IssuedAt :: gotime
  jc_NotBefore :: gotime
  jc_Issuer :: string
  jc_Subject :: string

record jwt_lib =
  jwt_Sign :: "bytes \<Rightarrow> Claims \<Rightarrow> string res"
  jwt_Parse :: "bytes \<Rightarrow> gotime \<Rightarrow> string \<Rightarrow> Claims res"
    \<comment> \<open>with a key function that accepts only HMAC signatures\<close>

definition in_force :: "gotime \<Rightarrow> Claims \<Rightarrow> bool" where
  "in_force now c \<longleftrightarrow> jc_NotBefore c \<le> now \<and> now < jc_ExpiresAt c"

definition jwt_ok :: "jwt_lib \<Rightarrow> bool" where
  "jwt_ok lib \<longleftrightarrow> (\<forall>secret c tok now. jwt_Sign lib secret c = Inr tok \<longrightarrow>
     (if in_force now c then jwt_Parse lib secret now tok = Inr c else (\<exists>e. jwt_Parse lib secret now tok = Inl e)))"

text \<open>\<open>jwt.NewNumericDate\<close> cuts off the fraction of the second.\<close>

definition NewNumericDate :: "gotime \<Rightarrow> gotime" where
  "NewNumericDate t = t div 1000000000 * 1000000000"

lemma NewNumericDate_le: "NewNumericDate t \<le> t"
  unfolding NewNumericDate_def using minus_mod_eq_div_mult [of t 1000000000] pos_mod_sign [of 1000000000 t] by linarith

lemma NewNumericDate_mono: "a \<le> b \<Longrightarrow> NewNumericDate a \<le> NewNumericDate b"
  unfolding NewNumericDate_def by (simp add: zdiv_mono1)

section \<open>The service\<close>

record JWTService =
  js_secret :: bytes
  js_tokenExpiry :: int
  js_refreshExpiry :: int
  js_refreshBlacklist :: "string \<rightharpoonup> gotime"

record jwt_env =
  je_now :: gotime
  je_rnd1 :: "bytes option"
  je_rnd2 :: "bytes option"
    \<comment> \<open>16 random bytes, or the failure of the generator\<close>

record TokenPair =
  tp_AccessToken :: string
  tp_RefreshToken :: string
  tp_ExpiresIn :: int

definition NewJWTService :: "string \<Rightarrow> int \<Rightarrow> int \<Rightarrow> JWTService" where
  "NewJWTService secret tokenExpiry refreshExpiry =
     \<lparr>js_secret = secret, js_tokenExpiry = tokenExpiry, js_refreshExpiry = refreshExpiry, js_refreshBlacklist = Map.empty\<rparr>"

definition generateJTI :: "bytes option \<Rightarrow> string res" where
  "generateJTI rnd = (case rnd of None \<Rightarrow> Inl (Ext ''rand'') | Some b \<Rightarrow> Inr (hex_EncodeToString b))"

definition token_claims :: "string \<Rightarrow> string \<Rightarrow> string \<Rightarrow> string \<Rightarrow> gotime \<Rightarrow> int \<Rightarrow> Claims" where
  "token_claims userID role typ jti now expiry =
     \<lparr>jc_UserID = userID, jc_Role = role, jc_TokenType = typ, jc_ID = jti, jc_ExpiresAt = NewNumericDate (now + expiry),
      jc_IssuedAt = NewNumericDate now, jc_NotBefore = NewNumericDate now, jc_Issuer = ''fsserver'', jc_Subject = userID\<rparr>"

definition GenerateTokenPair :: "jwt_lib \<Rightarrow> jwt_env \<Rightarrow> string \<Rightarrow> string \<Rightarrow> JWTService \<Rightarrow> TokenPair res" where
  "GenerateTokenPair lib env userID role s =
     (case generateJTI (je_rnd1 env) of
        Inl e \<Rightarrow> Inl (Wrapf ''failed to generate access token ID'' e)
      | Inr accessJTI \<Rightarrow>
     (case jwt_Sign lib (js_secret s) (token_claims userID role ''access'' accessJTI (je_now env) (js_tokenExpiry s)) of
        Inl e \<Rightarrow> Inl e
      | Inr accessStr \<Rightarrow>
     (case generateJTI (je_rnd2 env) of
        Inl e \<Rightarrow> Inl (Wrapf ''failed to generate refresh token ID'' e)
      | Inr refreshJTI \<Rightarrow>
     (case jwt_Sign lib (js_secret s) (token_claims userID role ''refresh'' refreshJTI (je_now env) (js_refreshExpiry s)) of
        Inl e \<Rightarrow> Inl e
      | Inr refreshStr \<Rightarrow>
          Inr \<lparr>tp_AccessToken = accessStr, tp_RefreshToken = refreshStr, tp_ExpiresIn = go_quot (js_tokenExpiry s) 1000000000\<rparr>))))"

definition ValidateToken :: "jwt_lib \<Rightarrow> gotime \<Rightarrow> string \<Rightarrow> JWTService \<Rightarrow> Claims res" where
  "ValidateToken lib now tok s =
     (case jwt_Parse lib (js_secret s) now tok of
        Inl e \<Rightarrow> Inl e
      | Inr claims \<Rightarrow>
          if jc_TokenType claims = ''refresh'' \<and> jc_ID claims \<noteq> [] \<and> js_refreshBlacklist s (jc_ID claims) \<noteq> None
          then Inl (Errorf ''refresh token has been revoked'') else Inr claims)"

definition cleanupBlacklist :: "gotime \<Rightarrow> JWTService \<Rightarrow> JWTService" where
  "cleanupBlacklist now s =
     s\<lparr>js_refreshBlacklist := (\<lambda>j. case js_refreshBlacklist s j of Some t \<Rightarrow> if t < now then None else Some t | None \<Rightarrow> None)\<rparr>"

text \<open>The two halves of \<open>RefreshToken\<close>.\<close>

definition refresh_check :: "jwt_lib \<Rightarrow> gotime \<Rightarrow> string \<Rightarrow> JWTService \<Rightarrow> Claims res" where
  "refresh_check lib now tok s =
     (case ValidateToken lib now tok s of
        Inl e \<Rightarrow> Inl e
      | Inr claims \<Rightarrow>
          if jc_TokenType claims \<noteq> [] \<and> jc_TokenType claims \<noteq> ''refresh'' then Inl (Errorf ''not a refresh token'') else Inr claims)"

definition refresh_commit :: "jwt_lib \<Rightarrow> jwt_env \<Rightarrow> Claims \<Rightarrow> JWTService \<Rightarrow> TokenPair res \<times> JWTService" where
  "refresh_commit lib env claims s =
     (let s1 = (if jc_ID claims \<noteq> []
                then cleanupBlacklist (je_now env) (s\<lparr>js_refreshBlacklist := (js_refreshBlacklist s)(jc_ID claims \<mapsto> je_now env + js_refreshExpiry s)\<rparr>)
                else s)
      in (GenerateTokenPair lib env (jc_UserID claims) (jc_Role claims) s1, s1))"

definition RefreshToken :: "jwt_lib \<Rightarrow> jwt_env \<Rightarrow> string \<Rightarrow> JWTService \<Rightarrow> TokenPair res \<times> JWTService" where
  "RefreshToken lib env tok s =
     (case refresh_check lib (je_now env) tok s of
        Inl e \<Rightarrow> (Inl e, s)
      | Inr claims \<Rightarrow> refresh_commit lib env claims s)"

section \<open>Lemmas\<close>

lemma hex_ne: "hex_EncodeToString b = [] \<longleftrightarrow> b = []"
  by (cases b) simp_all

text \<open>A token this service issued: what parsing gives.\<close>

lemma parse_signed:
  assumes "jwt_ok lib" "jwt_Sign lib secret c = Inr tok"
  shows "in_force now c \<Longrightarrow> jwt_Parse lib secret now tok = Inr c" "\<not> in_force now c \<Longrightarrow> \<exists>e. jwt_Parse lib secret now tok = Inl e"
  using assms by (auto simp: jwt_ok_def)

lemma pair_tokens:
  assumes "GenerateTokenPair lib env u r s = Inr p"
  shows "\<exists>b1 b2. je_rnd1 env = Some b1 \<and> je_rnd2 env = Some b2 \<and>
    jwt_Sign lib (js_secret s) (token_claims u r ''access'' (hex_EncodeToString b1) (je_now env) (js_tokenExpiry s)) = Inr (tp_AccessToken p) \<and>
    jwt_Sign lib (js_secret s) (token_claims u r ''refresh'' (hex_EncodeToString b2) (je_now env) (js_refreshExpiry s)) = Inr (tp_RefreshToken p)"
  using assms by (auto simp: GenerateTokenPair_def generateJTI_def split: sum.splits option.splits)

text \<open>Spent: blacklisted until the token expires at the earliest, or expired.\<close>

definition spent :: "Claims \<Rightarrow> gotime \<Rightarrow> JWTService \<Rightarrow> bool" where
  "spent c now s \<longleftrightarrow> jc_ExpiresAt c \<le> now \<or> (\<exists>t. js_refreshBlacklist s (jc_ID c) = Some t \<and> jc_ExpiresAt c \<le> t)"

lemma spent_mono: "spent c now s \<Longrightarrow> now \<le> now' \<Longrightarrow> spent c now' s"
  by (auto simp: spent_def)

lemma refresh_keeps_spent:
  assumes "spent c t s" "t \<le> je_now env" "jc_ExpiresAt c \<le> je_now env \<or> jc_ExpiresAt c \<le> je_now env + js_refreshExpiry s"
  shows "spent c (je_now env) (snd (RefreshToken lib env tok s)) \<and> js_secret (snd (RefreshToken lib env tok s)) = js_secret s \<and>
    js_refreshExpiry (snd (RefreshToken lib env tok s)) = js_refreshExpiry s"
  using assms by (auto simp: RefreshToken_def refresh_commit_def cleanupBlacklist_def spent_def Let_def split: sum.splits)

fun run_refresh :: "jwt_lib \<Rightarrow> (jwt_env \<times> string) list \<Rightarrow> JWTService \<Rightarrow> JWTService" where
  "run_refresh lib [] s = s"
| "run_refresh lib ((env, tok) # cs) s = run_refresh lib cs (snd (RefreshToken lib env tok s))"

lemma run_refresh_spent:
  assumes "spent c t s" "sorted (map (je_now \<circ> fst) cs)" "\<forall>x \<in> set cs. t \<le> je_now (fst x)"
    and "jc_ExpiresAt c \<le> t + js_refreshExpiry s" "\<forall>x \<in> set cs. je_now (fst x) \<le> now" "t \<le> now"
  shows "spent c now (run_refresh lib cs s) \<and> js_secret (run_refresh lib cs s) = js_secret s"
  using assms
proof (induction cs arbitrary: t s)
  case Nil
  then show ?case by (simp add: spent_mono)
next
  case (Cons x cs)
  obtain env tok where x: "x = (env, tok)" by (cases x)
  let ?s1 = "snd (RefreshToken lib env tok s)"
  have "spent c (je_now env) ?s1" "js_secret ?s1 = js_secret s" "js_refreshExpiry ?s1 = js_refreshExpiry s"
    using refresh_keeps_spent [OF Cons.prems(1), of env] Cons.prems(3,4) x by auto
  with Cons.IH [of "je_now env" ?s1] Cons.prems x show ?case by auto
qed

section \<open>Properties\<close>

text \<open>
  C28: a refresh token works once.  Let the service issue a pair of tokens and its
  refresh token be used once, at any later time.  Then, whatever other tokens are refreshed
  afterwards, one call after the other and with the clock never going back, and although every call
  removes old entries from the blacklist, the same token is never accepted again.
\<close>

theorem refresh_token_once:
  assumes lib: "jwt_ok lib" and g: "GenerateTokenPair lib env0 u r s0 = Inr p" and b: "je_rnd2 env0 \<noteq> Some []"
    and s: "js_secret s = js_secret s0" "js_refreshExpiry s = js_refreshExpiry s0" "je_now env0 \<le> je_now env1"
    and first: "RefreshToken lib env1 (tp_RefreshToken p) s = (Inr q, s1)"
    and cs: "sorted (map (je_now \<circ> fst) cs)" "\<forall>x \<in> set cs. je_now env1 \<le> je_now (fst x) \<and> je_now (fst x) \<le> je_now env2"
      "je_now env1 \<le> je_now env2"
  shows "\<exists>e. RefreshToken lib env2 (tp_RefreshToken p) (run_refresh lib cs s1) = (Inl e, run_refresh lib cs s1)"
proof -
  obtain j where j: "je_rnd2 env0 = Some j" and sg: "jwt_Sign lib (js_secret s0)
      (token_claims u r ''refresh'' (hex_EncodeToString j) (je_now env0) (js_refreshExpiry s0)) = Inr (tp_RefreshToken p)"
    using pair_tokens [OF g] by blast
  let ?c = "token_claims u r ''refresh'' (hex_EncodeToString j) (je_now env0) (js_refreshExpiry s0)"
  have ne: "jc_ID ?c \<noteq> []" "jc_TokenType ?c = ''refresh''" using b j hex_ne by (auto simp: token_claims_def)
  have exp: "jc_ExpiresAt ?c \<le> je_now env1 + js_refreshExpiry s"
    using NewNumericDate_le [of "je_now env0 + js_refreshExpiry s0"] s by (simp add: token_claims_def)
  have f1: "in_force (je_now env1) ?c"
    using first parse_signed(2) [OF lib sg, of "je_now env1"] s(1)
    by (auto simp: RefreshToken_def refresh_check_def ValidateToken_def split: sum.splits if_splits)
  have s1: "spent ?c (je_now env1) s1" "js_secret s1 = js_secret s0" "js_refreshExpiry s1 = js_refreshExpiry s"
    using first parse_signed(1) [OF lib sg f1] s(1) ne exp f1
    by (auto simp: RefreshToken_def refresh_check_def ValidateToken_def refresh_commit_def cleanupBlacklist_def spent_def in_force_def Let_def
        split: sum.splits if_splits)
  let ?s2 = "run_refresh lib cs s1"
  have s2: "spent ?c (je_now env2) ?s2" "js_secret ?s2 = js_secret s0"
    using run_refresh_spent [OF s1(1) cs(1), of "je_now env2" lib] cs(2,3) exp s1(2,3) by auto
  have "\<exists>e. ValidateToken lib (je_now env2) (tp_RefreshToken p) ?s2 = Inl e"
  proof (cases "in_force (je_now env2) ?c")
    case True
    with s2(1) have "js_refreshBlacklist ?s2 (jc_ID ?c) \<noteq> None" by (auto simp: spent_def in_force_def)
    then show ?thesis using parse_signed(1) [OF lib sg True] s2(2) ne by (simp add: ValidateToken_def)
  next
    case False
    then show ?thesis using parse_signed(2) [OF lib sg False] s2(2) by (auto simp: ValidateToken_def)
  qed
  then show ?thesis by (auto simp: RefreshToken_def refresh_check_def)
qed

text \<open>A library with a finite table of tokens.\<close>

definition table_lib :: "(Claims \<times> string) list \<Rightarrow> jwt_lib" where
  "table_lib tab =
     \<lparr>jwt_Sign = (\<lambda>_ c. case map_of tab c of Some t \<Rightarrow> Inr t | None \<Rightarrow> Inl (Ext ''sign'')),
      jwt_Parse = (\<lambda>_ now t. case map_of (map prod.swap tab) t of
         Some c \<Rightarrow> if in_force now c then Inr c else Inl (Ext ''token is expired'') | None \<Rightarrow> Inl (Ext ''token is malformed''))\<rparr>"

lemma table_lib_ok: "distinct (map snd tab) \<Longrightarrow> jwt_ok (table_lib tab)"
proof -
  assume d: "distinct (map snd tab)"
  have "map_of (map prod.swap tab) t = Some c" if "map_of tab c = Some t" for c t
  proof -
    have "(t, c) \<in> set (map prod.swap tab)" using map_of_SomeD [OF that] by force
    moreover have "distinct (map fst (map prod.swap tab))" using d by (simp add: comp_def)
    ultimately show ?thesis by (simp add: map_of_eq_Some_iff)
  qed
  then show ?thesis by (auto simp: jwt_ok_def table_lib_def split: option.splits)
qed

definition sample_jwt_env :: "gotime \<Rightarrow> jwt_env" where
  "sample_jwt_env t = \<lparr>je_now = t, je_rnd1 = Some ''a'', je_rnd2 = Some ''r''\<rparr>"

definition sample_jwt_lib :: jwt_lib where
  "sample_jwt_lib = table_lib
     [(token_claims ''u'' ''user'' ''access'' ''61'' 0 86400000000000, ''A''), (token_claims ''u'' ''user'' ''refresh'' ''72'' 0 604800000000000, ''R''),
      (token_claims ''u'' ''user'' ''access'' ''61'' 5000000000 86400000000000, ''A2''),
      (token_claims ''u'' ''user'' ''refresh'' ''72'' 5000000000 604800000000000, ''R2'')]"

theorem refresh_token_once_witness:
  "let s0 = NewJWTService ''k'' 86400000000000 604800000000000; env = sample_jwt_env 5000000000
   in fst (RefreshToken sample_jwt_lib env ''R'' s0) = Inr \<lparr>tp_AccessToken = ''A2'', tp_RefreshToken = ''R2'', tp_ExpiresIn = 86400\<rparr> \<and>
      (\<exists>e. fst (RefreshToken sample_jwt_lib env ''R'' (snd (RefreshToken sample_jwt_lib env ''R'' s0))) = Inl e)"
proof -
  let ?s0 = "NewJWTService ''k'' 86400000000000 604800000000000" let ?env = "sample_jwt_env 5000000000"
  let ?p = "\<lparr>tp_AccessToken = ''A'', tp_RefreshToken = ''R'', tp_ExpiresIn = 86400\<rparr>"
  let ?q = "\<lparr>tp_AccessToken = ''A2'', tp_RefreshToken = ''R2'', tp_ExpiresIn = 86400\<rparr>"
  have ok: "jwt_ok sample_jwt_lib" unfolding sample_jwt_lib_def by (rule table_lib_ok) simp
  have g: "GenerateTokenPair sample_jwt_lib (sample_jwt_env 0) ''u'' ''user'' ?s0 = Inr ?p" by code_simp
  have f0: "fst (RefreshToken sample_jwt_lib ?env ''R'' ?s0) = Inr ?q" by code_simp
  then have f: "RefreshToken sample_jwt_lib ?env (tp_RefreshToken ?p) ?s0 = (Inr ?q, snd (RefreshToken sample_jwt_lib ?env ''R'' ?s0))"
    by (simp add: prod_eq_iff)
  from refresh_token_once [OF ok g _ refl refl _ f, of "[]" ?env]
  obtain e where "RefreshToken sample_jwt_lib ?env ''R'' (snd (RefreshToken sample_jwt_lib ?env ''R'' ?s0)) = (Inl e, snd (RefreshToken sample_jwt_lib ?env ''R'' ?s0))"
    by (auto simp: sample_jwt_env_def)
  then have "fst (RefreshToken sample_jwt_lib ?env ''R'' (snd (RefreshToken sample_jwt_lib ?env ''R'' ?s0))) = Inl e" by simp
  with f0 show ?thesis unfolding Let_def by blast
qed

text \<open>
  The two kinds of token cannot be exchanged.  From the second in which it was issued until
  it expires, and at no other time, an access token is valid, with the user and the role it was issued
  for; it is never accepted for a refresh.  The refresh token carries the same user and role.
\<close>

theorem token_kinds:
  assumes lib: "jwt_ok lib" and g: "GenerateTokenPair lib env u r s = Inr p" and now: "je_now env \<le> now"
  shows "(now < NewNumericDate (je_now env + js_tokenExpiry s) \<longrightarrow>
      (\<exists>c. ValidateToken lib now (tp_AccessToken p) s = Inr c \<and> jc_UserID c = u \<and> jc_Role c = r \<and> jc_TokenType c = ''access'')) \<and>
    (NewNumericDate (je_now env + js_tokenExpiry s) \<le> now \<longrightarrow> (\<exists>e. ValidateToken lib now (tp_AccessToken p) s = Inl e)) \<and>
    (\<exists>e. refresh_check lib now (tp_AccessToken p) s = Inl e) \<and>
    (\<forall>c. refresh_check lib now (tp_RefreshToken p) s = Inr c \<longrightarrow> jc_UserID c = u \<and> jc_Role c = r)"
proof -
  obtain b1 b2 where a: "jwt_Sign lib (js_secret s) (token_claims u r ''access'' (hex_EncodeToString b1) (je_now env) (js_tokenExpiry s)) = Inr (tp_AccessToken p)"
    and f: "jwt_Sign lib (js_secret s) (token_claims u r ''refresh'' (hex_EncodeToString b2) (je_now env) (js_refreshExpiry s)) = Inr (tp_RefreshToken p)"
    using pair_tokens [OF g] by blast
  let ?a = "token_claims u r ''access'' (hex_EncodeToString b1) (je_now env) (js_tokenExpiry s)"
  let ?f = "token_claims u r ''refresh'' (hex_EncodeToString b2) (je_now env) (js_refreshExpiry s)"
  have nb: "NewNumericDate (je_now env) \<le> now" using now NewNumericDate_le [of "je_now env"] by simp
  have fa: "in_force now ?a \<longleftrightarrow> now < NewNumericDate (je_now env + js_tokenExpiry s)" using nb by (simp add: in_force_def token_claims_def)
  have va: "(in_force now ?a \<longrightarrow> ValidateToken lib now (tp_AccessToken p) s = Inr ?a) \<and>
      (\<not> in_force now ?a \<longrightarrow> (\<exists>e. ValidateToken lib now (tp_AccessToken p) s = Inl e))"
    using parse_signed [OF lib a, of now] by (auto simp: ValidateToken_def token_claims_def)
  have "refresh_check lib now (tp_RefreshToken p) s = Inr c \<Longrightarrow> c = ?f" for c
    using parse_signed [OF lib f, of now] by (cases "in_force now ?f") (auto simp: refresh_check_def ValidateToken_def split: if_splits)
  moreover have "\<exists>e. refresh_check lib now (tp_AccessToken p) s = Inl e"
    using va by (cases "in_force now ?a") (auto simp: refresh_check_def token_claims_def)
  moreover have "jc_UserID ?a = u" "jc_Role ?a = r" "jc_TokenType ?a = ''access''" "jc_UserID ?f = u" "jc_Role ?f = r"
    by (simp_all add: token_claims_def)
  ultimately show ?thesis using va fa by (metis leD not_le)
qed

theorem token_kinds_witness:
  "\<exists>c. ValidateToken sample_jwt_lib 5000000000 ''A'' (NewJWTService ''k'' 86400000000000 604800000000000) = Inr c \<and> jc_Role c = ''user''"
proof -
  let ?s = "NewJWTService ''k'' 86400000000000 604800000000000"
  have ok: "jwt_ok sample_jwt_lib" unfolding sample_jwt_lib_def by (rule table_lib_ok) simp
  have g: "GenerateTokenPair sample_jwt_lib (sample_jwt_env 0) ''u'' ''user'' ?s = Inr \<lparr>tp_AccessToken = ''A'', tp_RefreshToken = ''R'', tp_ExpiresIn = 86400\<rparr>"
    by code_simp
  from token_kinds [OF ok g, of 5000000000] show ?thesis
    by (auto simp: sample_jwt_env_def NewJWTService_def NewNumericDate_def)
qed

text \<open>Two calls that check the same refresh token before either has stored it both succeed: the
  second half does not look at the blacklist again.\<close>

theorem refresh_race:
  assumes "refresh_check lib t1 tok s = Inr c" "refresh_check lib t2 tok s = Inr c"
  shows "fst (refresh_commit lib env1 c s) = GenerateTokenPair lib env1 (jc_UserID c) (jc_Role c) s \<and>
    fst (refresh_commit lib env2 c (snd (refresh_commit lib env1 c s))) = GenerateTokenPair lib env2 (jc_UserID c) (jc_Role c) s"
proof -
  have "GenerateTokenPair lib env u r s' = GenerateTokenPair lib env u r s"
    if "js_secret s' = js_secret s" "js_tokenExpiry s' = js_tokenExpiry s" "js_refreshExpiry s' = js_refreshExpiry s" for env u r s'
    unfolding GenerateTokenPair_def that ..
  note same = this
  have keep: "js_secret (snd (refresh_commit lib env c s)) = js_secret s" "js_tokenExpiry (snd (refresh_commit lib env c s)) = js_tokenExpiry s"
    "js_refreshExpiry (snd (refresh_commit lib env c s)) = js_refreshExpiry s" for env s
    by (simp_all add: refresh_commit_def cleanupBlacklist_def Let_def)
  have fst: "fst (refresh_commit lib env c s') = GenerateTokenPair lib env (jc_UserID c) (jc_Role c) (snd (refresh_commit lib env c s'))" for env s'
    by (simp add: refresh_commit_def Let_def)
  show ?thesis unfolding fst by (intro conjI same) (simp_all add: keep)
qed

end
