(* ===== verification/Auth.thy ===== *)
theory Auth
  imports Jwt Metadata "HOL-Library.AList_Mapping"
begin

text \<open>
  \<open>src/internal/auth/auth.go\<close>: the users, the API keys, and the limiter of failed attempts.
  SHA-256 and the lookup of keys in the database are arguments; \<open>order\<close> is the order in which Go
  iterates over the map of users.  \<open>time.Since(t).Seconds() > s\<close> compares a floating-point
  number of seconds, which for the durations that occur decides as the comparison of nanoseconds
  written here.
\<close>

section \<open>State\<close>

record User =
  u_ID :: string
  u_ApiKeyHash :: string
  u_Name :: string
  u_Role :: string
  u_Enabled :: bool

record AuthFailureRecord =
  af_ClientIP :: string
  af_FailureCount :: int
  af_LastFailure :: gotime

record 'd AuthService =
  au_users :: "string \<rightharpoonup> User"
  au_authEnabled :: bool
  au_defaultApiKeyHash :: string
  au_authFailures :: "(string, AuthFailureRecord) mapping"
  au_maxAuthFailures :: int
  au_rateLimitSeconds :: int
  au_jwtService :: "JWTService option"
  au_apiKeyLookupFn :: "(string \<Rightarrow> 'd \<Rightarrow> ApiKey option res \<times> 'd) option"

definition NewAuthService :: "'d AuthService" where
  "NewAuthService =
     \<lparr>au_users = Map.empty, au_authEnabled = False, au_defaultApiKeyHash = [], au_authFailures = Mapping.empty,
      au_maxAuthFailures = 10, au_rateLimitSeconds = 300, au_jwtService = None, au_apiKeyLookupFn = None\<rparr>"

definition SetApiKeyLookup :: "(string \<Rightarrow> 'd \<Rightarrow> ApiKey option res \<times> 'd) \<Rightarrow> 'd AuthService \<Rightarrow> 'd AuthService" where
  "SetApiKeyLookup fn s = s\<lparr>au_apiKeyLookupFn := Some fn\<rparr>"

definition Auth_Init :: "(string \<Rightarrow> string) \<Rightarrow> bool \<Rightarrow> string \<Rightarrow> 'd AuthService \<Rightarrow> 'd AuthService" where
  "Auth_Init hashApiKey authEnabled apiKey s =
     (let s1 = s\<lparr>au_authEnabled := authEnabled\<rparr>
      in if authEnabled \<and> apiKey \<noteq> [] then
           s1\<lparr>au_defaultApiKeyHash := hashApiKey apiKey,
              au_jwtService := Some (NewJWTService (hashApiKey apiKey) (24 * 3600000000000) (168 * 3600000000000))\<rparr>
         else s1)"

section \<open>API keys\<close>

definition user_match :: "string \<Rightarrow> string list \<Rightarrow> (string \<rightharpoonup> User) \<Rightarrow> User option" where
  "user_match hashedKey order users =
     find (\<lambda>u. u_Enabled u \<and> u_ApiKeyHash u = hashedKey) (List.map_filter users order)"

definition lookup_key :: "string \<Rightarrow> 'd AuthService \<Rightarrow> 'd \<Rightarrow> ApiKey option \<times> 'd" where
  "lookup_key hashedKey s d =
     (case au_apiKeyLookupFn s of
        None \<Rightarrow> (None, d)
      | Some fn \<Rightarrow>
          (case fn hashedKey d of
             (Inr (Some key), d1) \<Rightarrow> (if ak_IsActive key then Some key else None, d1)
           | (_, d1) \<Rightarrow> (None, d1)))"

definition ValidateApiKey :: "(string \<Rightarrow> string) \<Rightarrow> string list \<Rightarrow> string \<Rightarrow> 'd AuthService \<Rightarrow> 'd \<Rightarrow> bool \<times> 'd" where
  "ValidateApiKey hashApiKey order apiKey s d =
     (if \<not> au_authEnabled s then (True, d)
      else if apiKey = [] then (False, d)
      else let hashedKey = hashApiKey apiKey
        in if au_defaultApiKeyHash s \<noteq> [] \<and> hashedKey = au_defaultApiKeyHash s then (True, d)
           else if user_match hashedKey order (au_users s) \<noteq> None then (True, d)
           else (case lookup_key hashedKey s d of (Some key, d1) \<Rightarrow> (True, d1) | (None, d1) \<Rightarrow> (False, d1)))"

definition key_role :: "string \<Rightarrow> string" where
  "key_role permissions =
     (if permissions = ''admin'' then ''admin''
      else if permissions \<noteq> [] \<and> list_ex (\<lambda>p. TrimSpace p = ''admin'') (Split (CHR '','') permissions) then ''admin''
      else ''user'')"

definition jwt_user :: "jwt_lib \<Rightarrow> gotime \<Rightarrow> string \<Rightarrow> 'd AuthService \<Rightarrow> User option" where
  "jwt_user lib now apiKey s =
     (case au_jwtService s of
        None \<Rightarrow> None
      | Some js \<Rightarrow>
          (case ValidateToken lib now apiKey js of
             Inl e \<Rightarrow> None
           | Inr claims \<Rightarrow>
               if jc_TokenType claims = [] \<or> jc_TokenType claims = ''access''
               then Some \<lparr>u_ID = jc_UserID claims, u_ApiKeyHash = [], u_Name = jc_UserID claims, u_Role = jc_Role claims, u_Enabled = True\<rparr>
               else None))"

definition GetUserByApiKey ::
  "jwt_lib \<Rightarrow> gotime \<Rightarrow> (string \<Rightarrow> string) \<Rightarrow> string list \<Rightarrow> string \<Rightarrow> 'd AuthService \<Rightarrow> 'd \<Rightarrow> User option \<times> 'd"
where
  "GetUserByApiKey lib now hashApiKey order apiKey s d =
     (if \<not> au_authEnabled s then (None, d)
      else if apiKey = [] then (None, d)
      else (case jwt_user lib now apiKey s of
        Some u \<Rightarrow> (Some u, d)
      | None \<Rightarrow>
          (let hashedKey = hashApiKey apiKey
           in if au_defaultApiKeyHash s \<noteq> [] \<and> hashedKey = au_defaultApiKeyHash s
              then (Some \<lparr>u_ID = ''default'', u_ApiKeyHash = [], u_Name = ''Default Admin'', u_Role = ''admin'', u_Enabled = True\<rparr>, d)
              else (case user_match hashedKey order (au_users s) of
                Some u \<Rightarrow> (Some u, d)
              | None \<Rightarrow>
                  (case lookup_key hashedKey s d of
                     (Some key, d1) \<Rightarrow> (Some \<lparr>u_ID = ak_ID key, u_ApiKeyHash = [], u_Name = ak_Name key,
                        u_Role = key_role (ak_Permissions key), u_Enabled = True\<rparr>, d1)
                   | (None, d1) \<Rightarrow> (None, d1))))))"

definition HasPermission ::
  "jwt_lib \<Rightarrow> gotime \<Rightarrow> (string \<Rightarrow> string) \<Rightarrow> string list \<Rightarrow> string \<Rightarrow> string \<Rightarrow> string \<Rightarrow> 'd AuthService \<Rightarrow> 'd \<Rightarrow> bool \<times> 'd"
where
  "HasPermission lib now hashApiKey order apiKey resource action s d =
     (if \<not> au_authEnabled s then (True, d)
      else case GetUserByApiKey lib now hashApiKey order apiKey s d of
        (None, d1) \<Rightarrow> (False, d1)
      | (Some u, d1) \<Rightarrow>
          if \<not> u_Enabled u then (False, d1)
          else if u_Role u = ''admin'' then (True, d1)
          else if u_Role u = ''user'' \<and> resource = ''files'' then (action = ''read'' \<or> action = ''write'', d1)
          else (False, d1))"

definition GenerateApiKey :: "(string \<Rightarrow> string) \<Rightarrow> string \<Rightarrow> string \<Rightarrow> string" where
  "GenerateApiKey sha uuid userId = sha (userId @ uuid)"

section \<open>Users\<close>

definition CreateUser :: "User \<Rightarrow> 'd AuthService \<Rightarrow> unit res \<times> 'd AuthService" where
  "CreateUser user s =
     (if u_ID user = [] then (Inl (Errorf ''user ID cannot be empty''), s)
      else if au_users s (u_ID user) \<noteq> None then (Inl (Errorf ''user already exists''), s)
      else (Inr (), s\<lparr>au_users := (au_users s)(u_ID user \<mapsto> user)\<rparr>))"

definition UpdateUser :: "User \<Rightarrow> 'd AuthService \<Rightarrow> unit res \<times> 'd AuthService" where
  "UpdateUser user s =
     (if u_ID user = [] then (Inl (Errorf ''user ID cannot be empty''), s)
      else if au_users s (u_ID user) = None then (Inl (Errorf ''user not found''), s)
      else (Inr (), s\<lparr>au_users := (au_users s)(u_ID user \<mapsto> user)\<rparr>))"

definition DeleteUser :: "string \<Rightarrow> 'd AuthService \<Rightarrow> unit res \<times> 'd AuthService" where
  "DeleteUser userId s =
     (if au_users s userId = None then (Inl (Errorf ''user not found''), s)
      else (Inr (), s\<lparr>au_users := (au_users s)(userId := None)\<rparr>))"

definition GetUserById :: "string \<Rightarrow> 'd AuthService \<Rightarrow> User res" where
  "GetUserById userId s = (case au_users s userId of None \<Rightarrow> Inl (Errorf ''user not found'') | Some u \<Rightarrow> Inr u)"

section \<open>Failed attempts\<close>

abbreviation limit_window :: "'d AuthService \<Rightarrow> int" where "limit_window s \<equiv> au_rateLimitSeconds s * 1000000000"

definition IsRateLimited :: "gotime \<Rightarrow> string \<Rightarrow> 'd AuthService \<Rightarrow> bool" where
  "IsRateLimited now clientIP s =
     (case Mapping.lookup (au_authFailures s) clientIP of
        None \<Rightarrow> False
      | Some record \<Rightarrow> if now - af_LastFailure record > limit_window s then False else af_FailureCount record \<ge> au_maxAuthFailures s)"

definition RecordAuthFailure :: "gotime \<Rightarrow> string \<Rightarrow> 'd AuthService \<Rightarrow> 'd AuthService" where
  "RecordAuthFailure now clientIP0 s =
     (let clientIP = TrimSpace clientIP0;
          win = limit_window s;
          fs = (if Mapping.size (au_authFailures s) > 10000
                then Mapping.filter (\<lambda>ip r. \<not> now - af_LastFailure r > win) (au_authFailures s)
                else au_authFailures s)
      in s\<lparr>au_authFailures := Mapping.update clientIP
           (case Mapping.lookup fs clientIP of
              None \<Rightarrow> \<lparr>af_ClientIP = clientIP, af_FailureCount = 1, af_LastFailure = now\<rparr>
            | Some r \<Rightarrow> r\<lparr>af_FailureCount := (if now - af_LastFailure r > win then 1 else af_FailureCount r + 1),
                          af_LastFailure := now\<rparr>) fs\<rparr>)"

definition ClearAuthFailure :: "string \<Rightarrow> 'd AuthService \<Rightarrow> 'd AuthService" where
  "ClearAuthFailure clientIP s = s\<lparr>au_authFailures := Mapping.delete clientIP (au_authFailures s)\<rparr>"

section \<open>The limiter against its specification\<close>

datatype limit_event = Failure gotime string | Cleared string

fun event_step :: "limit_event \<Rightarrow> 'd AuthService \<Rightarrow> 'd AuthService" where
  "event_step (Failure t ip) s = RecordAuthFailure t ip s"
| "event_step (Cleared ip) s = ClearAuthFailure ip s"

text \<open>The failures of an address since it was last cleared, latest first.\<close>

fun since_clear :: "string \<Rightarrow> limit_event list \<Rightarrow> gotime list \<Rightarrow> gotime list" where
  "since_clear ip [] ts = ts"
| "since_clear ip (Failure t a # evs) ts = since_clear ip evs (if TrimSpace a = ip then t # ts else ts)"
| "since_clear ip (Cleared a # evs) ts = since_clear ip evs (if a = ip then [] else ts)"

text \<open>The length of the burst that ends with the latest failure: no gap in it is longer than the
  window.\<close>

fun burst :: "int \<Rightarrow> gotime list \<Rightarrow> int" where
  "burst win [] = 0"
| "burst win [t] = 1"
| "burst win (t # u # ts) = (if t - u > win then 1 else burst win (u # ts) + 1)"

definition limited :: "int \<Rightarrow> int \<Rightarrow> gotime \<Rightarrow> gotime list \<Rightarrow> bool" where
  "limited win maxFailures now ts \<longleftrightarrow> (case ts of [] \<Rightarrow> False | t # _ \<Rightarrow> now - t \<le> win \<and> maxFailures \<le> burst win ts)"

fun event_times :: "limit_event list \<Rightarrow> gotime list" where
  "event_times [] = []"
| "event_times (Failure t a # evs) = t # event_times evs"
| "event_times (Cleared a # evs) = event_times evs"

text \<open>The record of an address stands for its failures; it may be missing when they are past.\<close>

definition limit_rel :: "gotime \<Rightarrow> string \<Rightarrow> gotime list \<Rightarrow> 'd AuthService \<Rightarrow> bool" where
  "limit_rel now ip ts s \<longleftrightarrow>
     (case Mapping.lookup (au_authFailures s) ip of
        None \<Rightarrow> ts = [] \<or> now - hd ts > limit_window s
      | Some r \<Rightarrow> ts \<noteq> [] \<and> af_LastFailure r = hd ts \<and> af_FailureCount r = burst (limit_window s) ts)"

lemma limit_rel_mono: "limit_rel now ip ts s \<Longrightarrow> now \<le> now' \<Longrightarrow> limit_rel now' ip ts s"
  by (auto simp: limit_rel_def split: option.splits)

lemma burst_Cons: "ts \<noteq> [] \<Longrightarrow> burst win (t # ts) = (if t - hd ts > win then 1 else burst win ts + 1)"
  by (cases ts) simp_all

lemma limit_step:
  assumes "limit_rel now ip ts s" "now \<le> t"
  shows "limit_rel t ip (if TrimSpace a = ip then t # ts else ts) (RecordAuthFailure t a s)"
proof -
  let ?fs = "if Mapping.size (au_authFailures s) > 10000
             then Mapping.filter (\<lambda>ip r. \<not> t - af_LastFailure r > limit_window s) (au_authFailures s)
             else au_authFailures s"
  have "limit_rel t ip ts s" by (rule limit_rel_mono [OF assms])
  then have r: "limit_rel t ip ts (s\<lparr>au_authFailures := ?fs\<rparr>)"
    by (auto simp: limit_rel_def lookup_filter split: option.splits)
  then show ?thesis
    by (cases "ts = []")
      (auto simp: limit_rel_def RecordAuthFailure_def Let_def burst_Cons lookup_update' split: option.splits if_splits)
qed

lemma limit_clear:
  "limit_rel now ip ts s \<Longrightarrow> limit_rel now ip (if a = ip then [] else ts) (ClearAuthFailure a s)"
  by (cases "a = ip") (auto simp: limit_rel_def ClearAuthFailure_def lookup_delete lookup_delete_neq split: option.splits)

lemma limit_const [simp]:
  "au_rateLimitSeconds (RecordAuthFailure t a s) = au_rateLimitSeconds s"
  "au_maxAuthFailures (RecordAuthFailure t a s) = au_maxAuthFailures s"
  "au_rateLimitSeconds (ClearAuthFailure a s) = au_rateLimitSeconds s"
  "au_maxAuthFailures (ClearAuthFailure a s) = au_maxAuthFailures s"
  by (simp_all add: RecordAuthFailure_def ClearAuthFailure_def Let_def)

lemma limit_trace:
  assumes "limit_rel t0 ip ts s" "sorted (t0 # event_times evs @ [now])"
  shows "limit_rel now ip (since_clear ip evs ts) (fold event_step evs s) \<and>
    limit_window (fold event_step evs s) = limit_window s \<and>
    au_maxAuthFailures (fold event_step evs s) = au_maxAuthFailures s"
  using assms
proof (induction evs arbitrary: t0 ts s)
  case Nil
  then show ?case using limit_rel_mono by auto
next
  case (Cons ev evs)
  show ?case
  proof (cases ev)
    case (Failure t a)
    then have "t0 \<le> t" and srt: "sorted (t # event_times evs @ [now])" using Cons.prems(2) by auto
    show ?thesis
      using Cons.IH [OF limit_step [OF Cons.prems(1) \<open>t0 \<le> t\<close>] srt, of a] Failure by simp
  next
    case (Cleared a)
    then have srt: "sorted (t0 # event_times evs @ [now])" using Cons.prems(2) by simp
    show ?thesis
      using Cons.IH [OF limit_clear [OF Cons.prems(1)] srt, of a] Cleared by simp
  qed
qed

lemma limit_rel_decides:
  "limit_rel now ip ts s \<Longrightarrow> IsRateLimited now ip s = limited (limit_window s) (au_maxAuthFailures s) now ts"
  by (cases ts) (auto simp: limit_rel_def IsRateLimited_def limited_def split: option.splits)

text \<open>C29: the limiter of failed attempts is exact.  Whatever failures and successful logins
  happen, from whatever addresses and with whatever purges of the table in between, an address is
  limited at a later time precisely when its last failure is at most 300 seconds old and ends a
  burst of at least ten failures since it was last cleared, no two successive ones more than 300
  seconds apart.\<close>

theorem rate_limit_exact:
  assumes "sorted (event_times evs @ [now])"
  shows "IsRateLimited now ip (fold event_step evs NewAuthService) =
    limited 300000000000 10 now (since_clear ip evs [])"
proof -
  let ?t0 = "hd (event_times evs @ [now])"
  have srt: "sorted (?t0 # event_times evs @ [now])"
    using assms by (cases "event_times evs") auto
  have "limit_rel ?t0 ip [] (NewAuthService :: 'a AuthService)"
    by (simp add: limit_rel_def NewAuthService_def)
  from limit_trace [OF this srt] show ?thesis
    by (subst limit_rel_decides) (simp_all add: NewAuthService_def)
qed

theorem rate_limit_exact_witness:
  "IsRateLimited 60 ''h'' (fold event_step (map (\<lambda>i. Failure i '' h'') [0..9]) (NewAuthService :: unit AuthService)) \<and>
   \<not> IsRateLimited 300000000010 ''h'' (fold event_step (map (\<lambda>i. Failure i ''h '') [0..9]) (NewAuthService :: unit AuthService))"
proof -
  have lim: "limited 300000000000 10 60 (since_clear ''h'' (map (\<lambda>i. Failure i '' h'') [0..9]) [])" by code_simp
  have old: "\<not> limited 300000000000 10 300000000010 (since_clear ''h'' (map (\<lambda>i. Failure i ''h '') [0..9]) [])" by code_simp
  have s: "sorted (event_times (map (\<lambda>i. Failure i '' h'') [0..9]) @ [60])"
    "sorted (event_times (map (\<lambda>i. Failure i ''h '') [0..9]) @ [300000000010])" by code_simp+
  show ?thesis using rate_limit_exact [OF s(1), of "''h''"] rate_limit_exact [OF s(2), of "''h''"] lim old by simp
qed

section \<open>Who may do what\<close>

lemma key_role_admin:
  "key_role ps = ''admin'' \<longleftrightarrow> (\<exists>p \<in> set (Split (CHR '','') ps). TrimSpace p = ''admin'') \<or> ps = ''admin''"
proof (cases "ps = []")
  case True
  then show ?thesis by (simp add: key_role_def) code_simp
next
  case False
  then show ?thesis by (auto simp: key_role_def list_ex_iff)
qed

lemma user_match_Some:
  assumes "user_match h order users = Some u"
  shows "u_Enabled u \<and> u_ApiKeyHash u = h \<and> u \<in> ran users"
proof -
  let ?us = "List.map_filter users order"
  from assms obtain i where "i < length ?us" "u = ?us ! i" "u_Enabled u" "u_ApiKeyHash u = h"
    by (auto simp: user_match_def find_Some_iff)
  moreover have "set ?us \<subseteq> ran users" by (auto simp: map_filter_def ran_def)
  ultimately show ?thesis using nth_mem by blast
qed

lemma lookup_key_row:
  assumes "au_apiKeyLookupFn s = Some (Key_GetByKeyHash now)" and "lookup_key h s d = (Some k, d')"
  shows "\<exists>r \<in> set (t_keys d). kr_KeyHash r = h \<and> kr_IsActive r \<and> k = ApiKey_of_row r \<and>
    (case kr_ExpiresAt r of None \<Rightarrow> True | Some t \<Rightarrow> t = [] \<or> now \<le> t)"
proof (rule GetByKeyHash_row)
  show "Key_GetByKeyHash now h d = (Inr (Some k), d')"
    using assms by (auto simp: lookup_key_def split: prod.splits sum.splits option.splits if_splits)
qed

text \<open>The credentials that make the bearer an administrator, as the service sees them.\<close>

definition admin_token :: "jwt_lib \<Rightarrow> gotime \<Rightarrow> string \<Rightarrow> 'd AuthService \<Rightarrow> bool" where
  "admin_token lib now key s \<longleftrightarrow> (\<exists>js c. au_jwtService s = Some js \<and> ValidateToken lib now key js = Inr c \<and>
     (jc_TokenType c = [] \<or> jc_TokenType c = ''access'') \<and> jc_Role c = ''admin'')"

definition admin_row :: "string \<Rightarrow> string \<Rightarrow> api_key_row \<Rightarrow> bool" where
  "admin_row now h r \<longleftrightarrow> kr_KeyHash r = h \<and> kr_IsActive r \<and>
     (case kr_ExpiresAt r of None \<Rightarrow> True | Some t \<Rightarrow> t = [] \<or> now \<le> t) \<and>
     (\<exists>p \<in> set (kr_Permissions r # Split (CHR '','') (kr_Permissions r)). TrimSpace p = ''admin'')"

lemma TrimSpace_admin: "TrimSpace ''admin'' = ''admin''"
  by code_simp

lemma lookup_key_admin:
  assumes "au_apiKeyLookupFn s = Some (Key_GetByKeyHash now)" and "lookup_key h s d = (Some k, d')"
    and "key_role (ak_Permissions k) = ''admin''"
  shows "\<exists>r \<in> set (t_keys d). admin_row now h r"
proof -
  from lookup_key_row [OF assms(1,2)] obtain r where r: "r \<in> set (t_keys d)" "kr_KeyHash r = h" "kr_IsActive r" "k = ApiKey_of_row r"
      "case kr_ExpiresAt r of None \<Rightarrow> True | Some t \<Rightarrow> t = [] \<or> now \<le> t" by blast
  moreover have "\<exists>p \<in> set (kr_Permissions r # Split (CHR '','') (kr_Permissions r)). TrimSpace p = ''admin''"
    using assms(3) r(4) TrimSpace_admin by (auto simp: key_role_admin ApiKey_of_row_def)
  ultimately show ?thesis unfolding admin_row_def by blast
qed

definition admin_credentials :: "jwt_lib \<Rightarrow> gotime \<Rightarrow> string \<Rightarrow> (string \<Rightarrow> string) \<Rightarrow> string \<Rightarrow> 'd AuthService \<Rightarrow> db \<Rightarrow> bool" where
  "admin_credentials lib now nowt hash key s d \<longleftrightarrow> key \<noteq> [] \<and>
     (admin_token lib now key s \<or> (au_defaultApiKeyHash s \<noteq> [] \<and> hash key = au_defaultApiKeyHash s) \<or>
      (\<exists>u \<in> ran (au_users s). u_Enabled u \<and> u_ApiKeyHash u = hash key \<and> u_Role u = ''admin'') \<or>
      (\<exists>r \<in> set (t_keys d). admin_row nowt (hash key) r))"

lemma jwt_user_admin: "jwt_user lib now key s = Some u \<Longrightarrow> u_Role u = ''admin'' \<Longrightarrow> admin_token lib now key s"
  by (auto simp: jwt_user_def admin_token_def split: option.splits sum.splits if_splits)

lemma admin_user_credentials:
  assumes u: "GetUserByApiKey lib now hash order key s d = (Some u, d1)" "u_Role u = ''admin''"
    and wired: "au_apiKeyLookupFn s = Some (Key_GetByKeyHash nowt)"
  shows "admin_credentials lib now nowt hash key s d"
proof -
  from u(1) have key: "key \<noteq> []" and en: "au_authEnabled s" by (auto simp: GetUserByApiKey_def split: if_splits)
  consider v where "jwt_user lib now key s = Some v"
    | "jwt_user lib now key s = None" "au_defaultApiKeyHash s \<noteq> [] \<and> hash key = au_defaultApiKeyHash s"
    | v where "jwt_user lib now key s = None" "\<not> (au_defaultApiKeyHash s \<noteq> [] \<and> hash key = au_defaultApiKeyHash s)"
        "user_match (hash key) order (au_users s) = Some v"
    | "jwt_user lib now key s = None" "\<not> (au_defaultApiKeyHash s \<noteq> [] \<and> hash key = au_defaultApiKeyHash s)"
        "user_match (hash key) order (au_users s) = None"
    by (cases "jwt_user lib now key s"; cases "user_match (hash key) order (au_users s)") blast+
  then show ?thesis
  proof cases
    case 1
    with u(1) key en have "v = u" by (simp add: GetUserByApiKey_def)
    with jwt_user_admin [OF 1] u(2) key show ?thesis by (simp add: admin_credentials_def)
  next
    case 2
    with key show ?thesis by (simp add: admin_credentials_def)
  next
    case 3
    with u(1) key en have "v = u" by (auto simp: GetUserByApiKey_def Let_def)
    with user_match_Some [OF 3(3)] u(2) key show ?thesis unfolding admin_credentials_def by blast
  next
    case 4
    with u(1) key en obtain k where k: "lookup_key (hash key) s d = (Some k, d1)" "u_Role u = key_role (ak_Permissions k)"
      by (auto simp: GetUserByApiKey_def Let_def split: prod.splits option.splits if_splits)
    from lookup_key_admin [OF wired k(1)] k(2) u(2) key show ?thesis by (simp add: admin_credentials_def)
  qed
qed

text \<open>Nobody becomes an administrator by accident.  With authentication enabled and the
  database wired in as the server does it, a credential that may act on anything but files is not
  empty and is a valid access token issued for the role \<open>admin\<close>, the configured key, the
  key of an enabled user with that role, or a key whose row in the database is active, not
  expired, and lists exactly \<open>admin\<close> among its comma-separated permissions.\<close>

theorem admin_needs_credentials:
  assumes "HasPermission lib now hash order key resource action (SetApiKeyLookup (Key_GetByKeyHash nowt) s) d = (True, d')"
    and "au_authEnabled s" and "resource \<noteq> ''files''"
  shows "key \<noteq> [] \<and> (admin_token lib now key s \<or> (au_defaultApiKeyHash s \<noteq> [] \<and> hash key = au_defaultApiKeyHash s) \<or>
    (\<exists>u \<in> ran (au_users s). u_Enabled u \<and> u_ApiKeyHash u = hash key \<and> u_Role u = ''admin'') \<or>
    (\<exists>r \<in> set (t_keys d). admin_row nowt (hash key) r))"
proof -
  let ?s = "SetApiKeyLookup (Key_GetByKeyHash nowt) s"
  obtain u d1 where u: "GetUserByApiKey lib now hash order key ?s d = (Some u, d1)" "u_Role u = ''admin''"
    using assms by (auto simp: HasPermission_def SetApiKeyLookup_def split: prod.splits option.splits if_splits)
  have "au_apiKeyLookupFn ?s = Some (Key_GetByKeyHash nowt)" by (simp add: SetApiKeyLookup_def)
  from admin_user_credentials [OF u this] show ?thesis
    by (simp add: admin_credentials_def admin_token_def SetApiKeyLookup_def)
qed

theorem admin_needs_credentials_witness:
  "\<exists>r \<in> set [(sample_key ''7'')\<lparr>kr_Permissions := ''read, admin''\<rparr>]. admin_row ''2025-01-01T00:00:00Z'' ''hash'' r"
proof -
  let ?s = "Auth_Init (\<lambda>_. ''other'') True ''secret'' (NewAuthService :: db AuthService)"
  let ?d = "empty_db\<lparr>t_keys := [(sample_key ''7'')\<lparr>kr_Permissions := ''read, admin''\<rparr>]\<rparr>"
  let ?r = "HasPermission sample_jwt_lib 0 (\<lambda>_. ''hash'') [] ''key'' ''admin'' ''write''
    (SetApiKeyLookup (Key_GetByKeyHash ''2025-01-01T00:00:00Z'') ?s) ?d"
  have "fst ?r" by code_simp
  then have r: "?r = (True, snd ?r)" by (simp add: prod_eq_iff)
  have other: "\<not> admin_token sample_jwt_lib 0 ''key'' ?s" "au_users ?s = Map.empty" "au_defaultApiKeyHash ?s = ''other''" "au_authEnabled ?s"
    by (auto simp: admin_token_def Auth_Init_def NewAuthService_def ValidateToken_def NewJWTService_def sample_jwt_lib_def table_lib_def)
  have "t_keys ?d = [(sample_key ''7'')\<lparr>kr_Permissions := ''read, admin''\<rparr>]" by simp
  with admin_needs_credentials [OF r other(4)] other(1,2,3) show ?thesis by simp
qed

text \<open>The two ways of checking a credential agree, access tokens apart, which only
  \<open>GetUserByApiKey\<close> understands.\<close>

lemma validate_iff_user:
  assumes "au_authEnabled s" and "jwt_user lib now key s = None"
  shows "fst (ValidateApiKey hash order key s d) \<longleftrightarrow> fst (GetUserByApiKey lib now hash order key s d) \<noteq> None"
  using assms by (auto simp: ValidateApiKey_def GetUserByApiKey_def Let_def split: option.splits prod.splits)

lemma get_user_enabled:
  assumes "fst (GetUserByApiKey lib now hash order key s d) = Some u"
  shows "u_Enabled u"
  using assms user_match_Some
  by (auto simp: GetUserByApiKey_def jwt_user_def Let_def split: option.splits prod.splits if_splits sum.splits)

end
