(* ===== verification/File_Listing.thy ===== *)
theory File_Listing
  imports Metadata "HOL-Library.Multiset"
begin

text \<open>
  \<open>src/internal/service/filelist/service.go\<close>: the listing of files and directories with
  pages.  What SQL leaves open is an argument: \<open>fl_tie\<close> is the order in which the engine
  meets rows with equal sort keys, \<open>fl_cut\<close> the row at which the connection breaks while the
  rows are read (the code does not look at \<open>rows.Err()\<close>), and \<open>fl_alias\<close> tells
  whether the engine accepts a subquery without an alias after \<open>FROM\<close>, which PostgreSQL does
  only since its version 16.
\<close>

section \<open>Definitions\<close>

record FileListItem =
  fi_ID :: string
  fi_Path :: string
  fi_Name :: string
  fi_Size :: int
  fi_Type :: string
  fi_CreatedAt :: string

record FileListResult =
  fr_Total :: int
  fr_Page :: int
  fr_PageSize :: int
  fr_HasMore :: bool
  fr_Items :: "FileListItem list"

record fl_env =
  fl_tie :: "FileListItem list \<Rightarrow> FileListItem list"
  fl_cut :: "nat option"
  fl_alias :: bool

definition where_clause :: "Dialect \<Rightarrow> string \<Rightarrow> bool \<Rightarrow> string \<Rightarrow> bool" where
  "where_clause dl path recursive p =
     (if path = [] then
        (if recursive then True else \<not> like dl ''%/%'' p)
      else
        let escapedPrefix = escapeLikePattern (path @ ''/'')
        in if recursive then like dl (escapedPrefix @ ''%'') p
           else like dl (escapedPrefix @ ''%'') p \<and> \<not> like dl (escapedPrefix @ ''%/%'') p)"

definition file_item :: "FileMetadata \<Rightarrow> FileListItem" where
  "file_item r = \<lparr>fi_ID = fm_ID r, fi_Path = fm_Path r, fi_Name = fm_Name r, fi_Size = fm_Size r,
     fi_Type = ''file'', fi_CreatedAt = fm_CreatedAt r\<rparr>"

definition dir_item :: "DirectoryMetadata \<Rightarrow> FileListItem" where
  "dir_item r = \<lparr>fi_ID = dm_ID r, fi_Path = dm_Path r, fi_Name = dm_Name r, fi_Size = 0,
     fi_Type = ''directory'', fi_CreatedAt = dm_CreatedAt r\<rparr>"

definition union_items :: "string \<Rightarrow> bool \<Rightarrow> db \<Rightarrow> FileListItem list" where
  "union_items path recursive d =
     map file_item (filter (\<lambda>r. \<not> fm_IsDeleted r \<and> where_clause (db_dialect d) path recursive (fm_Path r)) (t_files d)) @
     map dir_item (filter (\<lambda>r. \<not> dm_IsDeleted r \<and> where_clause (db_dialect d) path recursive (dm_Path r)) (t_dirs d))"

definition order_items :: "string \<Rightarrow> bool \<Rightarrow> FileListItem list \<Rightarrow> FileListItem list" where
  "order_items col desc rs =
     (let s = (if col = ''path'' then sort_key fi_Path rs
               else if col = ''size'' then sort_key fi_Size rs
               else if col = ''created_at'' then sort_key fi_CreatedAt rs
               else if col = ''type'' then sort_key fi_Type rs
               else sort_key fi_Name rs)
      in if desc then rev s else s)"

definition list_dir :: "string \<Rightarrow> string" where
  "list_dir path0 = (let path = NormalizePath path0 in if path = ''.'' then [] else path)"

definition sort_column :: "string \<Rightarrow> string" where
  "sort_column sortBy = (if sortBy \<in> set [''name'', ''path'', ''size'', ''created_at'', ''type''] then sortBy else ''name'')"

definition items_query :: "fl_env \<Rightarrow> string \<Rightarrow> bool \<Rightarrow> string \<Rightarrow> string \<Rightarrow> db \<Rightarrow> FileListItem list" where
  "items_query env path recursive sortBy sortOrder d =
     order_items (sort_column sortBy) (EqualFold_desc sortOrder) (fl_tie env (union_items path recursive d))"

definition count_items :: "fl_env \<Rightarrow> string \<Rightarrow> bool \<Rightarrow> db \<Rightarrow> int res \<times> db" where
  "count_items env path recursive d =
     (if db_dialect d = DialectPostgreSQL \<and> \<not> fl_alias env
      then (Inl (Wrapf ''failed to count items'' (Ext ''subquery in FROM must have an alias'')), d)
      else case db_QueryRow (\<lambda>d. [int (length (union_items path recursive d))]) d of
        (Inl e, d1) \<Rightarrow> (Inl (Wrapf ''failed to count items'' e), d1)
      | (Inr n, d1) \<Rightarrow> (Inr n, d1))"

definition listFiles ::
  "fl_env \<Rightarrow> string \<Rightarrow> bool \<Rightarrow> int \<Rightarrow> int \<Rightarrow> string \<Rightarrow> string \<Rightarrow> bool \<Rightarrow> db \<Rightarrow> FileListResult res \<times> db"
where
  "listFiles env path0 recursive page0 pageSize0 sortBy sortOrder includeTotal d =
     (let path = list_dir path0;
          page = (if page0 < 1 then 1 else page0);
          pageSize = (if pageSize0 < 1 then 20 else pageSize0);
          fetchLimit = wrap64 (pageSize + 1);
          offset = wrap64 (wrap64 (page - 1) * pageSize)
      in case db_Query (\<lambda>d. limit_offset (db_dialect d) fetchLimit offset (items_query env path recursive sortBy sortOrder d)) d of
           (Inl e, d1) \<Rightarrow> (Inl (Wrapf ''failed to list items'' e), d1)
         | (Inr rows, d1) \<Rightarrow>
             (let fetched = (case fl_cut env of None \<Rightarrow> rows | Some n \<Rightarrow> take n rows);
                  hasMore = (int (length fetched) > pageSize);
                  items = (if hasMore then take (nat pageSize) fetched else fetched);
                  result = (\<lambda>n. \<lparr>fr_Total = n, fr_Page = page, fr_PageSize = pageSize, fr_HasMore = hasMore, fr_Items = items\<rparr>)
              in if includeTotal then
                   (case count_items env path recursive d1 of
                      (Inl e, d2) \<Rightarrow> (Inl e, d2)
                    | (Inr n, d2) \<Rightarrow> (Inr (result n), d2))
                 else (Inr (result (- 1)), d1)))"

definition ListFiles ::
  "fl_env \<Rightarrow> string \<Rightarrow> bool \<Rightarrow> int \<Rightarrow> int \<Rightarrow> string \<Rightarrow> string \<Rightarrow> db \<Rightarrow> FileListResult res \<times> db"
where
  "ListFiles env path recursive page pageSize sortBy sortOrder d = listFiles env path recursive page pageSize sortBy sortOrder False d"

definition ListFilesWithTotal ::
  "fl_env \<Rightarrow> string \<Rightarrow> bool \<Rightarrow> int \<Rightarrow> int \<Rightarrow> string \<Rightarrow> string \<Rightarrow> db \<Rightarrow> FileListResult res \<times> db"
where
  "ListFilesWithTotal env path recursive page pageSize sortBy sortOrder d = listFiles env path recursive page pageSize sortBy sortOrder True d"

section \<open>The filter against its meaning\<close>

text \<open>The paths below a directory, and those directly in it.\<close>

definition in_dir :: "bool \<Rightarrow> string \<Rightarrow> string \<Rightarrow> bool" where
  "in_dir recursive dir p \<longleftrightarrow>
     (if dir = [] then recursive \<or> slash \<notin> set p
      else HasPrefix p (dir @ ''/'') \<and> (recursive \<or> slash \<notin> set (drop (length dir + 1) p)))"

lemma like_slash: "like DialectPostgreSQL ''%/%'' s \<longleftrightarrow> slash \<in> set s"
proof (induction s)
  case (Cons c s)
  have "like DialectPostgreSQL ''%/%'' (c # s) \<longleftrightarrow> slash = c \<or> like DialectPostgreSQL ''%/%'' s"
    by (simp add: like.simps(2) [of _ slash] like.simps(2) [of _ "CHR ''%''" "''/%''"] del: like.simps)
  then show ?case using Cons by auto
qed simp

lemma where_clause_in_dir: "where_clause DialectPostgreSQL path recursive p = in_dir recursive path p"
proof (cases "path = []")
  case True
  then show ?thesis unfolding where_clause_def in_dir_def like_slash by simp
next
  case False
  let ?e = "escapeLikePattern (path @ ''/'')"
  have "like_char DialectPostgreSQL = (=)" by (simp add: fun_eq_iff)
  then have "like DialectPostgreSQL (?e @ ''%/%'') p \<longleftrightarrow> (\<exists>v. p = (path @ ''/'') @ v \<and> slash \<in> set v)"
    unfolding like_escape like_slash by (auto simp: list.rel_eq)
  with False show ?thesis
    unfolding where_clause_def in_dir_def like_pg Let_def by (auto simp: HasPrefix_iff)
qed

section \<open>Pages\<close>

lemma order_items_mset [simp]: "mset (order_items col desc rs) = mset rs"
  by (simp add: order_items_def Let_def)

lemma listing_entries:
  assumes "db_dialect d = DialectPostgreSQL" and "mset (fl_tie env (union_items path recursive d)) = mset (union_items path recursive d)"
  shows "mset (items_query env path recursive sortBy sortOrder d) =
    image_mset file_item (mset (filter (\<lambda>r. \<not> fm_IsDeleted r \<and> in_dir recursive path (fm_Path r)) (t_files d))) +
    image_mset dir_item (mset (filter (\<lambda>r. \<not> dm_IsDeleted r \<and> in_dir recursive path (dm_Path r)) (t_dirs d)))"
  using assms by (simp add: items_query_def union_items_def where_clause_in_dir)

text \<open>One page of a listing that is \<open>xs\<close> as a whole.\<close>

definition page_of :: "nat \<Rightarrow> nat \<Rightarrow> 'a list \<Rightarrow> 'a list" where
  "page_of page sz xs = take sz (drop ((page - 1) * sz) xs)"

lemma pages_concat: "concat (map (\<lambda>i. page_of i sz xs) [1..<Suc k]) = take (k * sz) xs"
proof (induction k)
  case (Suc k)
  have "concat (map (\<lambda>i. page_of i sz xs) [1..<Suc (Suc k)]) =
      concat (map (\<lambda>i. page_of i sz xs) [1..<Suc k]) @ page_of (Suc k) sz xs"
    by (subst upt_Suc_append) simp_all
  also have "\<dots> = take (k * sz + sz) xs" unfolding Suc.IH take_add by (simp add: page_of_def)
  finally show ?case by (simp add: add.commute)
qed simp

lemma ListFiles_page:
  assumes "db_faults d = []" and "fl_cut env = None" and "1 \<le> page" and "1 \<le> pageSize"
    and "page * pageSize < 9223372036854775807"
  shows "ListFiles env path recursive page pageSize sortBy sortOrder d =
    (Inr \<lparr>fr_Total = - 1, fr_Page = page, fr_PageSize = pageSize,
          fr_HasMore = (page * pageSize < int (length (items_query env (list_dir path) recursive sortBy sortOrder d))),
          fr_Items = page_of (nat page) (nat pageSize) (items_query env (list_dir path) recursive sortBy sortOrder d)\<rparr>, d)"
proof -
  let ?L = "items_query env (list_dir path) recursive sortBy sortOrder d"
  have "page * 1 \<le> page * pageSize" "1 * pageSize \<le> page * pageSize"
    using assms(3,4) by (auto intro!: mult_left_mono mult_right_mono simp del: mult_1_right mult_1_left)
  then have le: "pageSize \<le> page * pageSize" "(page - 1) * pageSize \<le> page * pageSize" "page - 1 \<le> page * pageSize"
    using assms(3,4) unfolding left_diff_distrib by linarith+
  have nonneg: "0 \<le> (page - 1) * pageSize" using assms(3,4) by simp
  have p: "wrap64 (page - 1) = page - 1" by (rule wrap64_nonneg_id) (use le assms(3-5) in linarith)+
  have "wrap64 (pageSize + 1) = pageSize + 1" by (rule wrap64_nonneg_id) (use le assms(4,5) in linarith)+
  moreover have "wrap64 ((page - 1) * pageSize) = (page - 1) * pageSize"
    by (rule wrap64_nonneg_id [OF nonneg]) (use le assms(5) in linarith)
  ultimately have w: "wrap64 (pageSize + 1) = pageSize + 1" "wrap64 (wrap64 (page - 1) * pageSize) = (page - 1) * pageSize"
    unfolding p by blast+
  have n: "nat (pageSize + 1) = Suc (nat pageSize)" "nat ((page - 1) * pageSize) = (nat page - 1) * nat pageSize"
    using assms(3,4) by (simp_all add: nat_mult_distrib nat_diff_distrib)
  let ?rows = "take (Suc (nat pageSize)) (drop ((nat page - 1) * nat pageSize) ?L)"
  have q: "db_Query (\<lambda>d. limit_offset (db_dialect d) (pageSize + 1) ((page - 1) * pageSize)
      (items_query env (list_dir path) recursive sortBy sortOrder d)) d = (Inr ?rows, d)"
    using assms(1,4) nonneg by (simp add: db_Query_def pop_fault_def limit_offset_def n not_less split: Dialect.split)
  obtain p z where pz: "page = int (Suc p)" "pageSize = int z"
    using assms(3,4) by (metis add.commute nonneg_int_cases int_ops(4) zle_iff_zadd le_trans zero_le_one)
  have more: "(pageSize < int (length ?rows)) = (page * pageSize < int (length ?L))"
    unfolding pz int_ops(7) [symmetric] of_nat_less_iff nat_int by (auto simp: min_def)
  have items: "(if page * pageSize < int (length ?L) then take (nat pageSize) ?rows else ?rows) =
      page_of (nat page) (nat pageSize) ?L"
    using more unfolding pz page_of_def nat_int of_nat_less_iff by (auto simp: min_def split: if_splits)
  have c: "(if page < 1 then 1 else page) = page" "(if pageSize < 1 then 20 else pageSize) = pageSize" using assms(3,4) by simp_all
  show ?thesis
    unfolding ListFiles_def listFiles_def Let_def c w q prod.case sum.case assms(2) option.case more items if_False ..
qed

section \<open>Properties\<close>

definition page_result :: "FileListResult res \<times> db \<Rightarrow> FileListItem list" where
  "page_result x = (case fst x of Inr r \<Rightarrow> fr_Items r | Inl _ \<Rightarrow> [])"


definition sample_listed :: "string \<Rightarrow> string \<Rightarrow> FileMetadata" where
  "sample_listed p n = \<lparr>fm_ID = p, fm_Path = p, fm_Name = n, fm_Size = 1, fm_Hash = [], fm_StorageType = ''local'',
     fm_StorageLocation = p, fm_CreatedAt = [], fm_UpdatedAt = [], fm_IsDeleted = False\<rparr>"

definition sample_listing :: db where
  "sample_listing = empty_db\<lparr>db_dialect := DialectPostgreSQL,
     t_files := [sample_listed ''d/b'' ''b'', sample_listed ''d/a'' ''a'', sample_listed ''e/x'' ''x'', sample_listed ''d/s/y'' ''y''],
     t_dirs := [\<lparr>dm_ID = ''1'', dm_Path = ''d/s'', dm_Name = ''s'', dm_CreatedAt = [], dm_UpdatedAt = [], dm_IsDeleted = False\<rparr>]\<rparr>"

definition sample_fl_env :: fl_env where
  "sample_fl_env = \<lparr>fl_tie = id, fl_cut = None, fl_alias = True\<rparr>"


text \<open>What the listing does not promise.  When two entries have the same key and the engine orders
  them differently from one query to the next, an entry is on two pages and another on none.\<close>

lemma listing_ties:
  "let d = sample_listing\<lparr>t_files := [sample_listed ''d/u'' ''n'', sample_listed ''d/v'' ''n'']\<rparr>
   in map fi_Path (page_result (ListFiles sample_fl_env ''d'' False 1 1 ''name'' ''asc'' d)) = [''d/u''] \<and>
      map fi_Path (page_result (ListFiles (sample_fl_env\<lparr>fl_tie := rev\<rparr>) ''d'' False 2 1 ''name'' ''asc'' d)) = [''d/u'']"
  by code_simp

text \<open>A connection that breaks while the rows are read is reported as the end of the list.\<close>

lemma listing_broken_connection:
  assumes "db_faults d = []" and "fl_cut env = Some 0" and "db_dialect d = DialectSQLite"
  shows "ListFiles env path recursive 1 20 sortBy sortOrder d =
    (Inr \<lparr>fr_Total = - 1, fr_Page = 1, fr_PageSize = 20, fr_HasMore = False, fr_Items = []\<rparr>, d)"
  using assms by (simp add: ListFiles_def listFiles_def Let_def db_Query_def pop_fault_def limit_offset_def wrap64_def)

text \<open>The total is never available from an engine that wants an alias for the subquery.\<close>

lemma total_needs_alias:
  assumes "db_dialect d = DialectPostgreSQL" and "\<not> fl_alias env"
  shows "\<exists>e d'. ListFilesWithTotal env path recursive page pageSize sortBy sortOrder d = (Inl e, d')"
proof -
  obtain r d1 where q: "db_Query (\<lambda>d. limit_offset (db_dialect d) (wrap64 ((if pageSize < 1 then 20 else pageSize) + 1))
      (wrap64 (wrap64 ((if page < 1 then 1 else page) - 1) * (if pageSize < 1 then 20 else pageSize)))
      (items_query env (list_dir path) recursive sortBy sortOrder d)) d = (r, d1)" by fastforce
  have dl: "db_dialect d1 = DialectPostgreSQL" using db_Query_same [OF q] assms(1) by (simp add: same_tables_def)
  show ?thesis
    unfolding ListFilesWithTotal_def listFiles_def Let_def q prod.case
    by (cases r) (simp_all add: count_items_def dl assms(2))
qed

end
