(* ===== verification/Consistency.thy ===== *)
theory Consistency
  imports Prelude "HOL-Library.AList_Mapping"
begin

text \<open>
  \<open>src/internal/consistency/consistency.go\<close>: the version counter, the replicas and the
  quorums.  The source does not talk to replicas: it notes the version it would have sent.  The
  goroutine of \<open>asyncReplicate\<close> is the step \<open>asyncReplicate\<close>, to be run at any later time.
  \<open>zero_time\<close> is Go's zero \<open>time.Time\<close>, and \<open>Since\<close> saturates as
  \<open>time.Since\<close> does.
\<close>

section \<open>Definitions\<close>

datatype ConsistencyLevel = LevelNone | LevelEventual | LevelStrong

record ReplicaStatus =
  rs_ID :: string
  rs_Address :: string
  rs_LastSync :: gotime
  rs_Version :: int
  rs_Available :: bool

record ConsistencyManager =
  cm_level :: ConsistencyLevel
  cm_replicaCount :: int
  cm_readQuorum :: int
  cm_writeQuorum :: int
  cm_syncInterval :: int
  cm_localVersion :: int
  cm_replicaStatus :: "(string, ReplicaStatus) mapping"

record SyncRequest =
  sr_Operation :: string
  sr_Key :: string
  sr_Value :: bytes
  sr_Version :: int
  sr_Timestamp :: gotime

record SyncResponse =
  sp_Success :: bool
  sp_Version :: int

definition zero_time :: gotime where "zero_time = 0"

definition Since :: "gotime \<Rightarrow> gotime \<Rightarrow> int" where
  "Since now t = min max_int64 (max min_int64 (now - t))"

text \<open>\<open>syncLoop\<close> replaces an interval of zero when it starts, that is, at every level but
  the lowest.\<close>

definition NewConsistencyManager :: "string \<Rightarrow> int \<Rightarrow> int \<Rightarrow> int \<Rightarrow> int \<Rightarrow> ConsistencyManager" where
  "NewConsistencyManager level replicaCount readQuorum writeQuorum syncIntervalMs =
     (let lvl = (if level = ''strong'' then LevelStrong else if level = ''eventual'' then LevelEventual else LevelNone);
          interval = wrap64 (syncIntervalMs * 1000000)
      in \<lparr>cm_level = lvl, cm_replicaCount = replicaCount, cm_readQuorum = readQuorum, cm_writeQuorum = writeQuorum,
          cm_syncInterval = (if lvl \<noteq> LevelNone \<and> interval = 0 then 5000000000 else interval),
          cm_localVersion = 0, cm_replicaStatus = Mapping.empty\<rparr>)"

definition IncrementVersion :: "ConsistencyManager \<Rightarrow> int \<times> ConsistencyManager" where
  "IncrementVersion cm = (let v = wrap64 (cm_localVersion cm + 1) in (v, cm\<lparr>cm_localVersion := v\<rparr>))"

definition GetVersion :: "ConsistencyManager \<Rightarrow> int" where
  "GetVersion cm = cm_localVersion cm"

definition countAvailableReplicas :: "ConsistencyManager \<Rightarrow> int" where
  "countAvailableReplicas cm = int (Mapping.size (Mapping.filter (\<lambda>_ r. rs_Available r) (cm_replicaStatus cm)))"

definition BeforeWrite :: "ConsistencyManager \<Rightarrow> bool" where
  "BeforeWrite cm =
     (case cm_level cm of
        LevelStrong \<Rightarrow> countAvailableReplicas cm + 1 \<ge> cm_writeQuorum cm
      | LevelEventual \<Rightarrow> True
      | LevelNone \<Rightarrow> True)"

definition BeforeRead :: "ConsistencyManager \<Rightarrow> bool" where
  "BeforeRead cm =
     (case cm_level cm of
        LevelStrong \<Rightarrow> countAvailableReplicas cm + 1 \<ge> cm_readQuorum cm
      | _ \<Rightarrow> True)"

definition mark_synced :: "gotime \<Rightarrow> int \<Rightarrow> ConsistencyManager \<Rightarrow> ConsistencyManager" where
  "mark_synced now version cm = cm\<lparr>cm_replicaStatus := Mapping.map_values
     (\<lambda>_ r. if rs_Available r then r\<lparr>rs_LastSync := now, rs_Version := version\<rparr> else r) (cm_replicaStatus cm)\<rparr>"

text \<open>The result tells whether the write quorum was reached; the source only logs it.\<close>

definition syncWrite :: "gotime \<Rightarrow> int \<Rightarrow> ConsistencyManager \<Rightarrow> bool \<times> ConsistencyManager" where
  "syncWrite now version cm =
     (let successCount = 1 + countAvailableReplicas cm
      in (\<not> successCount < cm_writeQuorum cm, mark_synced now version cm))"

definition asyncReplicate :: "gotime \<Rightarrow> int \<Rightarrow> ConsistencyManager \<Rightarrow> ConsistencyManager" where
  "asyncReplicate now version cm = mark_synced now version cm"

text \<open>At the eventual level the replication is left to a goroutine, which is returned.\<close>

definition AfterWrite :: "gotime \<Rightarrow> ConsistencyManager \<Rightarrow> int option \<times> ConsistencyManager" where
  "AfterWrite now cm =
     (case IncrementVersion cm of
        (version, cm1) \<Rightarrow>
          (case cm_level cm1 of
             LevelStrong \<Rightarrow> (None, snd (syncWrite now version cm1))
           | LevelEventual \<Rightarrow> (Some version, cm1)
           | LevelNone \<Rightarrow> (None, cm1)))"

definition RegisterReplica :: "string \<Rightarrow> string \<Rightarrow> ConsistencyManager \<Rightarrow> ConsistencyManager" where
  "RegisterReplica i address cm = cm\<lparr>cm_replicaStatus := Mapping.update i
     \<lparr>rs_ID = i, rs_Address = address, rs_LastSync = zero_time, rs_Version = 0, rs_Available = True\<rparr> (cm_replicaStatus cm)\<rparr>"

definition checkReplicaHealth :: "gotime \<Rightarrow> ConsistencyManager \<Rightarrow> ConsistencyManager" where
  "checkReplicaHealth now cm = cm\<lparr>cm_replicaStatus := Mapping.map_values
     (\<lambda>_ r. if Since now (rs_LastSync r) > wrap64 (cm_syncInterval cm * 3) \<and> rs_Available r then r\<lparr>rs_Available := False\<rparr> else r)
     (cm_replicaStatus cm)\<rparr>"

definition HandleSyncRequest :: "SyncRequest \<Rightarrow> ConsistencyManager \<Rightarrow> SyncResponse res \<times> ConsistencyManager" where
  "HandleSyncRequest req cm =
     (let cm1 = (if sr_Version req > cm_localVersion cm then cm\<lparr>cm_localVersion := sr_Version req\<rparr> else cm)
      in (Inr \<lparr>sp_Success = True, sp_Version = cm_localVersion cm1\<rparr>, cm1))"

definition sync_endpoint :: "SyncRequest \<Rightarrow> ConsistencyManager \<Rightarrow> SyncResponse \<times> ConsistencyManager" where
  "sync_endpoint req cm =
     (case HandleSyncRequest req cm of
        (Inl e, cm1) \<Rightarrow> (\<lparr>sp_Success = False, sp_Version = 0\<rparr>, cm1)
      | (Inr resp, cm1) \<Rightarrow> (resp, cm1))"

definition ValidateQuorum :: "int \<Rightarrow> int \<Rightarrow> int \<Rightarrow> unit res" where
  "ValidateQuorum replicaCount readQuorum writeQuorum =
     (if replicaCount > 0 then
        if readQuorum \<le> 0 \<or> readQuorum > wrap64 (replicaCount + 1) then Inl (Errorf ''read_quorum out of range'')
        else if writeQuorum \<le> 0 \<or> writeQuorum > wrap64 (replicaCount + 1) then Inl (Errorf ''write_quorum out of range'')
        else if wrap64 (readQuorum + writeQuorum) \<le> wrap64 (replicaCount + 1)
        then Inl (Errorf ''read_quorum + write_quorum must be > replica_count+1'')
        else Inr ()
      else Inr ())"
section \<open>Quorums\<close>

lemma quorums_meet:
  assumes "finite N" "R \<subseteq> N" "W \<subseteq> N" "card N < card R + card W"
  shows "R \<inter> W \<noteq> {}"
proof
  assume "R \<inter> W = {}"
  moreover have "finite R" "finite W" using assms(1-3) finite_subset by blast+
  ultimately have "card R + card W = card (R \<union> W)" by (simp add: card_Un_disjoint)
  also have "\<dots> \<le> card N" using assms(1-3) by (intro card_mono) auto
  finally show False using assms(4) by simp
qed

lemma ValidateQuorum_overlap:
  assumes "ValidateQuorum n r w = Inr ()" and "0 < n" and "in_int64 n" "in_int64 r" "in_int64 w"
  shows "n + 1 < r + w"
proof -
  have r: "0 < r" "r \<le> wrap64 (n + 1)" and w: "0 < w" "w \<le> wrap64 (n + 1)" and s: "wrap64 (n + 1) < wrap64 (r + w)"
    using assms(1,2) by (auto simp: ValidateQuorum_def split: if_splits)
  have n: "wrap64 (n + 1) = n + 1"
  proof (cases "n = 9223372036854775807")
    case True
    with r show ?thesis by (simp add: wrap64_def)
  next
    case False
    with assms(2,3) show ?thesis by (intro wrap64_nonneg_id) (auto simp: in_int64_def max_int64_def)
  qed
  have "wrap64 (r + w) \<le> r + w"
    using r(1) w(1) zmod_le_nonneg_dividend [of "r + w + 9223372036854775808" 18446744073709551616] by (simp add: wrap64_def)
  with s n show ?thesis by simp
qed

text \<open>The nodes are this server, \<open>None\<close>, and the registered replicas.\<close>

definition nodes :: "ConsistencyManager \<Rightarrow> string option set" where
  "nodes cm = insert None (Some ` Mapping.keys (cm_replicaStatus cm))"

definition node_version :: "string option \<Rightarrow> ConsistencyManager \<Rightarrow> int option" where
  "node_version x cm =
     (case x of None \<Rightarrow> Some (cm_localVersion cm) | Some i \<Rightarrow> map_option rs_Version (Mapping.lookup (cm_replicaStatus cm) i))"

definition available_nodes :: "ConsistencyManager \<Rightarrow> string option set" where
  "available_nodes cm = insert None (Some ` Mapping.keys (Mapping.filter (\<lambda>_ r. rs_Available r) (cm_replicaStatus cm)))"

lemma card_optional: "finite K \<Longrightarrow> card (insert None (Some ` K)) = Suc (card K)"
  by (subst card_insert_disjoint) (auto simp: card_image)

lemma available_nodes_sub: "available_nodes cm \<subseteq> nodes cm"
  unfolding available_nodes_def nodes_def using keys_filter by (intro insert_mono image_mono)

lemma card_available:
  assumes "finite (Mapping.keys (cm_replicaStatus cm))"
  shows "int (card (available_nodes cm)) = countAvailableReplicas cm + 1"
proof -
  have "finite (Mapping.keys (Mapping.filter (\<lambda>_ r. rs_Available r) (cm_replicaStatus cm)))"
    by (rule finite_subset [OF keys_filter assms])
  then have "card (available_nodes cm) = Suc (Mapping.size (Mapping.filter (\<lambda>_ r. rs_Available r) (cm_replicaStatus cm)))"
    unfolding available_nodes_def Mapping.size_def by (subst card_optional) simp_all
  then show ?thesis unfolding countAvailableReplicas_def by linarith
qed

lemma AfterWrite_strong:
  assumes "cm_level cm = LevelStrong" and "x \<in> available_nodes cm"
  shows "node_version x (snd (AfterWrite now cm)) = Some (cm_localVersion (snd (AfterWrite now cm)))"
proof (cases x)
  case None
  then show ?thesis by (simp add: node_version_def)
next
  case (Some i)
  with assms(2) obtain r where "Mapping.lookup (cm_replicaStatus cm) i = Some r" "rs_Available r"
    by (auto simp: available_nodes_def keys_is_none_rep lookup_filter split: option.splits if_splits)
  with assms(1) Some show ?thesis
    by (simp add: AfterWrite_def IncrementVersion_def Let_def syncWrite_def mark_synced_def node_version_def lookup_map_values)
qed

text \<open>
  Strong consistency.  Let the quorums pass \<open>ValidateQuorum\<close>, as the server demands at
  start, let no more replicas be registered than configured, and let \<open>BeforeWrite\<close> admit a
  write at the strong level.  After \<open>AfterWrite\<close> every set of \<open>readQuorum\<close> nodes, this
  server among them or not, has a node that carries the version of that write.
\<close>

theorem read_quorum_sees_write:
  assumes "ValidateQuorum (cm_replicaCount cm) (cm_readQuorum cm) (cm_writeQuorum cm) = Inr ()"
    and "0 < cm_replicaCount cm" and "in_int64 (cm_replicaCount cm)" "in_int64 (cm_readQuorum cm)" "in_int64 (cm_writeQuorum cm)"
    and "finite (Mapping.keys (cm_replicaStatus cm))" "int (Mapping.size (cm_replicaStatus cm)) \<le> cm_replicaCount cm"
    and "cm_level cm = LevelStrong" and "BeforeWrite cm"
    and "R \<subseteq> nodes cm" and "cm_readQuorum cm \<le> int (card R)"
  shows "\<exists>x \<in> R. node_version x (snd (AfterWrite now cm)) = Some (cm_localVersion (snd (AfterWrite now cm)))"
proof -
  have fin: "finite (nodes cm)" using assms(6) by (simp add: nodes_def)
  have "card (nodes cm) = Suc (Mapping.size (cm_replicaStatus cm))"
    using assms(6) unfolding nodes_def Mapping.size_def by (subst card_optional) simp_all
  moreover have "cm_writeQuorum cm \<le> int (card (available_nodes cm))"
    using assms(8,9) card_available [OF assms(6)] by (simp add: BeforeWrite_def)
  ultimately have "card (nodes cm) < card R + card (available_nodes cm)"
    using ValidateQuorum_overlap [OF assms(1-5)] assms(7,11) by linarith
  from quorums_meet [OF fin assms(10) available_nodes_sub this] obtain x where "x \<in> R" "x \<in> available_nodes cm" by blast
  with AfterWrite_strong [OF assms(8)] show ?thesis by blast
qed

definition sample_cm :: ConsistencyManager where
  "sample_cm = RegisterReplica ''b'' ''host-b'' (RegisterReplica ''a'' ''host-a'' (NewConsistencyManager ''strong'' 2 2 2 5000))"

lemma sample_cm_keys: "Mapping.keys (cm_replicaStatus sample_cm) = {''a'', ''b''}"
  by (auto simp: sample_cm_def RegisterReplica_def NewConsistencyManager_def Let_def)

theorem read_quorum_sees_write_witness:
  "\<exists>x \<in> {Some ''a'', Some ''b''}. node_version x (snd (AfterWrite 7 sample_cm)) = Some (cm_localVersion (snd (AfterWrite 7 sample_cm)))"
proof -
  have f: "cm_replicaCount sample_cm = 2" "cm_readQuorum sample_cm = 2" "cm_writeQuorum sample_cm = 2" "cm_level sample_cm = LevelStrong"
    by (simp_all add: sample_cm_def RegisterReplica_def NewConsistencyManager_def Let_def)
  have v: "ValidateQuorum 2 2 2 = Inr ()" "BeforeWrite sample_cm" "Mapping.size (cm_replicaStatus sample_cm) = 2" by code_simp+
  show ?thesis
    by (rule read_quorum_sees_write) (use v in \<open>simp_all add: f sample_cm_keys nodes_def in_int64_def min_int64_def max_int64_def\<close>)
qed

section \<open>Lost replicas\<close>

datatype cm_op = Op_AfterWrite gotime | Op_Replicate gotime int | Op_Health gotime | Op_Sync SyncRequest

fun cm_step :: "cm_op \<Rightarrow> ConsistencyManager \<Rightarrow> ConsistencyManager" where
  "cm_step (Op_AfterWrite now) cm = snd (AfterWrite now cm)"
| "cm_step (Op_Replicate now v) cm = asyncReplicate now v cm"
| "cm_step (Op_Health now) cm = checkReplicaHealth now cm"
| "cm_step (Op_Sync req) cm = snd (HandleSyncRequest req cm)"

definition none_available :: "ConsistencyManager \<Rightarrow> bool" where
  "none_available cm \<longleftrightarrow> (\<forall>i r. Mapping.lookup (cm_replicaStatus cm) i = Some r \<longrightarrow> \<not> rs_Available r)"

lemma none_available_step:
  assumes "none_available cm"
  shows "none_available (cm_step op cm) \<and> cm_level (cm_step op cm) = cm_level cm \<and> cm_writeQuorum (cm_step op cm) = cm_writeQuorum cm"
  using assms
  by (cases op) (auto simp: none_available_def AfterWrite_def IncrementVersion_def Let_def syncWrite_def asyncReplicate_def
      mark_synced_def checkReplicaHealth_def HandleSyncRequest_def lookup_map_values split: ConsistencyLevel.split if_splits)

lemma none_available_steps:
  assumes "none_available cm"
  shows "none_available (fold cm_step ops cm) \<and> cm_level (fold cm_step ops cm) = cm_level cm \<and>
    cm_writeQuorum (fold cm_step ops cm) = cm_writeQuorum cm"
  using assms
proof (induction ops arbitrary: cm)
  case (Cons op ops)
  with none_available_step [OF Cons.prems, of op] show ?case by simp
qed simp

lemma none_available_count: "none_available cm \<Longrightarrow> countAvailableReplicas cm = 0"
proof -
  assume "none_available cm"
  then have "Mapping.filter (\<lambda>_ r. rs_Available r) (cm_replicaStatus cm) = Mapping.empty"
    by (intro mapping_eqI) (auto simp: none_available_def lookup_filter lookup_empty split: option.splits)
  then show ?thesis by (simp add: countAvailableReplicas_def)
qed

text \<open>A replica is registered without a time of its last synchronisation.  The first health check
  therefore finds it overdue by centuries, unless a write came before it; and nothing ever makes a
  replica available again.  From then on a strongly consistent server with a write quorum above one
  refuses every write.\<close>

theorem replicas_lost_at_first_check:
  assumes "cm_level cm = LevelStrong" and "2 \<le> cm_writeQuorum cm" and "3000000000000000000 < now"
    and "0 \<le> cm_syncInterval cm" and "cm_syncInterval cm * 3 \<le> 3000000000000000000"
    and "\<forall>i r. Mapping.lookup (cm_replicaStatus cm) i = Some r \<longrightarrow> rs_LastSync r = zero_time"
  shows "\<not> BeforeWrite (fold cm_step ops (checkReplicaHealth now cm))"
proof -
  have "wrap64 (cm_syncInterval cm * 3) = cm_syncInterval cm * 3"
    by (rule wrap64_nonneg_id) (use assms(4,5) in linarith)+
  then have late: "Since now zero_time > wrap64 (cm_syncInterval cm * 3)"
    using assms(3,5) by (simp add: Since_def zero_time_def max_int64_def min_int64_def)
  have "\<not> rs_Available r" if "Mapping.lookup (cm_replicaStatus (checkReplicaHealth now cm)) i = Some r" for i r
  proof -
    from that obtain q where q: "Mapping.lookup (cm_replicaStatus cm) i = Some q"
        "r = (if Since now (rs_LastSync q) > wrap64 (cm_syncInterval cm * 3) \<and> rs_Available q then q\<lparr>rs_Available := False\<rparr> else q)"
      by (auto simp: checkReplicaHealth_def lookup_map_values)
    with assms(6) late show ?thesis unfolding q(2) by simp
  qed
  then have "none_available (checkReplicaHealth now cm)" by (simp add: none_available_def)
  moreover have "cm_level (checkReplicaHealth now cm) = LevelStrong" "2 \<le> cm_writeQuorum (checkReplicaHealth now cm)"
    using assms(1,2) by (simp_all add: checkReplicaHealth_def)
  ultimately show ?thesis
    using none_available_steps [of "checkReplicaHealth now cm" ops] by (simp add: BeforeWrite_def none_available_count)
qed

end
