(* ===== verification/Config.thy ===== *)
theory Config
  imports Auth Consistency
begin

text \<open>
  \<open>src/internal/config/config.go\<close>: the configuration, its defaults and its validation,
  and the part of \<open>main\<close> that builds services from it.  The file system and the YAML
  library are the arguments \<open>readFile\<close> and \<open>unmarshal\<close>.
\<close>

section \<open>Definitions\<close>

record TLSConfig =
  tls_Enabled :: bool
  tls_CertFile :: string
  tls_KeyFile :: string

record ServerConfig =
  sc_HTTPPort :: int
  sc_HTTPSPort :: int
  sc_GRPCPort :: int
  sc_GRPCEnabled :: bool
  sc_Workers :: int
  sc_MaxUploadSizeMB :: int
  sc_MaxChunkSizeMB :: int
  sc_MaxPageSize :: int
  sc_CORSAllowedOrigins :: string
  sc_TrustedProxies :: "string list"

record LocalStorageConfig =
  lsc_RootDir :: string

record MinIOStorageConfig =
  mc_Endpoint :: string
  mc_AccessKey :: string
  mc_SecretKey :: string
  mc_Bucket :: string
  mc_UseSSL :: bool

record StorageConfig =
  stc_Type :: string
  stc_Local :: LocalStorageConfig
  stc_MinIO :: MinIOStorageConfig
  stc_TempDir :: string

record DatabaseConfig =
  dc_Type :: string
  dc_Path :: string
  dc_Host :: string
  dc_Port :: int
  dc_Name :: string
  dc_User :: string
  dc_Password :: string
  dc_SSLMode :: string
  dc_SearchPath :: string
  dc_PoolSize :: int
  dc_ConnectionTimeoutMs :: int

record LoggingConfig =
  lgc_Level :: string
  lgc_File :: string
  lgc_Format :: string

record CacheConfig =
  cc_Enabled :: bool
  cc_Type :: string
  cc_TTL :: int
  cc_MaxSize :: int

record RedisConfig =
  rc_Enabled :: bool
  rc_Address :: string
  rc_Password :: string
  rc_DB :: int
  rc_PoolSize :: int

record EtcdConfig =
  ec_Enabled :: bool
  ec_Endpoints :: "string list"
  ec_Prefix :: string

record ConsistencyConfig =
  csc_Level :: string
  csc_ReplicaCount :: int
  csc_ReadQuorum :: int
  csc_WriteQuorum :: int
  csc_SyncIntervalMs :: int

record DiscoveryConfig =
  dsc_Enabled :: bool
  dsc_Type :: string
  dsc_Address :: string
  dsc_Interval :: int

record AuthConfig =
  ac_Enabled :: bool
  ac_Secret :: string
  ac_TokenExpiry :: int
  ac_RefreshExpiry :: int

record CryptoConfig =
  cyc_Enabled :: bool
  cyc_Algorithm :: string
  cyc_KeyFile :: string
  cyc_Passphrase :: string

record Config =
  cfg_Server :: ServerConfig
  cfg_TLS :: TLSConfig
  cfg_Storage :: StorageConfig
  cfg_Database :: DatabaseConfig
  cfg_Logging :: LoggingConfig
  cfg_Cache :: CacheConfig
  cfg_Redis :: RedisConfig
  cfg_Etcd :: EtcdConfig
  cfg_Consistency :: ConsistencyConfig
  cfg_Discovery :: DiscoveryConfig
  cfg_Auth :: AuthConfig
  cfg_Crypto :: CryptoConfig

definition default_int :: "int \<Rightarrow> int \<Rightarrow> int" where
  "default_int dflt x = (if x = 0 then dflt else x)"

definition default_str :: "string \<Rightarrow> string \<Rightarrow> string" where
  "default_str dflt x = (if x = [] then dflt else x)"

definition applyDefaults :: "Config \<Rightarrow> Config" where
  "applyDefaults c =
     (let s = cfg_Server c; st = cfg_Storage c; d = cfg_Database c; lg = cfg_Logging c; r = cfg_Redis c
      in c\<lparr>cfg_Server := s\<lparr>sc_HTTPPort := default_int 8080 (sc_HTTPPort s), sc_HTTPSPort := default_int 8443 (sc_HTTPSPort s),
              sc_GRPCPort := default_int 9090 (sc_GRPCPort s), sc_GRPCEnabled := (if \<not> sc_GRPCEnabled s then True else sc_GRPCEnabled s),
              sc_Workers := default_int 8 (sc_Workers s), sc_MaxUploadSizeMB := default_int 1024 (sc_MaxUploadSizeMB s),
              sc_MaxChunkSizeMB := default_int 64 (sc_MaxChunkSizeMB s), sc_MaxPageSize := default_int 1000 (sc_MaxPageSize s),
              sc_CORSAllowedOrigins := default_str [] (sc_CORSAllowedOrigins s)\<rparr>,
            cfg_Storage := st\<lparr>stc_Type := default_str ''local'' (stc_Type st),
              stc_Local := (stc_Local st)\<lparr>lsc_RootDir := default_str ''/data/fsserver'' (lsc_RootDir (stc_Local st))\<rparr>\<rparr>,
            cfg_Database := d\<lparr>dc_Type := default_str ''postgresql'' (dc_Type d), dc_PoolSize := default_int 10 (dc_PoolSize d),
              dc_ConnectionTimeoutMs := default_int 5000 (dc_ConnectionTimeoutMs d)\<rparr>,
            cfg_Logging := lg\<lparr>lgc_Level := default_str ''info'' (lgc_Level lg), lgc_Format := default_str ''console'' (lgc_Format lg)\<rparr>,
            cfg_Redis := (if rc_Enabled r \<and> rc_PoolSize r = 0 then r\<lparr>rc_PoolSize := 10\<rparr> else r)\<rparr>)"

definition Load :: "(string \<Rightarrow> bytes res) \<Rightarrow> (bytes \<Rightarrow> Config \<Rightarrow> Config res) \<Rightarrow> string \<Rightarrow> Config \<Rightarrow> Config res" where
  "Load readFile unmarshal path c =
     (case readFile path of
        Inl e \<Rightarrow> Inl (Wrapf ''failed to read config file'' e)
      | Inr data \<Rightarrow>
          (case unmarshal data c of
             Inl e \<Rightarrow> Inl (Wrapf ''failed to parse config file'' e)
           | Inr c1 \<Rightarrow> Inr (applyDefaults c1)))"

text \<open>A sequence of checks, the first that fails giving the error.\<close>

fun checks :: "(bool \<times> string) list \<Rightarrow> unit res" where
  "checks [] = Inr ()"
| "checks ((bad, msg) # cs) = (if bad then Inl (Errorf msg) else checks cs)"

definition validateServer :: "ServerConfig \<Rightarrow> unit res" where
  "validateServer s = checks
     [(sc_HTTPPort s < 1 \<or> sc_HTTPPort s > 65535, ''server.http_port must be between 1 and 65535''),
      (sc_HTTPSPort s < 1 \<or> sc_HTTPSPort s > 65535, ''server.https_port must be between 1 and 65535''),
      (sc_GRPCPort s < 1 \<or> sc_GRPCPort s > 65535, ''server.grpc_port must be between 1 and 65535''),
      (sc_Workers s < 1, ''server.workers must be at least 1''),
      (sc_MaxUploadSizeMB s < 1, ''server.max_upload_size_mb must be at least 1''),
      (sc_MaxChunkSizeMB s < 1, ''server.max_chunk_size_mb must be at least 1''),
      (sc_MaxChunkSizeMB s > sc_MaxUploadSizeMB s, ''server.max_chunk_size_mb must not exceed max_upload_size_mb''),
      (sc_MaxPageSize s < 1 \<or> sc_MaxPageSize s > 10000, ''server.max_page_size must be between 1 and 10000'')]"

definition validateTLS :: "TLSConfig \<Rightarrow> unit res" where
  "validateTLS t = (if tls_Enabled t then checks
     [(tls_CertFile t = [], ''tls.cert_file is required when TLS is enabled''),
      (tls_KeyFile t = [], ''tls.key_file is required when TLS is enabled'')] else Inr ())"

definition validateStorage :: "StorageConfig \<Rightarrow> unit res" where
  "validateStorage st =
     (if \<not> (stc_Type st = ''local'' \<or> stc_Type st = ''minio'') then Inl (Errorf ''storage.type must be local or minio'')
      else if stc_Type st = ''local'' \<and> (lsc_RootDir (stc_Local st) = [] \<or> lsc_RootDir (stc_Local st) = ''/'')
      then Inl (Errorf ''storage.local.root_dir cannot be empty or root'')
      else if stc_Type st = ''minio'' then checks
        [(mc_Endpoint (stc_MinIO st) = [], ''storage.minio.endpoint is required''),
         (mc_AccessKey (stc_MinIO st) = [], ''storage.minio.access_key is required''),
         (mc_SecretKey (stc_MinIO st) = [], ''storage.minio.secret_key is required''),
         (mc_Bucket (stc_MinIO st) = [], ''storage.minio.bucket is required'')]
      else Inr ())"

definition validateDatabase :: "DatabaseConfig \<Rightarrow> unit res" where
  "validateDatabase d = checks
     [(dc_Type d \<noteq> ''postgresql'', ''database.type must be postgresql''), (dc_Host d = [], ''database.host is required''),
      (dc_Port d < 1 \<or> dc_Port d > 65535, ''database.port must be between 1 and 65535''), (dc_Name d = [], ''database.name is required''),
      (dc_User d = [], ''database.user is required''), (dc_PoolSize d < 1, ''database.pool_size must be at least 1'')]"

definition validateCache :: "CacheConfig \<Rightarrow> unit res" where
  "validateCache c = (if cc_Enabled c then checks
     [(cc_Type c = [], ''cache.type is required when cache is enabled''), (cc_TTL c < 0, ''cache.ttl must not be negative''),
      (cc_MaxSize c < 0, ''cache.max_size must not be negative'')] else Inr ())"

definition validateRedis :: "RedisConfig \<Rightarrow> unit res" where
  "validateRedis r = (if rc_Enabled r then checks
     [(rc_Address r = [], ''redis.address is required when Redis is enabled''), (rc_PoolSize r < 1, ''redis.pool_size must be at least 1'')] else Inr ())"

definition validateEtcd :: "EtcdConfig \<Rightarrow> unit res" where
  "validateEtcd e = (if ec_Enabled e then checks
     [(length (ec_Endpoints e) = 0, ''etcd.endpoints must not be empty when etcd is enabled'')] else Inr ())"

text \<open>The only check that changes the configuration.\<close>

definition validateConsistency :: "ConsistencyConfig \<Rightarrow> ConsistencyConfig res" where
  "validateConsistency c =
     (if csc_Level c \<noteq> [] \<and> \<not> (csc_Level c \<in> set [''none'', ''eventual'', ''strong''])
      then Inl (Errorf ''consistency.level must be none, eventual, or strong'')
      else Inr (if csc_Level c \<noteq> ''none'' \<and> csc_Level c \<noteq> [] \<and> csc_SyncIntervalMs c < 1 then c\<lparr>csc_SyncIntervalMs := 5000\<rparr> else c))"

definition validateDiscovery :: "DiscoveryConfig \<Rightarrow> unit res" where
  "validateDiscovery d = (if dsc_Enabled d then checks
     [(dsc_Type d = [], ''discovery.type is required when discovery is enabled''),
      (dsc_Address d = [], ''discovery.address is required when discovery is enabled''),
      (dsc_Interval d < 1, ''discovery.interval must be at least 1'')] else Inr ())"

definition validateAuth :: "AuthConfig \<Rightarrow> unit res" where
  "validateAuth a = (if ac_Enabled a then checks
     [(ac_Secret a = [], ''auth.secret is required when auth is enabled''), (ac_TokenExpiry a < 1, ''auth.token_expiry must be at least 1''),
      (ac_RefreshExpiry a < 1, ''auth.refresh_expiry must be at least 1'')] else Inr ())"

definition validateCrypto :: "CryptoConfig \<Rightarrow> unit res" where
  "validateCrypto c = (if cyc_Enabled c then checks
     [(cyc_Algorithm c = [], ''crypto.algorithm is required when crypto is enabled''),
      (cyc_KeyFile c = [] \<and> cyc_Passphrase c = [], ''crypto.key_file or crypto.passphrase is required when crypto is enabled'')] else Inr ())"

fun all_ok :: "unit res list \<Rightarrow> unit res" where
  "all_ok [] = Inr ()"
| "all_ok (r # rs) = (case r of Inl e \<Rightarrow> Inl e | Inr _ \<Rightarrow> all_ok rs)"

definition Validate :: "Config \<Rightarrow> unit res \<times> Config" where
  "Validate c =
     (case all_ok [validateServer (cfg_Server c), validateTLS (cfg_TLS c), validateStorage (cfg_Storage c),
          validateDatabase (cfg_Database c), validateCache (cfg_Cache c), validateRedis (cfg_Redis c), validateEtcd (cfg_Etcd c)] of
        Inl e \<Rightarrow> (Inl e, c)
      | Inr _ \<Rightarrow>
          (case validateConsistency (cfg_Consistency c) of
             Inl e \<Rightarrow> (Inl e, c)
           | Inr cs \<Rightarrow>
               (let c1 = c\<lparr>cfg_Consistency := cs\<rparr>
                in (all_ok [validateDiscovery (cfg_Discovery c1), validateAuth (cfg_Auth c1), validateCrypto (cfg_Crypto c1)], c1))))"

section \<open>Starting the services\<close>

text \<open>The consistency manager and the authentication service that \<open>main\<close> builds.\<close>

definition start_consistency :: "ConsistencyConfig \<Rightarrow> ConsistencyManager option res" where
  "start_consistency cs =
     (if csc_Level cs \<noteq> ''none'' \<and> csc_Level cs \<noteq> [] then
        (case ValidateQuorum (csc_ReplicaCount cs) (csc_ReadQuorum cs) (csc_WriteQuorum cs) of
           Inl e \<Rightarrow> Inl e
         | Inr _ \<Rightarrow> Inr (Some (NewConsistencyManager (csc_Level cs) (csc_ReplicaCount cs) (csc_ReadQuorum cs)
                            (csc_WriteQuorum cs) (csc_SyncIntervalMs cs))))
      else Inr None)"

definition start_auth :: "(string \<Rightarrow> string) \<Rightarrow> string \<Rightarrow> AuthConfig \<Rightarrow> db AuthService" where
  "start_auth hashApiKey nowText a =
     SetApiKeyLookup (Key_GetByKeyHash nowText) (Auth_Init hashApiKey (ac_Enabled a) (ac_Secret a) NewAuthService)"

section \<open>Lemmas\<close>

lemma checks_ok [simp]: "checks cs = Inr () \<longleftrightarrow> (\<forall>c \<in> set cs. \<not> fst c)"
  by (induction cs rule: checks.induct) auto

lemma all_ok_ok [simp]: "all_ok rs = Inr () \<longleftrightarrow> (\<forall>r \<in> set rs. r = Inr ())"
  by (induction rs) (auto split: sum.splits)

lemma default_int_idem [simp]: "dflt \<noteq> 0 \<Longrightarrow> default_int dflt (default_int dflt x) = default_int dflt x"
  by (simp add: default_int_def)

lemma default_str_idem [simp]: "default_str dflt (default_str dflt x) = default_str dflt x"
  by (simp add: default_str_def)

lemma applyDefaults_idem [simp]: "applyDefaults (applyDefaults c) = applyDefaults c"
  by (simp add: applyDefaults_def Let_def)

lemma applyDefaults_consistency: "applyDefaults (c\<lparr>cfg_Consistency := x\<rparr>) = (applyDefaults c)\<lparr>cfg_Consistency := x\<rparr>"
  by (simp add: applyDefaults_def Let_def)

lemma validateConsistency_again: "validateConsistency c = Inr c' \<Longrightarrow> validateConsistency c' = Inr c'"
  by (auto simp: validateConsistency_def split: if_splits)

lemma validateConsistency_ok:
  "validateConsistency c = Inr c' \<Longrightarrow> csc_Level c' \<in> {[], ''none'', ''eventual'', ''strong''} \<and>
     (csc_Level c' \<in> {''eventual'', ''strong''} \<longrightarrow> 1 \<le> csc_SyncIntervalMs c')"
  by (auto simp: validateConsistency_def split: if_splits)

lemma Validate_ok_iff:
  "Validate c = (Inr (), c') \<longleftrightarrow>
     (\<exists>cs. validateConsistency (cfg_Consistency c) = Inr cs \<and> c' = c\<lparr>cfg_Consistency := cs\<rparr>) \<and>
     (\<forall>r \<in> set [validateServer (cfg_Server c), validateTLS (cfg_TLS c), validateStorage (cfg_Storage c),
          validateDatabase (cfg_Database c), validateCache (cfg_Cache c), validateRedis (cfg_Redis c), validateEtcd (cfg_Etcd c),
          validateDiscovery (cfg_Discovery c), validateAuth (cfg_Auth c), validateCrypto (cfg_Crypto c)]. r = Inr ())"
  (is "?lhs \<longleftrightarrow> ?cs \<and> ?rs")
proof -
  let ?A = "[validateServer (cfg_Server c), validateTLS (cfg_TLS c), validateStorage (cfg_Storage c),
          validateDatabase (cfg_Database c), validateCache (cfg_Cache c), validateRedis (cfg_Redis c), validateEtcd (cfg_Etcd c)]"
  let ?B = "[validateDiscovery (cfg_Discovery c), validateAuth (cfg_Auth c), validateCrypto (cfg_Crypto c)]"
  have split: "?rs \<longleftrightarrow> all_ok ?A = Inr () \<and> all_ok ?B = Inr ()" unfolding all_ok_ok by simp
  show ?thesis
  proof (cases "all_ok ?A")
    case (Inl e)
    then show ?thesis unfolding split Validate_def by simp
  next
    case (Inr u)
    then show ?thesis
      unfolding split Validate_def Inr sum.case Let_def
      by (cases "validateConsistency (cfg_Consistency c)") (auto simp del: all_ok_ok)
  qed
qed

lemma Validate_parts:
  assumes "Validate c = (Inr (), c')"
  shows "validateServer (cfg_Server c) = Inr ()" "validateDatabase (cfg_Database c) = Inr ()" "validateAuth (cfg_Auth c) = Inr ()"
    "validateConsistency (cfg_Consistency c) = Inr (cfg_Consistency c')" "c' = c\<lparr>cfg_Consistency := cfg_Consistency c'\<rparr>"
  using assms unfolding Validate_ok_iff by auto

lemma Validate_again: "Validate c = (Inr (), c') \<Longrightarrow> Validate c' = (Inr (), c')"
  unfolding Validate_ok_iff by (auto dest: validateConsistency_again)

lemma Load_defaults: "Load readFile unmarshal path c0 = Inr c \<Longrightarrow> applyDefaults c = c"
  by (auto simp: Load_def split: sum.splits)

lemma start_auth_secret:
  assumes "ac_Enabled a" and "ac_Secret a \<noteq> []" and "hash (ac_Secret a) \<noteq> []"
  shows "ValidateApiKey hash order (ac_Secret a) (start_auth hash nowText a) d = (True, d)"
    and "ValidateApiKey hash order [] (start_auth hash nowText a) d = (False, d)"
  using assms by (simp_all add: ValidateApiKey_def start_auth_def SetApiKeyLookup_def Auth_Init_def Let_def)

section \<open>Properties\<close>


text \<open>The gRPC server cannot be switched off: its default overrides the setting.\<close>

lemma grpc_always_enabled: "Load readFile unmarshal path c0 = Inr c \<Longrightarrow> sc_GRPCEnabled (cfg_Server c)"
  by (auto simp: Load_def applyDefaults_def Let_def split: sum.splits)

definition sample_config :: Config where
  "sample_config =
     \<lparr>cfg_Server = \<lparr>sc_HTTPPort = 0, sc_HTTPSPort = 0, sc_GRPCPort = 0, sc_GRPCEnabled = False, sc_Workers = 0, sc_MaxUploadSizeMB = 0,
        sc_MaxChunkSizeMB = 0, sc_MaxPageSize = 0, sc_CORSAllowedOrigins = [], sc_TrustedProxies = []\<rparr>,
      cfg_TLS = \<lparr>tls_Enabled = False, tls_CertFile = [], tls_KeyFile = []\<rparr>,
      cfg_Storage = \<lparr>stc_Type = [], stc_Local = \<lparr>lsc_RootDir = []\<rparr>,
        stc_MinIO = \<lparr>mc_Endpoint = [], mc_AccessKey = [], mc_SecretKey = [], mc_Bucket = [], mc_UseSSL = False\<rparr>, stc_TempDir = []\<rparr>,
      cfg_Database = \<lparr>dc_Type = [], dc_Path = [], dc_Host = ''db'', dc_Port = 5432, dc_Name = ''fs'', dc_User = ''fs'', dc_Password = [],
        dc_SSLMode = [], dc_SearchPath = [], dc_PoolSize = 0, dc_ConnectionTimeoutMs = 0\<rparr>,
      cfg_Logging = \<lparr>lgc_Level = [], lgc_File = [], lgc_Format = []\<rparr>,
      cfg_Cache = \<lparr>cc_Enabled = False, cc_Type = [], cc_TTL = 0, cc_MaxSize = 0\<rparr>,
      cfg_Redis = \<lparr>rc_Enabled = False, rc_Address = [], rc_Password = [], rc_DB = 0, rc_PoolSize = 0\<rparr>,
      cfg_Etcd = \<lparr>ec_Enabled = False, ec_Endpoints = [], ec_Prefix = []\<rparr>,
      cfg_Consistency = \<lparr>csc_Level = ''strong'', csc_ReplicaCount = 2, csc_ReadQuorum = 2, csc_WriteQuorum = 2, csc_SyncIntervalMs = 0\<rparr>,
      cfg_Discovery = \<lparr>dsc_Enabled = False, dsc_Type = [], dsc_Address = [], dsc_Interval = 0\<rparr>,
      cfg_Auth = \<lparr>ac_Enabled = True, ac_Secret = ''s'', ac_TokenExpiry = 1, ac_RefreshExpiry = 1\<rparr>,
      cfg_Crypto = \<lparr>cyc_Enabled = False, cyc_Algorithm = [], cyc_KeyFile = [], cyc_Passphrase = []\<rparr>\<rparr>"


end
