(* ===== verification/Cache_LRU.thy ===== *)
theory Cache_LRU
  imports Prelude "HOL-Library.AList"
begin

text \<open>
  \<open>src/internal/cache/cache.go\<close>: the in-memory cache with a time to live and LRU
  eviction.  As in the code, the map \<open>items\<close> holds pointers to entries and the doubly
  linked list \<open>lru\<close> holds the same pointers: here an address, with the entries in
  \<open>c_heap\<close>.  An update through one pointer is therefore seen through the other.  A Go map
  is an association list with distinct keys, so its length is \<open>len\<close> and its order is
  one of the unspecified iteration orders.

  The specification is the list of entries from the most to the least recently used one; every
  operation is shown to refine its counterpart on that list.  The interface
  \<open>CacheAdapter\<close> is the locale \<open>cache_adapter\<close>.
\<close>

abbreviation second :: int where "second \<equiv> 1000000000"

section \<open>State\<close>

record 'v entry =
  e_key :: string
  e_value :: 'v
  e_expiresAt :: gotime

record 'v Cache =
  items :: "(string \<times> nat) list"
  lru :: "nat list"
  c_heap :: "nat \<Rightarrow> 'v entry"
  c_next :: nat
  c_ttl :: int
  c_maxSize :: int
  c_stopped :: bool

definition NewCache :: "(nat \<Rightarrow> 'v entry) \<Rightarrow> int \<Rightarrow> int \<Rightarrow> 'v Cache" where
  "NewCache junk ttl maxSize =
     \<lparr>items = [], lru = [], c_heap = junk, c_next = 0, c_ttl = ttl, c_maxSize = maxSize,
      c_stopped = False\<rparr>"

section \<open>Operations\<close>

definition removeElement :: "nat \<Rightarrow> 'v Cache \<Rightarrow> 'v Cache" where
  "removeElement a c =
     c\<lparr>lru := remove1 a (lru c), items := AList.delete (e_key (c_heap c a)) (items c)\<rparr>"

definition MoveToFront :: "nat \<Rightarrow> 'v Cache \<Rightarrow> 'v Cache" where
  "MoveToFront a c = c\<lparr>lru := a # remove1 a (lru c)\<rparr>"

definition item_expired :: "gotime \<Rightarrow> 'v Cache \<Rightarrow> nat \<Rightarrow> bool" where
  "item_expired now c a \<longleftrightarrow> 0 < c_ttl c \<and> e_expiresAt (c_heap c a) < now"

definition Cache_Get :: "gotime \<Rightarrow> string \<Rightarrow> 'v Cache \<Rightarrow> 'v option \<times> 'v Cache" where
  "Cache_Get now key c =
     (case map_of (items c) key of
        None \<Rightarrow> (None, c)
      | Some a \<Rightarrow>
          if item_expired now c a then (None, removeElement a c)
          else (Some (e_value (c_heap c a)), MoveToFront a c))"

definition new_expiresAt :: "gotime \<Rightarrow> 'v Cache \<Rightarrow> gotime" where
  "new_expiresAt now c = (if 0 < c_ttl c then now + wrap64 (c_ttl c * second) else 0)"

definition Cache_Set :: "gotime \<Rightarrow> string \<Rightarrow> 'v \<Rightarrow> 'v Cache \<Rightarrow> 'v Cache" where
  "Cache_Set now key value c =
     (case map_of (items c) key of
        Some a \<Rightarrow>
          MoveToFront a
            (c\<lparr>c_heap := (c_heap c)(a := (c_heap c a)\<lparr>e_value := value,
                                            e_expiresAt := new_expiresAt now c\<rparr>)\<rparr>)
      | None \<Rightarrow>
          let c1 = (if 0 < c_maxSize c \<and> c_maxSize c \<le> int (length (items c))
                    then (if lru c \<noteq> [] then removeElement (last (lru c)) c else c)
                    else c);
              a = c_next c1
          in c1\<lparr>c_heap := (c_heap c1)(a := \<lparr>e_key = key, e_value = value,
                                            e_expiresAt = new_expiresAt now c1\<rparr>),
                c_next := Suc a,
                lru := a # lru c1,
                items := AList.update key a (items c1)\<rparr>)"

definition Cache_Delete :: "string \<Rightarrow> 'v Cache \<Rightarrow> 'v Cache" where
  "Cache_Delete key c =
     (case map_of (items c) key of None \<Rightarrow> c | Some a \<Rightarrow> removeElement a c)"

definition Cache_Clear :: "'v Cache \<Rightarrow> 'v Cache" where
  "Cache_Clear c = c\<lparr>items := [], lru := []\<rparr>"

definition Cache_Size :: "'v Cache \<Rightarrow> nat" where
  "Cache_Size c = length (items c)"

definition Cache_Cleanup :: "gotime \<Rightarrow> 'v Cache \<Rightarrow> 'v Cache" where
  "Cache_Cleanup now c =
     fold (\<lambda>a c'. if item_expired now c' a then removeElement a c' else c') (map snd (items c)) c"

definition Cache_Has :: "gotime \<Rightarrow> string \<Rightarrow> 'v Cache \<Rightarrow> bool" where
  "Cache_Has now key c =
     (case map_of (items c) key of None \<Rightarrow> False | Some a \<Rightarrow> \<not> item_expired now c a)"

definition Cache_Exists :: "gotime \<Rightarrow> string \<Rightarrow> 'v Cache \<Rightarrow> bool" where
  "Cache_Exists now key c = Cache_Has now key c"

definition Cache_Stop :: "'v Cache \<Rightarrow> 'v Cache" where
  "Cache_Stop c = c\<lparr>c_stopped := True\<rparr>"

text \<open>One wake-up of \<open>cleanupLoop\<close> on a tick of its one-minute timer.\<close>

definition cleanupLoop_tick :: "gotime \<Rightarrow> 'v Cache \<Rightarrow> 'v Cache" where
  "cleanupLoop_tick now c = (if c_stopped c then c else Cache_Cleanup now c)"

section \<open>Specification: a list ordered by recency\<close>

definition mru :: "'v Cache \<Rightarrow> 'v entry list" where
  "mru c = map (c_heap c) (lru c)"

definition live :: "int \<Rightarrow> gotime \<Rightarrow> 'v entry \<Rightarrow> bool" where
  "live ttl now e \<longleftrightarrow> \<not> (0 < ttl \<and> e_expiresAt e < now)"

fun find_key :: "string \<Rightarrow> 'v entry list \<Rightarrow> 'v entry option" where
  "find_key k [] = None"
| "find_key k (e # es) = (if e_key e = k then Some e else find_key k es)"

definition drop_key :: "string \<Rightarrow> 'v entry list \<Rightarrow> 'v entry list" where
  "drop_key k es = filter (\<lambda>e. e_key e \<noteq> k) es"

definition spec_get :: "int \<Rightarrow> gotime \<Rightarrow> string \<Rightarrow> 'v entry list \<Rightarrow> 'v option \<times> 'v entry list" where
  "spec_get ttl now k es =
     (case find_key k es of
        None \<Rightarrow> (None, es)
      | Some e \<Rightarrow> if live ttl now e then (Some (e_value e), e # drop_key k es) else (None, drop_key k es))"

definition spec_set :: "int \<Rightarrow> int \<Rightarrow> gotime \<Rightarrow> string \<Rightarrow> 'v \<Rightarrow> 'v entry list \<Rightarrow> 'v entry list" where
  "spec_set ttl maxSize now k v es =
     (let e = \<lparr>e_key = k, e_value = v,
               e_expiresAt = (if 0 < ttl then now + wrap64 (ttl * second) else 0)\<rparr>
      in if find_key k es \<noteq> None then e # drop_key k es
         else if 0 < maxSize \<and> maxSize \<le> int (length es) then e # butlast es
         else e # es)"

text \<open>The representation invariant: the map and the list hold the same pointers, each once,
  every pointer is allocated, and the map files every entry under its own key.\<close>

definition cache_inv :: "'v Cache \<Rightarrow> bool" where
  "cache_inv c \<longleftrightarrow>
     distinct (map fst (items c)) \<and> distinct (lru c) \<and>
     set (lru c) = set (map snd (items c)) \<and>
     list_all (\<lambda>(k, a). e_key (c_heap c a) = k \<and> a < c_next c) (items c) \<and>
     (0 < c_maxSize c \<longrightarrow> int (length (items c)) \<le> c_maxSize c)"

section \<open>Lemmas on the representation\<close>

lemma inv_items:
  assumes "cache_inv c" "(k, a) \<in> set (items c)"
  shows "e_key (c_heap c a) = k \<and> a < c_next c \<and> a \<in> set (lru c)"
proof -
  have "\<forall>p \<in> set (items c). case p of (k, a) \<Rightarrow> e_key (c_heap c a) = k \<and> a < c_next c"
    and l: "set (lru c) = snd ` set (items c)"
    using assms(1) by (simp_all add: cache_inv_def list_all_iff)
  from bspec [OF this(1) assms(2)] have "e_key (c_heap c a) = k \<and> a < c_next c" by simp
  moreover have "a \<in> set (lru c)" unfolding l using imageI [OF assms(2), of snd] by simp
  ultimately show ?thesis by simp
qed

lemma inv_lru:
  assumes "cache_inv c" "a \<in> set (lru c)"
  shows "map_of (items c) (e_key (c_heap c a)) = Some a"
proof -
  obtain k where k: "(k, a) \<in> set (items c)" using assms by (auto simp: cache_inv_def)
  with inv_items [OF assms(1) k] assms(1) show ?thesis by (simp add: cache_inv_def map_of_is_SomeI)
qed

lemma inv_lookup:
  "cache_inv c \<Longrightarrow> map_of (items c) k = Some a \<Longrightarrow> a \<in> set (lru c) \<and> e_key (c_heap c a) = k"
  using inv_items map_of_SomeD by fastforce

lemma inv_key_inj:
  "cache_inv c \<Longrightarrow> a \<in> set (lru c) \<Longrightarrow> b \<in> set (lru c) \<Longrightarrow> e_key (c_heap c a) = e_key (c_heap c b) \<Longrightarrow> a = b"
  using inv_lru by (metis option.inject)

lemma inv_key_of:
  assumes "cache_inv c" "map_of (items c) k = Some a"
  shows "\<forall>b \<in> set (lru c). e_key (c_heap c b) = k \<longleftrightarrow> b = a"
  using inv_lru [OF assms(1)] inv_lookup [OF assms] assms(2) by (metis option.inject)

lemma inv_snd_inj: "cache_inv c \<Longrightarrow> distinct (map snd (items c))"
proof -
  assume c: "cache_inv c"
  have "inj_on snd (set (items c))"
    unfolding inj_on_def using inv_items [OF c] by (metis surjective_pairing)
  moreover have "distinct (items c)" using c by (simp add: cache_inv_def distinct_map)
  ultimately show ?thesis by (simp add: distinct_map)
qed

lemma inv_length: "cache_inv c \<Longrightarrow> length (lru c) = length (items c)"
  using inv_snd_inj [of c] distinct_card [of "lru c"] distinct_card [of "map snd (items c)"]
  by (simp add: cache_inv_def)

lemma find_key_map:
  assumes "\<forall>b \<in> set xs. e_key (h b) = k \<longleftrightarrow> b = a" and "a \<in> set xs"
  shows "find_key k (map h xs) = Some (h a)"
  using assms by (induction xs) (simp_all, metis)

lemma find_key_None: "find_key k es = None \<longleftrightarrow> (\<forall>e \<in> set es. e_key e \<noteq> k)"
  by (induction es) auto

lemma find_key_mru:
  "cache_inv c \<Longrightarrow> find_key k (mru c) = map_option (c_heap c) (map_of (items c) k)"
proof (cases "map_of (items c) k")
  case None
  assume c: "cache_inv c"
  have "e_key (c_heap c a) \<noteq> k" if "a \<in> set (lru c)" for a
    using inv_lru [OF c that] None by auto
  with None show ?thesis by (auto simp: mru_def find_key_None)
next
  case (Some a)
  assume c: "cache_inv c"
  from find_key_map [OF inv_key_of [OF c Some]] inv_lookup [OF c Some] Some
  show ?thesis by (simp add: mru_def)
qed

lemma drop_key_mru:
  assumes c: "cache_inv c" and a: "map_of (items c) k = Some a"
  shows "drop_key k (mru c) = map (c_heap c) (remove1 a (lru c))"
proof -
  have "filter (\<lambda>b. e_key (c_heap c b) \<noteq> k) (lru c) = filter (\<lambda>b. b \<noteq> a) (lru c)"
    using inv_key_of [OF c a] by (intro filter_cong) simp_all
  with c show ?thesis
    by (simp add: drop_key_def mru_def filter_map o_def filter_remove1_distinct cache_inv_def)
qed

lemma drop_key_absent: "find_key k es = None \<Longrightarrow> drop_key k es = es"
  by (simp add: drop_key_def find_key_None)

section \<open>Every operation keeps the invariant and refines its specification\<close>

lemma removeElement_sim:
  assumes c: "cache_inv c" and a: "map_of (items c) k = Some a"
  shows "cache_inv (removeElement a c)" and "mru (removeElement a c) = drop_key k (mru c)"
proof -
  have k: "e_key (c_heap c a) = k" using inv_lookup [OF c a] by simp
  have del: "AList.delete k (items c) = filter (\<lambda>p. snd p \<noteq> a) (items c)"
    unfolding AList.delete_eq
  proof (rule filter_cong)
    fix p assume "p \<in> set (items c)"
    with inv_items [OF c, of "fst p" "snd p"] inv_key_of [OF c a]
    show "(case p of (k', uu) \<Rightarrow> k \<noteq> k') = (snd p \<noteq> a)" by (auto split: prod.splits)
  qed simp
  show "cache_inv (removeElement a c)"
    using c unfolding cache_inv_def removeElement_def
    by (auto simp: k del list_all_iff distinct_map_filter
        intro: order_trans [OF of_nat_mono [OF length_filter_le]])
  show "mru (removeElement a c) = drop_key k (mru c)"
    using drop_key_mru [OF c a] by (simp add: mru_def removeElement_def)
qed

lemma MoveToFront_sim:
  assumes c: "cache_inv c" and a: "map_of (items c) k = Some a"
  shows "cache_inv (MoveToFront a c)" and "mru (MoveToFront a c) = c_heap c a # drop_key k (mru c)"
  using c inv_lookup [OF c a] drop_key_mru [OF c a]
  by (auto simp: cache_inv_def MoveToFront_def mru_def)

lemma item_expired_live: "item_expired now c a \<longleftrightarrow> \<not> live (c_ttl c) now (c_heap c a)"
  by (simp add: item_expired_def live_def)

lemma Cache_Get_sim:
  assumes c: "cache_inv c" and r: "Cache_Get now k c = (v, c')"
  shows "cache_inv c' \<and> (v, mru c') = spec_get (c_ttl c) now k (mru c)
    \<and> c_ttl c' = c_ttl c \<and> c_maxSize c' = c_maxSize c"
proof (cases "map_of (items c) k")
  case None
  with r find_key_mru [OF c, of k] c show ?thesis by (auto simp: Cache_Get_def spec_get_def)
next
  case (Some a)
  with r find_key_mru [OF c, of k] removeElement_sim [OF c Some] MoveToFront_sim [OF c Some]
  show ?thesis
    by (auto simp: Cache_Get_def spec_get_def item_expired_live removeElement_def MoveToFront_def
        split: if_splits)
qed

lemma Cache_Delete_sim:
  assumes c: "cache_inv c"
  shows "cache_inv (Cache_Delete k c)" and "mru (Cache_Delete k c) = drop_key k (mru c)"
proof -
  have "cache_inv (Cache_Delete k c) \<and> mru (Cache_Delete k c) = drop_key k (mru c)"
    using find_key_mru [OF c, of k] c removeElement_sim [OF c, of k]
    by (cases "map_of (items c) k") (auto simp: Cache_Delete_def drop_key_absent)
  then show "cache_inv (Cache_Delete k c)" and "mru (Cache_Delete k c) = drop_key k (mru c)"
    by simp_all
qed

lemma removeElement_lru_last:
  assumes c: "cache_inv c" and ne: "lru c \<noteq> []"
  shows "cache_inv (removeElement (last (lru c)) c)"
    and "mru (removeElement (last (lru c)) c) = butlast (mru c)"
    and "length (items (removeElement (last (lru c)) c)) = length (items c) - 1"
proof -
  have m: "map_of (items c) (e_key (c_heap c (last (lru c)))) = Some (last (lru c))"
    using inv_lru [OF c] ne by simp
  show i: "cache_inv (removeElement (last (lru c)) c)" by (rule removeElement_sim [OF c m])
  have d: "distinct (lru c)" using c by (simp add: cache_inv_def)
  have r: "remove1 (last (lru c)) (lru c) = butlast (lru c)"
  proof -
    have e: "lru c = butlast (lru c) @ [last (lru c)]" using ne by simp
    with d have "last (lru c) \<notin> set (butlast (lru c))"
      by (metis distinct_append disjoint_insert(1) list.simps(15))
    with e show ?thesis by (metis remove1_append remove1.simps(2) append_Nil2)
  qed
  then show "mru (removeElement (last (lru c)) c) = butlast (mru c)"
    by (simp add: mru_def removeElement_def map_butlast)
  show "length (items (removeElement (last (lru c)) c)) = length (items c) - 1"
    using inv_length [OF i] inv_length [OF c] r by (simp add: removeElement_def)
qed

lemma push_sim:
  assumes c: "cache_inv c" and k: "map_of (items c) k = None"
    and room: "0 < c_maxSize c \<longrightarrow> int (length (items c)) < c_maxSize c"
    and c': "c' = c\<lparr>c_heap := (c_heap c)(c_next c := \<lparr>e_key = k, e_value = v, e_expiresAt = t\<rparr>),
               c_next := Suc (c_next c), lru := c_next c # lru c,
               items := AList.update k (c_next c) (items c)\<rparr>"
  shows "cache_inv c' \<and> mru c' = \<lparr>e_key = k, e_value = v, e_expiresAt = t\<rparr> # mru c"
proof -
  have u: "AList.update k x al = al @ [(k, x)]" if "k \<notin> fst ` set al" for al and x :: nat
    using that by (induction al) auto
  have nk: "k \<notin> fst ` set (items c)" using k by (simp add: map_of_eq_None_iff)
  have fresh: "c_next c \<notin> snd ` set (items c)"
    using inv_items [OF c] by fastforce
  then have fr: "c_next c \<notin> set (lru c)" using c by (simp add: cache_inv_def)
  have keys: "list_all (\<lambda>(k, a). e_key (c_heap c' a) = k \<and> a < c_next c') (items c)"
    using inv_items [OF c] by (fastforce simp: list_all_iff c')
  have "cache_inv c'"
    using c keys nk fresh fr room unfolding cache_inv_def by (auto simp: c' u)
  moreover have "mru c' = \<lparr>e_key = k, e_value = v, e_expiresAt = t\<rparr> # mru c"
    using fr by (auto simp: c' mru_def)
  ultimately show ?thesis by simp
qed

lemma Cache_Set_sim:
  assumes c: "cache_inv c"
  shows "cache_inv (Cache_Set now k v c)
    \<and> mru (Cache_Set now k v c) = spec_set (c_ttl c) (c_maxSize c) now k v (mru c)"
proof (cases "map_of (items c) k")
  case (Some a)
  let ?c = "c\<lparr>c_heap := (c_heap c)(a := (c_heap c a)\<lparr>e_value := v, e_expiresAt := new_expiresAt now c\<rparr>)\<rparr>"
  have k: "e_key (c_heap c a) = k" using inv_lookup [OF c Some] by simp
  have ic: "cache_inv ?c" using c by (auto simp: cache_inv_def list_all_iff)
  have "drop_key k (mru ?c) = map (c_heap ?c) (remove1 a (lru c))"
    using drop_key_mru [OF ic, of k a] Some by simp
  also have "\<dots> = map (c_heap c) (remove1 a (lru c))"
    using c by (intro map_cong) (auto simp: cache_inv_def)
  also have "\<dots> = drop_key k (mru c)" using drop_key_mru [OF c Some] by simp
  finally have d: "drop_key k (mru ?c) = drop_key k (mru c)" .
  have "c_heap ?c a = \<lparr>e_key = k, e_value = v, e_expiresAt = new_expiresAt now c\<rparr>"
    using k by simp
  with MoveToFront_sim [OF ic, of k a] Some d find_key_mru [OF c, of k] show ?thesis
    by (simp add: Cache_Set_def spec_set_def new_expiresAt_def Let_def)
next
  case None
  let ?full = "0 < c_maxSize c \<and> c_maxSize c \<le> int (length (items c))"
  define c1 where "c1 = (if ?full then if lru c \<noteq> [] then removeElement (last (lru c)) c else c else c)"
  have len: "length (mru c) = length (items c)" using inv_length [OF c] by (simp add: mru_def)
  have ne: "lru c \<noteq> []" if ?full using inv_length [OF c] that by auto
  have i1: "cache_inv c1" "map_of (items c1) k = None" "c_ttl c1 = c_ttl c" "c_maxSize c1 = c_maxSize c"
    using removeElement_lru_last [OF c] c None
    by (auto simp: c1_def removeElement_def map_of_eq_None_iff AList.delete_eq)
  have room: "0 < c_maxSize c1 \<longrightarrow> int (length (items c1)) < c_maxSize c1"
    using removeElement_lru_last(3) [OF c] ne c
    by (auto simp: c1_def removeElement_def cache_inv_def)
  have m1: "mru c1 = (if ?full then butlast (mru c) else mru c)"
    using removeElement_lru_last(2) [OF c] ne by (simp add: c1_def)
  have "Cache_Set now k v c =
      c1\<lparr>c_heap := (c_heap c1)(c_next c1 := \<lparr>e_key = k, e_value = v, e_expiresAt = new_expiresAt now c1\<rparr>),
         c_next := Suc (c_next c1), lru := c_next c1 # lru c1,
         items := AList.update k (c_next c1) (items c1)\<rparr>"
    using None by (simp add: Cache_Set_def c1_def Let_def)
  from push_sim [OF i1(1,2) room this] m1 i1(3) find_key_mru [OF c, of k] None len
  show ?thesis by (simp add: spec_set_def new_expiresAt_def Let_def)
qed

lemma cleanup_fold:
  assumes "cache_inv c" "distinct xs" "set xs \<subseteq> set (lru c)"
  shows "cache_inv (fold (\<lambda>a c'. if item_expired now c' a then removeElement a c' else c') xs c) \<and>
    lru (fold (\<lambda>a c'. if item_expired now c' a then removeElement a c' else c') xs c) =
      filter (\<lambda>a. \<not> (a \<in> set xs \<and> item_expired now c a)) (lru c) \<and>
    c_heap (fold (\<lambda>a c'. if item_expired now c' a then removeElement a c' else c') xs c) = c_heap c"
  using assms
proof (induction xs arbitrary: c)
  case (Cons x xs)
  define c1 where "c1 = (if item_expired now c x then removeElement x c else c)"
  have d: "distinct (lru c)" using Cons.prems(1) by (simp add: cache_inv_def)
  have i: "cache_inv c1"
    using removeElement_sim(1) [OF Cons.prems(1) inv_lru [OF Cons.prems(1)]] Cons.prems
    by (simp add: c1_def)
  have l: "lru c1 = filter (\<lambda>a. \<not> (a = x \<and> item_expired now c a)) (lru c)"
    using d by (auto simp: c1_def removeElement_def filter_remove1_distinct intro!: filter_cong)
  have e: "item_expired now c1 a = item_expired now c a" "c_heap c1 = c_heap c" for a
    by (auto simp: c1_def removeElement_def item_expired_def)
  have sub: "set xs \<subseteq> set (lru c1)" using Cons.prems by (auto simp: l)
  from Cons.IH [OF i _ sub] Cons.prems(2) l e show ?case
    by (auto simp: c1_def intro!: filter_cong)
qed simp

lemma Cache_Cleanup_sim:
  assumes c: "cache_inv c"
  shows "cache_inv (Cache_Cleanup now c) \<and>
    mru (Cache_Cleanup now c) = filter (live (c_ttl c) now) (mru c)"
proof -
  have s: "set (map snd (items c)) = set (lru c)" using c by (simp add: cache_inv_def)
  then have "set (map snd (items c)) \<subseteq> set (lru c)" by simp
  from cleanup_fold [OF c inv_snd_inj [OF c] this, of now]
  show ?thesis
    unfolding Cache_Cleanup_def mru_def filter_map s
    by (auto simp: item_expired_live o_def intro!: arg_cong [of _ _ "map (c_heap c)"] filter_cong)
qed

lemma mru_distinct: "cache_inv c \<Longrightarrow> distinct (map e_key (mru c))"
  unfolding mru_def map_map distinct_map inj_on_def
  using inv_key_inj [of c] by (auto simp: cache_inv_def)

section \<open>Histories and the interface\<close>

record ('s, 'v) CacheAdapter =
  ca_Get :: "gotime \<Rightarrow> string \<Rightarrow> 's \<Rightarrow> 'v option \<times> 's"
  ca_Set :: "gotime \<Rightarrow> string \<Rightarrow> 'v \<Rightarrow> 's \<Rightarrow> 's"
  ca_Delete :: "string \<Rightarrow> 's \<Rightarrow> 's"
  ca_Exists :: "gotime \<Rightarrow> string \<Rightarrow> 's \<Rightarrow> bool"

definition MemCache :: "('v Cache, 'v) CacheAdapter" where
  "MemCache = \<lparr>ca_Get = Cache_Get, ca_Set = Cache_Set, ca_Delete = Cache_Delete,
     ca_Exists = Cache_Exists\<rparr>"

text \<open>A history: calls through the interface, and background steps of the implementation.\<close>

datatype 'v cache_op = CGet gotime string | CSet gotime string 'v | CDelete string | CTick gotime

fun run_cop :: "('s, 'v) CacheAdapter \<Rightarrow> (gotime \<Rightarrow> 's \<Rightarrow> 's) \<Rightarrow> 'v cache_op \<Rightarrow> 's \<Rightarrow> 's" where
  "run_cop ca tick (CGet now k) s = snd (ca_Get ca now k s)"
| "run_cop ca tick (CSet now k v) s = ca_Set ca now k v s"
| "run_cop ca tick (CDelete k) s = ca_Delete ca k s"
| "run_cop ca tick (CTick now) s = tick now s"

text \<open>The value the last write to \<open>k\<close> left, if any.\<close>

fun last_write :: "string \<Rightarrow> 'v option \<Rightarrow> 'v cache_op list \<Rightarrow> 'v option" where
  "last_write k v [] = v"
| "last_write k v (CSet now k' w # ops) = last_write k (if k' = k then Some w else v) ops"
| "last_write k v (CDelete k' # ops) = last_write k (if k' = k then None else v) ops"
| "last_write k v (p # ops) = last_write k v ops"

text \<open>The keys a history reads or writes.\<close>

fun cop_keys :: "'v cache_op list \<Rightarrow> string list" where
  "cop_keys [] = []"
| "cop_keys (CGet now k # ops) = k # cop_keys ops"
| "cop_keys (CSet now k v # ops) = k # cop_keys ops"
| "cop_keys (CDelete k # ops) = k # cop_keys ops"
| "cop_keys (CTick now # ops) = cop_keys ops"

definition cached :: "'v Cache \<Rightarrow> string \<Rightarrow> 'v option" where
  "cached c k = map_option e_value (find_key k (mru c))"

locale cache_adapter =
  fixes ca :: "('s, 'v) CacheAdapter"
    and tick :: "gotime \<Rightarrow> 's \<Rightarrow> 's"
    and inv :: "'s \<Rightarrow> bool"
    and content :: "'s \<Rightarrow> string \<Rightarrow> 'v option"
  assumes get_inv: "inv s \<Longrightarrow> inv (snd (ca_Get ca now k s))"
    and get_result: "inv s \<Longrightarrow> fst (ca_Get ca now k s) = None \<or> fst (ca_Get ca now k s) = content s k"
    and get_frame: "inv s \<Longrightarrow> content (snd (ca_Get ca now k s)) k' = None \<or>
                     content (snd (ca_Get ca now k s)) k' = content s k'"
    and set_inv: "inv s \<Longrightarrow> inv (ca_Set ca now k v s)"
    and set_same: "inv s \<Longrightarrow> content (ca_Set ca now k v s) k = Some v"
    and set_frame: "inv s \<Longrightarrow> k \<noteq> k' \<Longrightarrow> content (ca_Set ca now k v s) k' = None \<or>
                     content (ca_Set ca now k v s) k' = content s k'"
    and del_inv: "inv s \<Longrightarrow> inv (ca_Delete ca k s)"
    and del_same: "inv s \<Longrightarrow> content (ca_Delete ca k s) k = None"
    and del_frame: "inv s \<Longrightarrow> content (ca_Delete ca k s) k' = None \<or>
                     content (ca_Delete ca k s) k' = content s k'"
    and tick_inv: "inv s \<Longrightarrow> inv (tick now s)"
    and tick_frame: "inv s \<Longrightarrow> content (tick now s) k' = None \<or> content (tick now s) k' = content s k'"
    and exists_get: "inv s \<Longrightarrow> ca_Exists ca now k s \<longleftrightarrow> fst (ca_Get ca now k s) \<noteq> None"
begin

lemma run_inv: "inv s \<Longrightarrow> inv (run_cop ca tick p s)"
  using get_inv set_inv del_inv tick_inv by (cases p) simp_all

lemma run_content:
  assumes "inv s" and "content s k = None \<or> content s k = v"
  shows "content (run_cop ca tick p s) k = None \<or> content (run_cop ca tick p s) k = last_write k v [p]"
proof (cases p)
  case (CGet now k')
  then show ?thesis using assms get_frame [OF assms(1), of now k' k] by auto
next
  case (CSet now k' w)
  then show ?thesis
    using assms set_same [OF assms(1), of now k w] set_frame [OF assms(1), of k' k now w]
    by (cases "k' = k") auto
next
  case (CDelete k')
  then show ?thesis
    using assms del_same [OF assms(1), of k] del_frame [OF assms(1), of k' k] by (cases "k' = k") auto
next
  case (CTick now)
  then show ?thesis using assms tick_frame [OF assms(1), of now k] by auto
qed

lemma last_write_Cons: "last_write k v (p # ops) = last_write k (last_write k v [p]) ops"
  by (cases p) auto

lemma history_content:
  "inv s \<Longrightarrow> content s k = None \<or> content s k = v \<Longrightarrow>
    inv (fold (run_cop ca tick) ops s) \<and> (content (fold (run_cop ca tick) ops s) k = None \<or>
      content (fold (run_cop ca tick) ops s) k = last_write k v ops)"
proof (induction ops arbitrary: s v)
  case (Cons p ops)
  show ?case
    using Cons.IH [OF run_inv [OF Cons.prems(1)] run_content [OF Cons.prems]]
    by (simp only: fold_simps last_write_Cons [of k v p ops])
qed simp

lemma coherent:
  assumes "inv s" and "content s k = None"
  shows "fst (ca_Get ca now k (fold (run_cop ca tick) ops s)) \<in> {None, last_write k None ops}"
  using history_content [OF assms(1), of k None ops] assms(2)
    get_result [of "fold (run_cop ca tick) ops s" now k] by auto

end

lemma find_key_drop: "find_key k' (drop_key k es) = (if k' = k then None else find_key k' es)"
  by (induction es) (auto simp: drop_key_def)

lemma find_key_filter:
  "distinct (map e_key es) \<Longrightarrow> find_key k (filter P es) =
    (case find_key k es of None \<Rightarrow> None | Some e \<Rightarrow> if P e then Some e else None)"
proof (induction es)
  case (Cons e es)
  show ?case
  proof (cases "e_key e = k")
    case True
    with Cons.prems have "find_key k (filter P es) = None"
      by (simp add: find_key_None) (metis imageI)
    with True show ?thesis by simp
  next
    case False
    with Cons show ?thesis by simp
  qed
qed simp

lemma find_key_butlast: "find_key k (butlast es) = None \<or> find_key k (butlast es) = find_key k es"
  by (induction es) auto

lemma Get_state:
  "cache_inv c \<Longrightarrow> cache_inv (snd (Cache_Get now k c)) \<and>
    mru (snd (Cache_Get now k c)) = snd (spec_get (c_ttl c) now k (mru c)) \<and>
    fst (Cache_Get now k c) = fst (spec_get (c_ttl c) now k (mru c))"
  using Cache_Get_sim [of c now k "fst (Cache_Get now k c)" "snd (Cache_Get now k c)"]
  by (simp add: prod_eq_iff)

lemma tick_state:
  "cache_inv c \<Longrightarrow> cache_inv (cleanupLoop_tick now c) \<and>
    mru (cleanupLoop_tick now c) = (if c_stopped c then mru c else filter (live (c_ttl c) now) (mru c))"
  using Cache_Cleanup_sim [of c now] by (simp add: cleanupLoop_tick_def)

lemma find_key_self: "find_key k es = Some e \<Longrightarrow> e_key e = k"
  by (induction es) (auto split: if_splits)

lemma find_key_get:
  "find_key k' (snd (spec_get ttl now k es)) \<in> {None, find_key k' es}"
  by (auto simp: spec_get_def find_key_drop find_key_self split: option.splits)

lemma find_key_set:
  "find_key k' (spec_set ttl m now k v es) \<in> (if k' = k
     then {Some \<lparr>e_key = k, e_value = v, e_expiresAt = (if 0 < ttl then now + wrap64 (ttl * second) else 0)\<rparr>}
     else {None, find_key k' es})"
  using find_key_butlast [of k' es] by (auto simp: spec_set_def find_key_drop Let_def)

interpretation lru_cache: cache_adapter MemCache cleanupLoop_tick cache_inv cached
proof (unfold_locales, goal_cases)
  case (2 s now k)
  then show ?case using Get_state [of s now k]
    by (auto simp: MemCache_def cached_def spec_get_def split: option.splits)
next
  case (3 s now k k')
  then show ?case using Get_state [of s now k] find_key_get [of k' "c_ttl s" now k "mru s"]
    by (auto simp: MemCache_def cached_def)
next
  case (5 s now k v)
  then show ?case
    using Cache_Set_sim [of s now k v] find_key_set [of k "c_ttl s" "c_maxSize s" now k v "mru s"]
    by (simp add: MemCache_def cached_def)
next
  case (6 s k k' now v)
  then show ?case
    using Cache_Set_sim [of s now k v] find_key_set [of k' "c_ttl s" "c_maxSize s" now k v "mru s"]
    by (auto simp: MemCache_def cached_def)
next
  case (11 s now k')
  then show ?case using tick_state [of s now] mru_distinct [of s]
    by (auto simp: cached_def find_key_filter split: option.splits)
next
  case (12 s now k)
  then show ?case
    by (auto simp: MemCache_def Cache_Exists_def Cache_Has_def Cache_Get_def split: option.splits)
qed (simp_all add: MemCache_def Get_state Cache_Set_sim Cache_Delete_sim tick_state cached_def find_key_drop)

section \<open>What LRU order guarantees\<close>

text \<open>\<open>guarded K e es\<close>: the entry \<open>e\<close> is in the list, and everything more
  recent than it has its key in \<open>K\<close>.\<close>

definition guarded :: "string set \<Rightarrow> 'v entry \<Rightarrow> 'v entry list \<Rightarrow> bool" where
  "guarded K e es \<longleftrightarrow> (\<exists>pre post. es = pre @ e # post \<and> e_key ` set pre \<subseteq> K)"

lemma guarded_head [simp]: "guarded K e (e # es)"
  unfolding guarded_def by (rule exI [of _ "[]"]) simp

lemma guarded_Cons_drop:
  "guarded K e es \<Longrightarrow> e_key x \<in> K \<Longrightarrow> k \<noteq> e_key e \<Longrightarrow> guarded K e (x # drop_key k es)"
proof -
  assume "guarded K e es" "e_key x \<in> K" "k \<noteq> e_key e"
  then obtain pre post where "es = pre @ e # post" "e_key ` set pre \<subseteq> K" by (auto simp: guarded_def)
  with \<open>e_key x \<in> K\<close> \<open>k \<noteq> e_key e\<close>
  have "x # drop_key k es = (x # drop_key k pre) @ e # drop_key k post"
    "e_key ` set (x # drop_key k pre) \<subseteq> K" by (auto simp: drop_key_def)
  then show ?thesis unfolding guarded_def by blast
qed

lemma guarded_filter: "guarded K e es \<Longrightarrow> P e \<Longrightarrow> guarded K e (filter P es)"
proof -
  assume "guarded K e es" "P e"
  then obtain pre post where "es = pre @ e # post" "e_key ` set pre \<subseteq> K" by (auto simp: guarded_def)
  with \<open>P e\<close> have "filter P es = filter P pre @ e # filter P post" "e_key ` set (filter P pre) \<subseteq> K"
    by auto
  then show ?thesis unfolding guarded_def by blast
qed

lemma guarded_Cons: "guarded K e es \<Longrightarrow> e_key x \<in> K \<Longrightarrow> guarded K e (x # es)"
  unfolding guarded_def by (metis append_Cons image_insert insert_subset list.simps(15))

lemma guarded_butlast:
  assumes g: "guarded K e es" and d: "distinct (map e_key es)" and K: "finite K"
    and k: "k \<in> K" "find_key k es = None" and len: "card K < length es"
  shows "guarded K e (butlast es)"
proof -
  obtain pre post where es: "es = pre @ e # post" and pre: "e_key ` set pre \<subseteq> K"
    using g by (auto simp: guarded_def)
  have "post \<noteq> []"
  proof
    assume "post = []"
    have "length pre = card (e_key ` set pre)"
      using d es distinct_card [of "map e_key pre"] by simp
    also have "\<dots> \<le> card (K - {k})"
      using pre k es K by (intro card_mono) (auto simp: find_key_None)
    also have "\<dots> < card K" using K k(1) by (rule card_Diff1_less)
    finally show False using len es \<open>post = []\<close> by simp
  qed
  then have "butlast es = pre @ e # butlast post" by (simp add: es butlast_append)
  with pre show ?thesis unfolding guarded_def by blast
qed

fun cop_key_in :: "string set \<Rightarrow> 'v cache_op \<Rightarrow> bool" where
  "cop_key_in K (CGet now k) = (k \<in> K)"
| "cop_key_in K (CSet now k v) = (k \<in> K)"
| "cop_key_in K (CDelete k) = (k \<in> K)"
| "cop_key_in K (CTick now) = True"

fun cop_tick_by :: "gotime \<Rightarrow> 'v cache_op \<Rightarrow> bool" where
  "cop_tick_by n (CTick now) = (now \<le> n)"
| "cop_tick_by n p = True"

lemma run_cop_config:
  "c_ttl (run_cop MemCache cleanupLoop_tick p c) = c_ttl c \<and>
   c_maxSize (run_cop MemCache cleanupLoop_tick p c) = c_maxSize c"
proof -
  have f: "c_ttl (fold (\<lambda>a c'. if item_expired now c' a then removeElement a c' else c') xs c) = c_ttl c \<and>
      c_maxSize (fold (\<lambda>a c'. if item_expired now c' a then removeElement a c' else c') xs c) = c_maxSize c"
    for xs now by (induction xs arbitrary: c) (auto simp: removeElement_def)
  show ?thesis
    by (cases p) (auto simp: MemCache_def Cache_Get_def Cache_Set_def Cache_Delete_def Let_def
        removeElement_def MoveToFront_def cleanupLoop_tick_def Cache_Cleanup_def f split: option.splits)
qed

lemma guarded_step:
  assumes c: "cache_inv c" and g: "guarded K e (mru c)" and K: "finite K" "e_key e \<notin> K"
    and room: "0 < c_maxSize c \<longrightarrow> int (card K) < c_maxSize c"
    and l: "live (c_ttl c) n e" and p: "cop_key_in K p" "cop_tick_by n p"
  shows "guarded K e (mru (run_cop MemCache cleanupLoop_tick p c))"
proof (cases p)
  case (CGet now k)
  then have k: "k \<in> K" "k \<noteq> e_key e" using p K by auto
  have "guarded K e (snd (spec_get (c_ttl c) now k (mru c)))"
    using g guarded_Cons_drop [OF g _ k(2)] guarded_filter [OF g, of "\<lambda>x. e_key x \<noteq> k"] k
    by (auto simp: spec_get_def drop_key_def find_key_self split: option.splits)
  then show ?thesis using Get_state [OF c, of now k] CGet by (simp add: MemCache_def)
next
  case (CSet now k v)
  then have k: "k \<in> K" "k \<noteq> e_key e" using p K by auto
  have len: "c_maxSize c \<le> int (length (mru c)) \<Longrightarrow> 0 < c_maxSize c \<Longrightarrow> card K < length (mru c)"
    using room by linarith
  have "guarded K e (spec_set (c_ttl c) (c_maxSize c) now k v (mru c))"
    using guarded_Cons_drop [OF g _ k(2)] guarded_Cons [OF g] k(1)
      guarded_Cons [OF guarded_butlast [OF g mru_distinct [OF c] K(1) k(1) _ len]]
    by (auto simp: spec_set_def Let_def)
  then show ?thesis using Cache_Set_sim [OF c, of now k v] CSet by (simp add: MemCache_def)
next
  case (CDelete k)
  then show ?thesis
    using p K guarded_filter [OF g, of "\<lambda>x. e_key x \<noteq> k"] Cache_Delete_sim(2) [OF c, of k]
    by (auto simp: MemCache_def drop_key_def)
next
  case (CTick now)
  then have "live (c_ttl c) now e" using l p by (auto simp: live_def)
  then show ?thesis using tick_state [OF c, of now] g guarded_filter [OF g] CTick by simp
qed

lemma guarded_run:
  assumes "cache_inv c" and "guarded K e (mru c)" and "finite K" "e_key e \<notin> K"
    and "0 < c_maxSize c \<longrightarrow> int (card K) < c_maxSize c" and "live (c_ttl c) n e"
    and "\<forall>p \<in> set ops. cop_key_in K p \<and> cop_tick_by n p"
  shows "guarded K e (mru (fold (run_cop MemCache cleanupLoop_tick) ops c)) \<and>
    cache_inv (fold (run_cop MemCache cleanupLoop_tick) ops c) \<and>
    c_ttl (fold (run_cop MemCache cleanupLoop_tick) ops c) = c_ttl c"
  using assms
proof (induction ops arbitrary: c)
  case (Cons p ops)
  show ?case
    using Cons.IH [of "run_cop MemCache cleanupLoop_tick p c"] Cons.prems run_cop_config [of p c]
      lru_cache.run_inv [of c p] guarded_step [of c K e n p] by simp
qed simp

section \<open>Properties\<close>

text \<open>
  C16: every call on the in-memory cache keeps the representation invariant (the map and the list
  hold the same entries, each once, and at most \<open>maxSize\<close> of them) and acts on the list of
  entries ordered by recency exactly as the LRU specification says: \<open>Get\<close> returns a live
  value and moves it to the front, or drops an expired one; \<open>Set\<close> puts the new entry at
  the front and evicts the last one when the cache is full; \<open>Delete\<close> and
  \<open>Cleanup\<close> remove what they should and nothing else.
\<close>

theorem cache_refines_lru:
  assumes "cache_inv c"
  shows "cache_inv (snd (Cache_Get now k c)) \<and> cache_inv (Cache_Set now k v c) \<and>
      cache_inv (Cache_Delete k c) \<and> cache_inv (Cache_Cleanup now c) \<and> cache_inv (Cache_Clear c) \<and>
    (fst (Cache_Get now k c), mru (snd (Cache_Get now k c))) = spec_get (c_ttl c) now k (mru c) \<and>
    mru (Cache_Set now k v c) = spec_set (c_ttl c) (c_maxSize c) now k v (mru c) \<and>
    mru (Cache_Delete k c) = drop_key k (mru c) \<and>
    mru (Cache_Cleanup now c) = filter (live (c_ttl c) now) (mru c) \<and>
    mru (Cache_Clear c) = [] \<and>
    (Cache_Has now k c \<longleftrightarrow> fst (spec_get (c_ttl c) now k (mru c)) \<noteq> None) \<and>
    Cache_Size c = length (mru c)"
proof -
  have "cache_inv (Cache_Clear c) \<and> mru (Cache_Clear c) = []"
    using assms by (simp add: cache_inv_def Cache_Clear_def mru_def)
  then show ?thesis
    using Get_state [OF assms, of now k] Cache_Set_sim [OF assms, of now k v]
      Cache_Delete_sim [OF assms, of k] Cache_Cleanup_sim [OF assms, of now]
      lru_cache.exists_get [OF assms, of now k] inv_length [OF assms]
    by (simp add: prod_eq_iff MemCache_def Cache_Exists_def Cache_Size_def mru_def)
qed

theorem cache_refines_lru_witness:
  "map e_key (mru (Cache_Set 3 ''c'' (7::int) (snd (Cache_Get 2 ''a'' (Cache_Set 1 ''b'' 6
     (Cache_Set 0 ''a'' 5 (NewCache (\<lambda>_. \<lparr>e_key = [], e_value = 0, e_expiresAt = 0\<rparr>) 60 2)))))))
   = [''c'', ''a'']"
proof -
  let ?c0 = "NewCache (\<lambda>_. \<lparr>e_key = [], e_value = 0 :: int, e_expiresAt = 0\<rparr>) 60 2"
  have i0: "cache_inv ?c0" by (simp add: cache_inv_def NewCache_def)
  let ?c1 = "Cache_Set 0 ''a'' 5 ?c0" let ?c2 = "Cache_Set 1 ''b'' 6 ?c1"
  let ?c3 = "snd (Cache_Get 2 ''a'' ?c2)"
  have i1: "cache_inv ?c1" using cache_refines_lru [OF i0] by blast
  have i2: "cache_inv ?c2" using cache_refines_lru [OF i1] by blast
  have i3: "cache_inv ?c3" using cache_refines_lru [OF i2] by blast
  have "mru (Cache_Set 3 ''c'' 7 ?c3) = spec_set (c_ttl ?c3) (c_maxSize ?c3) 3 ''c'' 7 (mru ?c3)"
    using cache_refines_lru [OF i3] by blast
  then show ?thesis
    by (simp add: spec_set_def NewCache_def Cache_Set_def Cache_Get_def MoveToFront_def mru_def
        item_expired_def new_expiresAt_def wrap64_def Let_def removeElement_def)
qed

text \<open>
  The cache never invents a value.  In any history from a cache without the key, a
  \<open>Get\<close> returns nothing or the value of the last \<open>Set\<close> of that key that no
  \<open>Delete\<close> followed.
\<close>

theorem cache_coherent:
  assumes "cache_inv c" and "cached c k = None"
  shows "fst (Cache_Get now k (fold (run_cop MemCache cleanupLoop_tick) ops c))
    \<in> {None, last_write k None ops}"
  using lru_cache.coherent [OF assms, of now ops] by (simp add: MemCache_def)

theorem cache_coherent_witness:
  "fst (Cache_Get 9 ''a'' (fold (run_cop MemCache cleanupLoop_tick) [CSet 1 ''a'' 5, CDelete ''a'']
     (NewCache (\<lambda>_. \<lparr>e_key = [], e_value = 0 :: int, e_expiresAt = 0\<rparr>) 60 2))) = None"
  using cache_coherent [of "NewCache (\<lambda>_. \<lparr>e_key = [], e_value = 0 :: int, e_expiresAt = 0\<rparr>) 60 2"
      "''a''" 9 "[CSet 1 ''a'' 5, CDelete ''a'']"]
  by (simp add: cache_inv_def NewCache_def cached_def mru_def)

text \<open>
  What \<open>maxSize\<close> buys.  A value stays readable until its time to live runs out as
  long as fewer than \<open>maxSize\<close> other keys are used after it was stored, however many
  calls there are on them: eviction only ever takes the least recently used entry.
\<close>

theorem recently_used_survives:
  assumes "cache_inv c" and "c_ttl c \<le> 9223372036"
    and "k \<notin> K" and "finite K" and "0 < c_maxSize c \<longrightarrow> int (card K) < c_maxSize c"
    and "\<forall>p \<in> set ops. cop_key_in K p \<and> cop_tick_by n p"
    and "0 < c_ttl c \<longrightarrow> n \<le> now + c_ttl c * second"
  shows "fst (Cache_Get n k (fold (run_cop MemCache cleanupLoop_tick) ops (Cache_Set now k v c))) = Some v"
proof -
  let ?e = "\<lparr>e_key = k, e_value = v,
             e_expiresAt = (if 0 < c_ttl c then now + wrap64 (c_ttl c * second) else 0)\<rparr>"
  let ?c1 = "Cache_Set now k v c" let ?c2 = "fold (run_cop MemCache cleanupLoop_tick) ops ?c1"
  have "guarded K ?e (spec_set (c_ttl c) (c_maxSize c) now k v (mru c))"
    by (simp add: spec_set_def Let_def)
  then have g: "guarded K ?e (mru ?c1)" using Cache_Set_sim [OF assms(1), of now k v] by simp
  have cfg: "c_ttl ?c1 = c_ttl c" "c_maxSize ?c1 = c_maxSize c"
    using run_cop_config [of "CSet now k v" c] by (simp_all add: MemCache_def)
  have l: "live (c_ttl ?c1) n ?e"
    using assms(2,7) by (auto simp: live_def cfg wrap64_nonneg_id)
  have i: "cache_inv ?c1" using Cache_Set_sim [OF assms(1)] by blast
  have "guarded K ?e (mru ?c2) \<and> cache_inv ?c2 \<and> c_ttl ?c2 = c_ttl ?c1"
    by (rule guarded_run [OF i g assms(4) _ _ l assms(6)]) (use assms(3,5) cfg in simp_all)
  then obtain pre post where m: "mru ?c2 = pre @ ?e # post" "e_key ` set pre \<subseteq> K"
    and i2: "cache_inv ?c2" "c_ttl ?c2 = c_ttl ?c1" unfolding guarded_def by blast
  have "find_key k (pre @ ?e # post) = Some ?e" using m(2) assms(3) by (induction pre) auto
  with Get_state [OF i2(1), of n k] i2(2) l m(1) show ?thesis by (simp add: spec_get_def)
qed

theorem recently_used_survives_witness:
  "fst (Cache_Get 100 ''a'' (fold (run_cop MemCache cleanupLoop_tick)
      [CSet 2 ''b'' 1, CSet 3 ''c'' 2, CGet 4 ''b'', CSet 5 ''c'' 9, CTick 60]
      (Cache_Set 1 ''a'' (5::int) (NewCache (\<lambda>_. \<lparr>e_key = [], e_value = 0, e_expiresAt = 0\<rparr>) 60 3)))) = Some 5"
  by (rule recently_used_survives [where K = "{''b'', ''c''}"])
    (simp_all add: cache_inv_def NewCache_def)

end
