(* ===== verification/Api.thy ===== *)
theory Api
  imports Multipart_Integrity Directory_Manager File_Listing Cache_LRU Audit_Writer Config
begin

text \<open>
  What the HTTP and the gRPC server share: the state of the whole process, the services lifted to
  it, and the parts of the Go library that the handlers use (\<open>strconv.ParseInt\<close>,
  \<open>http.ServeContent\<close>).  All services work on the same file system, database and lock, as
  \<open>main\<close> wires them.
\<close>

section \<open>strconv\<close>

fun digits :: "nat \<Rightarrow> string \<Rightarrow> nat option" where
  "digits n [] = Some n"
| "digits n (c # s) =
     (let k = of_char c :: nat in if 48 \<le> k \<and> k \<le> 57 then digits (10 * n + (k - 48)) s else None)"

text \<open>\<open>strconv.ParseInt(s, 10, 64)\<close> and \<open>strconv.Atoi\<close>: the value and whether
  there was an error.  A number out of range gives the nearest one that is not, with an error.\<close>

definition ParseInt :: "string \<Rightarrow> int \<times> bool" where
  "ParseInt s =
     (let neg = (s \<noteq> [] \<and> hd s = CHR ''-'');
          t = (if s \<noteq> [] \<and> (hd s = CHR ''-'' \<or> hd s = CHR ''+'') then tl s else s)
      in if t = [] then (0, True)
         else case digits 0 t of
           None \<Rightarrow> (0, True)
         | Some n \<Rightarrow>
             (let v = (if neg then - int n else int n)
              in if v > max_int64 then (max_int64, True) else if v < min_int64 then (min_int64, True) else (v, False)))"

section \<open>Requests and responses\<close>

datatype jval = JStr string | JInt int | JBool bool | JNull

record upload_file =
  uf_name :: string
  uf_size :: int
  uf_reader :: reader

text \<open>\<open>rq_json\<close> is the body as the JSON library decodes it, \<open>None\<close> when it is not an
  object; \<open>rq_file\<close> the file of the form.\<close>

record request =
  rq_method :: string
  rq_clientIP :: string
  rq_headers :: "(string \<times> string) list"
  rq_query :: "(string \<times> string) list"
  rq_form :: "(string \<times> string) list"
  rq_json :: "(string \<times> jval) list option"
  rq_file :: "upload_file option"

definition lookup_str :: "(string \<times> string) list \<Rightarrow> string \<Rightarrow> string" where
  "lookup_str kvs k = (case map_of kvs k of None \<Rightarrow> [] | Some v \<Rightarrow> v)"

abbreviation GetHeader :: "request \<Rightarrow> string \<Rightarrow> string" where "GetHeader rq \<equiv> lookup_str (rq_headers rq)"
abbreviation Query :: "request \<Rightarrow> string \<Rightarrow> string" where "Query rq \<equiv> lookup_str (rq_query rq)"
abbreviation PostForm :: "request \<Rightarrow> string \<Rightarrow> string" where "PostForm rq \<equiv> lookup_str (rq_form rq)"

definition DefaultQuery :: "request \<Rightarrow> string \<Rightarrow> string \<Rightarrow> string" where
  "DefaultQuery rq k dflt = (case map_of (rq_query rq) k of None \<Rightarrow> dflt | Some v \<Rightarrow> v)"

text \<open>The fields of a bound struct.  A field that is missing or null keeps its zero value, a value
  of another type is an error.\<close>

definition json_str :: "string \<Rightarrow> (string \<times> jval) list \<Rightarrow> string option option" where
  "json_str k obj = (case map_of obj k of
     None \<Rightarrow> Some None | Some JNull \<Rightarrow> Some None | Some (JStr s) \<Rightarrow> Some (Some s) | _ \<Rightarrow> None)"

definition json_int :: "string \<Rightarrow> (string \<times> jval) list \<Rightarrow> int option option" where
  "json_int k obj = (case map_of obj k of
     None \<Rightarrow> Some None | Some JNull \<Rightarrow> Some None | Some (JInt n) \<Rightarrow> if in_int64 n then Some (Some n) else None | _ \<Rightarrow> None)"

definition json_bool :: "string \<Rightarrow> (string \<times> jval) list \<Rightarrow> bool option option" where
  "json_bool k obj = (case map_of obj k of
     None \<Rightarrow> Some None | Some JNull \<Rightarrow> Some None | Some (JBool b) \<Rightarrow> Some (Some b) | _ \<Rightarrow> None)"

definition or_zero :: "string option \<Rightarrow> string" where
  "or_zero v = (case v of None \<Rightarrow> [] | Some s \<Rightarrow> s)"

datatype body =
    B_Error string
  | B_Message string
  | B_File FileMetadata
  | B_Meta "FileMetadata + DirectoryMetadata"
  | B_List FileListResult
  | B_Data bytes
  | B_Ranges "(int \<times> bytes) list"
  | B_Session string
  | B_MultipartSession string int
  | B_Progress int
  | B_MultipartProgress int int nat
  | B_Complete CompleteUploadResult
  | B_Part int int
  | B_NewKey ApiKey string
  | B_Key ApiKey
  | B_Keys "ApiKey list" int int
  | B_Audit "AuditLog list" int int
  | B_Token TokenPair
  | B_Health string "string option" "string option"
  | B_Empty

record response =
  re_code :: int
  re_body :: body
  re_headers :: "(string \<times> string) list"

abbreviation reply :: "int \<Rightarrow> body \<Rightarrow> response" where
  "reply code b \<equiv> \<lparr>re_code = code, re_body = b, re_headers = []\<rparr>"

definition sendError :: "int \<Rightarrow> string \<Rightarrow> response" where
  "sendError code msg = reply code (B_Error msg)"

definition sendInternalError :: "err \<Rightarrow> string \<Rightarrow> response" where
  "sendInternalError e publicMsg = reply 500 (B_Error (if publicMsg = [] then ''Internal server error'' else publicMsg))"

section \<open>http.ServeContent\<close>

text \<open>The part of the header after \<open>bytes=\<close>, one range after the other: \<open>None\<close> is a
  malformed header, the flag says that a range lay behind the end.\<close>

fun parse_ranges :: "int \<Rightarrow> string list \<Rightarrow> ((int \<times> int) list \<times> bool) option" where
  "parse_ranges sz [] = Some ([], False)"
| "parse_ranges sz (ra0 # ras) =
     (let ra = TrimSpace ra0
      in if ra = [] then parse_ranges sz ras
         else if CHR ''-'' \<notin> set ra then None
         else
           let s = TrimSpace (takeWhile (\<lambda>c. c \<noteq> CHR ''-'') ra); e = TrimSpace (drop 1 (dropWhile (\<lambda>c. c \<noteq> CHR ''-'') ra))
           in if s = [] then
                if e = [] \<or> hd e = CHR ''-'' then None
                else (case ParseInt e of (i, bad) \<Rightarrow>
                  if bad \<or> i < 0 then None
                  else let k = (if i > sz then sz else i)
                       in (case parse_ranges sz ras of None \<Rightarrow> None | Some (rs, no) \<Rightarrow> Some ((sz - k, k) # rs, no)))
              else (case ParseInt s of (i, bad) \<Rightarrow>
                if bad \<or> i < 0 then None
                else if i \<ge> sz then (case parse_ranges sz ras of None \<Rightarrow> None | Some (rs, no) \<Rightarrow> Some (rs, True))
                else if e = [] then (case parse_ranges sz ras of None \<Rightarrow> None | Some (rs, no) \<Rightarrow> Some ((i, sz - i) # rs, no))
                else (case ParseInt e of (j0, bad2) \<Rightarrow>
                  if bad2 \<or> i > j0 then None
                  else let j = (if j0 \<ge> sz then sz - 1 else j0)
                       in (case parse_ranges sz ras of None \<Rightarrow> None | Some (rs, no) \<Rightarrow> Some ((i, j - i + 1) # rs, no)))))"

definition byte_slice :: "int \<Rightarrow> int \<Rightarrow> bytes \<Rightarrow> bytes" where
  "byte_slice start len b = take (nat len) (drop (nat start) b)"

text \<open>The content has no modification time and no ETag, so that \<open>If-Match\<close> fails,
  \<open>If-None-Match: *\<close> finds the content unchanged, and \<open>If-Range\<close> never matches.\<close>

definition ServeContent :: "request \<Rightarrow> bytes \<Rightarrow> response" where
  "ServeContent rq content =
     (let sz = int (length content); whole = reply 200 (B_Data content);
          rh = (if GetHeader rq ''If-Range'' \<noteq> [] then [] else GetHeader rq ''Range'')
      in if GetHeader rq ''If-Match'' \<noteq> [] \<and> take 1 (TrimSpace (GetHeader rq ''If-Match'')) \<noteq> ''*'' then reply 412 B_Empty
         else if take 1 (TrimSpace (GetHeader rq ''If-None-Match'')) = ''*'' then reply 304 B_Empty
         else if rh = [] then whole
         else if \<not> HasPrefix rh ''bytes='' then sendError 416 ''invalid range''
         else case parse_ranges sz (Split (CHR '','') (drop 6 rh)) of
           None \<Rightarrow> sendError 416 ''invalid range''
         | Some (rs, no) \<Rightarrow>
             if rs = [] \<and> no then (if sz = 0 then whole else sendError 416 ''invalid range: failed to overlap'')
             else if sum_list (map snd rs) > sz then whole
             else (case rs of
               [] \<Rightarrow> whole
             | [(i, n)] \<Rightarrow> reply 206 (B_Data (byte_slice i n content))
             | _ \<Rightarrow> reply 206 (B_Ranges (map (\<lambda>(i, n). (i, byte_slice i n content)) rs))))"

section \<open>The state of the process\<close>

text \<open>A cached value keeps its dynamic type: the in-memory cache returns the \<open>gin.H\<close> that
  was stored, a cache that goes through JSON a plain \<open>map[string]interface{}\<close>.\<close>

datatype cached = GinH FileMetadata | JsonMap FileMetadata

record ('a, 'ss, 'l, 'c) api =
  ap_xf :: "('a, 'ss, 'l) xfer"
  ap_auth :: "db AuthService"
  ap_audit :: AuditWriter
  ap_cache :: 'c
  ap_inflight :: int

record 'l api_env =
  ae_fm :: "'l fm_env"
  ae_dm :: "'l dm_env"
  ae_xf :: "'l xf_env"
  ae_fl :: fl_env
  ae_now :: gotime
  ae_ts :: string
  ae_uuid :: string
  ae_uuid2 :: string
  ae_jwt :: jwt_lib
  ae_jwt_env :: jwt_env
  ae_sha :: "string \<Rightarrow> string"
  ae_order :: "string list"

record ('a, 'ss, 'l, 'c) Server =
  sv_config :: ServerConfig
  sv_fm :: "('a fs_scheme, 'l) FileManager"
  sv_dirSvc :: "('a fs_scheme, 'l) DirectoryManager"
  sv_transferSvc :: "('a, 'ss, 'l) FileTransferService"
  sv_cryptoSvc :: "CryptoService option"
  sv_store :: "'a fs_scheme StorageAdapter"
  sv_cacheSvc :: "('c, cached) CacheAdapter option"
  sv_corsOrigins :: string
  sv_maxUploadSize :: int
  sv_maxChunkSize :: int
  sv_maxPageSize :: int
  sv_semCap :: int

definition lift_xf :: "(('a, 'ss, 'l) xfer \<Rightarrow> 'r \<times> ('a, 'ss, 'l) xfer) \<Rightarrow> ('a, 'ss, 'l, 'c) api \<Rightarrow> 'r \<times> ('a, 'ss, 'l, 'c) api" where
  "lift_xf f w = (case f (ap_xf w) of (r, x) \<Rightarrow> (r, w\<lparr>ap_xf := x\<rparr>))"

definition lift_fm :: "(('a fs_scheme, 'l) fm_state \<Rightarrow> 'r \<times> ('a fs_scheme, 'l) fm_state) \<Rightarrow> ('a, 'ss, 'l, 'c) api \<Rightarrow> 'r \<times> ('a, 'ss, 'l, 'c) api" where
  "lift_fm f w =
     (let x = ap_xf w
      in case f \<lparr>w_store = xf_fs x, w_db = xf_db x, w_lock = xf_lock x\<rparr> of
           (r, v) \<Rightarrow> (r, w\<lparr>ap_xf := x\<lparr>xf_fs := w_store v, xf_db := w_db v, xf_lock := w_lock v\<rparr>\<rparr>))"

definition lift_dm :: "(('a fs_scheme, 'l) dm_state \<Rightarrow> 'r \<times> ('a fs_scheme, 'l) dm_state) \<Rightarrow> ('a, 'ss, 'l, 'c) api \<Rightarrow> 'r \<times> ('a, 'ss, 'l, 'c) api" where
  "lift_dm f w =
     (let x = ap_xf w
      in case f \<lparr>x_store = xf_fs x, x_db = xf_db x, x_lock = xf_lock x\<rparr> of
           (r, v) \<Rightarrow> (r, w\<lparr>ap_xf := x\<lparr>xf_fs := x_store v, xf_db := x_db v, xf_lock := x_lock v\<rparr>\<rparr>))"

definition lift_fs :: "('a fs_scheme \<Rightarrow> 'r \<times> 'a fs_scheme) \<Rightarrow> ('a, 'ss, 'l, 'c) api \<Rightarrow> 'r \<times> ('a, 'ss, 'l, 'c) api" where
  "lift_fs f w = (case f (xf_fs (ap_xf w)) of (r, s) \<Rightarrow> (r, w\<lparr>ap_xf := (ap_xf w)\<lparr>xf_fs := s\<rparr>\<rparr>))"

definition lift_db :: "(db \<Rightarrow> 'r \<times> db) \<Rightarrow> ('a, 'ss, 'l, 'c) api \<Rightarrow> 'r \<times> ('a, 'ss, 'l, 'c) api" where
  "lift_db f w = (case f (xf_db (ap_xf w)) of (r, d) \<Rightarrow> (r, w\<lparr>ap_xf := (ap_xf w)\<lparr>xf_db := d\<rparr>\<rparr>))"

end
