(* ===== verification/Http_Handlers.thy ===== *)
theory Http_Handlers
  imports Api
begin

text \<open>
  \<open>src/internal/api/http/server.go\<close>: the handlers.  A handler takes the request, the user that
  the authentication put into the context, and the state of the process, and gives the response and
  the new state.  The router, the parsing of forms and JSON and the writing of responses belong to
  gin.
\<close>

section \<open>Server\<close>

definition NewServer ::
  "ServerConfig \<Rightarrow> ('a fs_scheme, 'l) FileManager \<Rightarrow> ('a fs_scheme, 'l) DirectoryManager \<Rightarrow> ('a, 'ss, 'l) FileTransferService \<Rightarrow>
   CryptoService option \<Rightarrow> 'a fs_scheme StorageAdapter \<Rightarrow> ('c, cached) CacheAdapter option \<Rightarrow> ('a, 'ss, 'l, 'c) Server"
where
  "NewServer cfg fm dirSvc transferSvc cryptoSvc store cacheSvc =
     (let workers = (if sc_Workers cfg < 1 then 8 else sc_Workers cfg)
      in \<lparr>sv_config = cfg, sv_fm = fm, sv_dirSvc = dirSvc, sv_transferSvc = transferSvc, sv_cryptoSvc = cryptoSvc,
          sv_store = store, sv_cacheSvc = cacheSvc, sv_corsOrigins = sc_CORSAllowedOrigins cfg,
          sv_maxUploadSize = wrap64 (sc_MaxUploadSizeMB cfg * 1048576), sv_maxChunkSize = wrap64 (sc_MaxChunkSizeMB cfg * 1048576),
          sv_maxPageSize = sc_MaxPageSize cfg, sv_semCap = wrap64 (workers * 4)\<rparr>)"

definition crypto_on :: "('a, 'ss, 'l, 'c) Server \<Rightarrow> CryptoService option" where
  "crypto_on sv = (case sv_cryptoSvc sv of Some cs \<Rightarrow> if cs_enabled cs then Some cs else None | None \<Rightarrow> None)"

definition show_bool :: "bool \<Rightarrow> string" where
  "show_bool b = (if b then ''true'' else ''false'')"

definition auditLog :: "'l api_env \<Rightarrow> request \<Rightarrow> string \<Rightarrow> string \<Rightarrow> string \<Rightarrow> ('a, 'ss, 'l, 'c) api \<Rightarrow> ('a, 'ss, 'l, 'c) api" where
  "auditLog env rq operation resourcePath details w =
     (let userIdentifier = (if GetHeader rq ''X-API-Key'' \<noteq> [] then ''api-key:***''
            else if HasPrefix (GetHeader rq ''Authorization'') ''Bearer '' then ''bearer:***'' else ''anonymous'')
      in w\<lparr>ap_audit := snd (Submit \<lparr>al_ID = ae_uuid2 env, al_Timestamp = ae_ts env, al_Operation = operation,
           al_ResourcePath = resourcePath, al_UserIdentifier = userIdentifier, al_ClientIP = rq_clientIP rq,
           al_UserAgent = GetHeader rq ''User-Agent'', al_Success = True, al_Details = details\<rparr> (ap_audit w))\<rparr>)"

section \<open>Health\<close>

definition handleHealthCheck :: "('a, 'ss, 'l, 'c) Server \<Rightarrow> bool \<Rightarrow> ('a, 'ss, 'l, 'c) api \<Rightarrow> response \<times> ('a, 'ss, 'l, 'c) api" where
  "handleHealthCheck sv includeStorage w =
     (case lift_db (db_QueryRow (\<lambda>_. [1 :: int])) w of (r, w1) \<Rightarrow>
        let database = (case r of Inl e \<Rightarrow> ''error'' | Inr _ \<Rightarrow> ''ok'');
            storage = (if includeStorage then
                         Some (case sa_GetSize (sv_store sv) ''.health-probe'' (xf_fs (ap_xf w1)) of
                                 Inl e \<Rightarrow> if \<not> IsNotExist (Some e) then ''error'' else ''ok''
                               | Inr _ \<Rightarrow> ''ok'')
                       else None);
            status = (if database = ''error'' \<or> storage = Some ''error'' then ''degraded'' else ''ok'')
        in (reply (if status \<noteq> ''ok'' then 503 else 200) (B_Health status (Some database) storage), w1))"

definition handleHealth :: "('a, 'ss, 'l, 'c) Server \<Rightarrow> ('a, 'ss, 'l, 'c) api \<Rightarrow> response \<times> ('a, 'ss, 'l, 'c) api" where
  "handleHealth sv w = handleHealthCheck sv False w"

definition handleReady :: "('a, 'ss, 'l, 'c) Server \<Rightarrow> ('a, 'ss, 'l, 'c) api \<Rightarrow> response \<times> ('a, 'ss, 'l, 'c) api" where
  "handleReady sv w = handleHealthCheck sv True w"

section \<open>Files\<close>

abbreviation smallUploadThreshold :: int where "smallUploadThreshold \<equiv> 1048576"

definition too_large :: response where
  "too_large = sendError 413 ''File size exceeds maximum allowed size''"

definition upload_reply ::
  "'l api_env \<Rightarrow> request \<Rightarrow> string \<Rightarrow> FileMetadata res \<times> ('a, 'ss, 'l, 'c) api \<Rightarrow> response \<times> ('a, 'ss, 'l, 'c) api"
where
  "upload_reply env rq filePath x =
     (case x of
        (Inl e, w1) \<Rightarrow> (sendInternalError e ''Failed to upload file'', w1)
      | (Inr meta, w1) \<Rightarrow> (reply 201 (B_File meta), auditLog env rq ''upload'' filePath [] w1))"

definition upload_encrypted ::
  "('a, 'ss, 'l, 'c) Server \<Rightarrow> 'l api_env \<Rightarrow> request \<Rightarrow> CryptoService \<Rightarrow> reader \<Rightarrow> string \<Rightarrow> ('a, 'ss, 'l, 'c) api
    \<Rightarrow> response \<times> ('a, 'ss, 'l, 'c) api"
where
  "upload_encrypted sv env rq cs file filePath w =
     (case ReadAll (LimitReader file (wrap64 (sv_maxUploadSize sv + 1))) of
        Inl e \<Rightarrow> (sendError 500 ''Failed to read file data'', w)
      | Inr data \<Rightarrow>
          if int (length data) > sv_maxUploadSize sv then (too_large, w)
          else (case Encrypt (xe_gcm (ae_xf env)) (xe_rnd (ae_xf env)) cs data of
             Inl e \<Rightarrow> (sendError 500 ''Failed to encrypt file'', w)
           | Inr encrypted \<Rightarrow> upload_reply env rq filePath (lift_fm (UploadFile (sv_fm sv) (ae_fm env) filePath encrypted) w)))"

definition upload_small ::
  "('a, 'ss, 'l, 'c) Server \<Rightarrow> 'l api_env \<Rightarrow> request \<Rightarrow> reader \<Rightarrow> string \<Rightarrow> ('a, 'ss, 'l, 'c) api \<Rightarrow> response \<times> ('a, 'ss, 'l, 'c) api"
where
  "upload_small sv env rq file filePath w =
     (case ReadAll (LimitReader file (smallUploadThreshold + 1)) of
        Inl e \<Rightarrow> (sendError 500 ''Failed to read file data'', w)
      | Inr data \<Rightarrow>
          if int (length data) > smallUploadThreshold then (sendError 413 ''Inline upload size exceeds the limit'', w)
          else upload_reply env rq filePath (lift_fm (UploadFile (sv_fm sv) (ae_fm env) filePath data) w))"

definition upload_large ::
  "('a, 'ss, 'l, 'c) Server \<Rightarrow> 'l api_env \<Rightarrow> request \<Rightarrow> reader \<Rightarrow> string \<Rightarrow> ('a, 'ss, 'l, 'c) api \<Rightarrow> response \<times> ('a, 'ss, 'l, 'c) api"
where
  "upload_large sv env rq file filePath w =
     (case lift_fm (UploadFileFromReader (sv_fm sv) (ae_fm env) filePath (LimitReader file (wrap64 (sv_maxUploadSize sv + 1)))) w of
        (Inl e, w1) \<Rightarrow> (sendInternalError e ''Failed to upload file'', w1)
      | (Inr meta, w1) \<Rightarrow>
          if fm_Size meta > sv_maxUploadSize sv
          then (too_large, snd (lift_fm (DeleteFile (sv_fm sv) (ae_fm env) filePath) w1))
          else (reply 201 (B_File meta), auditLog env rq ''upload'' filePath [] w1))"

definition handleUpload ::
  "('a, 'ss, 'l, 'c) Server \<Rightarrow> 'l api_env \<Rightarrow> request \<Rightarrow> ('a, 'ss, 'l, 'c) api \<Rightarrow> response \<times> ('a, 'ss, 'l, 'c) api"
where
  "handleUpload sv env rq w =
     (case rq_file rq of
        None \<Rightarrow> (sendError 400 ''No file provided'', w)
      | Some f \<Rightarrow>
          if uf_size f > sv_maxUploadSize sv then (too_large, w)
          else if \<not> IsValidFileName (uf_name f) then (sendError 400 ''Invalid file name'', w)
          else
            let filePath = (if PostForm rq ''path'' = [] then ''/'' @ uf_name f else PostForm rq ''path'')
            in if \<not> IsValidFilePath filePath then (sendError 400 ''Invalid file path'', w)
               else (case crypto_on sv of
                 Some cs \<Rightarrow> upload_encrypted sv env rq cs (uf_reader f) filePath w
               | None \<Rightarrow>
                   if uf_size f \<ge> 0 \<and> uf_size f \<le> smallUploadThreshold then upload_small sv env rq (uf_reader f) filePath w
                   else upload_large sv env rq (uf_reader f) filePath w))"

definition range_of_header :: "int \<Rightarrow> string \<Rightarrow> (int \<times> int) option" where
  "range_of_header sz rangeHeader =
     (case Split (CHR ''-'') (TrimPrefix rangeHeader ''bytes='') of
        [a, b] \<Rightarrow>
          if a = [] then
            (case ParseInt b of (suffixLength, bad) \<Rightarrow> if bad then None else Some (wrap64 (sz - suffixLength), wrap64 (sz - 1)))
          else
            (case ParseInt a of (start, bad) \<Rightarrow>
               if bad then None
               else if b = [] then Some (start, wrap64 (sz - 1))
               else (case ParseInt b of (end, bad2) \<Rightarrow> if bad2 then None else Some (start, end)))
      | _ \<Rightarrow> None)"

definition handleRangeDownload ::
  "('a, 'ss, 'l, 'c) Server \<Rightarrow> FileMetadata \<Rightarrow> string \<Rightarrow> ('a, 'ss, 'l, 'c) api \<Rightarrow> response \<times> ('a, 'ss, 'l, 'c) api"
where
  "handleRangeDownload sv meta rangeHeader w =
     (case range_of_header (fm_Size meta) rangeHeader of
        None \<Rightarrow> (sendError 416 ''Invalid range'', w)
      | Some (start, end) \<Rightarrow>
          if start < 0 \<or> start \<ge> fm_Size meta \<or> end \<ge> fm_Size meta \<or> start > end
          then (sendError 416 ''Range out of bounds'', w)
          else
            let chunkSize = wrap64 (end - start + 1)
            in if chunkSize > 33554432 then (sendError 416 ''Range too large, maximum 32MB per request'', w)
               else (case lift_fm (DownloadFileDataAt (sv_fm sv) (Some meta) chunkSize start) w of
                 (Inl e, w1) \<Rightarrow> (sendError 500 ''Failed to read file range'', w1)
               | (Inr data, w1) \<Rightarrow>
                   (\<lparr>re_code = 206, re_body = B_Data data,
                     re_headers = [(''Content-Range'', ''bytes '' @ itoa start @ ''-'' @ itoa end @ ''/'' @ itoa (fm_Size meta))]\<rparr>, w1)))"

definition handleEncryptedDownload ::
  "('a, 'ss, 'l, 'c) Server \<Rightarrow> 'l api_env \<Rightarrow> request \<Rightarrow> CryptoService \<Rightarrow> string \<Rightarrow> 'a fs_scheme \<Rightarrow> response \<times> 'a fs_scheme"
where
  "handleEncryptedDownload sv env rq cs filePath f =
     (let tempDir = ts_tempDir (sv_transferSvc sv);
          encTempPath = path_Join [tempDir, ae_uuid env @ ''.enc'']; decTempPath = path_Join [tempDir, ae_uuid env @ ''.dec''];
          cleanup = (\<lambda>f. rm decTempPath (rm encTempPath f))
      in case os_Create encTempPath f of
        (Inl e, f1) \<Rightarrow> (sendError 500 ''Failed to create temp file'', f1)
      | (Inr _, f1) \<Rightarrow>
     (case sa_OpenReader (sv_store sv) filePath f1 of
        (Inl e, f2) \<Rightarrow> (sendError 500 ''Failed to open encrypted file'', rm encTempPath f2)
      | (Inr rd, f2) \<Rightarrow>
     (case file_WriteAt encTempPath (rd_data rd) 0 f2 of
        (Inl e, f3) \<Rightarrow> (sendError 500 ''Failed to stream encrypted file'', cleanup f3)
      | (Inr _, f3) \<Rightarrow>
     (case rd_err rd of
        Some e \<Rightarrow> (sendError 500 ''Failed to stream encrypted file'', cleanup f3)
      | None \<Rightarrow>
     (case DecryptFileStreaming (xe_gcm (ae_xf env)) cs encTempPath decTempPath f3 of
        (Inl e, f4) \<Rightarrow> (sendError 500 ''Failed to decrypt file'', cleanup f4)
      | (Inr _, f4) \<Rightarrow>
     (case os_Stat decTempPath f4 of
        Inr (FFile content) \<Rightarrow> (ServeContent rq content, cleanup f4)
      | _ \<Rightarrow> (sendError 500 ''Failed to open decrypted file'', cleanup f4)))))))"

definition handleDownload ::
  "('a, 'ss, 'l, 'c) Server \<Rightarrow> 'l api_env \<Rightarrow> request \<Rightarrow> string \<Rightarrow> ('a, 'ss, 'l, 'c) api \<Rightarrow> response \<times> ('a, 'ss, 'l, 'c) api"
where
  "handleDownload sv env rq path w =
     (if path = [] then (sendError 400 ''File path is required'', w)
      else if \<not> IsValidFilePath path then (sendError 400 ''Invalid file path'', w)
      else
        let filePath = NormalizePath path
        in case lift_db (GetFileMetadata filePath) w of
             (Inl e, w1) \<Rightarrow> (sendError 404 ''File not found'', w1)
           | (Inr meta, w1) \<Rightarrow>
               (case crypto_on sv of
                  Some cs \<Rightarrow> lift_fs (handleEncryptedDownload sv env rq cs filePath) w1
                | None \<Rightarrow>
                    if GetHeader rq ''Range'' \<noteq> [] then handleRangeDownload sv meta (GetHeader rq ''Range'') w1
                    else if fm_Size meta > 33554432 then
                      (case lift_fs (sa_OpenReader (sv_store sv) filePath) w1 of
                         (Inl e, w2) \<Rightarrow> (sendError 500 ''Failed to open file'', w2)
                       | (Inr rd, w2) \<Rightarrow> (ServeContent rq (rd_data rd), w2))
                    else
                      (case lift_fm (DownloadFileData (sv_fm sv) (Some meta)) w1 of
                         (Inl e, w2) \<Rightarrow> (sendError 500 ''Failed to read file'', w2)
                       | (Inr data, w2) \<Rightarrow> (reply 200 (B_Data data), w2))))"

text \<open>The page and the page size that the list handlers read from the query.\<close>

definition query_page :: "('a, 'ss, 'l, 'c) Server \<Rightarrow> request \<Rightarrow> int \<times> int" where
  "query_page sv rq =
     (let page = fst (ParseInt (DefaultQuery rq ''page'' ''1'')); pageSize0 = fst (ParseInt (DefaultQuery rq ''page_size'' ''20''));
          pageSize1 = (if pageSize0 > sv_maxPageSize sv then sv_maxPageSize sv else pageSize0)
      in (if page < 1 then 1 else page, if pageSize1 < 1 then 20 else pageSize1))"

definition handleList ::
  "('a, 'ss, 'l, 'c) Server \<Rightarrow> 'l api_env \<Rightarrow> request \<Rightarrow> ('a, 'ss, 'l, 'c) api \<Rightarrow> response \<times> ('a, 'ss, 'l, 'c) api"
where
  "handleList sv env rq w =
     (let dirPath = Query rq ''path''; recursive = (Query rq ''recursive'' = ''true''); includeTotal = (Query rq ''include_total'' = ''true'')
      in if dirPath \<noteq> [] \<and> \<not> IsValidFilePath dirPath then (sendError 400 ''Invalid directory path'', w)
         else (case query_page sv rq of (page, pageSize) \<Rightarrow>
           (case lift_db (if includeTotal
                 then ListFilesWithTotal (ae_fl env) dirPath recursive page pageSize (DefaultQuery rq ''sort_by'' ''name'') (DefaultQuery rq ''sort_order'' ''asc'')
                 else ListFiles (ae_fl env) dirPath recursive page pageSize (DefaultQuery rq ''sort_by'' ''name'') (DefaultQuery rq ''sort_order'' ''asc'')) w of
              (Inl e, w1) \<Rightarrow> (sendInternalError e ''Internal server error'', w1)
            | (Inr result, w1) \<Rightarrow> (reply 200 (B_List result), w1))))"

text \<open>The answer to a call without a result.\<close>

definition done_reply ::
  "int \<Rightarrow> string \<Rightarrow> (('a, 'ss, 'l, 'c) api \<Rightarrow> ('a, 'ss, 'l, 'c) api) \<Rightarrow> unit res \<times> ('a, 'ss, 'l, 'c) api \<Rightarrow> response \<times> ('a, 'ss, 'l, 'c) api"
where
  "done_reply code msg audit x =
     (case x of
        (Inl e, w1) \<Rightarrow> (sendInternalError e ''Internal server error'', w1)
      | (Inr _, w1) \<Rightarrow> (reply code (B_Message msg), audit w1))"

definition handleDelete ::
  "('a, 'ss, 'l, 'c) Server \<Rightarrow> 'l api_env \<Rightarrow> request \<Rightarrow> string \<Rightarrow> ('a, 'ss, 'l, 'c) api \<Rightarrow> response \<times> ('a, 'ss, 'l, 'c) api"
where
  "handleDelete sv env rq filePath w =
     (if filePath = [] then (sendError 400 ''File path is required'', w)
      else if \<not> IsValidFilePath filePath then (sendError 400 ''Invalid file path'', w)
      else done_reply 200 ''File deleted successfully'' (auditLog env rq ''delete'' filePath [])
        (lift_fm (DeleteFile (sv_fm sv) (ae_fm env) filePath) w))"

text \<open>\<open>new_name\<close> comes from the form or from a JSON body.\<close>

definition new_name :: "request \<Rightarrow> string" where
  "new_name rq =
     (if PostForm rq ''new_name'' \<noteq> [] then PostForm rq ''new_name''
      else case rq_json rq of
        None \<Rightarrow> []
      | Some obj \<Rightarrow> (case json_str ''new_name'' obj of Some v \<Rightarrow> or_zero v | None \<Rightarrow> []))"

definition handleRename ::
  "('a, 'ss, 'l, 'c) Server \<Rightarrow> 'l api_env \<Rightarrow> request \<Rightarrow> string \<Rightarrow> ('a, 'ss, 'l, 'c) api \<Rightarrow> response \<times> ('a, 'ss, 'l, 'c) api"
where
  "handleRename sv env rq filePath w =
     (let newName = new_name rq
      in if filePath = [] then (sendError 400 ''File path is required'', w)
         else if \<not> IsValidFilePath filePath then (sendError 400 ''Invalid file path'', w)
         else if newName = [] then (sendError 400 ''New name is required'', w)
         else if \<not> IsValidFileName newName then (sendError 400 ''Invalid file name'', w)
         else done_reply 200 ''File renamed successfully'' (auditLog env rq ''rename'' filePath (''new_name='' @ newName))
           (lift_fm (RenameFile (sv_fm sv) (ae_fm env) filePath newName) w))"

section \<open>Directories and metadata\<close>

definition handleCreateDirectory ::
  "('a, 'ss, 'l, 'c) Server \<Rightarrow> 'l api_env \<Rightarrow> request \<Rightarrow> ('a, 'ss, 'l, 'c) api \<Rightarrow> response \<times> ('a, 'ss, 'l, 'c) api"
where
  "handleCreateDirectory sv env rq w =
     (let path = (case rq_json rq of None \<Rightarrow> [] | Some obj \<Rightarrow> (case json_str ''path'' obj of Some v \<Rightarrow> or_zero v | None \<Rightarrow> []))
      in if path = [] then (sendError 400 ''Directory path is required'', w)
         else if \<not> IsValidFilePath path then (sendError 400 ''Invalid directory path'', w)
         else done_reply 201 ''Directory created successfully'' (auditLog env rq ''create_directory'' path [])
           (lift_dm (CreateDirectory (sv_dirSvc sv) (ae_dm env) path) w))"

definition handleDeleteDirectory ::
  "('a, 'ss, 'l, 'c) Server \<Rightarrow> 'l api_env \<Rightarrow> request \<Rightarrow> string \<Rightarrow> ('a, 'ss, 'l, 'c) api \<Rightarrow> response \<times> ('a, 'ss, 'l, 'c) api"
where
  "handleDeleteDirectory sv env rq dirPath w =
     (if dirPath = [] then (sendError 400 ''Directory path is required'', w)
      else if \<not> IsValidFilePath dirPath then (sendError 400 ''Invalid directory path'', w)
      else
        let recursive = (Query rq ''recursive'' = ''true'')
        in done_reply 200 ''Directory deleted successfully'' (auditLog env rq ''delete_directory'' dirPath (''recursive='' @ show_bool recursive))
             (lift_dm (DeleteDirectory (sv_dirSvc sv) (ae_dm env) dirPath recursive) w))"

definition handleRenameDirectory ::
  "('a, 'ss, 'l, 'c) Server \<Rightarrow> 'l api_env \<Rightarrow> request \<Rightarrow> string \<Rightarrow> ('a, 'ss, 'l, 'c) api \<Rightarrow> response \<times> ('a, 'ss, 'l, 'c) api"
where
  "handleRenameDirectory sv env rq dirPath w =
     (let newName = new_name rq
      in if dirPath = [] then (sendError 400 ''Directory path is required'', w)
         else if \<not> IsValidFilePath dirPath then (sendError 400 ''Invalid directory path'', w)
         else if newName = [] then (sendError 400 ''New name is required'', w)
         else if \<not> IsValidFileName newName then (sendError 400 ''Invalid directory name'', w)
         else done_reply 200 ''Directory renamed successfully'' (auditLog env rq ''rename_directory'' dirPath (''new_name='' @ newName))
           (lift_dm (RenameDirectory (sv_dirSvc sv) (ae_dm env) dirPath newName) w))"

text \<open>The two type assertions on what the cache returns: only a plain map is taken.\<close>

definition cache_lookup :: "('a, 'ss, 'l, 'c) Server \<Rightarrow> gotime \<Rightarrow> string \<Rightarrow> ('a, 'ss, 'l, 'c) api \<Rightarrow> FileMetadata option \<times> ('a, 'ss, 'l, 'c) api" where
  "cache_lookup sv now key w =
     (case sv_cacheSvc sv of
        None \<Rightarrow> (None, w)
      | Some ca \<Rightarrow>
          (case ca_Get ca now key (ap_cache w) of
             (Some (JsonMap m), c1) \<Rightarrow> (Some m, w\<lparr>ap_cache := c1\<rparr>)
           | (_, c1) \<Rightarrow> (None, w\<lparr>ap_cache := c1\<rparr>)))"

definition cache_store :: "('a, 'ss, 'l, 'c) Server \<Rightarrow> gotime \<Rightarrow> string \<Rightarrow> FileMetadata \<Rightarrow> ('a, 'ss, 'l, 'c) api \<Rightarrow> ('a, 'ss, 'l, 'c) api" where
  "cache_store sv now key m w =
     (case sv_cacheSvc sv of None \<Rightarrow> w | Some ca \<Rightarrow> w\<lparr>ap_cache := ca_Set ca now key (GinH m) (ap_cache w)\<rparr>)"

definition handleGetMetadata ::
  "('a, 'ss, 'l, 'c) Server \<Rightarrow> 'l api_env \<Rightarrow> request \<Rightarrow> string \<Rightarrow> ('a, 'ss, 'l, 'c) api \<Rightarrow> response \<times> ('a, 'ss, 'l, 'c) api"
where
  "handleGetMetadata sv env rq filePath w =
     (if filePath = [] then (sendError 400 ''Path is required'', w)
      else if \<not> IsValidFilePath filePath then (sendError 400 ''Invalid file path'', w)
      else
        let cacheKey = ''metadata:'' @ filePath
        in case cache_lookup sv (ae_now env) cacheKey w of
             (Some m, w1) \<Rightarrow> (reply 200 (B_Meta (Inl m)), w1)
           | (None, w1) \<Rightarrow>
               (case lift_db (GetFileMetadata filePath) w1 of
                  (Inr meta, w2) \<Rightarrow> (reply 200 (B_Meta (Inl meta)), cache_store sv (ae_now env) cacheKey meta w2)
                | (Inl e, w2) \<Rightarrow>
                    (case lift_db (GetDirectoryMetadata filePath) w2 of
                       (Inr dirMeta, w3) \<Rightarrow> (reply 200 (B_Meta (Inr dirMeta)), w3)
                     | (Inl e, w3) \<Rightarrow> (sendError 404 ''Path not found'', w3))))"

definition handleListAuditLogs ::
  "('a, 'ss, 'l, 'c) Server \<Rightarrow> 'l api_env \<Rightarrow> request \<Rightarrow> ('a, 'ss, 'l, 'c) api \<Rightarrow> response \<times> ('a, 'ss, 'l, 'c) api"
where
  "handleListAuditLogs sv env rq w =
     (case query_page sv rq of (page, pageSize) \<Rightarrow>
        (case lift_db (Audit_List (Query rq ''operation'') (Query rq ''resource_path'') page pageSize) w of
           (Inl e, w1) \<Rightarrow> (sendInternalError e ''Internal server error'', w1)
         | (Inr logs, w1) \<Rightarrow> (reply 200 (B_Audit logs page pageSize), w1)))"

section \<open>Upload sessions\<close>

record session_req =
  sq_FilePath :: string
  sq_FileName :: string
  sq_TotalSize :: int
  sq_Hash :: string

text \<open>The body of the two requests that open a session, and the checks on it.\<close>

definition bind_session :: "request \<Rightarrow> session_req option" where
  "bind_session rq =
     (case rq_json rq of
        None \<Rightarrow> None
      | Some obj \<Rightarrow>
          (case (json_str ''file_path'' obj, json_str ''file_name'' obj, json_int ''total_size'' obj, json_str ''hash'' obj) of
             (Some p, Some n, Some t, Some h) \<Rightarrow>
               (let total_size = (case t of None \<Rightarrow> 0 | Some k \<Rightarrow> k)
                in if or_zero p = [] \<or> or_zero n = [] \<or> total_size = 0 then None
                   else Some \<lparr>sq_FilePath = or_zero p, sq_FileName = or_zero n, sq_TotalSize = total_size, sq_Hash = or_zero h\<rparr>)
           | _ \<Rightarrow> None))"

definition check_session :: "('a, 'ss, 'l, 'c) Server \<Rightarrow> request \<Rightarrow> response + session_req" where
  "check_session sv rq =
     (case bind_session rq of
        None \<Rightarrow> Inl (sendError 400 ''Invalid request body'')
      | Some q \<Rightarrow>
          if \<not> IsValidFileName (sq_FileName q) then Inl (sendError 400 ''Invalid file name'')
          else if \<not> IsValidFilePath (sq_FilePath q) then Inl (sendError 400 ''Invalid file path'')
          else if sq_TotalSize q \<le> 0 then Inl (sendError 400 ''Total size must be positive'')
          else if sq_TotalSize q > sv_maxUploadSize sv then Inl too_large
          else Inr q)"

definition handleCreateUploadSession ::
  "('a, 'ss, 'l, 'c) Server \<Rightarrow> 'l api_env \<Rightarrow> request \<Rightarrow> ('a, 'ss, 'l, 'c) api \<Rightarrow> response \<times> ('a, 'ss, 'l, 'c) api"
where
  "handleCreateUploadSession sv env rq w =
     (case check_session sv rq of
        Inl r \<Rightarrow> (r, w)
      | Inr q \<Rightarrow>
          (case lift_xf (CreateUploadSession (sv_transferSvc sv) (ae_xf env) (sq_FilePath q) (sq_FileName q) (sq_TotalSize q) (rq_clientIP rq) (sq_Hash q)) w of
             (Inl e, w1) \<Rightarrow> (sendInternalError e ''Internal server error'', w1)
           | (Inr sid, w1) \<Rightarrow>
               (reply 201 (B_Session sid), auditLog env rq ''create_upload_session'' (sq_FilePath q) (''session_id='' @ sid) w1)))"

text \<open>The data and the offset of a chunk or a part.\<close>

definition read_chunk_form :: "string \<Rightarrow> ('a, 'ss, 'l, 'c) Server \<Rightarrow> request \<Rightarrow> response + bytes \<times> int" where
  "read_chunk_form what sv rq =
     (case rq_file rq of
        None \<Rightarrow> Inl (sendError 400 (''No '' @ what @ '' data provided''))
      | Some f \<Rightarrow>
          (case ReadAll (LimitReader (uf_reader f) (wrap64 (sv_maxChunkSize sv + 1))) of
             Inl e \<Rightarrow> Inl (sendError 500 (''Failed to read '' @ what @ '' data''))
           | Inr data \<Rightarrow>
               if int (length data) > sv_maxChunkSize sv then Inl (sendError 413 ((if what = ''chunk'' then ''Chunk'' else ''Part'') @ '' size exceeds maximum allowed size''))
               else (case ParseInt (PostForm rq ''offset'') of (offset, bad) \<Rightarrow>
                 if bad \<or> offset < 0 then Inl (sendError 400 ''Invalid offset value'') else Inr (data, offset))))"

definition handleUploadChunk ::
  "('a, 'ss, 'l, 'c) Server \<Rightarrow> 'l api_env \<Rightarrow> request \<Rightarrow> string \<Rightarrow> ('a, 'ss, 'l, 'c) api \<Rightarrow> response \<times> ('a, 'ss, 'l, 'c) api"
where
  "handleUploadChunk sv env rq sid w =
     (case read_chunk_form ''chunk'' sv rq of
        Inl r \<Rightarrow> (r, w)
      | Inr (data, offset) \<Rightarrow>
          done_reply 200 ''Chunk uploaded successfully'' id (lift_xf (UploadChunk (sv_transferSvc sv) (ae_xf env) sid data offset) w))"

definition handleGetUploadProgress :: "string \<Rightarrow> ('a, 'ss, 'l, 'c) api \<Rightarrow> response \<times> ('a, 'ss, 'l, 'c) api" where
  "handleGetUploadProgress sid w = (reply 200 (B_Progress (GetUploadProgress sid (ap_xf w))), w)"

definition handleCompleteUpload ::
  "('a, 'ss, 'l, 'c) Server \<Rightarrow> 'l api_env \<Rightarrow> request \<Rightarrow> string \<Rightarrow> ('a, 'ss, 'l, 'c) api \<Rightarrow> response \<times> ('a, 'ss, 'l, 'c) api"
where
  "handleCompleteUpload sv env rq sid w =
     (case lift_xf (CompleteUpload (sv_transferSvc sv) (ae_xf env) sid) w of
        (Inl e, w1) \<Rightarrow> (sendInternalError e ''Failed to complete upload'', w1)
      | (Inr result, w1) \<Rightarrow>
          (reply 200 (B_Complete result), auditLog env rq ''complete_upload'' []
             (''session_id='' @ sid @ '' hash_provided='' @ show_bool (cu_HashProvided result) @ '' hash_verified='' @ show_bool (cu_HashVerified result)) w1))"

definition handleAbortUpload ::
  "('a, 'ss, 'l, 'c) Server \<Rightarrow> string \<Rightarrow> ('a, 'ss, 'l, 'c) api \<Rightarrow> response \<times> ('a, 'ss, 'l, 'c) api"
where
  "handleAbortUpload sv sid w = done_reply 200 ''Upload aborted'' id (lift_xf (AbortUpload (sv_transferSvc sv) sid) w)"

section \<open>Multipart uploads\<close>

definition handleCreateMultipartUpload ::
  "('a, 'ss, 'l, 'c) Server \<Rightarrow> 'l api_env \<Rightarrow> request \<Rightarrow> ('a, 'ss, 'l, 'c) api \<Rightarrow> response \<times> ('a, 'ss, 'l, 'c) api"
where
  "handleCreateMultipartUpload sv env rq w =
     (case check_session sv rq of
        Inl r \<Rightarrow> (r, w)
      | Inr q \<Rightarrow>
          (case lift_xf (CreateMultipartUpload (sv_transferSvc sv) (ae_xf env) (sq_FilePath q) (sq_FileName q) (sq_TotalSize q) (rq_clientIP rq) (sq_Hash q)) w of
             (Inl e, w1) \<Rightarrow> (sendInternalError e ''Internal server error'', w1)
           | (Inr (sid, partSize), w1) \<Rightarrow>
               (reply 201 (B_MultipartSession sid partSize),
                auditLog env rq ''create_multipart_upload'' (sq_FilePath q) (''session_id='' @ sid @ '' part_size='' @ itoa partSize) w1)))"

definition handleUploadPart ::
  "('a, 'ss, 'l, 'c) Server \<Rightarrow> 'l api_env \<Rightarrow> request \<Rightarrow> string \<Rightarrow> string \<Rightarrow> ('a, 'ss, 'l, 'c) api \<Rightarrow> response \<times> ('a, 'ss, 'l, 'c) api"
where
  "handleUploadPart sv env rq sid partNumberStr w =
     (case ParseInt partNumberStr of (partNumber, bad) \<Rightarrow>
        if bad \<or> partNumber < 1 then (sendError 400 ''Part number must be a positive integer'', w)
        else if partNumber > 10000 then (sendError 400 ''Part number exceeds maximum (10000)'', w)
        else (case read_chunk_form ''part'' sv rq of
          Inl r \<Rightarrow> (r, w)
        | Inr (data, offset) \<Rightarrow>
            (case lift_xf (UploadPartData (sv_transferSvc sv) (ae_xf env) sid partNumber offset data) w of
               (Inl e, w1) \<Rightarrow> (sendInternalError e ''Internal server error'', w1)
             | (Inr _, w1) \<Rightarrow> (reply 200 (B_Part partNumber (int (length data))), w1))))"

definition handleGetMultipartUploadStatus :: "string \<Rightarrow> ('a, 'ss, 'l, 'c) api \<Rightarrow> response \<times> ('a, 'ss, 'l, 'c) api" where
  "handleGetMultipartUploadStatus sid w =
     (case GetMultipartUploadProgress sid (ap_xf w) of (uploaded, tot, completedParts) \<Rightarrow> (reply 200 (B_MultipartProgress uploaded tot completedParts), w))"

definition handleCompleteMultipartUpload ::
  "('a, 'ss, 'l, 'c) Server \<Rightarrow> 'l api_env \<Rightarrow> request \<Rightarrow> string \<Rightarrow> ('a, 'ss, 'l, 'c) api \<Rightarrow> response \<times> ('a, 'ss, 'l, 'c) api"
where
  "handleCompleteMultipartUpload sv env rq sid w =
     done_reply 200 ''Multipart upload completed successfully'' (auditLog env rq ''complete_multipart_upload'' [] (''session_id='' @ sid))
       (lift_xf (CompleteMultipartUpload (sv_transferSvc sv) (ae_xf env) sid) w)"

definition handleAbortMultipartUpload ::
  "('a, 'ss, 'l, 'c) Server \<Rightarrow> string \<Rightarrow> ('a, 'ss, 'l, 'c) api \<Rightarrow> response \<times> ('a, 'ss, 'l, 'c) api"
where
  "handleAbortMultipartUpload sv sid w =
     done_reply 200 ''Multipart upload aborted'' id (lift_xf (AbortMultipartUpload (sv_transferSvc sv) sid) w)"

section \<open>API keys and tokens\<close>

definition isValidPermissions :: "string \<Rightarrow> bool" where
  "isValidPermissions permissions =
     (if permissions = [] then True
      else list_all (\<lambda>p0. let p = TrimSpace p0 in p \<noteq> [] \<and> p \<in> set [''admin'', ''user'', ''user:read'', ''user:write'']) (Split (CHR '','') permissions))"

record key_req =
  kq_Name :: string
  kq_Description :: string
  kq_Permissions :: string
  kq_ExpiresAt :: string

definition bind_key :: "request \<Rightarrow> key_req option" where
  "bind_key rq =
     (case rq_json rq of
        None \<Rightarrow> None
      | Some obj \<Rightarrow>
          (case (json_str ''name'' obj, json_str ''description'' obj, json_str ''permissions'' obj, json_str ''expires_at'' obj) of
             (Some n, Some d, Some p, Some x) \<Rightarrow>
               if or_zero n = [] then None
               else Some \<lparr>kq_Name = or_zero n, kq_Description = or_zero d, kq_Permissions = or_zero p, kq_ExpiresAt = or_zero x\<rparr>
           | _ \<Rightarrow> None))"

definition handleCreateApiKey ::
  "'l api_env \<Rightarrow> request \<Rightarrow> ('a, 'ss, 'l, 'c) api \<Rightarrow> response \<times> ('a, 'ss, 'l, 'c) api"
where
  "handleCreateApiKey env rq w =
     (case bind_key rq of
        None \<Rightarrow> (sendError 400 ''Name is required'', w)
      | Some q \<Rightarrow>
          if kq_Permissions q \<noteq> [] \<and> \<not> isValidPermissions (kq_Permissions q) then (sendError 400 ''Invalid permissions'', w)
          else
            let i = ae_uuid env; plainKey = GenerateApiKey (ae_sha env) (ae_uuid2 env) i;
                apiKey = \<lparr>ak_ID = i, ak_KeyHash = ae_sha env plainKey, ak_Name = kq_Name q, ak_Description = kq_Description q,
                  ak_Permissions = kq_Permissions q, ak_CreatedAt = ae_ts env, ak_ExpiresAt = kq_ExpiresAt q, ak_LastUsedAt = [], ak_IsActive = True\<rparr>
            in (case lift_db (Key_Create apiKey) w of
                  (Inl e, w1) \<Rightarrow> (sendError 500 ''Failed to create API key'', w1)
                | (Inr _, w1) \<Rightarrow> (reply 201 (B_NewKey (apiKey\<lparr>ak_KeyHash := []\<rparr>) plainKey),
                    auditLog env rq ''create_api_key'' i (''name='' @ kq_Name q) w1)))"

definition handleListApiKeys ::
  "('a, 'ss, 'l, 'c) Server \<Rightarrow> request \<Rightarrow> ('a, 'ss, 'l, 'c) api \<Rightarrow> response \<times> ('a, 'ss, 'l, 'c) api"
where
  "handleListApiKeys sv rq w =
     (case query_page sv rq of (page, pageSize) \<Rightarrow>
        (case lift_db (Key_List (Query rq ''active_only'' = ''true'') page pageSize) w of
           (Inl e, w1) \<Rightarrow> (sendError 500 ''Failed to list API keys'', w1)
         | (Inr keys, w1) \<Rightarrow> (reply 200 (B_Keys (map (\<lambda>k. k\<lparr>ak_KeyHash := []\<rparr>) keys) page pageSize), w1)))"

definition with_key ::
  "string \<Rightarrow> (ApiKey \<Rightarrow> ('a, 'ss, 'l, 'c) api \<Rightarrow> response \<times> ('a, 'ss, 'l, 'c) api) \<Rightarrow> ('a, 'ss, 'l, 'c) api \<Rightarrow> response \<times> ('a, 'ss, 'l, 'c) api"
where
  "with_key i k w =
     (case lift_db (Key_GetById i) w of
        (Inl e, w1) \<Rightarrow> (sendError 500 ''Failed to get API key'', w1)
      | (Inr None, w1) \<Rightarrow> (sendError 404 ''API key not found'', w1)
      | (Inr (Some key), w1) \<Rightarrow> k key w1)"

definition handleGetApiKey :: "string \<Rightarrow> ('a, 'ss, 'l, 'c) api \<Rightarrow> response \<times> ('a, 'ss, 'l, 'c) api" where
  "handleGetApiKey i w =
     (if i = [] then (sendError 400 ''API key ID is required'', w)
      else with_key i (\<lambda>key w1. (reply 200 (B_Key (key\<lparr>ak_KeyHash := []\<rparr>)), w1)) w)"

definition handleUpdateApiKey ::
  "'l api_env \<Rightarrow> request \<Rightarrow> string \<Rightarrow> ('a, 'ss, 'l, 'c) api \<Rightarrow> response \<times> ('a, 'ss, 'l, 'c) api"
where
  "handleUpdateApiKey env rq i w =
     (if i = [] then (sendError 400 ''API key ID is required'', w)
      else case rq_json rq of
        None \<Rightarrow> (sendError 400 ''Invalid request body'', w)
      | Some obj \<Rightarrow>
          (case (json_str ''name'' obj, json_str ''description'' obj, json_bool ''is_active'' obj) of
             (Some n, Some d, Some a) \<Rightarrow>
               with_key i (\<lambda>key w1.
                 let key1 = key\<lparr>ak_Name := (case n of None \<Rightarrow> ak_Name key | Some s \<Rightarrow> s),
                                ak_Description := (case d of None \<Rightarrow> ak_Description key | Some s \<Rightarrow> s),
                                ak_IsActive := (case a of None \<Rightarrow> ak_IsActive key | Some b \<Rightarrow> b)\<rparr>
                 in (case lift_db (Key_Update key1) w1 of
                       (Inl e, w2) \<Rightarrow> (sendError 500 ''Failed to update API key'', w2)
                     | (Inr _, w2) \<Rightarrow> (reply 200 (B_Key (key1\<lparr>ak_KeyHash := []\<rparr>)),
                         auditLog env rq ''update_api_key'' i (''name='' @ ak_Name key1 @ '' is_active='' @ show_bool (ak_IsActive key1)) w2))) w
           | _ \<Rightarrow> (sendError 400 ''Invalid request body'', w)))"

definition handleDeleteApiKey ::
  "'l api_env \<Rightarrow> request \<Rightarrow> string \<Rightarrow> ('a, 'ss, 'l, 'c) api \<Rightarrow> response \<times> ('a, 'ss, 'l, 'c) api"
where
  "handleDeleteApiKey env rq i w =
     (if i = [] then (sendError 400 ''API key ID is required'', w)
      else with_key i (\<lambda>key w1.
        (case lift_db (Key_Remove i) w1 of
           (Inl e, w2) \<Rightarrow> (sendError 500 ''Failed to delete API key'', w2)
         | (Inr _, w2) \<Rightarrow> (reply 200 (B_Message ''API key deleted successfully''), auditLog env rq ''delete_api_key'' i (''name='' @ ak_Name key) w2))) w)"

text \<open>Who a token is issued for and with which role.\<close>

definition token_identity :: "User option \<Rightarrow> string \<Rightarrow> string \<Rightarrow> string \<times> string" where
  "token_identity user reqUserID reqRole =
     (let callerRole = (case user of None \<Rightarrow> ''user'' | Some u \<Rightarrow> u_Role u);
          callerID = (case user of None \<Rightarrow> reqUserID
             | Some u \<Rightarrow> if u_Role u = ''admin'' then (if reqUserID = [] then u_ID u else reqUserID) else u_ID u);
          grantRole = (if callerRole = ''admin'' \<and> (reqRole = ''admin'' \<or> reqRole = ''user'') then reqRole else ''user'')
      in (callerID, grantRole))"

definition handleGenerateToken ::
  "'l api_env \<Rightarrow> request \<Rightarrow> User option \<Rightarrow> ('a, 'ss, 'l, 'c) api \<Rightarrow> response \<times> ('a, 'ss, 'l, 'c) api"
where
  "handleGenerateToken env rq user w =
     (case au_jwtService (ap_auth w) of
        None \<Rightarrow> (sendError 503 ''JWT authentication not configured'', w)
      | Some js \<Rightarrow>
          (case rq_json rq of
             None \<Rightarrow> (sendError 400 ''Invalid request body'', w)
           | Some obj \<Rightarrow>
               (case (json_str ''user_id'' obj, json_str ''role'' obj) of
                  (Some u, Some r) \<Rightarrow>
                    (case token_identity user (or_zero u) (or_zero r) of (callerID, grantRole) \<Rightarrow>
                       if callerID = [] then (sendError 400 ''user_id is required'', w)
                       else (case GenerateTokenPair (ae_jwt env) (ae_jwt_env env) callerID grantRole js of
                         Inl e \<Rightarrow> (sendError 500 ''Failed to generate token'', w)
                       | Inr pair \<Rightarrow> (reply 200 (B_Token pair), auditLog env rq ''issue_token'' callerID (''role='' @ grantRole) w)))
                | _ \<Rightarrow> (sendError 400 ''Invalid request body'', w))))"

definition handleRefreshToken ::
  "'l api_env \<Rightarrow> request \<Rightarrow> ('a, 'ss, 'l, 'c) api \<Rightarrow> response \<times> ('a, 'ss, 'l, 'c) api"
where
  "handleRefreshToken env rq w =
     (case au_jwtService (ap_auth w) of
        None \<Rightarrow> (sendError 503 ''JWT authentication not configured'', w)
      | Some js \<Rightarrow>
          (let tok = (case rq_json rq of None \<Rightarrow> [] | Some obj \<Rightarrow> (case json_str ''refresh_token'' obj of Some v \<Rightarrow> or_zero v | None \<Rightarrow> []))
           in if tok = [] then (sendError 400 ''Invalid request: refresh_token is required'', w)
              else (case RefreshToken (ae_jwt env) (ae_jwt_env env) tok js of
                (Inl e, js1) \<Rightarrow> (sendError 401 ''Invalid or expired refresh token'', w\<lparr>ap_auth := (ap_auth w)\<lparr>au_jwtService := Some js1\<rparr>\<rparr>)
              | (Inr pair, js1) \<Rightarrow> (reply 200 (B_Token pair), w\<lparr>ap_auth := (ap_auth w)\<lparr>au_jwtService := Some js1\<rparr>\<rparr>))))"

end
