(* ===== verification/Http_Server.thy ===== *)
theory Http_Server
  imports Http_Handlers
begin

text \<open>
  \<open>src/internal/api/http/server.go\<close>: the middleware and the routes.  \<open>serve\<close> is one
  request from the first middleware to the response, with its handler as one step.
\<close>

section \<open>Middleware\<close>

definition allowed_origin :: "string \<Rightarrow> string \<Rightarrow> string" where
  "allowed_origin corsOrigins origin =
     (if corsOrigins = ''*'' then ''*''
      else if corsOrigins \<noteq> [] \<and> origin \<noteq> [] \<and> list_ex (\<lambda>o'. TrimSpace o' = origin) (Split (CHR '','') corsOrigins) then origin
      else [])"

definition cors_headers :: "('a, 'ss, 'l, 'c) Server \<Rightarrow> request \<Rightarrow> (string \<times> string) list" where
  "cors_headers sv rq =
     (let allowedOrigin = allowed_origin (sv_corsOrigins sv) (GetHeader rq ''Origin'')
      in if allowedOrigin \<noteq> [] then
           [(''Access-Control-Allow-Origin'', allowedOrigin),
            (''Access-Control-Allow-Methods'', ''GET, POST, PUT, DELETE, PATCH, OPTIONS''),
            (''Access-Control-Allow-Headers'', ''Content-Type, Authorization, X-API-Key''),
            (''Access-Control-Max-Age'', ''86400'')] @
           (if allowedOrigin \<noteq> ''*'' then [(''Access-Control-Allow-Credentials'', ''true'')] else [])
         else [])"

definition request_id :: "'l api_env \<Rightarrow> request \<Rightarrow> string" where
  "request_id env rq =
     (let reqID = TrimSpace (GetHeader rq ''X-Request-Id'') in if reqID = [] \<or> length reqID > 128 then ae_uuid env else reqID)"

definition api_key_of :: "request \<Rightarrow> string" where
  "api_key_of rq =
     (if GetHeader rq ''X-API-Key'' \<noteq> [] then GetHeader rq ''X-API-Key''
      else if HasPrefix (GetHeader rq ''Authorization'') ''Bearer '' then TrimPrefix (GetHeader rq ''Authorization'') ''Bearer ''
      else if HasPrefix (GetHeader rq ''Authorization'') ''Api-Key '' then TrimPrefix (GetHeader rq ''Authorization'') ''Api-Key ''
      else [])"

text \<open>Calls of the authentication service, which may read the database.\<close>

definition validate_key :: "'l api_env \<Rightarrow> string \<Rightarrow> ('a, 'ss, 'l, 'c) api \<Rightarrow> bool \<times> ('a, 'ss, 'l, 'c) api" where
  "validate_key env key w = lift_db (ValidateApiKey (ae_sha env) (ae_order env) key (ap_auth w)) w"

definition key_user :: "'l api_env \<Rightarrow> string \<Rightarrow> ('a, 'ss, 'l, 'c) api \<Rightarrow> User option \<times> ('a, 'ss, 'l, 'c) api" where
  "key_user env key w = lift_db (GetUserByApiKey (ae_jwt env) (ae_now env) (ae_sha env) (ae_order env) key (ap_auth w)) w"

text \<open>\<open>authMiddleware\<close>: an early answer, or the user for the context.\<close>

definition authMiddleware ::
  "'l api_env \<Rightarrow> request \<Rightarrow> ('a, 'ss, 'l, 'c) api \<Rightarrow> (response + User option) \<times> ('a, 'ss, 'l, 'c) api"
where
  "authMiddleware env rq w =
     (let ip = rq_clientIP rq;
          fail = (\<lambda>msg w. (Inl (sendError 401 msg), w\<lparr>ap_auth := RecordAuthFailure (ae_now env) ip (ap_auth w)\<rparr>));
          clear = (\<lambda>w. w\<lparr>ap_auth := ClearAuthFailure ip (ap_auth w)\<rparr>)
      in if IsRateLimited (ae_now env) ip (ap_auth w) then (Inl (sendError 429 ''Too many authentication failures''), w)
         else case validate_key env [] w of
           (True, w1) \<Rightarrow> (Inr None, w1)
         | (False, w1) \<Rightarrow>
             (let apiKey = api_key_of rq
              in if apiKey = [] then fail ''Authentication required'' w1
                 else case validate_key env apiKey w1 of
                   (False, w2) \<Rightarrow>
                     (case jwt_user (ae_jwt env) (ae_now env) apiKey (ap_auth w2) of
                        Some u \<Rightarrow> (Inr (Some u), clear w2)
                      | None \<Rightarrow> fail ''Invalid API key'' w2)
                 | (True, w2) \<Rightarrow>
                     (case key_user env apiKey (clear w2) of (u, w3) \<Rightarrow> (Inr u, w3))))"

datatype guard = G_Authenticated | G_Permission string string | G_Admin

definition requirePermission :: "string \<Rightarrow> string \<Rightarrow> bool \<Rightarrow> User option \<Rightarrow> response option" where
  "requirePermission resource action authEnabled user =
     (if authEnabled then
        (case user of
           None \<Rightarrow> Some (sendError 403 ''Permission denied: no authenticated user'')
         | Some u \<Rightarrow>
             if u_Role u = ''admin'' then None
             else if \<not> (u_Role u = ''user'' \<and> resource = ''files'' \<and> (action = ''read'' \<or> action = ''write''))
             then Some (sendError 403 ''Permission denied'')
             else None)
      else None)"

definition requireAdmin :: "bool \<Rightarrow> User option \<Rightarrow> response option" where
  "requireAdmin authEnabled user =
     (if authEnabled then
        (case user of
           None \<Rightarrow> Some (sendError 403 ''Admin permission required'')
         | Some u \<Rightarrow> if u_Role u \<noteq> ''admin'' then Some (sendError 403 ''Admin permission required'') else None)
      else None)"

fun check_guard :: "guard \<Rightarrow> bool \<Rightarrow> User option \<Rightarrow> response option" where
  "check_guard G_Authenticated en u = None"
| "check_guard (G_Permission resource action) en u = requirePermission resource action en u"
| "check_guard G_Admin en u = requireAdmin en u"

section \<open>Routes\<close>

datatype route =
    R_Health | R_Ready | R_Metrics
  | R_Upload | R_Download string | R_List | R_Delete string | R_Rename string
  | R_CreateDirectory | R_DeleteDirectory string | R_RenameDirectory string | R_GetMetadata string | R_ListAuditLogs
  | R_CreateUploadSession | R_UploadChunk string | R_GetUploadProgress string | R_CompleteUpload string | R_AbortUpload string
  | R_CreateApiKey | R_ListApiKeys | R_GetApiKey string | R_UpdateApiKey string | R_DeleteApiKey string
  | R_CreateMultipartUpload | R_UploadPart string string | R_GetMultipartUploadStatus string
  | R_CompleteMultipartUpload string | R_AbortMultipartUpload string
  | R_GenerateToken | R_RefreshToken

text \<open>\<open>setupRoutes\<close>: the guard of a route, \<open>None\<close> for the public ones, and its handler.\<close>

fun route_guard :: "route \<Rightarrow> guard option" where
  "route_guard R_Health = None"
| "route_guard R_Ready = None"
| "route_guard R_Metrics = Some G_Authenticated"
| "route_guard R_Upload = Some (G_Permission ''files'' ''write'')"
| "route_guard (R_Download p) = Some (G_Permission ''files'' ''read'')"
| "route_guard R_List = Some (G_Permission ''files'' ''read'')"
| "route_guard (R_Delete p) = Some (G_Permission ''files'' ''write'')"
| "route_guard (R_Rename p) = Some (G_Permission ''files'' ''write'')"
| "route_guard R_CreateDirectory = Some (G_Permission ''files'' ''write'')"
| "route_guard (R_DeleteDirectory p) = Some (G_Permission ''files'' ''write'')"
| "route_guard (R_RenameDirectory p) = Some (G_Permission ''files'' ''write'')"
| "route_guard (R_GetMetadata p) = Some (G_Permission ''files'' ''read'')"
| "route_guard R_ListAuditLogs = Some G_Admin"
| "route_guard R_CreateUploadSession = Some (G_Permission ''files'' ''write'')"
| "route_guard (R_UploadChunk i) = Some (G_Permission ''files'' ''write'')"
| "route_guard (R_GetUploadProgress i) = Some (G_Permission ''files'' ''read'')"
| "route_guard (R_CompleteUpload i) = Some (G_Permission ''files'' ''write'')"
| "route_guard (R_AbortUpload i) = Some (G_Permission ''files'' ''write'')"
| "route_guard R_CreateApiKey = Some G_Admin"
| "route_guard R_ListApiKeys = Some G_Admin"
| "route_guard (R_GetApiKey i) = Some G_Admin"
| "route_guard (R_UpdateApiKey i) = Some G_Admin"
| "route_guard (R_DeleteApiKey i) = Some G_Admin"
| "route_guard R_CreateMultipartUpload = Some (G_Permission ''files'' ''write'')"
| "route_guard (R_UploadPart i n) = Some (G_Permission ''files'' ''write'')"
| "route_guard (R_GetMultipartUploadStatus i) = Some (G_Permission ''files'' ''read'')"
| "route_guard (R_CompleteMultipartUpload i) = Some (G_Permission ''files'' ''write'')"
| "route_guard (R_AbortMultipartUpload i) = Some (G_Permission ''files'' ''write'')"
| "route_guard R_GenerateToken = Some G_Authenticated"
| "route_guard R_RefreshToken = Some G_Authenticated"

fun route_handler ::
  "('a, 'ss, 'l, 'c) Server \<Rightarrow> 'l api_env \<Rightarrow> request \<Rightarrow> User option \<Rightarrow> route \<Rightarrow> ('a, 'ss, 'l, 'c) api \<Rightarrow> response \<times> ('a, 'ss, 'l, 'c) api"
where
  "route_handler sv env rq u R_Health w = handleHealth sv w"
| "route_handler sv env rq u R_Ready w = handleReady sv w"
| "route_handler sv env rq u R_Metrics w = (reply 200 B_Empty, w)"
| "route_handler sv env rq u R_Upload w = handleUpload sv env rq w"
| "route_handler sv env rq u (R_Download p) w = handleDownload sv env rq p w"
| "route_handler sv env rq u R_List w = handleList sv env rq w"
| "route_handler sv env rq u (R_Delete p) w = handleDelete sv env rq p w"
| "route_handler sv env rq u (R_Rename p) w = handleRename sv env rq p w"
| "route_handler sv env rq u R_CreateDirectory w = handleCreateDirectory sv env rq w"
| "route_handler sv env rq u (R_DeleteDirectory p) w = handleDeleteDirectory sv env rq p w"
| "route_handler sv env rq u (R_RenameDirectory p) w = handleRenameDirectory sv env rq p w"
| "route_handler sv env rq u (R_GetMetadata p) w = handleGetMetadata sv env rq p w"
| "route_handler sv env rq u R_ListAuditLogs w = handleListAuditLogs sv env rq w"
| "route_handler sv env rq u R_CreateUploadSession w = handleCreateUploadSession sv env rq w"
| "route_handler sv env rq u (R_UploadChunk i) w = handleUploadChunk sv env rq i w"
| "route_handler sv env rq u (R_GetUploadProgress i) w = handleGetUploadProgress i w"
| "route_handler sv env rq u (R_CompleteUpload i) w = handleCompleteUpload sv env rq i w"
| "route_handler sv env rq u (R_AbortUpload i) w = handleAbortUpload sv i w"
| "route_handler sv env rq u R_CreateApiKey w = handleCreateApiKey env rq w"
| "route_handler sv env rq u R_ListApiKeys w = handleListApiKeys sv rq w"
| "route_handler sv env rq u (R_GetApiKey i) w = handleGetApiKey i w"
| "route_handler sv env rq u (R_UpdateApiKey i) w = handleUpdateApiKey env rq i w"
| "route_handler sv env rq u (R_DeleteApiKey i) w = handleDeleteApiKey env rq i w"
| "route_handler sv env rq u R_CreateMultipartUpload w = handleCreateMultipartUpload sv env rq w"
| "route_handler sv env rq u (R_UploadPart i n) w = handleUploadPart sv env rq i n w"
| "route_handler sv env rq u (R_GetMultipartUploadStatus i) w = handleGetMultipartUploadStatus i w"
| "route_handler sv env rq u (R_CompleteMultipartUpload i) w = handleCompleteMultipartUpload sv env rq i w"
| "route_handler sv env rq u (R_AbortMultipartUpload i) w = handleAbortMultipartUpload sv i w"
| "route_handler sv env rq u R_GenerateToken w = handleGenerateToken env rq u w"
| "route_handler sv env rq u R_RefreshToken w = handleRefreshToken env rq w"

definition dispatch ::
  "('a, 'ss, 'l, 'c) Server \<Rightarrow> 'l api_env \<Rightarrow> request \<Rightarrow> route \<Rightarrow> ('a, 'ss, 'l, 'c) api \<Rightarrow> response \<times> ('a, 'ss, 'l, 'c) api"
where
  "dispatch sv env rq r w =
     (case route_guard r of
        None \<Rightarrow> route_handler sv env rq None r w
      | Some g \<Rightarrow>
          (case authMiddleware env rq w of
             (Inl resp, w1) \<Rightarrow> (resp, w1)
           | (Inr u, w1) \<Rightarrow>
               (case check_guard g (au_authEnabled (ap_auth w1)) u of
                  Some resp \<Rightarrow> (resp, w1)
                | None \<Rightarrow> route_handler sv env rq u r w1)))"

definition serve ::
  "('a, 'ss, 'l, 'c) Server \<Rightarrow> 'l api_env \<Rightarrow> request \<Rightarrow> route \<Rightarrow> ('a, 'ss, 'l, 'c) api \<Rightarrow> response \<times> ('a, 'ss, 'l, 'c) api"
where
  "serve sv env rq r w =
     (let hs = (''X-Request-Id'', request_id env rq) # cors_headers sv rq;
          add = (\<lambda>(resp, w'). (resp\<lparr>re_headers := hs @ re_headers resp\<rparr>, w'))
      in if rq_method rq = ''OPTIONS'' then add (reply 204 B_Empty, w)
         else if ap_inflight w < sv_semCap sv then add (dispatch sv env rq r w)
         else add (sendError 503 ''Server is busy, please try again later'', w))"

end
