(* ===== verification/Http_Access.thy ===== *)
theory Http_Access
  imports Http_Server
begin

text \<open>
  Who gets through to the handlers of the HTTP server, and what happens to those who do not.
\<close>

section \<open>Lemmas\<close>

text \<open>What a refused request may touch: the record of failures and the faults still to come.\<close>

definition kept :: "('a, 'ss, 'l, 'c) api \<Rightarrow> ('a, 'ss, 'l, 'c) api \<Rightarrow> bool" where
  "kept w w' \<longleftrightarrow> same_tables (xf_db (ap_xf w')) (xf_db (ap_xf w)) \<and> (ap_xf w')\<lparr>xf_db := xf_db (ap_xf w)\<rparr> = ap_xf w \<and>
     ap_audit w' = ap_audit w \<and> ap_cache w' = ap_cache w \<and> ap_inflight w' = ap_inflight w \<and>
     (ap_auth w')\<lparr>au_authFailures := au_authFailures (ap_auth w)\<rparr> = ap_auth w"

lemma kept_refl [simp]: "kept w w"
  by (simp add: kept_def)

lemma kept_trans:
  assumes "kept a b" "kept b c"
  shows "kept a c"
proof -
  have "(ap_xf c)\<lparr>xf_db := xf_db (ap_xf a)\<rparr> = ((ap_xf c)\<lparr>xf_db := xf_db (ap_xf b)\<rparr>)\<lparr>xf_db := xf_db (ap_xf a)\<rparr>" by simp
  also have "\<dots> = ap_xf a" using assms by (simp add: kept_def)
  finally have x: "(ap_xf c)\<lparr>xf_db := xf_db (ap_xf a)\<rparr> = ap_xf a" .
  have "(ap_auth c)\<lparr>au_authFailures := au_authFailures (ap_auth a)\<rparr> =
      ((ap_auth c)\<lparr>au_authFailures := au_authFailures (ap_auth b)\<rparr>)\<lparr>au_authFailures := au_authFailures (ap_auth a)\<rparr>" by simp
  also have "\<dots> = ap_auth a" using assms by (simp add: kept_def)
  finally show ?thesis using assms x same_tables_trans by (auto simp: kept_def)
qed

lemma kept_failures:
  "kept w (w\<lparr>ap_auth := RecordAuthFailure t ip (ap_auth w)\<rparr>)" "kept w (w\<lparr>ap_auth := ClearAuthFailure ip (ap_auth w)\<rparr>)"
  by (simp_all add: kept_def RecordAuthFailure_def ClearAuthFailure_def Let_def)

lemma GetByKeyHash_same: "Key_GetByKeyHash now h d = (r, d') \<Longrightarrow> same_tables d' d"
  by (auto simp: Key_GetByKeyHash_def scanApiKey_def dest: db_QueryRow_same split: prod.splits sum.splits option.splits if_splits)

abbreviation wired :: "string \<Rightarrow> ('a, 'ss, 'l, 'c) api \<Rightarrow> bool" where
  "wired now w \<equiv> au_apiKeyLookupFn (ap_auth w) = Some (Key_GetByKeyHash now)"

lemma lookup_key_same:
  assumes "au_apiKeyLookupFn s = Some (Key_GetByKeyHash now)" "lookup_key h s d = (r, d')"
  shows "same_tables d' d"
  using assms GetByKeyHash_same by (auto simp: lookup_key_def split: prod.splits sum.splits option.splits if_splits)

lemma ValidateApiKey_same:
  assumes "au_apiKeyLookupFn s = Some (Key_GetByKeyHash now)" "ValidateApiKey h order key s d = (r, d')"
  shows "same_tables d' d"
  using assms(2) lookup_key_same [OF assms(1)]
  by (auto simp: ValidateApiKey_def Let_def split: if_splits prod.splits option.splits)

lemma GetUser_same:
  assumes "au_apiKeyLookupFn s = Some (Key_GetByKeyHash now)" "GetUserByApiKey lib t h order key s d = (r, d')"
  shows "same_tables d' d"
  using assms(2) lookup_key_same [OF assms(1)]
  by (auto simp: GetUserByApiKey_def Let_def split: if_splits prod.splits option.splits)

lemma lift_db_kept:
  assumes "lift_db f w = (r, w')" and "\<And>d r d'. f d = (r, d') \<Longrightarrow> same_tables d' d"
  shows "kept w w' \<and> ap_auth w' = ap_auth w"
proof -
  obtain d where "f (xf_db (ap_xf w)) = (r, d)" "w' = w\<lparr>ap_xf := (ap_xf w)\<lparr>xf_db := d\<rparr>\<rparr>"
    using assms(1) by (auto simp: lift_db_def split: prod.splits)
  with assms(2) show ?thesis
    unfolding kept_def by auto
qed

lemma validate_key_kept: "wired now w \<Longrightarrow> validate_key env key w = (r, w') \<Longrightarrow> kept w w' \<and> ap_auth w' = ap_auth w"
  unfolding validate_key_def by (erule lift_db_kept) (rule ValidateApiKey_same)

lemma key_user_kept: "wired now w \<Longrightarrow> key_user env key w = (r, w') \<Longrightarrow> kept w w' \<and> ap_auth w' = ap_auth w"
  unfolding key_user_def by (erule lift_db_kept) (rule GetUser_same)

lemma validate_empty: "validate_key env [] w = (\<not> au_authEnabled (ap_auth w), w)"
  by (simp add: validate_key_def lift_db_def ValidateApiKey_def)

section \<open>A concrete server\<close>

text \<open>The server as \<open>main\<close> starts it from \<open>sample_config\<close>, with local storage, no cache and the
  secret \<open>s\<close> as the key of the administrator.\<close>

definition sample_server :: "(unit, MemorySessionStore, locks, unit) Server" where
  "sample_server = NewServer (cfg_Server (applyDefaults sample_config)) (local_fm ''/srv/data'' LocalDistributedLock)
     \<lparr>dmg_store = Some (NewLocalStorage ''/srv/data''), dmg_distLock = Some LocalDistributedLock\<rparr> sample_svc None
     (NewLocalStorage ''/srv/data'') None"

definition sample_api :: "(unit, MemorySessionStore, locks, unit) api" where
  "sample_api = \<lparr>ap_xf = sample_xfer, ap_auth = start_auth (\<lambda>k. ''h'' @ k) ''2024-01-01T00:00:00Z'' (cfg_Auth sample_config),
     ap_audit = NewAuditWriter True 0 0, ap_cache = (), ap_inflight = 0\<rparr>"

definition sample_api_env :: "locks api_env" where
  "sample_api_env = \<lparr>ae_fm = sample_env, ae_dm = sample_dm_env, ae_xf = sample_xenv, ae_fl = sample_fl_env, ae_now = 5,
     ae_ts = ''2024-01-01T00:00:00Z'', ae_uuid = ''u1'', ae_uuid2 = ''u2'', ae_jwt = sample_jwt_lib, ae_jwt_env = sample_jwt_env 5,
     ae_sha = (\<lambda>k. ''h'' @ k), ae_order = []\<rparr>"

definition sample_request :: "(string \<times> string) list \<Rightarrow> request" where
  "sample_request hs = \<lparr>rq_method = ''GET'', rq_clientIP = ''10.0.0.1'', rq_headers = hs, rq_query = [], rq_form = [], rq_json = None, rq_file = None\<rparr>"

lemma sample_api_auth [simp]:
  "au_authEnabled (ap_auth sample_api)" "wired ''2024-01-01T00:00:00Z'' sample_api"
  by (simp_all add: sample_api_def start_auth_def SetApiKeyLookup_def Auth_Init_def NewAuthService_def sample_config_def)

section \<open>Authentication\<close>

text \<open>The three ways out of \<open>authMiddleware\<close> when authentication is on.\<close>

lemma auth_refused:
  assumes en: "au_authEnabled (ap_auth w)" and wd: "wired now w"
    and no_key: "api_key_of rq = [] \<or> (\<not> fst (validate_key env (api_key_of rq) w) \<and>
      jwt_user (ae_jwt env) (ae_now env) (api_key_of rq) (ap_auth w) = None)"
  shows "\<exists>resp w'. authMiddleware env rq w = (Inl resp, w') \<and> re_code resp \<in> {401, 429} \<and> kept w w'"
proof (cases "IsRateLimited (ae_now env) (rq_clientIP rq) (ap_auth w)")
  case True
  then show ?thesis by (simp add: authMiddleware_def sendError_def)
next
  case False
  show ?thesis
  proof (cases "api_key_of rq = []")
    case True
    with False en kept_failures(1) show ?thesis by (simp add: authMiddleware_def validate_empty sendError_def Let_def)
  next
    case ne: False
    obtain r w1 where v: "validate_key env (api_key_of rq) w = (r, w1)" by fastforce
    with no_key ne have r: "r = False" and j: "jwt_user (ae_jwt env) (ae_now env) (api_key_of rq) (ap_auth w) = None" by auto
    from validate_key_kept [OF wd v] have k: "kept w w1" "ap_auth w1 = ap_auth w" by auto
    have "authMiddleware env rq w =
        (Inl (sendError 401 ''Invalid API key''), w1\<lparr>ap_auth := RecordAuthFailure (ae_now env) (rq_clientIP rq) (ap_auth w1)\<rparr>)"
      using False en ne j k(2) by (simp add: authMiddleware_def validate_empty Let_def v r)
    with kept_trans [OF k(1) kept_failures(1)] show ?thesis by (simp add: sendError_def)
  qed
qed



text \<open>What \<open>authMiddleware\<close> lets through.\<close>

lemma auth_passed:
  assumes en: "au_authEnabled (ap_auth w)" and wd: "wired now w" and a: "authMiddleware env rq w = (x, w')"
  shows "kept w w' \<and> (\<forall>resp. x = Inl resp \<longrightarrow> re_code resp \<in> {401, 429}) \<and>
    (\<forall>u. x = Inr (Some u) \<longrightarrow> jwt_user (ae_jwt env) (ae_now env) (api_key_of rq) (ap_auth w) = Some u \<or>
      (\<exists>s d d'. s = ClearAuthFailure (rq_clientIP rq) (ap_auth w) \<and> same_tables d (xf_db (ap_xf w)) \<and>
        GetUserByApiKey (ae_jwt env) (ae_now env) (ae_sha env) (ae_order env) (api_key_of rq) s d = (Some u, d')))"
proof (cases "api_key_of rq = [] \<or> (\<not> fst (validate_key env (api_key_of rq) w) \<and>
      jwt_user (ae_jwt env) (ae_now env) (api_key_of rq) (ap_auth w) = None)")
  case True
  from auth_refused [OF en wd True] a show ?thesis by auto
next
  case cred: False
  show ?thesis
  proof (cases "IsRateLimited (ae_now env) (rq_clientIP rq) (ap_auth w)")
    case True
    then have "x = Inl (sendError 429 ''Too many authentication failures'')" "w' = w" using a by (simp_all add: authMiddleware_def)
    then show ?thesis by (simp add: sendError_def)
  next
    case free: False
    obtain r w2 where v: "validate_key env (api_key_of rq) w = (r, w2)" by fastforce
    from validate_key_kept [OF wd v] have k: "kept w w2" "ap_auth w2 = ap_auth w" by auto
    let ?w2 = "w2\<lparr>ap_auth := ClearAuthFailure (rq_clientIP rq) (ap_auth w2)\<rparr>"
    have k2: "kept w ?w2" by (rule kept_trans [OF k(1) kept_failures(2)])
    show ?thesis
    proof (cases r)
      case False
      with cred v obtain u where u: "jwt_user (ae_jwt env) (ae_now env) (api_key_of rq) (ap_auth w) = Some u" by auto
      have "(x, w') = (Inr (Some u), ?w2)"
        using a free en False cred u k(2) by (simp add: authMiddleware_def validate_empty v Let_def)
      with u k2 show ?thesis by simp
    next
      case True
      obtain u w3 where ku: "key_user env (api_key_of rq) ?w2 = (u, w3)" by fastforce
      have x: "x = Inr u" "w' = w3"
        using a free en True cred ku by (auto simp: authMiddleware_def validate_empty v Let_def)
      have wd2: "wired now ?w2" using wd k(2) by (simp add: ClearAuthFailure_def)
      have "kept w w3" using kept_trans [OF k2] key_user_kept [OF wd2 ku] by blast
      moreover obtain d' where "GetUserByApiKey (ae_jwt env) (ae_now env) (ae_sha env) (ae_order env) (api_key_of rq)
          (ClearAuthFailure (rq_clientIP rq) (ap_auth w)) (xf_db (ap_xf w2)) = (u, d')"
        using ku k(2) by (auto simp: key_user_def lift_db_def split: prod.splits)
      moreover have "same_tables (xf_db (ap_xf w2)) (xf_db (ap_xf w))" using k(1) by (simp add: kept_def)
      ultimately show ?thesis using x by auto
    qed
  qed
qed

lemma admin_refused:
  assumes "au_authEnabled (ap_auth w)" and "wired now w" and "route_guard r = Some G_Admin"
    and a: "authMiddleware env rq w = (x, w')" and no: "\<nexists>u. x = Inr (Some u) \<and> u_Role u = ''admin''"
  shows "re_code (fst (serve sv env rq r w)) \<in> {204, 401, 403, 429, 503} \<and> kept w (snd (serve sv env rq r w))"
proof -
  note P = auth_passed [OF assms(1,2) a]
  have en: "au_authEnabled (ap_auth w')"
  proof -
    have "au_authEnabled ((ap_auth w')\<lparr>au_authFailures := au_authFailures (ap_auth w)\<rparr>) = au_authEnabled (ap_auth w)"
      using P by (simp add: kept_def)
    then show ?thesis using assms(1) by simp
  qed
  have "re_code (fst (dispatch sv env rq r w)) \<in> {401, 403, 429} \<and> snd (dispatch sv env rq r w) = w'"
  proof (cases x)
    case (Inl resp)
    with P show ?thesis by (auto simp: dispatch_def assms(3) a)
  next
    case (Inr u)
    with no have "\<exists>msg. requireAdmin True u = Some (sendError 403 msg)" by (auto simp: requireAdmin_def split: option.splits)
    then show ?thesis using Inr en by (auto simp: dispatch_def assms(3) a sendError_def)
  qed
  then show ?thesis
    using P by (cases "dispatch sv env rq r w") (auto simp: serve_def sendError_def Let_def)
qed

text \<open>
  C31: the administrative routes are for administrators.  When a request on a route for
  administrators is not refused with 401, 403, 429 or 503, or when it changes more than the count
  of failed attempts, its credential is one of the four kinds that make an administrator, by the state
  before the request.
\<close>

theorem admin_routes_need_admin:
  assumes "au_authEnabled (ap_auth w)" and "wired now w" and "route_guard r = Some G_Admin"
    and "re_code (fst (serve sv env rq r w)) \<notin> {204, 401, 403, 429, 503} \<or> \<not> kept w (snd (serve sv env rq r w))"
  shows "admin_credentials (ae_jwt env) (ae_now env) now (ae_sha env) (api_key_of rq) (ap_auth w) (xf_db (ap_xf w))"
proof -
  obtain x w' where a: "authMiddleware env rq w = (x, w')" by fastforce
  note P = auth_passed [OF assms(1,2) a]
  from admin_refused [OF assms(1-3) a, of sv] assms(4) obtain u where u: "x = Inr (Some u)" "u_Role u = ''admin''"
    by blast
  with P consider "jwt_user (ae_jwt env) (ae_now env) (api_key_of rq) (ap_auth w) = Some u"
    | s d d' where "s = ClearAuthFailure (rq_clientIP rq) (ap_auth w)" "same_tables d (xf_db (ap_xf w))"
        "GetUserByApiKey (ae_jwt env) (ae_now env) (ae_sha env) (ae_order env) (api_key_of rq) s d = (Some u, d')" by blast
  then show ?thesis
  proof cases
    case 1
    then have "api_key_of rq \<noteq> []"
      using a u(1) assms(1) by (auto simp: authMiddleware_def validate_empty Let_def split: if_splits)
    with jwt_user_admin [OF 1 u(2)] show ?thesis by (simp add: admin_credentials_def)
  next
    case 2
    have "au_apiKeyLookupFn s = Some (Key_GetByKeyHash now)" using assms(2) 2(1) by (simp add: ClearAuthFailure_def)
    from admin_user_credentials [OF 2(3) u(2) this] 2(1,2) show ?thesis
      by (simp add: admin_credentials_def admin_token_def ClearAuthFailure_def same_tables_def)
  qed
qed

theorem admin_routes_need_admin_witness:
  "re_code (fst (serve sample_server sample_api_env (sample_request [(''X-API-Key'', ''s'')]) R_ListApiKeys sample_api)) = 200 \<and>
   admin_credentials sample_jwt_lib 5 ''2024-01-01T00:00:00Z'' (\<lambda>k. ''h'' @ k) ''s'' (ap_auth sample_api) (xf_db (ap_xf sample_api))"
proof -
  let ?rq = "sample_request [(''X-API-Key'', ''s'')]"
  have "re_code (fst (serve sample_server sample_api_env ?rq R_ListApiKeys sample_api)) = 200" by code_simp
  moreover have "api_key_of ?rq = ''s''" by code_simp
  ultimately show ?thesis
    using admin_routes_need_admin [OF sample_api_auth, of R_ListApiKeys sample_server sample_api_env ?rq] by (simp add: sample_api_env_def)
qed


section \<open>Tokens\<close>

text \<open>Everything a client can get out of a pair of tokens by exchanging refresh tokens, at any time
  and in any state of the service that has the same secret.\<close>

inductive token_family :: "jwt_lib \<Rightarrow> bytes \<Rightarrow> TokenPair \<Rightarrow> TokenPair \<Rightarrow> bool" for lib secret p where
  issued: "token_family lib secret p p"
| refreshed: "\<lbrakk>token_family lib secret p q; js_secret js = secret; RefreshToken lib env (tp_RefreshToken q) js = (Inr q', js')\<rbrakk>
    \<Longrightarrow> token_family lib secret p q'"

definition carries :: "jwt_lib \<Rightarrow> bytes \<Rightarrow> string \<Rightarrow> string \<Rightarrow> TokenPair \<Rightarrow> bool" where
  "carries lib secret u r p \<longleftrightarrow>
     (\<exists>a b. jwt_Sign lib secret a = Inr (tp_AccessToken p) \<and> jwt_Sign lib secret b = Inr (tp_RefreshToken p) \<and>
        jc_UserID a = u \<and> jc_Role a = r \<and> jc_TokenType a = ''access'' \<and> jc_UserID b = u \<and> jc_Role b = r \<and> jc_TokenType b = ''refresh'')"

lemma pair_carries: "GenerateTokenPair lib env u r s = Inr p \<Longrightarrow> carries lib (js_secret s) u r p"
  unfolding carries_def by (drule pair_tokens) (fastforce simp: token_claims_def intro: exI [of _ "token_claims _ _ _ _ _ _"])

lemma refresh_carries:
  assumes lib: "jwt_ok lib" and c: "carries lib (js_secret js) u r q" and r: "RefreshToken lib env (tp_RefreshToken q) js = (Inr q', js')"
  shows "carries lib (js_secret js) u r q'"
proof -
  obtain b where b: "jwt_Sign lib (js_secret js) b = Inr (tp_RefreshToken q)" "jc_UserID b = u" "jc_Role b = r"
    using c by (auto simp: carries_def)
  obtain claims where k: "refresh_check lib (je_now env) (tp_RefreshToken q) js = Inr claims" "refresh_commit lib env claims js = (Inr q', js')"
    using r by (auto simp: RefreshToken_def split: sum.splits)
  from k(1) have "jwt_Parse lib (js_secret js) (je_now env) (tp_RefreshToken q) = Inr claims"
    by (auto simp: refresh_check_def ValidateToken_def split: sum.splits if_splits)
  with parse_signed [OF lib b(1), of "je_now env"] have claims: "claims = b" by (cases "in_force (je_now env) b") auto
  obtain s1 where "GenerateTokenPair lib env u r s1 = Inr q'" "js_secret s1 = js_secret js"
    using k(2) b claims by (auto simp: refresh_commit_def cleanupBlacklist_def Let_def split: if_splits)
  then show ?thesis using pair_carries by metis
qed

lemma family_carries:
  assumes "token_family lib secret p q" and "jwt_ok lib" and "carries lib secret u r p"
  shows "carries lib secret u r q"
  using assms by induction (use refresh_carries in blast)+

lemma carries_user:
  assumes lib: "jwt_ok lib" and c: "carries lib (js_secret js) u r q" and js: "au_jwtService s = Some js"
  shows "jwt_user lib now (tp_AccessToken q) s = Some v \<Longrightarrow> u_ID v = u \<and> u_Role v = r" "jwt_user lib now (tp_RefreshToken q) s = None"
proof -
  obtain a b where ab: "jwt_Sign lib (js_secret js) a = Inr (tp_AccessToken q)" "jwt_Sign lib (js_secret js) b = Inr (tp_RefreshToken q)"
    "jc_UserID a = u" "jc_Role a = r" "jc_TokenType b = ''refresh''"
    using c by (auto simp: carries_def)
  show "jwt_user lib now (tp_AccessToken q) s = Some v \<Longrightarrow> u_ID v = u \<and> u_Role v = r"
    using parse_signed [OF lib ab(1), of now] js ab
    by (cases "in_force now a") (auto simp: jwt_user_def ValidateToken_def split: if_splits)
  show "jwt_user lib now (tp_RefreshToken q) s = None"
    using parse_signed [OF lib ab(2), of now] js ab
    by (cases "in_force now b") (auto simp: jwt_user_def ValidateToken_def)
qed

text \<open>
  C33: a token never carries more than its holder had.  Whatever a caller who is not an
  administrator asks for in the request for a token, every access token of the answer, and every one
  that any chain of refreshes makes of it, authenticates as nobody but the caller and with the role
  \<open>user\<close>; and none of the refresh tokens authenticates anybody.
\<close>

theorem token_never_escalates:
  assumes "handleGenerateToken env rq (Some u) w = (resp, w')" and "re_body resp = B_Token p"
    and "u_Role u \<noteq> ''admin''" and "jwt_ok (ae_jwt env)" and "au_jwtService (ap_auth w) = Some js"
    and "token_family (ae_jwt env) (js_secret js) p q" and "au_jwtService s = Some js'" and "js_secret js' = js_secret js"
  shows "(\<forall>v. jwt_user (ae_jwt env) now (tp_AccessToken q) s = Some v \<longrightarrow> u_ID v = u_ID u \<and> u_Role v = ''user'') \<and>
    jwt_user (ae_jwt env) now (tp_RefreshToken q) s = None"
proof -
  have "GenerateTokenPair (ae_jwt env) (ae_jwt_env env) (u_ID u) ''user'' js = Inr p"
    using assms(1-3,5) by (auto simp: handleGenerateToken_def token_identity_def sendError_def Let_def split: option.splits if_splits sum.splits)
  then have "carries (ae_jwt env) (js_secret js) (u_ID u) ''user'' p" by (rule pair_carries)
  from family_carries [OF assms(6,4) this] assms(8) have "carries (ae_jwt env) (js_secret js') (u_ID u) ''user'' q" by simp
  from carries_user [OF assms(4) this assms(7)] show ?thesis by blast
qed


definition sample_user :: User where
  "sample_user = \<lparr>u_ID = ''u'', u_ApiKeyHash = ''hu'', u_Name = ''u'', u_Role = ''user'', u_Enabled = True\<rparr>"

definition sample_token_request :: request where
  "sample_token_request = (sample_request [])\<lparr>rq_json := Some [(''user_id'', JStr ''root''), (''role'', JStr ''admin'')]\<rparr>"

theorem token_never_escalates_witness:
  "let lib = sample_jwt_lib; s = ap_auth sample_api
   in fst (handleGenerateToken (sample_api_env\<lparr>ae_jwt_env := sample_jwt_env 0\<rparr>) sample_token_request (Some sample_user) sample_api) =
        reply 200 (B_Token \<lparr>tp_AccessToken = ''A'', tp_RefreshToken = ''R'', tp_ExpiresIn = 86400\<rparr>) \<and>
      (\<exists>v. jwt_user lib 5000000000 ''A2'' s = Some v \<and> u_ID v = ''u'' \<and> u_Role v = ''user'') \<and> jwt_user lib 5000000000 ''R2'' s = None"
proof -
  let ?env = "sample_api_env\<lparr>ae_jwt_env := sample_jwt_env 0\<rparr>" let ?s = "ap_auth sample_api"
  let ?h = "handleGenerateToken ?env sample_token_request (Some sample_user) sample_api"
  let ?p = "\<lparr>tp_AccessToken = ''A'', tp_RefreshToken = ''R'', tp_ExpiresIn = 86400\<rparr>"
  let ?q = "\<lparr>tp_AccessToken = ''A2'', tp_RefreshToken = ''R2'', tp_ExpiresIn = 86400\<rparr>"
  let ?js = "NewJWTService (js_secret (the (au_jwtService ?s))) 86400000000000 604800000000000"
  have f: "fst ?h = reply 200 (B_Token ?p)" by code_simp
  then have h: "?h = (reply 200 (B_Token ?p), snd ?h)" by (simp add: prod_eq_iff)
  have ok: "jwt_ok sample_jwt_lib" unfolding sample_jwt_lib_def by (rule table_lib_ok) simp
  have js: "au_jwtService ?s = Some ?js"
    by (simp add: sample_api_def start_auth_def SetApiKeyLookup_def Auth_Init_def sample_config_def NewJWTService_def)
  have r: "fst (RefreshToken sample_jwt_lib (sample_jwt_env 5000000000) (tp_RefreshToken ?p) ?js) = Inr ?q" by code_simp
  have fam: "token_family sample_jwt_lib (js_secret ?js) ?p ?q"
    by (rule refreshed [OF issued refl, of _ "sample_jwt_env 5000000000"])
      (use r in \<open>auto simp: prod_eq_iff\<close>)
  have lib: "ae_jwt ?env = sample_jwt_lib" by (simp add: sample_api_env_def)
  have v: "map_option u_ID (jwt_user sample_jwt_lib 5000000000 ''A2'' ?s) = Some ''u''" by code_simp
  from token_never_escalates [OF h _ _ _ js _ js refl, of ?p ?q 5000000000] ok fam lib v f show ?thesis
    by (auto simp: Let_def sample_user_def)
qed

end
