(* ===== verification/Http_Files.thy ===== *)
theory Http_Files
  imports Http_Access
begin

text \<open>
  Files through the HTTP server: what was uploaded is downloaded, as a whole and by ranges.
\<close>

section \<open>Numbers in headers\<close>

lemma digits_append: "digits n (s @ t) = (case digits n s of None \<Rightarrow> None | Some k \<Rightarrow> digits k t)"
  by (induction s arbitrary: n) (simp_all add: Let_def)

lemma digits_decimal: "digits 0 (decimal n) = Some n"
proof (induction n rule: decimal.induct)
  case (1 n)
  have d: "digits k [char_of (48 + n mod 10)] = Some (10 * k + n mod 10)" for k
  proof -
    have "of_char (char_of (48 + n mod 10) :: char) = (48 + n mod 10 :: nat)" by (simp add: of_char_of)
    then show ?thesis by simp
  qed
  show ?case
  proof (cases "n < 10")
    case True
    then show ?thesis using d [of 0] by (subst decimal.simps) simp
  next
    case False
    then show ?thesis using 1 d by (subst decimal.simps) (simp add: digits_append)
  qed
qed

lemma digits_only: "digits n s = Some k \<Longrightarrow> \<forall>c \<in> set s. 48 \<le> (of_char c :: nat) \<and> (of_char c :: nat) \<le> 57"
  by (induction s arbitrary: n) (auto simp: Let_def split: if_splits)

lemma decimal_no_sign: "CHR ''-'' \<notin> set (decimal n)" "CHR ''+'' \<notin> set (decimal n)"
  using digits_only [OF digits_decimal, of n] by force+

lemma decimal_ne [simp]: "decimal n \<noteq> []"
  by (subst decimal.simps) simp

lemma ParseInt_itoa:
  assumes "0 \<le> n" "n \<le> max_int64"
  shows "ParseInt (itoa n) = (n, False)"
proof -
  have "hd (decimal (nat n)) \<noteq> CHR ''-''" "hd (decimal (nat n)) \<noteq> CHR ''+''"
    by (metis hd_in_set decimal_ne decimal_no_sign)+
  then show ?thesis using assms by (simp add: ParseInt_def itoa_def digits_decimal min_int64_def max_int64_def)
qed

lemma range_of_header_print:
  assumes "0 \<le> a" "a \<le> max_int64" "0 \<le> b" "b \<le> max_int64"
  shows "range_of_header sz (''bytes='' @ itoa a @ ''-'' @ itoa b) = Some (a, b)"
proof -
  have d: "CHR ''-'' \<notin> set (itoa a)" "CHR ''-'' \<notin> set (itoa b)" "itoa a \<noteq> []" "itoa b \<noteq> []"
    using assms decimal_no_sign by (auto simp: itoa_def)
  have "TrimPrefix (''bytes='' @ itoa a @ ''-'' @ itoa b) ''bytes='' = itoa a @ CHR ''-'' # itoa b"
    by (simp add: TrimPrefix_def HasPrefix_def)
  then have "Split (CHR ''-'') (TrimPrefix (''bytes='' @ itoa a @ ''-'' @ itoa b) ''bytes='') = [itoa a, itoa b]"
    using d by (simp add: Split_append_sep Split_no_sep)
  with d show ?thesis by (simp add: range_of_header_def ParseInt_itoa assms)
qed

section \<open>Downloads of a file that is there\<close>

definition plain_server :: "string \<Rightarrow> ('a, 'ss, locks, 'c) Server \<Rightarrow> bool" where
  "plain_server rootDir sv \<longleftrightarrow> sv_fm sv = local_fm rootDir LocalDistributedLock \<and> crypto_on sv = None"

definition holds_file :: "string \<Rightarrow> string \<Rightarrow> bytes \<Rightarrow> ('a, 'ss, 'l, 'c) api \<Rightarrow> bool" where
  "holds_file rootDir p data w \<longleftrightarrow> LS_inv rootDir (xf_fs (ap_xf w)) \<and> LS_calm (xf_fs (ap_xf w)) \<and> db_faults (xf_db (ap_xf w)) = [] \<and>
     LS_view rootDir (xf_fs (ap_xf w)) p = Some data \<and>
     (\<exists>m. live_file (xf_db (ap_xf w)) p = Some m \<and> fm_Path m = p \<and> fm_Size m = int (length data))"

lemma download_metadata:
  assumes "holds_file rootDir (NormalizePath p) data w" and "IsValidFilePath p"
  obtains m where "lift_db (GetFileMetadata (NormalizePath p)) w = (Inr m, w)" "fm_Path m = NormalizePath p" "fm_Size m = int (length data)"
proof -
  obtain m where m: "live_file (xf_db (ap_xf w)) (NormalizePath p) = Some m" "fm_Path m = NormalizePath p" "fm_Size m = int (length data)"
    using assms(1) by (auto simp: holds_file_def)
  have "NormalizePath (NormalizePath p) = NormalizePath p" using valid_path_safe [OF assms(2)] by simp
  with m GetFileMetadata_ok [of "xf_db (ap_xf w)" "NormalizePath p"] assms(1) have "lift_db (GetFileMetadata (NormalizePath p)) w = (Inr m, w)"
    by (simp add: holds_file_def lift_db_def)
  with m that show ?thesis by blast
qed

lemma download_whole:
  assumes "plain_server rootDir sv" and "holds_file rootDir (NormalizePath p) data w" and "IsValidFilePath p"
    and "GetHeader rq ''Range'' = []" and "length data \<le> 33554432"
  shows "handleDownload sv env rq p w = (reply 200 (B_Data data), w)"
proof -
  obtain m where m: "lift_db (GetFileMetadata (NormalizePath p)) w = (Inr m, w)" "fm_Path m = NormalizePath p" "fm_Size m = int (length data)"
    by (rule download_metadata [OF assms(2,3)])
  have sp: "safe_path (NormalizePath p)" by (rule valid_path_safe [OF assms(3)])
  have "sa_Read (NewLocalStorage rootDir) (NormalizePath p) (xf_fs (ap_xf w)) = (Inr data, xf_fs (ap_xf w))"
    using local_storage.read_ok [OF _ _ sp, of rootDir "xf_fs (ap_xf w)" data] assms(2) by (simp add: holds_file_def)
  then have "lift_fm (DownloadFileData (sv_fm sv) (Some m)) w = (Inr data, w)"
    using assms(1) m(2) sp by (simp add: lift_fm_def DownloadFileData_def plain_server_def)
  moreover have "p \<noteq> []" using assms(3) by (auto simp: IsValidFilePath_def)
  ultimately show ?thesis using assms m by (simp add: handleDownload_def plain_server_def)
qed

lemma download_range:
  assumes "plain_server rootDir sv" and "holds_file rootDir (NormalizePath p) data w" and "IsValidFilePath p"
    and "GetHeader rq ''Range'' = ''bytes='' @ itoa a @ ''-'' @ itoa b" and "0 \<le> a" "a \<le> b" "b < int (length data)"
    and "b - a < 33554432" "int (length data) \<le> max_int64"
  shows "\<exists>hs. handleDownload sv env rq p w = (\<lparr>re_code = 206, re_body = B_Data (byte_slice a (b - a + 1) data), re_headers = hs\<rparr>, w)"
proof -
  obtain m where m: "lift_db (GetFileMetadata (NormalizePath p)) w = (Inr m, w)" "fm_Path m = NormalizePath p" "fm_Size m = int (length data)"
    by (rule download_metadata [OF assms(2,3)])
  have sp: "safe_path (NormalizePath p)" by (rule valid_path_safe [OF assms(3)])
  have w: "wrap64 (b - a + 1) = b - a + 1" using assms(5-8) by (intro wrap64_nonneg_id) auto
  have "sa_ReadAt (NewLocalStorage rootDir) (NormalizePath p) (b - a + 1) a (xf_fs (ap_xf w)) =
      (Inr (byte_slice a (b - a + 1) data), xf_fs (ap_xf w))"
    using local_storage.readAt_ok [OF _ _ sp, of rootDir "xf_fs (ap_xf w)" data "b - a + 1" a] assms(2,5,6) by (simp add: holds_file_def byte_slice_def)
  then have "lift_fm (DownloadFileDataAt (sv_fm sv) (Some m) (b - a + 1) a) w = (Inr (byte_slice a (b - a + 1) data), w)"
    using assms(1) m(2) sp by (simp add: lift_fm_def DownloadFileDataAt_def plain_server_def)
  moreover have "p \<noteq> []" using assms(3) by (auto simp: IsValidFilePath_def)
  moreover have "range_of_header (fm_Size m) (''bytes='' @ itoa a @ ''-'' @ itoa b) = Some (a, b)"
    using assms(5-7,9) by (intro range_of_header_print) auto
  ultimately show ?thesis using assms m by (simp add: handleDownload_def plain_server_def handleRangeDownload_def w Let_def)
qed


section \<open>Upload, then download\<close>

definition inline_upload :: "('a, 'ss, 'l, 'c) Server \<Rightarrow> request \<Rightarrow> string \<Rightarrow> bytes \<Rightarrow> bool" where
  "inline_upload sv rq p data \<longleftrightarrow>
     (\<exists>name. rq_file rq = Some \<lparr>uf_name = name, uf_size = int (length data), uf_reader = \<lparr>rd_data = data, rd_err = None\<rparr>\<rparr> \<and>
        IsValidFileName name) \<and>
     PostForm rq ''path'' = p \<and> p \<noteq> [] \<and> length data \<le> 1048576 \<and> int (length data) \<le> sv_maxUploadSize sv"

definition ready_for :: "string \<Rightarrow> locks api_env \<Rightarrow> string \<Rightarrow> ('a, 'ss, locks, 'c) api \<Rightarrow> bool" where
  "ready_for rootDir env p w \<longleftrightarrow>
     LS_inv rootDir (xf_fs (ap_xf w)) \<and> LS_calm (xf_fs (ap_xf w)) \<and> db_wf (xf_db (ap_xf w)) \<and> db_faults (xf_db (ap_xf w)) = [] \<and>
     LS_writable rootDir (xf_fs (ap_xf w)) (NormalizePath p) \<and> fe_uuid (ae_fm env) \<notin> set (map fm_ID (t_files (xf_db (ap_xf w)))) \<and>
     Local_holder (acq_env.ae_now (fe_acq (ae_fm env) 0)) (''file:'' @ NormalizePath p) (xf_lock (ap_xf w)) = None"

lemma live_file_path: "live_file d p = Some m \<Longrightarrow> fm_Path m = p"
  by (auto simp: live_file_def dest: find_SomeD)

lemma handleUpload_inline:
  assumes "plain_server rootDir sv" and "inline_upload sv rq p data" and "IsValidFilePath p" and "ready_for rootDir env p w"
  shows "\<exists>m w'. handleUpload sv env rq w = (reply 201 (B_File m), w') \<and> holds_file rootDir (NormalizePath p) data w' \<and>
    fm_Size m = int (length data) \<and> fm_Hash m = fe_sha (ae_fm env) data \<and> fm_Path m = NormalizePath p"
proof -
  let ?x = "ap_xf w"
  from assms(4) have r: "LS_inv rootDir (xf_fs ?x)" "LS_calm (xf_fs ?x)" "db_wf (xf_db ?x)" "db_faults (xf_db ?x) = []"
    "LS_writable rootDir (xf_fs ?x) (NormalizePath p)" "fe_uuid (ae_fm env) \<notin> set (map fm_ID (t_files (xf_db ?x)))"
    "Local_holder (acq_env.ae_now (fe_acq (ae_fm env) 0)) (''file:'' @ NormalizePath p) (xf_lock ?x) = None"
    by (simp_all add: ready_for_def)
  obtain m s' d' l' where up: "UploadFile (local_fm rootDir LocalDistributedLock) (ae_fm env) p data
        \<lparr>w_store = xf_fs ?x, w_db = xf_db ?x, w_lock = xf_lock ?x\<rparr> = (Inr m, \<lparr>w_store = s', w_db = d', w_lock = l'\<rparr>)"
    and ok: "LS_inv rootDir s'" "LS_calm s'" "db_faults d' = []" "LS_view rootDir s' = (LS_view rootDir (xf_fs ?x))(NormalizePath p \<mapsto> data)"
      "live_file d' = (live_file (xf_db ?x))(NormalizePath p \<mapsto> m)" "fm_Size m = int (length data)" "fm_Hash m = fe_sha (ae_fm env) data"
    using local_storage.UploadFile_total [OF r(1-4) assms(3) r(5-7), of data] by blast
  have path: "fm_Path m = NormalizePath p" by (rule live_file_path [of d']) (simp add: ok(5))
  let ?w' = "auditLog env rq ''upload'' p [] (w\<lparr>ap_xf := ?x\<lparr>xf_fs := s', xf_db := d', xf_lock := l'\<rparr>\<rparr>)"
  have "handleUpload sv env rq w = (reply 201 (B_File m), ?w')"
    using assms(1-3) up
    by (auto simp: handleUpload_def inline_upload_def plain_server_def upload_small_def LimitReader_def ReadAll_def upload_reply_def lift_fm_def)
  moreover have "holds_file rootDir (NormalizePath p) data ?w'"
    using ok path by (simp add: holds_file_def auditLog_def)
  ultimately show ?thesis using ok path by blast
qed


definition sample_upload :: request where
  "sample_upload = (sample_request [])\<lparr>rq_method := ''POST'', rq_form := [(''path'', ''/docs/a.txt'')],
     rq_file := Some \<lparr>uf_name = ''a.txt'', uf_size = 5, uf_reader = \<lparr>rd_data = ''hello'', rd_err = None\<rparr>\<rparr>\<rparr>"

lemma sample_upload_ready:
  "plain_server ''/srv/data'' sample_server" "inline_upload sample_server sample_upload ''/docs/a.txt'' ''hello''"
  "IsValidFilePath ''/docs/a.txt''" "ready_for ''/srv/data'' sample_api_env ''/docs/a.txt'' sample_api"
proof -
  show "plain_server ''/srv/data'' sample_server"
    by (simp add: plain_server_def sample_server_def NewServer_def crypto_on_def Let_def)
  have "IsValidFileName ''a.txt''" "int (length ''hello'') \<le> sv_maxUploadSize sample_server" by code_simp+
  then show "inline_upload sample_server sample_upload ''/docs/a.txt'' ''hello''"
    by (simp add: inline_upload_def sample_upload_def sample_request_def lookup_str_def)
  show "IsValidFilePath ''/docs/a.txt''" by code_simp
  have n: "NormalizePath ''/docs/a.txt'' = ''docs/a.txt''" by code_simp
  show "ready_for ''/srv/data'' sample_api_env ''/docs/a.txt'' sample_api"
    unfolding ready_for_def n
    using sample_facts(3,4)
    by (simp add: sample_api_def sample_xfer_def sample_api_env_def sample_env_def LS_inv_def LS_calm_def LS_writable_def sample_fs_def
        ok_root_def root_elems_def abs_of_def proper_name_def fs_tree_def fs_get_def under_file_def is_file_def fkey_def empty_db_def Local_holder_def)
qed


end
