(* ===== verification/Grpc_Server.thy ===== *)
theory Grpc_Server
  imports Http_Files
begin

text \<open>
  \<open>src/internal/api/grpc/server.go\<close>: the gRPC server.  A call is the metadata of its context
  and its request; the interceptors authenticate and authorize it, then its method runs.  The stream of
  an upload is the list of messages that arrive before it ends or fails.  The generated stubs and the
  transport belong to gRPC.
\<close>

section \<open>Calls and answers\<close>

datatype code = Unauthenticated | PermissionDenied | InvalidArgument | NotFound | Internal

text \<open>A method returns a status of its own or any other error, which the transport reports as
  unknown.\<close>

datatype rpc_error = Status code string | Plain err

type_synonym 'a rpc = "rpc_error + 'a"

datatype UploadRequest =
    UR_Metadata string string int string
      \<comment> \<open>path, name, total size, hash\<close>
  | UR_Chunk bytes int
  | UR_None

record upload_stream =
  st_msgs :: "UploadRequest list"
  st_err :: "err option"

datatype recv = Msg UploadRequest | EOF | Failed err

definition Recv :: "upload_stream \<Rightarrow> recv \<times> upload_stream" where
  "Recv st = (case st_msgs st of
     m # ms \<Rightarrow> (Msg m, st\<lparr>st_msgs := ms\<rparr>)
   | [] \<Rightarrow> (case st_err st of None \<Rightarrow> (EOF, st) | Some e \<Rightarrow> (Failed e, st)))"

datatype rpc_request =
    Q_UploadFile upload_stream
  | Q_DownloadFile string int int
      \<comment> \<open>path, offset, chunk size\<close>
  | Q_ListFiles string bool int int string string
  | Q_DeleteFile string
  | Q_RenameFile string string
  | Q_CreateDirectory string
  | Q_DeleteDirectory string bool
  | Q_RenameDirectory string string
  | Q_GetMetadata string

record FileInfo =
  gi_Id :: string
  gi_Path :: string
  gi_Name :: string
  gi_Size :: int
  gi_Type :: string
  gi_CreatedAt :: "gotime option"

record GetMetadataResponse =
  gm_Id :: string
  gm_Path :: string
  gm_Name :: string
  gm_Size :: int
  gm_Type :: string
  gm_Hash :: string
  gm_StorageType :: string
  gm_CreatedAt :: "gotime option"
  gm_UpdatedAt :: "gotime option"

record UploadResponse =
  ur_Id :: string
  ur_Path :: string
  ur_Name :: string
  ur_Size :: int
  ur_Hash :: string
  ur_CreatedAt :: "gotime option"

datatype rpc_response =
    A_Upload UploadResponse
  | A_Download
  | A_List int int int "FileInfo list"
  | A_Done string
  | A_Metadata GetMetadataResponse

record ('a, 'ss, 'l) grpc_server =
  gs_config :: ServerConfig
  gs_fm :: "('a fs_scheme, 'l) FileManager"
  gs_dirSvc :: "('a fs_scheme, 'l) DirectoryManager"
  gs_transferSvc :: "('a, 'ss, 'l) FileTransferService"
  gs_hasAuth :: bool
  gs_cryptoSvc :: "CryptoService option"

definition NewServer_grpc ::
  "ServerConfig \<Rightarrow> ('a fs_scheme, 'l) FileManager \<Rightarrow> ('a fs_scheme, 'l) DirectoryManager \<Rightarrow> ('a, 'ss, 'l) FileTransferService \<Rightarrow>
   bool \<Rightarrow> CryptoService option \<Rightarrow> ('a, 'ss, 'l) grpc_server"
where
  "NewServer_grpc cfg fm dirSvc transferSvc hasAuth cryptoSvc =
     \<lparr>gs_config = cfg, gs_fm = fm, gs_dirSvc = dirSvc, gs_transferSvc = transferSvc, gs_hasAuth = hasAuth, gs_cryptoSvc = cryptoSvc\<rparr>"

text \<open>\<open>ge_chunk i\<close> is the environment of the \<open>i\<close>-th call of \<open>UploadChunk\<close>, \<open>ge_complete\<close> that of
  the completion, \<open>ge_send i\<close> the outcome of the \<open>i\<close>-th \<open>Send\<close>, \<open>ge_parse\<close> is \<open>time.Parse\<close> with the layout
  of the timestamps.\<close>

record 'l grpc_env =
  ge_api :: "'l api_env"
  ge_chunk :: "nat \<Rightarrow> 'l xf_env"
  ge_complete :: "'l xf_env"
  ge_send :: "nat \<Rightarrow> err option"
  ge_parse :: "string \<Rightarrow> gotime res"

section \<open>Authentication\<close>

definition methodPermissions :: "(string \<times> string \<times> string) list" where
  "methodPermissions =
     [(''/fsserver.FileService/UploadFile'', ''files'', ''write''), (''/fsserver.FileService/DownloadFile'', ''files'', ''read''),
      (''/fsserver.FileService/ListFiles'', ''files'', ''read''), (''/fsserver.FileService/DeleteFile'', ''files'', ''write''),
      (''/fsserver.FileService/RenameFile'', ''files'', ''write''), (''/fsserver.FileService/CreateDirectory'', ''files'', ''write''),
      (''/fsserver.FileService/DeleteDirectory'', ''files'', ''write''), (''/fsserver.FileService/RenameDirectory'', ''files'', ''write''),
      (''/fsserver.FileService/GetMetadata'', ''files'', ''read'')]"

fun FullMethod :: "rpc_request \<Rightarrow> string" where
  "FullMethod (Q_UploadFile st) = ''/fsserver.FileService/UploadFile''"
| "FullMethod (Q_DownloadFile p o' c) = ''/fsserver.FileService/DownloadFile''"
| "FullMethod (Q_ListFiles p r pg ps sb so) = ''/fsserver.FileService/ListFiles''"
| "FullMethod (Q_DeleteFile p) = ''/fsserver.FileService/DeleteFile''"
| "FullMethod (Q_RenameFile p n) = ''/fsserver.FileService/RenameFile''"
| "FullMethod (Q_CreateDirectory p) = ''/fsserver.FileService/CreateDirectory''"
| "FullMethod (Q_DeleteDirectory p r) = ''/fsserver.FileService/DeleteDirectory''"
| "FullMethod (Q_RenameDirectory p n) = ''/fsserver.FileService/RenameDirectory''"
| "FullMethod (Q_GetMetadata p) = ''/fsserver.FileService/GetMetadata''"

type_synonym metadata = "(string \<times> string) list"

definition md_Get :: "metadata \<Rightarrow> string \<Rightarrow> string list" where
  "md_Get md k = map snd (filter (\<lambda>p. fst p = k) md)"

definition withUser :: "'l api_env \<Rightarrow> string \<Rightarrow> ('a, 'ss, 'l, 'c) api \<Rightarrow> User option \<times> ('a, 'ss, 'l, 'c) api" where
  "withUser env apiKey w = key_user env apiKey w"

definition access_token :: "'l api_env \<Rightarrow> string \<Rightarrow> ('a, 'ss, 'l, 'c) api \<Rightarrow> bool" where
  "access_token env tok w =
     (case au_jwtService (ap_auth w) of
        None \<Rightarrow> False
      | Some js \<Rightarrow>
          (case ValidateToken (ae_jwt env) (ae_now env) tok js of
             Inl e \<Rightarrow> False
           | Inr claims \<Rightarrow> jc_TokenType claims = [] \<or> jc_TokenType claims = ''access''))"

definition need_key :: "'l api_env \<Rightarrow> ('a, 'ss, 'l, 'c) api \<Rightarrow> User option rpc \<times> ('a, 'ss, 'l, 'c) api" where
  "need_key env w =
     (case validate_key env [] w of
        (ok, w1) \<Rightarrow> if \<not> ok then (Inl (Status Unauthenticated ''authentication required''), w1) else (Inr None, w1))"

definition with_user :: "'l api_env \<Rightarrow> string \<Rightarrow> ('a, 'ss, 'l, 'c) api \<Rightarrow> User option rpc \<times> ('a, 'ss, 'l, 'c) api" where
  "with_user env key w = (case withUser env key w of (u, w1) \<Rightarrow> (Inr u, w1))"

fun authorization_headers :: "'l api_env \<Rightarrow> string list \<Rightarrow> ('a, 'ss, 'l, 'c) api \<Rightarrow> User option rpc \<times> ('a, 'ss, 'l, 'c) api" where
  "authorization_headers env [] w = need_key env w"
| "authorization_headers env (ah # ahs) w =
     (if HasPrefix ah ''Bearer '' then
        (let token = TrimPrefix ah ''Bearer ''
         in case validate_key env token w of (ok, w1) \<Rightarrow>
              if ok then with_user env token w1
              else if access_token env token w1 then with_user env token w1
              else (Inl (Status Unauthenticated ''invalid token''), w1))
      else if HasPrefix ah ''Api-Key '' then
        (let key = TrimPrefix ah ''Api-Key ''
         in case validate_key env key w of (ok, w1) \<Rightarrow>
              if ok then with_user env key w1 else (Inl (Status Unauthenticated ''invalid API key''), w1))
      else authorization_headers env ahs w)"

definition authenticate ::
  "('a, 'ss, 'l) grpc_server \<Rightarrow> 'l api_env \<Rightarrow> metadata option \<Rightarrow> ('a, 'ss, 'l, 'c) api \<Rightarrow> User option rpc \<times> ('a, 'ss, 'l, 'c) api"
where
  "authenticate sv env ctx w =
     (if \<not> gs_hasAuth sv then (Inr None, w)
      else case ctx of
        None \<Rightarrow> need_key env w
      | Some md \<Rightarrow>
          (case md_Get md ''x-api-key'' of
             key # _ \<Rightarrow>
               if key \<noteq> [] then
                 (case validate_key env key w of (ok, w1) \<Rightarrow>
                    if ok then with_user env key w1 else (Inl (Status Unauthenticated ''invalid API key''), w1))
               else authorization_headers env (md_Get md ''authorization'') w
           | [] \<Rightarrow> authorization_headers env (md_Get md ''authorization'') w))"

definition authorize ::
  "('a, 'ss, 'l) grpc_server \<Rightarrow> 'l api_env \<Rightarrow> User option \<Rightarrow> string \<Rightarrow> ('a, 'ss, 'l, 'c) api \<Rightarrow> unit rpc \<times> ('a, 'ss, 'l, 'c) api"
where
  "authorize sv env user method w =
     (if \<not> gs_hasAuth sv then (Inr (), w)
      else case validate_key env [] w of (off, w1) \<Rightarrow>
        if off then (Inr (), w1)
        else (case map_of methodPermissions method of
          None \<Rightarrow> (Inr (), w1)
        | Some (resource, action) \<Rightarrow>
            (case user of
               None \<Rightarrow> (Inl (Status PermissionDenied ''permission denied: no authenticated user''), w1)
             | Some u \<Rightarrow>
                 if \<not> u_Enabled u then (Inl (Status PermissionDenied ''permission denied: no authenticated user''), w1)
                 else if u_Role u = ''admin'' then (Inr (), w1)
                 else if u_Role u = ''user'' \<and> resource = ''files'' \<and> (action = ''read'' \<or> action = ''write'') then (Inr (), w1)
                 else (Inl (Status PermissionDenied ''permission denied''), w1))))"


section \<open>Uploads\<close>

definition parseTimestamp :: "(string \<Rightarrow> gotime res) \<Rightarrow> string \<Rightarrow> gotime option res" where
  "parseTimestamp parse s = (if s = [] then Inr None else case parse s of Inl e \<Rightarrow> Inl e | Inr t \<Rightarrow> Inr (Some t))"

text \<open>The callers drop the error.\<close>

definition stamp :: "'l grpc_env \<Rightarrow> string \<Rightarrow> gotime option" where
  "stamp env s = (case parseTimestamp (ge_parse env) s of Inl e \<Rightarrow> None | Inr t \<Rightarrow> t)"

definition upload_response :: "'l grpc_env \<Rightarrow> FileMetadata \<Rightarrow> rpc_response" where
  "upload_response env m = A_Upload \<lparr>ur_Id = fm_ID m, ur_Path = fm_Path m, ur_Name = fm_Name m, ur_Size = fm_Size m,
     ur_Hash = fm_Hash m, ur_CreatedAt = stamp env (fm_CreatedAt m)\<rparr>"

abbreviation grpcFastPathMaxSize :: int where "grpcFastPathMaxSize \<equiv> 16777216"

definition uploadFileFastPath ::
  "('a, 'ss, 'l) grpc_server \<Rightarrow> 'l grpc_env \<Rightarrow> string \<Rightarrow> string \<Rightarrow> bytes \<Rightarrow> ('a, 'ss, 'l, 'c) api \<Rightarrow> rpc_response rpc \<times> ('a, 'ss, 'l, 'c) api"
where
  "uploadFileFastPath sv env path hash data w =
     (if hash \<noteq> [] \<and> fe_sha (ae_fm (ge_api env)) data \<noteq> hash then (Inl (Status InvalidArgument ''hash mismatch''), w)
      else case lift_fm (UploadFile (gs_fm sv) (ae_fm (ge_api env)) path data) w of
        (Inl e, w1) \<Rightarrow> (Inl (Plain (Wrapf ''failed to upload file'' e)), w1)
      | (Inr fileMeta, w1) \<Rightarrow> (Inr (upload_response env fileMeta), w1))"

definition abort_upload :: "('a, 'ss, 'l) grpc_server \<Rightarrow> string \<Rightarrow> ('a, 'ss, 'l, 'c) api \<Rightarrow> ('a, 'ss, 'l, 'c) api" where
  "abort_upload sv sid w = snd (lift_xf (AbortUpload (gs_transferSvc sv) sid) w)"

definition put_chunk ::
  "('a, 'ss, 'l) grpc_server \<Rightarrow> 'l xf_env \<Rightarrow> string \<Rightarrow> bytes \<Rightarrow> int \<Rightarrow> ('a, 'ss, 'l, 'c) api \<Rightarrow> unit rpc \<times> ('a, 'ss, 'l, 'c) api"
where
  "put_chunk sv env sid data offset w =
     (case lift_xf (UploadChunk (gs_transferSvc sv) env sid data offset) w of
        (Inl e, w1) \<Rightarrow> (Inl (Plain (Wrapf ''failed to upload chunk'' e)), abort_upload sv sid w1)
      | (Inr _, w1) \<Rightarrow> (Inr (), w1))"

text \<open>The loop that reads the rest of the stream.\<close>

fun recv_chunks ::
  "('a, 'ss, 'l) grpc_server \<Rightarrow> 'l grpc_env \<Rightarrow> string \<Rightarrow> nat \<Rightarrow> UploadRequest list \<Rightarrow> err option \<Rightarrow> ('a, 'ss, 'l, 'c) api \<Rightarrow> unit rpc \<times> ('a, 'ss, 'l, 'c) api"
where
  "recv_chunks sv env sid i [] None w = (Inr (), w)"
| "recv_chunks sv env sid i [] (Some e) w = (Inl (Plain (Wrapf ''failed to receive upload request'' e)), abort_upload sv sid w)"
| "recv_chunks sv env sid i (UR_Chunk data offset # ms) fail w =
     (case put_chunk sv (ge_chunk env i) sid data offset w of
        (Inl e, w1) \<Rightarrow> (Inl e, w1)
      | (Inr _, w1) \<Rightarrow> recv_chunks sv env sid (Suc i) ms fail w1)"
| "recv_chunks sv env sid i (_ # ms) fail w = (Inl (Plain (Errorf ''expected chunk in multi-chunk upload'')), abort_upload sv sid w)"

text \<open>The upload through a session, from its creation; \<open>next\<close> is the message that was read
  ahead.\<close>

definition upload_through_session ::
  "('a, 'ss, 'l) grpc_server \<Rightarrow> 'l grpc_env \<Rightarrow> string \<Rightarrow> string \<Rightarrow> int \<Rightarrow> string \<Rightarrow> bytes \<Rightarrow> int \<Rightarrow> recv \<Rightarrow> upload_stream \<Rightarrow>
   ('a, 'ss, 'l, 'c) api \<Rightarrow> rpc_response rpc \<times> ('a, 'ss, 'l, 'c) api"
where
  "upload_through_session sv env path name totalSize hash data offset next st w =
     (case lift_xf (CreateUploadSession (gs_transferSvc sv) (ae_xf (ge_api env)) path name totalSize [] hash) w of
        (Inl e, w1) \<Rightarrow> (Inl (Plain (Wrapf ''failed to create upload session'' e)), w1)
      | (Inr sid, w1) \<Rightarrow>
     (case put_chunk sv (ge_chunk env 0) sid data offset w1 of
        (Inl e, w2) \<Rightarrow> (Inl e, w2)
      | (Inr _, w2) \<Rightarrow>
     (case (case next of
              Msg (UR_Chunk data2 offset2) \<Rightarrow> put_chunk sv (ge_chunk env 1) sid data2 offset2 w2
            | Msg _ \<Rightarrow> (Inr (), w2)
            | EOF \<Rightarrow> (Inr (), w2)
            | Failed e \<Rightarrow> (Inl (Plain (Wrapf ''failed to receive upload request'' e)), abort_upload sv sid w2)) of
        (Inl e, w3) \<Rightarrow> (Inl e, w3)
      | (Inr _, w3) \<Rightarrow>
     (case recv_chunks sv env sid 2 (st_msgs st) (st_err st) w3 of
        (Inl e, w4) \<Rightarrow> (Inl e, w4)
      | (Inr _, w4) \<Rightarrow>
     (case lift_xf (CompleteUpload (gs_transferSvc sv) (ge_complete env) sid) w4 of
        (Inl e, w5) \<Rightarrow> (Inl (Plain (Wrapf ''failed to complete upload'' e)), w5)
      | (Inr _, w5) \<Rightarrow>
     (case lift_db (GetFileMetadata path) w5 of
        (Inl e, w6) \<Rightarrow> (Inl (Plain (Wrapf ''failed to get file metadata after upload'' e)), w6)
      | (Inr fileMeta, w6) \<Rightarrow> (Inr (upload_response env fileMeta), w6)))))))"

definition upload_metadata_ok :: "('a, 'ss, 'l) grpc_server \<Rightarrow> string \<Rightarrow> string \<Rightarrow> int \<Rightarrow> unit rpc" where
  "upload_metadata_ok sv path name totalSize =
     (let maxUploadSize = wrap64 (sc_MaxUploadSizeMB (gs_config sv) * 1048576)
      in if \<not> IsValidFilePath path then Inl (Status InvalidArgument ''invalid file path'')
         else if \<not> IsValidFileName name then Inl (Status InvalidArgument ''invalid file name'')
         else if totalSize \<le> 0 then Inl (Status InvalidArgument ''total_size must be positive'')
         else if maxUploadSize > 0 \<and> totalSize > maxUploadSize then Inl (Status InvalidArgument ''total_size exceeds maximum allowed size'')
         else Inr ())"

definition UploadFile_grpc ::
  "('a, 'ss, 'l) grpc_server \<Rightarrow> 'l grpc_env \<Rightarrow> upload_stream \<Rightarrow> ('a, 'ss, 'l, 'c) api \<Rightarrow> rpc_response rpc \<times> ('a, 'ss, 'l, 'c) api"
where
  "UploadFile_grpc sv env st w =
     (case Recv st of
        (EOF, st1) \<Rightarrow> (Inl (Plain (Wrapf ''failed to receive metadata'' (Ext ''EOF''))), w)
      | (Failed e, st1) \<Rightarrow> (Inl (Plain (Wrapf ''failed to receive metadata'' e)), w)
      | (Msg (UR_Metadata path name totalSize hash), st1) \<Rightarrow>
     (case upload_metadata_ok sv path name totalSize of
        Inl e \<Rightarrow> (Inl e, w)
      | Inr _ \<Rightarrow>
     (case Recv st1 of
        (EOF, st2) \<Rightarrow> (Inl (Plain (Errorf ''no chunk received in upload stream'')), w)
      | (Failed e, st2) \<Rightarrow> (Inl (Plain (Wrapf ''failed to receive first chunk'' e)), w)
      | (Msg (UR_Chunk data offset), st2) \<Rightarrow>
          (case Recv st2 of (next, st3) \<Rightarrow>
             if next = EOF \<and> offset = 0 \<and> int (length data) = totalSize \<and> int (length data) \<le> grpcFastPathMaxSize
             then uploadFileFastPath sv env path hash data w
             else upload_through_session sv env path name totalSize hash data offset next st3 w)
      | (Msg _, st2) \<Rightarrow> (Inl (Plain (Errorf ''expected chunk after metadata'')), w)))
      | (Msg _, st1) \<Rightarrow> (Inl (Plain (Errorf ''metadata must be sent first in upload stream'')), w))"

section \<open>Downloads\<close>

text \<open>The loop of \<open>DownloadFile\<close>, which returns what it sent.  A read gives at most
  \<open>chunkSize\<close> bytes, no more than 32 MiB, so that the offset does not overflow for any file that
  ends 32 MiB below the largest \<open>int64\<close>.\<close>

function download_loop ::
  "('a, 'ss, 'l) grpc_server \<Rightarrow> (nat \<Rightarrow> err option) \<Rightarrow> nat \<Rightarrow> FileMetadata \<Rightarrow> int \<Rightarrow> int \<Rightarrow> ('a, 'ss, 'l, 'c) api \<Rightarrow>
   ((bytes \<times> int) list \<times> unit rpc) \<times> ('a, 'ss, 'l, 'c) api"
where
  "download_loop sv send i meta chunkSize offset w =
     (if offset < fm_Size meta then
        (case lift_fm (DownloadFileDataAt (gs_fm sv) (Some meta) chunkSize offset) w of
           (Inl e, w1) \<Rightarrow> (([], Inl (Plain (Wrapf ''failed to read file chunk'' e))), w1)
         | (Inr data, w1) \<Rightarrow>
             if data = [] then (([], Inr ()), w1)
             else (case send i of
               Some e \<Rightarrow> (([], Inl (Plain (Wrapf ''failed to send download chunk'' e))), w1)
             | None \<Rightarrow>
                 (case download_loop sv send (Suc i) meta chunkSize (offset + int (length data)) w1 of
                    ((msgs, r), w2) \<Rightarrow> (((data, offset) # msgs, r), w2))))
      else (([], Inr ()), w))"
  by pat_completeness auto
termination by (relation "measure (\<lambda>(sv, send, i, meta, chunkSize, offset, w). nat (fm_Size meta - offset))") auto

declare download_loop.simps [simp del]

definition DownloadFile_grpc ::
  "('a, 'ss, 'l) grpc_server \<Rightarrow> 'l grpc_env \<Rightarrow> string \<Rightarrow> int \<Rightarrow> int \<Rightarrow> ('a, 'ss, 'l, 'c) api \<Rightarrow>
   ((bytes \<times> int) list \<times> unit rpc) \<times> ('a, 'ss, 'l, 'c) api"
where
  "DownloadFile_grpc sv env path reqOffset reqChunkSize w =
     (if \<not> IsValidFilePath path then (([], Inl (Status InvalidArgument ''invalid file path'')), w)
      else case lift_db (GetFileMetadata path) w of
        (Inl e, w1) \<Rightarrow> (([], Inl (Plain (Wrapf ''failed to get file metadata'' e))), w1)
      | (Inr meta, w1) \<Rightarrow>
          (let chunkSize0 = (if reqChunkSize \<le> 0 then 1048576 else reqChunkSize);
               chunkSize = (if chunkSize0 > 33554432 then 33554432 else chunkSize0);
               offset = (if reqOffset > 0 then reqOffset else 0)
           in download_loop sv (ge_send env) 0 meta chunkSize offset w1))"

section \<open>Unary calls\<close>

definition wrap32 :: "int \<Rightarrow> int" where
  "wrap32 x = (x + 2147483648) mod 4294967296 - 2147483648"

definition list_item :: "'l grpc_env \<Rightarrow> FileListItem \<Rightarrow> FileInfo" where
  "list_item env item = \<lparr>gi_Id = fi_ID item, gi_Path = fi_Path item, gi_Name = fi_Name item, gi_Size = fi_Size item,
     gi_Type = fi_Type item, gi_CreatedAt = stamp env (fi_CreatedAt item)\<rparr>"

definition ListFiles_grpc ::
  "('a, 'ss, 'l) grpc_server \<Rightarrow> 'l grpc_env \<Rightarrow> string \<Rightarrow> bool \<Rightarrow> int \<Rightarrow> int \<Rightarrow> string \<Rightarrow> string \<Rightarrow> ('a, 'ss, 'l, 'c) api \<Rightarrow>
   rpc_response rpc \<times> ('a, 'ss, 'l, 'c) api"
where
  "ListFiles_grpc sv env path recursive page reqPageSize sortBy sortOrder w =
     (let maxPageSize = sc_MaxPageSize (gs_config sv);
          pageSize = (if maxPageSize > 0 \<and> reqPageSize > maxPageSize then maxPageSize else reqPageSize)
      in case lift_db (ListFilesWithTotal (ae_fl (ge_api env)) path recursive page pageSize sortBy sortOrder) w of
           (Inl e, w1) \<Rightarrow> (Inl (Plain (Wrapf ''failed to list files'' e)), w1)
         | (Inr r, w1) \<Rightarrow>
             (Inr (A_List (wrap32 (fr_Total r)) (wrap32 (fr_Page r)) (wrap32 (fr_PageSize r)) (map (list_item env) (fr_Items r))), w1))"

definition internalError :: "string \<Rightarrow> err \<Rightarrow> rpc_error" where
  "internalError op e = Status Internal ''internal server error''"

definition done_rpc :: "string \<Rightarrow> string \<Rightarrow> unit res \<times> ('a, 'ss, 'l, 'c) api \<Rightarrow> rpc_response rpc \<times> ('a, 'ss, 'l, 'c) api" where
  "done_rpc op msg x = (case x of (Inl e, w1) \<Rightarrow> (Inl (internalError op e), w1) | (Inr _, w1) \<Rightarrow> (Inr (A_Done msg), w1))"

definition DeleteFile_grpc ::
  "('a, 'ss, 'l) grpc_server \<Rightarrow> 'l grpc_env \<Rightarrow> string \<Rightarrow> ('a, 'ss, 'l, 'c) api \<Rightarrow> rpc_response rpc \<times> ('a, 'ss, 'l, 'c) api"
where
  "DeleteFile_grpc sv env path w =
     (if path = [] then (Inl (Status InvalidArgument ''path is required''), w)
      else if \<not> IsValidFilePath path then (Inl (Status InvalidArgument ''invalid file path''), w)
      else done_rpc ''DeleteFile'' ''File deleted successfully'' (lift_fm (DeleteFile (gs_fm sv) (ae_fm (ge_api env)) path) w))"

definition RenameFile_grpc ::
  "('a, 'ss, 'l) grpc_server \<Rightarrow> 'l grpc_env \<Rightarrow> string \<Rightarrow> string \<Rightarrow> ('a, 'ss, 'l, 'c) api \<Rightarrow> rpc_response rpc \<times> ('a, 'ss, 'l, 'c) api"
where
  "RenameFile_grpc sv env path newName w =
     (if path = [] then (Inl (Status InvalidArgument ''path is required''), w)
      else if newName = [] then (Inl (Status InvalidArgument ''new_name is required''), w)
      else if \<not> IsValidFilePath path then (Inl (Status InvalidArgument ''invalid file path''), w)
      else if \<not> IsValidFileName newName then (Inl (Status InvalidArgument ''invalid new name''), w)
      else done_rpc ''RenameFile'' ''File renamed successfully'' (lift_fm (RenameFile (gs_fm sv) (ae_fm (ge_api env)) path newName) w))"

definition CreateDirectory_grpc ::
  "('a, 'ss, 'l) grpc_server \<Rightarrow> 'l grpc_env \<Rightarrow> string \<Rightarrow> ('a, 'ss, 'l, 'c) api \<Rightarrow> rpc_response rpc \<times> ('a, 'ss, 'l, 'c) api"
where
  "CreateDirectory_grpc sv env path w =
     (if path = [] then (Inl (Status InvalidArgument ''path is required''), w)
      else if \<not> IsValidFilePath path then (Inl (Status InvalidArgument ''invalid directory path''), w)
      else done_rpc ''CreateDirectory'' ''Directory created successfully'' (lift_dm (CreateDirectory (gs_dirSvc sv) (ae_dm (ge_api env)) path) w))"

definition GetMetadata_grpc ::
  "'l grpc_env \<Rightarrow> string \<Rightarrow> ('a, 'ss, 'l, 'c) api \<Rightarrow> rpc_response rpc \<times> ('a, 'ss, 'l, 'c) api"
where
  "GetMetadata_grpc env path w =
     (if \<not> IsValidFilePath path then (Inl (Status InvalidArgument ''invalid path''), w)
      else case lift_db (GetFileMetadata path) w of
        (Inr m, w1) \<Rightarrow>
          (Inr (A_Metadata \<lparr>gm_Id = fm_ID m, gm_Path = fm_Path m, gm_Name = fm_Name m, gm_Size = fm_Size m, gm_Type = ''file'', gm_Hash = fm_Hash m,
             gm_StorageType = fm_StorageType m, gm_CreatedAt = stamp env (fm_CreatedAt m), gm_UpdatedAt = stamp env (fm_UpdatedAt m)\<rparr>), w1)
      | (Inl e, w1) \<Rightarrow>
          (case lift_db (GetDirectoryMetadata path) w1 of
             (Inr m, w2) \<Rightarrow>
               (Inr (A_Metadata \<lparr>gm_Id = dm_ID m, gm_Path = dm_Path m, gm_Name = dm_Name m, gm_Size = 0, gm_Type = ''directory'', gm_Hash = [],
                  gm_StorageType = [], gm_CreatedAt = stamp env (dm_CreatedAt m), gm_UpdatedAt = stamp env (dm_UpdatedAt m)\<rparr>), w2)
           | (Inl e, w2) \<Rightarrow> (Inl (Status NotFound (''path not found: '' @ path)), w2)))"

definition DeleteDirectory_grpc ::
  "('a, 'ss, 'l) grpc_server \<Rightarrow> 'l grpc_env \<Rightarrow> string \<Rightarrow> bool \<Rightarrow> ('a, 'ss, 'l, 'c) api \<Rightarrow> rpc_response rpc \<times> ('a, 'ss, 'l, 'c) api"
where
  "DeleteDirectory_grpc sv env path recursive w =
     (if path = [] then (Inl (Status InvalidArgument ''path is required''), w)
      else if \<not> IsValidFilePath path then (Inl (Status InvalidArgument ''invalid directory path''), w)
      else done_rpc ''DeleteDirectory'' ''Directory deleted successfully''
        (lift_dm (DeleteDirectory (gs_dirSvc sv) (ae_dm (ge_api env)) path recursive) w))"

definition RenameDirectory_grpc ::
  "('a, 'ss, 'l) grpc_server \<Rightarrow> 'l grpc_env \<Rightarrow> string \<Rightarrow> string \<Rightarrow> ('a, 'ss, 'l, 'c) api \<Rightarrow> rpc_response rpc \<times> ('a, 'ss, 'l, 'c) api"
where
  "RenameDirectory_grpc sv env path newName w =
     (if path = [] then (Inl (Status InvalidArgument ''path is required''), w)
      else if newName = [] then (Inl (Status InvalidArgument ''new_name is required''), w)
      else if \<not> IsValidFilePath path then (Inl (Status InvalidArgument ''invalid directory path''), w)
      else if \<not> IsValidFileName newName then (Inl (Status InvalidArgument ''invalid new name''), w)
      else done_rpc ''RenameDirectory'' ''Directory renamed successfully''
        (lift_dm (RenameDirectory (gs_dirSvc sv) (ae_dm (ge_api env)) path newName) w))"

text \<open>The loop searches the last slash from the end.\<close>

definition computeNewPath :: "string \<Rightarrow> string \<Rightarrow> string" where
  "computeNewPath oldPath newName =
     (let dir = (if slash \<in> set oldPath then rev (drop 1 (dropWhile (\<lambda>c. c \<noteq> slash) (rev oldPath))) else [])
      in if dir = [] then newName else dir @ ''/'' @ newName)"

section \<open>A call\<close>

type_synonym rpc_reply = "((bytes \<times> int) list \<times> rpc_response rpc)"

fun rpc_handler ::
  "('a, 'ss, 'l) grpc_server \<Rightarrow> 'l grpc_env \<Rightarrow> rpc_request \<Rightarrow> ('a, 'ss, 'l, 'c) api \<Rightarrow> rpc_reply \<times> ('a, 'ss, 'l, 'c) api"
where
  "rpc_handler sv env (Q_UploadFile st) w = map_prod (Pair []) id (UploadFile_grpc sv env st w)"
| "rpc_handler sv env (Q_DownloadFile p ofs c) w =
     map_prod (\<lambda>(msgs, r). (msgs, map_sum id (\<lambda>_. A_Download) r)) id (DownloadFile_grpc sv env p ofs c w)"
| "rpc_handler sv env (Q_ListFiles p r pg ps sb so) w = map_prod (Pair []) id (ListFiles_grpc sv env p r pg ps sb so w)"
| "rpc_handler sv env (Q_DeleteFile p) w = map_prod (Pair []) id (DeleteFile_grpc sv env p w)"
| "rpc_handler sv env (Q_RenameFile p n) w = map_prod (Pair []) id (RenameFile_grpc sv env p n w)"
| "rpc_handler sv env (Q_CreateDirectory p) w = map_prod (Pair []) id (CreateDirectory_grpc sv env p w)"
| "rpc_handler sv env (Q_DeleteDirectory p r) w = map_prod (Pair []) id (DeleteDirectory_grpc sv env p r w)"
| "rpc_handler sv env (Q_RenameDirectory p n) w = map_prod (Pair []) id (RenameDirectory_grpc sv env p n w)"
| "rpc_handler sv env (Q_GetMetadata p) w = map_prod (Pair []) id (GetMetadata_grpc env p w)"

text \<open>\<open>unaryAuthInterceptor\<close> and \<open>streamAuthInterceptor\<close>, which do the same.\<close>

definition authInterceptor ::
  "('a, 'ss, 'l) grpc_server \<Rightarrow> 'l grpc_env \<Rightarrow> metadata option \<Rightarrow> rpc_request \<Rightarrow> ('a, 'ss, 'l, 'c) api \<Rightarrow> rpc_reply \<times> ('a, 'ss, 'l, 'c) api"
where
  "authInterceptor sv env ctx q w =
     (case authenticate sv (ge_api env) ctx w of
        (Inl e, w1) \<Rightarrow> (([], Inl e), w1)
      | (Inr u, w1) \<Rightarrow>
          (case authorize sv (ge_api env) u (FullMethod q) w1 of
             (Inl e, w2) \<Rightarrow> (([], Inl e), w2)
           | (Inr _, w2) \<Rightarrow> rpc_handler sv env q w2))"

end
