(* ===== verification/Grpc_Files.thy ===== *)
theory Grpc_Files
  imports Grpc_Server
begin

text \<open>
  Files through the gRPC server: what an upload stores, what a download sends, and who may call.
\<close>

section \<open>Downloads\<close>

text \<open>The messages of a download cover the data from an offset on, one after the other.\<close>

fun covers :: "int \<Rightarrow> nat \<Rightarrow> bytes \<Rightarrow> (bytes \<times> int) list \<Rightarrow> bool" where
  "covers limit ofs data [] \<longleftrightarrow> length data \<le> ofs"
| "covers limit ofs data ((b, o') # ms) \<longleftrightarrow>
     o' = int ofs \<and> b \<noteq> [] \<and> int (length b) \<le> limit \<and> b = take (length b) (drop ofs data) \<and> covers limit (ofs + length b) data ms"

lemma covers_concat: "covers limit ofs data ms \<Longrightarrow> concat (map fst ms) = drop ofs data"
proof (induction ms arbitrary: ofs)
  case (Cons m ms)
  obtain b o' where m: "m = (b, o')" by (cases m)
  with Cons have "concat (map fst ms) = drop (ofs + length b) data" "b = take (length b) (drop ofs data)" by auto
  then show ?case using m append_take_drop_id [of "length b" "drop ofs data"] by (simp add: add.commute)
qed simp

lemma download_loop_covers:
  assumes fm: "gs_fm sv = local_fm rootDir lk" and h: "holds_file rootDir p data w" and sp: "safe_path p"
    and m: "fm_Path m = p" "fm_Size m = int (length data)" and c: "0 < c" and s: "\<And>i. send i = None"
  shows "\<exists>ms. download_loop sv send i m c (int ofs) w = ((ms, Inr ()), w) \<and> covers c ofs data ms"
proof (induction "length data - ofs" arbitrary: ofs i rule: less_induct)
  case less
  show ?case
  proof (cases "ofs < length data")
    case False
    then show ?thesis by (subst download_loop.simps) (simp add: m)
  next
    case True
    let ?b = "take (nat c) (drop ofs data)"
    have ne: "?b \<noteq> []" using True c by simp
    have "sa_ReadAt (NewLocalStorage rootDir) p c (int ofs) (xf_fs (ap_xf w)) = (Inr ?b, xf_fs (ap_xf w))"
      using local_storage.readAt_ok [OF _ _ sp, of rootDir "xf_fs (ap_xf w)" data c "int ofs"] h c by (simp add: holds_file_def)
    then have rd: "lift_fm (DownloadFileDataAt (gs_fm sv) (Some m) c (int ofs)) w = (Inr ?b, w)"
      using fm m(1) sp by (simp add: lift_fm_def DownloadFileDataAt_def)
    have "length data - (ofs + length ?b) < length data - ofs" using True c by simp
    from less.hyps [OF this, of "Suc i"] obtain ms where ms: "download_loop sv send (Suc i) m c (int (ofs + length ?b)) w = ((ms, Inr ()), w)"
      "covers c (ofs + length ?b) data ms" by blast
    have "download_loop sv send i m c (int ofs) w = (((?b, int ofs) # ms, Inr ()), w)"
      using True ne ms(1) by (subst download_loop.simps) (simp add: m(2) rd s)
    moreover have "covers c ofs data ((?b, int ofs) # ms)"
    proof -
      have "?b = take (length ?b) (drop ofs data)" by (simp add: min_def)
      moreover have "int (length ?b) \<le> c" using c by auto
      ultimately show ?thesis unfolding covers.simps using ne ms(2) by blast
    qed
    ultimately show ?thesis by blast
  qed
qed

lemma DownloadFile_grpc_covers:
  assumes fm: "gs_fm sv = local_fm rootDir lk" and h: "holds_file rootDir (NormalizePath p) data w" and v: "IsValidFilePath p"
    and s: "\<And>i. ge_send env i = None"
  shows "\<exists>ms. DownloadFile_grpc sv env p ofs c w = ((ms, Inr ()), w) \<and> covers 33554432 (nat ofs) data ms"
proof -
  obtain m where m: "lift_db (GetFileMetadata (NormalizePath p)) w = (Inr m, w)" "fm_Path m = NormalizePath p" "fm_Size m = int (length data)"
    by (rule download_metadata [OF h v])
  have sp: "safe_path (NormalizePath p)" by (rule valid_path_safe [OF v])
  have meta: "lift_db (GetFileMetadata p) w = (Inr m, w)" using m(1) sp by (simp add: lift_db_def GetFileMetadata_def)
  let ?c0 = "if c \<le> 0 then 1048576 else c" let ?c = "if ?c0 > 33554432 then 33554432 else ?c0"
  have "0 < ?c" "?c \<le> 33554432" by auto
  obtain ms where ms: "download_loop sv (ge_send env) 0 m ?c (int (nat ofs)) w = ((ms, Inr ()), w)" "covers ?c (nat ofs) data ms"
    using download_loop_covers [where send = "ge_send env" and i = 0 and ofs = "nat ofs", OF fm h sp m(2,3) \<open>0 < ?c\<close> s] by blast
  have mono: "covers a k data ms \<Longrightarrow> a \<le> b \<Longrightarrow> covers b k data ms" for a b k
    by (induction ms arbitrary: k) auto
  have "(if ofs > 0 then ofs else 0) = int (nat ofs)" by simp
  with ms(1) v meta have "DownloadFile_grpc sv env p ofs c w = ((ms, Inr ()), w)" by (simp add: DownloadFile_grpc_def Let_def)
  with mono [OF ms(2) \<open>?c \<le> 33554432\<close>] show ?thesis by blast
qed

section \<open>Uploads\<close>

abbreviation chunk_msgs :: "(int \<times> bytes) list \<Rightarrow> UploadRequest list" where
  "chunk_msgs cs \<equiv> map (\<lambda>(ofs, data). UR_Chunk data ofs) cs"

definition local_grpc :: "string \<Rightarrow> ('a, 'ss, 'l) grpc_server \<Rightarrow> bool" where
  "local_grpc rootDir sv \<longleftrightarrow> fmg_storage (gs_fm sv) = NewLocalStorage rootDir \<and> ts_storage (gs_transferSvc sv) = NewLocalStorage rootDir"

lemma put_chunk_track:
  assumes "up_track (gs_transferSvc sv) sid x0 (ap_xf w) ws" and "put_chunk sv env sid data ofs w = (Inr (), w')"
  shows "up_track (gs_transferSvc sv) sid x0 (ap_xf w') (ws @ [(ofs, data)])"
proof -
  obtain r x where u: "UploadChunk (gs_transferSvc sv) env sid data ofs (ap_xf w) = (r, x)" by fastforce
  with assms(2) have "r = Inr ()" "ap_xf w' = x" by (auto simp: put_chunk_def lift_xf_def split: sum.splits)
  with up_track_chunk [OF assms(1) u] show ?thesis by simp
qed

lemma recv_chunks_track:
  assumes "up_track (gs_transferSvc sv) sid x0 (ap_xf w) ws" and "recv_chunks sv env sid i (chunk_msgs cs) fail w = (Inr (), w')"
  shows "up_track (gs_transferSvc sv) sid x0 (ap_xf w') (ws @ cs)"
  using assms
proof (induction cs arbitrary: i w ws)
  case Nil
  then show ?case by (cases fail) auto
next
  case (Cons c cs)
  obtain ofs data where c: "c = (ofs, data)" by (cases c)
  with Cons.prems(2) obtain w1 where p: "put_chunk sv (ge_chunk env i) sid data ofs w = (Inr (), w1)"
    and r: "recv_chunks sv env sid (Suc i) (chunk_msgs cs) fail w1 = (Inr (), w')" by (auto split: prod.splits sum.splits)
  from Cons.IH [OF put_chunk_track [OF Cons.prems(1) p] r] c show ?case by simp
qed


text \<open>What a successful upload has done to the process.\<close>

definition uploaded :: "string \<Rightarrow> string \<Rightarrow> bytes \<Rightarrow> string \<Rightarrow> ('a, 'ss, 'l, 'c) api \<Rightarrow> ('a, 'ss, 'l, 'c) api \<Rightarrow> rpc_response \<Rightarrow> bool" where
  "uploaded rootDir p b hash w w' resp \<longleftrightarrow>
     LS_view rootDir (xf_fs (ap_xf w')) = (LS_view rootDir (xf_fs (ap_xf w)))(p \<mapsto> b) \<and>
     (\<exists>m. live_file (xf_db (ap_xf w')) = (live_file (xf_db (ap_xf w)))(p \<mapsto> m)) \<and>
     (\<exists>r. resp = A_Upload r \<and> ur_Path r = p \<and> ur_Size r = int (length b) \<and> (hash \<noteq> [] \<longrightarrow> ur_Hash r = hash))"

lemma UploadFile_ok:
  assumes "fmg_storage fm = NewLocalStorage rootDir" "LS_inv rootDir (w_store v)" "db_wf (w_db v)" "safe_path (NormalizePath p)"
    and u: "UploadFile fm env p data v = (Inr m, v')"
  shows "LS_view rootDir (w_store v') = (LS_view rootDir (w_store v))(NormalizePath p \<mapsto> data) \<and>
    live_file (w_db v') = (live_file (w_db v))(NormalizePath p \<mapsto> m) \<and> fm_Size m = int (length data) \<and> fm_Hash m = fe_sha env data"
proof -
  obtain s1 d1 where b: "upload_body (NewLocalStorage rootDir) env (NormalizePath p) data (w_store v, w_db v) = (Inr m, s1, d1)"
    "w_store v' = s1" "w_db v' = d1"
    using u assms(1) by (auto simp: UploadFile_def Let_def split: prod.splits sum.splits)
  from local_storage.upload_body_ok [OF assms(2-4) b(1)] b(2,3) show ?thesis by simp
qed

lemma fast_path_stores:
  assumes "fmg_storage (gs_fm sv) = NewLocalStorage rootDir" "LS_inv rootDir (xf_fs (ap_xf w))" "db_wf (xf_db (ap_xf w))" "safe_path (NormalizePath p)"
    and u: "uploadFileFastPath sv env p hash data w = (Inr resp, w')"
  shows "uploaded rootDir (NormalizePath p) data hash w w' resp \<and> (hash \<noteq> [] \<longrightarrow> fe_sha (ae_fm (ge_api env)) data = hash)"
proof -
  let ?v = "\<lparr>w_store = xf_fs (ap_xf w), w_db = xf_db (ap_xf w), w_lock = xf_lock (ap_xf w)\<rparr>"
  obtain m v' where f: "UploadFile (gs_fm sv) (ae_fm (ge_api env)) p data ?v = (Inr m, v')" and resp: "resp = upload_response env m"
    and w': "xf_fs (ap_xf w') = w_store v'" "xf_db (ap_xf w') = w_db v'" and h: "hash \<noteq> [] \<longrightarrow> fe_sha (ae_fm (ge_api env)) data = hash"
    using u by (auto simp: uploadFileFastPath_def lift_fm_def Let_def split: prod.splits sum.splits if_splits)
  from UploadFile_ok [OF assms(1) _ _ assms(4) f] assms(2,3)
  have ok: "LS_view rootDir (w_store v') = (LS_view rootDir (xf_fs (ap_xf w)))(NormalizePath p \<mapsto> data)"
    "live_file (w_db v') = (live_file (xf_db (ap_xf w)))(NormalizePath p \<mapsto> m)" "fm_Size m = int (length data)"
    "fm_Hash m = fe_sha (ae_fm (ge_api env)) data" by simp_all
  have "fm_Path m = NormalizePath p" by (rule live_file_path [of "w_db v'"]) (simp add: ok(2))
  with ok h show ?thesis by (auto simp: uploaded_def w' resp upload_response_def)
qed

lemma GetFileMetadata_live:
  assumes "GetFileMetadata p d = (Inr m, d')" "NormalizePath (NormalizePath p) = NormalizePath p"
  shows "live_file d (NormalizePath p) = Some m \<and> same_tables d' d"
  using assms by (auto simp: GetFileMetadata_def Let_def dest: File_GetByPath_res split: prod.splits sum.splits option.splits)


lemma CreateUploadSession_sid: "CreateUploadSession svc env path name tot client hash w = (Inr sid, w1) \<Longrightarrow> sid = xe_sid env"
  by (auto simp: CreateUploadSession_def Let_def split: prod.splits sum.splits if_splits bool.splits)

text \<open>The three steps by which a session gets its chunks come to one sequence of writes.\<close>

lemma read_ahead_track:
  assumes "up_track (gs_transferSvc sv) sid x0 (ap_xf w) ws" and "Recv \<lparr>st_msgs = chunk_msgs cs, st_err = fail\<rparr> = (next, st)"
    and "(case next of Msg (UR_Chunk data2 offset2) \<Rightarrow> put_chunk sv e1 sid data2 offset2 w | Msg _ \<Rightarrow> (Inr (), w) | EOF \<Rightarrow> (Inr (), w)
       | Failed e \<Rightarrow> (Inl (Plain (Wrapf msg e)), abort_upload sv sid w)) = (Inr (), w3)"
    and "recv_chunks sv env sid 2 (st_msgs st) (st_err st) w3 = (Inr (), w4)"
  shows "up_track (gs_transferSvc sv) sid x0 (ap_xf w4) (ws @ cs)"
proof (cases cs)
  case Nil
  with assms show ?thesis by (cases fail) (auto simp: Recv_def)
next
  case (Cons c cs')
  obtain ofs data where c: "c = (ofs, data)" by (cases c)
  from assms(2) Cons c have n: "next = Msg (UR_Chunk data ofs)" "st = \<lparr>st_msgs = chunk_msgs cs', st_err = fail\<rparr>" by (auto simp: Recv_def)
  with assms(3) have p: "put_chunk sv e1 sid data ofs w = (Inr (), w3)" by simp
  from assms(4) n(2) have r: "recv_chunks sv env sid 2 (chunk_msgs cs') fail w3 = (Inr (), w4)" by simp
  from recv_chunks_track [OF put_chunk_track [OF assms(1) p] r] Cons c show ?thesis by simp
qed

lemma session_path_stores:
  assumes st: "ts_storage (gs_transferSvc sv) = NewLocalStorage rootDir" "plain_storage (gs_transferSvc sv)" "LS_inv rootDir (xf_fs (ap_xf w))"
      "LS_calm (xf_fs (ap_xf w))" "db_wf (xf_db (ap_xf w))" "safe_path (NormalizePath p)" "0 \<le> tot" "tot \<le> max_int64"
    and out: "\<not> starts_with (root_elems rootDir) (fs_key (xf_fs (ap_xf w)) (tempPath (gs_transferSvc sv) (xe_sid (ae_xf (ge_api env)))))"
    and n: "Recv \<lparr>st_msgs = chunk_msgs cs, st_err = fail\<rparr> = (next, rest)"
    and u: "upload_through_session sv env p name tot hash data ofs next rest w = (Inr resp, w')"
  shows "uploaded rootDir (NormalizePath p) (written ((ofs, data) # cs) (zeros tot)) hash w w' resp \<and>
    (hash \<noteq> [] \<longrightarrow> xe_sha (ge_complete env) (written ((ofs, data) # cs) (zeros tot)) = hash) \<and>
    int (length (written ((ofs, data) # cs) (zeros tot))) = tot"
proof -
  let ?svc = "gs_transferSvc sv" let ?b = "written ((ofs, data) # cs) (zeros tot)"
  obtain sid w1 where c: "lift_xf (CreateUploadSession ?svc (ae_xf (ge_api env)) p name tot [] hash) w = (Inr sid, w1)"
    using u unfolding upload_through_session_def by (auto split: prod.splits sum.splits)
  obtain w2 where p0: "put_chunk sv (ge_chunk env 0) sid data ofs w1 = (Inr (), w2)"
    using u unfolding upload_through_session_def c prod.case sum.case by (auto split: prod.splits sum.splits)
  obtain w3 where p1: "(case next of Msg (UR_Chunk data2 offset2) \<Rightarrow> put_chunk sv (ge_chunk env 1) sid data2 offset2 w2
       | Msg _ \<Rightarrow> (Inr (), w2) | EOF \<Rightarrow> (Inr (), w2)
       | Failed e \<Rightarrow> (Inl (Plain (Wrapf ''failed to receive upload request'' e)), abort_upload sv sid w2)) = (Inr (), w3)" (is "?n = _")
    using u unfolding upload_through_session_def c p0 prod.case sum.case by (cases ?n) (auto split: sum.splits)
  obtain w4 where r: "recv_chunks sv env sid 2 (st_msgs rest) (st_err rest) w3 = (Inr (), w4)"
    using u unfolding upload_through_session_def c p0 p1 prod.case sum.case by (auto split: prod.splits sum.splits)
  obtain res w5 m where d: "lift_xf (CompleteUpload ?svc (ge_complete env) sid) w4 = (Inr res, w5)"
    and g: "lift_db (GetFileMetadata p) w5 = (Inr m, w')" and resp: "resp = upload_response env m"
    using u unfolding upload_through_session_def c p0 p1 r prod.case sum.case by (auto split: prod.splits sum.splits)
  from c have c': "CreateUploadSession ?svc (ae_xf (ge_api env)) p name tot [] hash (ap_xf w) = (Inr sid, ap_xf w1)"
    by (auto simp: lift_xf_def split: prod.splits)
  from d have d': "CompleteUpload ?svc (ge_complete env) sid (ap_xf w4) = (Inr res, ap_xf w5)"
    by (auto simp: lift_xf_def split: prod.splits)
  have "fs_tree (xf_fs (ap_xf w))" using st(3) by (simp add: LS_inv_def)
  from CreateUploadSession_track [OF this st(4,7,8) c'] have "up_track ?svc sid (ap_xf w1) (ap_xf w1) []" by blast
  from read_ahead_track [OF put_chunk_track [OF this p0] n p1 r] have t: "up_track ?svc sid (ap_xf w1) (ap_xf w4) ((ofs, data) # cs)" by simp
  have out': "\<not> starts_with (root_elems rootDir) (fs_key (xf_fs (ap_xf w)) (tempPath ?svc sid))"
    using out CreateUploadSession_sid [OF c'] by simp
  from session_stores [OF st out' c' t d'] have stores: "stores rootDir (NormalizePath p) ?b hash (ap_xf w) (ap_xf w5)"
    and h: "hash \<noteq> [] \<longrightarrow> xe_sha (ge_complete env) ?b = hash" "int (length ?b) = tot" by blast+
  from g obtain d6 where g': "GetFileMetadata p (xf_db (ap_xf w5)) = (Inr m, d6)" and w': "ap_xf w' = (ap_xf w5)\<lparr>xf_db := d6\<rparr>"
    by (auto simp: lift_db_def split: prod.splits)
  have live: "live_file (xf_db (ap_xf w5)) (NormalizePath p) = Some m" "live_file d6 = live_file (xf_db (ap_xf w5))"
    using GetFileMetadata_live [OF g'] st(6) live_file_eq by auto
  obtain m' where m': "live_file (xf_db (ap_xf w5)) = (live_file (xf_db (ap_xf w)))(NormalizePath p \<mapsto> m')"
    "fm_Size m' = int (length ?b)" "fm_Hash m' = hash" using stores by (auto simp: stores_def)
  have "m = m'" using live(1) m'(1) by simp
  moreover have "LS_view rootDir (xf_fs (ap_xf w5)) = (LS_view rootDir (xf_fs (ap_xf w)))(NormalizePath p \<mapsto> ?b)"
    using stores by (simp add: stores_def)
  ultimately show ?thesis using h live m' live_file_path [OF live(1)]
    by (auto simp: uploaded_def w' resp upload_response_def)
qed

text \<open>
  C34: what a gRPC upload stores.  On local storage without encryption, any database and a disk
  that works: when the stream of an announcement and any chunks is answered without an error, whether
  by the short path for a single chunk or through a session, the file consists of exactly those chunks, written in
  their order over a file of zeros of the announced size; no other file or record changed; the answer names the path and
  the size; and a hash that the client gave is the hash of what was stored.
\<close>

theorem grpc_upload_integrity:
  assumes "local_grpc rootDir sv" and "plain_storage (gs_transferSvc sv)" and "LS_inv rootDir (xf_fs (ap_xf w))" "LS_calm (xf_fs (ap_xf w))"
      "db_wf (xf_db (ap_xf w))" and "tot \<le> max_int64" and "xe_sha (ge_complete env) = sha" "fe_sha (ae_fm (ge_api env)) = sha"
    and "\<not> starts_with (root_elems rootDir) (fs_key (xf_fs (ap_xf w)) (tempPath (gs_transferSvc sv) (xe_sid (ae_xf (ge_api env)))))"
    and "UploadFile_grpc sv env \<lparr>st_msgs = UR_Metadata p name tot hash # chunk_msgs cs, st_err = fail\<rparr> w = (Inr resp, w')"
  shows "uploaded rootDir (NormalizePath p) (written cs (zeros tot)) hash w w' resp \<and> int (length (written cs (zeros tot))) = tot \<and>
    (hash \<noteq> [] \<longrightarrow> sha (written cs (zeros tot)) = hash)"
proof -
  have ok: "upload_metadata_ok sv p name tot = Inr ()"
    using assms(10) by (auto simp: UploadFile_grpc_def Recv_def split: sum.splits)
  then have v: "IsValidFilePath p" "0 < tot" by (auto simp: upload_metadata_ok_def Let_def split: if_splits)
  have sp: "safe_path (NormalizePath p)" by (rule valid_path_safe [OF v(1)])
  obtain ofs data cs' where cs: "cs = (ofs, data) # cs'"
    using assms(10) ok by (cases cs; cases fail) (auto simp: UploadFile_grpc_def Recv_def)
  obtain "next" rest where n: "Recv \<lparr>st_msgs = chunk_msgs cs', st_err = fail\<rparr> = (next, rest)" by fastforce
  let ?fast = "next = EOF \<and> ofs = 0 \<and> int (length data) = tot \<and> int (length data) \<le> grpcFastPathMaxSize"
  have u: "(if ?fast then uploadFileFastPath sv env p hash data w else upload_through_session sv env p name tot hash data ofs next rest w) = (Inr resp, w')"
    using assms(10) ok n by (auto simp: UploadFile_grpc_def Recv_def [of "\<lparr>st_msgs = _ # _, st_err = _\<rparr>"] cs)
  show ?thesis
  proof (cases ?fast)
    case True
    then have "cs' = []" using n by (cases cs'; cases fail) (auto simp: Recv_def)
    with True cs have w: "written cs (zeros tot) = data" using v(2) by (auto simp: overlay_def)
    from True u have "uploadFileFastPath sv env p hash data w = (Inr resp, w')" by simp
    from fast_path_stores [OF _ assms(3,5) sp this] assms(1,8) w True show ?thesis by (simp add: local_grpc_def)
  next
    case False
    from u [unfolded if_not_P [OF False]] have "upload_through_session sv env p name tot hash data ofs next rest w = (Inr resp, w')" .
    from session_path_stores [OF _ assms(2-5) sp _ assms(6,9) n this] assms(1,7) v(2) show ?thesis by (simp add: local_grpc_def cs)
  qed
qed


definition sample_grpc :: "(unit, MemorySessionStore, locks) grpc_server" where
  "sample_grpc = NewServer_grpc (cfg_Server (applyDefaults sample_config)) (local_fm ''/srv/data'' LocalDistributedLock)
     \<lparr>dmg_store = Some (NewLocalStorage ''/srv/data''), dmg_distLock = Some LocalDistributedLock\<rparr> sample_svc True None"

definition sample_grpc_env :: "locks grpc_env" where
  "sample_grpc_env = \<lparr>ge_api = sample_api_env, ge_chunk = (\<lambda>_. sample_xenv), ge_complete = sample_xenv, ge_send = (\<lambda>_. None), ge_parse = (\<lambda>_. Inr 0)\<rparr>"

lemma sample_api_facts:
  "LS_inv ''/srv/data'' (xf_fs (ap_xf sample_api))" "LS_calm (xf_fs (ap_xf sample_api))" "db_wf (xf_db (ap_xf sample_api))"
  "db_faults (xf_db (ap_xf sample_api)) = []"
  using sample_upload_ready(4) by (simp_all add: ready_for_def)

theorem grpc_upload_integrity_witness:
  "let up = UploadFile_grpc sample_grpc sample_grpc_env
         \<lparr>st_msgs = [UR_Metadata ''/a.txt'' ''a.txt'' 3 ''habc'', UR_Chunk ''c'' 2, UR_Chunk ''ab'' 0], st_err = None\<rparr> sample_api
   in \<exists>resp. fst up = Inr resp \<and> uploaded ''/srv/data'' ''a.txt'' ''abc'' ''habc'' sample_api (snd up) resp"
proof -
  let ?st = "\<lparr>st_msgs = UR_Metadata ''/a.txt'' ''a.txt'' 3 ''habc'' # chunk_msgs [(2, ''c''), (0, ''ab'')], st_err = None\<rparr>"
  let ?up = "UploadFile_grpc sample_grpc sample_grpc_env ?st sample_api"
  have "map_sum id (\<lambda>_. ()) (fst ?up) = Inr ()" by code_simp
  then obtain resp where r: "fst ?up = Inr resp" by (cases "fst ?up") simp_all
  have l: "local_grpc ''/srv/data'' sample_grpc" "plain_storage (gs_transferSvc sample_grpc)"
    by (simp_all add: local_grpc_def plain_storage_def sample_grpc_def NewServer_grpc_def sample_svc_def)
  have sha: "xe_sha (ge_complete sample_grpc_env) = fe_sha sample_env" "fe_sha (ae_fm (ge_api sample_grpc_env)) = fe_sha sample_env"
    by (simp_all add: sample_grpc_env_def sample_xenv_def sample_api_env_def)
  have out: "\<not> starts_with (root_elems ''/srv/data'') (fs_key (xf_fs (ap_xf sample_api))
      (tempPath (gs_transferSvc sample_grpc) (xe_sid (ae_xf (ge_api sample_grpc_env)))))" by code_simp
  have n: "NormalizePath ''/a.txt'' = ''a.txt''" "written [(2, ''c''), (0, ''ab'')] (zeros 3) = ''abc''" by code_simp+
  have "(3 :: int) \<le> max_int64" by (simp add: max_int64_def)
  from grpc_upload_integrity [OF l sample_api_facts(1-3) this sha out fst_pair [OF r]]
  have "uploaded ''/srv/data'' ''a.txt'' ''abc'' ''habc'' sample_api (snd ?up) resp" unfolding n by blast
  with r show ?thesis by (simp add: Let_def)
qed

text \<open>
  C35: what a gRPC download sends.  On local storage with the disk and the database working, the download of
  a file that is there always ends, without an error; its messages are not empty, none longer than 32 MiB, each
  begins where the one before ended, and together they are exactly the file from the requested offset on, whatever offset
  and chunk size the client asks for.
\<close>

theorem grpc_download_exact:
  assumes "gs_fm sv = local_fm rootDir lk" and "holds_file rootDir (NormalizePath p) data w" and "IsValidFilePath p"
    and "ge_send env = (\<lambda>_. None)"
  shows "\<exists>ms. DownloadFile_grpc sv env p ofs c w = ((ms, Inr ()), w) \<and> covers 33554432 (nat ofs) data ms \<and>
    concat (map fst ms) = drop (nat ofs) data"
proof -
  obtain ms where "DownloadFile_grpc sv env p ofs c w = ((ms, Inr ()), w)" "covers 33554432 (nat ofs) data ms"
    using DownloadFile_grpc_covers [OF assms(1-3), of env] assms(4) by auto
  with covers_concat show ?thesis by blast
qed

theorem grpc_download_exact_witness:
  "\<exists>(w :: (unit, MemorySessionStore, locks, unit) api) ms. holds_file ''/srv/data'' ''docs/a.txt'' ''hello'' w \<and> DownloadFile_grpc sample_grpc sample_grpc_env ''/docs/a.txt'' 1 3 w = ((ms, Inr ()), w) \<and>
     concat (map fst ms) = ''ello''"
proof -
  have n: "NormalizePath ''/docs/a.txt'' = ''docs/a.txt''" by code_simp
  obtain w :: "(unit, MemorySessionStore, locks, unit) api" where h: "holds_file ''/srv/data'' (NormalizePath ''/docs/a.txt'') ''hello'' w"
    using handleUpload_inline [OF sample_upload_ready] by blast
  have fm: "gs_fm sample_grpc = local_fm ''/srv/data'' LocalDistributedLock" by (simp add: sample_grpc_def NewServer_grpc_def)
  have s: "ge_send sample_grpc_env = (\<lambda>_. None)" by (simp add: sample_grpc_env_def)
  from grpc_download_exact [OF fm h sample_upload_ready(3) s, of 1 3] h show ?thesis by (auto simp: n)
qed


section \<open>Access\<close>

lemma access_token_user: "access_token env tok w \<longleftrightarrow> jwt_user (ae_jwt env) (ae_now env) tok (ap_auth w) \<noteq> None"
  by (simp add: access_token_def jwt_user_def split: option.splits sum.splits)

text \<open>The credential a call offers: the first API key, or the first usable authorization, with the flag
  whether a token may stand in its place.\<close>

fun usable :: "string list \<Rightarrow> (bool \<times> string) option" where
  "usable [] = None"
| "usable (ah # ahs) =
     (if HasPrefix ah ''Bearer '' then Some (True, TrimPrefix ah ''Bearer '')
      else if HasPrefix ah ''Api-Key '' then Some (False, TrimPrefix ah ''Api-Key '')
      else usable ahs)"

definition credential :: "metadata option \<Rightarrow> (bool \<times> string) option" where
  "credential ctx = (case ctx of None \<Rightarrow> None
     | Some md \<Rightarrow> (case md_Get md ''x-api-key'' of key # _ \<Rightarrow> if key \<noteq> [] then Some (False, key) else usable (md_Get md ''authorization'')
        | [] \<Rightarrow> usable (md_Get md ''authorization'')))"

definition accepted :: "'l api_env \<Rightarrow> (bool \<times> string) option \<Rightarrow> ('a, 'ss, 'l, 'c) api \<Rightarrow> bool" where
  "accepted env cr w \<longleftrightarrow> (case cr of None \<Rightarrow> False
     | Some (tok, key) \<Rightarrow> fst (validate_key env key w) \<or> (tok \<and> jwt_user (ae_jwt env) (ae_now env) key (ap_auth w) \<noteq> None))"

lemma need_key_refused: "au_authEnabled (ap_auth w) \<Longrightarrow> need_key env w = (Inl (Status Unauthenticated ''authentication required''), w)"
  by (simp add: need_key_def validate_empty)

lemma headers_refused:
  assumes "au_authEnabled (ap_auth w)" "wired now w" "\<not> accepted env (usable ahs) w"
  shows "\<exists>msg w'. authorization_headers env ahs w = (Inl (Status Unauthenticated msg), w') \<and> kept w w'"
  using assms(3)
proof (induction ahs)
  case Nil
  with need_key_refused [OF assms(1)] show ?case by simp
next
  case (Cons ah ahs)
  have key: "\<exists>w1. validate_key env k w = (False, w1) \<and> kept w w1 \<and> ap_auth w1 = ap_auth w" if "\<not> fst (validate_key env k w)" for k
    using that validate_key_kept [OF assms(2)] by (metis prod.collapse)
  show ?case
  proof (cases "HasPrefix ah ''Bearer ''")
    case True
    with Cons.prems key [of "TrimPrefix ah ''Bearer ''"] show ?thesis
      by (auto simp: accepted_def access_token_user Let_def)
  next
    case b: False
    show ?thesis
    proof (cases "HasPrefix ah ''Api-Key ''")
      case True
      with b Cons.prems key [of "TrimPrefix ah ''Api-Key ''"] show ?thesis by (auto simp: accepted_def Let_def)
    next
      case False
      with b Cons show ?thesis by simp
    qed
  qed
qed

text \<open>
  C36: no call without a credential.  With authentication on, a call to any method of the service whose
  metadata has neither a valid API key nor a valid access token is refused as unauthenticated before its
  method runs, and leaves every file, table, session, lock, cached and audited entry as it was.
\<close>

theorem grpc_needs_credential:
  assumes "gs_hasAuth sv" and "au_authEnabled (ap_auth w)" and "wired now w" and "\<not> accepted (ge_api env) (credential ctx) w"
  shows "\<exists>msg w'. authInterceptor sv env ctx q w = (([], Inl (Status Unauthenticated msg)), w') \<and> kept w w'"
proof -
  have "\<exists>msg w'. authenticate sv (ge_api env) ctx w = (Inl (Status Unauthenticated msg), w') \<and> kept w w'"
  proof (cases ctx)
    case None
    with assms(1) need_key_refused [OF assms(2)] show ?thesis by (simp add: authenticate_def)
  next
    case (Some md)
    show ?thesis
    proof (cases "\<exists>key ks. md_Get md ''x-api-key'' = key # ks \<and> key \<noteq> []")
      case True
      then obtain key ks where k: "md_Get md ''x-api-key'' = key # ks" "key \<noteq> []" by blast
      then have "\<not> fst (validate_key (ge_api env) key w)" using assms(4) Some by (simp add: credential_def accepted_def)
      with validate_key_kept [OF assms(3)] obtain w1 where "validate_key (ge_api env) key w = (False, w1)" "kept w w1" by (metis prod.collapse)
      with k Some assms(1) show ?thesis by (simp add: authenticate_def)
    next
      case False
      then have "credential ctx = usable (md_Get md ''authorization'')"
        "authenticate sv (ge_api env) ctx w = authorization_headers (ge_api env) (md_Get md ''authorization'') w"
        using Some assms(1) by (auto simp: credential_def authenticate_def split: list.splits)
      with headers_refused [OF assms(2,3)] assms(4) show ?thesis by simp
    qed
  qed
  then show ?thesis by (auto simp: authInterceptor_def)
qed

theorem grpc_needs_credential_witness:
  "\<exists>msg w'. authInterceptor sample_grpc sample_grpc_env (Some [(''authorization'', ''Api-Key guess'')]) (Q_DeleteFile ''/a'') sample_api =
     (([], Inl (Status Unauthenticated msg)), w') \<and> kept sample_api w'"
proof -
  have "\<not> accepted (ge_api sample_grpc_env) (credential (Some [(''authorization'', ''Api-Key guess'')])) sample_api" by code_simp
  from grpc_needs_credential [OF _ sample_api_auth this, of sample_grpc] show ?thesis by (simp add: sample_grpc_def NewServer_grpc_def)
qed


lemma lookup_key_pure:
  assumes "au_apiKeyLookupFn s = Some (Key_GetByKeyHash now)" "db_faults d = []"
  shows "snd (lookup_key h s d) = d"
  using assms by (auto simp: lookup_key_def Key_GetByKeyHash_def scanApiKey_def db_QueryRow_def Let_def
      split: prod.splits sum.splits option.splits if_splits list.splits)

lemma validate_key_pure:
  assumes "wired now w" "db_faults (xf_db (ap_xf w)) = []"
  shows "validate_key env k w = (fst (validate_key env k w), w)"
proof -
  have "snd (lookup_key h (ap_auth w) (xf_db (ap_xf w))) = xf_db (ap_xf w)" for h using lookup_key_pure assms by blast
  then have "snd (ValidateApiKey (ae_sha env) (ae_order env) k (ap_auth w) (xf_db (ap_xf w))) = xf_db (ap_xf w)"
    unfolding ValidateApiKey_def Let_def by (auto split: prod.splits option.splits) (metis snd_conv)+
  then show ?thesis by (auto simp: validate_key_def lift_db_def split: prod.splits)
qed

lemma key_user_auth:
  assumes "key_user env k w = (u, w1)"
  shows "ap_auth w1 = ap_auth w"
  using assms by (auto simp: key_user_def lift_db_def split: prod.splits)

lemma key_user_clear: "fst (key_user env k (w\<lparr>ap_auth := ClearAuthFailure ip (ap_auth w)\<rparr>)) = fst (key_user env k w)"
proof -
  let ?s = "ap_auth w" let ?c = "ClearAuthFailure ip ?s"
  have j: "jwt_user lib t k ?c = jwt_user lib t k ?s" for lib t by (simp add: jwt_user_def ClearAuthFailure_def)
  have l: "lookup_key h ?c d = lookup_key h ?s d" for h d by (simp add: lookup_key_def ClearAuthFailure_def)
  have f: "au_authEnabled ?c = au_authEnabled ?s" "au_defaultApiKeyHash ?c = au_defaultApiKeyHash ?s" "au_users ?c = au_users ?s"
    by (simp_all add: ClearAuthFailure_def)
  have "GetUserByApiKey lib t h ord k ?c d = GetUserByApiKey lib t h ord k ?s d" for lib t h ord d
    unfolding GetUserByApiKey_def j l f ..
  then show ?thesis by (simp add: key_user_def lift_db_def split: prod.splits)
qed

lemma same_guard:
  assumes "gs_hasAuth sv" "au_authEnabled (ap_auth w)" "map_of methodPermissions m = Some (resource, action)" "\<forall>v. u = Some v \<longrightarrow> u_Enabled v"
  shows "requirePermission resource action True u = None \<longleftrightarrow> (\<exists>w'. authorize sv env u m w = (Inr (), w'))"
  using assms by (auto simp: requirePermission_def authorize_def validate_empty split: option.splits)

text \<open>
  C37: the two servers let the same callers in.  With a working database and a caller who is not
  locked out, a bearer credential, be it a key or a token, gets through authentication and the permission check of
  an HTTP route exactly when it gets through those of a gRPC method that needs the same permission.
\<close>

theorem http_grpc_same_access:
  assumes "gs_hasAuth sv" and "au_authEnabled (ap_auth w)" and "wired now w" and "db_faults (xf_db (ap_xf w)) = []"
    and "\<not> IsRateLimited (ae_now env) (rq_clientIP rq) (ap_auth w)"
    and "GetHeader rq ''X-API-Key'' = []" and "GetHeader rq ''Authorization'' = ''Bearer '' @ tok"
    and "map_of methodPermissions m = Some (resource, action)"
  shows "(\<exists>u w1. authMiddleware env rq w = (Inr u, w1) \<and> requirePermission resource action True u = None) \<longleftrightarrow>
    (\<exists>u w1 w2. authenticate sv env (Some [(''authorization'', ''Bearer '' @ tok)]) w = (Inr u, w1) \<and> authorize sv env u m w1 = (Inr (), w2))"
    (is "?http \<longleftrightarrow> ?grpc")
proof -
  have tok: "api_key_of rq = tok" using assms(6,7) by (simp add: api_key_of_def HasPrefix_def TrimPrefix_def)
  obtain r where v: "validate_key env tok w = (r, w)" using validate_key_pure [OF assms(3,4)] by metis
  obtain u w1 where k: "key_user env tok w = (u, w1)" by fastforce
  have au: "ap_auth w1 = ap_auth w" by (rule key_user_auth [OF k])
  have "fst (GetUserByApiKey (ae_jwt env) (ae_now env) (ae_sha env) (ae_order env) tok (ap_auth w) (xf_db (ap_xf w))) = u"
    using k by (auto simp: key_user_def lift_db_def split: prod.splits)
  then have en: "\<forall>v. u = Some v \<longrightarrow> u_Enabled v" by (auto intro: get_user_enabled)
  let ?j = "jwt_user (ae_jwt env) (ae_now env) tok (ap_auth w)"
  have j: "u = ?j" if "?j \<noteq> None" "tok \<noteq> []"
    using that k assms(2) by (auto simp: key_user_def lift_db_def GetUserByApiKey_def split: prod.splits option.splits)
  have grpc: "authenticate sv env (Some [(''authorization'', ''Bearer '' @ tok)]) w =
      (if r \<or> ?j \<noteq> None then (Inr u, w1) else (Inl (Status Unauthenticated ''invalid token''), w))"
    using assms(1) v k by (simp add: authenticate_def md_Get_def with_user_def withUser_def access_token_user HasPrefix_def TrimPrefix_def Let_def)
  have g: "?grpc \<longleftrightarrow> (r \<or> ?j \<noteq> None) \<and> requirePermission resource action True u = None"
    using same_guard [OF assms(1) _ assms(8) en, of w1 env] au assms(2) unfolding grpc by auto
  show ?thesis
  proof (cases "tok = []")
    case True
    then have "u = None" using k assms(2) by (auto simp: key_user_def lift_db_def GetUserByApiKey_def)
    then have "\<not> ?grpc" using g by (simp add: requirePermission_def)
    moreover have "\<not> ?http" using True tok assms(2,5) by (auto simp: authMiddleware_def validate_empty Let_def)
    ultimately show ?thesis by blast
  next
    case ne: False
    obtain u' w3 where k': "key_user env tok (w\<lparr>ap_auth := ClearAuthFailure (rq_clientIP rq) (ap_auth w)\<rparr>) = (u', w3)" by fastforce
    with key_user_clear [where ip = "rq_clientIP rq" and w = w and env = env and k = tok] k have "u' = u" by simp
    with k' have http: "\<exists>w3. authMiddleware env rq w = (if r then Inr u else case ?j of Some v \<Rightarrow> Inr (Some v) | None \<Rightarrow> Inl (sendError 401 ''Invalid API key''), w3)"
      using assms(2,5) ne by (auto simp: authMiddleware_def validate_empty tok v Let_def split: option.splits)
    then have "?http \<longleftrightarrow> (r \<or> ?j \<noteq> None) \<and> requirePermission resource action True u = None"
      using j [OF _ ne] by (cases r; cases ?j) auto
    with g show ?thesis by blast
  qed
qed

theorem http_grpc_same_access_witness:
  "\<exists>u w1 w2. authenticate sample_grpc sample_api_env (Some [(''authorization'', ''Bearer s'')]) sample_api = (Inr u, w1) \<and>
     authorize sample_grpc sample_api_env u ''/fsserver.FileService/DeleteFile'' w1 = (Inr (), w2)"
proof -
  let ?rq = "sample_request [(''Authorization'', ''Bearer s'')]"
  have h: "\<not> IsRateLimited (ae_now sample_api_env) (rq_clientIP ?rq) (ap_auth sample_api)" "GetHeader ?rq ''X-API-Key'' = []"
    "GetHeader ?rq ''Authorization'' = ''Bearer '' @ ''s''" "map_of methodPermissions ''/fsserver.FileService/DeleteFile'' = Some (''files'', ''write'')"
    by code_simp+
  have "(case fst (authMiddleware sample_api_env ?rq sample_api) of Inl _ \<Rightarrow> False
      | Inr u \<Rightarrow> requirePermission ''files'' ''write'' True u = None)" by code_simp
  then have "\<exists>u w1. authMiddleware sample_api_env ?rq sample_api = (Inr u, w1) \<and> requirePermission ''files'' ''write'' True u = None"
    by (cases "authMiddleware sample_api_env ?rq sample_api") (auto split: sum.splits)
  with http_grpc_same_access [OF _ sample_api_auth sample_api_facts(4) h, of sample_grpc] show ?thesis
    by (simp add: sample_grpc_def NewServer_grpc_def)
qed

section \<open>Encryption\<close>

text \<open>The short path of an upload stores the bytes as they came, whatever encryption the server was
  given.\<close>

lemma grpc_fast_path_unencrypted:
  assumes "fmg_storage (gs_fm sv) = NewLocalStorage rootDir" "LS_inv rootDir (xf_fs (ap_xf w))" "db_wf (xf_db (ap_xf w))" "safe_path (NormalizePath p)"
    and "gs_cryptoSvc sv = Some cs" "cs_enabled cs" and "uploadFileFastPath sv env p hash data w = (Inr resp, w')"
  shows "LS_view rootDir (xf_fs (ap_xf w')) (NormalizePath p) = Some data"
  using fast_path_stores [OF assms(1-4,7)] by (simp add: uploaded_def)

end
