(* ===== verification/Database.thy ===== *)
theory Database
  imports Config Filesystem
begin

text \<open>
  \<open>src/internal/database/database.go\<close>: opening the connection pool for the configured engine, and
  the prepared statements of \<open>src/internal/database/db.go\<close>.  The package \<open>database/sql\<close> with
  its drivers is a parameter, a record of the calls that are made on a pool of type \<open>'p\<close>;
  \<open>prepares\<close> says that a statement, once prepared, does what its text does.
\<close>

section \<open>database/sql\<close>

datatype sql_value = SV_Null | SV_Bytes bytes | SV_String string | SV_Int int | SV_Bool bool

text \<open>What a query returns: the names of the columns, one entry for each successful
  \<open>Next\<close> with the result of \<open>Scan\<close>, and \<open>Err\<close> after the last.\<close>

record sql_rows =
  sr_Columns :: "string list res"
  sr_Scans :: "sql_value list res list"
  sr_Err :: "err option"

record ('p, 't) sql_driver =
  sq_Open :: "string \<Rightarrow> string \<Rightarrow> 'p res"
    \<comment> \<open>driver name, data source name\<close>
  sq_SetLimits :: "int \<Rightarrow> int \<Rightarrow> int \<Rightarrow> int \<Rightarrow> 'p \<Rightarrow> 'p"
    \<comment> \<open>open and idle connections, life time, idle time\<close>
  sq_Ping :: "'p \<Rightarrow> unit res \<times> 'p"
  sq_Close :: "'p \<Rightarrow> unit res \<times> 'p"
  sq_Exec :: "string \<Rightarrow> sql_value list \<Rightarrow> 'p \<Rightarrow> unit res \<times> 'p"
  sq_Query :: "string \<Rightarrow> sql_value list \<Rightarrow> 'p \<Rightarrow> sql_rows res \<times> 'p"
  sq_Prepare :: "string \<Rightarrow> 'p \<Rightarrow> 't res \<times> 'p"
  sq_StmtExec :: "'t \<Rightarrow> sql_value list \<Rightarrow> 'p \<Rightarrow> unit res \<times> 'p"
  sq_StmtQuery :: "'t \<Rightarrow> sql_value list \<Rightarrow> 'p \<Rightarrow> sql_rows res \<times> 'p"
  sq_StmtClose :: "'t \<Rightarrow> 'p \<Rightarrow> 'p"

section \<open>DB: statements are prepared once\<close>

record ('p, 't) DB =
  dbw_pool :: 'p
  dbw_dialect :: Dialect
  dbw_stmts :: "string \<rightharpoonup> 't"

definition NewDB :: "'p \<Rightarrow> Dialect \<Rightarrow> ('p, 't) DB" where
  "NewDB p d = \<lparr>dbw_pool = p, dbw_dialect = d, dbw_stmts = Map.empty\<rparr>"

text \<open>\<open>other\<close> is what other goroutines stored between \<open>Prepare\<close> and \<open>LoadOrStore\<close>.\<close>

definition prepareStmt ::
  "('p, 't) sql_driver \<Rightarrow> (string \<rightharpoonup> 't) \<Rightarrow> string \<Rightarrow> ('p, 't) DB \<Rightarrow> 't res \<times> ('p, 't) DB"
where
  "prepareStmt dr other query d =
     (let translated = Translate (dbw_dialect d) query
      in case dbw_stmts d translated of
           Some t \<Rightarrow> (Inr t, d)
         | None \<Rightarrow>
             (case sq_Prepare dr translated (dbw_pool d) of
                (Inl e, p1) \<Rightarrow> (Inl e, d\<lparr>dbw_pool := p1\<rparr>)
              | (Inr stmt, p1) \<Rightarrow>
                  (let d1 = d\<lparr>dbw_pool := p1, dbw_stmts := dbw_stmts d ++ other\<rparr>
                   in case dbw_stmts d1 translated of
                        Some actual \<Rightarrow> (Inr actual, d1\<lparr>dbw_pool := sq_StmtClose dr stmt (dbw_pool d1)\<rparr>)
                      | None \<Rightarrow> (Inr stmt, d1\<lparr>dbw_stmts := (dbw_stmts d1)(translated \<mapsto> stmt)\<rparr>))))"

definition DB_Exec ::
  "('p, 't) sql_driver \<Rightarrow> (string \<rightharpoonup> 't) \<Rightarrow> string \<Rightarrow> sql_value list \<Rightarrow> ('p, 't) DB \<Rightarrow> unit res \<times> ('p, 't) DB"
where
  "DB_Exec dr other query args d =
     (case prepareStmt dr other query d of
        (Inl e, d1) \<Rightarrow>
          (case sq_Exec dr (Translate (dbw_dialect d1) query) args (dbw_pool d1) of (r, p1) \<Rightarrow> (r, d1\<lparr>dbw_pool := p1\<rparr>))
      | (Inr stmt, d1) \<Rightarrow>
          (case sq_StmtExec dr stmt args (dbw_pool d1) of (r, p1) \<Rightarrow> (r, d1\<lparr>dbw_pool := p1\<rparr>)))"

definition DB_Query ::
  "('p, 't) sql_driver \<Rightarrow> (string \<rightharpoonup> 't) \<Rightarrow> string \<Rightarrow> sql_value list \<Rightarrow> ('p, 't) DB \<Rightarrow> sql_rows res \<times> ('p, 't) DB"
where
  "DB_Query dr other query args d =
     (case prepareStmt dr other query d of
        (Inl e, d1) \<Rightarrow>
          (case sq_Query dr (Translate (dbw_dialect d1) query) args (dbw_pool d1) of (r, p1) \<Rightarrow> (r, d1\<lparr>dbw_pool := p1\<rparr>))
      | (Inr stmt, d1) \<Rightarrow>
          (case sq_StmtQuery dr stmt args (dbw_pool d1) of
             (Inl e, p1) \<Rightarrow>
               (let q = Translate (dbw_dialect d1) query; d2 = d1\<lparr>dbw_pool := p1, dbw_stmts := (dbw_stmts d1)(q := None)\<rparr>
                in case sq_Query dr q args (dbw_pool d2) of (r, p2) \<Rightarrow> (r, d2\<lparr>dbw_pool := p2\<rparr>))
           | (Inr rows, p1) \<Rightarrow> (Inr rows, d1\<lparr>dbw_pool := p1\<rparr>)))"

text \<open>\<open>Close\<close> closes the statements in some order, \<open>ts\<close>.\<close>

definition DB_Close :: "('p, 't) sql_driver \<Rightarrow> 't list \<Rightarrow> ('p, 't) DB \<Rightarrow> unit res \<times> ('p, 't) DB" where
  "DB_Close dr ts d =
     (let d1 = d\<lparr>dbw_pool := fold (sq_StmtClose dr) ts (dbw_pool d), dbw_stmts := Map.empty\<rparr>
      in case sq_Close dr (dbw_pool d1) of (r, p1) \<Rightarrow> (r, d1\<lparr>dbw_pool := p1\<rparr>))"

section \<open>Database\<close>

text \<open>\<open>dt_queryDB\<close> shares the pool with \<open>dt_db\<close>: the pool is kept once, and
  \<open>dt_connected\<close> says whether the pointer \<open>db\<close> is set.  An empty \<open>lastError\<close> is
  \<open>None\<close>.\<close>

record ('p, 't) Database =
  dt_connected :: bool
  dt_config :: "DatabaseConfig option"
  dt_dialect :: Dialect
  dt_queryDB :: "('p, 't) DB option"
  dt_lastError :: "err option"

definition NewDatabase :: "('p, 't) Database" where
  "NewDatabase =
     \<lparr>dt_connected = False, dt_config = None, dt_dialect = DialectSQLite, dt_queryDB = None, dt_lastError = None\<rparr>"

definition sqlite_dsn :: "DatabaseConfig \<Rightarrow> string" where
  "sqlite_dsn cfg = dc_Path cfg @ ''?_pragma=busy_timeout(5000)'' @ ''&_pragma=journal_mode(WAL)''
     @ ''&_pragma=synchronous(NORMAL)''"

definition postgres_dsn :: "DatabaseConfig \<Rightarrow> string" where
  "postgres_dsn cfg =
     (let sslmode = (if dc_SSLMode cfg = [] then ''disable'' else dc_SSLMode cfg);
          dsn = ''host='' @ dc_Host cfg @ '' port='' @ itoa (dc_Port cfg) @ '' user='' @ dc_User cfg
            @ '' password='' @ dc_Password cfg @ '' dbname='' @ dc_Name cfg @ '' sslmode='' @ sslmode
      in if dc_SearchPath cfg \<noteq> [] then dsn @ '' search_path='' @ dc_SearchPath cfg else dsn)"

definition connectSQLite ::
  "('p, 't) sql_driver \<Rightarrow> DatabaseConfig \<Rightarrow> 'a fs_scheme \<Rightarrow> 'p res \<times> 'a fs_scheme"
where
  "connectSQLite dr cfg f =
     (case os_MkdirAll (path_Dir (dc_Path cfg)) f of
        (Inl e, f1) \<Rightarrow> (Inl (Wrapf ''failed to create database directory'' e), f1)
      | (Inr _, f1) \<Rightarrow>
          (case sq_Open dr ''sqlite'' (sqlite_dsn cfg) of
             Inl e \<Rightarrow> (Inl (Wrapf ''failed to open sqlite database'' e), f1)
           | Inr p \<Rightarrow> (Inr p, f1)))"

definition connectPostgreSQL :: "('p, 't) sql_driver \<Rightarrow> DatabaseConfig \<Rightarrow> 'p res" where
  "connectPostgreSQL dr cfg =
     (case sq_Open dr ''postgres'' (postgres_dsn cfg) of
        Inl e \<Rightarrow> Inl (Wrapf ''failed to open postgresql database'' e)
      | Inr p \<Rightarrow> Inr p)"

definition maxOpenConns :: "DatabaseConfig \<Rightarrow> int" where
  "maxOpenConns cfg = (if dc_PoolSize cfg < 1 then 25 else dc_PoolSize cfg)"

definition maxIdleConns :: "DatabaseConfig \<Rightarrow> int" where
  "maxIdleConns cfg = (if maxOpenConns cfg > 10 then 10 else maxOpenConns cfg)"

abbreviation minute :: int where "minute \<equiv> 60000000000"

definition Connect ::
  "('p, 't) sql_driver \<Rightarrow> DatabaseConfig \<Rightarrow> ('p, 't) Database \<times> 'a fs_scheme
    \<Rightarrow> unit res \<times> ('p, 't) Database \<times> 'a fs_scheme"
where
  "Connect dr cfg df =
     (case df of (d0, f) \<Rightarrow>
      let d = d0\<lparr>dt_config := Some cfg, dt_dialect := DialectFromString (dc_Type cfg)\<rparr>;
          opened = (case dt_dialect d of
              DialectPostgreSQL \<Rightarrow> (connectPostgreSQL dr cfg, f)
            | DialectSQLite \<Rightarrow> connectSQLite dr cfg f)
      in case opened of
           (Inl e, f1) \<Rightarrow> (Inl e, d\<lparr>dt_lastError := Some e\<rparr>, f1)
         | (Inr p, f1) \<Rightarrow>
             (case sq_Ping dr (sq_SetLimits dr (maxOpenConns cfg) (maxIdleConns cfg) (30 * minute) (5 * minute) p) of
                (Inl e, p1) \<Rightarrow>
                  (Inl (Wrapf ''failed to ping database'' e),
                   d\<lparr>dt_lastError := Some (Wrapf ''failed to ping database'' e)\<rparr>, f1)
              | (Inr _, p1) \<Rightarrow>
                  (Inr (), d\<lparr>dt_connected := True, dt_queryDB := Some (NewDB p1 (dt_dialect d)), dt_lastError := None\<rparr>, f1)))"

definition with_pool ::
  "('p \<Rightarrow> 'x \<times> 'p) \<Rightarrow> ('p, 't) DB \<Rightarrow> 'x \<times> ('p, 't) DB"
where
  "with_pool op q = (case op (dbw_pool q) of (x, p1) \<Rightarrow> (x, q\<lparr>dbw_pool := p1\<rparr>))"

text \<open>The pool is closed through \<open>queryDB\<close> and then once more.\<close>

definition Database_Close ::
  "('p, 't) sql_driver \<Rightarrow> 't list \<Rightarrow> ('p, 't) Database \<Rightarrow> unit res \<times> ('p, 't) Database"
where
  "Database_Close dr ts d =
     (if \<not> dt_connected d then (Inr (), d)
      else case dt_queryDB d of
        None \<Rightarrow> (Inr (), d\<lparr>dt_connected := False\<rparr>)
      | Some q \<Rightarrow>
          (let q1 = snd (DB_Close dr ts q); d1 = d\<lparr>dt_queryDB := None, dt_connected := False\<rparr>
           in case sq_Close dr (dbw_pool q1) of
                (Inl e, _) \<Rightarrow> (Inl (Wrapf ''failed to close database'' e),
                             d1\<lparr>dt_lastError := Some (Wrapf ''failed to close database'' e)\<rparr>)
              | (Inr _, _) \<Rightarrow> (Inr (), d1)))"

definition failed :: "string \<Rightarrow> err \<Rightarrow> ('p, 't) Database \<Rightarrow> 'x res \<times> ('p, 't) Database" where
  "failed what e d = (Inl (Wrapf what e), d\<lparr>dt_lastError := Some (Wrapf what e)\<rparr>)"

definition not_connected :: "('p, 't) Database \<Rightarrow> 'x res \<times> ('p, 't) Database" where
  "not_connected d =
     (Inl (Errorf ''not connected to database''), d\<lparr>dt_lastError := Some (Errorf ''not connected to database'')\<rparr>)"

definition Execute ::
  "('p, 't) sql_driver \<Rightarrow> string \<Rightarrow> sql_value list \<Rightarrow> ('p, 't) Database \<Rightarrow> unit res \<times> ('p, 't) Database"
where
  "Execute dr query args d =
     (case dt_queryDB d of
        None \<Rightarrow> not_connected d
      | Some q \<Rightarrow>
          if \<not> dt_connected d then not_connected d
          else case with_pool (sq_Exec dr (Translate (dt_dialect d) query) args) q of
                 (Inl e, q1) \<Rightarrow> failed ''execute error'' e (d\<lparr>dt_queryDB := Some q1\<rparr>)
               | (Inr _, q1) \<Rightarrow> (Inr (), d\<lparr>dt_queryDB := Some q1\<rparr>))"

fun cell :: "sql_value \<Rightarrow> sql_value" where
  "cell (SV_Bytes b) = SV_String b"
| "cell v = v"

text \<open>The map of a row: of two columns with one name the later one stays.\<close>

definition row_map :: "string list \<Rightarrow> sql_value list \<Rightarrow> string \<rightharpoonup> sql_value" where
  "row_map columns values = map_of (rev (zip columns (map cell values)))"

fun scan_all :: "string list \<Rightarrow> sql_value list res list \<Rightarrow> (string \<rightharpoonup> sql_value) list res" where
  "scan_all columns [] = Inr []"
| "scan_all columns (Inl e # rs) = Inl e"
| "scan_all columns (Inr vs # rs) =
     (case scan_all columns rs of Inl e \<Rightarrow> Inl e | Inr ms \<Rightarrow> Inr (row_map columns vs # ms))"

definition Database_Query ::
  "('p, 't) sql_driver \<Rightarrow> string \<Rightarrow> sql_value list \<Rightarrow> ('p, 't) Database
    \<Rightarrow> (string \<rightharpoonup> sql_value) list res \<times> ('p, 't) Database"
where
  "Database_Query dr query args d =
     (case dt_queryDB d of
        None \<Rightarrow> not_connected d
      | Some q \<Rightarrow>
          if \<not> dt_connected d then not_connected d
          else case with_pool (sq_Query dr (Translate (dt_dialect d) query) args) q of
                 (Inl e, q1) \<Rightarrow> failed ''query error'' e (d\<lparr>dt_queryDB := Some q1\<rparr>)
               | (Inr rows, q1) \<Rightarrow>
                   (let d1 = d\<lparr>dt_queryDB := Some q1\<rparr>
                    in case sr_Columns rows of
                         Inl e \<Rightarrow> failed ''columns error'' e d1
                       | Inr columns \<Rightarrow>
                           (case scan_all columns (sr_Scans rows) of
                              Inl e \<Rightarrow> failed ''scan error'' e d1
                            | Inr results \<Rightarrow>
                                (case sr_Err rows of
                                   Some e \<Rightarrow> failed ''rows error'' e d1
                                 | None \<Rightarrow> (Inr results, d1)))))"

section \<open>Prepared statements change nothing\<close>

text \<open>What is relied on: \<open>text t\<close> is the statement a prepared one stands for, and \<open>data p\<close> what
  statements can see and change through a pool, which preparing and closing statements leaves
  alone; queries change nothing.\<close>

definition prepares :: "('p, 't) sql_driver \<Rightarrow> ('t \<Rightarrow> string) \<Rightarrow> ('p \<Rightarrow> 'd) \<Rightarrow> bool" where
  "prepares dr text data \<longleftrightarrow>
     (\<forall>q p t p'. sq_Prepare dr q p = (Inr t, p') \<longrightarrow> text t = q) \<and>
     (\<forall>q p. data (snd (sq_Prepare dr q p)) = data p) \<and>
     (\<forall>t p. data (sq_StmtClose dr t p) = data p) \<and>
     (\<forall>t. sq_StmtExec dr t = sq_Exec dr (text t)) \<and>
     (\<forall>t. sq_StmtQuery dr t = sq_Query dr (text t))"

definition data_only :: "('p, 't) sql_driver \<Rightarrow> ('p \<Rightarrow> 'd) \<Rightarrow> bool" where
  "data_only dr data \<longleftrightarrow>
     (\<forall>q args p p'. data p = data p' \<longrightarrow>
        fst (sq_Exec dr q args p) = fst (sq_Exec dr q args p') \<and>
        data (snd (sq_Exec dr q args p)) = data (snd (sq_Exec dr q args p')) \<and>
        fst (sq_Query dr q args p) = fst (sq_Query dr q args p')) \<and>
     (\<forall>q args p. data (snd (sq_Query dr q args p)) = data p)"

definition stmts_ok :: "('t \<Rightarrow> string) \<Rightarrow> (string \<rightharpoonup> 't) \<Rightarrow> bool" where
  "stmts_ok text m \<longleftrightarrow> (\<forall>q t. m q = Some t \<longrightarrow> text t = q)"

lemma prepareStmt_ok:
  assumes "prepares dr text data" and "stmts_ok text (dbw_stmts d)" and "stmts_ok text other"
    and "prepareStmt dr other query d = (r, d1)"
  shows "dbw_dialect d1 = dbw_dialect d" and "data (dbw_pool d1) = data (dbw_pool d)"
    and "stmts_ok text (dbw_stmts d1)" and "r = Inr t \<Longrightarrow> text t = Translate (dbw_dialect d) query"
proof -
  let ?q = "Translate (dbw_dialect d) query"
  have "dbw_dialect d1 = dbw_dialect d \<and> data (dbw_pool d1) = data (dbw_pool d) \<and>
    stmts_ok text (dbw_stmts d1) \<and> (r = Inr t \<longrightarrow> text t = ?q)"
  proof (cases "dbw_stmts d ?q")
    case (Some t')
    with assms show ?thesis by (auto simp: prepareStmt_def Let_def stmts_ok_def)
  next
    case None
    obtain a p1 where p: "sq_Prepare dr ?q (dbw_pool d) = (a, p1)" by fastforce
    have d: "data p1 = data (dbw_pool d)" "a = Inr x \<Longrightarrow> text x = ?q" "data (sq_StmtClose dr x y) = data y" for x y
      using assms(1) p by (auto simp: prepares_def dest: spec [of _ ?q]) (metis snd_conv)
    show ?thesis
      using assms(2-4) None p d
      by (cases a) (auto simp: prepareStmt_def Let_def stmts_ok_def map_add_Some_iff split: option.splits if_splits)
  qed
  then show "dbw_dialect d1 = dbw_dialect d" "data (dbw_pool d1) = data (dbw_pool d)"
    "stmts_ok text (dbw_stmts d1)" "r = Inr t \<Longrightarrow> text t = ?q" by auto
qed

lemma DB_Exec_direct:
  assumes pr: "prepares dr text data" and od: "data_only dr data" and "stmts_ok text (dbw_stmts d)" and "stmts_ok text other"
    and run: "DB_Exec dr other query args d = (r, d')"
  shows "r = fst (sq_Exec dr (Translate (dbw_dialect d) query) args (dbw_pool d)) \<and>
    data (dbw_pool d') = data (snd (sq_Exec dr (Translate (dbw_dialect d) query) args (dbw_pool d))) \<and>
    stmts_ok text (dbw_stmts d') \<and> dbw_dialect d' = dbw_dialect d"
proof -
  let ?q = "Translate (dbw_dialect d) query"
  obtain a d1 where a: "prepareStmt dr other query d = (a, d1)" by fastforce
  note p = prepareStmt_ok [OF assms(1,3,4) a]
  obtain r1 p1 where e: "sq_Exec dr ?q args (dbw_pool d1) = (r1, p1)" by fastforce
  have same: "r1 = fst (sq_Exec dr ?q args (dbw_pool d))" "data p1 = data (snd (sq_Exec dr ?q args (dbw_pool d)))"
    using od p(2) e unfolding data_only_def by (metis fst_conv, metis snd_conv)
  have "r = r1 \<and> d' = d1\<lparr>dbw_pool := p1\<rparr>"
  proof (cases a)
    case (Inl x)
    with run a e p(1) show ?thesis by (simp add: DB_Exec_def)
  next
    case (Inr t)
    with pr p(4) have "sq_StmtExec dr t = sq_Exec dr ?q" by (simp add: prepares_def)
    with Inr run a e show ?thesis by (simp add: DB_Exec_def)
  qed
  with same p show ?thesis by simp
qed

lemma DB_Query_direct:
  assumes pr: "prepares dr text data" and od: "data_only dr data" and "stmts_ok text (dbw_stmts d)" and "stmts_ok text other"
    and run: "DB_Query dr other query args d = (r, d')"
  shows "r = fst (sq_Query dr (Translate (dbw_dialect d) query) args (dbw_pool d)) \<and>
    data (dbw_pool d') = data (dbw_pool d) \<and> stmts_ok text (dbw_stmts d') \<and> dbw_dialect d' = dbw_dialect d"
proof -
  let ?q = "Translate (dbw_dialect d) query"
  obtain a d1 where a: "prepareStmt dr other query d = (a, d1)" by fastforce
  note p = prepareStmt_ok [OF assms(1,3,4) a]
  have qry: "fst (sq_Query dr ?q args p') = fst (sq_Query dr ?q args (dbw_pool d)) \<and> data (snd (sq_Query dr ?q args p')) = data (dbw_pool d)"
    if "data p' = data (dbw_pool d)" for p'
    using od that unfolding data_only_def by metis
  obtain r1 p1 where e: "sq_Query dr ?q args (dbw_pool d1) = (r1, p1)" by fastforce
  have r1: "r1 = fst (sq_Query dr ?q args (dbw_pool d))" "data p1 = data (dbw_pool d)"
    using qry [OF p(2)] e by auto
  obtain r2 p2 where e2: "sq_Query dr ?q args p1 = (r2, p2)" by fastforce
  have r2: "r2 = fst (sq_Query dr ?q args (dbw_pool d))" "data p2 = data (dbw_pool d)"
    using qry [OF r1(2)] e2 by auto
  show ?thesis
  proof (cases a)
    case (Inl x)
    with run a e p r1 show ?thesis by (auto simp: DB_Query_def)
  next
    case (Inr t)
    with pr p(4) have st: "sq_StmtQuery dr t = sq_Query dr ?q" by (simp add: prepares_def)
    have "stmts_ok text ((dbw_stmts d1)(?q := None))" using p(3) by (simp add: stmts_ok_def)
    note facts = this p(1-3) r1 r2
    show ?thesis
    proof (cases r1)
      case (Inl x)
      with Inr run a e e2 st p(1) have "r = r2 \<and> d' = d1\<lparr>dbw_stmts := (dbw_stmts d1)(?q := None), dbw_pool := p2\<rparr>"
        by (auto simp add: DB_Query_def Let_def)
      with facts show ?thesis by simp
    next
      case (Inr x)
      with \<open>a = Inr t\<close> run a e st have "r = r1 \<and> d' = d1\<lparr>dbw_pool := p1\<rparr>"
        by (simp add: DB_Query_def)
      with facts show ?thesis by simp
    qed
  qed
qed

section \<open>Properties\<close>

text \<open>A statement or a query, and the statements that other goroutines stored meanwhile.\<close>

datatype 't db_op = ExecOp "string \<rightharpoonup> 't" string "sql_value list" | QueryOp "string \<rightharpoonup> 't" string "sql_value list"

fun op_other :: "'t db_op \<Rightarrow> string \<rightharpoonup> 't" where
  "op_other (ExecOp other q args) = other"
| "op_other (QueryOp other q args) = other"

fun run_db :: "('p, 't) sql_driver \<Rightarrow> 't db_op list \<Rightarrow> ('p, 't) DB \<Rightarrow> (unit res + sql_rows res) list \<times> ('p, 't) DB" where
  "run_db dr [] d = ([], d)"
| "run_db dr (ExecOp other q args # ops) d =
     (case DB_Exec dr other q args d of (r, d1) \<Rightarrow> case run_db dr ops d1 of (rs, d2) \<Rightarrow> (Inl r # rs, d2))"
| "run_db dr (QueryOp other q args # ops) d =
     (case DB_Query dr other q args d of (r, d1) \<Rightarrow> case run_db dr ops d1 of (rs, d2) \<Rightarrow> (Inr r # rs, d2))"

fun run_direct :: "('p, 't) sql_driver \<Rightarrow> Dialect \<Rightarrow> 't db_op list \<Rightarrow> 'p \<Rightarrow> (unit res + sql_rows res) list \<times> 'p" where
  "run_direct dr dia [] p = ([], p)"
| "run_direct dr dia (ExecOp other q args # ops) p =
     (case sq_Exec dr (Translate dia q) args p of (r, p1) \<Rightarrow> case run_direct dr dia ops p1 of (rs, p2) \<Rightarrow> (Inl r # rs, p2))"
| "run_direct dr dia (QueryOp other q args # ops) p =
     (case sq_Query dr (Translate dia q) args p of (r, p1) \<Rightarrow> case run_direct dr dia ops p1 of (rs, p2) \<Rightarrow> (Inr r # rs, p2))"

lemma run_db_direct:
  assumes pr: "prepares dr text data" and dt: "data_only dr data"
  shows "run_db dr ops d = (rs, d') \<Longrightarrow> run_direct dr (dbw_dialect d) ops q = (rs', p') \<Longrightarrow>
    data (dbw_pool d) = data q \<Longrightarrow> stmts_ok text (dbw_stmts d) \<Longrightarrow> \<forall>p \<in> set ops. stmts_ok text (op_other p) \<Longrightarrow>
    rs = rs' \<and> data (dbw_pool d') = data p' \<and> stmts_ok text (dbw_stmts d')"
proof (induction ops arbitrary: d q rs rs')
  case (Cons p ops)
  show ?case
  proof (cases p)
    case (ExecOp other qu args)
    obtain r1 d1 where x: "DB_Exec dr other qu args d = (r1, d1)" by fastforce
    have ot: "stmts_ok text other" using Cons.prems(5) ExecOp by simp
    note dx = DB_Exec_direct [OF pr dt Cons.prems(4) ot x]
    obtain r2 p1 where y: "sq_Exec dr (Translate (dbw_dialect d) qu) args q = (r2, p1)" by fastforce
    have eq: "r1 = r2" "data (dbw_pool d1) = data p1"
      using dx y dt Cons.prems(3) unfolding data_only_def by (metis fst_conv, metis snd_conv)
    obtain rs1 where a: "run_db dr ops d1 = (rs1, d')" "rs = Inl r1 # rs1"
      using Cons.prems(1) x ExecOp by (auto split: prod.splits)
    obtain rs2 where b: "run_direct dr (dbw_dialect d1) ops p1 = (rs2, p')" "rs' = Inl r2 # rs2"
      using Cons.prems(2) y ExecOp dx by (auto split: prod.splits)
    from Cons.IH [OF a(1) b(1) eq(2)] dx Cons.prems(5) eq a b show ?thesis by simp
  next
    case (QueryOp other qu args)
    obtain r1 d1 where x: "DB_Query dr other qu args d = (r1, d1)" by fastforce
    have ot: "stmts_ok text other" using Cons.prems(5) QueryOp by simp
    note dx = DB_Query_direct [OF pr dt Cons.prems(4) ot x]
    obtain r2 p1 where y: "sq_Query dr (Translate (dbw_dialect d) qu) args q = (r2, p1)" by fastforce
    have eq: "r1 = r2" "data (dbw_pool d1) = data p1"
      using dx y dt Cons.prems(3) unfolding data_only_def by (metis fst_conv, metis snd_conv)
    obtain rs1 where a: "run_db dr ops d1 = (rs1, d')" "rs = Inr r1 # rs1"
      using Cons.prems(1) x QueryOp by (auto split: prod.splits)
    obtain rs2 where b: "run_direct dr (dbw_dialect d1) ops p1 = (rs2, p')" "rs' = Inr r2 # rs2"
      using Cons.prems(2) y QueryOp dx by (auto split: prod.splits)
    from Cons.IH [OF a(1) b(1) eq(2)] dx Cons.prems(5) eq a b show ?thesis by simp
  qed
qed simp


text \<open>A pool for the witness: a log of the executed statements, of which a query returns the length;
  texts of odd length cannot be prepared.\<close>

definition log_rows :: "string list \<Rightarrow> sql_rows" where
  "log_rows p = \<lparr>sr_Columns = Inr [''n''], sr_Scans = [Inr [SV_Int (int (length p))]], sr_Err = None\<rparr>"

definition log_driver :: "(string list, string) sql_driver" where
  "log_driver =
     \<lparr>sq_Open = (\<lambda>_ _. Inr []), sq_SetLimits = (\<lambda>_ _ _ _ p. p), sq_Ping = (\<lambda>p. (Inr (), p)),
      sq_Close = (\<lambda>p. (Inr (), p)), sq_Exec = (\<lambda>q args p. (Inr (), p @ [q])),
      sq_Query = (\<lambda>q args p. (if q = [] then Inl (Ext ''syntax error'') else Inr (log_rows p), p)),
      sq_Prepare = (\<lambda>q p. (if even (length q) then Inr q else Inl (Ext ''cannot prepare''), p)),
      sq_StmtExec = (\<lambda>q args p. (Inr (), p @ [q])),
      sq_StmtQuery = (\<lambda>q args p. (if q = [] then Inl (Ext ''syntax error'') else Inr (log_rows p), p)),
      sq_StmtClose = (\<lambda>_ p. p)\<rparr>"


text \<open>\<open>Query\<close> is all or nothing: it returns every row the engine delivered, with every column,
  and an error anywhere, in the middle of the rows included, gives no rows and is remembered as the
  last error.\<close>

lemma scan_all_rows:
  "scan_all columns scans = Inr ms \<Longrightarrow> \<exists>vss. scans = map Inr vss \<and> ms = map (row_map columns) vss"
proof (induction scans arbitrary: ms)
  case (Cons a scans)
  then obtain vs ms' where "a = Inr vs" "scan_all columns scans = Inr ms'" "ms = row_map columns vs # ms'"
    by (cases a) (auto split: sum.splits)
  with Cons.IH [of ms'] show ?case by (metis list.simps(9))
qed simp

lemma row_map_columns:
  "length vs = length columns \<Longrightarrow> dom (row_map columns vs) = set columns"
  by (simp add: row_map_def dom_map_of_conv_image_fst flip: set_map)

lemma database_query_all_or_nothing:
  assumes "Database_Query dr query args d = (r, d')"
  shows "(case r of
     Inr ms \<Rightarrow> (\<exists>q rows columns vss. dt_queryDB d = Some q \<and> dt_connected d \<and>
        fst (sq_Query dr (Translate (dt_dialect d) query) args (dbw_pool q)) = Inr rows \<and>
        sr_Columns rows = Inr columns \<and> sr_Scans rows = map Inr vss \<and> sr_Err rows = None \<and>
        ms = map (row_map columns) vss) \<and> dt_lastError d' = dt_lastError d
   | Inl e \<Rightarrow> dt_lastError d' = Some e)"
proof (cases r)
  case (Inl e)
  with assms show ?thesis
    by (auto simp: Database_Query_def not_connected_def failed_def Let_def
        split: option.splits if_splits prod.splits sum.splits)
next
  case (Inr ms)
  with assms obtain q rows q1 columns where q: "dt_queryDB d = Some q" "dt_connected d"
    "with_pool (sq_Query dr (Translate (dt_dialect d) query) args) q = (Inr rows, q1)"
    "sr_Columns rows = Inr columns" "scan_all columns (sr_Scans rows) = Inr ms" "sr_Err rows = None"
    "d' = d\<lparr>dt_queryDB := Some q1\<rparr>"
    by (auto simp: Database_Query_def not_connected_def failed_def Let_def
        split: option.splits if_splits prod.splits sum.splits)
  moreover have "fst (sq_Query dr (Translate (dt_dialect d) query) args (dbw_pool q)) = Inr rows"
    using q(3) by (auto simp: with_pool_def split: prod.splits)
  ultimately show ?thesis using scan_all_rows [OF q(5)] Inr by auto
qed

text \<open>The limits of the pool: always at least one connection, and no more idle ones than ten or
  than may be open.\<close>

lemma pool_limits: "1 \<le> maxOpenConns cfg \<and> 1 \<le> maxIdleConns cfg \<and> maxIdleConns cfg \<le> maxOpenConns cfg \<and> maxIdleConns cfg \<le> 10"
  by (simp add: maxOpenConns_def maxIdleConns_def)

lemma Connect_ok:
  assumes "Connect dr cfg (d, f) = (Inr (), d', f')"
  shows "dt_connected d' \<and> dt_lastError d' = None \<and> dt_dialect d' = DialectFromString (dc_Type cfg) \<and>
    (\<exists>q. dt_queryDB d' = Some q \<and> dbw_dialect q = dt_dialect d' \<and> dbw_stmts q = Map.empty)"
  using assms
  by (auto simp: Connect_def NewDB_def Let_def split: prod.splits sum.splits Dialect.splits)

text \<open>A second \<open>Connect\<close> that fails keeps the old pool but already has the dialect of the new
  configuration: statements are then translated for the wrong engine.\<close>

lemma failed_reconnect_mixes_dialects:
  assumes "Connect dr cfg (d, f) = (Inl e, d', f')"
  shows "dt_queryDB d' = dt_queryDB d \<and> dt_connected d' = dt_connected d \<and>
    dt_dialect d' = DialectFromString (dc_Type cfg)"
  using assms by (auto simp: Connect_def Let_def split: prod.splits sum.splits Dialect.splits)

text \<open>The connection string for PostgreSQL quotes nothing: a password with a blank reads as further
  parameters, and two configurations for different databases give the same string.\<close>

lemma postgres_dsn_ambiguous:
  "dc_Password a = ''x dbname=prod'' \<and> dc_Name a = ''test'' \<and>
   dc_Password b = ''x'' \<and> dc_Name b = ''prod dbname=test'' \<and> a\<lparr>dc_Password := [], dc_Name := []\<rparr> = b\<lparr>dc_Password := [], dc_Name := []\<rparr> \<Longrightarrow>
   postgres_dsn a = postgres_dsn b"
proof -
  assume *: "dc_Password a = ''x dbname=prod'' \<and> dc_Name a = ''test'' \<and>
   dc_Password b = ''x'' \<and> dc_Name b = ''prod dbname=test'' \<and> a\<lparr>dc_Password := [], dc_Name := []\<rparr> = b\<lparr>dc_Password := [], dc_Name := []\<rparr>"
  then have "dc_Host a = dc_Host b" "dc_Port a = dc_Port b" "dc_User a = dc_User b" "dc_SSLMode a = dc_SSLMode b"
    "dc_SearchPath a = dc_SearchPath b" by (cases a, cases b, simp)+
  with * show ?thesis by (simp add: postgres_dsn_def Let_def)
qed

end
