(* ===== verification/Migration.thy ===== *)
theory Migration
  imports Prelude "HOL-Library.Multiset"
begin

text \<open>
  \<open>src/internal/database/migration.go\<close>: the registered migrations, the table
  \<open>schema_migrations\<close> and the run of the pending ones.  The world the functions
  \<open>Up\<close> act on is a type parameter.  Versions are distinct after registration, so that
  sorting by version has one result, whatever the algorithm of \<open>sort.Slice\<close>.
\<close>

section \<open>State\<close>

record 'w migration =
  mi_Version :: int
  mi_Name :: string
  mi_Up :: "('w \<Rightarrow> unit res \<times> 'w) option"
    \<comment> \<open>a nil function is \<open>None\<close>\<close>

type_synonym 'w MigrationManager = "'w migration list"

record 'w mig_db =
  mg_world :: 'w
  mg_table :: "(int \<times> string \<times> string) list option"
    \<comment> \<open>\<open>schema_migrations\<close>, \<open>None\<close> before it is created\<close>
  mg_faults :: "err option list"
    \<comment> \<open>which statements fail, for reasons outside the program\<close>

definition mg_pop :: "'w mig_db \<Rightarrow> err option \<times> 'w mig_db" where
  "mg_pop d = (case mg_faults d of [] \<Rightarrow> (None, d) | f # fs \<Rightarrow> (f, d\<lparr>mg_faults := fs\<rparr>))"

section \<open>Operations\<close>

definition NewMigrationManager :: "'w MigrationManager" where "NewMigrationManager = []"

fun replace_version :: "'w migration \<Rightarrow> 'w migration list \<Rightarrow> 'w migration list option" where
  "replace_version m [] = None"
| "replace_version m (e # es) =
     (if mi_Version e = mi_Version m then Some (m # es) else map_option (Cons e) (replace_version m es))"

definition Register :: "'w migration \<Rightarrow> 'w MigrationManager \<Rightarrow> 'w MigrationManager" where
  "Register m ms =
     (case replace_version m ms of Some ms' \<Rightarrow> sort_key mi_Version ms' | None \<Rightarrow> sort_key mi_Version (ms @ [m]))"

definition Initialize :: "'w mig_db \<Rightarrow> unit res \<times> 'w mig_db" where
  "Initialize d =
     (case mg_pop d of
        (Some e, d1) \<Rightarrow> (Inl (Wrapf ''failed to create schema_migrations table'' e), d1)
      | (None, d1) \<Rightarrow> (Inr (), case mg_table d1 of None \<Rightarrow> d1\<lparr>mg_table := Some []\<rparr> | Some _ \<Rightarrow> d1))"

text \<open>The query is run once more when its prepared statement fails.\<close>

definition getAppliedVersions :: "'w mig_db \<Rightarrow> int list res \<times> 'w mig_db" where
  "getAppliedVersions d =
     (let attempt = (\<lambda>d. case mg_pop d of
            (Some e, d1) \<Rightarrow> (Inl e, d1)
          | (None, d1) \<Rightarrow> (case mg_table d1 of None \<Rightarrow> (Inl (Ext ''no such table''), d1) | Some rs \<Rightarrow> (Inr (sort (map fst rs)), d1)));
          wrap = (\<lambda>(r, d1). case r of Inl e \<Rightarrow> (Inl (Wrapf ''failed to query applied migrations'' e), d1) | Inr vs \<Rightarrow> (Inr vs, d1))
      in case attempt d of (Inl e, d1) \<Rightarrow> wrap (attempt d1) | (Inr vs, d1) \<Rightarrow> (Inr vs, d1))"

definition GetCurrentVersion :: "'w mig_db \<Rightarrow> int \<times> 'w mig_db" where
  "GetCurrentVersion d =
     (case getAppliedVersions d of
        (Inl e, d1) \<Rightarrow> (0, d1)
      | (Inr [], d1) \<Rightarrow> (0, d1)
      | (Inr (v # vs), d1) \<Rightarrow> (fold (\<lambda>v m. if v > m then v else m) vs v, d1))"

definition getPendingMigrations :: "'w MigrationManager \<Rightarrow> 'w mig_db \<Rightarrow> 'w migration list res \<times> 'w mig_db" where
  "getPendingMigrations ms d =
     (case getAppliedVersions d of
        (Inl e, d1) \<Rightarrow> (Inl e, d1)
      | (Inr applied, d1) \<Rightarrow> (Inr (sort_key mi_Version (filter (\<lambda>m. mi_Version m \<notin> set applied) ms)), d1))"

definition recordMigration :: "string \<Rightarrow> int \<Rightarrow> string \<Rightarrow> 'w mig_db \<Rightarrow> unit res \<times> 'w mig_db" where
  "recordMigration ts version name d =
     (case mg_pop d of
        (Some e, d1) \<Rightarrow> (Inl (Wrapf ''failed to record migration'' e), d1)
      | (None, d1) \<Rightarrow>
          (case mg_table d1 of
             None \<Rightarrow> (Inl (Wrapf ''failed to record migration'' (Ext ''no such table'')), d1)
           | Some rs \<Rightarrow>
               if version \<in> fst ` set rs then (Inl (Wrapf ''failed to record migration'' (Ext ''UNIQUE constraint failed'')), d1)
               else (Inr (), d1\<lparr>mg_table := Some (rs @ [(version, name, ts)])\<rparr>)))"

fun run_pending :: "(int \<Rightarrow> string) \<Rightarrow> 'w migration list \<Rightarrow> 'w mig_db \<Rightarrow> unit res \<times> 'w mig_db" where
  "run_pending ts [] d = (Inr (), d)"
| "run_pending ts (m # ms) d =
     (case mi_Up m of
        None \<Rightarrow> (Inl (Errorf ''migration has no Up function''), d)
      | Some up \<Rightarrow>
          (case up (mg_world d) of
             (Inl e, w1) \<Rightarrow> (Inl (Wrapf ''migration failed'' e), d\<lparr>mg_world := w1\<rparr>)
           | (Inr _, w1) \<Rightarrow>
               (case recordMigration (ts (mi_Version m)) (mi_Version m) (mi_Name m) (d\<lparr>mg_world := w1\<rparr>) of
                  (Inl e, d1) \<Rightarrow> (Inl (Wrapf ''failed to record migration'' e), d1)
                | (Inr _, d1) \<Rightarrow> run_pending ts ms d1)))"

text \<open>\<open>ts\<close> is the clock when a version is recorded.\<close>

definition RunMigrations :: "(int \<Rightarrow> string) \<Rightarrow> 'w MigrationManager \<Rightarrow> 'w mig_db \<Rightarrow> unit res \<times> 'w mig_db" where
  "RunMigrations ts ms d =
     (case Initialize d of
        (Inl e, d1) \<Rightarrow> (Inl e, d1)
      | (Inr _, d1) \<Rightarrow>
          (case getPendingMigrations ms d1 of
             (Inl e, d2) \<Rightarrow> (Inl e, d2)
           | (Inr pending, d2) \<Rightarrow> run_pending ts pending d2))"

section \<open>Registration\<close>

definition versions :: "'w MigrationManager \<Rightarrow> int list" where "versions ms = map mi_Version ms"

definition reg_inv :: "'w MigrationManager \<Rightarrow> bool" where
  "reg_inv ms \<longleftrightarrow> sorted (versions ms) \<and> distinct (versions ms)"

lemma replace_versionD:
  assumes "replace_version m ms = Some ms'" "distinct (versions ms)"
  shows "versions ms' = versions ms \<and> mi_Version m \<in> set (versions ms) \<and>
    (\<forall>x. x \<in> set ms' \<longleftrightarrow> x = m \<or> x \<in> set ms \<and> mi_Version x \<noteq> mi_Version m)"
  using assms
proof (induction ms arbitrary: ms')
  case (Cons e es)
  show ?case
  proof (cases "mi_Version e = mi_Version m")
    case True
    with Cons.prems show ?thesis by (fastforce simp: versions_def image_iff)
  next
    case False
    with Cons.prems(1) obtain es' where es': "replace_version m es = Some es'" "ms' = e # es'" by auto
    from Cons.IH [OF es'(1)] Cons.prems(2) es' False show ?thesis by (auto simp: versions_def)
  qed
qed simp

lemma replace_version_None: "replace_version m ms = None \<longleftrightarrow> mi_Version m \<notin> set (versions ms)"
  by (induction ms) (auto simp: versions_def)

lemma distinct_versions_sort: "distinct (versions (sort_key mi_Version ms)) = distinct (versions ms)"
  unfolding versions_def by (rule mset_eq_imp_distinct_iff) simp

lemma Register_inv:
  assumes "reg_inv ms"
  shows "reg_inv (Register m ms) \<and> (\<forall>x. x \<in> set (Register m ms) \<longleftrightarrow> x = m \<or> x \<in> set ms \<and> mi_Version x \<noteq> mi_Version m)"
proof (cases "replace_version m ms")
  case None
  then have "mi_Version m \<notin> set (versions ms)" by (simp add: replace_version_None)
  then show ?thesis using assms None distinct_versions_sort [of "ms @ [m]"]
    by (fastforce simp: Register_def reg_inv_def versions_def image_iff)
next
  case (Some ms')
  from replace_versionD [OF Some] assms
  have "versions ms' = versions ms" "\<forall>x. x \<in> set ms' \<longleftrightarrow> x = m \<or> x \<in> set ms \<and> mi_Version x \<noteq> mi_Version m"
    by (auto simp: reg_inv_def)
  then show ?thesis using Some assms distinct_versions_sort [of ms'] by (simp add: Register_def reg_inv_def versions_def)
qed

section \<open>Runs\<close>

definition applied :: "'w mig_db \<Rightarrow> int set" where
  "applied d = (case mg_table d of None \<Rightarrow> {} | Some rs \<Rightarrow> fst ` set rs)"

text \<open>The reference: the functions of the migrations, one after the other.\<close>

fun run_ups :: "'w migration list \<Rightarrow> 'w \<Rightarrow> 'w" where
  "run_ups [] w = w"
| "run_ups (m # ms) w = run_ups ms (case mi_Up m of None \<Rightarrow> w | Some up \<Rightarrow> snd (up w))"

lemma run_ups_append [simp]: "run_ups (xs @ ys) w = run_ups ys (run_ups xs w)"
  by (induction xs arbitrary: w) simp_all

lemma mg_pop_same: "mg_pop d = (r, d1) \<Longrightarrow> mg_world d1 = mg_world d \<and> mg_table d1 = mg_table d"
  by (auto simp: mg_pop_def split: list.splits)

lemma record_ok:
  "recordMigration ts v n d = (Inr (), d1) \<Longrightarrow>
     applied d1 = insert v (applied d) \<and> v \<notin> applied d \<and> mg_world d1 = mg_world d \<and> mg_table d1 \<noteq> None"
  by (force simp: recordMigration_def applied_def image_iff dest!: mg_pop_same split: prod.splits option.splits if_splits)

lemma record_err:
  "recordMigration ts v n d = (Inl e, d1) \<Longrightarrow> applied d1 = applied d \<and> mg_world d1 = mg_world d \<and> mg_table d1 = mg_table d"
  using mg_pop_same [of d] by (cases "mg_table d") (auto simp: recordMigration_def applied_def split: prod.splits option.splits if_splits)

text \<open>Whatever happens, a prefix of the list is applied and recorded, and at most one function
  more was started.\<close>

lemma run_pending_prefix:
  assumes "run_pending ts ms d = (r, d')"
  shows "\<exists>done rest. ms = done @ rest \<and> applied d' = applied d \<union> set (versions done) \<and>
    (mg_table d \<noteq> None \<longrightarrow> mg_table d' \<noteq> None) \<and>
    (r = Inr () \<longrightarrow> rest = [] \<and> mg_world d' = run_ups done (mg_world d)) \<and>
    (\<forall>e. r = Inl e \<longrightarrow> (\<exists>m rest'. rest = m # rest' \<and>
       (mg_world d' = run_ups done (mg_world d) \<or> mg_world d' = run_ups (done @ [m]) (mg_world d))))"
  using assms
proof (induction ms arbitrary: d)
  case (Cons m ms)
  show ?case
  proof (cases "mi_Up m")
    case None
    with Cons.prems show ?thesis by (intro exI [of _ "[]"] exI [of _ "m # ms"]) (auto simp: versions_def)
  next
    case (Some up)
    obtain u w1 where u: "up (mg_world d) = (u, w1)" by fastforce
    obtain c d1 where c: "recordMigration (ts (mi_Version m)) (mi_Version m) (mi_Name m) (d\<lparr>mg_world := w1\<rparr>) = (c, d1)" by fastforce
    consider e where "u = Inl e" | e where "u = Inr ()" "c = Inl e" | "u = Inr ()" "c = Inr ()"
      by (metis obj_sumE old.unit.exhaust)
    then show ?thesis
    proof cases
      case 1
      with Cons.prems Some u show ?thesis
        by (intro exI [of _ "[]"] exI [of _ "m # ms"]) (auto simp: versions_def applied_def)
    next
      case 2
      from record_err [OF c [unfolded 2(2)]] Cons.prems Some u 2 c show ?thesis
        by (intro exI [of _ "[]"] exI [of _ "m # ms"]) (auto simp: versions_def applied_def)
    next
      case 3
      note ok = record_ok [OF c [unfolded 3(2)]]
      have "run_pending ts ms d1 = (r, d')" using Cons.prems Some u c 3 by simp
      from Cons.IH [OF this] obtain dn rest where ih: "ms = dn @ rest" "applied d' = applied d1 \<union> set (versions dn)"
        "mg_table d1 \<noteq> None \<longrightarrow> mg_table d' \<noteq> None"
        "r = Inr () \<longrightarrow> rest = [] \<and> mg_world d' = run_ups dn (mg_world d1)"
        "\<forall>e. r = Inl e \<longrightarrow> (\<exists>m rest'. rest = m # rest' \<and>
           (mg_world d' = run_ups dn (mg_world d1) \<or> mg_world d' = run_ups (dn @ [m]) (mg_world d1)))" by blast
      have "applied (d\<lparr>mg_world := w1\<rparr>) = applied d" by (simp add: applied_def)
      with ih ok Some u show ?thesis
        by (intro exI [of _ "m # dn"] exI [of _ rest]) (auto simp: versions_def)
    qed
  qed
qed (auto simp: versions_def)

lemma getApplied_ok: "getAppliedVersions d = (Inr vs, d1) \<Longrightarrow>
    set vs = applied d \<and> applied d1 = applied d \<and> mg_world d1 = mg_world d \<and> mg_table d1 = mg_table d"
  by (force simp: getAppliedVersions_def applied_def Let_def dest!: mg_pop_same split: prod.splits option.splits sum.splits)

lemma getApplied_err: "getAppliedVersions d = (Inl e, d1) \<Longrightarrow> applied d1 = applied d \<and> mg_world d1 = mg_world d"
  by (auto simp: getAppliedVersions_def applied_def Let_def dest!: mg_pop_same split: prod.splits option.splits sum.splits)

lemma Initialize_same: "Initialize d = (r, d1) \<Longrightarrow> applied d1 = applied d \<and> mg_world d1 = mg_world d \<and> (r = Inr () \<longrightarrow> mg_table d1 \<noteq> None)"
  by (auto simp: Initialize_def applied_def dest!: mg_pop_same split: prod.splits option.splits)

definition pending :: "'w MigrationManager \<Rightarrow> 'w mig_db \<Rightarrow> 'w migration list" where
  "pending ms d = filter (\<lambda>m. mi_Version m \<notin> applied d) ms"

lemma getPending_ok:
  assumes "reg_inv ms" "getPendingMigrations ms d = (Inr ps, d1)"
  shows "ps = pending ms d \<and> applied d1 = applied d \<and> mg_world d1 = mg_world d"
proof -
  obtain vs where vs: "getAppliedVersions d = (Inr vs, d1)" "ps = sort_key mi_Version (filter (\<lambda>m. mi_Version m \<notin> set vs) ms)"
    using assms(2) by (auto simp: getPendingMigrations_def split: prod.splits sum.splits)
  have "sorted (map mi_Version (filter P ms))" for P
    using assms(1) by (induction ms) (auto simp: reg_inv_def versions_def)
  with vs getApplied_ok [OF vs(1)] show ?thesis by (simp add: pending_def sort_key_id_if_sorted)
qed

lemma RunMigrations_ok:
  assumes inv: "reg_inv ms" and r: "RunMigrations ts ms d = (Inr (), d')"
  shows "mg_world d' = run_ups (pending ms d) (mg_world d) \<and> applied d' = applied d \<union> set (versions ms)"
proof -
  obtain d1 ps d2 where i: "Initialize d = (Inr (), d1)" and p: "getPendingMigrations ms d1 = (Inr ps, d2)"
    and run: "run_pending ts ps d2 = (Inr (), d')"
    using r by (auto simp: RunMigrations_def split: prod.splits sum.splits)
  note pp = getPending_ok [OF inv p]
  from run_pending_prefix [OF run] pp Initialize_same [OF i]
  show ?thesis by (auto simp: pending_def versions_def)
qed

lemma RunMigrations_err:
  assumes inv: "reg_inv ms" and r: "RunMigrations ts ms d = (Inl e, d')"
  shows "\<exists>done rest. pending ms d = done @ rest \<and> applied d' = applied d \<union> set (versions done) \<and>
    (mg_world d' = run_ups done (mg_world d) \<or> (\<exists>m rest'. rest = m # rest' \<and> mg_world d' = run_ups (done @ [m]) (mg_world d)))"
proof -
  obtain i d1 where i: "Initialize d = (i, d1)" by fastforce
  note same = Initialize_same [OF i]
  obtain p d2 where p: "getPendingMigrations ms d1 = (p, d2)" by fastforce
  consider x where "i = Inl x" | x where "i = Inr ()" "p = Inl x" | ps where "i = Inr ()" "p = Inr ps"
    by (metis obj_sumE old.unit.exhaust)
  then show ?thesis
  proof cases
    case 1
    then have "d' = d1" using r i by (simp add: RunMigrations_def)
    then show ?thesis using same by (intro exI [of _ "[]"] exI [of _ "pending ms d"]) (simp add: versions_def)
  next
    case 2
    then have "d' = d2" using r i p by (simp add: RunMigrations_def)
    moreover have "applied d2 = applied d1 \<and> mg_world d2 = mg_world d1"
      using p 2 getApplied_err by (auto simp: getPendingMigrations_def split: prod.splits sum.splits)
    ultimately show ?thesis using same by (intro exI [of _ "[]"] exI [of _ "pending ms d"]) (simp add: versions_def)
  next
    case 3
    then have run: "run_pending ts ps d2 = (Inl e, d')" using r i p by (simp add: RunMigrations_def)
    note pp = getPending_ok [OF inv p [unfolded 3(2)]]
    have "pending ms d1 = pending ms d" using same by (simp add: pending_def)
    with pp have ps: "ps = pending ms d" by simp
    from run_pending_prefix [OF run] obtain dn rest m rest' where "ps = dn @ rest" "applied d' = applied d2 \<union> set (versions dn)"
      "rest = m # rest'" "mg_world d' = run_ups dn (mg_world d2) \<or> mg_world d' = run_ups (dn @ [m]) (mg_world d2)" by blast
    then show ?thesis using ps pp same by (intro exI [of _ dn] exI [of _ rest]) simp
  qed
qed

section \<open>Properties\<close>

text \<open>
  C24: each migration runs once, in order of its version.  Register any migrations, in any
  order and with repeated versions, of which the last one counts, and run them on any
  database with any failures.  On success the functions that ran are exactly those of the
  versions not yet recorded, in ascending order, and every registered version is recorded, so that
  a second successful run changes nothing.  On an error an ascending prefix is applied and
  recorded, at most the function of the next version was run without being recorded, and no
  later one.
\<close>

theorem migrations_in_order:
  assumes ms: "ms = fold Register regs NewMigrationManager" and r: "RunMigrations ts ms d = (r, d')"
  shows "reg_inv ms \<and> (r = Inr () \<longrightarrow> mg_world d' = run_ups (pending ms d) (mg_world d) \<and> applied d' = applied d \<union> set (versions ms) \<and>
       (\<forall>ts2 d2. RunMigrations ts2 ms d' = (Inr (), d2) \<longrightarrow> mg_world d2 = mg_world d' \<and> applied d2 = applied d')) \<and>
    (\<forall>e. r = Inl e \<longrightarrow> (\<exists>done rest. pending ms d = done @ rest \<and> applied d' = applied d \<union> set (versions done) \<and>
       (mg_world d' = run_ups done (mg_world d) \<or> (\<exists>m rest'. rest = m # rest' \<and> mg_world d' = run_ups (done @ [m]) (mg_world d)))))"
proof -
  have "reg_inv l \<Longrightarrow> reg_inv (fold Register regs l)" for l by (induction regs arbitrary: l) (simp_all add: Register_inv)
  then have inv: "reg_inv ms" unfolding ms by (simp add: NewMigrationManager_def reg_inv_def versions_def)
  show ?thesis
  proof (cases r)
    case (Inl e)
    from inv RunMigrations_err [OF inv r [unfolded Inl]] Inl show ?thesis by simp
  next
    case (Inr u)
    with r have ok: "RunMigrations ts ms d = (Inr (), d')" by simp
    note o = RunMigrations_ok [OF inv ok]
    have "pending ms d' = []" using o by (auto simp: pending_def versions_def)
    then have "mg_world d2 = mg_world d' \<and> applied d2 = applied d'" if "RunMigrations ts2 ms d' = (Inr (), d2)" for ts2 d2
      using RunMigrations_ok [OF inv that] o by auto
    with inv o Inr show ?thesis by simp
  qed
qed

theorem migrations_in_order_witness:
  "let up = (\<lambda>n w. (Inr (), w @ [n])); ms = fold Register [\<lparr>mi_Version = 3, mi_Name = ''c'', mi_Up = Some (up 3)\<rparr>,
         \<lparr>mi_Version = 1, mi_Name = ''a'', mi_Up = Some (up 7)\<rparr>, \<lparr>mi_Version = 1, mi_Name = ''a'', mi_Up = Some (up (1 :: int))\<rparr>] NewMigrationManager;
       d = \<lparr>mg_world = [], mg_table = None, mg_faults = []\<rparr>
   in (\<exists>d'. RunMigrations (\<lambda>_. ''t'') ms d = (Inr (), d') \<and> mg_world d' = [1, 3] \<and> applied d' = {1, 3})"
proof -
  let ?up = "\<lambda>n w. (Inr (), w @ [n])"
  let ?regs = "[\<lparr>mi_Version = 3, mi_Name = ''c'', mi_Up = Some (?up 3)\<rparr>,
         \<lparr>mi_Version = 1, mi_Name = ''a'', mi_Up = Some (?up 7)\<rparr>, \<lparr>mi_Version = 1, mi_Name = ''a'', mi_Up = Some (?up (1 :: int))\<rparr>]"
  let ?ms = "fold Register ?regs NewMigrationManager" let ?d = "\<lparr>mg_world = [], mg_table = None, mg_faults = []\<rparr>"
  have ms: "?ms = [\<lparr>mi_Version = 1, mi_Name = ''a'', mi_Up = Some (?up 1)\<rparr>, \<lparr>mi_Version = 3, mi_Name = ''c'', mi_Up = Some (?up 3)\<rparr>]"
    by (simp add: Register_def NewMigrationManager_def)
  have ok: "fst (RunMigrations (\<lambda>_. ''t'') ?ms ?d) = Inr ()" unfolding ms by code_simp
  then obtain d' where r: "RunMigrations (\<lambda>_. ''t'') ?ms ?d = (Inr (), d')" by (cases "RunMigrations (\<lambda>_. ''t'') ?ms ?d") simp
  from migrations_in_order [OF refl r] have "mg_world d' = run_ups (pending ?ms ?d) [] \<and> applied d' = {} \<union> set (versions ?ms)"
    by (simp add: applied_def)
  then have "mg_world d' = [1, 3]" "applied d' = {1, 3}" unfolding ms by (simp_all add: pending_def applied_def versions_def)
  with r show ?thesis by (simp add: Let_def)
qed

end
