(* ===== verification/Schema.thy ===== *)
theory Schema
  imports Migration
begin

text \<open>
  The tables of the server: the migration \<open>initial_schema\<close> that \<open>src/cmd/fsserver/main.go\<close>
  registers, and \<open>InitTables\<close> of \<open>src/internal/database/metadata.go\<close>, which the tests use
  in its place.  A statement is its abstract syntax; \<open>exec_ddl\<close> is what SQL says of
  \<open>CREATE ... IF NOT EXISTS\<close>, and \<open>sm_faults\<close> decides which statements fail for reasons
  outside the program.
\<close>

section \<open>Statements\<close>

datatype sql_type = VARCHAR nat | BIGINT | TIMESTAMP | BOOLEAN | TEXT

record column =
  cl_name :: string
  cl_type :: sql_type
  cl_primary :: bool
  cl_unique :: bool
  cl_notnull :: bool
  cl_default :: "string option"

definition col :: "string \<Rightarrow> sql_type \<Rightarrow> column" where
  "col n t = \<lparr>cl_name = n, cl_type = t, cl_primary = False, cl_unique = False, cl_notnull = False,
     cl_default = None\<rparr>"

definition PRIMARY_KEY :: "column \<Rightarrow> column" where "PRIMARY_KEY c = c\<lparr>cl_primary := True\<rparr>"
definition UNIQUE :: "column \<Rightarrow> column" where "UNIQUE c = c\<lparr>cl_unique := True\<rparr>"
definition NOT_NULL :: "column \<Rightarrow> column" where "NOT_NULL c = c\<lparr>cl_notnull := True\<rparr>"
definition DEFAULT :: "string \<Rightarrow> column \<Rightarrow> column" where "DEFAULT v c = c\<lparr>cl_default := Some v\<rparr>"

datatype ddl = CreateTable string "column list" | CreateIndex string string string

record schema =
  sm_tables :: "string \<rightharpoonup> column list"
  sm_indexes :: "string \<rightharpoonup> string \<times> string"
  sm_faults :: "err option list"

definition sm_pop :: "schema \<Rightarrow> err option \<times> schema" where
  "sm_pop s = (case sm_faults s of [] \<Rightarrow> (None, s) | f # fs \<Rightarrow> (f, s\<lparr>sm_faults := fs\<rparr>))"

fun exec_ddl :: "ddl \<Rightarrow> schema \<Rightarrow> unit res \<times> schema" where
  "exec_ddl (CreateTable t cs) s =
     (case sm_pop s of
        (Some e, s1) \<Rightarrow> (Inl e, s1)
      | (None, s1) \<Rightarrow>
          (Inr (), if sm_tables s1 t = None then s1\<lparr>sm_tables := (sm_tables s1)(t \<mapsto> cs)\<rparr> else s1))"
| "exec_ddl (CreateIndex i t c) s =
     (case sm_pop s of
        (Some e, s1) \<Rightarrow> (Inl e, s1)
      | (None, s1) \<Rightarrow>
          (if sm_indexes s1 i \<noteq> None then (Inr (), s1)
           else case sm_tables s1 t of
             None \<Rightarrow> (Inl (Ext ''no such table''), s1)
           | Some cs \<Rightarrow>
               if c \<in> cl_name ` set cs then (Inr (), s1\<lparr>sm_indexes := (sm_indexes s1)(i \<mapsto> (t, c))\<rparr>)
               else (Inl (Ext ''no such column''), s1)))"

section \<open>The initial schema\<close>

definition timestamps :: "column list" where
  "timestamps =
     [DEFAULT ''CURRENT_TIMESTAMP'' (NOT_NULL (col ''created_at'' TIMESTAMP)),
      DEFAULT ''CURRENT_TIMESTAMP'' (NOT_NULL (col ''updated_at'' TIMESTAMP))]"

definition deleted_flag :: column where
  "deleted_flag = DEFAULT ''FALSE'' (NOT_NULL (col ''is_deleted'' BOOLEAN))"

definition files_columns :: "column list" where
  "files_columns =
     ([PRIMARY_KEY (col ''id'' (VARCHAR 36)), NOT_NULL (UNIQUE (col ''path'' (VARCHAR 1024))),
       NOT_NULL (col ''name'' (VARCHAR 255)), DEFAULT ''0'' (NOT_NULL (col ''size'' BIGINT)),
       col ''hash'' (VARCHAR 64), DEFAULT ''local'' (NOT_NULL (col ''storage_type'' (VARCHAR 32))),
       col ''storage_location'' (VARCHAR 512)] @ timestamps @ [deleted_flag])"

definition files_table :: ddl where
  "files_table = CreateTable ''files'' files_columns"

definition directories_columns :: "column list" where
  "directories_columns =
     ([PRIMARY_KEY (col ''id'' (VARCHAR 36)), NOT_NULL (UNIQUE (col ''path'' (VARCHAR 1024))),
       NOT_NULL (col ''name'' (VARCHAR 255))] @ timestamps @ [deleted_flag])"

definition directories_table :: ddl where
  "directories_table = CreateTable ''directories'' directories_columns"

definition transfer_tasks_columns :: "column list" where
  "transfer_tasks_columns =
     ([PRIMARY_KEY (col ''id'' (VARCHAR 36)), NOT_NULL (col ''type'' (VARCHAR 16)),
       col ''file_id'' (VARCHAR 36), col ''client_id'' (VARCHAR 128),
       DEFAULT ''0'' (NOT_NULL (col ''offset'' BIGINT)), DEFAULT ''0'' (NOT_NULL (col ''total_size'' BIGINT)),
       DEFAULT ''pending'' (NOT_NULL (col ''status'' (VARCHAR 16)))] @ timestamps)"

definition transfer_tasks_table :: ddl where
  "transfer_tasks_table = CreateTable ''transfer_tasks'' transfer_tasks_columns"

definition audit_log_columns :: "column list" where
  "audit_log_columns =
     [PRIMARY_KEY (col ''id'' (VARCHAR 36)),
      DEFAULT ''CURRENT_TIMESTAMP'' (NOT_NULL (col ''timestamp'' TIMESTAMP)),
      NOT_NULL (col ''operation'' (VARCHAR 32)), NOT_NULL (col ''resource_path'' (VARCHAR 1024)),
      col ''user_identifier'' (VARCHAR 128), col ''client_ip'' (VARCHAR 64), col ''user_agent'' (VARCHAR 256),
      DEFAULT ''TRUE'' (NOT_NULL (col ''success'' BOOLEAN)), col ''details'' TEXT]"

definition audit_log_table :: ddl where
  "audit_log_table = CreateTable ''audit_log'' audit_log_columns"

definition api_keys_columns :: "column list" where
  "api_keys_columns =
     [PRIMARY_KEY (col ''id'' (VARCHAR 36)), UNIQUE (NOT_NULL (col ''key_hash'' (VARCHAR 256))),
      NOT_NULL (col ''name'' (VARCHAR 128)), col ''description'' (VARCHAR 512), col ''permissions'' TEXT,
      DEFAULT ''CURRENT_TIMESTAMP'' (NOT_NULL (col ''created_at'' TIMESTAMP)), col ''expires_at'' TIMESTAMP,
      col ''last_used_at'' TIMESTAMP, DEFAULT ''TRUE'' (NOT_NULL (col ''is_active'' BOOLEAN))]"

definition api_keys_table :: ddl where
  "api_keys_table = CreateTable ''api_keys'' api_keys_columns"

definition statements :: "ddl list" where
  "statements =
     [files_table,
      CreateIndex ''idx_files_path'' ''files'' ''path'',
      CreateIndex ''idx_files_name'' ''files'' ''name'',
      CreateIndex ''idx_files_is_deleted'' ''files'' ''is_deleted'',
      directories_table,
      CreateIndex ''idx_dirs_path'' ''directories'' ''path'',
      CreateIndex ''idx_dirs_is_deleted'' ''directories'' ''is_deleted'',
      transfer_tasks_table,
      CreateIndex ''idx_tasks_file_id'' ''transfer_tasks'' ''file_id'',
      CreateIndex ''idx_tasks_client_id'' ''transfer_tasks'' ''client_id'',
      CreateIndex ''idx_tasks_status'' ''transfer_tasks'' ''status'',
      audit_log_table,
      CreateIndex ''idx_audit_timestamp'' ''audit_log'' ''timestamp'',
      CreateIndex ''idx_audit_operation'' ''audit_log'' ''operation'',
      CreateIndex ''idx_audit_resource'' ''audit_log'' ''resource_path'',
      api_keys_table,
      CreateIndex ''idx_api_keys_hash'' ''api_keys'' ''key_hash'',
      CreateIndex ''idx_api_keys_active'' ''api_keys'' ''is_active'']"

fun exec_statements :: "ddl list \<Rightarrow> schema \<Rightarrow> unit res \<times> schema" where
  "exec_statements [] s = (Inr (), s)"
| "exec_statements (q # qs) s =
     (case exec_ddl q s of
        (Inl e, s1) \<Rightarrow> (Inl (Wrapf ''failed to execute migration statement'' e), s1)
      | (Inr _, s1) \<Rightarrow> exec_statements qs s1)"

definition initial_schema :: "schema migration" where
  "initial_schema =
     \<lparr>mi_Version = 1, mi_Name = ''initial_schema'', mi_Up = Some (exec_statements statements)\<rparr>"

definition migrationMgr :: "schema MigrationManager" where
  "migrationMgr = Register initial_schema NewMigrationManager"

section \<open>InitTables\<close>

fun init_table :: "(ddl \<times> string) list \<Rightarrow> schema \<Rightarrow> unit res \<times> schema" where
  "init_table [] s = (Inr (), s)"
| "init_table ((q, what) # qs) s =
     (case exec_ddl q s of
        (Inl e, s1) \<Rightarrow> (Inl (Wrapf (''failed to create '' @ what) e), s1)
      | (Inr _, s1) \<Rightarrow> init_table qs s1)"

definition initFileTable :: "schema \<Rightarrow> unit res \<times> schema" where
  "initFileTable = init_table
     [(files_table, ''files table''),
      (CreateIndex ''idx_files_name'' ''files'' ''name'', ''files name index''),
      (CreateIndex ''idx_files_is_deleted'' ''files'' ''is_deleted'', ''files is_deleted index'')]"

definition initDirectoryTable :: "schema \<Rightarrow> unit res \<times> schema" where
  "initDirectoryTable = init_table
     [(directories_table, ''directories table''),
      (CreateIndex ''idx_dirs_path'' ''directories'' ''path'', ''directories path index''),
      (CreateIndex ''idx_dirs_is_deleted'' ''directories'' ''is_deleted'', ''directories is_deleted index'')]"

definition initTransferTaskTable :: "schema \<Rightarrow> unit res \<times> schema" where
  "initTransferTaskTable = init_table
     [(transfer_tasks_table, ''transfer_tasks table''),
      (CreateIndex ''idx_tasks_file_id'' ''transfer_tasks'' ''file_id'', ''transfer_tasks file_id index''),
      (CreateIndex ''idx_tasks_client_id'' ''transfer_tasks'' ''client_id'', ''transfer_tasks client_id index''),
      (CreateIndex ''idx_tasks_status'' ''transfer_tasks'' ''status'', ''transfer_tasks status index'')]"

definition initAuditLogTable :: "schema \<Rightarrow> unit res \<times> schema" where
  "initAuditLogTable = init_table
     [(audit_log_table, ''audit_log table''),
      (CreateIndex ''idx_audit_timestamp'' ''audit_log'' ''timestamp'', ''audit_log timestamp index''),
      (CreateIndex ''idx_audit_operation'' ''audit_log'' ''operation'', ''audit_log operation index''),
      (CreateIndex ''idx_audit_resource'' ''audit_log'' ''resource_path'', ''audit_log resource index'')]"

definition initApiKeyTable :: "schema \<Rightarrow> unit res \<times> schema" where
  "initApiKeyTable = init_table
     [(api_keys_table, ''api_keys table''),
      (CreateIndex ''idx_api_keys_hash'' ''api_keys'' ''key_hash'', ''api_keys hash index''),
      (CreateIndex ''idx_api_keys_active'' ''api_keys'' ''is_active'', ''api_keys active index'')]"

fun init_all :: "(schema \<Rightarrow> unit res \<times> schema) list \<Rightarrow> schema \<Rightarrow> unit res \<times> schema" where
  "init_all [] s = (Inr (), s)"
| "init_all (f # fs) s = (case f s of (Inl e, s1) \<Rightarrow> (Inl e, s1) | (Inr _, s1) \<Rightarrow> init_all fs s1)"

definition InitTables :: "schema \<Rightarrow> unit res \<times> schema" where
  "InitTables = init_all
     [initFileTable, initDirectoryTable, initTransferTaskTable, initAuditLogTable, initApiKeyTable]"

section \<open>Running statements that may fail, again and again\<close>

text \<open>\<open>within qs s\<close>: whatever exists was created by a statement of the list.  \<open>created q s\<close>:
  what the statement creates exists.\<close>

definition within :: "ddl list \<Rightarrow> schema \<Rightarrow> bool" where
  "within qs s \<longleftrightarrow> (\<forall>t cs. sm_tables s t = Some cs \<longrightarrow> CreateTable t cs \<in> set qs) \<and>
     (\<forall>i t c. sm_indexes s i = Some (t, c) \<longrightarrow> CreateIndex i t c \<in> set qs)"

fun created :: "schema \<Rightarrow> ddl \<Rightarrow> bool" where
  "created s (CreateTable t cs) = (sm_tables s t \<noteq> None)"
| "created s (CreateIndex i t c) = (sm_indexes s i \<noteq> None)"

fun ddl_name :: "ddl \<Rightarrow> string" where
  "ddl_name (CreateTable t cs) = t"
| "ddl_name (CreateIndex i t c) = i"

text \<open>Every index stands behind its table and names one of its columns.\<close>

fun has_column :: "string \<Rightarrow> string \<Rightarrow> ddl \<Rightarrow> bool" where
  "has_column t c (CreateTable t' cs) = (t' = t \<and> c \<in> cl_name ` set cs)"
| "has_column t c (CreateIndex i t' c') = False"

fun in_order :: "ddl list \<Rightarrow> ddl list \<Rightarrow> bool" where
  "in_order ts [] = True"
| "in_order ts (CreateTable t cs # qs) = in_order (CreateTable t cs # ts) qs"
| "in_order ts (CreateIndex i t c # qs) =
     (list_ex (has_column t c) ts \<and> in_order ts qs)"

lemma sm_pop_same:
  "sm_pop s = (f, s1) \<Longrightarrow> sm_tables s1 = sm_tables s \<and> sm_indexes s1 = sm_indexes s"
  by (auto simp: sm_pop_def split: list.splits)

lemma exec_ddl_step:
  assumes "exec_ddl q s = (r, s1)" and "q \<in> set qs" and "within qs s"
  shows "within qs s1" and "created s p \<Longrightarrow> created s1 p" and "r = Inr () \<Longrightarrow> created s1 q"
    and "sm_faults s = [] \<Longrightarrow> sm_faults s1 = []"
proof -
  obtain f s0 where f: "sm_pop s = (f, s0)" by fastforce
  note same = sm_pop_same [OF f]
  show "within qs s1"
    using assms same f by (cases q) (auto simp: within_def split: option.splits if_splits)
  show "created s p \<Longrightarrow> created s1 p"
    using assms(1) same f by (cases q; cases p) (auto split: option.splits if_splits)
  show "r = Inr () \<Longrightarrow> created s1 q"
    using assms(1) same f by (cases q) (auto split: option.splits if_splits)
  show "sm_faults s = [] \<Longrightarrow> sm_faults s1 = []"
    using assms(1) f by (cases q) (auto simp: sm_pop_def split: option.splits if_splits)
qed

lemma exec_statements_keeps:
  assumes "exec_statements ps s = (r, s1)" and "set ps \<subseteq> set qs" and "within qs s"
  shows "within qs s1 \<and> (\<forall>p. created s p \<longrightarrow> created s1 p) \<and> (r = Inr () \<longrightarrow> (\<forall>p \<in> set ps. created s1 p))"
  using assms
proof (induction ps arbitrary: s)
  case (Cons p ps)
  obtain r0 s0 where e: "exec_ddl p s = (r0, s0)" by fastforce
  have p: "p \<in> set qs" using Cons.prems(2) by simp
  note step = exec_ddl_step [OF e p Cons.prems(3)]
  show ?case
  proof (cases r0)
    case (Inl x)
    with Cons.prems(1) e have "s1 = s0" "r \<noteq> Inr ()" by auto
    with step show ?thesis by blast
  next
    case (Inr u)
    with Cons.prems(1) e have rest: "exec_statements ps s0 = (r, s1)" by simp
    from Cons.IH [OF rest _ step(1)] Cons.prems(2) step(2,3) Inr show ?thesis by auto
  qed
qed simp

lemma within_table:
  assumes "within qs s" and "distinct (map ddl_name qs)" and "CreateTable t cs \<in> set qs"
    and "created s (CreateTable t cs)"
  shows "sm_tables s t = Some cs"
proof -
  obtain cs' where cs': "sm_tables s t = Some cs'" using assms(4) by auto
  with assms(1) have "CreateTable t cs' \<in> set qs" by (simp add: within_def)
  with assms(2,3) have "CreateTable t cs' = CreateTable t cs"
    by (metis ddl_name.simps(1) distinct_map inj_onD)
  with cs' show ?thesis by simp
qed

lemma within_index:
  assumes "within qs s" and "distinct (map ddl_name qs)" and "CreateIndex i t c \<in> set qs"
    and "created s (CreateIndex i t c)"
  shows "sm_indexes s i = Some (t, c)"
proof -
  obtain t' c' where tc: "sm_indexes s i = Some (t', c')" using assms(4) by auto
  with assms(1) have "CreateIndex i t' c' \<in> set qs" by (simp add: within_def)
  with assms(2,3) have "CreateIndex i t' c' = CreateIndex i t c"
    by (metis ddl_name.simps(2) distinct_map inj_onD)
  with tc show ?thesis by simp
qed

text \<open>Without faults the statements succeed, whatever part of their work was done before.\<close>

lemma exec_statements_calm:
  assumes "sm_faults s = []" and "within qs s" and "set ps \<subseteq> set qs" and "distinct (map ddl_name qs)"
    and "in_order ts ps" and "\<forall>q \<in> set ts. q \<in> set qs \<and> created s q"
  shows "fst (exec_statements ps s) = Inr ()"
  using assms
proof (induction ps arbitrary: s ts)
  case (Cons p ps)
  obtain r s1 where e: "exec_ddl p s = (r, s1)" by fastforce
  have p: "p \<in> set qs" using Cons.prems(3) by simp
  note step = exec_ddl_step [OF e p Cons.prems(2)]
  have pop: "sm_pop s = (None, s)" using Cons.prems(1) by (simp add: sm_pop_def)
  have "r = Inr () \<and> (\<exists>ts'. in_order ts' ps \<and> (\<forall>q \<in> set ts'. q \<in> set qs \<and> created s1 q))"
  proof (cases p)
    case (CreateTable t cs)
    with e pop have "r = Inr ()" by simp
    moreover have "in_order (p # ts) ps" using Cons.prems(5) CreateTable by simp
    moreover have "\<forall>q \<in> set (p # ts). q \<in> set qs \<and> created s1 q"
      using Cons.prems(6) step(2,3) p calculation(1) by auto
    ultimately show ?thesis by blast
  next
    case (CreateIndex i t c)
    then obtain cs where tb: "CreateTable t cs \<in> set ts" "c \<in> cl_name ` set cs" and ord: "in_order ts ps"
      using Cons.prems(5) by (auto simp: list_ex_iff elim!: has_column.elims(2))
    with Cons.prems(6) have tqs: "CreateTable t cs \<in> set qs" and "created s (CreateTable t cs)" by auto
    with within_table [OF Cons.prems(2,4) tqs] have "sm_tables s t = Some cs" by simp
    with e pop CreateIndex tb(2) have "r = Inr ()" by (auto split: if_splits)
    with ord Cons.prems(6) step(2) show ?thesis by auto
  qed
  then obtain ts' where r: "r = Inr ()" and ts': "in_order ts' ps" "\<forall>q \<in> set ts'. q \<in> set qs \<and> created s1 q"
    by blast
  from Cons.IH [OF step(4) [OF Cons.prems(1)] step(1) _ Cons.prems(4) ts'] Cons.prems(3) e r
  show ?case by simp
qed simp

section \<open>Starts of the server\<close>

text \<open>The complete schema: everything the list creates, and nothing else.\<close>

fun present :: "schema \<Rightarrow> ddl \<Rightarrow> bool" where
  "present s (CreateTable t cs) = (sm_tables s t = Some cs)"
| "present s (CreateIndex i t c) = (sm_indexes s i = Some (t, c))"

definition complete :: "schema \<Rightarrow> bool" where
  "complete s \<longleftrightarrow> within statements s \<and> list_all (present s) statements"

lemmas table_defs = files_table_def directories_table_def transfer_tasks_table_def audit_log_table_def
  api_keys_table_def

lemma statements_names: "distinct (map ddl_name statements)"
  by (simp add: statements_def table_defs)

lemmas column_defs = files_columns_def directories_columns_def transfer_tasks_columns_def audit_log_columns_def
  api_keys_columns_def timestamps_def deleted_flag_def col_def PRIMARY_KEY_def UNIQUE_def NOT_NULL_def DEFAULT_def

lemma column_names:
  "cl_name ` set files_columns = {''id'', ''path'', ''name'', ''size'', ''hash'', ''storage_type'',
     ''storage_location'', ''created_at'', ''updated_at'', ''is_deleted''}"
  "cl_name ` set directories_columns = {''id'', ''path'', ''name'', ''created_at'', ''updated_at'', ''is_deleted''}"
  "cl_name ` set transfer_tasks_columns = {''id'', ''type'', ''file_id'', ''client_id'', ''offset'', ''total_size'',
     ''status'', ''created_at'', ''updated_at''}"
  "cl_name ` set audit_log_columns = {''id'', ''timestamp'', ''operation'', ''resource_path'', ''user_identifier'',
     ''client_ip'', ''user_agent'', ''success'', ''details''}"
  "cl_name ` set api_keys_columns = {''id'', ''key_hash'', ''name'', ''description'', ''permissions'', ''created_at'',
     ''expires_at'', ''last_used_at'', ''is_active''}"
  by (simp_all add: column_defs)

lemma statements_in_order: "in_order [] statements"
  by (simp add: statements_def table_defs column_names)

lemma complete_if_created:
  assumes "within statements s" and "\<forall>q \<in> set statements. created s q"
  shows "complete s"
  unfolding complete_def list_all_iff
proof (intro conjI ballI)
  fix q assume "q \<in> set statements"
  with within_table [OF assms(1) statements_names] within_index [OF assms(1) statements_names] assms(2)
  show "present s q" by (cases q) fastforce+
qed (rule assms(1))

text \<open>A start: the failures its statements will meet, and the run of the migrations.\<close>

record start_env =
  st_clock :: "int \<Rightarrow> string"
  st_faults :: "err option list"
  st_up_faults :: "err option list"

definition start_run :: "start_env \<Rightarrow> schema mig_db \<Rightarrow> unit res \<times> schema mig_db" where
  "start_run e d =
     RunMigrations (st_clock e) migrationMgr
       (d\<lparr>mg_faults := st_faults e, mg_world := (mg_world d)\<lparr>sm_faults := st_up_faults e\<rparr>\<rparr>)"

definition fresh_db :: "schema mig_db" where
  "fresh_db = \<lparr>mg_world = \<lparr>sm_tables = Map.empty, sm_indexes = Map.empty, sm_faults = []\<rparr>,
     mg_table = None, mg_faults = []\<rparr>"

definition started_db :: "schema mig_db \<Rightarrow> bool" where
  "started_db d \<longleftrightarrow> within statements (mg_world d) \<and> applied d \<subseteq> {1} \<and>
     (1 \<in> applied d \<longrightarrow> complete (mg_world d))"

lemma migrationMgr_eq: "migrationMgr = [initial_schema]"
  by (simp add: migrationMgr_def Register_def NewMigrationManager_def)

lemma mgr_inv: "reg_inv migrationMgr" and mgr_versions: "versions migrationMgr = [1]"
  by (simp_all add: migrationMgr_eq reg_inv_def versions_def initial_schema_def)

lemma complete_faults [simp]:
  "within qs (s\<lparr>sm_faults := fs\<rparr>) = within qs s" "complete (s\<lparr>sm_faults := fs\<rparr>) = complete s"
proof -
  have "present (s\<lparr>sm_faults := fs\<rparr>) = present s"
  proof
    show "present (s\<lparr>sm_faults := fs\<rparr>) q = present s q" for q by (cases q) simp_all
  qed
  then show "complete (s\<lparr>sm_faults := fs\<rparr>) = complete s" by (simp add: complete_def within_def)
qed (simp add: within_def)

lemma mgr_pending: "pending migrationMgr d = (if 1 \<in> applied d then [] else [initial_schema])"
  by (simp add: pending_def migrationMgr_eq initial_schema_def)

lemma up_run:
  assumes "within statements s" and "exec_statements statements s = (r, s1)"
  shows "within statements s1" and "r = Inr () \<Longrightarrow> complete s1"
  using exec_statements_keeps [OF assms(2) subset_refl assms(1)] complete_if_created [of s1] by auto

lemma run_pending_initial:
  assumes "started_db d" and "1 \<notin> applied d" and "run_pending ts [initial_schema] d = (r, d')"
  shows "started_db d' \<and> (r = Inr () \<longrightarrow> 1 \<in> applied d')"
proof -
  obtain u w where u: "exec_statements statements (mg_world d) = (u, w)" by fastforce
  have w: "within statements w" and c: "u = Inr () \<Longrightarrow> complete w"
    using up_run [OF _ u] assms(1) by (auto simp: started_db_def)
  obtain q d1 where q: "recordMigration (ts 1) 1 ''initial_schema'' (d\<lparr>mg_world := w\<rparr>) = (q, d1)" by fastforce
  have ap: "applied (d\<lparr>mg_world := w\<rparr>) = applied d" by (simp add: applied_def)
  consider x where "u = Inl x" | x where "u = Inr ()" "q = Inl x" | "u = Inr ()" "q = Inr ()"
    by (metis obj_sumE old.unit.exhaust)
  then show ?thesis
  proof cases
    case 1
    with assms u ap w show ?thesis by (auto simp: initial_schema_def started_db_def)
  next
    case 2
    with assms u q ap w record_err [OF q [unfolded 2(2)]] show ?thesis
      by (auto simp: initial_schema_def started_db_def)
  next
    case 3
    with assms u q ap w c record_ok [OF q [unfolded 3(2)]] show ?thesis
      by (auto simp: initial_schema_def started_db_def)
  qed
qed

text \<open>Every start, successful or not, keeps the database in a state from which a start can
  complete the schema, and a successful one has completed it.\<close>

lemma start_run_keeps:
  assumes "started_db d" and "start_run e d = (r, d')"
  shows "started_db d' \<and> (r = Inr () \<longrightarrow> complete (mg_world d'))"
proof -
  define d0 where "d0 = d\<lparr>mg_faults := st_faults e, mg_world := (mg_world d)\<lparr>sm_faults := st_up_faults e\<rparr>\<rparr>"
  have d0: "started_db d0" "RunMigrations (st_clock e) migrationMgr d0 = (r, d')"
    using assms by (simp_all add: d0_def start_run_def started_db_def applied_def)
  obtain i d1 where i: "Initialize d0 = (i, d1)" by fastforce
  have d1: "started_db d1" using Initialize_same [OF i] d0(1) by (simp add: started_db_def)
  obtain p d2 where p: "getPendingMigrations migrationMgr d1 = (p, d2)" by fastforce
  consider x where "i = Inl x" | x where "i = Inr ()" "p = Inl x" | ps where "i = Inr ()" "p = Inr ps"
    by (metis obj_sumE old.unit.exhaust)
  then show ?thesis
  proof cases
    case 1
    with d0(2) i d1 show ?thesis by (auto simp: RunMigrations_def)
  next
    case 2
    have "applied d2 = applied d1 \<and> mg_world d2 = mg_world d1"
      using p 2 getApplied_err by (auto simp: getPendingMigrations_def split: prod.splits sum.splits)
    with 2 d0(2) i p d1 show ?thesis by (auto simp: RunMigrations_def started_db_def)
  next
    case 3
    note pp = getPending_ok [OF mgr_inv p [unfolded 3(2)]]
    then have d2: "started_db d2" using d1 by (simp add: started_db_def)
    have run: "run_pending (st_clock e) (pending migrationMgr d2) d2 = (r, d')"
      using 3 d0(2) i p pp by (simp add: RunMigrations_def pending_def)
    show ?thesis
    proof (cases "1 \<in> applied d2")
      case True
      with run d2 show ?thesis by (auto simp: mgr_pending started_db_def)
    next
      case False
      with run_pending_initial [OF d2 False] run show ?thesis by (auto simp: mgr_pending started_db_def)
    qed
  qed
qed

lemma start_run_calm:
  assumes "started_db d" and "st_faults e = []" and "st_up_faults e = []"
  shows "fst (start_run e d) = Inr ()"
proof -
  define d0 where "d0 = d\<lparr>mg_faults := [], mg_world := (mg_world d)\<lparr>sm_faults := []\<rparr>\<rparr>"
  have d0: "started_db d0" "mg_faults d0 = []" "sm_faults (mg_world d0) = []"
    using assms(1) by (simp_all add: d0_def started_db_def applied_def)
  obtain d1 rs where i: "Initialize d0 = (Inr (), d1)" and t: "mg_table d1 = Some rs" and "mg_faults d1 = []"
    using d0(2) by (cases "mg_table d0") (auto simp: Initialize_def mg_pop_def)
  have d1: "applied d1 = applied d0" "mg_world d1 = mg_world d0" using Initialize_same [OF i] by auto
  have p: "getPendingMigrations migrationMgr d1 = (Inr (pending migrationMgr d1), d1)"
  proof -
    have "getAppliedVersions d1 = (Inr (sort (map fst rs)), d1)"
      using t \<open>mg_faults d1 = []\<close> by (simp add: getAppliedVersions_def mg_pop_def Let_def)
    with getPending_ok [OF mgr_inv, of d1 _ d1] show ?thesis by (simp add: getPendingMigrations_def)
  qed
  have "fst (run_pending (st_clock e) (pending migrationMgr d1) d1) = Inr ()"
  proof (cases "1 \<in> applied d1")
    case False
    have "fst (exec_statements statements (mg_world d1)) = Inr ()"
      using exec_statements_calm [OF _ _ subset_refl statements_names statements_in_order] d0 d1
      by (simp add: started_db_def)
    with False t \<open>mg_faults d1 = []\<close> show ?thesis
      by (auto simp: mgr_pending initial_schema_def recordMigration_def mg_pop_def applied_def split: prod.splits)
  qed (simp add: mgr_pending)
  with i p assms(2,3) show ?thesis by (simp add: start_run_def RunMigrations_def d0_def)
qed

lemma started_fresh: "started_db fresh_db"
  by (simp add: started_db_def fresh_db_def within_def applied_def)

section \<open>Properties\<close>

text \<open>
  C15: the schema survives any number of failed starts.  Begin with an empty database and start the
  server as often as you like, each time with any statements failing, in the migration or around
  it: the next start without failures succeeds, every start that succeeds leaves exactly the tables
  and indexes of the migration, and no start ever leaves a table or an index it does not have.
\<close>

theorem schema_recovers:
  assumes "fold (\<lambda>e d. snd (start_run e d)) es fresh_db = d"
  shows "within statements (mg_world d) \<and>
    (\<forall>e r d'. start_run e d = (r, d') \<longrightarrow>
       (r = Inr () \<longrightarrow> complete (mg_world d')) \<and> (st_faults e = [] \<and> st_up_faults e = [] \<longrightarrow> r = Inr ()))"
proof -
  have keep: "started_db d \<Longrightarrow> started_db (fold (\<lambda>e d. snd (start_run e d)) es d)" for d
  proof (induction es arbitrary: d)
    case (Cons e es)
    have "started_db (snd (start_run e d))" using start_run_keeps [OF Cons.prems] by (metis prod.collapse)
    with Cons.IH show ?case by simp
  qed simp
  have d: "started_db d" using keep [OF started_fresh] assms by blast
  have "(r = Inr () \<longrightarrow> complete (mg_world d')) \<and> (st_faults e = [] \<and> st_up_faults e = [] \<longrightarrow> r = Inr ())"
    if "start_run e d = (r, d')" for e r d'
    using start_run_keeps [OF d that] start_run_calm [OF d, of e] that by auto
  with d show ?thesis unfolding started_db_def by blast
qed

text \<open>The first start fails at the tenth statement, the second when the version is to be recorded.\<close>

definition failing_starts :: "start_env list" where
  "failing_starts =
     [\<lparr>st_clock = (\<lambda>_. ''t''), st_faults = [], st_up_faults = replicate 9 None @ [Some (Ext ''disk full'')]\<rparr>,
      \<lparr>st_clock = (\<lambda>_. ''t''), st_faults = [None, None, Some (Ext ''disk full'')], st_up_faults = []\<rparr>]"

theorem schema_recovers_witness:
  "\<exists>d'. start_run \<lparr>st_clock = (\<lambda>_. ''t''), st_faults = [], st_up_faults = []\<rparr>
      (fold (\<lambda>e d. snd (start_run e d)) failing_starts fresh_db) = (Inr (), d') \<and> complete (mg_world d')"
proof -
  let ?e = "\<lparr>st_clock = (\<lambda>_. ''t''), st_faults = [], st_up_faults = []\<rparr>"
  let ?d = "fold (\<lambda>e d. snd (start_run e d)) failing_starts fresh_db"
  obtain r d' where s: "start_run ?e ?d = (r, d')" by (metis surj_pair)
  from schema_recovers [OF refl, of failing_starts] s have "r = Inr () \<and> complete (mg_world d')" by simp
  with s show ?thesis by blast
qed

text \<open>
  The tests run on the schema of the server.  \<open>InitTables\<close> on an empty database succeeds and
  creates the very tables that the migration creates, column for column, and its indexes without
  the one on the path of a file, which the uniqueness of the path already provides.
\<close>

theorem init_tables_same_schema:
  "let s0 = mg_world fresh_db; (r1, s1) = InitTables s0; (r2, s2) = exec_statements statements s0
   in r1 = Inr () \<and> r2 = Inr () \<and> sm_tables s1 = sm_tables s2 \<and>
      (sm_indexes s1)(''idx_files_path'' \<mapsto> (''files'', ''path'')) = sm_indexes s2 \<and>
      sm_indexes s1 ''idx_files_path'' = None"
  by (simp add: Let_def fresh_db_def InitTables_def initFileTable_def initDirectoryTable_def
      initTransferTaskTable_def initAuditLogTable_def initApiKeyTable_def statements_def table_defs
      column_names sm_pop_def fun_upd_twist)

end
