(* ===== verification/Redis.thy ===== *)
theory Redis
  imports Dist_Lock Session_Store Cache_LRU
begin

text \<open>
  The parts of the server that keep their state in Redis: \<open>RedisDistributedLock\<close>
  (\<open>src/internal/distributed/lock.go\<close>), \<open>RedisSessionStore\<close>
  (\<open>src/internal/distributed/session.go\<close>) and \<open>RedisCache\<close>
  (\<open>src/internal/cache/redis.go\<close>), with the Lua scripts of the lock.

  The Redis server and the client library are parameters.  \<open>redis_server\<close> holds the commands
  the server executes, each one step on its database; a script is a composition of commands that
  runs as one step.  \<open>redis_client\<close> holds the requests of the library on the state of the
  connection, in which \<open>db\<close> finds the database.  \<open>server_ok\<close> is what the commands are
  documented to do, and \<open>client_ok\<close> says that a request answers with what the server
  answered; a request that fails may have been executed or not, and requests fail only in states
  that are not \<open>calm\<close>.
\<close>

section \<open>Server and client\<close>

text \<open>\<open>None\<close> is the reply nil of the server, the error \<open>redis.Nil\<close> of the library.\<close>

record 'r redis_server =
  rs_GET :: "gotime \<Rightarrow> string \<Rightarrow> 'r \<Rightarrow> bytes option \<times> 'r"
  rs_SET :: "gotime \<Rightarrow> string \<Rightarrow> bytes \<Rightarrow> int \<Rightarrow> 'r \<Rightarrow> unit \<times> 'r"
  rs_SETNX :: "gotime \<Rightarrow> string \<Rightarrow> bytes \<Rightarrow> int \<Rightarrow> 'r \<Rightarrow> bool \<times> 'r"
  rs_DEL :: "gotime \<Rightarrow> string \<Rightarrow> 'r \<Rightarrow> int \<times> 'r"
  rs_EXISTS :: "gotime \<Rightarrow> string \<Rightarrow> 'r \<Rightarrow> int \<times> 'r"
  rs_PEXPIRE :: "gotime \<Rightarrow> string \<Rightarrow> int \<Rightarrow> 'r \<Rightarrow> int \<times> 'r"

record ('s, 'r) redis_client =
  rd_Ping :: "'s \<Rightarrow> unit res \<times> 's"
  rd_Get :: "gotime \<Rightarrow> string \<Rightarrow> 's \<Rightarrow> bytes option res \<times> 's"
  rd_Set :: "gotime \<Rightarrow> string \<Rightarrow> bytes \<Rightarrow> int \<Rightarrow> 's \<Rightarrow> unit res \<times> 's"
  rd_SetNX :: "gotime \<Rightarrow> string \<Rightarrow> bytes \<Rightarrow> int \<Rightarrow> 's \<Rightarrow> bool res \<times> 's"
  rd_Del :: "string \<Rightarrow> 's \<Rightarrow> int res \<times> 's"
  rd_Exists :: "gotime \<Rightarrow> string \<Rightarrow> 's \<Rightarrow> int res \<times> 's"
  rd_Run :: "('r \<Rightarrow> int \<times> 'r) \<Rightarrow> 's \<Rightarrow> int res \<times> 's"

section \<open>RedisManager\<close>

text \<open>\<open>newClient\<close> is the client that \<open>redis.NewClient\<close> returns for the options.\<close>

definition NewRedisManager ::
  "('s, 'r) redis_client \<Rightarrow> 's \<Rightarrow> ('s, 'r) redis_client res \<times> 's"
where
  "NewRedisManager newClient s =
     (case rd_Ping newClient s of
        (Inl e, s1) \<Rightarrow> (Inl (Wrapf ''failed to connect to Redis'' e), s1)
      | (Inr _, s1) \<Rightarrow> (Inr newClient, s1))"

section \<open>RedisDistributedLock\<close>

definition lockKey :: "string \<Rightarrow> string" where
  "lockKey key = ''fsserver:lock:'' @ key"

definition Redis_Lock ::
  "('s, 'r) redis_client \<Rightarrow> string \<Rightarrow> gotime \<Rightarrow> string \<Rightarrow> int \<Rightarrow> 's \<Rightarrow> string res \<times> 's"
where
  "Redis_Lock c token now key ttl s =
     (case rd_SetNX c now (lockKey key) token ttl s of
        (Inl e, s1) \<Rightarrow> (Inl (Wrapf ''redis lock failed'' e), s1)
      | (Inr ok, s1) \<Rightarrow> if \<not> ok then (Inl ErrLockConflict, s1) else (Inr token, s1))"

text \<open>The two Lua scripts; \<open>false\<close>, what \<open>redis.call\<close> makes of nil, equals no string.\<close>

definition unlock_script :: "'r redis_server \<Rightarrow> gotime \<Rightarrow> string \<Rightarrow> bytes \<Rightarrow> 'r \<Rightarrow> int \<times> 'r" where
  "unlock_script sv now key1 arg1 r =
     (case rs_GET sv now key1 r of (v, r1) \<Rightarrow>
        if v = Some arg1 then rs_DEL sv now key1 r1 else (0, r1))"

definition extend_script ::
  "'r redis_server \<Rightarrow> gotime \<Rightarrow> string \<Rightarrow> bytes \<Rightarrow> int \<Rightarrow> 'r \<Rightarrow> int \<times> 'r"
where
  "extend_script sv now key1 arg1 arg2 r =
     (case rs_GET sv now key1 r of (v, r1) \<Rightarrow>
        if v = Some arg1 then rs_PEXPIRE sv now key1 arg2 r1 else (0, r1))"

definition Redis_Unlock ::
  "'r redis_server \<Rightarrow> ('s, 'r) redis_client \<Rightarrow> gotime \<Rightarrow> string \<Rightarrow> string \<Rightarrow> 's \<Rightarrow> unit res \<times> 's"
where
  "Redis_Unlock sv c now key token s =
     (case rd_Run c (unlock_script sv now (lockKey key) token) s of
        (Inl e, s1) \<Rightarrow> (Inl (Wrapf ''redis unlock failed'' e), s1)
      | (Inr result, s1) \<Rightarrow> if result = 0 then (Inl ErrLockNotHeld, s1) else (Inr (), s1))"

definition Milliseconds :: "int \<Rightarrow> int" where
  "Milliseconds d = go_quot d millisecond"

definition Redis_Extend ::
  "'r redis_server \<Rightarrow> ('s, 'r) redis_client \<Rightarrow> gotime \<Rightarrow> string \<Rightarrow> string \<Rightarrow> int \<Rightarrow> 's
    \<Rightarrow> unit res \<times> 's"
where
  "Redis_Extend sv c now key token ttl s =
     (case rd_Run c (extend_script sv now (lockKey key) token (Milliseconds ttl)) s of
        (Inl e, s1) \<Rightarrow> (Inl (Wrapf ''redis extend lock failed'' e), s1)
      | (Inr result, s1) \<Rightarrow> if result = 0 then (Inl ErrLockNotHeld, s1) else (Inr (), s1))"

definition RedisDistributedLock ::
  "'r redis_server \<Rightarrow> ('s, 'r) redis_client \<Rightarrow> 's DistributedLock"
where
  "RedisDistributedLock sv c =
     \<lparr>dl_Lock = Redis_Lock c, dl_Unlock = Redis_Unlock sv c, dl_Extend = Redis_Extend sv c\<rparr>"

section \<open>RedisSessionStore\<close>

definition sessionKey :: "string \<Rightarrow> string \<Rightarrow> string" where
  "sessionKey pre key = ''fsserver:session:'' @ pre @ '':'' @ key"

definition Redis_Set ::
  "('s, 'r) redis_client \<Rightarrow> 'v codec \<Rightarrow> gotime \<Rightarrow> string \<Rightarrow> string \<Rightarrow> 'v \<Rightarrow> int \<Rightarrow> 's \<Rightarrow> unit res \<times> 's"
where
  "Redis_Set c cd now pre key value ttl s =
     (case cd_Marshal cd value of
        Inl e \<Rightarrow> (Inl (Wrapf ''failed to marshal session'' e), s)
      | Inr data \<Rightarrow> rd_Set c now (sessionKey pre key) data ttl s)"

definition Redis_Get ::
  "('s, 'r) redis_client \<Rightarrow> 'v codec \<Rightarrow> gotime \<Rightarrow> string \<Rightarrow> string \<Rightarrow> 's \<Rightarrow> 'v res \<times> 's"
where
  "Redis_Get c cd now pre key s =
     (case rd_Get c now (sessionKey pre key) s of
        (Inl e, s1) \<Rightarrow> (Inl (Wrapf ''failed to get session'' e), s1)
      | (Inr None, s1) \<Rightarrow> (Inl (Errorf ''session not found''), s1)
      | (Inr (Some data), s1) \<Rightarrow>
          (case cd_Unmarshal cd data of
             Inl e \<Rightarrow> (Inl (Wrapf ''failed to unmarshal session'' e), s1)
           | Inr v \<Rightarrow> (Inr v, s1)))"

definition Redis_Delete ::
  "('s, 'r) redis_client \<Rightarrow> string \<Rightarrow> string \<Rightarrow> 's \<Rightarrow> unit res \<times> 's"
where
  "Redis_Delete c pre key s =
     (case rd_Del c (sessionKey pre key) s of (Inl e, s1) \<Rightarrow> (Inl e, s1) | (Inr _, s1) \<Rightarrow> (Inr (), s1))"

definition Redis_Exists ::
  "('s, 'r) redis_client \<Rightarrow> gotime \<Rightarrow> string \<Rightarrow> string \<Rightarrow> 's \<Rightarrow> bool res \<times> 's"
where
  "Redis_Exists c now pre key s =
     (case rd_Exists c now (sessionKey pre key) s of
        (Inl e, s1) \<Rightarrow> (Inl e, s1)
      | (Inr result, s1) \<Rightarrow> (Inr (0 < result), s1))"

definition RedisSessionStore ::
  "('s, 'r) redis_client \<Rightarrow> 'v codec \<Rightarrow> ('s, 'v) SessionStore"
where
  "RedisSessionStore c cd =
     \<lparr>ss_Set = Redis_Set c cd, ss_Get = Redis_Get c cd, ss_Delete = Redis_Delete c,
      ss_Exists = Redis_Exists c\<rparr>"

section \<open>RedisCache\<close>

text \<open>\<open>ttl\<close> is the number of seconds of the configuration.\<close>

definition cache_ttl :: "int \<Rightarrow> int" where
  "cache_ttl ttl = wrap64 (ttl * Dist_Lock.second)"

definition RCache_Get ::
  "('s, 'r) redis_client \<Rightarrow> 'v codec \<Rightarrow> gotime \<Rightarrow> string \<Rightarrow> 's \<Rightarrow> 'v option \<times> 's"
where
  "RCache_Get c cd now key s =
     (case rd_Get c now key s of
        (Inl e, s1) \<Rightarrow> (None, s1)
      | (Inr None, s1) \<Rightarrow> (None, s1)
      | (Inr (Some val), s1) \<Rightarrow>
          (case cd_Unmarshal cd val of Inl e \<Rightarrow> (None, s1) | Inr result \<Rightarrow> (Some result, s1)))"

definition RCache_Set ::
  "('s, 'r) redis_client \<Rightarrow> 'v codec \<Rightarrow> int \<Rightarrow> gotime \<Rightarrow> string \<Rightarrow> 'v \<Rightarrow> 's \<Rightarrow> 's"
where
  "RCache_Set c cd ttl now key value s =
     (case cd_Marshal cd value of Inl e \<Rightarrow> s | Inr data \<Rightarrow> snd (rd_Set c now key data ttl s))"

definition RCache_Delete :: "('s, 'r) redis_client \<Rightarrow> string \<Rightarrow> 's \<Rightarrow> 's" where
  "RCache_Delete c key s = snd (rd_Del c key s)"

definition RCache_Exists :: "('s, 'r) redis_client \<Rightarrow> gotime \<Rightarrow> string \<Rightarrow> 's \<Rightarrow> bool" where
  "RCache_Exists c now key s =
     (case fst (rd_Exists c now key s) of Inl e \<Rightarrow> False | Inr val \<Rightarrow> 0 < val)"

definition RedisCache :: "('s, 'r) redis_client \<Rightarrow> 'v codec \<Rightarrow> int \<Rightarrow> ('s, 'v) CacheAdapter" where
  "RedisCache c cd ttl =
     \<lparr>ca_Get = RCache_Get c cd, ca_Set = RCache_Set c cd (cache_ttl ttl), ca_Delete = RCache_Delete c,
      ca_Exists = RCache_Exists c\<rparr>"

section \<open>What the server and the client promise\<close>

text \<open>\<open>view n k r\<close> is the value of the key \<open>k\<close> at time \<open>n\<close> if the database stays
  as it is in \<open>r\<close>.  Redis counts in milliseconds; a key lives for its time to live, and no
  more than a millisecond longer.\<close>

type_synonym 'r redis_view = "gotime \<Rightarrow> string \<Rightarrow> 'r \<Rightarrow> bytes option"

definition redis_life :: "int \<Rightarrow> bool" where
  "redis_life ttl \<longleftrightarrow> 0 \<le> ttl \<and> ttl mod millisecond = 0"

definition same_view :: "'r redis_view \<Rightarrow> gotime \<Rightarrow> string \<Rightarrow> 'r \<Rightarrow> 'r \<Rightarrow> bool" where
  "same_view view now k r r' \<longleftrightarrow> (\<forall>n\<ge>now. view n k r' = view n k r)"

definition other_view :: "'r redis_view \<Rightarrow> string \<Rightarrow> 'r \<Rightarrow> 'r \<Rightarrow> bool" where
  "other_view view k r r' \<longleftrightarrow> (\<forall>n k'. k' \<noteq> k \<longrightarrow> view n k' r' = view n k' r)"

definition lives :: "'r redis_view \<Rightarrow> gotime \<Rightarrow> string \<Rightarrow> bytes \<Rightarrow> int \<Rightarrow> 'r \<Rightarrow> bool" where
  "lives view now k v ttl r \<longleftrightarrow>
     (\<forall>n. now \<le> n \<and> (0 < ttl \<longrightarrow> n \<le> now + ttl) \<longrightarrow> view n k r = Some v) \<and>
     (\<forall>n. 0 < ttl \<and> now + ttl + millisecond < n \<longrightarrow> view n k r = None)"

definition get_ok :: "'r redis_server \<Rightarrow> 'r redis_view \<Rightarrow> bool" where
  "get_ok sv view \<longleftrightarrow> (\<forall>now k r. fst (rs_GET sv now k r) = view now k r \<and>
     same_view view now k r (snd (rs_GET sv now k r)) \<and> other_view view k r (snd (rs_GET sv now k r)))"

definition set_ok :: "'r redis_server \<Rightarrow> 'r redis_view \<Rightarrow> bool" where
  "set_ok sv view \<longleftrightarrow> (\<forall>now k v ttl r. other_view view k r (snd (rs_SET sv now k v ttl r)) \<and>
     (redis_life ttl \<longrightarrow> lives view now k v ttl (snd (rs_SET sv now k v ttl r))))"

definition setnx_ok :: "'r redis_server \<Rightarrow> 'r redis_view \<Rightarrow> bool" where
  "setnx_ok sv view \<longleftrightarrow> (\<forall>now k v ttl r.
     fst (rs_SETNX sv now k v ttl r) = (view now k r = None) \<and>
     other_view view k r (snd (rs_SETNX sv now k v ttl r)) \<and>
     (if view now k r = None
      then redis_life ttl \<longrightarrow> lives view now k v ttl (snd (rs_SETNX sv now k v ttl r))
      else same_view view now k r (snd (rs_SETNX sv now k v ttl r))))"

definition del_ok :: "'r redis_server \<Rightarrow> 'r redis_view \<Rightarrow> bool" where
  "del_ok sv view \<longleftrightarrow> (\<forall>now k r.
     fst (rs_DEL sv now k r) = (if view now k r = None then 0 else 1) \<and>
     other_view view k r (snd (rs_DEL sv now k r)) \<and> (\<forall>n. view n k (snd (rs_DEL sv now k r)) = None))"

definition exists_ok :: "'r redis_server \<Rightarrow> 'r redis_view \<Rightarrow> bool" where
  "exists_ok sv view \<longleftrightarrow> (\<forall>now k r.
     fst (rs_EXISTS sv now k r) = (if view now k r = None then 0 else 1) \<and>
     same_view view now k r (snd (rs_EXISTS sv now k r)) \<and>
     other_view view k r (snd (rs_EXISTS sv now k r)))"

text \<open>A time to live that is not positive removes the key.\<close>

definition pexpire_ok :: "'r redis_server \<Rightarrow> 'r redis_view \<Rightarrow> bool" where
  "pexpire_ok sv view \<longleftrightarrow> (\<forall>now k ms r. other_view view k r (snd (rs_PEXPIRE sv now k ms r)) \<and>
     (case view now k r of
        None \<Rightarrow> fst (rs_PEXPIRE sv now k ms r) = 0 \<and> same_view view now k r (snd (rs_PEXPIRE sv now k ms r))
      | Some v \<Rightarrow> fst (rs_PEXPIRE sv now k ms r) = 1 \<and>
          (if 0 < ms then lives view now k v (ms * millisecond) (snd (rs_PEXPIRE sv now k ms r))
           else (\<forall>n. view n k (snd (rs_PEXPIRE sv now k ms r)) = None))))"

definition gone_ok :: "'r redis_view \<Rightarrow> bool" where
  "gone_ok view \<longleftrightarrow> (\<forall>now n k r. view now k r = None \<longrightarrow> now \<le> n \<longrightarrow> view n k r = None)"

definition server_ok :: "'r redis_server \<Rightarrow> 'r redis_view \<Rightarrow> bool" where
  "server_ok sv view \<longleftrightarrow> get_ok sv view \<and> set_ok sv view \<and> setnx_ok sv view \<and> del_ok sv view \<and>
     exists_ok sv view \<and> pexpire_ok sv view \<and> gone_ok view"

text \<open>A request: with an answer it was executed and this is the answer of the server; without
  one it may have been executed or not.\<close>

definition sent ::
  "('s \<Rightarrow> 'r) \<Rightarrow> ('s \<Rightarrow> bool) \<Rightarrow> ('r \<Rightarrow> 'x \<times> 'r) \<Rightarrow> ('s \<Rightarrow> 'x res \<times> 's) \<Rightarrow> 's \<Rightarrow> bool"
where
  "sent db calm cmd req s \<longleftrightarrow>
     (case req s of
        (Inr x, s') \<Rightarrow> x = fst (cmd (db s)) \<and> db s' = snd (cmd (db s))
      | (Inl e, s') \<Rightarrow> \<not> calm s \<and> (db s' = db s \<or> db s' = snd (cmd (db s))))"

definition client_ok ::
  "'r redis_server \<Rightarrow> ('s, 'r) redis_client \<Rightarrow> ('s \<Rightarrow> 'r) \<Rightarrow> ('s \<Rightarrow> bool) \<Rightarrow> bool"
where
  "client_ok sv c db calm \<longleftrightarrow>
     (\<forall>now k s. sent db calm (rs_GET sv now k) (rd_Get c now k) s) \<and>
     (\<forall>now k v ttl s. sent db calm (rs_SET sv now k v ttl) (rd_Set c now k v ttl) s) \<and>
     (\<forall>now k v ttl s. sent db calm (rs_SETNX sv now k v ttl) (rd_SetNX c now k v ttl) s) \<and>
     (\<forall>k s. \<exists>now. sent db calm (rs_DEL sv now k) (rd_Del c k) s) \<and>
     (\<forall>now k s. sent db calm (rs_EXISTS sv now k) (rd_Exists c now k) s) \<and>
     (\<forall>prog s. sent db calm prog (rd_Run c prog) s)"

definition redis_ok ::
  "'r redis_server \<Rightarrow> ('s, 'r) redis_client \<Rightarrow> 'r redis_view \<Rightarrow> ('s \<Rightarrow> 'r) \<Rightarrow> ('s \<Rightarrow> bool) \<Rightarrow> bool"
where
  "redis_ok sv c view db calm \<longleftrightarrow> server_ok sv view \<and> client_ok sv c db calm"

lemmas server_specs = get_ok_def set_ok_def setnx_ok_def del_ok_def exists_ok_def pexpire_ok_def

lemma server_get:
  assumes "server_ok sv view" and "rs_GET sv now k r = (v, r1)"
  shows "v = view now k r \<and> same_view view now k r r1 \<and> other_view view k r r1"
proof -
  have "get_ok sv view" using assms(1) by (simp add: server_ok_def)
  from this [unfolded get_ok_def, rule_format, of now k r] assms(2) show ?thesis by simp
qed

text \<open>A request either leaves the database alone, without an answer, or executes the command.\<close>

lemma sent_cases:
  assumes "sent db calm cmd req s" and "req s = (a, s')"
  obtains (lost) e where "a = Inl e" "\<not> calm s" "db s' = db s"
  | (unanswered) e where "a = Inl e" "\<not> calm s" "db s' = snd (cmd (db s))"
  | (answered) "a = Inr (fst (cmd (db s)))" "db s' = snd (cmd (db s))"
  using assms by (cases a) (auto simp: sent_def)

section \<open>The lock keeps its contract\<close>

definition Redis_holder ::
  "'r redis_view \<Rightarrow> ('s \<Rightarrow> 'r) \<Rightarrow> gotime \<Rightarrow> string \<Rightarrow> 's \<Rightarrow> string option"
where
  "Redis_holder view db n key s = view n (lockKey key) (db s)"

lemma lockKey_inject [simp]: "lockKey k = lockKey k' \<longleftrightarrow> k = k'"
  by (simp add: lockKey_def)

text \<open>The scripts as commands: what each does to its key and to the others.\<close>

lemma unlock_script_spec:
  assumes "server_ok sv view"
  shows "other_view view k r (snd (unlock_script sv now k tok r))"
    and "view now k r \<noteq> Some tok \<Longrightarrow> fst (unlock_script sv now k tok r) = 0 \<and>
      same_view view now k r (snd (unlock_script sv now k tok r))"
    and "view now k r = Some tok \<Longrightarrow> fst (unlock_script sv now k tok r) = 1 \<and>
      (\<forall>n. view n k (snd (unlock_script sv now k tok r)) = None)"
proof -
  obtain v r1 where g: "rs_GET sv now k r = (v, r1)" by fastforce
  have v: "v = view now k r" and sm: "same_view view now k r r1" and ot: "other_view view k r r1"
    using server_get [OF assms g] by auto
  have dl: "fst (rs_DEL sv now k r1) = (if view now k r1 = None then 0 else 1)"
    "other_view view k r1 (snd (rs_DEL sv now k r1))" "view n k (snd (rs_DEL sv now k r1)) = None" for n
    using assms by (simp_all add: server_ok_def del_ok_def)
  have "view now k r1 = view now k r" using sm by (simp add: same_view_def)
  with dl ot show "other_view view k r (snd (unlock_script sv now k tok r))"
    by (simp add: unlock_script_def g other_view_def)
  from v sm show "view now k r \<noteq> Some tok \<Longrightarrow> fst (unlock_script sv now k tok r) = 0 \<and>
      same_view view now k r (snd (unlock_script sv now k tok r))"
    by (simp add: unlock_script_def g)
  from v dl \<open>view now k r1 = view now k r\<close>
  show "view now k r = Some tok \<Longrightarrow> fst (unlock_script sv now k tok r) = 1 \<and>
      (\<forall>n. view n k (snd (unlock_script sv now k tok r)) = None)"
    by (simp add: unlock_script_def g)
qed

lemma extend_script_spec:
  assumes "server_ok sv view"
  shows "other_view view k r (snd (extend_script sv now k tok ms r))"
    and "view now k r \<noteq> Some tok \<Longrightarrow> fst (extend_script sv now k tok ms r) = 0 \<and>
      same_view view now k r (snd (extend_script sv now k tok ms r))"
    and "view now k r = Some tok \<Longrightarrow> fst (extend_script sv now k tok ms r) = 1 \<and>
      (if 0 < ms then lives view now k tok (ms * millisecond) (snd (extend_script sv now k tok ms r))
       else (\<forall>n. view n k (snd (extend_script sv now k tok ms r)) = None))"
proof -
  obtain v r1 where g: "rs_GET sv now k r = (v, r1)" by fastforce
  have v: "v = view now k r" and sm: "same_view view now k r r1" and ot: "other_view view k r r1"
    using server_get [OF assms g] by auto
  have px: "other_view view k r1 (snd (rs_PEXPIRE sv now k ms r1))"
    "view now k r1 = Some tok \<Longrightarrow> fst (rs_PEXPIRE sv now k ms r1) = 1 \<and>
      (if 0 < ms then lives view now k tok (ms * millisecond) (snd (rs_PEXPIRE sv now k ms r1))
       else (\<forall>n. view n k (snd (rs_PEXPIRE sv now k ms r1)) = None))"
  proof -
    have "pexpire_ok sv view" using assms by (simp add: server_ok_def)
    note p = this [unfolded pexpire_ok_def, rule_format, of k r1 now ms]
    from p show "other_view view k r1 (snd (rs_PEXPIRE sv now k ms r1))" by simp
    assume "view now k r1 = Some tok"
    with p show "fst (rs_PEXPIRE sv now k ms r1) = 1 \<and>
      (if 0 < ms then lives view now k tok (ms * millisecond) (snd (rs_PEXPIRE sv now k ms r1))
       else (\<forall>n. view n k (snd (rs_PEXPIRE sv now k ms r1)) = None))" by simp
  qed
  have "view now k r1 = view now k r" using sm by (simp add: same_view_def)
  with px ot show "other_view view k r (snd (extend_script sv now k tok ms r))"
    by (simp add: extend_script_def g other_view_def)
  from v sm show "view now k r \<noteq> Some tok \<Longrightarrow> fst (extend_script sv now k tok ms r) = 0 \<and>
      same_view view now k r (snd (extend_script sv now k tok ms r))"
    by (simp add: extend_script_def g)
  from v px \<open>view now k r1 = view now k r\<close>
  show "view now k r = Some tok \<Longrightarrow> fst (extend_script sv now k tok ms r) = 1 \<and>
      (if 0 < ms then lives view now k tok (ms * millisecond) (snd (extend_script sv now k tok ms r))
       else (\<forall>n. view n k (snd (extend_script sv now k tok ms r)) = None))"
    by (simp add: extend_script_def g)
qed

text \<open>What each call of the lock does to the database, whether its request is answered or not.\<close>

lemma Redis_Lock_effect:
  assumes ok: "redis_ok sv c view db calm" and run: "Redis_Lock c tok now key ttl s = (a, s1)"
  shows "other_view view (lockKey key) (db s) (db s1)"
    and "view now (lockKey key) (db s) \<noteq> None \<Longrightarrow>
      isl a \<and> same_view view now (lockKey key) (db s) (db s1)"
    and "a = Inr t \<Longrightarrow> t = tok \<and> view now (lockKey key) (db s) = None \<and>
      (redis_life ttl \<longrightarrow> lives view now (lockKey key) tok ttl (db s1))"
    and "calm s \<Longrightarrow> view now (lockKey key) (db s) = None \<Longrightarrow> a = Inr tok"
    and "view now (lockKey key) (db s) = None \<Longrightarrow> redis_life ttl \<Longrightarrow> 0 < ttl \<Longrightarrow>
      now + ttl + millisecond < n \<Longrightarrow> view n (lockKey key) (db s1) = None"
proof -
  obtain b where b: "rd_SetNX c now (lockKey key) tok ttl s = (b, s1)"
    using run by (auto simp: Redis_Lock_def split: prod.splits sum.splits if_splits)
  have snt: "sent db calm (rs_SETNX sv now (lockKey key) tok ttl) (rd_SetNX c now (lockKey key) tok ttl) s"
    using ok by (simp add: redis_ok_def client_ok_def)
  have nx: "fst (rs_SETNX sv now k v ttl r) = (view now k r = None) \<and>
     other_view view k r (snd (rs_SETNX sv now k v ttl r)) \<and>
     (if view now k r = None
      then redis_life ttl \<longrightarrow> lives view now k v ttl (snd (rs_SETNX sv now k v ttl r))
      else same_view view now k r (snd (rs_SETNX sv now k v ttl r)))" for now k v ttl r
    using ok by (simp add: redis_ok_def server_ok_def setnx_ok_def)
  note facts = nx [of now "lockKey key" tok ttl "db s"] run b
  note defs = Redis_Lock_def other_view_def same_view_def
  from sent_cases [OF snt b] show "other_view view (lockKey key) (db s) (db s1)"
    by cases (use facts in \<open>auto simp: defs\<close>)
  from sent_cases [OF snt b] show "view now (lockKey key) (db s) \<noteq> None \<Longrightarrow>
      isl a \<and> same_view view now (lockKey key) (db s) (db s1)"
    by cases (use facts in \<open>auto simp: defs\<close>)
  from sent_cases [OF snt b] show "a = Inr t \<Longrightarrow> t = tok \<and> view now (lockKey key) (db s) = None \<and>
      (redis_life ttl \<longrightarrow> lives view now (lockKey key) tok ttl (db s1))"
    by cases (use facts in \<open>auto simp: Redis_Lock_def split: if_splits\<close>)
  from sent_cases [OF snt b] show "calm s \<Longrightarrow> view now (lockKey key) (db s) = None \<Longrightarrow> a = Inr tok"
    by cases (use facts in \<open>auto simp: Redis_Lock_def split: if_splits\<close>)
  have gone: "view now (lockKey key) (db s) = None \<Longrightarrow> now \<le> n \<Longrightarrow> view n (lockKey key) (db s) = None"
    using ok by (simp add: redis_ok_def server_ok_def gone_ok_def)
  from sent_cases [OF snt b] show "view now (lockKey key) (db s) = None \<Longrightarrow> redis_life ttl \<Longrightarrow> 0 < ttl \<Longrightarrow>
      now + ttl + millisecond < n \<Longrightarrow> view n (lockKey key) (db s1) = None"
    by cases (use facts gone in \<open>auto simp: lives_def\<close>)
qed

lemma Redis_Unlock_effect:
  assumes ok: "redis_ok sv c view db calm" and run: "Redis_Unlock sv c now key tok s = (a, s1)"
  shows "other_view view (lockKey key) (db s) (db s1)"
    and "view now (lockKey key) (db s) \<noteq> Some tok \<Longrightarrow>
      isl a \<and> same_view view now (lockKey key) (db s) (db s1)"
    and "calm s \<Longrightarrow> view now (lockKey key) (db s) = Some tok \<Longrightarrow>
      a = Inr () \<and> view n (lockKey key) (db s1) = None"
proof -
  obtain b where b: "rd_Run c (unlock_script sv now (lockKey key) tok) s = (b, s1)"
    using run by (auto simp: Redis_Unlock_def split: prod.splits sum.splits if_splits)
  have sv: "server_ok sv view"
    and snt: "sent db calm (unlock_script sv now (lockKey key) tok)
      (rd_Run c (unlock_script sv now (lockKey key) tok)) s"
    using ok by (simp_all add: redis_ok_def client_ok_def)
  note facts = unlock_script_spec [OF sv, where k = "lockKey key" and r = "db s" and now = now and tok = tok]
    run b
  note defs = Redis_Unlock_def other_view_def same_view_def
  from sent_cases [OF snt b] show "other_view view (lockKey key) (db s) (db s1)"
    by cases (use facts(1) in \<open>simp_all add: other_view_def\<close>)
  from sent_cases [OF snt b] show "view now (lockKey key) (db s) \<noteq> Some tok \<Longrightarrow>
      isl a \<and> same_view view now (lockKey key) (db s) (db s1)"
    by cases (use facts in \<open>auto simp: defs\<close>)
  from sent_cases [OF snt b] show "calm s \<Longrightarrow> view now (lockKey key) (db s) = Some tok \<Longrightarrow>
      a = Inr () \<and> view n (lockKey key) (db s1) = None"
    by cases (use facts in \<open>auto simp: Redis_Unlock_def\<close>)
qed

lemma Redis_Extend_effect:
  assumes ok: "redis_ok sv c view db calm" and run: "Redis_Extend sv c now key tok ttl s = (a, s1)"
  shows "other_view view (lockKey key) (db s) (db s1)"
    and "view now (lockKey key) (db s) \<noteq> Some tok \<Longrightarrow>
      isl a \<and> same_view view now (lockKey key) (db s) (db s1)"
    and "view now (lockKey key) (db s) = Some tok \<Longrightarrow> a = Inr () \<Longrightarrow>
      (if 0 < Milliseconds ttl
       then lives view now (lockKey key) tok (Milliseconds ttl * millisecond) (db s1)
       else (\<forall>n. view n (lockKey key) (db s1) = None))"
    and "calm s \<Longrightarrow> view now (lockKey key) (db s) = Some tok \<Longrightarrow> a = Inr ()"
proof -
  obtain b where b: "rd_Run c (extend_script sv now (lockKey key) tok (Milliseconds ttl)) s = (b, s1)"
    using run by (auto simp: Redis_Extend_def split: prod.splits sum.splits if_splits)
  have sv: "server_ok sv view"
    and snt: "sent db calm (extend_script sv now (lockKey key) tok (Milliseconds ttl))
      (rd_Run c (extend_script sv now (lockKey key) tok (Milliseconds ttl))) s"
    using ok by (simp_all add: redis_ok_def client_ok_def)
  note facts = extend_script_spec [OF sv, where k = "lockKey key" and r = "db s" and now = now
      and tok = tok and ms = "Milliseconds ttl"] run b
  note defs = Redis_Extend_def other_view_def same_view_def
  from sent_cases [OF snt b] show "other_view view (lockKey key) (db s) (db s1)"
    by cases (use facts(1) in \<open>simp_all add: other_view_def\<close>)
  from sent_cases [OF snt b] show "view now (lockKey key) (db s) \<noteq> Some tok \<Longrightarrow>
      isl a \<and> same_view view now (lockKey key) (db s) (db s1)"
    by cases (use facts in \<open>auto simp: defs\<close>)
  from sent_cases [OF snt b] show "view now (lockKey key) (db s) = Some tok \<Longrightarrow> a = Inr () \<Longrightarrow>
      (if 0 < Milliseconds ttl
       then lives view now (lockKey key) tok (Milliseconds ttl * millisecond) (db s1)
       else (\<forall>n. view n (lockKey key) (db s1) = None))"
    by cases (use facts in \<open>auto simp: Redis_Extend_def\<close>)
  from sent_cases [OF snt b] show "calm s \<Longrightarrow> view now (lockKey key) (db s) = Some tok \<Longrightarrow> a = Inr ()"
    by cases (use facts in \<open>auto simp: Redis_Extend_def\<close>)
qed

lemma Milliseconds_life:
  "redis_life ttl \<Longrightarrow> 0 < ttl \<Longrightarrow> 0 < Milliseconds ttl \<and> Milliseconds ttl * millisecond = ttl"
  by (auto simp: Milliseconds_def redis_life_def go_quot_nonneg)

text \<open>The contract holds without any assumption that the state is calm.\<close>

lemma redis_lock_contract:
  assumes ok: "redis_ok sv c view db calm"
  shows "lock_service (RedisDistributedLock sv c) (Redis_holder view db) redis_life"
proof -
  note lock = Redis_Lock_effect [OF ok]
  note unlock = Redis_Unlock_effect [OF ok]
  note extend = Redis_Extend_effect [OF ok]
  note defs = RedisDistributedLock_def Redis_holder_def
  note views = other_view_def same_view_def lives_def
  show ?thesis
  proof (unfold_locales, goal_cases)
    case (1 tok now key ttl s t s')
    then show ?case using lock(3) [of tok now key ttl s "Inr t" s' t] by (auto simp: defs views)
  next
    case (2 now key s t tok ttl r s')
    then show ?case using lock(2) [of tok now key ttl s r s'] by (auto simp: defs views)
  next
    case (3 tok now key ttl s r s' k n)
    then show ?case using lock(1) [of tok now key ttl s r s'] by (auto simp: defs views)
  next
    case (4 now key s t tok r' s')
    then show ?case using unlock(2) [of now key tok s r' s'] by (auto simp: defs views)
  next
    case (5 now key tok s r' s' k n)
    then show ?case using unlock(1) [of now key tok s r' s'] by (auto simp: defs views)
  next
    case (6 now key s tok ttl s' n)
    then show ?case
      using extend(3) [of now key tok ttl s "Inr ()" s'] Milliseconds_life [of ttl]
      by (auto simp: defs views)
  next
    case (7 now key s t tok ttl r' s')
    then show ?case using extend(2) [of now key tok ttl s r' s'] by (auto simp: defs views)
  next
    case (8 now key tok ttl s r' s' k n)
    then show ?case using extend(1) [of now key tok ttl s r' s'] by (auto simp: defs views)
  qed
qed

section \<open>The session store keeps its contract\<close>

definition session_prefix :: string where
  "session_prefix = ''fsserver:session:''"

definition Redis_session ::
  "'r redis_view \<Rightarrow> ('s \<Rightarrow> 'r) \<Rightarrow> 'v codec \<Rightarrow> gotime \<Rightarrow> string \<Rightarrow> 's \<Rightarrow> 'v option"
where
  "Redis_session view db cd n k s =
     (case view n (session_prefix @ k) (db s) of
        None \<Rightarrow> None
      | Some data \<Rightarrow> (case cd_Unmarshal cd data of Inl _ \<Rightarrow> None | Inr v \<Rightarrow> Some v))"

lemma sessionKey_storeKey: "sessionKey p k = session_prefix @ storeKey p k"
  by (simp add: sessionKey_def storeKey_def session_prefix_def)

text \<open>The requests of the store, each by its effect on the database.\<close>

lemma rd_Get_effect:
  assumes ok: "redis_ok sv c view db calm" and run: "rd_Get c now k s = (a, s1)"
  shows "now \<le> n \<Longrightarrow> view n k' (db s1) = view n k' (db s)"
    and "a = Inr x \<Longrightarrow> x = view now k (db s)" and "calm s \<Longrightarrow> a = Inr (view now k (db s))"
proof -
  have snt: "sent db calm (rs_GET sv now k) (rd_Get c now k) s"
    using ok by (simp add: redis_ok_def client_ok_def)
  obtain v r1 where g: "rs_GET sv now k (db s) = (v, r1)" by fastforce
  have "v = view now k (db s) \<and> same_view view now k (db s) r1 \<and> other_view view k (db s) r1"
    using server_get [OF _ g] ok by (simp add: redis_ok_def)
  note facts = this g
  from sent_cases [OF snt run] show "now \<le> n \<Longrightarrow> view n k' (db s1) = view n k' (db s)"
    by cases (use facts in \<open>cases "k' = k"; auto simp: same_view_def other_view_def\<close>)+
  from sent_cases [OF snt run] show "a = Inr x \<Longrightarrow> x = view now k (db s)"
    by cases (use facts in auto)
  from sent_cases [OF snt run] show "calm s \<Longrightarrow> a = Inr (view now k (db s))"
    by cases (use facts in auto)
qed

lemma rd_Set_effect:
  assumes ok: "redis_ok sv c view db calm" and run: "rd_Set c now k v ttl s = (a, s1)"
  shows "k' \<noteq> k \<Longrightarrow> view n k' (db s1) = view n k' (db s)"
    and "calm s \<Longrightarrow> a = Inr () \<and> (redis_life ttl \<longrightarrow> lives view now k v ttl (db s1))"
proof -
  have snt: "sent db calm (rs_SET sv now k v ttl) (rd_Set c now k v ttl) s"
    using ok by (simp add: redis_ok_def client_ok_def)
  have facts: "other_view view k (db s) (snd (rs_SET sv now k v ttl (db s)))"
    "redis_life ttl \<longrightarrow> lives view now k v ttl (snd (rs_SET sv now k v ttl (db s)))"
    using ok by (simp_all add: redis_ok_def server_ok_def set_ok_def)
  from sent_cases [OF snt run] show "k' \<noteq> k \<Longrightarrow> view n k' (db s1) = view n k' (db s)"
    by cases (use facts in \<open>auto simp: other_view_def\<close>)
  from sent_cases [OF snt run]
  show "calm s \<Longrightarrow> a = Inr () \<and> (redis_life ttl \<longrightarrow> lives view now k v ttl (db s1))"
    by cases (use facts in auto)
qed

lemma rd_Del_effect:
  assumes ok: "redis_ok sv c view db calm" and run: "rd_Del c k s = (a, s1)"
  shows "k' \<noteq> k \<Longrightarrow> view n k' (db s1) = view n k' (db s)"
    and "calm s \<Longrightarrow> view n k (db s1) = None"
proof -
  obtain now where snt: "sent db calm (rs_DEL sv now k) (rd_Del c k) s"
    using ok unfolding redis_ok_def client_ok_def by meson
  have facts: "other_view view k (db s) (snd (rs_DEL sv now k (db s)))"
    "view n k (snd (rs_DEL sv now k (db s))) = None" for n
    using ok by (simp_all add: redis_ok_def server_ok_def del_ok_def)
  from sent_cases [OF snt run] show "k' \<noteq> k \<Longrightarrow> view n k' (db s1) = view n k' (db s)"
    by cases (use facts in \<open>auto simp: other_view_def\<close>)
  from sent_cases [OF snt run] show "calm s \<Longrightarrow> view n k (db s1) = None"
    by cases (use facts in auto)
qed

lemma rd_Exists_effect:
  assumes ok: "redis_ok sv c view db calm" and run: "rd_Exists c now k s = (a, s1)" and "now \<le> n"
  shows "view n k' (db s1) = view n k' (db s)"
proof -
  have snt: "sent db calm (rs_EXISTS sv now k) (rd_Exists c now k) s"
    using ok by (simp add: redis_ok_def client_ok_def)
  have facts: "same_view view now k (db s) (snd (rs_EXISTS sv now k (db s)))"
    "other_view view k (db s) (snd (rs_EXISTS sv now k (db s)))"
    using ok by (simp_all add: redis_ok_def server_ok_def exists_ok_def)
  from sent_cases [OF snt run] show ?thesis
    by cases (use facts \<open>now \<le> n\<close> in \<open>cases "k' = k"; auto simp: same_view_def other_view_def\<close>)+
qed

lemma store_states:
  "snd (Redis_Get c cd now p k s) = snd (rd_Get c now (sessionKey p k) s)"
  "snd (Redis_Delete c p k s) = snd (rd_Del c (sessionKey p k) s)"
  "snd (Redis_Exists c now p k s) = snd (rd_Exists c now (sessionKey p k) s)"
  by (auto simp: Redis_Get_def Redis_Delete_def Redis_Exists_def split: option.splits sum.splits prod.splits)

lemma redis_session_contract:
  assumes ok: "redis_ok sv c view db calm"
  shows "session_store (RedisSessionStore c cd) (Redis_session view db cd) (codec_ok cd) calm redis_life"
proof -
  note defs = RedisSessionStore_def Redis_session_def sessionKey_storeKey
  show ?thesis
  proof (unfold_locales, goal_cases)
    case (1 s v ttl now n p k)
    then obtain data where d: "cd_Marshal cd v = Inr data" "cd_Unmarshal cd data = Inr v"
      by (auto simp: codec_ok_def split: sum.splits)
    obtain a s1 where a: "rd_Set c now (sessionKey p k) data ttl s = (a, s1)" by fastforce
    from rd_Set_effect(2) [OF ok a] 1 d a show ?case by (auto simp: defs Redis_Set_def lives_def)
  next
    case (2 p k k' n now v ttl s)
    show ?case
    proof (cases "cd_Marshal cd v")
      case (Inr data)
      obtain a s1 where a: "rd_Set c now (sessionKey p k) data ttl s = (a, s1)" by fastforce
      from rd_Set_effect(1) [OF ok a, of "session_prefix @ k'" n] 2 a Inr show ?thesis
        by (auto simp: defs Redis_Set_def)
    qed (simp add: defs Redis_Set_def)
  next
    case (3 s now p k v)
    obtain a s1 where a: "rd_Get c now (sessionKey p k) s = (a, s1)" by fastforce
    from 3(2) obtain data where d: "view now (sessionKey p k) (db s) = Some data" "cd_Unmarshal cd data = Inr v"
      by (auto simp: defs split: option.splits sum.splits)
    from rd_Get_effect(3) [OF ok a 3(1)] d a show ?case
      by (simp add: RedisSessionStore_def Redis_Get_def)
  next
    case (4 now p k s)
    obtain a s1 where a: "rd_Get c now (sessionKey p k) s = (a, s1)" by fastforce
    have "\<exists>e. cd_Unmarshal cd data = Inl e" if "a = Inr (Some data)" for data
      using rd_Get_effect(2) [OF ok a that, symmetric] 4 by (simp add: defs split: sum.splits)
    with a show ?case
      by (cases a rule: sum.exhaust) (auto simp: RedisSessionStore_def Redis_Get_def split: option.split)
  next
    case (5 now n k' p k s)
    obtain a s1 where a: "rd_Get c now (sessionKey p k) s = (a, s1)" by fastforce
    from rd_Get_effect(1) [OF ok a 5] a show ?case by (simp add: defs store_states)
  next
    case (6 s n p k)
    obtain a s1 where a: "rd_Del c (sessionKey p k) s = (a, s1)" by fastforce
    from rd_Del_effect(2) [OF ok a 6] a show ?case
      by (simp add: defs store_states)
  next
    case (7 p k k' n s)
    obtain a s1 where a: "rd_Del c (sessionKey p k) s = (a, s1)" by fastforce
    from rd_Del_effect(1) [OF ok a, of "session_prefix @ k'" n] 7 a show ?case
      by (simp add: defs store_states)
  next
    case (8 now n k' p k s)
    obtain a s1 where a: "rd_Exists c now (sessionKey p k) s = (a, s1)" by fastforce
    from rd_Exists_effect [OF ok a 8] a show ?case
      by (simp add: defs store_states)
  qed
qed

text \<open>Locks and sessions share one database under different keys: no call of the session store
  changes who holds a lock.\<close>

lemma lock_session_keys [simp]: "lockKey k \<noteq> sessionKey p k'"
  by (simp add: lockKey_def sessionKey_def)

lemma sessions_keep_locks:
  assumes ok: "redis_ok sv c view db calm" and "sop_before n q"
  shows "Redis_holder view db n key (run_sop (RedisSessionStore c cd) q s) = Redis_holder view db n key s"
proof (cases q)
  case (SetOp now p k v ttl)
  show ?thesis
  proof (cases "cd_Marshal cd v")
    case (Inr data)
    obtain a s1 where a: "rd_Set c now (sessionKey p k) data ttl s = (a, s1)" by fastforce
    from SetOp Inr rd_Set_effect(1) [OF ok a, of "lockKey key" n] a show ?thesis
      by (simp add: RedisSessionStore_def Redis_holder_def Redis_Set_def)
  qed (simp add: SetOp RedisSessionStore_def Redis_Set_def)
next
  case (GetOp now p k)
  obtain a s1 where a: "rd_Get c now (sessionKey p k) s = (a, s1)" by fastforce
  from GetOp rd_Get_effect(1) [OF ok a, of n "lockKey key"] a assms(2) show ?thesis
    by (simp add: RedisSessionStore_def Redis_holder_def store_states)
next
  case (DeleteOp p k)
  obtain a s1 where a: "rd_Del c (sessionKey p k) s = (a, s1)" by fastforce
  from DeleteOp rd_Del_effect(1) [OF ok a, of "lockKey key" n] a show ?thesis
    by (simp add: RedisSessionStore_def Redis_holder_def store_states)
next
  case (ExistsOp now p k)
  obtain a s1 where a: "rd_Exists c now (sessionKey p k) s = (a, s1)" by fastforce
  from ExistsOp rd_Exists_effect [OF ok a, of n "lockKey key"] a assms(2) show ?thesis
    by (simp add: RedisSessionStore_def Redis_holder_def store_states)
qed

section \<open>A server in memory\<close>

text \<open>An instance of the parameters, on which the theorems are evaluated: the database maps a key to
  its value and deadline, and the connection consumes a list of what happens to the next requests.\<close>

type_synonym mem_db = "string \<rightharpoonup> bytes \<times> gotime option"

definition mem_view :: "mem_db redis_view" where
  "mem_view n k r =
     (case r k of
        None \<Rightarrow> None
      | Some (v, None) \<Rightarrow> Some v
      | Some (v, Some d) \<Rightarrow> if d < n then None else Some v)"

definition mem_set :: "gotime \<Rightarrow> string \<Rightarrow> bytes \<Rightarrow> int \<Rightarrow> mem_db \<Rightarrow> mem_db" where
  "mem_set now k v ttl r = r(k \<mapsto> (v, if 0 < ttl then Some (now + ttl) else None))"

definition mem_redis :: "mem_db redis_server" where
  "mem_redis =
     \<lparr>rs_GET = (\<lambda>now k r. (mem_view now k r, r)),
      rs_SET = (\<lambda>now k v ttl r. ((), mem_set now k v ttl r)),
      rs_SETNX = (\<lambda>now k v ttl r.
        if mem_view now k r = None then (True, mem_set now k v ttl r) else (False, r)),
      rs_DEL = (\<lambda>now k r. (if mem_view now k r = None then 0 else 1, r(k := None))),
      rs_EXISTS = (\<lambda>now k r. (if mem_view now k r = None then 0 else 1, r)),
      rs_PEXPIRE = (\<lambda>now k ms r. case mem_view now k r of None \<Rightarrow> (0, r)
        | Some v \<Rightarrow> (1, if 0 < ms then mem_set now k v (ms * millisecond) r else r(k := None)))\<rparr>"

datatype delivery = Delivered | LostRequest | LostReply

definition mem_send ::
  "(mem_db \<Rightarrow> 'x \<times> mem_db) \<Rightarrow> mem_db \<times> delivery list \<Rightarrow> 'x res \<times> (mem_db \<times> delivery list)"
where
  "mem_send cmd s =
     (case s of (r, fs) \<Rightarrow>
       (case fs of
          LostRequest # fs' \<Rightarrow> (Inl (Ext ''i/o timeout''), r, fs')
        | LostReply # fs' \<Rightarrow> (Inl (Ext ''i/o timeout''), snd (cmd r), fs')
        | _ \<Rightarrow> (Inr (fst (cmd r)), snd (cmd r), tl fs)))"

definition mem_client :: "(mem_db \<times> delivery list, mem_db) redis_client" where
  "mem_client =
     \<lparr>rd_Ping = mem_send (\<lambda>r. ((), r)),
      rd_Get = (\<lambda>now k. mem_send (rs_GET mem_redis now k)),
      rd_Set = (\<lambda>now k v ttl. mem_send (rs_SET mem_redis now k v ttl)),
      rd_SetNX = (\<lambda>now k v ttl. mem_send (rs_SETNX mem_redis now k v ttl)),
      rd_Del = (\<lambda>k. mem_send (rs_DEL mem_redis 0 k)),
      rd_Exists = (\<lambda>now k. mem_send (rs_EXISTS mem_redis now k)),
      rd_Run = mem_send\<rparr>"

definition mem_calm :: "mem_db \<times> delivery list \<Rightarrow> bool" where
  "mem_calm s = (case snd s of [] \<Rightarrow> True | f # _ \<Rightarrow> f = Delivered)"

lemma mem_sent: "sent fst mem_calm cmd (mem_send cmd) s"
  by (auto simp: sent_def mem_send_def mem_calm_def split: list.splits delivery.splits prod.splits)

lemma mem_send_faults: "snd (snd (mem_send cmd s)) = tl (snd s)"
  by (auto simp: mem_send_def split: list.splits delivery.splits prod.splits)

lemma mem_set_lives: "lives mem_view now k v ttl (mem_set now k v ttl r)"
  by (auto simp: lives_def mem_view_def mem_set_def)

lemma mem_set_other: "other_view mem_view k r (mem_set now k v ttl r)"
  by (auto simp: other_view_def mem_view_def mem_set_def)

lemma mem_del_view: "other_view mem_view k r (r(k := None))" "mem_view n k (r(k := None)) = None"
  by (auto simp: other_view_def mem_view_def)

lemma view_refl [simp]: "same_view view now k r r" "other_view view k r r"
  by (simp_all add: same_view_def other_view_def)

lemma mem_redis_ok: "redis_ok mem_redis mem_client mem_view fst mem_calm"
proof -
  have "get_ok mem_redis mem_view" "set_ok mem_redis mem_view" "setnx_ok mem_redis mem_view"
    "del_ok mem_redis mem_view" "exists_ok mem_redis mem_view" "pexpire_ok mem_redis mem_view"
    by (simp_all add: server_specs mem_redis_def mem_set_lives mem_set_other mem_del_view split: option.split)
  moreover have "gone_ok mem_view"
    by (auto simp: gone_ok_def mem_view_def split: option.splits if_splits)
  moreover have "client_ok mem_redis mem_client fst mem_calm"
    unfolding client_ok_def mem_client_def redis_client.simps
    by (intro conjI allI exI [of _ 0] mem_sent)
  ultimately show ?thesis by (simp add: redis_ok_def server_ok_def)
qed

section \<open>Properties\<close>

text \<open>
  C10: mutual exclusion of the Redis lock in spite of lost requests.  Once \<open>Lock\<close> granted a token
  for a whole number of milliseconds, then whatever other clients call until the time to live is
  over, and whichever of their requests or replies get lost, the token still owns the key and no
  attempt to lock the key succeeded.
\<close>

theorem redis_lock_exclusive:
  assumes "redis_ok sv c view db calm"
    and "Redis_Lock c tok now key ttl s = (Inr t, s1)" and "redis_life ttl" and "0 < ttl"
    and "sorted (now # map op_time ops)"
    and "\<forall>p \<in> set ops. op_time p \<le> now + ttl \<and> \<not> op_presents key tok p"
    and "run_ops (RedisDistributedLock sv c) ops s1 = (rs, s2)"
  shows "t = tok \<and>
    (\<forall>n. last (now # map op_time ops) \<le> n \<and> n \<le> now + ttl \<longrightarrow> Redis_holder view db n key s2 = Some tok) \<and>
    (\<forall>(p, r) \<in> set (zip ops rs). lock_attempt key p \<longrightarrow> r \<noteq> None)"
proof -
  note contract = redis_lock_contract [OF assms(1)]
  have "dl_Lock (RedisDistributedLock sv c) tok now key ttl s = (Inr t, s1)"
    using assms(2) by (simp add: RedisDistributedLock_def)
  from lock_service.granted [OF contract this] assms(3,4) have "t = tok"
    and "\<forall>n. now \<le> n \<and> n \<le> now + ttl \<longrightarrow> Redis_holder view db n key s1 = Some tok" by auto
  with lock_service.held_through [OF contract this(2) assms(5-7)] show ?thesis by simp
qed

theorem redis_lock_exclusive_witness:
  "\<exists>s1 rs s2. Redis_Lock mem_client ''t1'' 5 ''f'' (3 * millisecond) (Map.empty, [Delivered, LostReply])
      = (Inr ''t1'', s1) \<and>
    run_ops (RedisDistributedLock mem_redis mem_client)
      [LockOp 7 ''t2'' ''f'' millisecond, UnlockOp 8 ''f'' ''t3'', LockOp 9 ''t4'' ''f'' millisecond] s1
      = (rs, s2) \<and>
    Redis_holder mem_view fst (2 * millisecond) ''f'' s2 = Some ''t1''"
proof -
  let ?ops = "[LockOp 7 ''t2'' ''f'' millisecond, UnlockOp 8 ''f'' ''t3'', LockOp 9 ''t4'' ''f'' millisecond]"
  obtain s1 where l: "Redis_Lock mem_client ''t1'' 5 ''f'' (3 * millisecond)
      (Map.empty, [Delivered, LostReply]) = (Inr ''t1'', s1)"
    by (simp add: Redis_Lock_def mem_client_def mem_send_def mem_redis_def mem_view_def)
  obtain rs s2 where r: "run_ops (RedisDistributedLock mem_redis mem_client) ?ops s1 = (rs, s2)"
    by (metis surj_pair)
  have "\<forall>p \<in> set ?ops. op_time p \<le> 5 + 3 * millisecond \<and> \<not> op_presents ''f'' ''t1'' p"
    "sorted (5 # map op_time ?ops)" "redis_life (3 * millisecond)"
    by (simp_all add: redis_life_def)
  from redis_lock_exclusive [OF mem_redis_ok l this(3) _ this(2,1) r]
  have "Redis_holder mem_view fst (2 * millisecond) ''f'' s2 = Some ''t1''" by simp
  with l r show ?thesis by blast
qed

text \<open>
  The Redis lock of an owner that never returns it lapses.  Whatever \<open>Lock\<close> on a free key
  answered, an error after a lost reply included, a millisecond after the time to live the next
  \<open>Lock\<close> that reaches the server is granted, and then the former token opens nothing: its
  \<open>Unlock\<close> and \<open>Extend\<close> fail and leave the new owner in place.
\<close>

theorem redis_lock_lapses:
  assumes ok: "redis_ok sv c view db calm"
    and "Redis_holder view db now key s = None" and "Redis_Lock c tok now key ttl s = (a, s1)"
    and "redis_life ttl" and "0 < ttl" and "now + ttl + millisecond < n" and "calm s1"
    and "redis_life ttl'" and "0 < ttl'" and "n \<le> m" and "m \<le> n + ttl'" and "tok' \<noteq> tok"
  shows "\<exists>s2. Redis_Lock c tok' n key ttl' s1 = (Inr tok', s2) \<and>
    (\<forall>a s3. Redis_Unlock sv c m key tok s2 = (a, s3) \<longrightarrow>
       isl a \<and> Redis_holder view db m key s3 = Some tok') \<and>
    (\<forall>d a s3. Redis_Extend sv c m key tok d s2 = (a, s3) \<longrightarrow>
       isl a \<and> Redis_holder view db m key s3 = Some tok')"
proof -
  have free: "view n (lockKey key) (db s1) = None"
    using Redis_Lock_effect(5) [OF ok assms(3) _ assms(4-6)] assms(2) by (simp add: Redis_holder_def)
  obtain b s2 where l: "Redis_Lock c tok' n key ttl' s1 = (b, s2)" by fastforce
  note eff = Redis_Lock_effect [OF ok l]
  have b: "b = Inr tok'" using eff(4) [OF assms(7) free] .
  with eff(3) [OF b] assms(8-11) have own: "view m (lockKey key) (db s2) = Some tok'"
    by (simp add: lives_def)
  have "isl a \<and> Redis_holder view db m key s3 = Some tok'"
    if "Redis_Unlock sv c m key tok s2 = (a, s3)" for a s3
    using Redis_Unlock_effect(2) [OF ok that] own assms(12)
    by (simp add: Redis_holder_def same_view_def)
  moreover have "isl a \<and> Redis_holder view db m key s3 = Some tok'"
    if "Redis_Extend sv c m key tok d s2 = (a, s3)" for d a s3
    using Redis_Extend_effect(2) [OF ok that] own assms(12)
    by (simp add: Redis_holder_def same_view_def)
  ultimately show ?thesis using l b by blast
qed

theorem redis_lock_lapses_witness:
  "\<exists>a s1 s2. Redis_Lock mem_client ''t1'' 5 ''f'' millisecond (Map.empty, [LostReply]) = (a, s1) \<and> isl a \<and>
    Redis_holder mem_view fst 6 ''f'' s1 = Some ''t1'' \<and>
    Redis_Lock mem_client ''t2'' (3 * millisecond) ''f'' millisecond s1 = (Inr ''t2'', s2)"
proof -
  obtain a s1 where l: "Redis_Lock mem_client ''t1'' 5 ''f'' millisecond (Map.empty, [LostReply]) = (a, s1)"
    and a: "isl a" "mem_calm s1" "Redis_holder mem_view fst 6 ''f'' s1 = Some ''t1''"
    by (simp add: Redis_Lock_def mem_client_def mem_send_def mem_redis_def mem_view_def mem_set_def
        mem_calm_def Redis_holder_def)
  have h: "Redis_holder mem_view fst 5 ''f'' (Map.empty, [LostReply]) = None"
    by (simp add: Redis_holder_def mem_view_def)
  from redis_lock_lapses [OF mem_redis_ok h l, of "3 * millisecond" millisecond "3 * millisecond" "''t2''"] l a
  show ?thesis by (auto simp: redis_life_def)
qed

text \<open>
  Sessions in Redis survive.  A session that was stored for a whole number of milliseconds in a
  state in which requests get through is read back as it was stored at any time up to its expiry,
  whatever calls on other sessions and reads of this one happen in between and whichever of those
  get lost, and neither they nor the store itself change who holds a lock.
\<close>

theorem redis_session_roundtrip:
  assumes ok: "redis_ok sv c view db calm" and "calm s" and "codec_ok cd v" and "redis_life ttl" and "0 < ttl"
    and "now \<le> n" and "n \<le> now + ttl" and "CHR '':'' \<notin> set p"
    and ops: "\<forall>q \<in> set ops. CHR '':'' \<notin> set (fst (sop_key q)) \<and> sop_before n q \<and>
           (sop_writes q \<longrightarrow> sop_key q \<noteq> (p, k))"
    and "fold (run_sop (RedisSessionStore c cd)) ops (snd (Redis_Set c cd now p k v ttl s)) = s1"
    and "calm s1"
  shows "fst (Redis_Get c cd n p k s1) = Inr v \<and>
    Redis_holder view db n key s1 = Redis_holder view db n key s"
proof
  let ?set = "SetOp now p k v ttl"
  have s1: "s1 = fold (run_sop (RedisSessionStore c cd)) (?set # ops) s"
    using assms(10) by (simp add: RedisSessionStore_def)
  have "fst (ss_Get (RedisSessionStore c cd) n p k s1) = Inr v"
    using session_store.set_get [OF redis_session_contract [OF ok] assms(2-9)] assms(10,11)
    by (simp add: RedisSessionStore_def)
  then show "fst (Redis_Get c cd n p k s1) = Inr v" by (simp add: RedisSessionStore_def)
  have "Redis_holder view db n key (fold (run_sop (RedisSessionStore c cd)) qs u) = Redis_holder view db n key u"
    if "\<forall>q \<in> set qs. sop_before n q" for qs u
    using that by (induction qs arbitrary: u) (simp_all add: sessions_keep_locks [OF ok])
  from this [of "?set # ops" s] ops show "Redis_holder view db n key s1 = Redis_holder view db n key s"
    unfolding s1 by simp
qed

text \<open>Sessions of strings, encoded as themselves behind a quote.\<close>

definition quote_codec :: "string codec" where
  "quote_codec = \<lparr>cd_Marshal = (\<lambda>v. Inr (''q'' @ v)), cd_Unmarshal = (\<lambda>b. Inr (tl b))\<rparr>"

theorem redis_session_roundtrip_witness:
  "fst (Redis_Get mem_client quote_codec 20 ''upload'' ''1''
     (fold (run_sop (RedisSessionStore mem_client quote_codec))
       [SetOp 11 ''upload'' ''2'' ''x'' 5, GetOp 12 ''upload'' ''1'', DeleteOp ''download'' ''1'']
       (snd (Redis_Set mem_client quote_codec 10 ''upload'' ''1'' ''v'' millisecond
          (Map.empty, [Delivered, LostReply, LostRequest, Delivered]))))) = Inr ''v''"
proof -
  let ?s = "(Map.empty, [Delivered, LostReply, LostRequest, Delivered]) :: mem_db \<times> delivery list"
  let ?ops = "[SetOp 11 ''upload'' ''2'' ''x'' 5, GetOp 12 ''upload'' ''1'', DeleteOp ''download'' ''1'']"
  let ?s1 = "fold (run_sop (RedisSessionStore mem_client quote_codec)) ?ops
       (snd (Redis_Set mem_client quote_codec 10 ''upload'' ''1'' ''v'' millisecond ?s))"
  have "snd ?s1 = []"
    by (simp add: RedisSessionStore_def Redis_Set_def quote_codec_def mem_client_def mem_send_faults store_states)
  then have "mem_calm ?s1" by (simp add: mem_calm_def)
  moreover have "mem_calm ?s" "codec_ok quote_codec ''v''" "redis_life millisecond"
    by (simp_all add: mem_calm_def codec_ok_def quote_codec_def redis_life_def)
  ultimately show ?thesis
    using redis_session_roundtrip [OF mem_redis_ok, of ?s quote_codec "''v''" millisecond 10 20 "''upload''"
        ?ops "''1''" ?s1] by simp
qed

section \<open>Where the lock and the cache differ from what their callers expect\<close>

text \<open>\<open>Extend\<close> with a time to live below a millisecond reports success and removes the lock:
  the duration is cut to zero milliseconds, for which \<open>PEXPIRE\<close> deletes the key.\<close>

lemma redis_extend_drops_lock:
  assumes "redis_ok sv c view db calm" and "calm s" and "Redis_holder view db now key s = Some tok"
    and "0 < ttl" and "ttl < millisecond"
  shows "fst (Redis_Extend sv c now key tok ttl s) = Inr () \<and>
    Redis_holder view db n key (snd (Redis_Extend sv c now key tok ttl s)) = None"
proof -
  obtain a s1 where e: "Redis_Extend sv c now key tok ttl s = (a, s1)" by fastforce
  have "Milliseconds ttl = 0" using assms(4,5) by (simp add: Milliseconds_def go_quot_nonneg)
  with Redis_Extend_effect(3,4) [OF assms(1) e] assms(2,3) e show ?thesis
    by (simp add: Redis_holder_def)
qed

text \<open>The cache drops the error of a deletion: when the request is lost, the deleted value is
  returned again.\<close>

lemma redis_cache_stale_after_delete:
  "fst (RCache_Get mem_client quote_codec 12 ''metadata:/a''
     (RCache_Delete mem_client ''metadata:/a''
       (RCache_Set mem_client quote_codec (cache_ttl 60) 10 ''metadata:/a'' ''old''
         (Map.empty, [Delivered, LostRequest])))) = Some ''old''"
  by (simp add: RCache_Get_def RCache_Delete_def RCache_Set_def cache_ttl_def wrap64_def mem_client_def
      mem_send_def mem_redis_def mem_view_def mem_set_def quote_codec_def)



end
