(* ===== verification/Discovery.thy ===== *)
theory Discovery
  imports Dist_Lock Session_Store "HOL-Library.List_Lexorder" "HOL-Library.Char_ord" "HOL-Library.AList"
begin

text \<open>
  \<open>src/internal/etcd/etcd.go\<close> and \<open>src/internal/discovery/discovery.go\<close>: keys and service
  instances in etcd.  The client library is a parameter, a record of the calls that are made on the
  state of a connection; \<open>etcd_ok\<close> is what they are documented to do to the keys, which
  \<open>kv\<close> finds in that state, in states in which requests get through (\<open>calm\<close>).  A request
  that fails may have been executed or not.  Leases run out in the server and are not part of the
  model: an instance is registered as long as its lease is kept alive.
\<close>

section \<open>The client\<close>

text \<open>\<open>et_Get\<close> takes whether the key is a prefix; \<open>et_Put\<close> takes the lease, if any.\<close>

record 'e etcd_client =
  et_Put :: "string \<Rightarrow> string \<Rightarrow> int option \<Rightarrow> 'e \<Rightarrow> unit res \<times> 'e"
  et_Get :: "string \<Rightarrow> bool \<Rightarrow> 'e \<Rightarrow> (string \<times> string) list res \<times> 'e"
  et_Delete :: "string \<Rightarrow> 'e \<Rightarrow> unit res \<times> 'e"
  et_Grant :: "int \<Rightarrow> 'e \<Rightarrow> int res \<times> 'e"
  et_KeepAlive :: "int \<Rightarrow> 'e \<Rightarrow> unit res \<times> 'e"

section \<open>EtcdManager\<close>

record 'e EtcdManager =
  em_client :: "'e etcd_client"
  em_prefix :: string

definition NewEtcdManager :: "'e etcd_client res \<Rightarrow> string \<Rightarrow> 'e EtcdManager res" where
  "NewEtcdManager newClient pre =
     (case newClient of
        Inl e \<Rightarrow> Inl (Wrapf ''failed to connect to etcd'' e)
      | Inr cli \<Rightarrow> Inr \<lparr>em_client = cli, em_prefix = pre\<rparr>)"

definition Etcd_Put :: "'e EtcdManager \<Rightarrow> string \<Rightarrow> string \<Rightarrow> 'e \<Rightarrow> unit res \<times> 'e" where
  "Etcd_Put m key value s =
     (let fullKey = em_prefix m @ key
      in case et_Put (em_client m) fullKey value None s of
           (Inl e, s1) \<Rightarrow> (Inl (Wrapf (''failed to put key '' @ fullKey) e), s1)
         | (Inr _, s1) \<Rightarrow> (Inr (), s1))"

definition Etcd_Get :: "'e EtcdManager \<Rightarrow> string \<Rightarrow> 'e \<Rightarrow> string res \<times> 'e" where
  "Etcd_Get m key s =
     (let fullKey = em_prefix m @ key
      in case et_Get (em_client m) fullKey False s of
           (Inl e, s1) \<Rightarrow> (Inl (Wrapf (''failed to get key '' @ fullKey) e), s1)
         | (Inr [], s1) \<Rightarrow> (Inl (Errorf (''key '' @ fullKey @ '' not found'')), s1)
         | (Inr ((k, v) # kvs), s1) \<Rightarrow> (Inr v, s1))"

definition Etcd_Delete :: "'e EtcdManager \<Rightarrow> string \<Rightarrow> 'e \<Rightarrow> unit res \<times> 'e" where
  "Etcd_Delete m key s =
     (let fullKey = em_prefix m @ key
      in case et_Delete (em_client m) fullKey s of
           (Inl e, s1) \<Rightarrow> (Inl (Wrapf (''failed to delete key '' @ fullKey) e), s1)
         | (Inr _, s1) \<Rightarrow> (Inr (), s1))"

text \<open>The loop over the answer; slicing a key shorter than the prefix would panic, which
  \<open>None\<close> stands for.\<close>

fun short_keys :: "nat \<Rightarrow> (string \<times> string) list \<Rightarrow> (string \<rightharpoonup> string) \<Rightarrow> (string \<rightharpoonup> string) option" where
  "short_keys n [] result = Some result"
| "short_keys n ((k, v) # kvs) result =
     (if length k < n then None else short_keys n kvs (result(drop n k \<mapsto> v)))"

definition Etcd_List :: "'e EtcdManager \<Rightarrow> string \<Rightarrow> 'e \<Rightarrow> (string \<rightharpoonup> string) option res \<times> 'e" where
  "Etcd_List m pre s =
     (let fullPrefix = em_prefix m @ pre
      in case et_Get (em_client m) fullPrefix True s of
           (Inl e, s1) \<Rightarrow> (Inl (Wrapf (''failed to list prefix '' @ fullPrefix) e), s1)
         | (Inr kvs, s1) \<Rightarrow> (Inr (short_keys (length (em_prefix m)) kvs Map.empty), s1))"

definition Etcd_KeepAlive :: "'e EtcdManager \<Rightarrow> string \<Rightarrow> string \<Rightarrow> int \<Rightarrow> 'e \<Rightarrow> unit res \<times> 'e" where
  "Etcd_KeepAlive m key value ttl s =
     (case et_Grant (em_client m) ttl s of
        (Inl e, s1) \<Rightarrow> (Inl (Wrapf ''failed to create lease'' e), s1)
      | (Inr lease, s1) \<Rightarrow>
     (case et_Put (em_client m) (em_prefix m @ key) value (Some lease) s1 of
        (Inl e, s2) \<Rightarrow> (Inl (Wrapf ''failed to put key with lease'' e), s2)
      | (Inr _, s2) \<Rightarrow>
     (case et_KeepAlive (em_client m) lease s2 of
        (Inl e, s3) \<Rightarrow> (Inl (Wrapf ''failed to start keepalive'' e), s3)
      | (Inr _, s3) \<Rightarrow> (Inr (), s3))))"

section \<open>ServiceDiscovery\<close>

record ServiceInstance =
  si_ID :: string
  si_Name :: string
  si_Address :: string
  si_Port :: int
  si_Metadata :: "string \<rightharpoonup> string"

record 'e ServiceDiscovery =
  sd_client :: "'e etcd_client"
  sd_prefix :: string
  sd_interval :: int

definition NewServiceDiscovery :: "'e etcd_client res \<Rightarrow> string \<Rightarrow> int \<Rightarrow> 'e ServiceDiscovery res" where
  "NewServiceDiscovery newClient pre intervalSeconds =
     (case newClient of
        Inl e \<Rightarrow> Inl (Wrapf ''failed to connect to etcd for discovery'' e)
      | Inr cli \<Rightarrow> Inr \<lparr>sd_client = cli, sd_prefix = pre @ ''/services/'',
                       sd_interval = wrap64 (intervalSeconds * second)\<rparr>)"

definition instance_key :: "'e ServiceDiscovery \<Rightarrow> ServiceInstance \<Rightarrow> string" where
  "instance_key d i = sd_prefix d @ si_Name i @ ''/'' @ si_ID i"

definition lease_ttl :: "'e ServiceDiscovery \<Rightarrow> int" where
  "lease_ttl d = wrap64 (go_quot (sd_interval d) second * 3)"

definition SD_Register ::
  "ServiceInstance codec \<Rightarrow> 'e ServiceDiscovery \<Rightarrow> ServiceInstance \<Rightarrow> 'e \<Rightarrow> unit res \<times> 'e"
where
  "SD_Register cd d i s =
     (case cd_Marshal cd i of
        Inl e \<Rightarrow> (Inl (Wrapf ''failed to marshal service instance'' e), s)
      | Inr data \<Rightarrow>
     (case et_Grant (sd_client d) (lease_ttl d) s of
        (Inl e, s1) \<Rightarrow> (Inl (Wrapf ''failed to create lease'' e), s1)
      | (Inr lease, s1) \<Rightarrow>
     (case et_Put (sd_client d) (instance_key d i) data (Some lease) s1 of
        (Inl e, s2) \<Rightarrow> (Inl (Wrapf ''failed to register service'' e), s2)
      | (Inr _, s2) \<Rightarrow>
     (case et_KeepAlive (sd_client d) lease s2 of
        (Inl e, s3) \<Rightarrow> (Inl (Wrapf ''failed to start keepalive'' e), s3)
      | (Inr _, s3) \<Rightarrow> (Inr (), s3)))))"

definition SD_Deregister :: "'e ServiceDiscovery \<Rightarrow> ServiceInstance \<Rightarrow> 'e \<Rightarrow> unit res \<times> 'e" where
  "SD_Deregister d i s =
     (case et_Delete (sd_client d) (instance_key d i) s of
        (Inl e, s1) \<Rightarrow> (Inl (Wrapf ''failed to deregister service'' e), s1)
      | (Inr _, s1) \<Rightarrow> (Inr (), s1))"

text \<open>Values that cannot be decoded are skipped.\<close>

fun decode_instances :: "ServiceInstance codec \<Rightarrow> (string \<times> string) list \<Rightarrow> ServiceInstance list" where
  "decode_instances cd [] = []"
| "decode_instances cd ((k, v) # kvs) =
     (case cd_Unmarshal cd v of
        Inl e \<Rightarrow> decode_instances cd kvs
      | Inr i \<Rightarrow> i # decode_instances cd kvs)"

definition SD_Discover ::
  "ServiceInstance codec \<Rightarrow> 'e ServiceDiscovery \<Rightarrow> string \<Rightarrow> 'e \<Rightarrow> ServiceInstance list res \<times> 'e"
where
  "SD_Discover cd d serviceName s =
     (case et_Get (sd_client d) (sd_prefix d @ serviceName @ ''/'') True s of
        (Inl e, s1) \<Rightarrow> (Inl (Wrapf (''failed to discover service '' @ serviceName) e), s1)
      | (Inr kvs, s1) \<Rightarrow> (Inr (decode_instances cd kvs), s1))"

text \<open>One round of the goroutine of \<open>Watch\<close> that receives from the watch channel: \<open>werr\<close> is
  \<open>watchResp.Err()\<close>, \<open>buf\<close> the content of the result channel, of capacity ten.\<close>

definition watch_round ::
  "ServiceInstance codec \<Rightarrow> 'e ServiceDiscovery \<Rightarrow> string \<Rightarrow> err option
    \<Rightarrow> ServiceInstance list list \<times> 'e \<Rightarrow> ServiceInstance list list \<times> 'e"
where
  "watch_round cd d serviceName werr bs =
     (case bs of (buf, s) \<Rightarrow>
        if werr \<noteq> None then (buf, s)
        else case SD_Discover cd d serviceName s of
               (Inl e, s1) \<Rightarrow> (buf, s1)
             | (Inr instances, s1) \<Rightarrow> (if length buf < 10 then buf @ [instances] else buf, s1))"

section \<open>What the client promises\<close>

definition put_ok :: "'e etcd_client \<Rightarrow> ('e \<Rightarrow> string \<rightharpoonup> string) \<Rightarrow> ('e \<Rightarrow> bool) \<Rightarrow> bool" where
  "put_ok c kv calm \<longleftrightarrow> (\<forall>k v l s.
     (case et_Put c k v l s of
        (Inr _, s') \<Rightarrow> kv s' = (kv s)(k \<mapsto> v)
      | (Inl _, s') \<Rightarrow> \<not> calm s \<and> (kv s' = kv s \<or> kv s' = (kv s)(k \<mapsto> v))))"

definition get_ok :: "'e etcd_client \<Rightarrow> ('e \<Rightarrow> string \<rightharpoonup> string) \<Rightarrow> ('e \<Rightarrow> bool) \<Rightarrow> bool" where
  "get_ok c kv calm \<longleftrightarrow> (\<forall>k b s.
     (case et_Get c k b s of
        (Inr kvs, s') \<Rightarrow> kv s' = kv s \<and> sorted (map fst kvs) \<and> distinct (map fst kvs) \<and>
          set kvs = {(k', v). kv s k' = Some v \<and> (if b then HasPrefix k' k else k' = k)}
      | (Inl _, s') \<Rightarrow> \<not> calm s \<and> kv s' = kv s))"

definition del_ok :: "'e etcd_client \<Rightarrow> ('e \<Rightarrow> string \<rightharpoonup> string) \<Rightarrow> ('e \<Rightarrow> bool) \<Rightarrow> bool" where
  "del_ok c kv calm \<longleftrightarrow> (\<forall>k s.
     (case et_Delete c k s of
        (Inr _, s') \<Rightarrow> kv s' = (kv s)(k := None)
      | (Inl _, s') \<Rightarrow> \<not> calm s \<and> (kv s' = kv s \<or> kv s' = (kv s)(k := None))))"

definition lease_ok :: "'e etcd_client \<Rightarrow> ('e \<Rightarrow> string \<rightharpoonup> string) \<Rightarrow> bool" where
  "lease_ok c kv \<longleftrightarrow> (\<forall>x s. kv (snd (et_Grant c x s)) = kv s \<and> kv (snd (et_KeepAlive c x s)) = kv s)"

definition etcd_ok :: "'e etcd_client \<Rightarrow> ('e \<Rightarrow> string \<rightharpoonup> string) \<Rightarrow> ('e \<Rightarrow> bool) \<Rightarrow> bool" where
  "etcd_ok c kv calm \<longleftrightarrow> put_ok c kv calm \<and> get_ok c kv calm \<and> del_ok c kv calm \<and> lease_ok c kv"

lemma et_Put_ok:
  assumes "etcd_ok c kv calm" and "et_Put c k v l s = (Inr u, s')"
  shows "kv s' = (kv s)(k \<mapsto> v)"
proof -
  have "case et_Put c k v l s of (Inr _, s') \<Rightarrow> kv s' = (kv s)(k \<mapsto> v)
      | (Inl _, s') \<Rightarrow> \<not> calm s \<and> (kv s' = kv s \<or> kv s' = (kv s)(k \<mapsto> v))"
    using assms(1) by (simp only: etcd_ok_def put_ok_def)
  with assms(2) show ?thesis by simp
qed

lemma et_Delete_ok:
  assumes "etcd_ok c kv calm" and "et_Delete c k s = (Inr u, s')"
  shows "kv s' = (kv s)(k := None)"
proof -
  have "case et_Delete c k s of (Inr _, s') \<Rightarrow> kv s' = (kv s)(k := None)
      | (Inl _, s') \<Rightarrow> \<not> calm s \<and> (kv s' = kv s \<or> kv s' = (kv s)(k := None))"
    using assms(1) by (simp only: etcd_ok_def del_ok_def)
  with assms(2) show ?thesis by simp
qed

lemma et_Get_spec:
  assumes "etcd_ok c kv calm"
  shows "case et_Get c k b s of
      (Inr kvs, s') \<Rightarrow> kv s' = kv s \<and> sorted (map fst kvs) \<and> distinct (map fst kvs) \<and>
        set kvs = {(k', v). kv s k' = Some v \<and> (if b then HasPrefix k' k else k' = k)}
    | (Inl _, s') \<Rightarrow> \<not> calm s \<and> kv s' = kv s"
  using assms by (simp only: etcd_ok_def get_ok_def)

lemma et_Get_ok:
  assumes "etcd_ok c kv calm" and "et_Get c k b s = (Inr kvs, s')"
  shows "kv s' = kv s" and "sorted (map fst kvs)" and "distinct (map fst kvs)"
    and "set kvs = {(k', v). kv s k' = Some v \<and> (if b then HasPrefix k' k else k' = k)}"
  using et_Get_spec [OF assms(1), where k = k and b = b and s = s] assms(2) by auto

lemma et_Get_calm: "etcd_ok c kv calm \<Longrightarrow> calm s \<Longrightarrow> \<exists>kvs s'. et_Get c k b s = (Inr kvs, s')"
  using et_Get_spec [where c = c and kv = kv and calm = calm and k = k and b = b and s = s] by (auto split: prod.splits sum.splits)

section \<open>The manager is a map\<close>

text \<open>\<open>keys_under pre m\<close> is the map of the keys below a prefix.\<close>

definition keys_under :: "string \<Rightarrow> (string \<rightharpoonup> string) \<Rightarrow> string \<rightharpoonup> string" where
  "keys_under pre m k = m (pre @ k)"

lemma keys_under_upd: "keys_under pre (m(pre @ k := v)) = (keys_under pre m)(k := v)"
  by (auto simp: keys_under_def)

lemma short_keys_prefix:
  "\<forall>k \<in> fst ` set kvs. HasPrefix k P \<Longrightarrow> distinct (map fst kvs) \<Longrightarrow>
    short_keys (length P) kvs m = Some (\<lambda>k. case map_of kvs (P @ k) of Some v \<Rightarrow> Some v | None \<Rightarrow> m k)"
proof (induction kvs arbitrary: m)
  case (Cons x kvs)
  obtain k v where x: "x = (k, v)" by fastforce
  with Cons.prems(1) obtain t where t: "k = P @ t" by (auto simp: HasPrefix_iff)
  have "map_of kvs (P @ t) = None" using Cons.prems(2) x t by (auto simp: map_of_eq_None_iff)
  then have "(\<lambda>k. case map_of kvs (P @ k) of Some v \<Rightarrow> Some v | None \<Rightarrow> (m(t \<mapsto> v)) k)
      = (\<lambda>k. case map_of (x # kvs) (P @ k) of Some v \<Rightarrow> Some v | None \<Rightarrow> m k)"
    by (auto simp: x t fun_eq_iff split: option.split)
  moreover have "short_keys (length P) (x # kvs) m = short_keys (length P) kvs (m(t \<mapsto> v))"
    by (simp add: x t)
  moreover have "short_keys (length P) kvs (m(t \<mapsto> v))
      = Some (\<lambda>k. case map_of kvs (P @ k) of Some v \<Rightarrow> Some v | None \<Rightarrow> (m(t \<mapsto> v)) k)"
    by (rule Cons.IH) (use Cons.prems in simp_all)
  ultimately show ?case by (simp only:)
qed simp

lemma map_of_restricted:
  assumes "distinct (map fst kvs)" and "set kvs = {(k, v). m k = Some v \<and> P k}"
  shows "map_of kvs k = (if P k then m k else None)"
proof (cases "map_of kvs k")
  case None
  then have "\<not> (m k = Some v \<and> P k)" for v
    using assms(2) by (auto simp: map_of_eq_None_iff image_iff)
  with None show ?thesis by (cases "m k") auto
next
  case (Some v)
  then have "(k, v) \<in> set kvs" by (rule map_of_SomeD)
  with Some assms(2) show ?thesis by auto
qed

lemma single_key:
  assumes "distinct (map fst kvs)" and "set kvs = {(k', v). m k' = Some v \<and> k' = K}"
  shows "kvs = (case m K of None \<Rightarrow> [] | Some v \<Rightarrow> [(K, v)])"
proof (cases "m K")
  case None
  with assms(2) have "set kvs = {}" by auto
  with None show ?thesis by simp
next
  case (Some v)
  with assms(2) have st: "set kvs = {(K, v)}" by auto
  with distinct_card [of kvs] assms(1) have "length kvs = 1" by (simp add: distinct_map)
  with st have "kvs = [(K, v)]" by (cases kvs) auto
  with Some show ?thesis by simp
qed

text \<open>The calls that succeed are the operations of a map, the keys below the prefix of the manager.\<close>

lemma etcd_manager_map:
  assumes ok: "etcd_ok (em_client m) kv calm"
  shows "Etcd_Put m k v s = (Inr (), s') \<Longrightarrow> keys_under (em_prefix m) (kv s') = (keys_under (em_prefix m) (kv s))(k \<mapsto> v)"
    and "Etcd_Delete m k s = (Inr (), s') \<Longrightarrow> keys_under (em_prefix m) (kv s') = (keys_under (em_prefix m) (kv s))(k := None)"
    and "calm s \<Longrightarrow> \<exists>s'. Etcd_Get m k s = (case keys_under (em_prefix m) (kv s) k of Some v \<Rightarrow> Inr v
        | None \<Rightarrow> Inl (Errorf (''key '' @ (em_prefix m @ k) @ '' not found'')), s') \<and> kv s' = kv s"
    and "Etcd_List m pre s = (Inr r, s') \<Longrightarrow>
      r = Some (\<lambda>k. if HasPrefix k pre then keys_under (em_prefix m) (kv s) k else None) \<and> kv s' = kv s"
proof -
  show "Etcd_Put m k v s = (Inr (), s') \<Longrightarrow> keys_under (em_prefix m) (kv s') = (keys_under (em_prefix m) (kv s))(k \<mapsto> v)"
    using et_Put_ok [OF ok] by (fastforce simp: Etcd_Put_def Let_def keys_under_upd split: prod.splits sum.splits)
  show "Etcd_Delete m k s = (Inr (), s') \<Longrightarrow> keys_under (em_prefix m) (kv s') = (keys_under (em_prefix m) (kv s))(k := None)"
    using et_Delete_ok [OF ok] by (fastforce simp: Etcd_Delete_def Let_def keys_under_upd split: prod.splits sum.splits)
  show "\<exists>s'. Etcd_Get m k s = (case keys_under (em_prefix m) (kv s) k of Some v \<Rightarrow> Inr v
        | None \<Rightarrow> Inl (Errorf (''key '' @ (em_prefix m @ k) @ '' not found'')), s') \<and> kv s' = kv s" if clm: "calm s"
  proof -
    obtain kvs s' where g: "et_Get (em_client m) (em_prefix m @ k) False s = (Inr kvs, s')"
      using et_Get_calm [OF ok clm] by blast
    note spec = et_Get_ok [OF ok g]
    have "kvs = (case kv s (em_prefix m @ k) of None \<Rightarrow> [] | Some v \<Rightarrow> [(em_prefix m @ k, v)])"
      using single_key [OF spec(3)] spec(4) by simp
    with g spec(1) show ?thesis
      by (cases "kv s (em_prefix m @ k)") (simp_all add: Etcd_Get_def Let_def keys_under_def)
  qed
  show "r = Some (\<lambda>k. if HasPrefix k pre then keys_under (em_prefix m) (kv s) k else None) \<and> kv s' = kv s"
    if lst: "Etcd_List m pre s = (Inr r, s')"
  proof -
    obtain kvs where g: "et_Get (em_client m) (em_prefix m @ pre) True s = (Inr kvs, s')"
      and r: "r = short_keys (length (em_prefix m)) kvs Map.empty"
      using lst by (auto simp: Etcd_List_def Let_def split: prod.splits sum.splits)
    note spec = et_Get_ok [OF ok g]
    have "\<forall>k \<in> fst ` set kvs. HasPrefix k (em_prefix m)" using spec(4) by (auto simp: HasPrefix_iff)
    from short_keys_prefix [OF this spec(3)] r
    have "r = Some (\<lambda>k. map_of kvs (em_prefix m @ k))" by (simp add: option.case_eq_if) (auto simp: fun_eq_iff)
    moreover have "map_of kvs (em_prefix m @ k) = (if HasPrefix k pre then kv s (em_prefix m @ k) else None)" for k
      using map_of_restricted [OF spec(3), of "kv s" "\<lambda>k'. HasPrefix k' (em_prefix m @ pre)"] spec(4)
      by (simp add: HasPrefix_def)
    ultimately show ?thesis using spec(1) by (auto simp: keys_under_def fun_eq_iff)
  qed
qed

section \<open>Discovery finds what is registered\<close>

text \<open>The specification: a registry of instances by service and id, and what calls do to it.\<close>

type_synonym registry = "string \<times> string \<rightharpoonup> ServiceInstance"

datatype sd_op = RegisterOp ServiceInstance | DeregisterOp ServiceInstance

fun sd_instance :: "sd_op \<Rightarrow> ServiceInstance" where
  "sd_instance (RegisterOp i) = i"
| "sd_instance (DeregisterOp i) = i"

fun registry_step :: "sd_op \<Rightarrow> registry \<Rightarrow> registry" where
  "registry_step (RegisterOp i) g = g((si_Name i, si_ID i) \<mapsto> i)"
| "registry_step (DeregisterOp i) g = g((si_Name i, si_ID i) := None)"

fun run_sd :: "ServiceInstance codec \<Rightarrow> 'e ServiceDiscovery \<Rightarrow> sd_op \<Rightarrow> 'e \<Rightarrow> unit res \<times> 'e" where
  "run_sd cd d (RegisterOp i) s = SD_Register cd d i s"
| "run_sd cd d (DeregisterOp i) s = SD_Deregister d i s"

text \<open>A run in which every call succeeds.\<close>

fun run_sds :: "ServiceInstance codec \<Rightarrow> 'e ServiceDiscovery \<Rightarrow> sd_op list \<Rightarrow> 'e \<Rightarrow> 'e option" where
  "run_sds cd d [] s = Some s"
| "run_sds cd d (p # ps) s = (case run_sd cd d p s of (Inl e, s1) \<Rightarrow> None | (Inr _, s1) \<Rightarrow> run_sds cd d ps s1)"

definition no_slash :: "string \<Rightarrow> bool" where
  "no_slash n \<longleftrightarrow> CHR ''/'' \<notin> set n"

definition sd_key :: "'e ServiceDiscovery \<Rightarrow> string \<Rightarrow> string \<Rightarrow> string" where
  "sd_key d n i = sd_prefix d @ n @ ''/'' @ i"

text \<open>The keys represent the registry: every instance under its key, and no other key of a service
  whose name has no slash.\<close>

definition stored_as :: "ServiceInstance codec \<Rightarrow> string \<Rightarrow> string \<Rightarrow> ServiceInstance option \<Rightarrow> string option \<Rightarrow> bool" where
  "stored_as cd n i x v =
     (case x of
        None \<Rightarrow> v = None
      | Some y \<Rightarrow> si_Name y = n \<and> si_ID y = i \<and> codec_ok cd y \<and> (\<exists>b. cd_Marshal cd y = Inr b \<and> v = Some b))"

definition represents ::
  "ServiceInstance codec \<Rightarrow> 'e ServiceDiscovery \<Rightarrow> registry \<Rightarrow> (string \<rightharpoonup> string) \<Rightarrow> bool"
where
  "represents cd d g m \<longleftrightarrow> (\<forall>n i. no_slash n \<longrightarrow> stored_as cd n i (g (n, i)) (m (sd_key d n i)))"

lemma sd_key_inject:
  assumes "no_slash n" and "no_slash n'"
  shows "sd_key d n i = sd_key d n' i' \<longleftrightarrow> n = n' \<and> i = i'"
  using assms Split_no_sep [of "CHR ''/''" n] Split_no_sep [of "CHR ''/''" n']
    Split_append_sep [of "CHR ''/''" n i] Split_append_sep [of "CHR ''/''" n' i']
  by (auto simp: sd_key_def no_slash_def)

lemma run_sd_kv:
  assumes ok: "etcd_ok (sd_client d) kv calm" and run: "run_sd cd d p s = (Inr (), s')"
  shows "kv s' = (kv s)(sd_key d (si_Name (sd_instance p)) (si_ID (sd_instance p)) :=
     (case p of RegisterOp i \<Rightarrow> (case cd_Marshal cd i of Inl e \<Rightarrow> None | Inr b \<Rightarrow> Some b) | DeregisterOp i \<Rightarrow> None))"
proof (cases p)
  case (RegisterOp i)
  have lease: "kv (snd (et_Grant (sd_client d) x t)) = kv t" "kv (snd (et_KeepAlive (sd_client d) x t)) = kv t" for x t
    using ok by (simp_all add: etcd_ok_def lease_ok_def)
  from run RegisterOp obtain b l s1 u s2 v where b: "cd_Marshal cd i = Inr b"
    and g: "et_Grant (sd_client d) (lease_ttl d) s = (Inr l, s1)"
    and p: "et_Put (sd_client d) (instance_key d i) b (Some l) s1 = (Inr u, s2)"
    and k: "et_KeepAlive (sd_client d) l s2 = (Inr v, s')"
    by (auto simp: SD_Register_def split: prod.splits sum.splits)
  have "kv s1 = kv s" "kv s' = kv s2" using lease(1) [of "lease_ttl d" s] lease(2) [of l s2] g k by auto
  with et_Put_ok [OF ok p] RegisterOp b show ?thesis by (simp add: instance_key_def sd_key_def)
next
  case (DeregisterOp i)
  with run obtain u where "et_Delete (sd_client d) (instance_key d i) s = (Inr u, s')"
    by (auto simp: SD_Deregister_def split: prod.splits sum.splits)
  from et_Delete_ok [OF ok this] DeregisterOp show ?thesis by (simp add: instance_key_def sd_key_def)
qed

lemma represents_step:
  assumes ok: "etcd_ok (sd_client d) kv calm" and rep: "represents cd d g (kv s)"
    and run: "run_sd cd d p s = (Inr (), s')"
    and p: "no_slash (si_Name (sd_instance p))" "codec_ok cd (sd_instance p)"
  shows "represents cd d (registry_step p g) (kv s')"
  unfolding represents_def
proof (intro allI impI)
  fix n i assume n: "no_slash n"
  note old = rep [unfolded represents_def, rule_format, OF n, of i]
  let ?x = "sd_instance p"
  show "stored_as cd n i (registry_step p g (n, i)) (kv s' (sd_key d n i))"
  proof (cases "n = si_Name ?x \<and> i = si_ID ?x")
    case True
    then show ?thesis using p(2)
      by (cases p) (auto simp: run_sd_kv [OF ok run] stored_as_def codec_ok_def split: sum.splits)
  next
    case False
    then have "sd_key d n i \<noteq> sd_key d (si_Name ?x) (si_ID ?x)" 
      using sd_key_inject [OF n p(1), where d = d and i = i and i' = "si_ID ?x"] by blast
    then have "kv s' (sd_key d n i) = kv s (sd_key d n i)" by (simp add: run_sd_kv [OF ok run])
    moreover have "registry_step p g (n, i) = g (n, i)" using False by (cases p) auto
    ultimately show ?thesis using old by simp
  qed
qed

lemma represents_run:
  assumes ok: "etcd_ok (sd_client d) kv calm" and "represents cd d g (kv s)" and "run_sds cd d ps s = Some s'"
    and "\<forall>p \<in> set ps. no_slash (si_Name (sd_instance p)) \<and> codec_ok cd (sd_instance p)"
  shows "represents cd d (fold registry_step ps g) (kv s')"
  using assms(2-4)
proof (induction ps arbitrary: g s)
  case (Cons p ps)
  from Cons.prems(2) obtain s1 where r: "run_sd cd d p s = (Inr (), s1)" "run_sds cd d ps s1 = Some s'"
    by (auto split: prod.splits sum.splits)
  have "represents cd d (registry_step p g) (kv s1)"
    using represents_step [OF ok Cons.prems(1) r(1)] Cons.prems(3) by simp
  from Cons.IH [OF this r(2)] Cons.prems(3) show ?case by simp
qed simp

lemma append_le: "(xs @ ys \<le> xs @ zs) = (ys \<le> (zs :: string))"
  by (induction xs) simp_all

lemma decode_all:
  "\<forall>(k, v) \<in> set kvs. \<exists>x. f k = Some x \<and> cd_Unmarshal cd v = Inr x \<Longrightarrow>
    decode_instances cd kvs = map (\<lambda>(k, v). the (f k)) kvs"
  by (induction kvs) (auto split: sum.splits)

lemma sorted_append_left: "sorted (map ((@) p) is) = sorted (is :: string list)"
  by (induction "is") (auto simp: append_le)

text \<open>An entry that a query for a service returns holds an instance of the registry.\<close>

lemma entry_of_registry:
  assumes rep: "represents cd d g m" and "no_slash name" and v: "m k = Some v" and "HasPrefix k (sd_prefix d @ name @ ''/'')"
  shows "\<exists>i x. k = sd_key d name i \<and> g (name, i) = Some x \<and> si_ID x = i \<and> cd_Unmarshal cd v = Inr x"
proof -
  from assms(4) obtain i where k: "k = sd_key d name i" by (auto simp: HasPrefix_iff sd_key_def)
  have "stored_as cd name i (g (name, i)) (m (sd_key d name i))" using rep assms(2) by (simp add: represents_def)
  with v k obtain x b where "g (name, i) = Some x" "si_ID x = i" "codec_ok cd x" "cd_Marshal cd x = Inr b" "v = b"
    by (auto simp: stored_as_def split: option.splits)
  with k show ?thesis by (auto simp: codec_ok_def split: sum.splits)
qed

lemma decoded_registry:
  assumes rep: "represents cd d g m" and n: "no_slash name"
    and kvs: "\<forall>k v. (k, v) \<in> set kvs \<longleftrightarrow> m k = Some v \<and> HasPrefix k (sd_prefix d @ name @ ''/'')"
    and "sorted (map fst kvs)" and "distinct (map fst kvs)"
  shows "set (decode_instances cd kvs) = {x. \<exists>i. g (name, i) = Some x} \<and>
    sorted (map si_ID (decode_instances cd kvs)) \<and> distinct (map si_ID (decode_instances cd kvs))"
proof -
  let ?pre = "sd_prefix d @ name @ ''/''"
  let ?f = "\<lambda>k. g (name, drop (length ?pre) k)"
  have e: "\<exists>i x. k = sd_key d name i \<and> g (name, i) = Some x \<and> si_ID x = i \<and> cd_Unmarshal cd v = Inr x"
    if "(k, v) \<in> set kvs" for k v
    by (rule entry_of_registry [OF rep n]) (use kvs that in auto)
  have drop_key: "drop (length ?pre) (sd_key d name i) = i" for i by (simp add: sd_key_def)
  have xs: "decode_instances cd kvs = map (\<lambda>(k, v). the (?f k)) kvs"
    by (rule decode_all) (use e drop_key in fastforce)
  have ids: "map si_ID (decode_instances cd kvs) = map (drop (length ?pre)) (map fst kvs)"
    unfolding xs using e drop_key by (fastforce simp: case_prod_beta)
  have keys: "map fst kvs = map ((@) ?pre) (map (drop (length ?pre)) (map fst kvs))"
    using e drop_key by (fastforce simp: sd_key_def)
  have "sorted (map (drop (length ?pre)) (map fst kvs))" "distinct (map (drop (length ?pre)) (map fst kvs))"
    using assms(4,5) keys sorted_append_left [of ?pre "map (drop (length ?pre)) (map fst kvs)"] distinct_map
    by (metis, metis)
  moreover have "x \<in> set (decode_instances cd kvs)" if i: "g (name, i) = Some x" for x i
  proof -
    have "stored_as cd name i (g (name, i)) (m (sd_key d name i))" using rep n by (simp add: represents_def)
    with i obtain b where "m (sd_key d name i) = Some b" by (auto simp: stored_as_def)
    then have "(sd_key d name i, b) \<in> set kvs" using kvs by (simp add: sd_key_def HasPrefix_def)
    then have "the (?f (sd_key d name i)) \<in> set (decode_instances cd kvs)" unfolding xs by force
    with i drop_key show ?thesis by simp
  qed
  moreover have "\<exists>i. g (name, i) = Some x" if "x \<in> set (decode_instances cd kvs)" for x
    using that e drop_key by (fastforce simp: xs)
  ultimately show ?thesis unfolding ids by blast
qed

section \<open>Properties\<close>


text \<open>A connection for the witness: an association list of the keys.\<close>

definition mem_etcd :: "(string \<times> string) list etcd_client" where
  "mem_etcd =
     \<lparr>et_Put = (\<lambda>k v l s. (Inr (), (k, v) # s)),
      et_Get = (\<lambda>k b s. (Inr (sort_key fst (filter (\<lambda>x. if b then HasPrefix (fst x) k else fst x = k)
                  (AList.clearjunk s))), s)),
      et_Delete = (\<lambda>k s. (Inr (), AList.delete k s)),
      et_Grant = (\<lambda>t s. (Inr 7, s)), et_KeepAlive = (\<lambda>l s. (Inr (), s))\<rparr>"

lemma clearjunk_iff: "(k, v) \<in> set (AList.clearjunk s) \<longleftrightarrow> map_of s k = Some v"
  by (metis distinct_clearjunk map_of_clearjunk map_of_SomeD map_of_is_SomeI)

lemma mem_etcd_ok: "etcd_ok mem_etcd map_of (\<lambda>_. True)"
proof -
  have "distinct (map fst (sort_key fst (filter P (AList.clearjunk s))))" for P and s :: "(string \<times> string) list"
    using distinct_map_filter [OF distinct_clearjunk [of s], of P] by (simp add: distinct_map)
  then have "get_ok mem_etcd map_of (\<lambda>_. True)"
    by (auto simp: get_ok_def mem_etcd_def clearjunk_iff)
  moreover have "put_ok mem_etcd map_of (\<lambda>_. True)" "del_ok mem_etcd map_of (\<lambda>_. True)" "lease_ok mem_etcd map_of"
    by (auto simp: put_ok_def del_ok_def lease_ok_def mem_etcd_def delete_conv')
  ultimately show ?thesis by (simp add: etcd_ok_def)
qed

text \<open>Instances of one service at two addresses, told apart by the first byte.\<close>

definition node :: "string \<Rightarrow> ServiceInstance" where
  "node i = \<lparr>si_ID = i, si_Name = ''fsserver'', si_Address = ''host'', si_Port = 8080, si_Metadata = Map.empty\<rparr>"

definition node_codec :: "ServiceInstance codec" where
  "node_codec = \<lparr>cd_Marshal = (\<lambda>x. Inr (si_ID x)), cd_Unmarshal = (\<lambda>b. Inr (node b))\<rparr>"

lemma two_entries:
  "p \<noteq> q \<Longrightarrow> {x. \<exists>i. (if i = p then Some u else if i = q then Some w else None) = Some x} = {u, w}"
  by (auto split: if_splits)


text \<open>A service whose name has a slash is found under the name before the slash as well.\<close>

lemma discover_nested_service:
  "fst (SD_Discover \<lparr>cd_Marshal = (\<lambda>x. Inr (si_Name x)), cd_Unmarshal = (\<lambda>b. Inr ((node ''1'')\<lparr>si_Name := b\<rparr>))\<rparr>
      \<lparr>sd_client = mem_etcd, sd_prefix = ''s/'', sd_interval = 10\<rparr> ''a''
      [(''s/a/b/1'', ''a/b'')]) = Inr [(node ''1'')\<lparr>si_Name := ''a/b''\<rparr>]"
  by (simp add: SD_Discover_def mem_etcd_def HasPrefix_def)

text \<open>The channel of \<open>Watch\<close> never holds more than ten lists, and a full channel keeps the old
  ones: the newest state is the one that is lost.\<close>

lemma watch_round_bound:
  "length buf \<le> 10 \<Longrightarrow> length (fst (watch_round cd d name werr (buf, s))) \<le> 10"
  by (auto simp: watch_round_def split: prod.splits sum.splits)

lemma watch_drops_newest:
  "length buf = 10 \<Longrightarrow> fst (watch_round cd d name werr (buf, s)) = buf"
  by (auto simp: watch_round_def split: prod.splits sum.splits)

end
