(* ===== verification/Minio.thy ===== *)
theory Minio
  imports File_Manager
begin

text \<open>
  \<open>src/internal/storage/minio.go\<close>: the adapter to an S3 object store.  The client library is
  a parameter: a record of the calls the adapter makes, each on the state of the process, which
  holds the bucket in a part this theory does not look into.  \<open>minio_ok\<close> is what the adapter
  relies on.  The mutexes make every call one step on its keys and are not part of the state.
\<close>

section \<open>The client\<close>

text \<open>\<open>mc_ListObjects\<close> gives the messages of the channel, of which an error is the last;
  \<open>mc_Seek\<close> is what the seeks on a reader find out about its size, \<open>None\<close> when it is
  no \<open>io.Seeker\<close>.\<close>

record 's minio_client =
  mc_BucketExists :: "string \<Rightarrow> 's \<Rightarrow> bool res \<times> 's"
  mc_MakeBucket :: "string \<Rightarrow> 's \<Rightarrow> unit res \<times> 's"
  mc_PutObject :: "string \<Rightarrow> string \<Rightarrow> reader \<Rightarrow> int \<Rightarrow> 's \<Rightarrow> unit res \<times> 's"
  mc_FPutObject :: "string \<Rightarrow> string \<Rightarrow> string \<Rightarrow> 's \<Rightarrow> unit res \<times> 's"
  mc_SetRange :: "int \<Rightarrow> int \<Rightarrow> unit res"
  mc_GetObject :: "string \<Rightarrow> string \<Rightarrow> (int \<times> int) option \<Rightarrow> 's \<Rightarrow> reader res \<times> 's"
  mc_StatObject :: "string \<Rightarrow> string \<Rightarrow> 's \<Rightarrow> int res"
  mc_RemoveObject :: "string \<Rightarrow> string \<Rightarrow> 's \<Rightarrow> unit res \<times> 's"
  mc_ListObjects :: "string \<Rightarrow> string \<Rightarrow> bool \<Rightarrow> 's \<Rightarrow> string res list"
  mc_Seek :: "reader \<Rightarrow> int res option"

section \<open>The adapter\<close>

record 's MinIOStorage =
  ms_client :: "'s minio_client"
  ms_bucket :: string

definition NewMinIOStorage :: "'s minio_client res \<Rightarrow> string \<Rightarrow> 's \<Rightarrow> 's MinIOStorage res \<times> 's" where
  "NewMinIOStorage newClient bucket s =
     (case newClient of
        Inl e \<Rightarrow> (Inl (Wrapf ''failed to create minio client'' e), s)
      | Inr cl \<Rightarrow>
     (case mc_BucketExists cl bucket s of
        (Inl e, s1) \<Rightarrow> (Inl (Wrapf ''failed to check bucket existence'' e), s1)
      | (Inr True, s1) \<Rightarrow> (Inr \<lparr>ms_client = cl, ms_bucket = bucket\<rparr>, s1)
      | (Inr False, s1) \<Rightarrow>
          (case mc_MakeBucket cl bucket s1 of
             (Inl e, s2) \<Rightarrow> (Inl (Wrapf (''failed to create bucket '' @ bucket) e), s2)
           | (Inr _, s2) \<Rightarrow> (Inr \<lparr>ms_client = cl, ms_bucket = bucket\<rparr>, s2))))"

definition TrimSuffix :: "string \<Rightarrow> string \<Rightarrow> string" where
  "TrimSuffix s suf = (if HasSuffix s suf then take (length s - length suf) s else s)"

definition MS_ValidatePath :: "string \<Rightarrow> unit res" where
  "MS_ValidatePath objectKey =
     (if objectKey = [] then Inl (Errorf ''object key cannot be empty'')
      else if HasPrefix objectKey ''/'' then Inl (Errorf (''object key must not start with /: '' @ objectKey))
      else if list_ex (\<lambda>part. part = ''..'') (Split slash (TrimSuffix objectKey ''/''))
      then Inl (Errorf (''path traversal detected: '' @ objectKey))
      else Inr ())"

definition normalizeKey :: "string \<Rightarrow> string" where
  "normalizeKey objectKey = path_Clean objectKey"

text \<open>The early return that all operations begin with.\<close>

definition ms_checked :: "string \<Rightarrow> ('s \<Rightarrow> 'r res \<times> 's) \<Rightarrow> 's \<Rightarrow> 'r res \<times> 's" where
  "ms_checked objectKey f s = (case MS_ValidatePath objectKey of Inl e \<Rightarrow> (Inl e, s) | Inr _ \<Rightarrow> f s)"

definition ms_wrap :: "string \<Rightarrow> 'r res \<times> 's \<Rightarrow> 'r res \<times> 's" where
  "ms_wrap msg x = (case x of (Inl e, s1) \<Rightarrow> (Inl (Wrapf msg e), s1) | (Inr r, s1) \<Rightarrow> (Inr r, s1))"

definition MS_Write :: "'s MinIOStorage \<Rightarrow> string \<Rightarrow> bytes \<Rightarrow> 's \<Rightarrow> unit res \<times> 's" where
  "MS_Write ms objectKey data = ms_checked objectKey (\<lambda>s.
     ms_wrap ''failed to write object''
       (mc_PutObject (ms_client ms) (ms_bucket ms) (normalizeKey objectKey) \<lparr>rd_data = data, rd_err = None\<rparr> (int (length data)) s))"

definition MS_WriteAt :: "string \<Rightarrow> bytes \<Rightarrow> int \<Rightarrow> 's \<Rightarrow> unit res \<times> 's" where
  "MS_WriteAt objectKey data offset = ms_checked objectKey (\<lambda>s.
     if offset < 0 then (Inl (Errorf ''invalid offset''), s) else (Inl ErrWriteAtUnsupported, s))"

definition MS_WriteFromTempFile :: "'a fs_scheme MinIOStorage \<Rightarrow> string \<Rightarrow> string \<Rightarrow> 'a fs_scheme \<Rightarrow> unit res \<times> 'a fs_scheme" where
  "MS_WriteFromTempFile ms objectKey tempFilePath = ms_checked objectKey (\<lambda>s.
     case validateTempFilePath tempFilePath s of
       Inl e \<Rightarrow> (Inl e, s)
     | Inr _ \<Rightarrow> ms_wrap ''failed to upload from temp file'' (mc_FPutObject (ms_client ms) (ms_bucket ms) (normalizeKey objectKey) tempFilePath s))"

definition MS_WriteFromReader :: "'s MinIOStorage \<Rightarrow> string \<Rightarrow> reader \<Rightarrow> 's \<Rightarrow> unit res \<times> 's" where
  "MS_WriteFromReader ms objectKey rd = ms_checked objectKey (\<lambda>s.
     case (case mc_Seek (ms_client ms) rd of None \<Rightarrow> Inr (- 1) | Some r \<Rightarrow> r) of
       Inl e \<Rightarrow> (Inl (Wrapf ''failed to seek'' e), s)
     | Inr sz \<Rightarrow> ms_wrap ''failed to write from reader'' (mc_PutObject (ms_client ms) (ms_bucket ms) (normalizeKey objectKey) rd sz s))"

definition MS_OpenReader :: "'s MinIOStorage \<Rightarrow> string \<Rightarrow> 's \<Rightarrow> reader res \<times> 's" where
  "MS_OpenReader ms objectKey = ms_checked objectKey (\<lambda>s.
     ms_wrap ''failed to get object'' (mc_GetObject (ms_client ms) (ms_bucket ms) (normalizeKey objectKey) None s))"

definition MS_Read :: "'s MinIOStorage \<Rightarrow> string \<Rightarrow> 's \<Rightarrow> bytes res \<times> 's" where
  "MS_Read ms objectKey = ms_checked objectKey (\<lambda>s.
     case mc_GetObject (ms_client ms) (ms_bucket ms) (normalizeKey objectKey) None s of
       (Inl e, s1) \<Rightarrow> (Inl (Wrapf ''failed to get object'' e), s1)
     | (Inr obj, s1) \<Rightarrow> ms_wrap ''failed to read object'' (ReadAll obj, s1))"

definition MS_ReadAt :: "'s MinIOStorage \<Rightarrow> string \<Rightarrow> int \<Rightarrow> int \<Rightarrow> 's \<Rightarrow> bytes res \<times> 's" where
  "MS_ReadAt ms objectKey sz offset = ms_checked objectKey (\<lambda>s.
     if sz \<le> 0 then (Inl (Errorf ''invalid read size''), s)
     else if offset < 0 then (Inl (Errorf ''invalid read offset''), s)
     else
       let end = wrap64 (wrap64 (offset + sz) - 1)
       in case mc_SetRange (ms_client ms) offset end of
         Inl e \<Rightarrow> (Inl (Wrapf ''failed to set range'' e), s)
       | Inr _ \<Rightarrow>
           (case mc_GetObject (ms_client ms) (ms_bucket ms) (normalizeKey objectKey) (Some (offset, end)) s of
              (Inl e, s1) \<Rightarrow> (Inl (Wrapf ''failed to get object range'' e), s1)
            | (Inr obj, s1) \<Rightarrow> ms_wrap ''failed to read object range'' (ReadAll (LimitReader obj sz), s1)))"

definition MS_Remove :: "'s MinIOStorage \<Rightarrow> string \<Rightarrow> 's \<Rightarrow> unit res \<times> 's" where
  "MS_Remove ms objectKey = ms_checked objectKey (\<lambda>s.
     ms_wrap ''failed to remove object'' (mc_RemoveObject (ms_client ms) (ms_bucket ms) (normalizeKey objectKey) s))"

definition MS_Exists :: "'s MinIOStorage \<Rightarrow> string \<Rightarrow> 's \<Rightarrow> bool" where
  "MS_Exists ms objectKey s =
     (case MS_ValidatePath objectKey of
        Inl e \<Rightarrow> False
      | Inr _ \<Rightarrow>
          (let key = normalizeKey objectKey;
               lookupKey = (if HasSuffix objectKey ''/'' \<and> \<not> HasSuffix key ''/'' then key @ ''/'' else key)
           in case mc_StatObject (ms_client ms) (ms_bucket ms) lookupKey s of
                Inr _ \<Rightarrow> True
              | Inl _ \<Rightarrow>
                  if \<not> HasSuffix key ''/'' then
                    (case mc_ListObjects (ms_client ms) (ms_bucket ms) (key @ ''/'') False s of Inr _ # _ \<Rightarrow> True | _ \<Rightarrow> False)
                  else False))"

text \<open>The loop of \<open>List\<close>: the first element of every key below the prefix, once.\<close>

fun list_names :: "string \<Rightarrow> string list \<Rightarrow> string res list \<Rightarrow> string list res" where
  "list_names pre names [] = Inr names"
| "list_names pre names (Inl e # os) = Inl (Wrapf ''failed to list objects'' e)"
| "list_names pre names (Inr k # os) =
     (let relPath = TrimPrefix k pre; name = hd (Split slash relPath)
      in if relPath \<noteq> [] \<and> name \<notin> set names then list_names pre (names @ [name]) os else list_names pre names os)"

definition MS_List :: "'s MinIOStorage \<Rightarrow> string \<Rightarrow> 's \<Rightarrow> string list res" where
  "MS_List ms pre s =
     (case MS_ValidatePath pre of
        Inl e \<Rightarrow> Inl e
      | Inr _ \<Rightarrow> (let key = normalizeKey pre in list_names (key @ ''/'') [] (mc_ListObjects (ms_client ms) (ms_bucket ms) (key @ ''/'') False s)))"

definition MS_GetSize :: "'s MinIOStorage \<Rightarrow> string \<Rightarrow> 's \<Rightarrow> int res" where
  "MS_GetSize ms objectKey s =
     (case MS_ValidatePath objectKey of
        Inl e \<Rightarrow> Inl e
      | Inr _ \<Rightarrow>
          (case mc_StatObject (ms_client ms) (ms_bucket ms) (normalizeKey objectKey) s of
             Inl e \<Rightarrow> Inl (Wrapf ''failed to stat object'' e) | Inr n \<Rightarrow> Inr n))"

definition MS_Rename :: "'s MinIOStorage \<Rightarrow> string \<Rightarrow> string \<Rightarrow> 's \<Rightarrow> unit res \<times> 's" where
  "MS_Rename ms oldKey newKey = ms_checked oldKey (ms_checked newKey (\<lambda>s.
     if oldKey = newKey then (Inr (), s)
     else
       let cl = ms_client ms; b = ms_bucket ms; src = normalizeKey oldKey; dst = normalizeKey newKey
       in case mc_GetObject cl b src None s of
         (Inl e, s1) \<Rightarrow> (Inl (Wrapf ''failed to get source object'' e), s1)
       | (Inr srcObj, s1) \<Rightarrow>
           (case mc_StatObject cl b src s1 of
              Inl e \<Rightarrow> (Inl (Wrapf ''failed to stat source object'' e), s1)
            | Inr sz \<Rightarrow>
                (case mc_PutObject cl b dst srcObj sz s1 of
                   (Inl e, s2) \<Rightarrow> (Inl (Wrapf ''failed to copy object'' e), s2)
                 | (Inr _, s2) \<Rightarrow> ms_wrap ''failed to remove source object after rename'' (mc_RemoveObject cl b src s2)))))"

definition dir_key :: "string \<Rightarrow> string" where
  "dir_key pre = (let key = normalizeKey pre in if \<not> HasSuffix key ''/'' then key @ ''/'' else key)"

definition MS_CreateDirectory :: "'s MinIOStorage \<Rightarrow> string \<Rightarrow> 's \<Rightarrow> unit res \<times> 's" where
  "MS_CreateDirectory ms pre = ms_checked pre (\<lambda>s.
     ms_wrap ''failed to create directory marker'' (mc_PutObject (ms_client ms) (ms_bucket ms) (dir_key pre) \<lparr>rd_data = [], rd_err = None\<rparr> 0 s))"

text \<open>The loop over the listing, which is the one at the start of the loop.\<close>

fun remove_objects :: "'s MinIOStorage \<Rightarrow> string res list \<Rightarrow> 's \<Rightarrow> unit res \<times> 's" where
  "remove_objects ms [] s = (Inr (), s)"
| "remove_objects ms (Inl e # os) s = (Inl (Wrapf ''failed to list objects for removal'' e), s)"
| "remove_objects ms (Inr k # os) s =
     (case mc_RemoveObject (ms_client ms) (ms_bucket ms) k s of
        (Inl e, s1) \<Rightarrow> (Inl (Wrapf (''failed to remove object '' @ k) e), s1)
      | (Inr _, s1) \<Rightarrow> remove_objects ms os s1)"

definition MS_RemoveDirectory :: "'s MinIOStorage \<Rightarrow> string \<Rightarrow> 's \<Rightarrow> unit res \<times> 's" where
  "MS_RemoveDirectory ms pre = ms_checked pre (\<lambda>s. remove_objects ms (mc_ListObjects (ms_client ms) (ms_bucket ms) (dir_key pre) True s) s)"

definition MinIO_adapter :: "'a fs_scheme MinIOStorage \<Rightarrow> ('a fs_scheme) StorageAdapter" where
  "MinIO_adapter ms =
     \<lparr>sa_Write = MS_Write ms, sa_WriteAt = MS_WriteAt, sa_WriteFromTempFile = MS_WriteFromTempFile ms,
      sa_WriteFromReader = MS_WriteFromReader ms, sa_Read = MS_Read ms, sa_ReadAt = MS_ReadAt ms, sa_Remove = MS_Remove ms,
      sa_Exists = MS_Exists ms, sa_List = MS_List ms, sa_GetSize = MS_GetSize ms, sa_Rename = MS_Rename ms,
      sa_CreateDirectory = MS_CreateDirectory ms, sa_RemoveDirectory = MS_RemoveDirectory ms, sa_StorageType = ''minio'',
      sa_ValidatePath = (\<lambda>p s. MS_ValidatePath p), sa_OpenReader = MS_OpenReader ms\<rparr>"


section \<open>What the adapter relies on\<close>

definition in_range :: "(int \<times> int) option \<Rightarrow> bytes \<Rightarrow> bytes" where
  "in_range rng c = (case rng of None \<Rightarrow> c | Some (a, e) \<Rightarrow> take (nat (e - a + 1)) (drop (nat a) c))"

text \<open>A put replaces the object by as many bytes of the reader as it was told, by all of them for the
  size \<open>-1\<close>, or leaves it alone.\<close>

definition put_bytes :: "int \<Rightarrow> reader \<Rightarrow> bytes option" where
  "put_bytes n rd =
     (if n = - 1 then (if rd_err rd = None then Some (rd_data rd) else None)
      else if n \<le> int (length (rd_data rd)) then Some (take (nat n) (rd_data rd)) else None)"

definition put_ok :: "'s minio_client \<Rightarrow> string \<Rightarrow> ('s \<Rightarrow> bool) \<Rightarrow> ('s \<Rightarrow> bool) \<Rightarrow> ('s \<Rightarrow> string \<Rightarrow> bytes option) \<Rightarrow> bool" where
  "put_ok cl b good calm view \<longleftrightarrow>
     (\<forall>s key rd n r s'. good s \<and> - 1 \<le> n \<and> mc_PutObject cl b key rd n s = (r, s') \<longrightarrow>
        good s' \<and> (case r of Inr _ \<Rightarrow> put_bytes n rd \<noteq> None \<and> view s' = (view s)(key := put_bytes n rd) | Inl _ \<Rightarrow> view s' = view s)) \<and>
     (\<forall>s key rd n. good s \<and> calm s \<and> - 1 \<le> n \<and> put_bytes n rd \<noteq> None \<longrightarrow> (\<exists>s'. mc_PutObject cl b key rd n s = (Inr (), s') \<and> calm s'))"

text \<open>A get changes nothing; what can be read is a part of the object from the start of the range on, and
  all of it unless the reader ends with an error.\<close>

definition get_ok :: "'s minio_client \<Rightarrow> string \<Rightarrow> ('s \<Rightarrow> bool) \<Rightarrow> ('s \<Rightarrow> bool) \<Rightarrow> ('s \<Rightarrow> string \<Rightarrow> bytes option) \<Rightarrow> bool" where
  "get_ok cl b good calm view \<longleftrightarrow>
     (\<forall>s key rng r s'. good s \<and> mc_GetObject cl b key rng s = (r, s') \<longrightarrow>
        good s' \<and> view s' = view s \<and>
        (\<forall>rd. r = Inr rd \<and> (rd_err rd = None \<or> rd_data rd \<noteq> []) \<longrightarrow>
           (\<exists>c t. view s key = Some c \<and> in_range rng c = rd_data rd @ t \<and> (rd_err rd = None \<longrightarrow> t = [])))) \<and>
     (\<forall>s key c. good s \<and> calm s \<and> view s key = Some c \<longrightarrow> mc_GetObject cl b key None s = (Inr \<lparr>rd_data = c, rd_err = None\<rparr>, s)) \<and>
     (\<forall>s key c i e. good s \<and> calm s \<and> view s key = Some c \<and> 0 \<le> i \<and> i \<le> e \<and> i < int (length c) \<longrightarrow>
        mc_GetObject cl b key (Some (i, e)) s = (Inr \<lparr>rd_data = in_range (Some (i, e)) c, rd_err = None\<rparr>, s)) \<and>
     (\<forall>i e. 0 \<le> i \<and> i \<le> e \<longrightarrow> mc_SetRange cl i e = Inr ()) \<and> (\<forall>i e. 0 < i \<and> e < 0 \<longrightarrow> (\<exists>x. mc_SetRange cl i e = Inl x))"

definition stat_ok :: "'s minio_client \<Rightarrow> string \<Rightarrow> ('s \<Rightarrow> bool) \<Rightarrow> ('s \<Rightarrow> bool) \<Rightarrow> ('s \<Rightarrow> string \<Rightarrow> bytes option) \<Rightarrow> bool" where
  "stat_ok cl b good calm view \<longleftrightarrow>
     (\<forall>s key n. good s \<and> mc_StatObject cl b key s = Inr n \<longrightarrow> (\<exists>c. view s key = Some c \<and> n = int (length c))) \<and>
     (\<forall>s key c. good s \<and> calm s \<and> view s key = Some c \<longrightarrow> mc_StatObject cl b key s = Inr (int (length c)))"

text \<open>Removing an object that is not there succeeds.\<close>

definition del_ok :: "'s minio_client \<Rightarrow> string \<Rightarrow> ('s \<Rightarrow> bool) \<Rightarrow> ('s \<Rightarrow> bool) \<Rightarrow> ('s \<Rightarrow> string \<Rightarrow> bytes option) \<Rightarrow> bool" where
  "del_ok cl b good calm view \<longleftrightarrow>
     (\<forall>s key r s'. good s \<and> mc_RemoveObject cl b key s = (r, s') \<longrightarrow>
        good s' \<and> (case r of Inr _ \<Rightarrow> view s' = (view s)(key := None) | Inl _ \<Rightarrow> view s' = view s)) \<and>
     (\<forall>s key. good s \<and> calm s \<longrightarrow> (\<exists>s'. mc_RemoveObject cl b key s = (Inr (), s') \<and> calm s'))"

definition list_ok :: "'s minio_client \<Rightarrow> string \<Rightarrow> ('s \<Rightarrow> bool) \<Rightarrow> ('s \<Rightarrow> bool) \<Rightarrow> ('s \<Rightarrow> string \<Rightarrow> bytes option) \<Rightarrow> bool" where
  "list_ok cl b good calm view \<longleftrightarrow>
     (\<forall>s pre k. good s \<and> Inr k \<in> set (mc_ListObjects cl b pre True s) \<longrightarrow> HasPrefix k pre) \<and>
     (\<forall>s pre k. good s \<and> (\<forall>e. Inl e \<notin> set (mc_ListObjects cl b pre True s)) \<and> view s k \<noteq> None \<and> HasPrefix k pre \<longrightarrow>
        Inr k \<in> set (mc_ListObjects cl b pre True s)) \<and>
     (\<forall>s pre e. good s \<and> calm s \<longrightarrow> Inl e \<notin> set (mc_ListObjects cl b pre True s))"

text \<open>The readers that the services hand over can be sized, or are no seekers.\<close>

definition seek_ok :: "'s minio_client \<Rightarrow> bool" where
  "seek_ok cl \<longleftrightarrow> (\<forall>rd n. mc_Seek cl rd = Some (Inr n) \<longrightarrow> n = int (length (rd_data rd))) \<and>
     (\<forall>rd e. rd_err rd = None \<longrightarrow> mc_Seek cl rd \<noteq> Some (Inl e))"

definition minio_ok :: "'s MinIOStorage \<Rightarrow> ('s \<Rightarrow> bool) \<Rightarrow> ('s \<Rightarrow> bool) \<Rightarrow> ('s \<Rightarrow> string \<Rightarrow> bytes option) \<Rightarrow> bool" where
  "minio_ok ms good calm view \<longleftrightarrow>
     put_ok (ms_client ms) (ms_bucket ms) good calm view \<and> get_ok (ms_client ms) (ms_bucket ms) good calm view \<and>
     stat_ok (ms_client ms) (ms_bucket ms) good calm view \<and> del_ok (ms_client ms) (ms_bucket ms) good calm view \<and>
     list_ok (ms_client ms) (ms_bucket ms) good calm view \<and> seek_ok (ms_client ms)"

section \<open>Lemmas\<close>

lemma HasSuffix_slash: "HasSuffix p ''/'' \<Longrightarrow> \<exists>q. p = q @ [slash]"
  by (cases p rule: rev_cases) (simp_all add: HasSuffix_def HasPrefix_def)

lemma safe_path_no_suffix: "safe_path p \<Longrightarrow> \<not> HasSuffix p ''/''"
proof
  assume sp: "safe_path p" and "HasSuffix p ''/''"
  then obtain q where "p = q @ [slash]" using HasSuffix_slash by blast
  then have "Split slash p = Split slash q @ [[]]" by (simp add: Split_append_sep)
  with sp show False by (simp add: safe_path_def proper_name_def)
qed

lemma safe_path_valid [simp]: "safe_path p \<Longrightarrow> MS_ValidatePath p = Inr ()"
proof -
  assume sp: "safe_path p"
  have "TrimSuffix p ''/'' = p" using safe_path_no_suffix [OF sp] by (simp add: TrimSuffix_def)
  moreover have "\<not> list_ex (\<lambda>part. part = ''..'') (Split slash p)" using sp by (auto simp: safe_path_def list_all_iff list_ex_iff proper_name_def)
  moreover have "p \<noteq> []" using sp safe_path_nonempty by blast
  moreover have "\<not> HasPrefix p ''/''" using safe_path_hd [OF sp] \<open>p \<noteq> []\<close> by (cases p) (auto simp: HasPrefix_def)
  ultimately show ?thesis by (simp add: MS_ValidatePath_def)
qed

lemma safe_path_key [simp]: "safe_path p \<Longrightarrow> normalizeKey p = p"
  by (simp add: normalizeKey_def safe_path_Clean)

lemma ms_checked_safe [simp]: "safe_path p \<Longrightarrow> ms_checked p f s = f s"
  by (simp add: ms_checked_def)


lemma ms_wrap_Inr [simp]: "ms_wrap msg x = (Inr r, s) \<longleftrightarrow> x = (Inr r, s)"
  by (auto simp: ms_wrap_def split: prod.splits sum.splits)

lemma ms_wrap_Inl [simp]: "ms_wrap msg x = (Inl e, s) \<longleftrightarrow> (\<exists>e'. x = (Inl e', s) \<and> e = Wrapf msg e')"
  by (auto simp: ms_wrap_def split: prod.splits sum.splits)

lemma ReadAll_Inr [simp]: "ReadAll rd = Inr b \<longleftrightarrow> rd_err rd = None \<and> rd_data rd = b"
  by (auto simp: ReadAll_def split: option.splits)

text \<open>The hypotheses, one call at a time.\<close>

lemma put_ok_D:
  assumes "minio_ok ms good calm view" "good s" "- 1 \<le> n"
  shows "mc_PutObject (ms_client ms) (ms_bucket ms) key rd n s = (Inr (), s') \<Longrightarrow>
      good s' \<and> put_bytes n rd \<noteq> None \<and> view s' = (view s)(key := put_bytes n rd)"
    "mc_PutObject (ms_client ms) (ms_bucket ms) key rd n s = (Inl e, s') \<Longrightarrow> good s' \<and> view s' = view s"
    "calm s \<Longrightarrow> put_bytes n rd \<noteq> None \<Longrightarrow> \<exists>s'. mc_PutObject (ms_client ms) (ms_bucket ms) key rd n s = (Inr (), s') \<and> calm s'"
  using assms unfolding minio_ok_def put_ok_def by fastforce+

lemma put_bytes_all [simp]: "put_bytes (int (length (rd_data rd))) rd = Some (rd_data rd)"
  by (simp add: put_bytes_def)

lemma get_ok_D:
  assumes "minio_ok ms good calm view" "good s"
  shows "mc_GetObject (ms_client ms) (ms_bucket ms) key rng s = (r, s') \<Longrightarrow> good s' \<and> view s' = view s"
    "mc_GetObject (ms_client ms) (ms_bucket ms) key rng s = (Inr rd, s') \<Longrightarrow> rd_err rd = None \<or> rd_data rd \<noteq> [] \<Longrightarrow>
      \<exists>c t. view s key = Some c \<and> in_range rng c = rd_data rd @ t \<and> (rd_err rd = None \<longrightarrow> t = [])"
    "calm s \<Longrightarrow> view s key = Some c \<Longrightarrow> mc_GetObject (ms_client ms) (ms_bucket ms) key None s = (Inr \<lparr>rd_data = c, rd_err = None\<rparr>, s)"
    "calm s \<Longrightarrow> view s key = Some c \<Longrightarrow> 0 \<le> i \<Longrightarrow> i \<le> e \<Longrightarrow> i < int (length c) \<Longrightarrow>
      mc_GetObject (ms_client ms) (ms_bucket ms) key (Some (i, e)) s = (Inr \<lparr>rd_data = in_range (Some (i, e)) c, rd_err = None\<rparr>, s)"
  using assms unfolding minio_ok_def get_ok_def by simp_all (blast+)?

lemma set_range_D:
  assumes "minio_ok ms good calm view"
  shows "0 \<le> i \<Longrightarrow> i \<le> e \<Longrightarrow> mc_SetRange (ms_client ms) i e = Inr ()" "0 < i \<Longrightarrow> e < 0 \<Longrightarrow> \<exists>x. mc_SetRange (ms_client ms) i e = Inl x"
  using assms unfolding minio_ok_def get_ok_def by simp_all

lemma del_ok_D:
  assumes "minio_ok ms good calm view" "good s"
  shows "mc_RemoveObject (ms_client ms) (ms_bucket ms) key s = (Inr (), s') \<Longrightarrow> good s' \<and> view s' = (view s)(key := None)"
    "mc_RemoveObject (ms_client ms) (ms_bucket ms) key s = (Inl e, s') \<Longrightarrow> good s' \<and> view s' = view s"
    "calm s \<Longrightarrow> \<exists>s'. mc_RemoveObject (ms_client ms) (ms_bucket ms) key s = (Inr (), s') \<and> calm s'"
  using assms unfolding minio_ok_def del_ok_def by fastforce+

lemma stat_ok_D:
  assumes "minio_ok ms good calm view" "good s"
  shows "mc_StatObject (ms_client ms) (ms_bucket ms) key s = Inr n \<Longrightarrow> \<exists>c. view s key = Some c \<and> n = int (length c)"
    "calm s \<Longrightarrow> view s key = Some c \<Longrightarrow> mc_StatObject (ms_client ms) (ms_bucket ms) key s = Inr (int (length c))"
  using assms unfolding minio_ok_def stat_ok_def by blast+

text \<open>The range of a read ends where the read should end, or is refused.\<close>

lemma read_end:
  assumes "in_int64 n" "in_int64 k" "0 < n" "0 \<le> k"
  shows "wrap64 (wrap64 (k + n) - 1) = k + n - 1 \<or> (0 < k \<and> wrap64 (wrap64 (k + n) - 1) < 0)"
proof (cases "k + n - 1 \<le> max_int64")
  case True
  have "wrap64 (wrap64 (k + n) + - 1) = wrap64 (k + n + - 1)" by (rule wrap64_add_left)
  also have "\<dots> = k + n - 1" using True assms by (subst wrap64_id) (auto simp: in_int64_def min_int64_def)
  finally show ?thesis by simp
next
  case False
  have "wrap64 (wrap64 (k + n) + - 1) = wrap64 (k + n + - 1)" by (rule wrap64_add_left)
  also have "\<dots> < 0" using False assms by (intro wrap64_overflow) (auto simp: in_int64_def max_int64_def)
  finally show ?thesis using False assms by (auto simp: in_int64_def)
qed

lemma MS_ReadAt_view:
  assumes ok: "minio_ok ms good calm view" "good s" "safe_path p" "in_int64 n" "in_int64 k" and r: "MS_ReadAt ms p n k s = (r, s')"
  shows "good s' \<and> view s' = view s \<and> (\<forall>b. r = Inr b \<longrightarrow> (\<exists>c. view s p = Some c \<and> b = take (nat n) (drop (nat k) c)))"
proof (cases "0 < n \<and> 0 \<le> k")
  case False
  then have "\<exists>e. (r, s') = (Inl e, s)" using r ok(3) by (auto simp: MS_ReadAt_def split: if_splits)
  then show ?thesis using ok(2) by auto
next
  case pos: True
  let ?e = "wrap64 (wrap64 (k + n) - 1)"
  show ?thesis
  proof (cases "mc_SetRange (ms_client ms) k ?e")
    case (Inl x)
    then show ?thesis using r ok(2,3) pos by (auto simp: MS_ReadAt_def Let_def)
  next
    case (Inr u)
    have e: "?e = k + n - 1"
      using read_end [OF ok(4,5)] pos Inr set_range_D(2) [OF ok(1), of k ?e] by auto
    obtain q s1 where g: "mc_GetObject (ms_client ms) (ms_bucket ms) p (Some (k, k + n - 1)) s = (q, s1)" by fastforce
    from get_ok_D(1) [OF ok(1,2) g] have s1: "good s1 \<and> view s1 = view s" .
    show ?thesis
    proof (cases q)
      case (Inl x)
      then show ?thesis using r ok(3) pos Inr e g s1 by (auto simp: MS_ReadAt_def Let_def)
    next
      case (Inr obj)
      have res: "(r, s') = ms_wrap ''failed to read object range'' (ReadAll (LimitReader obj n), s1)"
        using r ok(3) pos \<open>mc_SetRange _ _ _ = Inr u\<close> e g Inr by (simp add: MS_ReadAt_def Let_def)
      have "\<exists>c. view s p = Some c \<and> b = take (nat n) (drop (nat k) c)" if b: "r = Inr b" for b
      proof -
        from res b have l: "rd_err (LimitReader obj n) = None" "b = take (nat n) (rd_data obj)"
          by (auto simp: LimitReader_def dest: sym)
        have "rd_err obj = None \<or> rd_data obj \<noteq> []" using l(1) pos by (auto simp: LimitReader_def split: if_splits)
        from get_ok_D(2) [OF ok(1,2) g [unfolded Inr] this] obtain c t where
          c: "view s p = Some c" "take (nat n) (drop (nat k) c) = rd_data obj @ t" "rd_err obj = None \<longrightarrow> t = []"
          by (auto simp: in_range_def)
        have "length (rd_data obj @ t) \<le> nat n" unfolding c(2) [symmetric] by simp
        then have "length (rd_data obj) + length t \<le> nat n" by simp
        then have "n \<le> int (length (rd_data obj)) \<Longrightarrow> length t = 0" by linarith
        then have "t = []" using l(1) c(3) by (auto simp: LimitReader_def split: if_splits)
        with c l(2) show ?thesis by (metis append_Nil2 min.idem take_take)
      qed
      moreover have "s' = s1" using res by (auto simp: ms_wrap_def split: sum.splits)
      ultimately show ?thesis using s1 by blast
    qed
  qed
qed


lemma MS_Rename_ok:
  assumes ok: "minio_ok ms good calm view" "good s" "safe_path p" "safe_path q" "p \<noteq> q" "view s p = Some b"
    and r: "MS_Rename ms p q s = (Inr (), s')"
  shows "good s' \<and> view s' = (view s)(p := None, q \<mapsto> b)"
proof -
  let ?cl = "ms_client ms" let ?b = "ms_bucket ms"
  obtain obj s1 where g: "mc_GetObject ?cl ?b p None s = (Inr obj, s1)"
    using r ok(3-5) by (auto simp: MS_Rename_def Let_def split: prod.splits sum.splits)
  obtain sz where t: "mc_StatObject ?cl ?b p s1 = Inr sz"
    using r ok(3-5) g by (auto simp: MS_Rename_def Let_def split: prod.splits sum.splits)
  obtain s2 where p: "mc_PutObject ?cl ?b q obj sz s1 = (Inr (), s2)" and d: "mc_RemoveObject ?cl ?b p s2 = (Inr (), s')"
    using r ok(3-5) g t by (auto simp: MS_Rename_def Let_def split: prod.splits sum.splits)
  from get_ok_D(1) [OF ok(1,2) g] have s1: "good s1" "view s1 = view s" by auto
  from stat_ok_D(1) [OF ok(1) s1(1) t] s1(2) ok(6) have sz: "sz = int (length b)" by auto
  from put_ok_D(1) [OF ok(1) s1(1) _ p] sz have put: "good s2" "put_bytes (int (length b)) obj \<noteq> None"
    "view s2 = (view s1)(q := put_bytes (int (length b)) obj)" by auto
  have len: "length b \<le> length (rd_data obj)" using put(2) by (auto simp: put_bytes_def split: if_splits)
  have "put_bytes (int (length b)) obj = Some b"
  proof (cases "b = []")
    case True
    then show ?thesis by (simp add: put_bytes_def)
  next
    case False
    with len have "rd_data obj \<noteq> []" by auto
    from get_ok_D(2) [OF ok(1,2) g disjI2 [OF this]] ok(6) obtain t where "b = rd_data obj @ t" by (auto simp: in_range_def)
    with len have "rd_data obj = b" by simp
    then show ?thesis by (simp add: put_bytes_def)
  qed
  with put(3) s1(2) have v: "view s2 = (view s)(q \<mapsto> b)" by simp
  from del_ok_D(1) [OF ok(1) put(1) d] v ok(5) show ?thesis by (simp add: fun_upd_twist)
qed

lemma minio_contract:
  fixes ms :: "'a fs_scheme MinIOStorage"
  assumes ok: "minio_ok ms good calm view"
  shows "object_storage (MinIO_adapter ms) good calm (\<lambda>_ _. True) view"
proof (unfold_locales, goal_cases)
  case (1 s p data s')
  then show ?case using put_ok_D(1) [OF ok 1(1), of "int (length data)" _ "\<lparr>rd_data = data, rd_err = None\<rparr>"] by (simp add: MinIO_adapter_def MS_Write_def put_bytes_def)
next
  case (2 s p data e s')
  then show ?case using put_ok_D(2) [OF ok 2(1), of "int (length data)"] by (auto simp: MinIO_adapter_def MS_Write_def)
next
  case (3 s p data)
  then show ?case using put_ok_D(3) [OF ok 3(1), of "int (length data)" "\<lparr>rd_data = data, rd_err = None\<rparr>"]
    by (simp add: MinIO_adapter_def MS_Write_def put_bytes_def)
next
  case (4 s p rd s')
  then obtain n where n: "mc_Seek (ms_client ms) rd = None \<and> n = - 1 \<or> mc_Seek (ms_client ms) rd = Some (Inr n)"
    and p: "mc_PutObject (ms_client ms) (ms_bucket ms) p rd n s = (Inr (), s')"
    by (auto simp: MinIO_adapter_def MS_WriteFromReader_def split: option.splits sum.splits)
  have "n = - 1 \<or> n = int (length (rd_data rd))" using n ok by (auto simp: minio_ok_def seek_ok_def)
  with put_ok_D(1) [OF ok 4(1) _ p] show ?case by (auto simp: put_bytes_def split: if_splits)
next
  case (5 s p rd)
  have "mc_Seek (ms_client ms) rd = None \<or> mc_Seek (ms_client ms) rd = Some (Inr (int (length (rd_data rd))))"
    using 5(5) ok unfolding minio_ok_def seek_ok_def by (metis option.exhaust sum.exhaust)
  then show ?case
    using put_ok_D(3) [OF ok 5(1), of "- 1" rd] put_ok_D(3) [OF ok 5(1), of "int (length (rd_data rd))" rd] 5
    by (auto simp: MinIO_adapter_def MS_WriteFromReader_def put_bytes_def)
next
  case (6 s p)
  then show ?case by simp
next
  case (7 s p b)
  then show ?case using get_ok_D(3) [OF ok 7(1,2,4)] by (simp add: MinIO_adapter_def MS_Read_def)
next
  case (8 s p r s')
  obtain q s1 where g: "mc_GetObject (ms_client ms) (ms_bucket ms) p None s = (q, s1)" by fastforce
  have r: "(r, s') = (case q of Inl e \<Rightarrow> (Inl (Wrapf ''failed to get object'' e), s1) | Inr obj \<Rightarrow> ms_wrap ''failed to read object'' (ReadAll obj, s1))"
    using 8(2,3) g by (auto simp: MinIO_adapter_def MS_Read_def split: sum.splits)
  have "s' = s1" using r by (auto simp: ms_wrap_def split: sum.splits)
  moreover have "view s p = Some b" if "r = Inr b" for b
  proof -
    from r that obtain obj where "q = Inr obj" "rd_err obj = None" "rd_data obj = b"
      by (cases q) (auto dest: sym)
    with get_ok_D(2) [OF ok 8(1), of p None obj s1] g show ?thesis by (auto simp: in_range_def)
  qed
  ultimately show ?case using get_ok_D(1) [OF ok 8(1) g] by blast
next
  case (9 s p n k r s')
  then show ?case using MS_ReadAt_view [OF ok 9(1-4), of r s'] by (simp add: MinIO_adapter_def)
next
  case (10 s p c n k)
  have e: "wrap64 (wrap64 (k + n) - 1) = k + n - 1"
    using wrap64_add_left [of "k + n" "- 1"] 10 by (simp add: wrap64_id in_int64_def min_int64_def)
  have g: "mc_GetObject (ms_client ms) (ms_bucket ms) p (Some (k, k + n - 1)) s = (Inr \<lparr>rd_data = in_range (Some (k, k + n - 1)) c, rd_err = None\<rparr>, s)"
    using 10 by (intro get_ok_D(4) [OF ok]) auto
  have "mc_SetRange (ms_client ms) k (k + n - 1) = Inr ()" using 10 by (intro set_range_D(1) [OF ok]) auto
  then show ?case using 10 e g by (simp add: MinIO_adapter_def MS_ReadAt_def Let_def LimitReader_def in_range_def)
next
  case (11 s p b)
  then show ?case using stat_ok_D(2) [OF ok 11(1,2,4)] by (simp add: MinIO_adapter_def MS_GetSize_def)
next
  case (12 s p s')
  then show ?case using del_ok_D(1) [OF ok 12(1)] by (simp add: MinIO_adapter_def MS_Remove_def)
next
  case (13 s p e s')
  then show ?case using del_ok_D(2) [OF ok 13(1)] by (auto simp: MinIO_adapter_def MS_Remove_def)
next
  case (14 s p)
  then show ?case using del_ok_D(3) [OF ok 14(1,2)] by (simp add: MinIO_adapter_def MS_Remove_def)
next
  case (15 s p q b s')
  then show ?case using MS_Rename_ok [OF ok 15(1-5)] by (simp add: MinIO_adapter_def)
next
  case (16 s p q)
  then obtain b where b: "view s p = Some b" by blast
  have g: "mc_GetObject (ms_client ms) (ms_bucket ms) p None s = (Inr \<lparr>rd_data = b, rd_err = None\<rparr>, s)" by (rule get_ok_D(3) [OF ok 16(1,2) b])
  have t: "mc_StatObject (ms_client ms) (ms_bucket ms) p s = Inr (int (length b))" by (rule stat_ok_D(2) [OF ok 16(1,2) b])
  obtain s2 where s2: "mc_PutObject (ms_client ms) (ms_bucket ms) q \<lparr>rd_data = b, rd_err = None\<rparr> (int (length b)) s = (Inr (), s2)" "calm s2"
    using put_ok_D(3) [OF ok 16(1), of "int (length b)" "\<lparr>rd_data = b, rd_err = None\<rparr>" q] 16(2) by (auto simp: put_bytes_def)
  have "good s2" using put_ok_D(1) [OF ok 16(1) _ s2(1)] by simp
  from del_ok_D(3) [OF ok this s2(2)] obtain s3 where "mc_RemoveObject (ms_client ms) (ms_bucket ms) p s2 = (Inr (), s3)" "calm s3" by blast
  then show ?case using 16 g t s2 by (cases "p = q") (auto simp: MinIO_adapter_def MS_Rename_def Let_def)
qed


section \<open>Directories\<close>

lemma remove_objects_exact:
  assumes ok: "minio_ok ms good calm view" and "good s" and "remove_objects ms os s = (r, s')"
  shows "good s' \<and> (\<forall>k. view s' k = view s k \<or> (view s' k = None \<and> Inr k \<in> set os)) \<and> (r = Inr () \<longrightarrow> (\<forall>k. Inr k \<in> set os \<longrightarrow> view s' k = None))"
  using assms(2,3)
proof (induction os arbitrary: s)
  case (Cons x os)
  show ?case
  proof (cases x)
    case (Inl e)
    with Cons.prems show ?thesis by auto
  next
    case (Inr k)
    obtain q s1 where d: "mc_RemoveObject (ms_client ms) (ms_bucket ms) k s = (q, s1)" by fastforce
    show ?thesis
    proof (cases q)
      case Inl': (Inl e)
      with del_ok_D(2) [OF ok Cons.prems(1), of k e s1] d Inr Cons.prems show ?thesis by auto
    next
      case Inr': (Inr u)
      with d have s1: "good s1" "view s1 = (view s)(k := None)" using del_ok_D(1) [OF ok Cons.prems(1), of k s1] by auto
      have "remove_objects ms os s1 = (r, s')" using Cons.prems(2) Inr d Inr' by simp
      from Cons.IH [OF s1(1) this]
      have ih: "good s'" "\<And>j. view s' j = view s1 j \<or> (view s' j = None \<and> Inr j \<in> set os)"
        "\<And>j. r = Inr () \<Longrightarrow> Inr j \<in> set os \<Longrightarrow> view s' j = None" by auto
      have gone: "view s' k = None" using ih(2) [of k] s1(2) by auto
      show ?thesis
      proof (intro conjI allI impI)
        fix j show "view s' j = view s j \<or> (view s' j = None \<and> Inr j \<in> set (x # os))" using ih(2) [of j] s1(2) gone Inr by (cases "j = k") auto
      next
        fix j assume "r = Inr ()" "Inr j \<in> set (x # os)"
        then show "view s' j = None" using ih(3) [of j] gone Inr by auto
      qed (rule ih(1))
    qed
  qed
qed auto

text \<open>Removing a directory touches nothing outside it and, when it succeeds, leaves nothing in it.\<close>

lemma MS_RemoveDirectory_exact:
  assumes ok: "minio_ok ms good calm view" and g: "good s" and p: "safe_path p" and r: "MS_RemoveDirectory ms p s = (r, s')"
  shows "good s' \<and> (\<forall>k. \<not> HasPrefix k (p @ ''/'') \<longrightarrow> view s' k = view s k) \<and> (r = Inr () \<longrightarrow> (\<forall>k. HasPrefix k (p @ ''/'') \<longrightarrow> view s' k = None))"
proof -
  let ?os = "mc_ListObjects (ms_client ms) (ms_bucket ms) (p @ ''/'') True s"
  have "dir_key p = p @ ''/''" using p safe_path_no_suffix [OF p] by (simp add: dir_key_def)
  with r p have rm: "remove_objects ms ?os s = (r, s')" by (simp add: MS_RemoveDirectory_def)
  note ex = remove_objects_exact [OF ok g rm]
  have below: "HasPrefix k (p @ ''/'')" if "Inr k \<in> set ?os" for k using ok g that by (auto simp: minio_ok_def list_ok_def)
  have noerr: "Inl e \<notin> set os" if "remove_objects ms os t = (Inr (), t')" for e os t t'
    using that by (induction ms os t rule: remove_objects.induct) (auto split: prod.splits sum.splits)
  have "view s' k = None" if "r = Inr ()" "HasPrefix k (p @ ''/'')" for k
  proof (cases "view s k = None")
    case True
    with ex show ?thesis by metis
  next
    case False
    with ok g that noerr rm have "Inr k \<in> set ?os" by (auto simp: minio_ok_def list_ok_def)
    with ex that show ?thesis by blast
  qed
  with ex below show ?thesis by metis
qed

section \<open>Renames\<close>

text \<open>A rename copies and removes.  When the second request fails the error comes too late: both keys
  have the object.\<close>

lemma minio_rename_leaves_copy:
  assumes ok: "minio_ok ms good calm view" "good s" "safe_path p" "safe_path q" "p \<noteq> q" "view s p = Some b"
    and r: "mc_GetObject (ms_client ms) (ms_bucket ms) p None s = (Inr \<lparr>rd_data = b, rd_err = None\<rparr>, s)"
      "mc_StatObject (ms_client ms) (ms_bucket ms) p s = Inr (int (length b))"
      "mc_PutObject (ms_client ms) (ms_bucket ms) q \<lparr>rd_data = b, rd_err = None\<rparr> (int (length b)) s = (Inr (), s2)"
      "mc_RemoveObject (ms_client ms) (ms_bucket ms) p s2 = (Inl e, s3)"
  shows "\<exists>e'. MS_Rename ms p q s = (Inl e', s3) \<and> view s3 p = Some b \<and> view s3 q = Some b"
proof -
  have s2: "good s2" "view s2 = (view s)(q \<mapsto> b)" using put_ok_D(1) [OF ok(1,2) _ r(3)] by (auto simp: put_bytes_def)
  have "view s3 = view s2" using del_ok_D(2) [OF ok(1) s2(1) r(4)] by simp
  with s2(2) ok(5,6) r ok(3,4) show ?thesis by (auto simp: MS_Rename_def Let_def ms_wrap_def)
qed

section \<open>Files in the object store\<close>


text \<open>A bucket in memory.\<close>

record bucket_fs = fs +
  bk_objects :: "(string \<times> bytes) list"

definition mem_client :: "bucket_fs minio_client" where
  "mem_client =
     \<lparr>mc_BucketExists = (\<lambda>b s. (Inr True, s)), mc_MakeBucket = (\<lambda>b s. (Inr (), s)),
      mc_PutObject = (\<lambda>b key rd n s. case put_bytes n rd of
         None \<Rightarrow> (Inl (Ext ''unexpected EOF''), s) | Some d \<Rightarrow> (Inr (), s\<lparr>bk_objects := AList.update key d (bk_objects s)\<rparr>)),
      mc_FPutObject = (\<lambda>b key path s. case os_Stat path s of
         Inr (FFile d) \<Rightarrow> (Inr (), s\<lparr>bk_objects := AList.update key d (bk_objects s)\<rparr>) | _ \<Rightarrow> (Inl ErrNotExist, s)),
      mc_SetRange = (\<lambda>i e. if (i = 0 \<and> e < 0) \<or> (0 < i \<and> e = 0) \<or> (0 \<le> i \<and> i \<le> e) then Inr () else Inl (Ext ''Invalid range'')),
      mc_GetObject = (\<lambda>b key rng s. case map_of (bk_objects s) key of
         None \<Rightarrow> (Inl NoSuchKey, s) | Some c \<Rightarrow> (Inr \<lparr>rd_data = in_range rng c, rd_err = None\<rparr>, s)),
      mc_StatObject = (\<lambda>b key s. case map_of (bk_objects s) key of None \<Rightarrow> Inl NoSuchKey | Some c \<Rightarrow> Inr (int (length c))),
      mc_RemoveObject = (\<lambda>b key s. (Inr (), s\<lparr>bk_objects := AList.delete key (bk_objects s)\<rparr>)),
      mc_ListObjects = (\<lambda>b pre r s. map (\<lambda>kv. Inr (fst kv)) (filter (\<lambda>kv. HasPrefix (fst kv) pre) (bk_objects s))),
      mc_Seek = (\<lambda>_. None)\<rparr>"

lemma mem_client_ok: "minio_ok \<lparr>ms_client = mem_client, ms_bucket = b\<rparr> (\<lambda>_. True) (\<lambda>_. True) (\<lambda>s. map_of (bk_objects s))"
proof -
  let ?t = "\<lambda>_ :: bucket_fs. True" let ?v = "\<lambda>s :: bucket_fs. map_of (bk_objects s)"
  have "put_ok mem_client b ?t ?t ?v" by (auto simp: put_ok_def mem_client_def update_conv' split: option.splits)
  moreover have "get_ok mem_client b ?t ?t ?v" by (auto simp: get_ok_def mem_client_def in_range_def split: option.splits)
  moreover have "stat_ok mem_client b ?t ?t ?v" by (auto simp: stat_ok_def mem_client_def split: option.splits)
  moreover have "del_ok mem_client b ?t ?t ?v" by (auto simp: del_ok_def mem_client_def delete_conv')
  moreover have "list_ok mem_client b ?t ?t ?v" by (force simp: list_ok_def mem_client_def dest: map_of_SomeD)
  moreover have "seek_ok mem_client" by (simp add: seek_ok_def mem_client_def)
  ultimately show ?thesis by (simp add: minio_ok_def)
qed


end
