(* ===== verification/Startup.thy ===== *)
theory Startup
  imports Database Schema Redis Discovery Minio Multipart_Integrity Directory_Manager
begin

text \<open>
  \<open>src/cmd/fsserver/main.go\<close>: how the parts are chosen and started from the configuration.
  \<open>main_start\<close> is \<open>main\<close> up to the point where the servers are built, every call of
  \<open>os.Exit(1)\<close> being an error result; what the libraries give it is the argument
  \<open>main_env\<close>, and the world holds the file system, the database, and the states of the
  connections to Redis and etcd.
\<close>

section \<open>The surroundings\<close>

record ('a, 'p, 't, 's, 'r, 'e) main_env =
  me_readFile :: "string \<Rightarrow> bytes res"
  me_unmarshal :: "bytes \<Rightarrow> Config \<Rightarrow> Config res"
  me_zero :: Config
    \<comment> \<open>\<open>config.Config{}\<close>\<close>
  me_logger :: "LoggingConfig \<Rightarrow> unit res"
  me_driver :: "('p, 't) sql_driver"
  me_migration :: start_env
  me_minio :: "MinIOStorageConfig \<Rightarrow> ('a fs_scheme) minio_client res"
  me_redisServer :: "'r redis_server"
  me_redis :: "RedisConfig \<Rightarrow> ('s, 'r) redis_client"
  me_etcd :: "string list \<Rightarrow> 'e etcd_client res"
  me_json :: "ServiceInstance codec"
  me_hostname :: string
  me_scrypt :: "bytes \<Rightarrow> bytes \<Rightarrow> bytes res"
  me_hashApiKey :: "string \<Rightarrow> string"
  me_nowText :: string
  me_nanos :: string
    \<comment> \<open>\<open>time.Now().UnixNano()\<close>, in decimal\<close>
  me_upload :: "UploadSession codec"
  me_download :: "DownloadSession codec"
  me_multipart :: "multipart_info codec"

record ('f, 's, 'e) world =
  wd_fs :: 'f
  wd_mig :: "schema mig_db"
  wd_redis :: 's
  wd_etcd :: 'e

section \<open>The steps of main\<close>

definition choose_storage ::
  "(MinIOStorageConfig \<Rightarrow> ('a fs_scheme) minio_client res) \<Rightarrow> StorageConfig \<Rightarrow> 'a fs_scheme
    \<Rightarrow> ('a fs_scheme) StorageAdapter res \<times> 'a fs_scheme"
where
  "choose_storage newClient st f =
     (if stc_Type st = ''minio'' then
        (case NewMinIOStorage (newClient (stc_MinIO st)) (mc_Bucket (stc_MinIO st)) f of
           (Inl e, f1) \<Rightarrow> (Inl e, f1)
         | (Inr ms, f1) \<Rightarrow> (Inr (MinIO_adapter ms), f1))
      else
        (case os_MkdirAll (lsc_RootDir (stc_Local st)) f of
           (Inl e, f1) \<Rightarrow> (Inl e, f1)
         | (Inr _, f1) \<Rightarrow> (Inr (NewLocalStorage (lsc_RootDir (stc_Local st))), f1)))"

fun remove_orphans :: "string \<Rightarrow> string list \<Rightarrow> 'a fs_scheme \<Rightarrow> 'a fs_scheme" where
  "remove_orphans tempDir [] f = f"
| "remove_orphans tempDir (name # names) f =
     remove_orphans tempDir names
       (if HasPrefix name ''fsserver-uploads-'' then snd (os_RemoveAll (path_Join [tempDir, name]) f) else f)"

definition clean_orphans :: "'a fs_scheme \<Rightarrow> 'a fs_scheme" where
  "clean_orphans f =
     remove_orphans (fs_tmp f) (case os_ReadDir (fs_tmp f) f of Inl e \<Rightarrow> [] | Inr names \<Rightarrow> names) f"

text \<open>Locks and sessions: in the process, or through a connection to Redis.\<close>

datatype ('s, 'r) coordination = InProcess | ThroughRedis "('s, 'r) redis_client"

definition choose_coordination ::
  "(RedisConfig \<Rightarrow> ('s, 'r) redis_client) \<Rightarrow> RedisConfig \<Rightarrow> 's \<Rightarrow> ('s, 'r) coordination res \<times> 's"
where
  "choose_coordination newClient r s =
     (if rc_Enabled r then
        (case NewRedisManager (newClient r) s of
           (Inl e, s1) \<Rightarrow> (Inl e, s1)
         | (Inr c, s1) \<Rightarrow> (Inr (ThroughRedis c), s1))
      else (Inr InProcess, s))"

definition start_etcd ::
  "(string list \<Rightarrow> 'e etcd_client res) \<Rightarrow> EtcdConfig \<Rightarrow> 'e EtcdManager option res"
where
  "start_etcd newClient ec =
     (if ec_Enabled ec then
        (case NewEtcdManager (newClient (ec_Endpoints ec)) (ec_Prefix ec) of Inl e \<Rightarrow> Inl e | Inr m \<Rightarrow> Inr (Some m))
      else Inr None)"

definition this_instance :: "string \<Rightarrow> ServerConfig \<Rightarrow> ServiceInstance" where
  "this_instance hostname sc =
     \<lparr>si_ID = hostname @ ''-'' @ itoa (sc_HTTPPort sc), si_Name = ''fsserver'', si_Address = hostname,
      si_Port = sc_HTTPPort sc, si_Metadata = [''grpc_port'' \<mapsto> itoa (sc_GRPCPort sc)]\<rparr>"

definition start_discovery ::
  "(string list \<Rightarrow> 'e etcd_client res) \<Rightarrow> ServiceInstance codec \<Rightarrow> string \<Rightarrow> Config \<Rightarrow> 'e
    \<Rightarrow> 'e ServiceDiscovery option res \<times> 'e"
where
  "start_discovery newClient cd hostname cfg s =
     (if dsc_Enabled (cfg_Discovery cfg) then
        (case NewServiceDiscovery (newClient (ec_Endpoints (cfg_Etcd cfg))) (ec_Prefix (cfg_Etcd cfg))
                (dsc_Interval (cfg_Discovery cfg)) of
           Inl e \<Rightarrow> (Inl e, s)
         | Inr d \<Rightarrow>
             (case SD_Register cd d (this_instance hostname (cfg_Server cfg)) s of
                (Inl e, s1) \<Rightarrow> (Inl e, s1)
              | (Inr _, s1) \<Rightarrow> (Inr (Some d), s1)))
      else (Inr None, s))"

definition start_crypto ::
  "(bytes \<Rightarrow> bytes \<Rightarrow> bytes res) \<Rightarrow> CryptoConfig \<Rightarrow> 'a fs_scheme \<Rightarrow> CryptoService res \<times> 'a fs_scheme"
where
  "start_crypto scrypt cy f =
     (let use = (\<lambda>key f1. case Init scrypt key NewCryptoService of
            (Inl e, cs) \<Rightarrow> (Inl e, f1)
          | (Inr _, cs) \<Rightarrow> (Inr cs, f1))
      in if cyc_Enabled cy then
           if cyc_KeyFile cy \<noteq> [] then
             (case os_ReadFile (cyc_KeyFile cy) f of (Inl e, f1) \<Rightarrow> (Inl e, f1) | (Inr keyData, f1) \<Rightarrow> use keyData f1)
           else use (cyc_Passphrase cy) f
         else (Inr NewCryptoService, f))"

datatype ('s, 'r) cache_choice = NoCache | MemoryCache int int | SharedCache "('s, 'r) redis_client" int

definition choose_cache ::
  "(RedisConfig \<Rightarrow> ('s, 'r) redis_client) \<Rightarrow> Config \<Rightarrow> ('s, 'r) cache_choice"
where
  "choose_cache newClient cfg =
     (let cc = cfg_Cache cfg
      in if cc_Enabled cc then
           if cc_Type cc = ''redis'' \<and> rc_Enabled (cfg_Redis cfg) then SharedCache (newClient (cfg_Redis cfg)) (cc_TTL cc)
           else MemoryCache (cc_TTL cc) (cc_MaxSize cc)
         else NoCache)"

section \<open>The services\<close>

record ('a, 'ss, 'l) services =
  sr_fm :: "('a fs_scheme, 'l) FileManager"
  sr_dirSvc :: "('a fs_scheme, 'l) DirectoryManager"
  sr_transferSvc :: "('a, 'ss, 'l) FileTransferService"

definition NewFileManagerWithDistLock :: "'f StorageAdapter \<Rightarrow> 'l DistributedLock \<Rightarrow> ('f, 'l) FileManager" where
  "NewFileManagerWithDistLock st dl = \<lparr>fmg_storage = st, fmg_distLock = dl\<rparr>"

definition NewDirectoryManagerWithDistLock :: "'f StorageAdapter \<Rightarrow> 'l DistributedLock \<Rightarrow> ('f, 'l) DirectoryManager" where
  "NewDirectoryManagerWithDistLock st dl = \<lparr>dmg_store = Some st, dmg_distLock = Some dl\<rparr>"

definition start_services ::
  "'a fs_scheme StorageAdapter \<Rightarrow> string \<Rightarrow> ('ss, UploadSession) SessionStore \<Rightarrow> ('ss, DownloadSession) SessionStore
    \<Rightarrow> ('ss, multipart_info) SessionStore \<Rightarrow> 'l DistributedLock \<Rightarrow> CryptoService \<Rightarrow> string \<Rightarrow> 'a fs_scheme
    \<Rightarrow> ('a, 'ss, 'l) services res \<times> 'a fs_scheme"
where
  "start_services st nanos us ds ms dl cs tempDir f =
     (case NewFileTransferServiceWithRedis st nanos us ds ms dl f of (svc0, f1) \<Rightarrow>
      let svc1 = SetCryptoService cs svc0;
          with_transfer = (\<lambda>svc. \<lparr>sr_fm = NewFileManagerWithDistLock st dl,
            sr_dirSvc = NewDirectoryManagerWithDistLock st dl, sr_transferSvc = svc\<rparr>)
      in if tempDir \<noteq> [] then
           (case SetTempDir tempDir f1 svc1 of
              (Inl e, f2, svc2) \<Rightarrow> (Inl e, f2)
            | (Inr _, f2, svc2) \<Rightarrow> (Inr (with_transfer svc2), f2))
         else (Inr (with_transfer svc1), f1))"

text \<open>The state of the session store and of the lock is in this process or in Redis.\<close>

datatype ('a, 's) wired_services =
    LocalServices "('a, MemorySessionStore, locks) services"
  | RedisServices "('a, 's, 's) services"

definition wire_services ::
  "('a, 'p, 't, 's, 'r, 'e) main_env \<Rightarrow> ('s, 'r) coordination \<Rightarrow> 'a fs_scheme StorageAdapter \<Rightarrow> CryptoService
    \<Rightarrow> string \<Rightarrow> 'a fs_scheme \<Rightarrow> ('a, 's) wired_services res \<times> 'a fs_scheme"
where
  "wire_services env coord st cs tempDir f =
     (case coord of
        InProcess \<Rightarrow>
          (case start_services st (me_nanos env) (MemStore (me_upload env)) (MemStore (me_download env))
                  (MemStore (me_multipart env)) LocalDistributedLock cs tempDir f of
             (Inl e, f1) \<Rightarrow> (Inl e, f1)
           | (Inr s, f1) \<Rightarrow> (Inr (LocalServices s), f1))
      | ThroughRedis c \<Rightarrow>
          (case start_services st (me_nanos env) (RedisSessionStore c (me_upload env)) (RedisSessionStore c (me_download env))
                  (RedisSessionStore c (me_multipart env)) (RedisDistributedLock (me_redisServer env) c) cs tempDir f of
             (Inl e, f1) \<Rightarrow> (Inl e, f1)
           | (Inr s, f1) \<Rightarrow> (Inr (RedisServices s), f1)))"

section \<open>main\<close>

record ('a, 'p, 't, 's, 'r, 'e) started =
  su_cfg :: Config
  su_db :: "('p, 't) Database"
  su_store :: "'a fs_scheme StorageAdapter"
  su_coord :: "('s, 'r) coordination"
  su_etcd :: "'e EtcdManager option"
  su_discovery :: "'e ServiceDiscovery option"
  su_consistency :: "ConsistencyManager option"
  su_auth :: "db AuthService"
  su_crypto :: CryptoService
  su_cache :: "('s, 'r) cache_choice"
  su_services :: "('a, 's) wired_services"
  su_grpc :: bool

definition load_config :: "('a, 'p, 't, 's, 'r, 'e) main_env \<Rightarrow> string list \<Rightarrow> Config res" where
  "load_config env args =
     (let configPath = (case args of [] \<Rightarrow> ''config.yaml'' | a # _ \<Rightarrow> a)
      in case Load (me_readFile env) (me_unmarshal env) configPath (me_zero env) of
           Inl e \<Rightarrow> Inl e
         | Inr c \<Rightarrow> (case Validate c of (Inl e, c1) \<Rightarrow> Inl e | (Inr _, c1) \<Rightarrow> Inr c1))"

definition main_start ::
  "('a, 'p, 't, 's, 'r, 'e) main_env \<Rightarrow> string list \<Rightarrow> ('a fs_scheme, 's, 'e) world
    \<Rightarrow> ('a, 'p, 't, 's, 'r, 'e) started res \<times> ('a fs_scheme, 's, 'e) world"
where
  "main_start env args w =
     (case load_config env args of
        Inl e \<Rightarrow> (Inl e, w)
      | Inr cfg \<Rightarrow>
     (case me_logger env (cfg_Logging cfg) of
        Inl e \<Rightarrow> (Inl e, w)
      | Inr _ \<Rightarrow>
     (case Connect (me_driver env) (cfg_Database cfg) (NewDatabase, wd_fs w) of
        (Inl e, d, f1) \<Rightarrow> (Inl e, w\<lparr>wd_fs := f1\<rparr>)
      | (Inr _, d, f1) \<Rightarrow>
     (case start_run (me_migration env) (wd_mig w) of
        (Inl e, m1) \<Rightarrow> (Inl e, w\<lparr>wd_fs := f1, wd_mig := m1\<rparr>)
      | (Inr _, m1) \<Rightarrow>
     (case choose_storage (me_minio env) (cfg_Storage cfg) f1 of
        (Inl e, f2) \<Rightarrow> (Inl e, w\<lparr>wd_fs := f2, wd_mig := m1\<rparr>)
      | (Inr store, f2) \<Rightarrow>
     (let f3 = clean_orphans f2
      in case choose_coordination (me_redis env) (cfg_Redis cfg) (wd_redis w) of
        (Inl e, s1) \<Rightarrow> (Inl e, w\<lparr>wd_fs := f3, wd_mig := m1, wd_redis := s1\<rparr>)
      | (Inr coord, s1) \<Rightarrow>
     (case start_etcd (me_etcd env) (cfg_Etcd cfg) of
        Inl e \<Rightarrow> (Inl e, w\<lparr>wd_fs := f3, wd_mig := m1, wd_redis := s1\<rparr>)
      | Inr em \<Rightarrow>
     (case start_discovery (me_etcd env) (me_json env) (me_hostname env) cfg (wd_etcd w) of
        (Inl e, e1) \<Rightarrow> (Inl e, w\<lparr>wd_fs := f3, wd_mig := m1, wd_redis := s1, wd_etcd := e1\<rparr>)
      | (Inr disc, e1) \<Rightarrow>
     (case start_consistency (cfg_Consistency cfg) of
        Inl e \<Rightarrow> (Inl e, w\<lparr>wd_fs := f3, wd_mig := m1, wd_redis := s1, wd_etcd := e1\<rparr>)
      | Inr cons \<Rightarrow>
     (case start_crypto (me_scrypt env) (cfg_Crypto cfg) f3 of
        (Inl e, f4) \<Rightarrow> (Inl e, w\<lparr>wd_fs := f4, wd_mig := m1, wd_redis := s1, wd_etcd := e1\<rparr>)
      | (Inr cs, f4) \<Rightarrow>
     (case wire_services env coord store cs (stc_TempDir (cfg_Storage cfg)) f4 of
        (Inl e, f5) \<Rightarrow> (Inl e, w\<lparr>wd_fs := f5, wd_mig := m1, wd_redis := s1, wd_etcd := e1\<rparr>)
      | (Inr services, f5) \<Rightarrow>
          (Inr \<lparr>su_cfg = cfg, su_db = d, su_store = store, su_coord = coord, su_etcd = em, su_discovery = disc,
                su_consistency = cons, su_auth = start_auth (me_hashApiKey env) (me_nowText env) (cfg_Auth cfg),
                su_crypto = cs, su_cache = choose_cache (me_redis env) cfg, su_services = services,
                su_grpc = sc_GRPCEnabled (cfg_Server cfg)\<rparr>,
           w\<lparr>wd_fs := f5, wd_mig := m1, wd_redis := s1, wd_etcd := e1\<rparr>))))))))))))"

section \<open>Files survive a start\<close>

text \<open>The trees that \<open>clean_orphans\<close> may remove; \<open>te\<close> are the elements of the path of the
  temp directory.\<close>

definition orphan :: "string list \<Rightarrow> string list \<Rightarrow> bool" where
  "orphan te k \<longleftrightarrow> (\<exists>name. HasPrefix name ''fsserver-uploads-'' \<and> proper_name name \<and> starts_with (te @ [name]) k)"

definition fs_proper :: "'a fs_scheme \<Rightarrow> bool" where
  "fs_proper f \<longleftrightarrow> (\<forall>(j, m) \<in> set (fs_nodes f). list_all proper_name j)"

text \<open>\<open>keeps te f g\<close>: files outside those trees are still there.\<close>

definition keeps :: "string list \<Rightarrow> 'a fs_scheme \<Rightarrow> 'a fs_scheme \<Rightarrow> bool" where
  "keeps te f g \<longleftrightarrow> fs_tmp g = fs_tmp f \<and> (fs_proper f \<longrightarrow> fs_proper g) \<and>
     (\<forall>k b. fs_get f k = Some (FFile b) \<longrightarrow> \<not> orphan te k \<longrightarrow> fs_get g k = Some (FFile b))"

lemma keeps_refl [simp]: "keeps te f f"
  by (simp add: keeps_def)

lemma keeps_trans [trans]: "keeps te f g \<Longrightarrow> keeps te g h \<Longrightarrow> keeps te f h"
  by (simp add: keeps_def)

lemma keeps_pop [simp]: "keeps te f (snd (fs_pop f))"
  by (simp add: keeps_def fs_proper_def)

lemma clean_elems_rooted:
  "list_all proper_name out \<Longrightarrow> list_all (\<lambda>e. slash \<notin> set e) es \<Longrightarrow> list_all proper_name (clean_elems True out es)"
proof (induction es arbitrary: out)
  case (Cons e es)
  show ?case
  proof (cases "e = [] \<or> e = ''.'' \<or> e = ''..''")
    case True
    with Cons show ?thesis by (cases out) (auto simp: proper_name_def)
  next
    case False
    then have "proper_name e" using Cons.prems(2) by (simp add: proper_name_def)
    with False Cons show ?thesis by simp
  qed
qed (simp add: list_all_iff)

lemma fs_key_proper: "list_all proper_name (fs_key f p)"
  unfolding fs_key_def
  by (rule clean_elems_rooted) (auto simp: list_all_iff dest: Split_parts_no_sep split: option.splits)

lemma set_update_subset: "set (AList.update k v al) \<subseteq> insert (k, v) (set al)"
  by (induction al) auto

lemma mkdir_each_keeps: "\<forall>k \<in> set ks. list_all proper_name k \<Longrightarrow> keeps te f (snd (mkdir_each ks f))"
proof (induction ks arbitrary: f)
  case (Cons k ks)
  have "keeps te f (fs_put k FDir f)" if "fs_get f k = None"
  proof -
    have "k \<noteq> []" using that by (auto simp: fs_get_def)
    moreover have "set (fs_nodes (fs_put k FDir f)) \<subseteq> insert (k, FDir) (set (fs_nodes f))"
      by (simp add: fs_put_def set_update_subset)
    ultimately show ?thesis using that Cons.prems by (fastforce simp: keeps_def fs_proper_def)
  qed
  then have "keeps te f (snd (mkdir_each ks (fs_put k FDir f)))" if "fs_get f k = None"
    using keeps_trans [of te f "fs_put k FDir f"] Cons that by simp
  with Cons show ?case by (simp split: option.split fnode.split)
qed simp

lemma MkdirAll_keeps:
  assumes "os_MkdirAll p f = (r, g)"
  shows "keeps te f g"
proof -
  have "\<forall>k \<in> set (map (\<lambda>i. take i (fs_key f p)) [1..<Suc (length (fs_key f p))]). list_all proper_name k"
    using fs_key_proper [of f p] by (auto simp: list_all_iff dest: in_set_takeD)
  from mkdir_each_keeps [OF this, of te f] assms show ?thesis by (simp add: os_MkdirAll_def Let_def)
qed

lemma orphan_key:
  assumes "list_all proper_name te" and "proper_name name"
  shows "fs_key f (path_Join [abs_of te, name]) = te @ [name]"
proof -
  have "slash \<notin> set name" using assms(2) by (simp add: proper_name_def)
  then have "Split slash name = [name]" by (rule Split_no_sep)
  with Join_abs_of [OF assms(1), of name] assms show ?thesis by (simp add: safe_path_def list_all_append)
qed

lemma RemoveAll_keeps:
  assumes te: "list_all proper_name te" and name: "HasPrefix name ''fsserver-uploads-''" "proper_name name"
  shows "keeps te f (snd (os_RemoveAll (path_Join [abs_of te, name]) f))"
proof -
  obtain flt g where g: "fs_pop f = (flt, g)" by fastforce
  have same: "fs_get g = fs_get f" "fs_tmp g = fs_tmp f" "fs_nodes g = fs_nodes f"
    using fs_pop_fields [of f] g by auto
  let ?k = "te @ [name]"
  let ?h = "g\<lparr>fs_nodes := filter (\<lambda>(j, m). \<not> starts_with ?k j) (fs_nodes g)\<rparr>"
  have "map_of (filter (\<lambda>(j, m). \<not> starts_with ?k j) ns) j = (if starts_with ?k j then None else map_of ns j)"
    for ns :: "(string list \<times> fnode) list" and j
    by (induction ns) auto
  then have "fs_get ?h j = fs_get f j" if "\<not> orphan te j" for j
    using that name same by (auto simp: fs_get_def orphan_def)
  then have "keeps te f ?h" using same by (auto simp: keeps_def fs_proper_def)
  moreover have "keeps te f g" using same by (simp add: keeps_def fs_proper_def)
  ultimately show ?thesis
    by (auto simp: os_RemoveAll_def g orphan_key [OF te name(2)] Let_def split: option.split io_fault.split)
qed

lemma remove_orphans_keeps:
  assumes "list_all proper_name te" and "list_all proper_name names"
  shows "keeps te f g \<Longrightarrow> keeps te f (remove_orphans (abs_of te) names g)"
  using assms(2)
proof (induction names arbitrary: g)
  case (Cons name names)
  then have "keeps te f (snd (os_RemoveAll (path_Join [abs_of te, name]) g))" if "HasPrefix name ''fsserver-uploads-''"
    using RemoveAll_keeps [OF assms(1) that, of g] keeps_trans [OF Cons.prems(1)] by simp
  with Cons show ?case by simp
qed simp

lemma ReadDir_proper:
  assumes "os_ReadDir p f = Inr names" and "fs_proper f"
  shows "list_all proper_name names"
proof -
  have "proper_name (last j)" if "(j, m) \<in> set (fs_nodes f)" "length j = Suc n" for j m n
  proof -
    have "j \<noteq> []" using that(2) by auto
    then show ?thesis using that(1) assms(2) by (auto simp: fs_proper_def list_all_iff)
  qed
  then show ?thesis
    using assms(1) by (auto simp: os_ReadDir_def Let_def list_all_iff split: sum.splits fnode.splits)
qed

lemma clean_orphans_keeps:
  assumes "fs_tmp f = abs_of te" and "list_all proper_name te" and "fs_proper f"
  shows "keeps te f (clean_orphans f)"
  unfolding clean_orphans_def assms(1)
  by (rule remove_orphans_keeps [OF assms(2)]) (auto dest: ReadDir_proper [OF _ assms(3)] split: sum.split)

lemma ReadFile_keeps:
  assumes "os_ReadFile p f = (r, g)"
  shows "keeps te f g"
proof -
  have "snd (os_ReadFile p f) = snd (fs_pop f)"
    by (simp add: os_ReadFile_def split: prod.split sum.split fnode.split option.split io_fault.split)
  with assms keeps_pop [of te f] show ?thesis by simp
qed

lemma start_crypto_keeps: "start_crypto scrypt cy f = (r, g) \<Longrightarrow> keeps te f g"
  by (auto simp: start_crypto_def Let_def dest: ReadFile_keeps split: if_splits prod.splits sum.splits)

lemma Connect_keeps: "Connect dr cfg (d, f) = (r, d', g) \<Longrightarrow> keeps te f g"
  by (auto simp: Connect_def connectSQLite_def Let_def dest: MkdirAll_keeps
      split: prod.splits sum.splits Dialect.splits)

lemma choose_storage_keeps:
  "stc_Type st \<noteq> ''minio'' \<Longrightarrow> choose_storage nc st f = (r, g) \<Longrightarrow> keeps te f g"
  by (auto simp: choose_storage_def dest: MkdirAll_keeps split: prod.splits sum.splits)

lemma SetTempDir_keeps: "SetTempDir dir f svc = (r, g, svc') \<Longrightarrow> keeps te f g"
  by (auto simp: SetTempDir_def dest: MkdirAll_keeps split: if_splits prod.splits sum.splits)

lemma start_services_keeps:
  assumes "start_services st nanos us ds ms dl cs tmp f = (r, g)"
  shows "keeps te f g"
proof -
  obtain svc f1 where n: "NewFileTransferServiceWithRedis st nanos us ds ms dl f = (svc, f1)" by fastforce
  then have "os_MkdirAll (path_Join [fs_tmp f, ''fsserver-uploads-'' @ nanos]) f
      = (fst (os_MkdirAll (path_Join [fs_tmp f, ''fsserver-uploads-'' @ nanos]) f), f1)"
    by (auto simp: NewFileTransferServiceWithRedis_def Let_def)
  note k1 = MkdirAll_keeps [OF this, of te]
  obtain a f2 svc2 where t: "SetTempDir tmp f1 (SetCryptoService cs svc) = (a, f2, svc2)" by (metis surj_pair)
  note k2 = keeps_trans [OF k1 SetTempDir_keeps [OF t]]
  from assms n t have "g = f1 \<or> g = f2" by (cases a) (auto simp: start_services_def Let_def split: if_splits)
  with k1 k2 show ?thesis by blast
qed

lemma wire_services_keeps: "wire_services env coord st cs tmp f = (r, g) \<Longrightarrow> keeps te f g"
  by (auto simp: wire_services_def dest: start_services_keeps split: coordination.splits prod.splits sum.splits)

text \<open>All three services work on the same storage and lock, and the transfer service encrypts with
  the service it was given.\<close>

definition uses :: "'a fs_scheme StorageAdapter \<Rightarrow> 'l DistributedLock \<Rightarrow> CryptoService \<Rightarrow> ('a, 'ss, 'l) services \<Rightarrow> bool" where
  "uses st dl cs s \<longleftrightarrow>
     fmg_storage (sr_fm s) = st \<and> dmg_store (sr_dirSvc s) = Some st \<and> ts_storage (sr_transferSvc s) = st \<and>
     fmg_distLock (sr_fm s) = dl \<and> dmg_distLock (sr_dirSvc s) = Some dl \<and> ts_distLock (sr_transferSvc s) = dl \<and>
     ts_cryptoSvc (sr_transferSvc s) = Some cs"

definition wired_as ::
  "('a, 'p, 't, 's, 'r, 'e) main_env \<Rightarrow> ('s, 'r) coordination \<Rightarrow> 'a fs_scheme StorageAdapter \<Rightarrow> CryptoService
    \<Rightarrow> ('a, 's) wired_services \<Rightarrow> bool"
where
  "wired_as env coord st cs sv =
     (case (coord, sv) of
        (InProcess, LocalServices s) \<Rightarrow> uses st LocalDistributedLock cs s
      | (ThroughRedis c, RedisServices s) \<Rightarrow> uses st (RedisDistributedLock (me_redisServer env) c) cs s
      | _ \<Rightarrow> False)"

lemma start_services_uses: "start_services st nanos us ds ms dl cs tmp f = (Inr s, g) \<Longrightarrow> uses st dl cs s"
proof -
  assume a: "start_services st nanos us ds ms dl cs tmp f = (Inr s, g)"
  obtain svc f1 where n: "NewFileTransferServiceWithRedis st nanos us ds ms dl f = (svc, f1)" by fastforce
  then have svc: "ts_storage svc = st" "ts_distLock svc = dl"
    by (auto simp: NewFileTransferServiceWithRedis_def Let_def)
  have keep: "ts_storage svc2 = ts_storage svc \<and> ts_distLock svc2 = ts_distLock svc \<and> ts_cryptoSvc svc2 = Some cs"
    if "SetTempDir tmp f1 (SetCryptoService cs svc) = (r, f2, svc2)" for r f2 svc2
    using that by (auto simp: SetTempDir_def SetCryptoService_def split: if_splits prod.splits sum.splits)
  obtain r f2 svc2 where t: "SetTempDir tmp f1 (SetCryptoService cs svc) = (r, f2, svc2)" by (metis surj_pair)
  from a n t have "sr_transferSvc s \<in> {svc2, SetCryptoService cs svc} \<and>
      sr_fm s = NewFileManagerWithDistLock st dl \<and> sr_dirSvc s = NewDirectoryManagerWithDistLock st dl"
    by (cases r) (auto simp: start_services_def Let_def split: if_splits)
  with keep [OF t] svc show ?thesis
    by (auto simp: uses_def NewFileManagerWithDistLock_def NewDirectoryManagerWithDistLock_def SetCryptoService_def)
qed

lemma wire_services_wired: "wire_services env coord st cs tmp f = (Inr sv, g) \<Longrightarrow> wired_as env coord st cs sv"
  by (auto simp: wire_services_def wired_as_def dest: start_services_uses split: coordination.splits prod.splits sum.splits)

text \<open>The steps of a start that succeeds.\<close>

lemma main_start_ok:
  assumes "main_start env args w = (Inr st, w')"
  obtains cfg u d f1 m1 store f2 coord s1 em disc e1 cons cs f4 services f5 where
    "load_config env args = Inr cfg" "me_logger env (cfg_Logging cfg) = Inr u"
    "Connect (me_driver env) (cfg_Database cfg) (NewDatabase, wd_fs w) = (Inr (), d, f1)"
    "start_run (me_migration env) (wd_mig w) = (Inr (), m1)"
    "choose_storage (me_minio env) (cfg_Storage cfg) f1 = (Inr store, f2)"
    "choose_coordination (me_redis env) (cfg_Redis cfg) (wd_redis w) = (Inr coord, s1)"
    "start_etcd (me_etcd env) (cfg_Etcd cfg) = Inr em"
    "start_discovery (me_etcd env) (me_json env) (me_hostname env) cfg (wd_etcd w) = (Inr disc, e1)"
    "start_consistency (cfg_Consistency cfg) = Inr cons"
    "start_crypto (me_scrypt env) (cfg_Crypto cfg) (clean_orphans f2) = (Inr cs, f4)"
    "wire_services env coord store cs (stc_TempDir (cfg_Storage cfg)) f4 = (Inr services, f5)"
    "st = \<lparr>su_cfg = cfg, su_db = d, su_store = store, su_coord = coord, su_etcd = em, su_discovery = disc,
       su_consistency = cons, su_auth = start_auth (me_hashApiKey env) (me_nowText env) (cfg_Auth cfg),
       su_crypto = cs, su_cache = choose_cache (me_redis env) cfg, su_services = services,
       su_grpc = sc_GRPCEnabled (cfg_Server cfg)\<rparr>"
    "w' = w\<lparr>wd_fs := f5, wd_mig := m1, wd_redis := s1, wd_etcd := e1\<rparr>"
  using assms unfolding main_start_def Let_def
  by (auto split: sum.splits prod.splits)

lemma load_config_ok:
  assumes "load_config env args = Inr cfg"
  shows "\<exists>c. Validate c = (Inr (), cfg)"
  using assms by (auto simp: load_config_def Let_def split: sum.splits prod.splits)

lemma validated_parts:
  assumes "Validate c = (Inr (), cfg)"
  shows "dc_Type (cfg_Database cfg) = ''postgresql''"
    and "stc_Type (cfg_Storage cfg) = ''local'' \<or> stc_Type (cfg_Storage cfg) = ''minio''"
proof -
  from assms have c: "cfg_Database cfg = cfg_Database c" "cfg_Storage cfg = cfg_Storage c"
    and v: "validateDatabase (cfg_Database c) = Inr ()" "validateStorage (cfg_Storage c) = Inr ()"
    by (auto simp: Validate_ok_iff)
  show "dc_Type (cfg_Database cfg) = ''postgresql''" using v(1) unfolding validateDatabase_def checks_ok c by simp
  show "stc_Type (cfg_Storage cfg) = ''local'' \<or> stc_Type (cfg_Storage cfg) = ''minio''"
    using v(2) unfolding validateStorage_def c by (auto split: if_splits)
qed

lemma start_crypto_enabled:
  assumes "start_crypto scrypt cy f = (Inr cs, g)"
  shows "cs_enabled cs \<longleftrightarrow> cyc_Enabled cy"
proof -
  have init: "Init scrypt key cs0 = (Inr u, cs) \<Longrightarrow> cs_enabled cs" for key u cs0 cs
    by (auto simp: Init_def split: if_splits option.splits sum.splits)
  show ?thesis
    using assms by (auto simp: start_crypto_def Let_def NewCryptoService_def dest!: init
        split: if_splits sum.splits prod.splits)
qed

lemma choose_coordination_redis:
  "choose_coordination nc r s = (Inr coord, s1) \<Longrightarrow>
    coord = (if rc_Enabled r then ThroughRedis (nc r) else InProcess)"
  by (auto simp: choose_coordination_def NewRedisManager_def split: if_splits sum.splits prod.splits)

lemma choose_storage_type:
  "choose_storage nc st f = (Inr store, g) \<Longrightarrow>
    sa_StorageType store = (if stc_Type st = ''minio'' then ''minio'' else ''local'')"
  by (auto simp: choose_storage_def MinIO_adapter_def NewLocalStorage_def split: if_splits sum.splits prod.splits)

lemma start_discovery_registers:
  assumes "start_discovery nc cd host cfg s = (Inr (Some d), s1)" and "etcd_ok (sd_client d) kv calm"
    and "codec_ok cd (this_instance host (cfg_Server cfg))"
  shows "\<exists>b. kv s1 (instance_key d (this_instance host (cfg_Server cfg))) = Some b \<and>
    cd_Unmarshal cd b = Inr (this_instance host (cfg_Server cfg))"
proof -
  let ?i = "this_instance host (cfg_Server cfg)"
  have "run_sd cd d (RegisterOp ?i) s = (Inr (), s1)"
    using assms(1) by (auto simp: start_discovery_def split: if_splits sum.splits prod.splits)
  from run_sd_kv [OF assms(2) this] assms(3) show ?thesis
    by (auto simp: codec_ok_def instance_key_def sd_key_def split: sum.splits)
qed

section \<open>Properties\<close>


text \<open>
  C13: a start loses no file.  With the local storage, whether the start succeeds or fails and
  wherever it fails, every file that was there is still there with its content, except below the
  directories \<open>fsserver-uploads-*\<close> of the temp directory.
\<close>

theorem start_keeps_files:
  assumes "main_start env args w = (r, w')"
    and "\<forall>cfg. load_config env args = Inr cfg \<longrightarrow> stc_Type (cfg_Storage cfg) \<noteq> ''minio''"
    and "fs_tmp (wd_fs w) = abs_of te" and "list_all proper_name te" and "fs_proper (wd_fs w)"
    and "fs_get (wd_fs w) k = Some (FFile b)"
    and "\<forall>name. HasPrefix name ''fsserver-uploads-'' \<longrightarrow> \<not> starts_with (te @ [name]) k"
  shows "fs_get (wd_fs w') k = Some (FFile b)"
proof (cases "load_config env args")
  case (Inr cfg)
  obtain a d f1 where c: "Connect (me_driver env) (cfg_Database cfg) (NewDatabase, wd_fs w) = (a, d, f1)"
    by (metis surj_pair)
  obtain b store f2 where s: "choose_storage (me_minio env) (cfg_Storage cfg) f1 = (b, f2)" by fastforce
  obtain e f4 where y: "start_crypto (me_scrypt env) (cfg_Crypto cfg) (clean_orphans f2) = (e, f4)" by fastforce
  note k1 = Connect_keeps [OF c, of te]
  have k2: "keeps te (wd_fs w) f2" using keeps_trans [OF k1 choose_storage_keeps [OF _ s]] assms(2) Inr by blast
  have "keeps te f2 (clean_orphans f2)" using k2 assms(3-5) by (intro clean_orphans_keeps) (simp_all add: keeps_def)
  note k3 = keeps_trans [OF k2 this]
  note k4 = keeps_trans [OF k3 start_crypto_keeps [OF y]]
  have k5: "keeps te (wd_fs w) (snd (wire_services env coord st cs tmp f4))" for coord st cs tmp
    using keeps_trans [OF k4 wire_services_keeps] by (metis prod.collapse)
  have "wd_fs w' \<in> {wd_fs w, f1, f2, clean_orphans f2, f4} \<or>
      (\<exists>coord st cs tmp. wd_fs w' = snd (wire_services env coord st cs tmp f4))"
    using assms(1) Inr c s y unfolding main_start_def Let_def
    by (auto split: sum.splits prod.splits) (metis snd_conv)+
  with k1 k2 k3 k4 k5 have "keeps te (wd_fs w) (wd_fs w')" by auto
  moreover have "\<not> orphan te k" using assms(7) by (auto simp: orphan_def)
  ultimately show ?thesis using assms(6) by (simp add: keeps_def)
qed (use assms(1,6) in \<open>simp add: main_start_def\<close>)

text \<open>A configuration with encryption, Redis, a shared cache and discovery.\<close>

definition start_config :: Config where
  "start_config = sample_config\<lparr>
     cfg_Storage := (cfg_Storage sample_config)\<lparr>stc_Local := \<lparr>lsc_RootDir = ''/srv/data''\<rparr>\<rparr>,
     cfg_Cache := \<lparr>cc_Enabled = True, cc_Type = ''redis'', cc_TTL = 60, cc_MaxSize = 0\<rparr>,
     cfg_Redis := \<lparr>rc_Enabled = True, rc_Address = ''redis:6379'', rc_Password = [], rc_DB = 0, rc_PoolSize = 0\<rparr>,
     cfg_Etcd := \<lparr>ec_Enabled = True, ec_Endpoints = [''etcd:2379''], ec_Prefix = ''/fs''\<rparr>,
     cfg_Discovery := \<lparr>dsc_Enabled = True, dsc_Type = ''etcd'', dsc_Address = ''etcd:2379'', dsc_Interval = 10\<rparr>,
     cfg_Crypto := \<lparr>cyc_Enabled = True, cyc_Algorithm = ''aes-256-gcm'', cyc_KeyFile = [], cyc_Passphrase = ''secret''\<rparr>\<rparr>"

definition start_main ::
  "(unit, string list, string, mem_db \<times> delivery list, mem_db, (string \<times> string) list) main_env"
where
  "start_main =
     \<lparr>me_readFile = (\<lambda>_. Inr []), me_unmarshal = (\<lambda>_ _. Inr start_config), me_zero = sample_config,
      me_logger = (\<lambda>_. Inr ()), me_driver = log_driver,
      me_migration = \<lparr>st_clock = (\<lambda>_. ''t''), st_faults = [], st_up_faults = []\<rparr>,
      me_minio = (\<lambda>_. Inl (Ext ''no such host'')), me_redisServer = mem_redis,
      me_redis = (\<lambda>_. Redis.mem_client), me_etcd = (\<lambda>_. Inr mem_etcd),
      me_json = node_codec, me_hostname = ''h1'', me_scrypt = (\<lambda>k salt. Inr (replicate 32 (CHR ''k''))),
      me_hashApiKey = id, me_nowText = ''t'', me_nanos = ''9'', me_upload = no_codec, me_download = no_codec, me_multipart = no_codec\<rparr>"

definition start_fs :: fs where
  "start_fs =
     \<lparr>fs_nodes = [([''srv''], FDir), ([''srv'', ''data''], FDir), ([''srv'', ''data'', ''a''], FFile ''kept''), ([''tmp''], FDir),
        ([''tmp'', ''fsserver-uploads-7''], FDir), ([''tmp'', ''fsserver-uploads-7'', ''x''], FFile ''part''),
        ([''tmp'', ''other''], FFile ''kept'')],
      fs_cwd = Some ''/'', fs_tmp = ''/tmp'', fs_dirsize = 4096, fs_io = []\<rparr>"

definition start_world :: "(fs, mem_db \<times> delivery list, (string \<times> string) list) world" where
  "start_world = \<lparr>wd_fs = start_fs, wd_mig = fresh_db, wd_redis = (Map.empty, []), wd_etcd = []\<rparr>"

lemma start_loads:
  "load_config start_main [] = Inr (snd (Validate (applyDefaults start_config)))"
proof -
  have "Load (me_readFile start_main) (me_unmarshal start_main) ''config.yaml'' (me_zero start_main)
      = Inr (applyDefaults start_config)" by (simp add: Load_def start_main_def)
  moreover have "fst (Validate (applyDefaults start_config)) = Inr ()" by code_simp
  ultimately show ?thesis by (cases "Validate (applyDefaults start_config)") (simp add: load_config_def)
qed

lemma start_connects:
  "\<exists>d. Connect (me_driver start_main) (cfg_Database (snd (Validate (applyDefaults start_config)))) (NewDatabase, wd_fs start_world)
     = (Inr (), d, start_fs)"
proof -
  have "DialectFromString (dc_Type (cfg_Database (snd (Validate (applyDefaults start_config))))) = DialectPostgreSQL"
    by code_simp
  then show ?thesis
    by (simp add: Connect_def connectPostgreSQL_def start_main_def log_driver_def start_world_def Let_def)
qed

lemma start_stores:
  "\<not> isl (fst (choose_storage (me_minio start_main) (cfg_Storage (snd (Validate (applyDefaults start_config)))) start_fs))"
  by code_simp

lemma start_coordinates:
  "\<not> isl (fst (choose_coordination (me_redis start_main) (cfg_Redis (snd (Validate (applyDefaults start_config)))) (wd_redis start_world)))"
  by code_simp

lemma start_etcds:
  "\<not> isl (start_etcd (me_etcd start_main) (cfg_Etcd (snd (Validate (applyDefaults start_config)))))"
  by code_simp

lemma start_discovers:
  "\<exists>disc e1. start_discovery (me_etcd start_main) (me_json start_main) (me_hostname start_main) cfg s = (Inr disc, e1)"
  by (simp add: start_discovery_def NewServiceDiscovery_def SD_Register_def start_main_def mem_etcd_def node_codec_def)

lemma start_consistent: "\<not> isl (start_consistency (cfg_Consistency (snd (Validate (applyDefaults start_config)))))"
  by code_simp

lemma start_crypts:
  "\<not> isl (fst (start_crypto (me_scrypt start_main) (cfg_Crypto (snd (Validate (applyDefaults start_config)))) f))"
  by code_simp

lemma start_runs: "\<exists>st w'. main_start start_main [] start_world = (Inr st, w')"
proof -
  let ?cfg = "snd (Validate (applyDefaults start_config))"
  obtain d f1 where c: "Connect (me_driver start_main) (cfg_Database ?cfg) (NewDatabase, wd_fs start_world) = (Inr (), d, f1)"
    and f1: "f1 = start_fs" using start_connects by blast
  have "fst (start_run (me_migration start_main) fresh_db) = Inr ()"
    by (rule start_run_calm [OF started_fresh]) (simp_all add: start_main_def)
  then obtain m1 where m: "start_run (me_migration start_main) (wd_mig start_world) = (Inr (), m1)"
    by (metis prod.collapse start_world_def world.select_convs(2))
  obtain store f2 where s: "choose_storage (me_minio start_main) (cfg_Storage ?cfg) f1 = (Inr store, f2)"
    using start_stores f1 by (cases "choose_storage (me_minio start_main) (cfg_Storage ?cfg) f1"; cases "fst (choose_storage (me_minio start_main) (cfg_Storage ?cfg) f1)") auto
  obtain coord s1 where r: "choose_coordination (me_redis start_main) (cfg_Redis ?cfg) (wd_redis start_world) = (Inr coord, s1)"
    using start_coordinates by (metis isl_def obj_sumE prod.collapse)
  obtain em where e: "start_etcd (me_etcd start_main) (cfg_Etcd ?cfg) = Inr em"
    using start_etcds by (metis isl_def obj_sumE)
  obtain disc e1 where di: "start_discovery (me_etcd start_main) (me_json start_main) (me_hostname start_main) ?cfg (wd_etcd start_world) = (Inr disc, e1)"
    using start_discovers by blast
  obtain cons where q: "start_consistency (cfg_Consistency ?cfg) = Inr cons"
    using start_consistent by (metis isl_def obj_sumE)
  obtain cs f4 where y: "start_crypto (me_scrypt start_main) (cfg_Crypto ?cfg) (clean_orphans f2) = (Inr cs, f4)"
    using start_crypts [of "clean_orphans f2"] by (metis isl_def obj_sumE prod.collapse)
  have "stc_TempDir (cfg_Storage ?cfg) = []" by code_simp
  then obtain sv f5 where sv: "wire_services start_main coord store cs (stc_TempDir (cfg_Storage ?cfg)) f4 = (Inr sv, f5)"
    by (cases coord) (simp_all add: wire_services_def start_services_def NewFileTransferServiceWithRedis_def Let_def)
  have "me_logger start_main (cfg_Logging ?cfg) = Inr ()" by (simp add: start_main_def)
  with start_loads c m s r e di q y sv show ?thesis by (simp add: main_start_def Let_def)
qed


lemma start_fs_proper: "fs_proper start_fs"
proof -
  have "list_all (\<lambda>(j, m). list_all proper_name j) (fs_nodes start_fs)" by code_simp
  then show ?thesis by (auto simp: fs_proper_def list_all_iff)
qed

theorem start_keeps_files_witness:
  "fs_get (wd_fs (snd (main_start start_main [] start_world))) [''srv'', ''data'', ''a''] = Some (FFile ''kept'')"
proof -
  obtain r w' where run: "main_start start_main [] start_world = (r, w')" by (metis surj_pair)
  have st: "stc_Type (cfg_Storage (snd (Validate (applyDefaults start_config)))) \<noteq> ''minio''" by code_simp
  have loc: "\<forall>cfg. load_config start_main [] = Inr cfg \<longrightarrow> stc_Type (cfg_Storage cfg) \<noteq> ''minio''"
    using st by (simp add: start_loads)
  have w: "wd_fs start_world = start_fs" by (simp add: start_world_def)
  have tmp: "fs_tmp (wd_fs start_world) = abs_of [''tmp'']" "list_all proper_name [''tmp'']" by code_simp+
  have proper: "fs_proper (wd_fs start_world)" unfolding w by (rule start_fs_proper)
  have a: "fs_get (wd_fs start_world) [''srv'', ''data'', ''a''] = Some (FFile ''kept'')" by code_simp
  have safe: "\<forall>name. HasPrefix name ''fsserver-uploads-'' \<longrightarrow> \<not> starts_with ([''tmp''] @ [name]) [''srv'', ''data'', ''a'']"
    by (simp add: starts_with_def)
  from start_keeps_files [OF run loc tmp proper a safe] run show ?thesis by simp
qed

text \<open>A key file that ends with a newline is not read as the hexadecimal key it holds: the text is
  taken as a passphrase.\<close>

lemma key_file_newline:
  assumes "hex_DecodeString (key @ [CHR 0x0A]) = None" and "scrypt (key @ [CHR 0x0A]) ''fssvrgo-v1-aes256-gcm'' = Inr k"
  shows "Init scrypt (key @ [CHR 0x0A]) NewCryptoService = (Inr (), \<lparr>cs_key = k, cs_enabled = True\<rparr>)"
  using assms by (simp add: Init_def)

end
