(* ===== verification/Spec2Isabelle.thy ===== *)
theory Spec2Isabelle
  imports Path_Locks Lock_Order Directory_Manager Multipart_Integrity Audit_Writer Cleanup Auth File_Listing Config Http_Files Grpc_Files Startup
begin

text \<open>
  A verification development for \<open>fssvrgo\<close>, a file server written in Go.

  \<^bold>\<open>The program.\<close>  \<open>src/cmd/fsserver/main.go\<close> reads the configuration, connects to the
  database, runs the migrations, chooses a storage (a directory or an S3 bucket), a lock, a session
  store and a cache (in the process or in Redis), and starts an HTTP and a gRPC server.  Both servers
  authenticate a request, check its permission, and call the file manager, the directory manager,
  the listing or the transfer service.  These keep the records of files and directories in SQL
  tables and the bytes in the storage, and serialize work on a path by mutexes and by the
  distributed lock.  Beside the requests run the audit writer, the clean-up of deleted files, the
  clean-up of transfer sessions and the renewal of locks.

  \<^bold>\<open>Theories, from the bottom.\<close>
  \<^item> \<open>Prelude\<close>: strings, bytes, 64-bit integers, errors as the left side of a sum, readers,
    and the lemmas the components share.
  \<^item> \<open>Paths\<close> (\<open>utils.go\<close>, \<open>path.Clean\<close>): names and paths; an accepted path cannot
    leave the storage root.
  \<^item> \<open>Filesystem\<close>: the part of \<open>os\<close> and \<open>path/filepath\<close> that the server uses, on a tree
    without symbolic links, with a list of faults.  \<open>Storage\<close> (\<open>local.go\<close>,
    \<open>tempfile.go\<close>, \<open>errors.go\<close>), \<open>Storage_Contract\<close>: the local storage, the contract
    \<open>object_storage\<close> and \<open>storage\<close> the services rely on, and that \<open>LocalStorage\<close>
    fulfils it.  \<open>Minio\<close> (\<open>minio.go\<close>): the object store over its client library.
  \<^item> \<open>Sql\<close> (\<open>dialect.go\<close>, \<open>db.go\<close>): dialects, placeholders, \<open>LIKE\<close>, tables as lists
    of rows with a list of faults.  \<open>Database\<close> (\<open>database.go\<close>, \<open>db.go\<close>): opening the
    pool and the cache of prepared statements, which cannot be observed.  \<open>Metadata\<close>
    (\<open>metadata.go\<close>): the five services, their invariant, and the contract \<open>soft_table\<close> of the
    two that delete softly.  \<open>Migration\<close> (\<open>migration.go\<close>), \<open>Schema\<close> (the migration in
    \<open>main.go\<close>, \<open>InitTables\<close>): migrations in order, and the schema after any number of failed
    starts.
  \<^item> \<open>Dist_Lock\<close> (\<open>lock.go\<close>), \<open>Session_Store\<close> (\<open>session.go\<close>): the in-process lock and
    session store, retries, renewal, and the contracts \<open>lock_service\<close>, \<open>dist_lock\<close> and
    \<open>session_store\<close>.  \<open>Redis\<close> (\<open>redis.go\<close>, the rest of \<open>lock.go\<close> and
    \<open>session.go\<close>, \<open>cache/redis.go\<close>): the same contracts over a Redis server whose replies may
    get lost.  \<open>Cache_LRU\<close> (\<open>cache.go\<close>): the in-memory cache refines an LRU list.
    \<open>Path_Locks\<close>: the mutexes per path and their clean-up as interleaved steps;
    \<open>Lock_Order\<close>: the two mutexes of a rename, which cannot deadlock.
  \<^item> \<open>File_Manager\<close> (\<open>filemanager/manager.go\<close>), \<open>Directory_Manager\<close>
    (\<open>directory/manager.go\<close>), \<open>File_Listing\<close> (\<open>filelist/service.go\<close>): what uploads,
    deletions, renames and listings do to records and objects, failures included.
  \<^item> \<open>Transfer_Service\<close>, \<open>Transfer_Integrity\<close> (\<open>transfer/service.go\<close>),
    \<open>Multipart_Ranges\<close>, \<open>Multipart\<close>, \<open>Multipart_Integrity\<close>
    (\<open>transfer/multipart.go\<close>): sessions; both kinds of upload fulfil the contract
    \<open>chunked_upload\<close>, from which follows what a completed upload has stored.
  \<^item> \<open>Crypto\<close>, \<open>Jwt\<close>, \<open>Auth\<close>, \<open>Audit_Writer\<close>, \<open>Cleanup\<close>, \<open>Consistency\<close>,
    \<open>Config\<close>: the files of these names.
  \<^item> \<open>Api\<close>, \<open>Http_Handlers\<close>, \<open>Http_Server\<close> (\<open>api/http/server.go\<close>), with the
    properties in \<open>Http_Access\<close> and \<open>Http_Files\<close>; \<open>Grpc_Server\<close>
    (\<open>api/grpc/server.go\<close>), with those in \<open>Grpc_Files\<close>: who gets through to a handler, and
    that what was uploaded is downloaded.
  \<^item> \<open>Discovery\<close> (\<open>etcd.go\<close>, \<open>discovery.go\<close>): keys and the registry of instances.
    \<open>Startup\<close> (\<open>main.go\<close>): \<open>main_start\<close> composes all of this; a server that starts runs
    on what was configured, and no start loses a file.

  \<^bold>\<open>How state and operations correspond.\<close>  A struct is a record, an interface a record of
  functions, a method a function from its arguments and the state to the result and the new state.
  Every early return with an error is a branch.  What the code reads from outside is an argument:
  clocks, UUIDs, the outcome of statements and of file operations (lists of faults), the order in which
  a map is traversed, the schedule of goroutines.  Operations that run under a lock are atomic
  steps; where the code has races, the steps are separate: the audit writer, the renewal, the eviction
  of sessions, the refresh of tokens, the path locks, the clean-up.

  \<^bold>\<open>Parameters.\<close>  Libraries that are not part of the repository are arguments: AES-GCM and
  scrypt, the JWT library, JSON codecs, the SQL driver, the clients of MinIO, Redis and etcd, SHA-256.
  What the theorems need of them are named hypotheses that state documented behaviour (for example
  \<open>redis_ok\<close>, \<open>etcd_ok\<close>, \<open>prepares\<close>, \<open>codec_ok\<close>); each has an instance in memory for
  which it is proved, and the witnesses use it.

  \<^bold>\<open>Loops.\<close>  Loops over data are structural recursions.  The batches of a recursive deletion
  and the messages of a download terminate by a measure (visible records, rest of the file), so that no
  fuel is needed.  The retries of a lock are bounded by the count of the code.

  \<^bold>\<open>What does not hold.\<close>  Beside the properties there are lemmas that exhibit the opposite of what
  the code intends, such as \<open>clean_up_ends_process\<close>, \<open>upload_gap_accepted\<close>,
  \<open>cleanup_races_with_upload\<close>, \<open>redis_extend_drops_lock\<close> and
  \<open>directory_lock_not_renewed\<close>.  Where a property needs a hypothesis to exclude such a case, the
  hypothesis is in its statement.

  \<^bold>\<open>Not modelled.\<close>  The logger and the metrics, which nothing reads back; the generated code of
  the protocol; listening on ports, TLS, signals and shutdown; the tickers that start the periodic
  runs, each run being a definition; the expiry of leases inside etcd; the helpers of the tests.
  Hashes of files and the formatting of times are arguments.
\<close>

end
